(* ===== verification/Prelude.thy ===== *)
theory Prelude
  imports Main "HOL-Library.AList"
begin

text \<open>
  Shared material of the development: the machine arithmetic of \<open>usize\<close>, results as values,
  the insertion-ordered map the coordinator keeps its records in, and the interfaces
  (locales) that several components provide or rely on.

  \<^item> \<open>usize\<close> is \<open>nat\<close> with the 64-bit ceiling written out where the source writes
    \<open>checked_add\<close> or \<open>saturating_add\<close>. Plain \<open>+\<close> on sizes of values that are held in
    memory is exact.
  \<^item> A fallible function returns \<open>'e + 'a\<close> (\<open>Inl\<close> is \<open>Err\<close>). A method on
    \<open>&mut self\<close> that can fail returns the state beside the result, also on failure, so
    that \<open>a rejected operation changes nothing\<close> is a theorem and not a convention.
  \<^item> \<open>IndexMap\<close> is an association list in insertion order: \<open>map_of\<close> looks a key up,
    \<open>AList.update\<close> inserts at the end or replaces in place, \<open>im_modify\<close> is a write
    through \<open>get_mut\<close>.
\<close>

named_theorems budget_simps \<open>unfolding rules of the byte budgets\<close>
named_theorems index_map_simps \<open>lookup after insertion and modification\<close>

section \<open>Machine arithmetic\<close>

definition USIZE_MAX :: nat where
  "USIZE_MAX = 2 ^ 64 - 1"

definition checked_add :: "nat \<Rightarrow> nat \<Rightarrow> nat option" where
  "checked_add a b = (if a + b \<le> USIZE_MAX then Some (a + b) else None)"

definition saturating_add :: "nat \<Rightarrow> nat \<Rightarrow> nat" where
  "saturating_add a b = min (a + b) USIZE_MAX"

definition saturating_sub :: "nat \<Rightarrow> nat \<Rightarrow> nat" where
  "saturating_sub a b = a - b"

lemma checked_add_eq_Some [simp]: "checked_add a b = Some c \<longleftrightarrow> c = a + b \<and> a + b \<le> USIZE_MAX"
  by (auto simp: checked_add_def)

lemma checked_add_eq_None [simp]: "checked_add a b = None \<longleftrightarrow> USIZE_MAX < a + b"
  by (auto simp: checked_add_def)

lemma saturating_add_le: "saturating_add a b \<le> USIZE_MAX"
  by (simp add: saturating_add_def)

lemma saturating_add_exact: "a + b \<le> USIZE_MAX \<Longrightarrow> saturating_add a b = a + b"
  by (simp add: saturating_add_def)

lemma saturating_add_mono_left: "a \<le> USIZE_MAX \<Longrightarrow> a \<le> saturating_add a b"
  by (simp add: saturating_add_def)

section \<open>Results, atomic updates\<close>

type_synonym ('s, 'e, 'a) outcome = "'s \<times> ('e + 'a)"

definition is_ok :: "'e + 'a \<Rightarrow> bool" where
  "is_ok r \<longleftrightarrow> (case r of Inl _ \<Rightarrow> False | Inr _ \<Rightarrow> True)"

lemma is_ok_simps [simp]: "is_ok (Inr a)" "\<not> is_ok (Inl e)"
  by (simp_all add: is_ok_def)

text \<open>\<open>AtomicUsize::fetch_update\<close>: one atomic read-modify-write, or no write at all.\<close>

definition fetch_update :: "(nat \<Rightarrow> nat option) \<Rightarrow> nat \<Rightarrow> nat \<times> bool" where
  "fetch_update f cell = (case f cell of None \<Rightarrow> (cell, False) | Some v \<Rightarrow> (v, True))"

section \<open>Insertion-ordered maps\<close>

type_synonym ('k, 'v) index_map = "('k \<times> 'v) list"

definition im_modify :: "'k \<Rightarrow> ('v \<Rightarrow> 'v) \<Rightarrow> ('k, 'v) index_map \<Rightarrow> ('k, 'v) index_map" where
  "im_modify k f m = map (\<lambda>(j, v). (j, if j = k then f v else v)) m"

text \<open>
  What a client of a keyed store relies on: what a lookup returns after an insertion or a
  write in place, and what happens to the order of the keys.
\<close>

locale keyed_store =
  fixes get :: "'s \<Rightarrow> 'k \<Rightarrow> 'v option"
    and put :: "'k \<Rightarrow> 'v \<Rightarrow> 's \<Rightarrow> 's"
    and modify :: "'k \<Rightarrow> ('v \<Rightarrow> 'v) \<Rightarrow> 's \<Rightarrow> 's"
    and keys :: "'s \<Rightarrow> 'k list"
  assumes get_put: "get (put k v s) j = (if j = k then Some v else get s j)"
    and get_modify: "get (modify k f s) j = (if j = k then map_option f (get s j) else get s j)"
    and keys_put: "keys (put k v s) = (if k \<in> set (keys s) then keys s else keys s @ [k])"
    and keys_modify: "keys (modify k f s) = keys s"
    and keys_get: "k \<in> set (keys s) \<longleftrightarrow> get s k \<noteq> None"
begin

definition all_entries :: "('k \<Rightarrow> 'v \<Rightarrow> bool) \<Rightarrow> 's \<Rightarrow> bool" where
  "all_entries P s \<longleftrightarrow> (\<forall>k v. get s k = Some v \<longrightarrow> P k v)"

lemma all_entriesI: "(\<And>k v. get s k = Some v \<Longrightarrow> P k v) \<Longrightarrow> all_entries P s"
  by (simp add: all_entries_def)

lemma all_entriesD: "all_entries P s \<Longrightarrow> get s k = Some v \<Longrightarrow> P k v"
  by (simp add: all_entries_def)

lemma all_entries_put: "all_entries P s \<Longrightarrow> P k v \<Longrightarrow> all_entries P (put k v s)"
  by (simp add: all_entries_def get_put)

lemma all_entries_modify:
  "all_entries P s \<Longrightarrow> (\<And>v. get s k = Some v \<Longrightarrow> P k v \<Longrightarrow> P k (f v)) \<Longrightarrow>
   all_entries P (modify k f s)"
  by (auto simp: all_entries_def get_modify split: if_splits)

lemma distinct_put: "distinct (keys s) \<Longrightarrow> distinct (keys (put k v s))"
  by (simp add: keys_put)

lemma length_put_fresh: "get s k = None \<Longrightarrow> length (keys (put k v s)) = Suc (length (keys s))"
  by (simp add: keys_put keys_get)

lemma keys_put_fresh: "get s k = None \<Longrightarrow> keys (put k v s) = keys s @ [k]"
  by (simp add: keys_put keys_get)

lemma distinct_modify: "distinct (keys s) \<Longrightarrow> distinct (keys (modify k f s))"
  by (simp add: keys_modify)

end

lemma map_of_im_modify [index_map_simps]:
  "map_of (im_modify k f m) j = (if j = k then map_option f (map_of m j) else map_of m j)"
  by (induction m) (auto simp: im_modify_def)

lemma keys_im_modify [index_map_simps]: "map fst (im_modify k f m) = map fst m"
  by (induction m) (auto simp: im_modify_def)

lemma length_im_modify [simp]: "length (im_modify k f m) = length m"
  by (simp add: im_modify_def)

lemma keys_alist_update: "map fst (AList.update k v m) = (if k \<in> set (map fst m) then map fst m else map fst m @ [k])"
  by (simp add: update_keys)

interpretation im: keyed_store map_of AList.update im_modify "map fst"
proof unfold_locales
  fix m :: "('k, 'v) index_map" and k j v
  show "map_of (AList.update k v m) j = (if j = k then Some v else map_of m j)"
    by (simp add: update_conv')
next
  fix m :: "('k, 'v) index_map" and k
  show "k \<in> set (map fst m) \<longleftrightarrow> map_of m k \<noteq> None"
    by (simp add: map_of_eq_None_iff)
qed (simp_all only: map_of_im_modify keys_im_modify keys_alist_update)

lemmas im_get_put [index_map_simps] = im.get_put
lemmas im_keys_put [index_map_simps] = im.keys_put

lemma map_of_in_set: "map_of m k = Some v \<Longrightarrow> (k, v) \<in> set m"
  by (rule map_of_SomeD)

lemma alist_update_fresh: "map_of m k = None \<Longrightarrow> AList.update k v m = m @ [(k, v)]"
  by (induction m) (auto split: if_splits)

lemma im_modify_absent: "map_of m k = None \<Longrightarrow> im_modify k f m = m"
  by (induction m) (auto simp: im_modify_def split: if_splits)

lemma im_modify_Cons:
  "im_modify k f ((j, v) # m) = (j, if j = k then f v else v) # im_modify k f m"
  by (simp add: im_modify_def)

text \<open>A write in place changes how many entries satisfy a predicate by at most the entry written.\<close>

lemma im_count_modify:
  assumes "distinct (map fst m)" and "map_of m k = Some v"
  shows "length (filter P (im_modify k f m)) + (if P (k, v) then 1 else 0) =
    length (filter P m) + (if P (k, f v) then 1 else 0)"
  using assms
proof (induction m)
  case (Cons e m)
  obtain j w where e: "e = (j, w)" by fastforce
  show ?case
  proof (cases "j = k")
    case True
    with Cons.prems e have "map_of m k = None" and "w = v" by (auto simp: map_of_eq_None_iff)
    with True e show ?thesis by (simp add: im_modify_Cons im_modify_absent)
  next
    case False
    with Cons e show ?thesis by (auto simp: im_modify_Cons)
  qed
qed simp

lemma im_modify_map_entries:
  "distinct ks \<Longrightarrow> im_modify k f (map (\<lambda>j. (j, g j)) ks) = map (\<lambda>j. (j, if j = k then f (g j) else g j)) ks"
  by (simp add: im_modify_def)

section \<open>Byte budgets as an interface\<close>

text \<open>
  Two components keep a cumulative byte count under a ceiling: the response budget and the
  retained-checkpoint budget. Their clients rely on the same contract: a charge is taken in
  full or not at all, and it is refused exactly when it would pass the ceiling.
\<close>

locale byte_budget =
  fixes try_charge :: "'b \<Rightarrow> nat \<Rightarrow> 'b option"
    and used :: "'b \<Rightarrow> nat"
    and ceiling :: "'b \<Rightarrow> nat"
  assumes charge_used: "try_charge b n = Some b' \<Longrightarrow> used b' = used b + n"
    and charge_ceiling: "try_charge b n = Some b' \<Longrightarrow> ceiling b' = ceiling b"
    and charge_bounded: "try_charge b n = Some b' \<Longrightarrow> used b' \<le> ceiling b"
    and charge_refused: "try_charge b n = None \<Longrightarrow> ceiling b \<le> USIZE_MAX \<Longrightarrow> ceiling b < used b + n"
begin

primrec charge_all :: "'b \<Rightarrow> nat list \<Rightarrow> 'b \<times> nat list" where
  "charge_all b [] = (b, [])"
| "charge_all b (n # ns) =
     (case try_charge b n of
        None \<Rightarrow> charge_all b ns
      | Some b' \<Rightarrow> (case charge_all b' ns of (b'', taken) \<Rightarrow> (b'', n # taken)))"

lemma charge_all_used: "charge_all b ns = (b', taken) \<Longrightarrow> used b' = used b + sum_list taken"
  by (induction ns arbitrary: b b' taken)
    (auto dest: charge_used split: option.splits prod.splits)

lemma charge_all_ceiling: "charge_all b ns = (b', taken) \<Longrightarrow> ceiling b' = ceiling b"
  by (induction ns arbitrary: b b' taken)
    (auto dest: charge_ceiling split: option.splits prod.splits)

lemma charge_all_bounded:
  "charge_all b ns = (b', taken) \<Longrightarrow> used b \<le> ceiling b \<Longrightarrow> used b' \<le> ceiling b"
proof (induction ns arbitrary: b b' taken)
  case (Cons n ns)
  show ?case
  proof (cases "try_charge b n")
    case (Some c)
    then have "used c \<le> ceiling c" and "ceiling c = ceiling b"
      using charge_bounded charge_ceiling by auto
    with Cons.prems Some show ?thesis
      using Cons.IH [of c b'] by (auto split: prod.splits)
  qed (use Cons in auto)
qed simp

end

text \<open>A budget whose charges are returned when their owner is dropped.\<close>

locale refundable_budget = byte_budget +
  fixes refund :: "nat \<Rightarrow> 'a \<Rightarrow> 'a"
  assumes refund_used: "n \<le> used b \<Longrightarrow> used b \<le> USIZE_MAX \<Longrightarrow> used (refund n b) = used b - n"
    and refund_ceiling: "ceiling (refund n b) = ceiling b"
begin

lemma charge_refund_used:
  assumes "try_charge b n = Some b'" and "ceiling b \<le> USIZE_MAX"
  shows "used (refund n b') = used b"
proof -
  have "used b' = used b + n" and "used b' \<le> USIZE_MAX"
    using charge_used charge_bounded [OF assms(1)] assms by auto
  then show ?thesis by (simp add: refund_used)
qed

lemma charge_after_refund:
  assumes "try_charge b n = Some b'" and "m \<le> n" and "ceiling b \<le> USIZE_MAX"
  shows "\<exists>b''. try_charge (refund n b') m = Some b''"
proof (rule ccontr)
  assume none: "\<nexists>b''. try_charge (refund n b') m = Some b''"
  then have "ceiling (refund n b') < used (refund n b') + m"
    using charge_refused [of "refund n b'" m] assms
    by (auto simp: refund_ceiling charge_ceiling)
  moreover have "used b + n \<le> ceiling b"
    using charge_bounded charge_used assms(1) by fastforce
  ultimately show False
    using assms charge_refund_used [OF assms(1,3)] by (auto simp: refund_ceiling charge_ceiling)
qed

text \<open>Returning every charge of a set of owners takes exactly their sum off the count.\<close>

lemma refund_all:
  "sum_list ns \<le> used b \<Longrightarrow> used b \<le> USIZE_MAX \<Longrightarrow>
   used (fold refund ns b) = used b - sum_list ns \<and> ceiling (fold refund ns b) = ceiling b"
proof (induction ns arbitrary: b)
  case (Cons n ns)
  then have "used (refund n b) = used b - n" by (simp add: refund_used)
  with Cons show ?case by (simp add: refund_ceiling)
qed simp

end

section \<open>Invariants of transition systems\<close>

inductive reachable_from :: "('s \<Rightarrow> bool) \<Rightarrow> ('s \<Rightarrow> 's \<Rightarrow> bool) \<Rightarrow> 's \<Rightarrow> bool"
  for starts :: "'s \<Rightarrow> bool" and steps :: "'s \<Rightarrow> 's \<Rightarrow> bool"
where
  start: "starts s \<Longrightarrow> reachable_from starts steps s"
| step: "reachable_from starts steps s \<Longrightarrow> steps s t \<Longrightarrow> reachable_from starts steps t"

locale invariant_system =
  fixes starts :: "'s \<Rightarrow> bool"
    and steps :: "'s \<Rightarrow> 's \<Rightarrow> bool"
    and inv :: "'s \<Rightarrow> bool"
  assumes inv_start: "starts s \<Longrightarrow> inv s"
    and inv_step: "inv s \<Longrightarrow> steps s t \<Longrightarrow> inv t"
begin

lemma inv_reachable: "reachable_from starts steps s \<Longrightarrow> inv s"
  by (induction rule: reachable_from.induct) (auto intro: inv_start inv_step)

end

section \<open>Lists\<close>

text \<open>\<open>Iterator::find_map\<close>.\<close>

fun find_map :: "('a \<Rightarrow> 'b option) \<Rightarrow> 'a list \<Rightarrow> 'b option" where
  "find_map f [] = None"
| "find_map f (x # xs) = (case f x of None \<Rightarrow> find_map f xs | Some y \<Rightarrow> Some y)"

lemma find_map_Some: "find_map f xs = Some y \<Longrightarrow> \<exists>x\<in>set xs. f x = Some y"
  by (induction xs) (auto split: option.splits)

lemma find_map_None: "find_map f xs = None \<longleftrightarrow> (\<forall>x\<in>set xs. f x = None)"
  by (induction xs) (auto split: option.splits)

lemma find_None_conv: "List.find P xs = None \<longleftrightarrow> (\<forall>x\<in>set xs. \<not> P x)"
  by (auto simp: find_None_iff)

lemma filter_map_fst_in: "x \<in> set (filter P m) \<Longrightarrow> fst x \<in> set (map fst m)"
  by auto


text \<open>\<open>Iterator::rposition\<close>.\<close>

fun rposition :: "('a \<Rightarrow> bool) \<Rightarrow> 'a list \<Rightarrow> nat option" where
  "rposition P [] = None"
| "rposition P (x # xs) =
     (case rposition P xs of Some i \<Rightarrow> Some (Suc i) | None \<Rightarrow> if P x then Some 0 else None)"

lemma rposition_None: "rposition P xs = None \<longleftrightarrow> (\<forall>x\<in>set xs. \<not> P x)"
  by (induction xs) (auto split: option.splits)

lemma rposition_split:
  "P x \<Longrightarrow> \<forall>y\<in>set after. \<not> P y \<Longrightarrow> rposition P (before @ x # after) = Some (length before)"
  by (induction before) (auto simp: rposition_None [THEN iffD2])

lemma rposition_Some_split:
  "rposition P xs = Some i \<Longrightarrow>
   \<exists>before x after. xs = before @ x # after \<and> length before = i \<and> P x \<and> (\<forall>y\<in>set after. \<not> P y)"
proof (induction xs arbitrary: i)
  case (Cons a xs)
  show ?case
  proof (cases "rposition P xs")
    case None
    with Cons.prems show ?thesis
      by (intro exI [of _ "[]"] exI [of _ a] exI [of _ xs]) (auto simp: rposition_None split: if_splits)
  next
    case (Some j)
    from Cons.IH [OF this] obtain b x c where "xs = b @ x # c" "length b = j" "P x" "\<forall>y\<in>set c. \<not> P y" by blast
    with Cons.prems Some show ?thesis
      by (intro exI [of _ "a # b"] exI [of _ x] exI [of _ c]) auto
  qed
qed simp

end
