(* ===== verification/Agent_Identity.thy ===== *)
theory Agent_Identity
  imports Prelude
begin

text \<open>
  Gateway agent identities, turn keys and mail (\<open>types/agent.rs\<close>) and the lifecycle states of
  \<open>types/agent_tree.rs\<close>. An identity is the canonical path itself; \<open>identity_try_from\<close> is its only
  constructor besides \<open>root\<close> and \<open>child\<close>. Strings are UTF-8 bytes. A turn id is a fresh UUID in
  the source: here a number that the caller supplies wherever the source draws one.
\<close>

section \<open>Paths\<close>

type_synonym agent_identity = string
type_synonym agent_turn_id = nat

datatype invalid_agent_identity = InvalidAgentIdentity

definition root :: agent_identity where
  "root = ''/root''"

definition is_root :: "agent_identity \<Rightarrow> bool" where
  "is_root identity \<longleftrightarrow> identity = root"

text \<open>\<open>str::split('/')\<close>: the empty string has one empty component.\<close>

fun split_slash :: "string \<Rightarrow> string list" where
  "split_slash [] = [[]]"
| "split_slash (c # cs) =
     (if c = CHR 0x2F then [] # split_slash cs
      else case split_slash cs of [] \<Rightarrow> [[c]] | w # ws \<Rightarrow> (c # w) # ws)"

text \<open>\<open>char::is_control\<close> on UTF-8: U+0000 to U+001F and U+007F to U+009F.\<close>

fun has_control :: "nat list \<Rightarrow> bool" where
  "has_control [] \<longleftrightarrow> False"
| "has_control (b # bs) \<longleftrightarrow>
     b < 0x20 \<or> b = 0x7F \<or> (b = 0xC2 \<and> (case bs of [] \<Rightarrow> False | c # _ \<Rightarrow> 0x80 \<le> c \<and> c \<le> 0x9F)) \<or> has_control bs"

definition valid_component :: "string \<Rightarrow> bool" where
  "valid_component component \<longleftrightarrow>
     component \<noteq> [] \<and> component \<noteq> ''.'' \<and> component \<noteq> ''..'' \<and> CHR 0x2F \<notin> set component \<and>
     \<not> has_control (map of_char component)"

definition child :: "agent_identity \<Rightarrow> string \<Rightarrow> invalid_agent_identity + agent_identity" where
  "child identity task_name =
     (if \<not> valid_component task_name then Inl InvalidAgentIdentity
      else Inr (identity @ ''/'' @ task_name))"

definition identity_try_from :: "string \<Rightarrow> invalid_agent_identity + agent_identity" where
  "identity_try_from value =
     (case split_slash value of
        c # r # components \<Rightarrow>
          if c \<noteq> [] \<or> r \<noteq> ''root'' \<or> \<not> list_all valid_component components then Inl InvalidAgentIdentity
          else Inr value
      | _ \<Rightarrow> Inl InvalidAgentIdentity)"

text \<open>\<open>str::rsplit_once('/')\<close>.\<close>

definition rsplit_once_slash :: "string \<Rightarrow> (string \<times> string) option" where
  "rsplit_once_slash s =
     (case rposition (\<lambda>c. c = CHR 0x2F) s of
        None \<Rightarrow> None
      | Some i \<Rightarrow> Some (take i s, drop (Suc i) s))"

section \<open>Turns and mail\<close>

record agent_turn_key =
  tk_agent :: agent_identity
  tk_turn :: agent_turn_id

datatype agent_completion = CompFinished string | CompInterrupted | CompFailed string

datatype agent_mail_content = McMessage string | McTask string | McTurnFinished agent_completion

record agent_mail =
  mail_sender :: agent_turn_key
  mail_content :: agent_mail_content

datatype agent_phase = Runnable | Inferring | ExecutingTools | WaitingForClientOutputs | WaitingForMailbox

datatype agent_state = Active agent_phase | Idle | Interrupted | Failed

fun is_active :: "agent_state \<Rightarrow> bool" where
  "is_active (Active _) = True"
| "is_active _ = False"

section \<open>Lemmas\<close>

abbreviation slash :: char where "slash \<equiv> CHR 0x2F"

lemma split_slash_nonempty [simp]: "split_slash s \<noteq> []" "[] \<noteq> split_slash s"
  by (induction s) (auto split: list.splits)

lemma split_slash_no_slash: "slash \<notin> set s \<Longrightarrow> split_slash s = [s]"
  by (induction s) auto

lemma split_slash_append: "split_slash (s @ slash # t) = split_slash s @ split_slash t"
  by (induction s) (auto split: list.splits)

definition valid_identity :: "agent_identity \<Rightarrow> bool" where
  "valid_identity s \<longleftrightarrow> identity_try_from s = Inr s"

lemma identity_try_from_eq: "identity_try_from s = (if valid_identity s then Inr s else Inl InvalidAgentIdentity)"
  by (auto simp: valid_identity_def identity_try_from_def split: list.splits)

lemma valid_identity_iff:
  "valid_identity s \<longleftrightarrow> (\<exists>ws. split_slash s = [] # ''root'' # ws \<and> list_all valid_component ws)"
  by (auto simp: valid_identity_def identity_try_from_def split: list.splits)

lemma valid_root [simp]: "valid_identity root"
  by (simp add: valid_identity_iff root_def)

lemma child_ok: "child p n = Inr c \<longleftrightarrow> valid_component n \<and> c = p @ slash # n"
  by (auto simp: child_def)

lemma child_valid: "valid_identity p \<Longrightarrow> child p n = Inr c \<Longrightarrow> valid_identity c"
  by (auto simp: child_ok valid_identity_iff split_slash_append split_slash_no_slash valid_component_def)

lemma rsplit_once_child: "slash \<notin> set n \<Longrightarrow> rsplit_once_slash (p @ slash # n) = Some (p, n)"
proof -
  assume "slash \<notin> set n"
  then have "rposition (\<lambda>c. c = slash) (p @ slash # n) = Some (length p)"
    by (intro rposition_split) auto
  then show ?thesis by (simp add: rsplit_once_slash_def)
qed

lemma child_parent: "child p n = Inr c \<Longrightarrow> rsplit_once_slash c = Some (p, n)"
  by (auto simp: child_ok valid_component_def rsplit_once_child)

lemma split_slash_last:
  assumes "split_slash s = ws @ [w]" and "ws \<noteq> []"
  shows "\<exists>p. s = p @ slash # w \<and> split_slash p = ws \<and> slash \<notin> set w"
  using assms
proof (induction s arbitrary: ws)
  case (Cons c s)
  show ?case
  proof (cases "c = slash")
    case True
    with Cons.prems obtain vs where ws: "ws = [] # vs" "split_slash s = vs @ [w]"
      by (cases ws) auto
    show ?thesis
    proof (cases "vs = []")
      case True
      with ws have s: "split_slash s = [w]" by simp
      have plain: "slash \<notin> set s \<and> s = w"
      proof (cases "slash \<in> set s")
        case True
        then obtain a b where "s = a @ slash # b" by (meson split_list)
        then have "length (split_slash s) = length (split_slash a) + length (split_slash b)"
          by (simp add: split_slash_append)
        with s show ?thesis by (cases "split_slash a"; cases "split_slash b") auto
      next
        case False
        with s show ?thesis by (simp add: split_slash_no_slash)
      qed
      then have "slash \<notin> set w" and "s = w" by blast+
      with \<open>c = slash\<close> ws True show ?thesis by (intro exI [of _ "[]"]) simp
    next
      case False
      from Cons.IH [OF ws(2) False] obtain p where "s = p @ slash # w" "split_slash p = vs" "slash \<notin> set w" by blast
      with \<open>c = slash\<close> ws show ?thesis by (intro exI [of _ "c # p"]) simp
    qed
  next
    case False
    obtain u us where us: "split_slash s = u # us" by (cases "split_slash s") auto
    with Cons.prems False obtain vs where ws: "ws = (c # u) # vs" "us = vs @ [w]"
      by (cases ws) auto
    from Cons.IH [of "u # vs"] us ws obtain p where "s = p @ slash # w" "split_slash p = u # vs" "slash \<notin> set w" by auto
    with False ws show ?thesis by (intro exI [of _ "c # p"]) simp
  qed
qed simp

lemma split_slash_inj: "split_slash s = split_slash t \<Longrightarrow> s = t"
proof (induction s arbitrary: t)
  case Nil
  then show ?case by (cases t) (auto split: if_splits list.splits)
next
  case (Cons c s)
  show ?case
  proof (cases t)
    case (Cons d u)
    with Cons.IH [of u] Cons.prems show ?thesis
      by (cases "split_slash s"; cases "split_slash u") (auto split: if_splits)
  qed (use Cons.prems in \<open>auto split: if_splits list.splits\<close>)
qed

lemma valid_nonroot_child:
  assumes "valid_identity c" and "c \<noteq> root"
  shows "\<exists>p n. valid_identity p \<and> child p n = Inr c"
proof -
  from assms(1) obtain ws where ws: "split_slash c = [] # ''root'' # ws" "list_all valid_component ws"
    by (auto simp: valid_identity_iff)
  show ?thesis
  proof (cases ws rule: rev_cases)
    case Nil
    with ws have "split_slash c = split_slash root" by (simp add: root_def)
    with assms(2) show ?thesis using split_slash_inj by blast
  next
    case (snoc vs w)
    with ws split_slash_last [of c "[] # ''root'' # vs" w] obtain p where
      p: "c = p @ slash # w" "split_slash p = [] # ''root'' # vs" by auto
    with ws snoc show ?thesis by (auto simp: child_ok valid_identity_iff)
  qed
qed

lemma child_not_root: "valid_identity p \<Longrightarrow> child p n = Inr c \<Longrightarrow> c \<noteq> root"
proof
  assume p: "valid_identity p" and c: "child p n = Inr c" and "c = root"
  then have "root = p @ slash # n" by (simp add: child_ok)
  then have "split_slash root = split_slash p @ split_slash n" by (metis split_slash_append)
  with p have "length (split_slash root) > 2"
    by (cases "split_slash n") (auto simp: valid_identity_iff)
  then show False by (simp add: root_def)
qed

section \<open>Properties\<close>

text \<open>The agent paths form a tree: \<open>child\<close> makes a valid non-root identity whose last path
  component is the task name and whose rest is the parent, which is what the restore of a stored
  tree reads back.\<close>

lemma child_identity_parent:
  assumes "valid_identity p" and "child p n = Inr c"
  shows "valid_identity c \<and> c \<noteq> root \<and> rsplit_once_slash c = Some (p, n)"
  using child_valid [OF assms] child_not_root [OF assms] child_parent [OF assms(2)] by simp

text \<open>Decoding accepts exactly these paths: a decoded identity is the root or a direct child of
  another decodable identity, so every stored identity has its whole chain of ancestors.\<close>

lemma identity_decode_tree:
  assumes "identity_try_from s = Inr c"
  shows "c = s \<and> (c = root \<or> (\<exists>p n. identity_try_from p = Inr p \<and> child p n = Inr c))"
  using assms valid_nonroot_child [of c] by (auto simp: identity_try_from_eq split: if_splits)

end
