(* ===== verification/Items.thy ===== *)
theory Items
  imports Prelude
begin

text \<open>
  The wire data of the Responses API as the executor holds it: arbitrary JSON, content parts,
  input items (request history) and output items (what one response produced), the
  client-call kinds, and the errors the executor reports. Every record has the fields of the
  source's struct in the source's order; a field name carries a short prefix because Isabelle
  record fields are global. Floating-point members that no modelled operation reads are kept as
  their decimal text. A \<open>HashMap<String, Value>\<close> or \<open>Map<String, Value>\<close> of extension
  fields is the list of its entries in iteration order.
\<close>

section \<open>JSON\<close>

datatype json_number = PosInt nat | NegInt int | Float string

datatype json =
    JNull
  | JBool bool
  | JNumber json_number
  | JString string
  | JArray "json list"
  | JObject "(string \<times> json) list"

type_synonym extra_fields = "(string \<times> json) list"

section \<open>Status enumerations\<close>

datatype message_status = MsInProgress | MsCompleted
datatype message_phase = Commentary | FinalAnswer
datatype reasoning_status = RsInProgress | RsCompleted | RsIncomplete
datatype shell_call_status = ShInProgress | ShCompleted | ShIncomplete
datatype code_interpreter_call_status = CiInProgress | CiInterpreting | CiCompleted | CiFailed | CiIncomplete
datatype web_search_call_status = WsInProgress | WsSearching | WsCompleted | WsFailed
datatype mcp_call_status = McInProgress | McCalling | McCompleted | McIncomplete | McFailed
datatype tool_search_execution = TsClient | TsServer
datatype tool_search_status = TsInProgress | TsCompleted | TsIncomplete

section \<open>Attribution and content parts\<close>

record agent_attribution =
  agent_name :: string

record input_text_content =
  itc_text :: string
  itc_extra :: extra_fields

record input_image_content =
  iic_file_id :: "string option"
  iic_image_url :: "string option"
  iic_detail :: "string option"
  iic_extra :: extra_fields

record input_file_content =
  ifc_file_data :: "string option"
  ifc_file_id :: "string option"
  ifc_file_url :: "string option"
  ifc_filename :: "string option"
  ifc_detail :: "string option"
  ifc_extra :: extra_fields

record refusal_content =
  rfc_refusal :: string
  rfc_extra :: extra_fields

datatype input_content =
    IcInputText input_text_content
  | IcInputImage input_image_content
  | IcInputFile input_file_content
  | IcOutputText input_text_content
  | IcRefusal refusal_content
  | IcReasoningText input_text_content
  | IcUnknown string

datatype input_message_content = ImcText string | ImcParts "input_content list"

datatype tool_output_content =
    TocInputText input_text_content
  | TocInputImage input_image_content
  | TocInputFile input_file_content

datatype tool_call_output = TcoText string | TcoContent "tool_output_content list"

record top_logprob =
  tl_token :: string
  tl_bytes :: "nat list"
  tl_logprob :: string

record output_text_logprob =
  ol_token :: string
  ol_bytes :: "nat list"
  ol_logprob :: string
  ol_top_logprobs :: "top_logprob list"

record output_text_content =
  otc_text :: string
  otc_annotations :: "json list option"
  otc_logprobs :: "output_text_logprob list"

datatype output_message_content =
    OmcInputText input_text_content
  | OmcOutputText output_text_content

section \<open>Calls and their outputs\<close>

record output_message =
  om_agent :: "agent_attribution option"
  om_id :: string
  om_role :: string
  om_phase :: "message_phase option"
  om_status :: message_status
  om_content :: "output_message_content list"

record function_tool_call =
  ftc_agent :: "agent_attribution option"
  ftc_id :: string
  ftc_call_id :: string
  ftc_name :: string
  ftc_namespace :: "string option"
  ftc_arguments :: string
  ftc_status :: message_status
  ftc_async_execution :: bool

record custom_tool_call =
  ctc_agent :: "agent_attribution option"
  ctc_id :: string
  ctc_status :: "message_status option"
  ctc_call_id :: string
  ctc_name :: string
  ctc_input :: string
  ctc_async_execution :: bool

datatype code_interpreter_call_output = CioLogs string | CioImage string

record code_interpreter_call =
  cic_agent :: "agent_attribution option"
  cic_id :: string
  cic_container_id :: string
  cic_code :: string
  cic_status :: code_interpreter_call_status
  cic_outputs :: "code_interpreter_call_output list option"

datatype shell_call_limit = SclValue nat | SclNull

record shell_call_action =
  sca_commands :: "string list"
  sca_timeout_ms :: "shell_call_limit option"
  sca_max_output_length :: "shell_call_limit option"
  sca_extra :: extra_fields

record shell_call =
  sc_agent :: "agent_attribution option"
  sc_id :: "string option"
  sc_call_id :: string
  sc_action :: shell_call_action
  sc_status :: "shell_call_status option"
  sc_extra :: extra_fields

datatype shell_call_outcome = ScoExit int | ScoTimeout | ScoUnknown

record shell_call_output_content =
  sco_stdout :: string
  sco_stderr :: string
  sco_outcome :: shell_call_outcome
  sco_extra :: extra_fields

record shell_call_output_message =
  som_id :: "string option"
  som_call_id :: string
  som_max_output_length :: "nat option"
  som_output :: "shell_call_output_content list"
  som_status :: "shell_call_status option"
  som_extra :: extra_fields

record function_tool_result_message =
  frm_id :: "string option"
  frm_status :: "message_status option"
  frm_call_id :: string
  frm_output :: tool_call_output

record custom_tool_call_output_message =
  com_status :: "message_status option"
  com_id :: "string option"
  com_call_id :: string
  com_name :: "string option"
  com_output :: tool_call_output

text \<open>Tool declarations: the code reads the name of a custom declaration and the fields of an MCP
  declaration; other parameters are kept as the JSON they were declared with. The definition of a
  discovered tool is a value of the MCP SDK and is kept as JSON.\<close>

record mcp_discovered_tool_param =
  mdt_server_label :: string
  mdt_tool_name :: string
  mdt_internal_name :: string
  mdt_tool :: json

record mcp_tool_param =
  mtp_server_label :: string
  mtp_server_url :: "string option"
  mtp_connector_id :: "string option"
  mtp_headers :: "(string \<times> string) list option"
  mtp_authorization :: "string option"
  mtp_allowed_tools :: "string list option"
  mtp_require_approval :: "string option"
  mtp_defer_loading :: "bool option"
  mtp_unsupported_async :: "bool option"
  mtp_server_description :: "string option"
  mtp_discovered_tools :: "mcp_discovered_tool_param list"
  mtp_loaded_tool_names :: "string list option"

record function_tool_param =
  ftp_name :: string
  ftp_description :: "string option"
  ftp_parameters :: "json option"
  ftp_strict :: "bool option"
  ftp_defer_loading :: "bool option"
  ftp_async_execution :: "bool option"
  ftp_extra :: extra_fields

record custom_tool_param =
  ctp_name :: string
  ctp_description :: "string option"
  ctp_format :: "json option"
  ctp_defer_loading :: "bool option"
  ctp_async_execution :: "bool option"
  ctp_extra :: extra_fields

record tool_search_tool_param =
  tsp_execution :: tool_search_execution
  tsp_description :: "string option"
  tsp_parameters :: "json option"
  tsp_unsupported_async :: "bool option"

record domain_filters =
  df_allowed_domains :: "string list option"
  df_blocked_domains :: "string list option"

datatype web_search_context_size = WsLow | WsMedium | WsHigh

record web_search_user_location =
  wul_type :: "string option"
  wul_city :: "string option"
  wul_country :: "string option"
  wul_region :: "string option"
  wul_timezone :: "string option"

record web_search_tool_param =
  wsp_search_context_size :: "web_search_context_size option"
  wsp_filters :: "domain_filters option"
  wsp_user_location :: "web_search_user_location option"
  wsp_unsupported_async :: "bool option"

record web_fetch_tool_param =
  wfp_filters :: "domain_filters option"
  wfp_max_content_tokens :: "nat option"

record file_search_tool_param =
  fsp_vector_store_ids :: "string list option"
  fsp_unsupported_async :: "bool option"

text \<open>The only container selector there is carries no data.\<close>

record code_interpreter_tool_param =
  cip_unsupported_async :: "bool option"

datatype shell_environment = SeLocal extra_fields | SeUnknown json

record shell_tool_param =
  stp_environment :: shell_environment
  stp_allowed_callers :: "string list option"
  stp_unsupported_async :: "bool option"
  stp_extra :: extra_fields

datatype codex_namespace_member = CnFunction function_tool_param | CnUnknown

record codex_namespace_tool_param =
  cnp_name :: string
  cnp_description :: "string option"
  cnp_tools :: "codex_namespace_member list"
  cnp_unsupported_async :: "bool option"
  cnp_extra :: extra_fields

datatype responses_tool =
    RtFunction function_tool_param
  | RtToolSearch tool_search_tool_param
  | RtMcp mcp_tool_param
  | RtWebSearch web_search_tool_param
  | RtFileSearch file_search_tool_param
  | RtCodeInterpreter code_interpreter_tool_param
  | RtShell shell_tool_param
  | RtNamespace codex_namespace_tool_param
  | RtCustom custom_tool_param
  | RtUnknown

record tool_search_call =
  tsc_agent :: "agent_attribution option"
  tsc_id :: string
  tsc_call_id :: "string option"
  tsc_execution :: tool_search_execution
  tsc_arguments :: json
  tsc_status :: tool_search_status

record tool_search_output_message =
  tso_agent :: "agent_attribution option"
  tso_id :: "string option"
  tso_call_id :: "string option"
  tso_execution :: tool_search_execution
  tso_status :: tool_search_status
  tso_tools :: "responses_tool list"

record web_search_source =
  wss_url :: string
  wss_title :: "string option"

record web_search_action_search =
  wsa_type :: string
  wsa_query :: string
  wsa_queries :: "string list"
  wsa_sources :: "web_search_source list"

datatype web_search_action =
    WaSearch web_search_action_search
  | WaOpenPage "string option"
  | WaFindInPage (find_pattern: string) (find_url: string)

record web_search_call =
  wsc_agent :: "agent_attribution option"
  wsc_id :: string
  wsc_status :: web_search_call_status
  wsc_action :: web_search_action

record mcp_tool_execution_error_content =
  mec_type :: string
  mec_text :: string
  mec_annotations :: "json option"
  mec_meta :: "json option"

record mcp_tool_execution_error =
  mte_type :: string
  mte_content :: "mcp_tool_execution_error_content list"

datatype mcp_call_error =
    MeText string
  | MeToolExecution mcp_tool_execution_error
  | MeUnknown json

record mcp_call =
  mc_agent :: "agent_attribution option"
  mc_id :: string
  mc_server_label :: string
  mc_name :: string
  mc_arguments :: string
  mc_status :: "mcp_call_status option"
  mc_approval_request_id :: "string option"
  mc_output :: "string option"
  mc_error :: "mcp_call_error option"

record mcp_list_tool =
  mlt_name :: string
  mlt_description :: "string option"
  mlt_input_schema :: json
  mlt_annotations :: "json option"

record mcp_list_tools =
  mls_agent :: "agent_attribution option"
  mls_id :: string
  mls_server_label :: string
  mls_tools :: "mcp_list_tool list"
  mls_error :: "string option"

record reasoning_output =
  ro_agent :: "agent_attribution option"
  ro_id :: string
  ro_content :: "string list"
  ro_summary :: "string list"
  ro_encrypted_content :: "string option"
  ro_status :: "reasoning_status option"

record compaction_item =
  cmp_agent :: "agent_attribution option"
  cmp_id :: "string option"
  cmp_encrypted_content :: string

datatype multi_agent_action =
    SpawnAgent | SendMessage | FollowupTask | WaitAgent | InterruptAgent | ListAgents

record multi_agent_call =
  mac_id :: string
  mac_call_id :: string
  mac_action :: multi_agent_action
  mac_arguments :: string
  mac_agent :: "agent_attribution option"

datatype multi_agent_call_output_content = MocOutputText output_text_content

record multi_agent_call_output =
  mao_id :: string
  mao_call_id :: string
  mao_action :: multi_agent_action
  mao_output :: "multi_agent_call_output_content list"
  mao_agent :: "agent_attribution option"

datatype agent_message_content =
    AmcInputText input_text_content
  | AmcOutputText output_text_content
  | AmcText input_text_content
  | AmcSummaryText input_text_content
  | AmcReasoningText input_text_content
  | AmcRefusal refusal_content
  | AmcInputImage input_image_content
  | AmcComputerScreenshot input_image_content
  | AmcInputFile input_file_content
  | AmcEncryptedContent string

record agent_message =
  am_id :: string
  am_author :: string
  am_recipient :: string
  am_content :: "agent_message_content list"
  am_agent :: "agent_attribution option"

datatype output_item =
    OiMultiAgentCall multi_agent_call
  | OiMultiAgentCallOutput multi_agent_call_output
  | OiAgentMessage agent_message
  | OiMessage output_message
  | OiFunctionCall function_tool_call
  | OiCodeInterpreterCall code_interpreter_call
  | OiToolSearchCall tool_search_call
  | OiToolSearchOutput tool_search_output_message
  | OiCustomToolCall custom_tool_call
  | OiShellCall shell_call
  | OiWebSearchCall web_search_call
  | OiMcpCall mcp_call
  | OiMcpListTools mcp_list_tools
  | OiReasoning reasoning_output
  | OiCompaction compaction_item
  | OiUnknown

section \<open>Input items\<close>

record input_message =
  im_agent :: "agent_attribution option"
  im_id :: "string option"
  im_role :: string
  im_phase :: "message_phase option"
  im_status :: "message_status option"
  im_content :: input_message_content

record input_function_tool_call =
  ifn_agent :: "agent_attribution option"
  ifn_id :: "string option"
  ifn_call_id :: string
  ifn_name :: string
  ifn_namespace :: "string option"
  ifn_arguments :: string
  ifn_status :: "message_status option"
  ifn_async_execution :: bool

record input_tool_search_call =
  its_agent :: "agent_attribution option"
  its_id :: string
  its_call_id :: "string option"
  its_execution :: tool_search_execution
  its_arguments :: json
  its_status :: tool_search_status

record input_multi_agent_call =
  ima_id :: "string option"
  ima_call_id :: string
  ima_action :: multi_agent_action
  ima_arguments :: string
  ima_agent :: "agent_attribution option"

record input_multi_agent_call_output =
  imo_id :: "string option"
  imo_call_id :: string
  imo_action :: multi_agent_action
  imo_output :: "multi_agent_call_output_content list"
  imo_agent :: "agent_attribution option"

record input_agent_message =
  iam_id :: "string option"
  iam_author :: string
  iam_recipient :: string
  iam_content :: "agent_message_content list"
  iam_agent :: "agent_attribution option"

datatype input_item =
    IiMultiAgentCall input_multi_agent_call
  | IiMultiAgentCallOutput input_multi_agent_call_output
  | IiAgentMessage input_agent_message
  | IiFunctionCall input_function_tool_call
  | IiCodeInterpreterCall code_interpreter_call
  | IiFunctionCallOutput function_tool_result_message
  | IiToolSearchCall input_tool_search_call
  | IiToolSearchOutput tool_search_output_message
  | IiCustomToolCall custom_tool_call
  | IiCustomToolCallOutput custom_tool_call_output_message
  | IiShellCall shell_call
  | IiShellCallOutput shell_call_output_message
  | IiReasoning reasoning_output
  | IiWebSearchCall web_search_call
  | IiMcpCall mcp_call
  | IiMcpListTools mcp_list_tools
  | IiCompaction compaction_item
  | IiCompactionTrigger
  | IiMessage input_message

fun is_model_visible :: "input_item \<Rightarrow> bool" where
  "is_model_visible (IiMcpListTools _) = False"
| "is_model_visible IiCompactionTrigger = False"
| "is_model_visible (IiMultiAgentCall _) = False"
| "is_model_visible (IiMultiAgentCallOutput _) = False"
| "is_model_visible (IiAgentMessage _) = False"
| "is_model_visible _ = True"

text \<open>The \<open>call_id\<close> of a client-executed call, and of the output that answers one.\<close>

fun item_call_id :: "input_item \<Rightarrow> string option" where
  "item_call_id (IiFunctionCall call) = Some (ifn_call_id call)"
| "item_call_id (IiToolSearchCall call) = its_call_id call"
| "item_call_id (IiCustomToolCall call) = Some (ctc_call_id call)"
| "item_call_id (IiShellCall call) = Some (sc_call_id call)"
| "item_call_id _ = None"

fun output_call_id :: "input_item \<Rightarrow> string option" where
  "output_call_id (IiFunctionCallOutput out) = Some (frm_call_id out)"
| "output_call_id (IiToolSearchOutput out) = tso_call_id out"
| "output_call_id (IiCustomToolCallOutput out) = Some (com_call_id out)"
| "output_call_id (IiShellCallOutput out) = Some (som_call_id out)"
| "output_call_id _ = None"

fun is_async_call :: "input_item \<Rightarrow> bool" where
  "is_async_call (IiFunctionCall call) = ifn_async_execution call"
| "is_async_call (IiCustomToolCall call) = ctc_async_execution call"
| "is_async_call _ = False"

fun is_compaction :: "input_item \<Rightarrow> bool" where
  "is_compaction (IiCompaction _) = True"
| "is_compaction _ = False"

lemma item_call_id_not_output: "item_call_id i = Some c \<Longrightarrow> output_call_id i = None"
  by (cases i) auto

lemma output_not_async: "output_call_id i = Some c \<Longrightarrow> \<not> is_async_call i"
  by (cases i) auto

lemma async_call_has_id: "is_async_call i \<Longrightarrow> \<exists>c. item_call_id i = Some c"
  by (cases i) auto

lemma async_model_visible [simp]: "is_async_call i \<Longrightarrow> is_model_visible i"
  by (cases i) auto

lemma async_not_compaction: "is_async_call i \<Longrightarrow> \<not> is_compaction i"
  by (cases i) auto

lemma output_not_compaction: "output_call_id i = Some c \<Longrightarrow> \<not> is_compaction i"
  by (cases i) auto

lemma output_model_visible [simp]: "output_call_id i = Some c \<Longrightarrow> is_model_visible i"
  by (cases i) auto

section \<open>Client calls\<close>

datatype client_call_kind = CkFunction | CkShell | CkCustom | CkToolSearch

fun call_item_name :: "client_call_kind \<Rightarrow> string" where
  "call_item_name CkFunction = ''function_call''"
| "call_item_name CkCustom = ''custom_tool_call''"
| "call_item_name CkShell = ''shell_call''"
| "call_item_name CkToolSearch = ''tool_search_call''"

fun output_item_name :: "client_call_kind \<Rightarrow> string" where
  "output_item_name CkFunction = ''function_call_output''"
| "output_item_name CkCustom = ''custom_tool_call_output''"
| "output_item_name CkShell = ''shell_call_output''"
| "output_item_name CkToolSearch = ''tool_search_output''"

datatype client_tool_output =
    CtFunction function_tool_result_message
  | CtShell shell_call_output_message
  | CtCustom custom_tool_call_output_message
  | CtToolSearch tool_search_output_message

fun cto_call_id :: "client_tool_output \<Rightarrow> string" where
  "cto_call_id (CtFunction out) = frm_call_id out"
| "cto_call_id (CtShell out) = som_call_id out"
| "cto_call_id (CtCustom out) = com_call_id out"
| "cto_call_id (CtToolSearch out) = (case tso_call_id out of None \<Rightarrow> [] | Some c \<Rightarrow> c)"

fun cto_kind :: "client_tool_output \<Rightarrow> client_call_kind" where
  "cto_kind (CtFunction _) = CkFunction"
| "cto_kind (CtShell _) = CkShell"
| "cto_kind (CtCustom _) = CkCustom"
| "cto_kind (CtToolSearch _) = CkToolSearch"

fun input_item_of_output :: "client_tool_output \<Rightarrow> input_item" where
  "input_item_of_output (CtFunction out) = IiFunctionCallOutput out"
| "input_item_of_output (CtShell out) = IiShellCallOutput out"
| "input_item_of_output (CtCustom out) = IiCustomToolCallOutput out"
| "input_item_of_output (CtToolSearch out) = IiToolSearchOutput out"

lemma output_call_id_input_item:
  "cto_call_id out \<noteq> [] \<Longrightarrow> output_call_id (input_item_of_output out) = Some (cto_call_id out)"
  by (cases out) (auto split: option.splits)

section \<open>Injection payloads\<close>

record injection_function_output =
  ifo_call_id :: string
  ifo_output :: tool_call_output

datatype injection_input =
    InjFunction injection_function_output
  | InjShell shell_call_output_message
  | InjCustom custom_tool_call_output_message
  | InjToolSearch tool_search_output_message

fun output_of_injection :: "injection_input \<Rightarrow> client_tool_output" where
  "output_of_injection (InjFunction out) =
     CtFunction \<lparr>frm_id = None, frm_status = None, frm_call_id = ifo_call_id out, frm_output = ifo_output out\<rparr>"
| "output_of_injection (InjShell out) = CtShell out"
| "output_of_injection (InjCustom out) = CtCustom out"
| "output_of_injection (InjToolSearch out) = CtToolSearch out"

fun injection_of_output :: "client_tool_output \<Rightarrow> injection_input" where
  "injection_of_output (CtFunction out) = InjFunction \<lparr>ifo_call_id = frm_call_id out, ifo_output = frm_output out\<rparr>"
| "injection_of_output (CtShell out) = InjShell out"
| "injection_of_output (CtCustom out) = InjCustom out"
| "injection_of_output (CtToolSearch out) = InjToolSearch out"

lemma injection_roundtrip: "injection_of_output (output_of_injection i) = i"
  by (cases i) auto

section \<open>Errors\<close>

datatype resource_limit = LimitResponseBudget | LimitUpstreamSseLine | LimitUpstreamJsonBody | LimitStreamEvent

datatype tool_error =
    TeExecution string
  | TeConfig string
  | TeInvalidUpstreamToolSearch
  | TeUpstreamWithheldFunctionCall
  | TeMissingOutput string
  | TeUnknownCallOutput string
  | TeUnknownParameter string

text \<open>The constructors of \<open>ExecutorError\<close> that the modelled operations raise.\<close>

datatype executor_error =
    JsonError
  | ParseError string
  | StreamError string
  | InvalidRequest string
  | PayloadTooLarge string
  | ResourceLimitExceeded resource_limit nat
  | ToolErr tool_error


section \<open>Sample items\<close>

text \<open>Concrete calls and outputs on which the properties of the later theories are evaluated.\<close>

abbreviation sample_function_call :: "string \<Rightarrow> bool \<Rightarrow> input_item" where
  "sample_function_call c async_execution \<equiv> IiFunctionCall
     \<lparr>ifn_agent = None, ifn_id = None, ifn_call_id = c, ifn_name = ''lookup'', ifn_namespace = None,
      ifn_arguments = ''{}'', ifn_status = None, ifn_async_execution = async_execution\<rparr>"

abbreviation sample_function_output :: "string \<Rightarrow> string \<Rightarrow> function_tool_result_message" where
  "sample_function_output c text \<equiv>
     \<lparr>frm_id = None, frm_status = None, frm_call_id = c, frm_output = TcoText text\<rparr>"

abbreviation sample_user_message :: "string \<Rightarrow> input_item" where
  "sample_user_message text \<equiv> IiMessage
     \<lparr>im_agent = None, im_id = Some ''msg_1'', im_role = ''user'', im_phase = None,
      im_status = Some MsCompleted, im_content = ImcText text\<rparr>"

abbreviation sample_compaction :: input_item where
  "sample_compaction \<equiv> IiCompaction \<lparr>cmp_agent = None, cmp_id = None, cmp_encrypted_content = ''summary''\<rparr>"

section \<open>Tool choice\<close>

datatype allowed_tools_mode = AtmAuto | AtmRequired

record allowed_tool =
  at_type :: string
  at_name :: string

datatype tool_choice =
    TchAuto
  | TchNone
  | TchRequired
  | TchShell
  | TchFunction "string option" string
  | TchCustom string
  | TchAllowedTools allowed_tools_mode "allowed_tool list"
  | TchMcp string "string option"

end
