(* ===== verification/Response_Budget.thy ===== *)
theory Response_Budget
  imports Items
begin

text \<open>
  The cumulative byte ceiling of one Responses request and the measurement of what is retained
  (\<open>executor/response_budget.rs\<close> and its submodules \<open>client_outputs.rs\<close>, \<open>input.rs\<close>,
  \<open>reasoning.rs\<close>; \<open>serialized_size_up_to\<close> of \<open>utils/common.rs\<close>).

  The budget's counter is an atomic that every holder of the shared handle updates with one
  \<open>fetch_update\<close>; concurrent charges are therefore a sequence of calls of \<open>consume\<close>.
  \<open>serde_json\<close> is not part of the repository: a serializer is a parameter that gives the
  lengths of the chunks it writes and whether serialization itself succeeds.
\<close>

section \<open>The shared budget\<close>

record executor_response_budget =
  rb_limit :: nat
  rb_used :: nat

definition with_limit :: "nat \<Rightarrow> executor_response_budget" where
  "with_limit limit = \<lparr>rb_limit = limit, rb_used = 0\<rparr>"

definition consume ::
  "executor_response_budget \<Rightarrow> nat \<Rightarrow> (executor_response_budget, executor_error, unit) outcome" where
  "consume budget bytes =
     (let limit = rb_limit budget;
          (used, updated) = fetch_update
            (\<lambda>used. case checked_add used bytes of
               None \<Rightarrow> None
             | Some next \<Rightarrow> if next > limit then None else Some next) (rb_used budget)
      in if updated then (budget\<lparr>rb_used := used\<rparr>, Inr ())
         else (budget, Inl (ResourceLimitExceeded LimitResponseBudget limit)))"

lemma consume_eq [budget_simps]:
  "consume b n =
     (if rb_used b + n \<le> min (rb_limit b) USIZE_MAX then (b\<lparr>rb_used := rb_used b + n\<rparr>, Inr ())
      else (b, Inl (ResourceLimitExceeded LimitResponseBudget (rb_limit b))))"
  by (auto simp: consume_def fetch_update_def checked_add_def Let_def)

lemma consume_ok:
  "consume b n = (b', Inr u) \<longleftrightarrow> b' = b\<lparr>rb_used := rb_used b + n\<rparr> \<and> rb_used b + n \<le> min (rb_limit b) USIZE_MAX"
  by (auto simp: consume_eq)

lemma consume_err:
  "consume b n = (b', Inl e) \<longleftrightarrow>
   b' = b \<and> e = ResourceLimitExceeded LimitResponseBudget (rb_limit b) \<and> min (rb_limit b) USIZE_MAX < rb_used b + n"
  by (auto simp: consume_eq)

definition consumed :: "executor_response_budget \<Rightarrow> nat \<Rightarrow> executor_response_budget option" where
  "consumed b n = (case consume b n of (b', Inr _) \<Rightarrow> Some b' | (_, Inl _) \<Rightarrow> None)"

lemma consumed_eq_Some:
  "consumed b n = Some b' \<longleftrightarrow> b' = b\<lparr>rb_used := rb_used b + n\<rparr> \<and> rb_used b + n \<le> min (rb_limit b) USIZE_MAX"
  by (auto simp: consumed_def consume_eq)

lemma consumed_eq_None: "consumed b n = None \<longleftrightarrow> min (rb_limit b) USIZE_MAX < rb_used b + n"
  by (auto simp: consumed_def consume_eq)

interpretation rb: byte_budget consumed rb_used rb_limit
  by unfold_locales (auto simp: consumed_eq_Some consumed_eq_None)

section \<open>Accounts of one retained slot\<close>

record retained_account =
  accounted :: nat

definition new_account :: retained_account where
  "new_account = \<lparr>accounted = 0\<rparr>"

type_synonym account_state = "retained_account \<times> executor_response_budget option"

definition charge :: "nat \<Rightarrow> account_state \<Rightarrow> (account_state, executor_error, unit) outcome" where
  "charge bytes st =
     (case st of (account, budget) \<Rightarrow>
        if bytes = 0 then (st, Inr ())
        else case budget of
          None \<Rightarrow> ((account\<lparr>accounted := saturating_add (accounted account) bytes\<rparr>, None), Inr ())
        | Some b \<Rightarrow>
            (case consume b bytes of
               (b', Inl e) \<Rightarrow> ((account, Some b'), Inl e)
             | (b', Inr _) \<Rightarrow>
                 ((account\<lparr>accounted := saturating_add (accounted account) bytes\<rparr>, Some b'), Inr ())))"

definition grow ::
  "('t \<Rightarrow> nat) \<Rightarrow> ('t \<Rightarrow> 't) \<Rightarrow> 't \<Rightarrow> account_state \<Rightarrow> ('t \<times> account_state, executor_error, unit) outcome" where
  "grow msr mutate state st =
     (let before = msr state;
          state' = mutate state;
          after = msr state';
          (st', r) = charge (saturating_sub after before) st
      in ((state', st'), r))"

definition reconcile :: "nat \<Rightarrow> account_state \<Rightarrow> (account_state, executor_error, unit) outcome" where
  "reconcile measured st = charge (saturating_sub measured (accounted (fst st))) st"

text \<open>One lifecycle of a slot: charges, measured growth and reconciliations in any order. A
  rejected operation fails the round, so the run stops there.\<close>

datatype account_op = OpCharge nat | OpGrow nat nat | OpReconcile nat

fun account_step :: "account_op \<Rightarrow> account_state \<Rightarrow> (account_state, executor_error, unit) outcome" where
  "account_step (OpCharge n) st = charge n st"
| "account_step (OpGrow before after) st = (case grow id (\<lambda>_. after) before st of ((_, st'), r) \<Rightarrow> (st', r))"
| "account_step (OpReconcile n) st = reconcile n st"

fun account_run :: "account_op list \<Rightarrow> account_state \<Rightarrow> (account_state, executor_error, unit) outcome" where
  "account_run [] st = (st, Inr ())"
| "account_run (op # ops) st =
     (case account_step op st of (st', Inl e) \<Rightarrow> (st', Inl e) | (st', Inr _) \<Rightarrow> account_run ops st')"

definition op_bytes :: "account_op \<Rightarrow> retained_account \<Rightarrow> nat" where
  "op_bytes op a =
     (case op of OpCharge n \<Rightarrow> n | OpGrow before after \<Rightarrow> after - before | OpReconcile n \<Rightarrow> n - accounted a)"

lemma account_step_charge: "account_step op st = charge (op_bytes op (fst st)) st"
  by (cases op) (auto simp: op_bytes_def grow_def reconcile_def saturating_sub_def Let_def split: prod.splits)

lemma charge_Some:
  "charge n (a, Some b) =
     (if n = 0 \<or> rb_used b + n \<le> min (rb_limit b) USIZE_MAX
      then ((if n = 0 then a else a\<lparr>accounted := saturating_add (accounted a) n\<rparr>,
             Some (b\<lparr>rb_used := rb_used b + n\<rparr>)), Inr ())
      else ((a, Some b), Inl (ResourceLimitExceeded LimitResponseBudget (rb_limit b))))"
  by (auto simp: charge_def consume_eq)

text \<open>
  The account mirrors the budget: whatever it says is accounted has been taken from the shared
  ceiling, byte for byte, also when the last operation was refused.
\<close>

lemma charge_mirrors_budget:
  assumes "charge n (a, Some b) = ((a', b''), r)"
    and "rb_used b \<le> rb_limit b" and "rb_limit b \<le> USIZE_MAX" and "accounted a \<le> rb_used b"
  shows "\<exists>b'. b'' = Some b' \<and> rb_limit b' = rb_limit b \<and> rb_used b' \<le> rb_limit b' \<and>
    accounted a' \<le> rb_used b' \<and> rb_used b' - accounted a' = rb_used b - accounted a \<and> accounted a \<le> accounted a'"
  using assms by (auto simp: charge_Some saturating_add_def split: if_splits)

lemma account_run_mirrors_budget:
  assumes "account_run ops (a, Some b) = ((a', b''), r)"
    and "rb_used b \<le> rb_limit b" and "rb_limit b \<le> USIZE_MAX" and "accounted a \<le> rb_used b"
  shows "\<exists>b'. b'' = Some b' \<and> rb_limit b' = rb_limit b \<and> rb_used b' \<le> rb_limit b' \<and>
    accounted a' \<le> rb_used b' \<and> rb_used b' - accounted a' = rb_used b - accounted a \<and> accounted a \<le> accounted a'"
  using assms
proof (induction ops arbitrary: a b)
  case (Cons op ops)
  obtain a1 b1 r1 where step: "charge (op_bytes op a) (a, Some b) = ((a1, b1), r1)"
    by (metis prod.exhaust)
  with charge_mirrors_budget [OF step Cons.prems(2-4)]
  obtain c where c: "b1 = Some c" "rb_limit c = rb_limit b" "rb_used c \<le> rb_limit c"
    "accounted a1 \<le> rb_used c" "rb_used c - accounted a1 = rb_used b - accounted a"
    "accounted a \<le> accounted a1"
    by blast
  show ?case
  proof (cases r1)
    case (Inl e)
    with Cons.prems(1) step c show ?thesis by (auto simp: account_step_charge)
  next
    case (Inr u)
    with Cons.prems(1) step c have "account_run ops (a1, Some c) = ((a', b''), r)"
      by (simp add: account_step_charge)
    from Cons.IH [OF this] c Cons.prems(3) show ?thesis by force
  qed
qed auto

lemma reconcile_covers:
  assumes "reconcile m (a, b) = ((a', b'), Inr u)" and "m \<le> USIZE_MAX"
  shows "m \<le> accounted a'"
  using assms
  by (auto simp: reconcile_def saturating_sub_def charge_def consume_eq saturating_add_def
      split: if_splits option.splits)

lemma charge_zero [simp]: "charge 0 st = (st, Inr ())"
  by (cases st) (simp add: charge_def)

lemma reconcile_idempotent:
  assumes "reconcile m st = (st', Inr u)" and "m \<le> USIZE_MAX" and "m' \<le> m"
  shows "reconcile m' st' = (st', Inr ())"
proof -
  have "m \<le> accounted (fst st')"
    using reconcile_covers [of m "fst st" "snd st" "fst st'" "snd st'" u] assms(1,2) by simp
  with assms(3) show ?thesis by (simp add: reconcile_def saturating_sub_def)
qed

section \<open>Measuring the serialized form\<close>

type_synonym 'a serializer = "'a \<Rightarrow> nat list \<times> bool"

fun count_chunks :: "nat \<Rightarrow> nat \<Rightarrow> nat list \<Rightarrow> nat option" where
  "count_chunks limit used [] = Some used"
| "count_chunks limit used (n # ns) =
     (if n > saturating_sub limit used then None else count_chunks limit (used + n) ns)"

definition serialized_size_up_to :: "'a serializer \<Rightarrow> 'a \<Rightarrow> nat \<Rightarrow> executor_error + nat option" where
  "serialized_size_up_to ser v limit =
     (case ser v of (chunks, ok) \<Rightarrow>
        (case count_chunks limit 0 chunks of
           None \<Rightarrow> Inr None
         | Some used \<Rightarrow> if ok then Inr (Some used) else Inl JsonError))"

lemma count_chunks_eq:
  "used \<le> limit \<Longrightarrow>
   count_chunks limit used ns = (if used + sum_list ns \<le> limit then Some (used + sum_list ns) else None)"
  by (induction ns arbitrary: used) (auto simp: saturating_sub_def)

lemma serialized_size_up_to_eq:
  "serialized_size_up_to ser v limit =
     (if limit < sum_list (fst (ser v)) then Inr None
      else if snd (ser v) then Inr (Some (sum_list (fst (ser v)))) else Inl JsonError)"
  by (auto simp: serialized_size_up_to_def count_chunks_eq split: prod.splits)

section \<open>Retained sizes\<close>

definition RETAINED_CONTAINER_OVERHEAD_BYTES :: nat where
  "RETAINED_CONTAINER_OVERHEAD_BYTES = 32"

abbreviation "OVERHEAD \<equiv> RETAINED_CONTAINER_OVERHEAD_BYTES"

definition opt_len :: "string option \<Rightarrow> nat" where
  "opt_len v = (case v of None \<Rightarrow> 0 | Some s \<Rightarrow> length s)"

definition opt_bytes :: "('a \<Rightarrow> nat) \<Rightarrow> 'a option \<Rightarrow> nat" where
  "opt_bytes f v = (case v of None \<Rightarrow> 0 | Some x \<Rightarrow> f x)"

definition sum_retained :: "('a \<Rightarrow> nat) \<Rightarrow> 'a list \<Rightarrow> nat" where
  "sum_retained f xs = sum_list (map f xs)"

fun retained_json :: "json \<Rightarrow> nat" where
  "retained_json JNull = OVERHEAD + 4"
| "retained_json (JBool _) = OVERHEAD + 5"
| "retained_json (JNumber _) = OVERHEAD + 8"
| "retained_json (JString text) = OVERHEAD + length text"
| "retained_json (JArray items) = OVERHEAD + sum_list (map retained_json items)"
| "retained_json (JObject entries) = OVERHEAD + sum_list (map (\<lambda>(key, value). length key + retained_json value) entries)"

definition retained_extra :: "extra_fields \<Rightarrow> nat" where
  "retained_extra extra = sum_list (map (\<lambda>(key, value). length key + retained_json value) extra)"

definition retained_attribution :: "agent_attribution \<Rightarrow> nat" where
  "retained_attribution a = OVERHEAD + length (agent_name a)"

abbreviation "retained_agent \<equiv> opt_bytes retained_attribution"

definition retained_top_logprob :: "top_logprob \<Rightarrow> nat" where
  "retained_top_logprob l = OVERHEAD + length (tl_token l) + length (tl_bytes l)"

definition retained_logprob :: "output_text_logprob \<Rightarrow> nat" where
  "retained_logprob l =
     OVERHEAD + length (ol_token l) + length (ol_bytes l) + sum_retained retained_top_logprob (ol_top_logprobs l)"

definition retained_output_text :: "output_text_content \<Rightarrow> nat" where
  "retained_output_text c =
     OVERHEAD + length ''output_text'' + length (otc_text c)
     + opt_bytes (sum_retained retained_json) (otc_annotations c)
     + sum_retained retained_logprob (otc_logprobs c)"

text \<open>Client outputs and input content (\<open>client_outputs.rs\<close>, \<open>input.rs\<close>).\<close>

definition retained_input_text :: "input_text_content \<Rightarrow> nat" where
  "retained_input_text c = OVERHEAD + length (itc_text c) + retained_extra (itc_extra c)"

definition retained_input_image :: "input_image_content \<Rightarrow> nat" where
  "retained_input_image c =
     OVERHEAD + opt_len (iic_file_id c) + opt_len (iic_image_url c) + opt_len (iic_detail c)
     + retained_extra (iic_extra c)"

definition retained_input_file :: "input_file_content \<Rightarrow> nat" where
  "retained_input_file c =
     OVERHEAD + opt_len (ifc_file_data c) + opt_len (ifc_file_id c) + opt_len (ifc_file_url c)
     + opt_len (ifc_filename c) + opt_len (ifc_detail c) + retained_extra (ifc_extra c)"

definition retained_refusal :: "refusal_content \<Rightarrow> nat" where
  "retained_refusal c = OVERHEAD + length (rfc_refusal c) + retained_extra (rfc_extra c)"

fun retained_tool_output_content :: "tool_output_content \<Rightarrow> nat" where
  "retained_tool_output_content (TocInputText c) = retained_input_text c"
| "retained_tool_output_content (TocInputImage c) = retained_input_image c"
| "retained_tool_output_content (TocInputFile c) = retained_input_file c"

fun retained_tool_call_output :: "tool_call_output \<Rightarrow> nat" where
  "retained_tool_call_output (TcoText text) = OVERHEAD + length text"
| "retained_tool_call_output (TcoContent parts) = OVERHEAD + sum_retained retained_tool_output_content parts"

definition retained_function_result :: "function_tool_result_message \<Rightarrow> nat" where
  "retained_function_result m =
     OVERHEAD + opt_len (frm_id m) + length (frm_call_id m) + retained_tool_call_output (frm_output m)"

definition retained_shell_output_content :: "shell_call_output_content \<Rightarrow> nat" where
  "retained_shell_output_content c =
     OVERHEAD + length (sco_stdout c) + length (sco_stderr c) + retained_extra (sco_extra c)"

definition retained_shell_output :: "shell_call_output_message \<Rightarrow> nat" where
  "retained_shell_output m =
     OVERHEAD + opt_len (som_id m) + length (som_call_id m)
     + sum_retained retained_shell_output_content (som_output m) + retained_extra (som_extra m)"

definition retained_custom_output :: "custom_tool_call_output_message \<Rightarrow> nat" where
  "retained_custom_output m =
     OVERHEAD + opt_len (com_id m) + length (com_call_id m) + opt_len (com_name m)
     + retained_tool_call_output (com_output m)"

definition retained_tool_search_output ::
  "tool_search_output_message serializer \<Rightarrow> tool_search_output_message \<Rightarrow> nat" where
  "retained_tool_search_output ser m =
     saturating_add
       (case serialized_size_up_to ser m USIZE_MAX of Inr (Some n) \<Rightarrow> n | _ \<Rightarrow> USIZE_MAX) OVERHEAD"

fun retained_client_output :: "tool_search_output_message serializer \<Rightarrow> client_tool_output \<Rightarrow> nat" where
  "retained_client_output ser (CtFunction m) = retained_function_result m"
| "retained_client_output ser (CtShell m) = retained_shell_output m"
| "retained_client_output ser (CtCustom m) = retained_custom_output m"
| "retained_client_output ser (CtToolSearch m) = retained_tool_search_output ser m"

fun retained_input_content :: "input_content \<Rightarrow> nat" where
  "retained_input_content (IcInputText c) = retained_input_text c"
| "retained_input_content (IcOutputText c) = retained_input_text c"
| "retained_input_content (IcReasoningText c) = retained_input_text c"
| "retained_input_content (IcInputImage c) = retained_input_image c"
| "retained_input_content (IcInputFile c) = retained_input_file c"
| "retained_input_content (IcRefusal c) = retained_refusal c"
| "retained_input_content (IcUnknown kind) = saturating_add OVERHEAD (length kind)"

fun retained_message_content :: "input_message_content \<Rightarrow> nat" where
  "retained_message_content (ImcText text) = saturating_add OVERHEAD (length text)"
| "retained_message_content (ImcParts parts) =
     fold (\<lambda>part bytes. saturating_add bytes (retained_input_content part)) parts OVERHEAD"

definition retained_input_message :: "input_message \<Rightarrow> nat" where
  "retained_input_message m =
     saturating_add (saturating_add (saturating_add (saturating_add OVERHEAD
       (retained_agent (im_agent m))) (opt_len (im_id m))) (length (im_role m)))
       (retained_message_content (im_content m))"

text \<open>Steering input is text or user messages; any other item fails closed.\<close>

datatype steering_input = SiText string | SiItems "input_item list"

fun steering_fold :: "input_item list \<Rightarrow> nat \<Rightarrow> nat" where
  "steering_fold [] bytes = bytes"
| "steering_fold (IiMessage m # items) bytes =
     steering_fold items (saturating_add bytes (retained_input_message m))"
| "steering_fold (_ # items) bytes = steering_fold items USIZE_MAX"

fun retained_steering_input :: "steering_input \<Rightarrow> nat" where
  "retained_steering_input (SiText text) = saturating_add OVERHEAD (length text)"
| "retained_steering_input (SiItems items) = steering_fold items OVERHEAD"

text \<open>Output items.\<close>

fun retained_output_message_content :: "output_message_content \<Rightarrow> nat" where
  "retained_output_message_content (OmcInputText part) = length ''input_text'' + retained_input_text part"
| "retained_output_message_content (OmcOutputText part) = retained_output_text part"

definition retained_output_message :: "output_message \<Rightarrow> nat" where
  "retained_output_message m =
     OVERHEAD + retained_agent (om_agent m) + length (om_id m) + length (om_role m)
     + sum_retained retained_output_message_content (om_content m)"

definition retained_function_call :: "function_tool_call \<Rightarrow> nat" where
  "retained_function_call c =
     OVERHEAD + retained_agent (ftc_agent c) + length (ftc_id c) + length (ftc_call_id c)
     + length (ftc_name c) + opt_len (ftc_namespace c) + length (ftc_arguments c)"

definition retained_custom_call :: "custom_tool_call \<Rightarrow> nat" where
  "retained_custom_call c =
     OVERHEAD + retained_agent (ctc_agent c) + length (ctc_id c) + length (ctc_call_id c)
     + length (ctc_name c) + length (ctc_input c)"

fun retained_code_output :: "code_interpreter_call_output \<Rightarrow> nat" where
  "retained_code_output (CioLogs logs) = OVERHEAD + length logs"
| "retained_code_output (CioImage url) = OVERHEAD + length url"

definition retained_code_call :: "code_interpreter_call \<Rightarrow> nat" where
  "retained_code_call c =
     OVERHEAD + retained_agent (cic_agent c) + length (cic_id c) + length (cic_container_id c)
     + length (cic_code c)
     + opt_bytes (\<lambda>outputs. OVERHEAD + sum_retained retained_code_output outputs) (cic_outputs c)"

definition retained_shell_call :: "shell_call \<Rightarrow> nat" where
  "retained_shell_call c =
     (let commands = sum_list (map (\<lambda>command. OVERHEAD + length command) (sca_commands (sc_action c)));
          extras = retained_extra (sc_extra c @ sca_extra (sc_action c))
      in OVERHEAD + retained_agent (sc_agent c) + opt_len (sc_id c) + length (sc_call_id c) + commands + extras)"

definition retained_tool_search_call :: "tool_search_call \<Rightarrow> nat" where
  "retained_tool_search_call c =
     OVERHEAD + retained_agent (tsc_agent c) + length (tsc_id c) + opt_len (tsc_call_id c)
     + retained_json (tsc_arguments c)"

fun retained_web_search_action :: "web_search_action \<Rightarrow> nat" where
  "retained_web_search_action (WaSearch search) =
     length (wsa_type search) + length (wsa_query search)
     + sum_list (map (\<lambda>query. OVERHEAD + length query) (wsa_queries search))
     + sum_list (map (\<lambda>source. OVERHEAD + length (wss_url source) + opt_len (wss_title source)) (wsa_sources search))"
| "retained_web_search_action (WaOpenPage url) = opt_len url"
| "retained_web_search_action (WaFindInPage pat url) = length pat + length url"

definition retained_web_search_call :: "web_search_call \<Rightarrow> nat" where
  "retained_web_search_call c =
     OVERHEAD + retained_agent (wsc_agent c) + length (wsc_id c) + retained_web_search_action (wsc_action c)"

definition retained_mcp_execution_error :: "mcp_tool_execution_error \<Rightarrow> nat" where
  "retained_mcp_execution_error e =
     OVERHEAD + length (mte_type e)
     + sum_list (map (\<lambda>c. OVERHEAD + length (mec_type c) + length (mec_text c)
         + opt_bytes retained_json (mec_annotations c) + opt_bytes retained_json (mec_meta c)) (mte_content e))"

fun retained_mcp_error :: "mcp_call_error \<Rightarrow> nat" where
  "retained_mcp_error (MeText text) = length text"
| "retained_mcp_error (MeToolExecution e) = retained_mcp_execution_error e"
| "retained_mcp_error (MeUnknown value) = retained_json value"

definition retained_mcp_call :: "mcp_call \<Rightarrow> nat" where
  "retained_mcp_call c =
     OVERHEAD + retained_agent (mc_agent c) + length (mc_id c) + length (mc_server_label c)
     + length (mc_name c) + length (mc_arguments c) + opt_len (mc_approval_request_id c)
     + opt_len (mc_output c) + opt_bytes retained_mcp_error (mc_error c)"

definition retained_mcp_list_tool :: "mcp_list_tool \<Rightarrow> nat" where
  "retained_mcp_list_tool t =
     OVERHEAD + length (mlt_name t) + opt_len (mlt_description t) + retained_json (mlt_input_schema t)
     + opt_bytes retained_json (mlt_annotations t)"

definition retained_mcp_list_tools :: "mcp_list_tools \<Rightarrow> nat" where
  "retained_mcp_list_tools l =
     OVERHEAD + retained_agent (mls_agent l) + length (mls_id l) + length (mls_server_label l)
     + opt_len (mls_error l) + sum_retained retained_mcp_list_tool (mls_tools l)"

definition retained_compaction :: "compaction_item \<Rightarrow> nat" where
  "retained_compaction c =
     OVERHEAD + retained_agent (cmp_agent c) + opt_len (cmp_id c) + length (cmp_encrypted_content c)"

definition retained_reasoning :: "reasoning_output \<Rightarrow> nat" where
  "retained_reasoning r =
     OVERHEAD + retained_agent (ro_agent r) + length (ro_id r) + opt_len (ro_encrypted_content r)
     + sum_retained (\<lambda>text. OVERHEAD + length text) (ro_content r)
     + sum_retained (\<lambda>text. OVERHEAD + length text) (ro_summary r)"

definition retained_multi_agent_call :: "multi_agent_call \<Rightarrow> nat" where
  "retained_multi_agent_call c =
     OVERHEAD + length (mac_id c) + length (mac_call_id c) + length (mac_arguments c) + retained_agent (mac_agent c)"

fun retained_multi_agent_content :: "multi_agent_call_output_content \<Rightarrow> nat" where
  "retained_multi_agent_content (MocOutputText part) = retained_output_text part"

definition retained_multi_agent_output :: "multi_agent_call_output \<Rightarrow> nat" where
  "retained_multi_agent_output m =
     OVERHEAD + length (mao_id m) + length (mao_call_id m) + sum_retained retained_multi_agent_content (mao_output m)
     + retained_agent (mao_agent m)"

fun retained_agent_message_content :: "agent_message_content \<Rightarrow> nat" where
  "retained_agent_message_content (AmcInputText part) = retained_input_text part"
| "retained_agent_message_content (AmcText part) = retained_input_text part"
| "retained_agent_message_content (AmcSummaryText part) = retained_input_text part"
| "retained_agent_message_content (AmcReasoningText part) = retained_input_text part"
| "retained_agent_message_content (AmcOutputText part) = retained_output_text part"
| "retained_agent_message_content (AmcInputImage part) = retained_input_image part"
| "retained_agent_message_content (AmcComputerScreenshot part) = retained_input_image part"
| "retained_agent_message_content (AmcInputFile part) = retained_input_file part"
| "retained_agent_message_content (AmcRefusal part) = retained_refusal part"
| "retained_agent_message_content (AmcEncryptedContent text) = OVERHEAD + length text"

definition retained_agent_message :: "agent_message \<Rightarrow> nat" where
  "retained_agent_message m =
     OVERHEAD + length (am_id m) + length (am_author m) + length (am_recipient m)
     + sum_retained retained_agent_message_content (am_content m) + retained_agent (am_agent m)"

fun retained_output_item :: "tool_search_output_message serializer \<Rightarrow> output_item \<Rightarrow> nat" where
  "retained_output_item ser (OiMessage i) = retained_output_message i"
| "retained_output_item ser (OiFunctionCall i) = retained_function_call i"
| "retained_output_item ser (OiCodeInterpreterCall i) = retained_code_call i"
| "retained_output_item ser (OiCustomToolCall i) = retained_custom_call i"
| "retained_output_item ser (OiShellCall i) = retained_shell_call i"
| "retained_output_item ser (OiReasoning i) = retained_reasoning i"
| "retained_output_item ser (OiToolSearchCall i) = retained_tool_search_call i"
| "retained_output_item ser (OiToolSearchOutput i) = retained_tool_search_output ser i"
| "retained_output_item ser (OiWebSearchCall i) = retained_web_search_call i"
| "retained_output_item ser (OiMcpCall i) = retained_mcp_call i"
| "retained_output_item ser (OiMcpListTools i) = retained_mcp_list_tools i"
| "retained_output_item ser (OiCompaction i) = retained_compaction i"
| "retained_output_item ser (OiMultiAgentCall i) = retained_multi_agent_call i"
| "retained_output_item ser (OiMultiAgentCallOutput i) = retained_multi_agent_output i"
| "retained_output_item ser (OiAgentMessage i) = retained_agent_message i"
| "retained_output_item ser OiUnknown = OVERHEAD"

definition retained_response_parts_bytes ::
  "tool_search_output_message serializer \<Rightarrow> string \<Rightarrow> output_item list \<Rightarrow> string option \<Rightarrow> nat" where
  "retained_response_parts_bytes ser response_id output service_tier =
     OVERHEAD + length response_id + sum_retained (retained_output_item ser) output
     + (case service_tier of None \<Rightarrow> 0 | Some tier \<Rightarrow> OVERHEAD + length tier)"

lemmas retained_defs =
  retained_output_message_def retained_function_call_def retained_code_call_def retained_custom_call_def
  retained_shell_call_def retained_reasoning_def retained_tool_search_call_def retained_tool_search_output_def
  retained_web_search_call_def retained_mcp_call_def retained_mcp_list_tools_def retained_compaction_def
  retained_multi_agent_call_def retained_multi_agent_output_def retained_agent_message_def
  retained_function_result_def retained_shell_output_def retained_custom_output_def

subsection \<open>What the measurement guarantees\<close>

text \<open>An independent reading of a JSON value: how many values it holds and how many payload
  bytes, counted without the container charge.\<close>

fun json_nodes :: "json \<Rightarrow> nat" where
  "json_nodes (JArray items) = Suc (sum_list (map json_nodes items))"
| "json_nodes (JObject entries) = Suc (sum_list (map (\<lambda>(_, value). json_nodes value) entries))"
| "json_nodes _ = 1"

fun json_payload :: "json \<Rightarrow> nat" where
  "json_payload JNull = 4"
| "json_payload (JBool _) = 5"
| "json_payload (JNumber _) = 8"
| "json_payload (JString text) = length text"
| "json_payload (JArray items) = sum_list (map json_payload items)"
| "json_payload (JObject entries) = sum_list (map (\<lambda>(key, value). length key + json_payload value) entries)"

lemma sum_list_nodes_payload:
  "(\<And>x. x \<in> set xs \<Longrightarrow> f x = c * g x + h x) \<Longrightarrow>
   sum_list (map f xs) = (c::nat) * sum_list (map g xs) + sum_list (map h xs)"
  by (induction xs) (auto simp: algebra_simps)

lemma retained_json_nodes_payload:
  "retained_json v = OVERHEAD * json_nodes v + json_payload v"
proof (induction v rule: retained_json.induct)
  case (5 items)
  then show ?case by (simp add: sum_list_nodes_payload [of items retained_json OVERHEAD json_nodes json_payload])
next
  case (6 entries)
  have "sum_list (map (\<lambda>(key, value). length key + retained_json value) entries) =
    OVERHEAD * sum_list (map (\<lambda>(_, value). json_nodes value) entries)
    + sum_list (map (\<lambda>(key, value). length key + json_payload value) entries)"
    by (rule sum_list_nodes_payload) (use 6 in fastforce)
  then show ?case by simp
qed auto

lemma overhead_le_USIZE_MAX [simp]: "OVERHEAD \<le> USIZE_MAX"
  by (simp add: RETAINED_CONTAINER_OVERHEAD_BYTES_def USIZE_MAX_def)

lemma retained_output_item_ge_overhead: "OVERHEAD \<le> retained_output_item ser item"
  by (cases item) (auto simp: retained_defs Let_def saturating_add_def)

lemma sum_retained_ge: "(\<And>x. c \<le> f x) \<Longrightarrow> c * length xs \<le> sum_retained f xs"
  by (induction xs) (auto simp: sum_retained_def add_mono)

lemma retained_parts_ge_items:
  "OVERHEAD * Suc (length items) \<le> retained_response_parts_bytes ser rid items tier"
  using sum_retained_ge [of OVERHEAD "retained_output_item ser" items] retained_output_item_ge_overhead
  by (auto simp: retained_response_parts_bytes_def)

section \<open>Properties\<close>

text \<open>A sequence of charges by the holders of one budget handle, in the order the atomic takes
  them, with each outcome.\<close>

fun consume_all ::
  "executor_response_budget \<Rightarrow> nat list \<Rightarrow> executor_response_budget \<times> (executor_error + unit) list" where
  "consume_all b [] = (b, [])"
| "consume_all b (n # ns) =
     (case consume b n of (b', r) \<Rightarrow> (case consume_all b' ns of (b'', rs) \<Rightarrow> (b'', r # rs)))"

definition accepted_charges :: "nat list \<Rightarrow> (executor_error + unit) list \<Rightarrow> nat list" where
  "accepted_charges ns rs = map fst (filter (\<lambda>(n, r). is_ok r) (zip ns rs))"

lemma consume_all_charge_all:
  "consume_all b ns = (b', rs) \<Longrightarrow> rb.charge_all b ns = (b', accepted_charges ns rs) \<and> length rs = length ns"
  by (induction ns arbitrary: b b' rs)
    (auto simp: accepted_charges_def consumed_def consume_eq split: prod.splits if_splits)

lemma consume_all_refused:
  assumes "consume_all b ns = (b', rs)" and "i < length ns"
  shows "is_ok (rs ! i) \<longleftrightarrow>
    rb_used b + sum_list (accepted_charges (take i ns) (take i rs)) + ns ! i \<le> min (rb_limit b) USIZE_MAX"
  using assms
proof (induction ns arbitrary: b b' rs i)
  case (Cons n ns)
  obtain c r where step: "consume b n = (c, r)" by fastforce
  obtain rs' where rest: "consume_all c ns = (b', rs')" and rs: "rs = r # rs'"
    using Cons.prems(1) step by (auto split: prod.splits)
  show ?case
  proof (cases i)
    case 0
    with step rs show ?thesis by (auto simp: consume_eq accepted_charges_def split: if_splits)
  next
    case (Suc j)
    with Cons.prems(2) Cons.IH [OF rest, of j] step rs show ?thesis
      by (auto simp: consume_eq accepted_charges_def split: if_splits)
  qed
qed simp

text \<open>Any interleaving of charges against a fresh response budget: the counter is the exact
  sum of the accepted charges, it never passes the limit, and a charge is refused exactly when it
  would pass the limit (or the 64-bit range) at that point.\<close>

lemma consume_all_exact:
  assumes "consume_all (with_limit limit) ns = (b, rs)"
  shows "rb_used b = sum_list (accepted_charges ns rs) \<and> rb_used b \<le> limit \<and>
    (\<forall>i<length ns. is_ok (rs ! i) \<longleftrightarrow>
      sum_list (accepted_charges (take i ns) (take i rs)) + ns ! i \<le> min limit USIZE_MAX)"
proof -
  have all: "rb.charge_all (with_limit limit) ns = (b, accepted_charges ns rs)"
    using consume_all_charge_all [OF assms] by blast
  show ?thesis
    using rb.charge_all_used [OF all] rb.charge_all_bounded [OF all] consume_all_refused [OF assms]
    by (simp add: with_limit_def)
qed

text \<open>The retained account of a slot mirrors the shared budget through any run of charges,
  measured growth and reconciliations: the bytes accounted grow exactly as the budget's counter
  does, the counter stays under its limit, and this holds also when the run ends in a refusal.\<close>

lemma account_run_conserves:
  assumes "account_run ops (new_account, Some b) = ((a', b''), r)"
    and "rb_used b \<le> rb_limit b" and "rb_limit b \<le> USIZE_MAX"
  shows "\<exists>b'. b'' = Some b' \<and> rb_limit b' = rb_limit b \<and> rb_used b' \<le> rb_limit b \<and>
    rb_used b' = rb_used b + accounted a'"
  using account_run_mirrors_budget [OF assms(1-3)] by (force simp: new_account_def)

text \<open>Reconciling to a measurement covers it and is idempotent: a second reconciliation to
  the same or a smaller measurement charges nothing and changes nothing.\<close>

lemma reconcile_once:
  assumes "reconcile m (a, b) = ((a', b'), Inr u)" and "m \<le> USIZE_MAX" and "m' \<le> m"
  shows "m \<le> accounted a' \<and> reconcile m' (a', b') = ((a', b'), Inr ())"
  using reconcile_covers [OF assms(1,2)] reconcile_idempotent [OF assms] by simp

text \<open>The measured size of a JSON value is 32 bytes per value it holds (arrays and objects
  included) plus its payload bytes: every text byte, key byte and scalar is charged once.\<close>

lemma retained_json_exact: "retained_json v = 32 * json_nodes v + json_payload v"
  using retained_json_nodes_payload [of v] by (simp add: RETAINED_CONTAINER_OVERHEAD_BYTES_def)

text \<open>A response whose retained parts the budget accepted holds at most \<open>limit / 32 - 1\<close>
  output items, so structural growth that carries no text is bounded too.\<close>

lemma retained_items_bounded:
  assumes "consume b (retained_response_parts_bytes ser rid items tier) = (b', Inr u)"
  shows "32 * (length items + 1) \<le> rb_limit b"
  using retained_parts_ge_items [of items ser rid tier] assms
  by (simp add: consume_ok RETAINED_CONTAINER_OVERHEAD_BYTES_def)

end
