(* ===== verification/Agent_Registry.thy ===== *)
theory Agent_Registry
  imports Agent_Identity Response_Budget
begin

text \<open>
  Synchronous tree metadata and mailboxes of the multi-agent coordinator
  (\<open>executor/multi_agent/registry.rs\<close>) and the stored form of one agent (\<open>types/agent_tree.rs\<close>).

  Every operation on \<open>&mut self\<close> returns the registry beside its result, on errors too. The budget
  is a handle shared with the rest of the response: its counter is kept in the registry's state and
  charges by other holders are the operation \<open>OtherCharge\<close>. The sizes of the Rust structs
  (\<open>std::mem::size_of\<close>) are the parameter \<open>sz\<close>; fresh turn ids are arguments. A call of
  \<open>expect\<close> is the error \<open>Panicked\<close>, which no property leaves possible.
\<close>

section \<open>State\<close>

record registry_limits =
  max_agents :: nat
  max_mailbox_messages :: nat

record type_sizes =
  size_of_agent_entry :: nat
  size_of_agent_mail :: nat

datatype registry_error =
    UnknownAgent
  | StaleTurn
  | InactiveTurn
  | DuplicateAgent
  | RootFollowup
  | AgentLimit
  | MailboxFull
  | NotRunnable
  | InvalidIdentity invalid_agent_identity
  | BudgetError executor_error
  | Panicked

record agent_record =
  ar_parent :: "agent_identity option"
  ar_turn :: agent_turn_id
  ar_state :: agent_state
  ar_mailbox :: "agent_mail list"

record agent_registry =
  rg_agents :: "(agent_identity, agent_record) index_map"
  rg_limits :: registry_limits
  rg_budget :: executor_response_budget

record stored_agent_wait =
  saw_call_id :: string
  saw_deadline_ms :: int

record stored_agent =
  sa_identity :: agent_identity
  sa_parent :: "agent_identity option"
  sa_turn :: agent_turn_id
  sa_state :: agent_state
  sa_mailbox :: "agent_mail list"
  sa_history :: "input_item list"
  sa_loaded_tools :: "responses_tool list"
  sa_last_task :: string
  sa_final_answer :: "string option"
  sa_rounds :: nat
  sa_wait :: "stored_agent_wait option"

record agent_view =
  av_identity :: agent_identity
  av_parent :: "agent_identity option"
  av_turn :: agent_turn_id
  av_state :: agent_state
  av_queued_messages :: nat

type_synonym 'a registry_outcome = "(agent_registry, registry_error, 'a) outcome"

section \<open>Operations\<close>

definition new_agent_record :: "agent_turn_id \<Rightarrow> agent_identity option \<Rightarrow> agent_record" where
  "new_agent_record turn parent =
     \<lparr>ar_parent = parent, ar_turn = turn, ar_state = Active Runnable, ar_mailbox = []\<rparr>"

definition view :: "agent_identity \<Rightarrow> agent_record \<Rightarrow> agent_view" where
  "view identity r =
     \<lparr>av_identity = identity, av_parent = ar_parent r, av_turn = ar_turn r, av_state = ar_state r,
      av_queued_messages = length (ar_mailbox r)\<rparr>"

definition record_bytes :: "type_sizes \<Rightarrow> agent_identity \<Rightarrow> agent_identity option \<Rightarrow> nat" where
  "record_bytes sz identity parent =
     saturating_add (saturating_add (saturating_add (size_of_agent_entry sz) RETAINED_CONTAINER_OVERHEAD_BYTES)
       (length identity)) (case parent of None \<Rightarrow> 0 | Some p \<Rightarrow> length p)"

definition mail_bytes :: "type_sizes \<Rightarrow> agent_turn_key \<Rightarrow> nat \<Rightarrow> nat" where
  "mail_bytes sz sender text_bytes =
     saturating_add (saturating_add (saturating_add (size_of_agent_mail sz) RETAINED_CONTAINER_OVERHEAD_BYTES)
       (length (tk_agent sender))) text_bytes"

definition with_budget ::
  "type_sizes \<Rightarrow> agent_turn_id \<Rightarrow> registry_limits \<Rightarrow> executor_response_budget \<Rightarrow>
   executor_response_budget \<times> (registry_error + agent_registry)" where
  "with_budget sz fresh limits budget =
     (case consume budget (record_bytes sz root None) of
        (b, Inl e) \<Rightarrow> (b, Inl (BudgetError e))
      | (b, Inr _) \<Rightarrow>
          (b, Inr \<lparr>rg_agents = AList.update root (new_agent_record fresh None) [], rg_limits = limits, rg_budget = b\<rparr>))"

definition new_registry ::
  "type_sizes \<Rightarrow> agent_turn_id \<Rightarrow> registry_limits \<Rightarrow> nat \<Rightarrow> registry_error + agent_registry" where
  "new_registry sz fresh limits max_retained_bytes =
     snd (with_budget sz fresh limits (with_limit max_retained_bytes))"

fun mail_text_bytes :: "agent_mail_content \<Rightarrow> nat" where
  "mail_text_bytes (McMessage text) = length text"
| "mail_text_bytes (McTask text) = length text"
| "mail_text_bytes (McTurnFinished (CompFinished text)) = length text"
| "mail_text_bytes (McTurnFinished (CompFailed text)) = length text"
| "mail_text_bytes (McTurnFinished CompInterrupted) = 0"

fun restore_mail ::
  "type_sizes \<Rightarrow> stored_agent list \<Rightarrow> agent_mail list \<Rightarrow> executor_response_budget \<Rightarrow>
   (executor_response_budget, registry_error, unit) outcome" where
  "restore_mail sz agents [] b = (b, Inr ())"
| "restore_mail sz agents (mail # mails) b =
     (if \<not> list_ex (\<lambda>entry. sa_identity entry = tk_agent (mail_sender mail)) agents then (b, Inl UnknownAgent)
      else case consume b (mail_bytes sz (mail_sender mail) (mail_text_bytes (mail_content mail))) of
        (b', Inl e) \<Rightarrow> (b', Inl (BudgetError e))
      | (b', Inr _) \<Rightarrow> restore_mail sz agents mails b')"

definition parent_admissible :: "stored_agent \<Rightarrow> (agent_identity, agent_record) index_map \<Rightarrow> bool" where
  "parent_admissible agent records =
     (case sa_parent agent of
        None \<Rightarrow> is_root (sa_identity agent) \<and> records = []
      | Some parent \<Rightarrow>
          map_of records parent \<noteq> None \<and>
          (case rsplit_once_slash (sa_identity agent) of None \<Rightarrow> False | Some (path, _) \<Rightarrow> path = parent))"

fun live_state :: "agent_state \<Rightarrow> bool" where
  "live_state (Active Inferring) = True"
| "live_state (Active ExecutingTools) = True"
| "live_state _ = False"

definition record_of_stored :: "stored_agent \<Rightarrow> agent_record" where
  "record_of_stored agent =
     \<lparr>ar_parent = sa_parent agent, ar_turn = sa_turn agent, ar_state = sa_state agent, ar_mailbox = sa_mailbox agent\<rparr>"

fun restore_agents ::
  "type_sizes \<Rightarrow> registry_limits \<Rightarrow> stored_agent list \<Rightarrow> stored_agent list \<Rightarrow>
   (agent_identity, agent_record) index_map \<Rightarrow> executor_response_budget \<Rightarrow>
   (executor_response_budget, registry_error, (agent_identity, agent_record) index_map) outcome" where
  "restore_agents sz limits all [] records b = (b, Inr records)"
| "restore_agents sz limits all (agent # agents) records b =
     (if map_of records (sa_identity agent) \<noteq> None then (b, Inl DuplicateAgent)
      else if \<not> parent_admissible agent records then (b, Inl (InvalidIdentity InvalidAgentIdentity))
      else if length (sa_mailbox agent) > max_mailbox_messages limits then (b, Inl MailboxFull)
      else if live_state (sa_state agent) then (b, Inl NotRunnable)
      else case consume b (record_bytes sz (sa_identity agent) (sa_parent agent)) of
        (b1, Inl e) \<Rightarrow> (b1, Inl (BudgetError e))
      | (b1, Inr _) \<Rightarrow>
          (case restore_mail sz all (sa_mailbox agent) b1 of
             (b2, Inl e) \<Rightarrow> (b2, Inl e)
           | (b2, Inr _) \<Rightarrow>
               restore_agents sz limits all agents
                 (AList.update (sa_identity agent) (record_of_stored agent) records) b2))"

definition restore ::
  "type_sizes \<Rightarrow> stored_agent list \<Rightarrow> registry_limits \<Rightarrow> executor_response_budget \<Rightarrow>
   executor_response_budget \<times> (registry_error + agent_registry)" where
  "restore sz agents limits budget =
     (if agents = [] \<or> length agents > max_agents limits then (budget, Inl AgentLimit)
      else case restore_agents sz limits agents agents [] budget of
        (b, Inl e) \<Rightarrow> (b, Inl e)
      | (b, Inr records) \<Rightarrow> (b, Inr \<lparr>rg_agents = records, rg_limits = limits, rg_budget = b\<rparr>))"

definition checkpoint_agent :: "agent_registry \<Rightarrow> stored_agent \<Rightarrow> registry_error + stored_agent" where
  "checkpoint_agent reg agent =
     (case map_of (rg_agents reg) (sa_identity agent) of
        None \<Rightarrow> Inl UnknownAgent
      | Some r \<Rightarrow>
          Inr (agent\<lparr>sa_parent := ar_parent r, sa_turn := ar_turn r, sa_state := ar_state r,
                     sa_mailbox := ar_mailbox r\<rparr>))"

definition write_agent :: "agent_identity \<Rightarrow> (agent_record \<Rightarrow> agent_record) \<Rightarrow> agent_registry \<Rightarrow> agent_registry" where
  "write_agent identity f reg = reg\<lparr>rg_agents := im_modify identity f (rg_agents reg)\<rparr>"

definition start_turn :: "agent_turn_id \<Rightarrow> agent_record \<Rightarrow> agent_record" where
  "start_turn fresh r = r\<lparr>ar_turn := fresh, ar_state := Active Runnable\<rparr>"

definition resume_root :: "agent_turn_id \<Rightarrow> agent_registry \<Rightarrow> agent_turn_key registry_outcome" where
  "resume_root fresh reg =
     (case map_of (rg_agents reg) root of
        None \<Rightarrow> (reg, Inl Panicked)
      | Some r \<Rightarrow>
          (let turn = (if is_active (ar_state r) then ar_turn r else fresh)
           in (write_agent root (\<lambda>r. r\<lparr>ar_turn := turn, ar_state := Active Runnable\<rparr>) reg,
               Inr \<lparr>tk_agent = root, tk_turn = turn\<rparr>)))"

definition resume_idle :: "agent_turn_id \<Rightarrow> agent_identity \<Rightarrow> agent_registry \<Rightarrow> agent_registry \<times> agent_turn_key option" where
  "resume_idle fresh identity reg =
     (case map_of (rg_agents reg) identity of
        None \<Rightarrow> (reg, None)
      | Some r \<Rightarrow>
          if ar_state r \<noteq> Idle then (reg, None)
          else (write_agent identity (start_turn fresh) reg, Some \<lparr>tk_agent = identity, tk_turn = fresh\<rparr>))"

definition active_subagents :: "agent_registry \<Rightarrow> nat" where
  "active_subagents reg =
     length (filter (\<lambda>(identity, r). \<not> is_root identity \<and> is_active (ar_state r)) (rg_agents reg))"

definition get_agent :: "agent_registry \<Rightarrow> agent_identity \<Rightarrow> agent_view option" where
  "get_agent reg identity = map_option (view identity) (map_of (rg_agents reg) identity)"

definition agents :: "agent_registry \<Rightarrow> agent_view list" where
  "agents reg = map (\<lambda>(identity, r). view identity r) (rg_agents reg)"

definition active :: "agent_turn_key \<Rightarrow> agent_registry \<Rightarrow> registry_error + agent_record" where
  "active turn reg =
     (case map_of (rg_agents reg) (tk_agent turn) of
        None \<Rightarrow> Inl UnknownAgent
      | Some r \<Rightarrow>
          if ar_turn r \<noteq> tk_turn turn then Inl StaleTurn
          else if \<not> is_active (ar_state r) then Inl InactiveTurn
          else Inr r)"

definition charge_registry :: "nat \<Rightarrow> agent_registry \<Rightarrow> unit registry_outcome" where
  "charge_registry bytes reg =
     (case consume (rg_budget reg) bytes of
        (b, Inl e) \<Rightarrow> (reg\<lparr>rg_budget := b\<rparr>, Inl (BudgetError e))
      | (b, Inr _) \<Rightarrow> (reg\<lparr>rg_budget := b\<rparr>, Inr ()))"

definition reserve_mail ::
  "type_sizes \<Rightarrow> agent_identity \<Rightarrow> agent_turn_key \<Rightarrow> nat \<Rightarrow> agent_registry \<Rightarrow> agent_record registry_outcome" where
  "reserve_mail sz recipient sender text_bytes reg =
     (case map_of (rg_agents reg) recipient of
        None \<Rightarrow> (reg, Inl UnknownAgent)
      | Some r \<Rightarrow>
          if length (ar_mailbox r) \<ge> max_mailbox_messages (rg_limits reg) then (reg, Inl MailboxFull)
          else case charge_registry (mail_bytes sz sender text_bytes) reg of
            (reg', Inl e) \<Rightarrow> (reg', Inl e)
          | (reg', Inr _) \<Rightarrow> (reg', Inr r))"

definition enqueue_record :: "agent_mail \<Rightarrow> agent_record \<Rightarrow> agent_record" where
  "enqueue_record mail r =
     r\<lparr>ar_mailbox := ar_mailbox r @ [mail],
       ar_state := (if ar_state r = Active WaitingForMailbox then Active Runnable else ar_state r)\<rparr>"

definition enqueue :: "agent_identity \<Rightarrow> agent_mail \<Rightarrow> agent_registry \<Rightarrow> agent_registry \<times> bool" where
  "enqueue recipient mail reg =
     (case map_of (rg_agents reg) recipient of
        None \<Rightarrow> (reg, False)
      | Some _ \<Rightarrow> (write_agent recipient (enqueue_record mail) reg, True))"

definition register_child ::
  "type_sizes \<Rightarrow> agent_turn_id \<Rightarrow> agent_turn_key \<Rightarrow> string \<Rightarrow> string \<Rightarrow> agent_registry \<Rightarrow> agent_turn_key registry_outcome" where
  "register_child sz fresh parent task_name task reg =
     (case active parent reg of
        Inl e \<Rightarrow> (reg, Inl e)
      | Inr _ \<Rightarrow>
          (case child (tk_agent parent) task_name of
             Inl e \<Rightarrow> (reg, Inl (InvalidIdentity e))
           | Inr identity \<Rightarrow>
               if map_of (rg_agents reg) identity \<noteq> None then (reg, Inl DuplicateAgent)
               else if length (rg_agents reg) \<ge> max_agents (rg_limits reg) then (reg, Inl AgentLimit)
               else case charge_registry
                   (saturating_add (record_bytes sz identity (Some (tk_agent parent)))
                      (mail_bytes sz parent (length task))) reg of
                 (reg', Inl e) \<Rightarrow> (reg', Inl e)
               | (reg', Inr _) \<Rightarrow>
                   (let r = (new_agent_record fresh (Some (tk_agent parent)))
                          \<lparr>ar_mailbox := [\<lparr>mail_sender = parent, mail_content = McTask task\<rparr>]\<rparr>
                    in (reg'\<lparr>rg_agents := AList.update identity r (rg_agents reg')\<rparr>,
                        Inr \<lparr>tk_agent = identity, tk_turn = fresh\<rparr>))))"

definition send_message ::
  "type_sizes \<Rightarrow> agent_turn_key \<Rightarrow> agent_identity \<Rightarrow> string \<Rightarrow> agent_registry \<Rightarrow> unit registry_outcome" where
  "send_message sz sender recipient text reg =
     (case active sender reg of
        Inl e \<Rightarrow> (reg, Inl e)
      | Inr _ \<Rightarrow>
          (case reserve_mail sz recipient sender (length text) reg of
             (reg', Inl e) \<Rightarrow> (reg', Inl e)
           | (reg', Inr _) \<Rightarrow>
               (case enqueue recipient \<lparr>mail_sender = sender, mail_content = McMessage text\<rparr> reg' of
                  (reg'', ok) \<Rightarrow> (reg'', if ok then Inr () else Inl Panicked))))"

definition followup_task ::
  "type_sizes \<Rightarrow> agent_turn_id \<Rightarrow> agent_turn_key \<Rightarrow> agent_identity \<Rightarrow> string \<Rightarrow> agent_registry \<Rightarrow> agent_turn_key registry_outcome" where
  "followup_task sz fresh sender recipient task reg =
     (case active sender reg of
        Inl e \<Rightarrow> (reg, Inl e)
      | Inr _ \<Rightarrow>
          if is_root recipient then (reg, Inl RootFollowup)
          else case reserve_mail sz recipient sender (length task) reg of
            (reg', Inl e) \<Rightarrow> (reg', Inl e)
          | (reg', Inr r) \<Rightarrow>
              (let turn = (if is_active (ar_state r) then ar_turn r else fresh);
                   reg1 = (if is_active (ar_state r) then reg' else write_agent recipient (start_turn fresh) reg')
               in case enqueue recipient \<lparr>mail_sender = sender, mail_content = McTask task\<rparr> reg1 of
                    (reg2, ok) \<Rightarrow> (reg2, if ok then Inr \<lparr>tk_agent = recipient, tk_turn = turn\<rparr> else Inl Panicked)))"

fun is_task :: "agent_mail_content \<Rightarrow> bool" where
  "is_task (McTask _) = True"
| "is_task _ = False"

definition resume_queued_task :: "agent_turn_id \<Rightarrow> agent_identity \<Rightarrow> agent_registry \<Rightarrow> agent_registry \<times> bool" where
  "resume_queued_task fresh identity reg =
     (case map_of (rg_agents reg) identity of
        None \<Rightarrow> (reg, False)
      | Some r \<Rightarrow>
          if is_active (ar_state r) \<or> \<not> list_ex (\<lambda>mail. is_task (mail_content mail)) (ar_mailbox r) then (reg, False)
          else (write_agent identity (start_turn fresh) reg, True))"

definition set_phase :: "agent_turn_key \<Rightarrow> agent_phase \<Rightarrow> agent_registry \<Rightarrow> unit registry_outcome" where
  "set_phase turn phase reg =
     (case active turn reg of
        Inl e \<Rightarrow> (reg, Inl e)
      | Inr r \<Rightarrow>
          (let phase' = (if phase = WaitingForMailbox \<and> ar_mailbox r \<noteq> [] then Runnable else phase)
           in (write_agent (tk_agent turn) (\<lambda>r. r\<lparr>ar_state := Active phase'\<rparr>) reg, Inr ())))"

definition take_mailbox :: "agent_turn_key \<Rightarrow> agent_registry \<Rightarrow> agent_mail list registry_outcome" where
  "take_mailbox turn reg =
     (case active turn reg of
        Inl e \<Rightarrow> (reg, Inl e)
      | Inr r \<Rightarrow>
          if ar_state r \<noteq> Active Runnable then (reg, Inl NotRunnable)
          else (write_agent (tk_agent turn) (\<lambda>r. r\<lparr>ar_mailbox := []\<rparr>) reg, Inr (ar_mailbox r)))"

fun completion_bytes :: "agent_completion \<Rightarrow> nat" where
  "completion_bytes (CompFinished text) = length text"
| "completion_bytes (CompFailed text) = length text"
| "completion_bytes CompInterrupted = 0"

fun settled_state :: "agent_completion \<Rightarrow> agent_state" where
  "settled_state (CompFinished _) = Idle"
| "settled_state CompInterrupted = Interrupted"
| "settled_state (CompFailed _) = Failed"

definition settle_turn ::
  "type_sizes \<Rightarrow> agent_turn_key \<Rightarrow> agent_completion \<Rightarrow> agent_registry \<Rightarrow> unit registry_outcome" where
  "settle_turn sz turn result reg =
     (case active turn reg of
        Inl e \<Rightarrow> (reg, Inl e)
      | Inr r \<Rightarrow>
          (case (case ar_parent r of
                   None \<Rightarrow> (reg, Inr ())
                 | Some parent \<Rightarrow>
                     (case reserve_mail sz parent turn (completion_bytes result) reg of
                        (reg', Inl e) \<Rightarrow> (reg', Inl e)
                      | (reg', Inr _) \<Rightarrow> (reg', Inr ()))) of
             (reg1, Inl e) \<Rightarrow> (reg1, Inl e)
           | (reg1, Inr _) \<Rightarrow>
               (case active turn reg1 of
                  Inl e \<Rightarrow> (reg1, Inl e)
                | Inr _ \<Rightarrow>
                    (let reg2 = write_agent (tk_agent turn) (\<lambda>r. r\<lparr>ar_state := settled_state result\<rparr>) reg1
                     in case ar_parent r of
                          None \<Rightarrow> (reg2, Inr ())
                        | Some parent \<Rightarrow>
                            (case enqueue parent \<lparr>mail_sender = turn, mail_content = McTurnFinished result\<rparr> reg2 of
                               (reg3, ok) \<Rightarrow> (reg3, if ok then Inr () else Inl Panicked))))))"


section \<open>Runs of operations\<close>

datatype registry_op =
    OpRegisterChild agent_turn_id agent_turn_key string string
  | OpSendMessage agent_turn_key agent_identity string
  | OpFollowupTask agent_turn_id agent_turn_key agent_identity string
  | OpSetPhase agent_turn_key agent_phase
  | OpTakeMailbox agent_turn_key
  | OpSettleTurn agent_turn_key agent_completion
  | OpResumeRoot agent_turn_id
  | OpResumeIdle agent_turn_id agent_identity
  | OpResumeQueuedTask agent_turn_id agent_identity
  | OpOtherCharge nat

datatype registry_reply =
    RpKey agent_turn_key | RpUnit | RpMail "agent_mail list" | RpKeyOption "agent_turn_key option" | RpBool bool

definition reply :: "('a \<Rightarrow> registry_reply) \<Rightarrow> 'a registry_outcome \<Rightarrow> registry_reply registry_outcome" where
  "reply f out = (case out of (reg, Inl e) \<Rightarrow> (reg, Inl e) | (reg, Inr a) \<Rightarrow> (reg, Inr (f a)))"

fun registry_step :: "type_sizes \<Rightarrow> registry_op \<Rightarrow> agent_registry \<Rightarrow> registry_reply registry_outcome" where
  "registry_step sz (OpRegisterChild fresh parent nm task) reg = reply RpKey (register_child sz fresh parent nm task reg)"
| "registry_step sz (OpSendMessage sender rcpt text) reg = reply (\<lambda>_. RpUnit) (send_message sz sender rcpt text reg)"
| "registry_step sz (OpFollowupTask fresh sender rcpt task) reg = reply RpKey (followup_task sz fresh sender rcpt task reg)"
| "registry_step sz (OpSetPhase turn phase) reg = reply (\<lambda>_. RpUnit) (set_phase turn phase reg)"
| "registry_step sz (OpTakeMailbox turn) reg = reply RpMail (take_mailbox turn reg)"
| "registry_step sz (OpSettleTurn turn result) reg = reply (\<lambda>_. RpUnit) (settle_turn sz turn result reg)"
| "registry_step sz (OpResumeRoot fresh) reg = reply RpKey (resume_root fresh reg)"
| "registry_step sz (OpResumeIdle fresh identity) reg =
     (case resume_idle fresh identity reg of (reg', k) \<Rightarrow> (reg', Inr (RpKeyOption k)))"
| "registry_step sz (OpResumeQueuedTask fresh identity) reg =
     (case resume_queued_task fresh identity reg of (reg', b) \<Rightarrow> (reg', Inr (RpBool b)))"
| "registry_step sz (OpOtherCharge bytes) reg = reply (\<lambda>_. RpUnit) (charge_registry bytes reg)"

fun registry_run ::
  "type_sizes \<Rightarrow> registry_op list \<Rightarrow> agent_registry \<Rightarrow> agent_registry \<times> (registry_error + registry_reply) list" where
  "registry_run sz [] reg = (reg, [])"
| "registry_run sz (op # ops) reg =
     (case registry_step sz op reg of
        (reg', r) \<Rightarrow> (case registry_run sz ops reg' of (reg'', rs) \<Rightarrow> (reg'', r # rs)))"

section \<open>The invariant\<close>

text \<open>The order of registration: the root first, every other agent after its parent, whose path is
  its own path without the last component.\<close>

fun tree_order :: "agent_identity list \<Rightarrow> (agent_identity, agent_record) index_map \<Rightarrow> bool" where
  "tree_order seen [] \<longleftrightarrow> True"
| "tree_order seen ((identity, r) # rest) \<longleftrightarrow>
     (case ar_parent r of
        None \<Rightarrow> is_root identity \<and> seen = []
      | Some p \<Rightarrow> p \<in> set seen \<and> identity \<noteq> p \<and> map_option fst (rsplit_once_slash identity) = Some p) \<and>
     tree_order (seen @ [identity]) rest"

definition agent_ok :: "nat \<Rightarrow> agent_identity set \<Rightarrow> agent_identity \<Rightarrow> agent_record \<Rightarrow> bool" where
  "agent_ok max_mail known identity r \<longleftrightarrow>
     valid_identity identity \<and> length (ar_mailbox r) \<le> max_mail \<and>
     (ar_state r = Active WaitingForMailbox \<longrightarrow> ar_mailbox r = []) \<and>
     (\<forall>mail\<in>set (ar_mailbox r). tk_agent (mail_sender mail) \<in> known)"

abbreviation known_agents :: "agent_registry \<Rightarrow> agent_identity set" where
  "known_agents reg \<equiv> set (map fst (rg_agents reg))"

definition registry_ok :: "agent_registry \<Rightarrow> bool" where
  "registry_ok reg \<longleftrightarrow>
     rg_agents reg \<noteq> [] \<and> distinct (map fst (rg_agents reg)) \<and> tree_order [] (rg_agents reg) \<and>
     length (rg_agents reg) \<le> max_agents (rg_limits reg) \<and>
     im.all_entries (agent_ok (max_mailbox_messages (rg_limits reg)) (known_agents reg)) (rg_agents reg) \<and>
     rb_used (rg_budget reg) \<le> rb_limit (rg_budget reg)"

section \<open>What each operation does\<close>

definition charged :: "nat \<Rightarrow> agent_registry \<Rightarrow> agent_registry" where
  "charged n reg = reg\<lparr>rg_budget := (rg_budget reg)\<lparr>rb_used := rb_used (rg_budget reg) + n\<rparr>\<rparr>"

definition fits :: "nat \<Rightarrow> agent_registry \<Rightarrow> bool" where
  "fits n reg \<longleftrightarrow> rb_used (rg_budget reg) + n \<le> min (rb_limit (rg_budget reg)) USIZE_MAX"

lemma charged_simps [simp]:
  "rg_agents (charged n reg) = rg_agents reg" "rg_limits (charged n reg) = rg_limits reg"
  by (simp_all add: charged_def)

lemma charge_registry_eq [budget_simps]:
  "charge_registry n reg =
     (if fits n reg then (charged n reg, Inr ())
      else (reg, Inl (BudgetError (ResourceLimitExceeded LimitResponseBudget (rb_limit (rg_budget reg))))))"
  by (simp add: charge_registry_def consume_eq fits_def charged_def)

lemma write_agent_simps [simp]:
  "rg_limits (write_agent k f reg) = rg_limits reg" "rg_budget (write_agent k f reg) = rg_budget reg"
  "map fst (rg_agents (write_agent k f reg)) = map fst (rg_agents reg)"
  "length (rg_agents (write_agent k f reg)) = length (rg_agents reg)"
  by (simp_all add: write_agent_def keys_im_modify)

lemma map_of_write_agent:
  "map_of (rg_agents (write_agent k f reg)) j =
     (if j = k then map_option f (map_of (rg_agents reg) j) else map_of (rg_agents reg) j)"
  by (simp add: write_agent_def map_of_im_modify)

lemma reserve_mail_eq:
  "reserve_mail sz recipient sender n reg =
     (case map_of (rg_agents reg) recipient of
        None \<Rightarrow> (reg, Inl UnknownAgent)
      | Some r \<Rightarrow>
          if length (ar_mailbox r) \<ge> max_mailbox_messages (rg_limits reg) then (reg, Inl MailboxFull)
          else if fits (mail_bytes sz sender n) reg then (charged (mail_bytes sz sender n) reg, Inr r)
          else (reg, Inl (BudgetError (ResourceLimitExceeded LimitResponseBudget (rb_limit (rg_budget reg))))))"
  by (simp add: reserve_mail_def charge_registry_eq split: option.splits)

lemma active_ok:
  "active turn reg = Inr r \<longleftrightarrow>
     map_of (rg_agents reg) (tk_agent turn) = Some r \<and> ar_turn r = tk_turn turn \<and> is_active (ar_state r)"
  by (auto simp: active_def split: option.splits if_splits)

lemma active_charged [simp]: "active turn (charged n reg) = active turn reg"
  by (simp add: active_def)

lemma im_modify_twice: "im_modify k f (im_modify k g m) = im_modify k (\<lambda>v. f (g v)) m"
  by (auto simp: im_modify_def)

lemma im_modify_cong:
  "(\<And>v. (k, v) \<in> set m \<Longrightarrow> f v = g v) \<Longrightarrow> im_modify k f m = im_modify k g m"
  by (auto simp: im_modify_def)

definition room :: "agent_identity \<Rightarrow> agent_registry \<Rightarrow> bool" where
  "room identity reg \<longleftrightarrow>
     (\<exists>r. map_of (rg_agents reg) identity = Some r \<and> length (ar_mailbox r) < max_mailbox_messages (rg_limits reg))"

text \<open>The effect of an accepted operation, with the checks that admitted it.\<close>

lemma register_child_ok:
  assumes "register_child sz fresh parent nm task reg = (reg', Inr key)"
  shows "\<exists>identity r n. active parent reg = Inr r \<and> child (tk_agent parent) nm = Inr identity \<and>
    map_of (rg_agents reg) identity = None \<and> length (rg_agents reg) < max_agents (rg_limits reg) \<and> fits n reg \<and>
    key = \<lparr>tk_agent = identity, tk_turn = fresh\<rparr> \<and>
    reg' = (charged n reg)\<lparr>rg_agents := rg_agents reg @
      [(identity, \<lparr>ar_parent = Some (tk_agent parent), ar_turn = fresh, ar_state = Active Runnable,
                   ar_mailbox = [\<lparr>mail_sender = parent, mail_content = McTask task\<rparr>]\<rparr>)]\<rparr>"
  using assms
  by (auto simp: register_child_def charge_registry_eq Let_def new_agent_record_def alist_update_fresh
      split: sum.splits if_splits)

lemma send_message_ok:
  assumes "send_message sz sender rcpt text reg = (reg', Inr u)"
  shows "\<exists>r n. active sender reg = Inr r \<and> room rcpt reg \<and> fits n reg \<and>
    reg' = write_agent rcpt (enqueue_record \<lparr>mail_sender = sender, mail_content = McMessage text\<rparr>) (charged n reg)"
  using assms
  by (auto simp: send_message_def reserve_mail_eq enqueue_def room_def split: sum.splits if_splits option.splits)

lemma followup_task_ok:
  assumes "followup_task sz fresh sender rcpt task reg = (reg', Inr key)"
  shows "\<exists>r rr n. active sender reg = Inr r \<and> \<not> is_root rcpt \<and> map_of (rg_agents reg) rcpt = Some rr \<and>
    room rcpt reg \<and> fits n reg \<and>
    key = \<lparr>tk_agent = rcpt, tk_turn = if is_active (ar_state rr) then ar_turn rr else fresh\<rparr> \<and>
    reg' = write_agent rcpt (\<lambda>r. enqueue_record \<lparr>mail_sender = sender, mail_content = McTask task\<rparr>
      (if is_active (ar_state rr) then r else start_turn fresh r)) (charged n reg)"
  using assms
  by (auto simp: followup_task_def reserve_mail_eq enqueue_def room_def Let_def map_of_write_agent
      write_agent_def im_modify_twice map_of_im_modify split: sum.splits if_splits option.splits)

lemma settle_turn_ok:
  assumes "settle_turn sz turn result reg = (reg', Inr u)"
  shows "\<exists>r. active turn reg = Inr r \<and>
    (case ar_parent r of
       None \<Rightarrow> reg' = write_agent (tk_agent turn) (\<lambda>r. r\<lparr>ar_state := settled_state result\<rparr>) reg
     | Some p \<Rightarrow> \<exists>n. room p reg \<and> fits n reg \<and>
         reg' = write_agent p (enqueue_record \<lparr>mail_sender = turn, mail_content = McTurnFinished result\<rparr>)
           (write_agent (tk_agent turn) (\<lambda>r. r\<lparr>ar_state := settled_state result\<rparr>) (charged n reg)))"
  using assms
  by (auto simp: settle_turn_def reserve_mail_eq enqueue_def room_def Let_def
      split: sum.splits if_splits option.splits)

definition settle_record :: "agent_completion \<Rightarrow> agent_record \<Rightarrow> agent_record" where
  "settle_record result r = r\<lparr>ar_state := settled_state result\<rparr>"

lemma settle_record_simps [simp]:
  "ar_parent (settle_record result r) = ar_parent r" "ar_turn (settle_record result r) = ar_turn r"
  "ar_mailbox (settle_record result r) = ar_mailbox r" "ar_state (settle_record result r) = settled_state result"
  by (simp_all add: settle_record_def)

lemma settle_turn_cases:
  assumes "settle_turn sz turn result reg = (reg', Inr u)"
  shows "\<exists>r. active turn reg = Inr r \<and>
    ((ar_parent r = None \<and> reg' = write_agent (tk_agent turn) (settle_record result) reg) \<or>
     (\<exists>p n. ar_parent r = Some p \<and> room p reg \<and> fits n reg \<and>
        reg' = write_agent p (enqueue_record \<lparr>mail_sender = turn, mail_content = McTurnFinished result\<rparr>)
          (write_agent (tk_agent turn) (settle_record result) (charged n reg))))"
proof -
  have f: "(\<lambda>r. r\<lparr>ar_state := settled_state result\<rparr>) = settle_record result" by (simp add: settle_record_def fun_eq_iff)
  from settle_turn_ok [OF assms, unfolded f] obtain r where "active turn reg = Inr r" and "case ar_parent r of
       None \<Rightarrow> reg' = write_agent (tk_agent turn) (settle_record result) reg
     | Some p \<Rightarrow> \<exists>n. room p reg \<and> fits n reg \<and>
         reg' = write_agent p (enqueue_record \<lparr>mail_sender = turn, mail_content = McTurnFinished result\<rparr>)
           (write_agent (tk_agent turn) (settle_record result) (charged n reg))" by blast
  then show ?thesis by (cases "ar_parent r") auto
qed

lemma set_phase_ok:
  assumes "set_phase turn phase reg = (reg', Inr u)"
  shows "\<exists>r. active turn reg = Inr r \<and>
    reg' = write_agent (tk_agent turn)
      (\<lambda>r'. r'\<lparr>ar_state := Active (if phase = WaitingForMailbox \<and> ar_mailbox r \<noteq> [] then Runnable else phase)\<rparr>) reg"
  using assms by (auto simp: set_phase_def Let_def split: sum.splits)

lemma take_mailbox_ok:
  assumes "take_mailbox turn reg = (reg', Inr mails)"
  shows "\<exists>r. active turn reg = Inr r \<and> ar_state r = Active Runnable \<and> mails = ar_mailbox r \<and>
    reg' = write_agent (tk_agent turn) (\<lambda>r. r\<lparr>ar_mailbox := []\<rparr>) reg"
  using assms by (auto simp: take_mailbox_def split: sum.splits if_splits)


subsection \<open>A rejected operation changes nothing\<close>

lemma map_of_write_agent_None: "map_of (rg_agents (write_agent k f reg)) j = None \<longleftrightarrow> map_of (rg_agents reg) j = None"
  by (simp add: map_of_write_agent)

lemma enqueue_known: "map_of (rg_agents reg) k = Some r \<Longrightarrow> enqueue k m reg = (write_agent k (enqueue_record m) reg, True)"
  by (simp add: enqueue_def)

lemma register_child_err: "register_child sz fresh parent nm task reg = (reg', Inl e) \<Longrightarrow> reg' = reg \<and> e \<noteq> Panicked"
  by (auto simp: register_child_def charge_registry_eq active_def Let_def split: sum.splits if_splits option.splits)

lemma send_message_err: "send_message sz sender rcpt text reg = (reg', Inl e) \<Longrightarrow> reg' = reg \<and> e \<noteq> Panicked"
  by (auto simp: send_message_def reserve_mail_eq enqueue_def active_def split: sum.splits if_splits option.splits)

lemma followup_task_err: "followup_task sz fresh sender rcpt task reg = (reg', Inl e) \<Longrightarrow> reg' = reg \<and> e \<noteq> Panicked"
  by (auto simp: followup_task_def reserve_mail_eq enqueue_def Let_def map_of_write_agent active_def
      split: sum.splits if_splits option.splits)

lemma settle_turn_err: "settle_turn sz turn result reg = (reg', Inl e) \<Longrightarrow> reg' = reg \<and> e \<noteq> Panicked"
  by (auto simp: settle_turn_def reserve_mail_eq enqueue_def Let_def map_of_write_agent active_def
      split: sum.splits if_splits option.splits)

lemma set_phase_err: "set_phase turn phase reg = (reg', Inl e) \<Longrightarrow> reg' = reg \<and> e \<noteq> Panicked"
  by (auto simp: set_phase_def active_def Let_def split: sum.splits if_splits option.splits)

lemma take_mailbox_err: "take_mailbox turn reg = (reg', Inl e) \<Longrightarrow> reg' = reg \<and> e \<noteq> Panicked"
  by (auto simp: take_mailbox_def active_def split: sum.splits if_splits option.splits)

lemma reply_err [simp]: "reply f out = (reg', Inl e) \<longleftrightarrow> out = (reg', Inl e)"
  by (auto simp: reply_def split: prod.splits sum.splits)

lemma reply_ok [simp]: "reply f out = (reg', Inr x) \<longleftrightarrow> (\<exists>a. out = (reg', Inr a) \<and> x = f a)"
  by (auto simp: reply_def split: prod.splits sum.splits)

lemma registry_step_err:
  assumes "registry_step sz op reg = (reg', Inl e)"
  shows "reg' = reg \<and> (e = Panicked \<longrightarrow> map_of (rg_agents reg) root = None)"
proof (cases op)
  case (OpResumeRoot fresh)
  with assms show ?thesis by (auto simp: resume_root_def Let_def split: option.splits)
next
  case (OpResumeIdle fresh i)
  with assms show ?thesis by (auto split: prod.splits)
next
  case (OpResumeQueuedTask fresh i)
  with assms show ?thesis by (auto split: prod.splits)
next
  case (OpOtherCharge n)
  with assms show ?thesis by (auto simp: charge_registry_eq split: if_splits)
qed (use assms in \<open>auto dest: register_child_err send_message_err followup_task_err settle_turn_err set_phase_err
    take_mailbox_err\<close>)

subsection \<open>Every operation keeps the invariant\<close>

lemma tree_order_modify:
  "(\<And>r. ar_parent (f r) = ar_parent r) \<Longrightarrow> tree_order seen (im_modify k f m) = tree_order seen m"
proof (induction m arbitrary: seen)
  case (Cons e m)
  then show ?case by (cases e) (simp add: im_modify_Cons)
qed (simp add: im_modify_def)

lemma tree_order_append:
  "tree_order seen (m @ m') \<longleftrightarrow> tree_order seen m \<and> tree_order (seen @ map fst m) m'"
  by (induction seen m rule: tree_order.induct) auto

lemma tree_order_root:
  assumes "tree_order [] m" and "m \<noteq> []"
  shows "\<exists>r rest. m = (root, r) # rest \<and> ar_parent r = None"
  using assms by (cases m) (auto simp: is_root_def split: option.splits)

lemma tree_order_parent:
  "tree_order seen m \<Longrightarrow> (k, r) \<in> set m \<Longrightarrow> ar_parent r = Some p \<Longrightarrow> p \<noteq> k \<and> p \<in> set seen \<union> set (map fst m)"
  by (induction seen m rule: tree_order.induct) auto

lemma registry_ok_root: "registry_ok reg \<Longrightarrow> \<exists>r. map_of (rg_agents reg) root = Some r \<and> ar_parent r = None"
  using tree_order_root [of "rg_agents reg"] by (auto simp: registry_ok_def)

lemma registry_ok_parent:
  assumes "registry_ok reg" and "map_of (rg_agents reg) k = Some r" and "ar_parent r = Some p"
  shows "p \<noteq> k \<and> p \<in> known_agents reg"
  using assms tree_order_parent [of "[]" "rg_agents reg" k r p] by (auto simp: registry_ok_def dest: map_of_SomeD)

lemma agent_ok_mono: "agent_ok mx known k r \<Longrightarrow> known \<subseteq> known' \<Longrightarrow> agent_ok mx known' k r"
  by (auto simp: agent_ok_def)

lemma registry_ok_write:
  assumes "registry_ok reg" and "\<And>r. ar_parent (f r) = ar_parent r"
    and "\<And>r. map_of (rg_agents reg) k = Some r \<Longrightarrow>
      agent_ok (max_mailbox_messages (rg_limits reg)) (known_agents reg) k r \<Longrightarrow>
      agent_ok (max_mailbox_messages (rg_limits reg)) (known_agents reg) k (f r)"
  shows "registry_ok (write_agent k f reg)"
proof -
  have "im.all_entries (agent_ok (max_mailbox_messages (rg_limits reg)) (known_agents reg))
    (im_modify k f (rg_agents reg))"
    using assms by (intro im.all_entries_modify) (auto simp: registry_ok_def)
  then have entries: "im.all_entries (agent_ok (max_mailbox_messages (rg_limits reg)) (known_agents reg))
    (rg_agents (write_agent k f reg))" by (simp add: write_agent_def)
  have "rg_agents (write_agent k f reg) \<noteq> []"
    using assms(1) by (simp add: registry_ok_def write_agent_def im_modify_def)
  moreover have "tree_order [] (rg_agents (write_agent k f reg))"
    using assms(1,2) by (simp add: registry_ok_def write_agent_def tree_order_modify)
  ultimately show ?thesis
    using assms(1) entries by (simp add: registry_ok_def)
qed

lemma registry_ok_charged: "registry_ok reg \<Longrightarrow> fits n reg \<Longrightarrow> registry_ok (charged n reg)"
  by (simp add: registry_ok_def fits_def) (simp add: charged_def)

lemma enqueue_record_simps [simp]:
  "ar_parent (enqueue_record m r) = ar_parent r" "ar_turn (enqueue_record m r) = ar_turn r"
  "ar_mailbox (enqueue_record m r) = ar_mailbox r @ [m]"
  "ar_state (enqueue_record m r) \<noteq> Active WaitingForMailbox"
  "is_active (ar_state (enqueue_record m r)) = is_active (ar_state r)"
  by (auto simp: enqueue_record_def)

lemma start_turn_simps [simp]:
  "ar_parent (start_turn t r) = ar_parent r" "ar_turn (start_turn t r) = t"
  "ar_mailbox (start_turn t r) = ar_mailbox r" "ar_state (start_turn t r) = Active Runnable"
  by (simp_all add: start_turn_def)

lemma active_known: "active turn reg = Inr r \<Longrightarrow> tk_agent turn \<in> known_agents reg"
  by (simp add: im.keys_get active_ok del: set_map)

lemma registry_ok_deliver:
  assumes "registry_ok reg" and "room k reg" and "tk_agent (mail_sender m) \<in> known_agents reg"
    and "\<And>r. ar_parent (g r) = ar_parent r \<and> ar_mailbox (g r) = ar_mailbox r"
  shows "registry_ok (write_agent k (\<lambda>r. enqueue_record m (g r)) reg)"
  using assms by (intro registry_ok_write) (auto simp: agent_ok_def room_def)

lemma registry_ok_resume:
  assumes "registry_ok reg"
  shows "registry_ok (write_agent k (\<lambda>r. r\<lparr>ar_turn := t, ar_state := Active Runnable\<rparr>) reg)"
  using assms by (intro registry_ok_write) (auto simp: agent_ok_def)

lemma registry_ok_insert:
  assumes ok: "registry_ok reg" and fresh: "map_of (rg_agents reg) c = None"
    and cap: "length (rg_agents reg) < max_agents (rg_limits reg)" and mail: "0 < max_mailbox_messages (rg_limits reg)"
    and known: "p \<in> known_agents reg" and child: "child p nm = Inr c" and sender: "tk_agent (mail_sender m) = p"
  shows "registry_ok (reg\<lparr>rg_agents := rg_agents reg @
    [(c, \<lparr>ar_parent = Some p, ar_turn = t, ar_state = Active Runnable, ar_mailbox = [m]\<rparr>)]\<rparr>)"
proof -
  let ?r = "\<lparr>ar_parent = Some p, ar_turn = t, ar_state = Active Runnable, ar_mailbox = [m]\<rparr>"
  let ?mx = "max_mailbox_messages (rg_limits reg)"
  obtain rp where "map_of (rg_agents reg) p = Some rp" using known by (metis im.keys_get not_None_eq)
  then have p: "valid_identity p" using ok by (auto simp: registry_ok_def agent_ok_def dest: im.all_entriesD)
  have c: "valid_identity c" "rsplit_once_slash c = Some (p, nm)" using child_valid [OF p child] child_parent [OF child] .
  have "c \<noteq> p" using child by (auto simp: child_ok)
  have entry: "agent_ok ?mx (insert c (known_agents reg)) c ?r"
    using c known sender mail by (auto simp: agent_ok_def)
  have "im.all_entries (agent_ok ?mx (insert c (known_agents reg))) (rg_agents reg)"
  proof (rule im.all_entriesI)
    fix k v assume "map_of (rg_agents reg) k = Some v"
    with ok have "agent_ok ?mx (known_agents reg) k v" unfolding registry_ok_def by (blast dest: im.all_entriesD)
    then show "agent_ok ?mx (insert c (known_agents reg)) k v" by (rule agent_ok_mono) auto
  qed
  then have "im.all_entries (agent_ok ?mx (insert c (known_agents reg))) (AList.update c ?r (rg_agents reg))"
    using entry by (rule im.all_entries_put)
  then have entries: "im.all_entries (agent_ok ?mx (insert c (known_agents reg))) (rg_agents reg @ [(c, ?r)])"
    by (simp add: alist_update_fresh [OF fresh])
  have "c \<notin> known_agents reg" using fresh by (simp add: im.keys_get del: set_map)
  moreover have "tree_order [] (rg_agents reg @ [(c, ?r)])"
    using ok known c \<open>c \<noteq> p\<close> by (auto simp: registry_ok_def tree_order_append)
  ultimately show ?thesis using ok cap entries by (simp add: registry_ok_def)
qed


lemma known_charged_write [simp]: "known_agents (write_agent k f (charged n reg)) = known_agents reg"
  by (simp del: set_map)

lemma room_charged [simp]: "room k (charged n reg) = room k reg"
  by (simp add: room_def)

lemma room_write:
  "(\<And>r. ar_mailbox (f r) = ar_mailbox r) \<Longrightarrow> room k (write_agent j f reg) = room k reg"
  by (auto simp: room_def map_of_write_agent)

lemma registry_ok_settle:
  assumes "registry_ok reg"
  shows "registry_ok (write_agent k (settle_record result) reg)"
  using assms by (intro registry_ok_write) (auto simp: agent_ok_def elim: settled_state.elims)

lemma settle_turn_keeps:
  assumes "registry_ok reg" and "settle_turn sz turn result reg = (reg', Inr u)"
  shows "registry_ok reg'"
proof -
  from settle_turn_cases [OF assms(2)] obtain r where act: "active turn reg = Inr r" and
    eff: "(ar_parent r = None \<and> reg' = write_agent (tk_agent turn) (settle_record result) reg) \<or>
     (\<exists>p n. ar_parent r = Some p \<and> room p reg \<and> fits n reg \<and>
        reg' = write_agent p (enqueue_record \<lparr>mail_sender = turn, mail_content = McTurnFinished result\<rparr>)
          (write_agent (tk_agent turn) (settle_record result) (charged n reg)))" by blast
  from eff show ?thesis
  proof (elim disjE exE conjE)
    assume "reg' = write_agent (tk_agent turn) (settle_record result) reg"
    with registry_ok_settle [OF assms(1)] show ?thesis by simp
  next
    fix p n assume n: "room p reg" "fits n reg"
      "reg' = write_agent p (enqueue_record \<lparr>mail_sender = turn, mail_content = McTurnFinished result\<rparr>)
          (write_agent (tk_agent turn) (settle_record result) (charged n reg))"
    have "registry_ok (write_agent (tk_agent turn) (settle_record result) (charged n reg))"
      using registry_ok_settle registry_ok_charged assms(1) n(2) by blast
    then show ?thesis
      unfolding n(3) using active_known [OF act] n(1)
      by (intro registry_ok_deliver [where g = "\<lambda>r. r"]) (simp_all add: room_write del: set_map)
  qed
qed

lemma send_message_keeps:
  assumes "registry_ok reg" and "send_message sz sender rcpt text reg = (reg', Inr u)"
  shows "registry_ok reg'"
proof -
  from send_message_ok [OF assms(2)] obtain r n where n: "active sender reg = Inr r" "room rcpt reg" "fits n reg"
    "reg' = write_agent rcpt (enqueue_record \<lparr>mail_sender = sender, mail_content = McMessage text\<rparr>) (charged n reg)"
    by blast
  show ?thesis
    unfolding n(4) using assms(1) n active_known [OF n(1)]
    by (intro registry_ok_deliver [where g = "\<lambda>r. r"] registry_ok_charged) (simp_all del: set_map)
qed

lemma followup_task_keeps:
  assumes "registry_ok reg" and "followup_task sz fresh sender rcpt task reg = (reg', Inr key)"
  shows "registry_ok reg'"
proof -
  from followup_task_ok [OF assms(2)] obtain r and rr :: agent_record and n where
    n: "active sender reg = Inr r" "room rcpt reg" "fits n reg"
    "reg' = write_agent rcpt (\<lambda>r. enqueue_record \<lparr>mail_sender = sender, mail_content = McTask task\<rparr>
      (if is_active (ar_state rr) then r else start_turn fresh r)) (charged n reg)"
    by blast
  show ?thesis
    unfolding n(4) using assms(1) n active_known [OF n(1)]
    by (intro registry_ok_deliver registry_ok_charged) (simp_all del: set_map)
qed

lemma register_child_keeps:
  assumes "registry_ok reg" and "0 < max_mailbox_messages (rg_limits reg)"
    and "register_child sz fresh parent nm task reg = (reg', Inr key)"
  shows "registry_ok reg'"
proof -
  from register_child_ok [OF assms(3)] obtain identity r n where n: "active parent reg = Inr r"
    "child (tk_agent parent) nm = Inr identity" "map_of (rg_agents reg) identity = None"
    "length (rg_agents reg) < max_agents (rg_limits reg)" "fits n reg"
    "reg' = (charged n reg)\<lparr>rg_agents := rg_agents (charged n reg) @
      [(identity, \<lparr>ar_parent = Some (tk_agent parent), ar_turn = fresh, ar_state = Active Runnable,
                   ar_mailbox = [\<lparr>mail_sender = parent, mail_content = McTask task\<rparr>]\<rparr>)]\<rparr>" by auto
  show ?thesis
    unfolding n(6) using assms(1,2) n active_known [OF n(1)]
    by (intro registry_ok_insert registry_ok_charged) (simp_all del: set_map)
qed

lemma take_mailbox_keeps:
  assumes "registry_ok reg" and "take_mailbox turn reg = (reg', Inr mails)"
  shows "registry_ok reg'"
  using take_mailbox_ok [OF assms(2)] assms(1) by (auto intro!: registry_ok_write simp: agent_ok_def)

lemma set_phase_keeps:
  assumes "registry_ok reg" and "set_phase turn phase reg = (reg', Inr u)"
  shows "registry_ok reg'"
  using set_phase_ok [OF assms(2)] assms(1) by (auto intro!: registry_ok_write simp: agent_ok_def active_ok)

lemma registry_step_keeps:
  assumes "registry_ok reg" and "0 < max_mailbox_messages (rg_limits reg)" and "registry_step sz op reg = (reg', r)"
  shows "registry_ok reg'"
proof (cases r)
  case (Inl e)
  with registry_step_err [of sz op reg reg' e] assms show ?thesis by simp
next
  case (Inr x)
  show ?thesis
  proof (cases op)
    case (OpResumeRoot fresh)
    with assms Inr registry_ok_resume show ?thesis
      by (auto simp: resume_root_def Let_def split: option.splits)
  next
    case (OpResumeIdle fresh i)
    with assms registry_ok_resume show ?thesis
      by (auto simp: resume_idle_def start_turn_def [abs_def] split: option.splits if_splits)
  next
    case (OpResumeQueuedTask fresh i)
    with assms registry_ok_resume show ?thesis
      by (auto simp: resume_queued_task_def start_turn_def [abs_def] split: option.splits if_splits)
  next
    case (OpOtherCharge n)
    with assms registry_ok_charged show ?thesis by (auto simp: charge_registry_eq reply_def split: if_splits)
  qed (use assms Inr in \<open>auto dest: register_child_keeps send_message_keeps followup_task_keeps settle_turn_keeps
      set_phase_keeps take_mailbox_keeps\<close>)
qed

lemma registry_step_limits:
  assumes "registry_step sz op reg = (reg', r)"
  shows "rg_limits reg' = rg_limits reg"
proof (cases r)
  case (Inl e)
  with registry_step_err [of sz op reg reg' e] assms show ?thesis by simp
next
  case (Inr x)
  show ?thesis
    using assms Inr
    by (cases op)
      (auto dest!: register_child_ok send_message_ok followup_task_ok settle_turn_ok set_phase_ok take_mailbox_ok
        simp: resume_root_def resume_idle_def resume_queued_task_def charge_registry_eq Let_def
        split: option.splits if_splits)
qed


definition registry_starts :: "type_sizes \<Rightarrow> agent_registry \<Rightarrow> bool" where
  "registry_starts sz reg \<longleftrightarrow>
     (\<exists>fresh limits b b'. 0 < max_agents limits \<and> 0 < max_mailbox_messages limits \<and>
        with_budget sz fresh limits b = (b', Inr reg))"

definition registry_steps :: "type_sizes \<Rightarrow> agent_registry \<Rightarrow> agent_registry \<Rightarrow> bool" where
  "registry_steps sz reg reg' \<longleftrightarrow> (\<exists>op r. registry_step sz op reg = (reg', r))"

lemma with_budget_ok:
  assumes "with_budget sz fresh limits b = (b', Inr reg)" and "0 < max_agents limits"
  shows "registry_ok reg \<and> rg_limits reg = limits"
proof -
  from assms(1) have reg: "reg = \<lparr>rg_agents = [(root, new_agent_record fresh None)], rg_limits = limits, rg_budget = b'\<rparr>"
    and b': "rb_used b' \<le> rb_limit b'"
    by (auto simp: with_budget_def consume_eq split: if_splits)
  have "im.all_entries (agent_ok mx known) [(root, new_agent_record fresh None)]" for mx known
    by (auto simp: im.all_entries_def agent_ok_def new_agent_record_def split: if_splits)
  with assms(2) reg b' show ?thesis
    by (simp add: registry_ok_def new_agent_record_def is_root_def)
qed

interpretation reg: invariant_system "registry_starts sz" "registry_steps sz"
  "\<lambda>reg. registry_ok reg \<and> 0 < max_mailbox_messages (rg_limits reg)" for sz
proof unfold_locales
  fix reg assume "registry_starts sz reg"
  then show "registry_ok reg \<and> 0 < max_mailbox_messages (rg_limits reg)"
    by (auto simp: registry_starts_def dest: with_budget_ok)
next
  fix reg reg' assume "registry_ok reg \<and> 0 < max_mailbox_messages (rg_limits reg)" "registry_steps sz reg reg'"
  then show "registry_ok reg' \<and> 0 < max_mailbox_messages (rg_limits reg')"
    by (auto simp: registry_steps_def registry_step_limits intro: registry_step_keeps)
qed

subsection \<open>A turn that is over stays over\<close>

definition turn_over :: "agent_turn_key \<Rightarrow> agent_registry \<Rightarrow> bool" where
  "turn_over key reg \<longleftrightarrow>
     (\<exists>r. map_of (rg_agents reg) (tk_agent key) = Some r \<and> (ar_turn r \<noteq> tk_turn key \<or> \<not> is_active (ar_state r)))"

fun op_fresh :: "registry_op \<Rightarrow> agent_turn_id option" where
  "op_fresh (OpRegisterChild fresh _ _ _) = Some fresh"
| "op_fresh (OpFollowupTask fresh _ _ _) = Some fresh"
| "op_fresh (OpResumeRoot fresh) = Some fresh"
| "op_fresh (OpResumeIdle fresh _) = Some fresh"
| "op_fresh (OpResumeQueuedTask fresh _) = Some fresh"
| "op_fresh _ = None"

lemma turn_over_write:
  assumes "turn_over key reg"
    and "\<And>r. map_of (rg_agents reg) k = Some r \<Longrightarrow> k = tk_agent key \<Longrightarrow>
      ar_turn r \<noteq> tk_turn key \<or> \<not> is_active (ar_state r) \<Longrightarrow> ar_turn (f r) \<noteq> tk_turn key \<or> \<not> is_active (ar_state (f r))"
  shows "turn_over key (write_agent k f reg)"
  using assms by (auto simp: turn_over_def map_of_write_agent)

lemma turn_over_charged [simp]: "turn_over key (charged n reg) = turn_over key reg"
  by (simp add: turn_over_def)

lemma turn_over_active: "turn_over key reg \<Longrightarrow> active key reg = Inl StaleTurn \<or> active key reg = Inl InactiveTurn"
  by (auto simp: turn_over_def active_def)

lemma not_active_settled [simp]: "\<not> is_active (settled_state result)"
  by (cases result) auto

lemma settle_makes_over:
  assumes "settle_turn sz key result reg = (reg', Inr u)"
  shows "turn_over key reg'"
proof -
  have over: "turn_over key (write_agent (tk_agent key) (settle_record result) reg1)"
    if "active key reg1 = Inr r" for reg1 r
    using that by (auto simp: turn_over_def map_of_write_agent active_ok)
  from settle_turn_cases [OF assms] obtain r where act: "active key reg = Inr r" and
    eff: "reg' = write_agent (tk_agent key) (settle_record result) reg \<or>
     (\<exists>p n. reg' = write_agent p (enqueue_record \<lparr>mail_sender = key, mail_content = McTurnFinished result\<rparr>)
          (write_agent (tk_agent key) (settle_record result) (charged n reg)))" by blast
  from eff show ?thesis
  proof (elim disjE exE)
    fix p n
    have "turn_over key (write_agent (tk_agent key) (settle_record result) (charged n reg))"
      using over [of "charged n reg" r] act by simp
    moreover assume "reg' = write_agent p (enqueue_record \<lparr>mail_sender = key, mail_content = McTurnFinished result\<rparr>)
          (write_agent (tk_agent key) (settle_record result) (charged n reg))"
    ultimately show ?thesis by (auto intro!: turn_over_write [where reg = "write_agent (tk_agent key) _ _"])
  qed (use over [OF act] in simp)
qed

lemma turn_over_step:
  assumes over: "turn_over key reg" and fresh: "op_fresh op \<noteq> Some (tk_turn key)"
    and step: "registry_step sz op reg = (reg', r)"
  shows "turn_over key reg'"
proof (cases r)
  case (Inl e)
  with registry_step_err [of sz op reg reg' e] assms show ?thesis by simp
next
  case (Inr x)
  show ?thesis
  proof (cases op)
    case (OpRegisterChild f p nm task)
    with step Inr over show ?thesis
      by (auto dest!: register_child_ok simp: turn_over_def map_add_def split: option.splits)
  next
    case (OpSettleTurn k result)
    with step Inr obtain u where "settle_turn sz k result reg = (reg', Inr u)" by auto
    from settle_turn_cases [OF this] over show ?thesis
      by (auto intro!: turn_over_write)
  next
    case (OpSetPhase k ph)
    with step Inr over show ?thesis
      by (auto dest!: set_phase_ok intro!: turn_over_write simp: active_ok)
  qed (use over fresh step Inr in \<open>auto dest!: send_message_ok followup_task_ok take_mailbox_ok
      simp: resume_root_def resume_idle_def resume_queued_task_def charge_registry_eq Let_def
      intro!: turn_over_write split: option.splits if_splits\<close>)
qed

lemma turn_over_run:
  "turn_over key reg \<Longrightarrow> \<forall>op\<in>set ops. op_fresh op \<noteq> Some (tk_turn key) \<Longrightarrow>
   registry_run sz ops reg = (reg', rs) \<Longrightarrow> turn_over key reg'"
  by (induction ops arbitrary: reg rs) (auto intro: turn_over_step split: prod.splits)

subsection \<open>Mail is delivered in order\<close>

definition mailbox_of :: "agent_registry \<Rightarrow> agent_identity \<Rightarrow> agent_mail list" where
  "mailbox_of reg identity = (case map_of (rg_agents reg) identity of None \<Rightarrow> [] | Some r \<Rightarrow> ar_mailbox r)"

text \<open>What an accepted operation puts in the mailbox of an agent, and what it takes out.\<close>

fun mail_sent :: "agent_identity \<Rightarrow> registry_op \<Rightarrow> agent_registry \<Rightarrow> registry_error + registry_reply \<Rightarrow> agent_mail list" where
  "mail_sent i (OpSendMessage sender rcpt text) reg (Inr _) =
     (if rcpt = i then [\<lparr>mail_sender = sender, mail_content = McMessage text\<rparr>] else [])"
| "mail_sent i (OpFollowupTask fresh sender rcpt task) reg (Inr _) =
     (if rcpt = i then [\<lparr>mail_sender = sender, mail_content = McTask task\<rparr>] else [])"
| "mail_sent i (OpRegisterChild fresh parent nm task) reg (Inr (RpKey k)) =
     (if tk_agent k = i then [\<lparr>mail_sender = parent, mail_content = McTask task\<rparr>] else [])"
| "mail_sent i (OpSettleTurn turn result) reg (Inr _) =
     (case map_of (rg_agents reg) (tk_agent turn) of
        None \<Rightarrow> []
      | Some r \<Rightarrow> if ar_parent r = Some i then [\<lparr>mail_sender = turn, mail_content = McTurnFinished result\<rparr>] else [])"
| "mail_sent i _ reg _ = []"

fun mail_taken :: "agent_identity \<Rightarrow> registry_op \<Rightarrow> registry_error + registry_reply \<Rightarrow> agent_mail list" where
  "mail_taken i (OpTakeMailbox turn) (Inr (RpMail mails)) = (if tk_agent turn = i then mails else [])"
| "mail_taken i _ _ = []"

fun mail_log ::
  "type_sizes \<Rightarrow> agent_identity \<Rightarrow> registry_op list \<Rightarrow> agent_registry \<Rightarrow> agent_mail list \<times> agent_mail list" where
  "mail_log sz i [] reg = ([], [])"
| "mail_log sz i (op # ops) reg =
     (case registry_step sz op reg of
        (reg', r) \<Rightarrow>
          (case mail_log sz i ops reg' of
             (sent, taken) \<Rightarrow> (mail_sent i op reg r @ sent, mail_taken i op r @ taken)))"

lemma mailbox_write:
  "mailbox_of (write_agent k f reg) i =
     (if i = k then (case map_of (rg_agents reg) i of None \<Rightarrow> [] | Some r \<Rightarrow> ar_mailbox (f r)) else mailbox_of reg i)"
  by (auto simp: mailbox_of_def map_of_write_agent split: option.splits)

lemma mailbox_known: "map_of (rg_agents reg) i = Some r \<Longrightarrow> mailbox_of reg i = ar_mailbox r"
  by (simp add: mailbox_of_def)

lemma mailbox_charged [simp]: "mailbox_of (charged n reg) i = mailbox_of reg i"
  by (simp add: mailbox_of_def)

lemma mail_err: "mail_sent i op reg (Inl e) = []" "mail_taken i op (Inl e) = []"
  by (cases op; simp)+

lemma mail_step:
  assumes "registry_step sz op reg = (reg', r)"
  shows "mail_taken i op r @ mailbox_of reg' i = mailbox_of reg i @ mail_sent i op reg r"
proof (cases r)
  case (Inl e)
  with registry_step_err [of sz op reg reg' e] assms show ?thesis by (simp add: mail_err)
next
  case (Inr x)
  show ?thesis
  proof (cases op)
    case (OpRegisterChild f p nm task)
    with assms Inr show ?thesis
      by (auto dest!: register_child_ok simp: mailbox_of_def map_add_def split: option.splits if_splits)
  next
    case (OpSettleTurn k result)
    with assms Inr obtain u where "settle_turn sz k result reg = (reg', Inr u)" by auto
    from settle_turn_cases [OF this] OpSettleTurn Inr show ?thesis
      by (auto simp: mailbox_write map_of_write_agent active_ok room_def mailbox_of_def)
  qed (use assms Inr in \<open>auto dest!: send_message_ok followup_task_ok take_mailbox_ok set_phase_ok
      simp: resume_root_def resume_idle_def resume_queued_task_def charge_registry_eq Let_def room_def active_ok
        mailbox_write mailbox_known split: option.splits if_splits\<close>)
qed

lemma mail_run:
  "registry_run sz ops reg = (reg', rs) \<Longrightarrow> mail_log sz i ops reg = (sent, taken) \<Longrightarrow>
   taken @ mailbox_of reg' i = mailbox_of reg i @ sent"
proof (induction ops arbitrary: reg rs sent taken)
  case (Cons op ops)
  obtain reg1 r where step: "registry_step sz op reg = (reg1, r)" by fastforce
  obtain rs1 where run: "registry_run sz ops reg1 = (reg', rs1)"
    using Cons.prems(1) step by (auto split: prod.splits)
  obtain s1 t1 where log: "mail_log sz i ops reg1 = (s1, t1)" by fastforce
  from Cons.prems(2) step log have "sent = mail_sent i op reg r @ s1" "taken = mail_taken i op r @ t1" by auto
  with Cons.IH [OF run log] mail_step [OF step, of i] show ?case
    by (metis append.assoc)
qed simp


subsection \<open>Checkpoint and restore\<close>

definition mails_bytes :: "type_sizes \<Rightarrow> agent_mail list \<Rightarrow> nat" where
  "mails_bytes sz mails = sum_list (map (\<lambda>m. mail_bytes sz (mail_sender m) (mail_text_bytes (mail_content m))) mails)"

definition stored_bytes :: "type_sizes \<Rightarrow> stored_agent list \<Rightarrow> nat" where
  "stored_bytes sz stored =
     sum_list (map (\<lambda>a. record_bytes sz (sa_identity a) (sa_parent a) + mails_bytes sz (sa_mailbox a)) stored)"

definition stored_entry :: "stored_agent \<Rightarrow> agent_identity \<times> agent_record" where
  "stored_entry a = (sa_identity a, record_of_stored a)"

lemma restore_mail_fits:
  "\<forall>m\<in>set mails. tk_agent (mail_sender m) \<in> set (map sa_identity all) \<Longrightarrow>
   rb_used b + mails_bytes sz mails \<le> min (rb_limit b) USIZE_MAX \<Longrightarrow>
   restore_mail sz all mails b = (b\<lparr>rb_used := rb_used b + mails_bytes sz mails\<rparr>, Inr ())"
proof (induction mails arbitrary: b)
  case Nil
  then show ?case by (simp add: mails_bytes_def)
next
  case (Cons m mails)
  then have known: "list_ex (\<lambda>entry. sa_identity entry = tk_agent (mail_sender m)) all"
    by (auto simp: list_ex_iff)
  let ?n = "mail_bytes sz (mail_sender m) (mail_text_bytes (mail_content m))"
  have "mails_bytes sz (m # mails) = ?n + mails_bytes sz mails" by (simp add: mails_bytes_def)
  with Cons.prems Cons.IH [of "b\<lparr>rb_used := rb_used b + ?n\<rparr>"] known show ?case
    by (simp add: consume_eq add.assoc)
qed

lemma restore_agents_fits:
  "distinct (map fst records @ map sa_identity stored) \<Longrightarrow>
   tree_order (map fst records) (map stored_entry stored) \<Longrightarrow>
   \<forall>a\<in>set stored. length (sa_mailbox a) \<le> max_mailbox_messages limits \<and> \<not> live_state (sa_state a) \<and>
     (\<forall>m\<in>set (sa_mailbox a). tk_agent (mail_sender m) \<in> set (map sa_identity all)) \<Longrightarrow>
   rb_used b + stored_bytes sz stored \<le> min (rb_limit b) USIZE_MAX \<Longrightarrow>
   restore_agents sz limits all stored records b =
     (b\<lparr>rb_used := rb_used b + stored_bytes sz stored\<rparr>, Inr (records @ map stored_entry stored))"
proof (induction stored arbitrary: records b)
  case Nil
  then show ?case by (simp add: stored_bytes_def)
next
  case (Cons a stored)
  let ?n = "record_bytes sz (sa_identity a) (sa_parent a)" and ?m = "mails_bytes sz (sa_mailbox a)"
  let ?b = "b\<lparr>rb_used := rb_used b + ?n + ?m\<rparr>"
  have bytes: "stored_bytes sz (a # stored) = ?n + ?m + stored_bytes sz stored" by (simp add: stored_bytes_def)
  have fresh: "map_of records (sa_identity a) = None" using Cons.prems(1) by (auto simp: map_of_eq_None_iff)
  have parent: "parent_admissible a records"
    using Cons.prems(2)
    by (auto simp: parent_admissible_def stored_entry_def record_of_stored_def map_of_eq_None_iff
        split: option.splits)
  have mails: "restore_mail sz all (sa_mailbox a) (b\<lparr>rb_used := rb_used b + ?n\<rparr>) = (?b, Inr ())"
    using restore_mail_fits [of "sa_mailbox a" all "b\<lparr>rb_used := rb_used b + ?n\<rparr>" sz] Cons.prems bytes by simp
  have rest: "restore_agents sz limits all stored (records @ [stored_entry a]) ?b =
    (?b\<lparr>rb_used := rb_used ?b + stored_bytes sz stored\<rparr>, Inr ((records @ [stored_entry a]) @ map stored_entry stored))"
    by (rule Cons.IH) (use Cons.prems bytes in \<open>auto simp: stored_entry_def\<close>)
  have "consume b ?n = (b\<lparr>rb_used := rb_used b + ?n\<rparr>, Inr ())" using Cons.prems(4) bytes by (simp add: consume_eq)
  with fresh parent mails rest Cons.prems(3) bytes show ?case
    by (simp add: alist_update_fresh stored_entry_def add.assoc)
qed

lemma checkpoint_agents_entries:
  assumes "map sa_identity bases = map fst (rg_agents reg)" and "distinct (map fst (rg_agents reg))"
    and "list_all2 (\<lambda>base a. checkpoint_agent reg base = Inr a) bases stored"
  shows "map stored_entry stored = rg_agents reg"
proof (rule nth_equalityI)
  have len: "length stored = length bases" "length bases = length (rg_agents reg)"
    using assms(1,3) by (auto dest: list_all2_lengthD map_eq_imp_length_eq)
  then show "length (map stored_entry stored) = length (rg_agents reg)" by simp
  fix i assume "i < length (map stored_entry stored)"
  then have i: "i < length stored" by simp
  obtain k r where kr: "rg_agents reg ! i = (k, r)" by fastforce
  then have "map_of (rg_agents reg) k = Some r"
    using assms(2) i len by (metis map_of_is_SomeI nth_mem)
  moreover have "sa_identity (bases ! i) = k"
    using assms(1) i len kr by (metis fst_conv nth_map)
  moreover have "checkpoint_agent reg (bases ! i) = Inr (stored ! i)"
    using assms(3) i len by (simp add: list_all2_conv_all_nth)
  ultimately have "stored ! i = (bases ! i)\<lparr>sa_parent := ar_parent r, sa_turn := ar_turn r, sa_state := ar_state r,
      sa_mailbox := ar_mailbox r\<rparr>" "sa_identity (bases ! i) = k" by (auto simp: checkpoint_agent_def)
  then show "map stored_entry stored ! i = rg_agents reg ! i"
    using kr i by (simp add: stored_entry_def record_of_stored_def)
qed

lemma checkpoint_restore:
  assumes ok: "registry_ok reg" and ids: "map sa_identity bases = map fst (rg_agents reg)"
    and cp: "list_all2 (\<lambda>base a. checkpoint_agent reg base = Inr a) bases stored"
    and live: "\<forall>(k, r)\<in>set (rg_agents reg). \<not> live_state (ar_state r)"
    and fits: "rb_used b + stored_bytes sz stored \<le> min (rb_limit b) USIZE_MAX"
  shows "restore sz stored (rg_limits reg) b =
    (b\<lparr>rb_used := rb_used b + stored_bytes sz stored\<rparr>,
     Inr (reg\<lparr>rg_budget := b\<lparr>rb_used := rb_used b + stored_bytes sz stored\<rparr>\<rparr>))"
proof -
  have dist: "distinct (map fst (rg_agents reg))" using ok by (simp add: registry_ok_def)
  note entries = checkpoint_agents_entries [OF ids dist cp]
  have keys: "map sa_identity stored = map fst (rg_agents reg)"
    using arg_cong [OF entries, of "map fst"] by (simp add: stored_entry_def comp_def)
  have each: "length (sa_mailbox a) \<le> max_mailbox_messages (rg_limits reg) \<and> \<not> live_state (sa_state a) \<and>
     (\<forall>m\<in>set (sa_mailbox a). tk_agent (mail_sender m) \<in> set (map sa_identity stored))" if "a \<in> set stored" for a
  proof -
    have mem: "(sa_identity a, record_of_stored a) \<in> set (rg_agents reg)"
      using that unfolding entries [symmetric] by (auto simp: stored_entry_def)
    then have "map_of (rg_agents reg) (sa_identity a) = Some (record_of_stored a)" using dist by simp
    with ok have "agent_ok (max_mailbox_messages (rg_limits reg)) (known_agents reg) (sa_identity a) (record_of_stored a)"
      unfolding registry_ok_def by (blast dest: im.all_entriesD)
    with live mem keys show ?thesis by (auto simp: agent_ok_def record_of_stored_def)
  qed
  have "restore_agents sz (rg_limits reg) stored stored [] b =
    (b\<lparr>rb_used := rb_used b + stored_bytes sz stored\<rparr>, Inr ([] @ map stored_entry stored))"
    by (rule restore_agents_fits) (use ok each fits keys entries in \<open>auto simp: registry_ok_def\<close>)
  moreover have "stored \<noteq> []" "length stored \<le> max_agents (rg_limits reg)"
    using ok entries map_eq_imp_length_eq [OF keys] by (auto simp: registry_ok_def)
  ultimately show ?thesis by (simp add: restore_def entries)
qed


section \<open>Properties\<close>

text \<open>Every registry reachable from a new one by any sequence of operations and of charges by
  other holders of the budget is well formed: distinct valid paths, the root first and every agent
  after its parent, agent and mailbox limits kept, no agent waits for mail that is already queued,
  every queued mail comes from a registered agent, and the budget is not exceeded.\<close>

lemma registry_reachable_ok:
  assumes "reachable_from (registry_starts sz) (registry_steps sz) reg"
  shows "registry_ok reg"
  using reg.inv_reachable [OF assms] by blast

text \<open>A rejected operation changes nothing, the byte counter included, and the code's
  \<open>expect\<close> calls cannot panic on a well-formed registry.\<close>

lemma registry_rejection_atomic:
  assumes "registry_ok reg" and "registry_step sz op reg = (reg', Inl e)"
  shows "reg' = reg \<and> e \<noteq> Panicked"
  using registry_step_err [OF assms(2)] registry_ok_root [OF assms(1)] by auto


text \<open>C13. Mail is neither lost, duplicated nor reordered: over any run, what an agent has taken from
  its mailbox followed by what is still queued is what was queued at the start followed by what
  accepted operations sent to it, in order, completion notices included.\<close>

theorem mail_fifo:
  assumes "registry_run sz ops reg = (reg', rs)" and "mail_log sz i ops reg = (sent, taken)"
  shows "taken @ mailbox_of reg' i = mailbox_of reg i @ sent"
  using assms by (rule mail_run)

text \<open>C39. Checkpoint and restore are inverse: the stored agents of a well-formed registry without live
  work, read back under the same limits and a budget with room for them, give the same registry, and
  the bytes charged are the bytes of its records and mail.\<close>

theorem registry_checkpoint_roundtrip:
  assumes "registry_ok reg" and "map sa_identity bases = map fst (rg_agents reg)"
    and "list_all2 (\<lambda>base a. checkpoint_agent reg base = Inr a) bases stored"
    and "\<forall>(k, r)\<in>set (rg_agents reg). \<not> live_state (ar_state r)"
    and "rb_used b + stored_bytes sz stored \<le> min (rb_limit b) USIZE_MAX"
  shows "\<exists>b'. restore sz stored (rg_limits reg) b = (b', Inr (reg\<lparr>rg_budget := b'\<rparr>)) \<and>
    rb_used b' = rb_used b + stored_bytes sz stored"
  using checkpoint_restore [OF assms] by (intro exI [of _ "b\<lparr>rb_used := rb_used b + stored_bytes sz stored\<rparr>"]) simp

subsection \<open>The properties on a concrete tree\<close>

definition sample_sizes :: type_sizes where
  "sample_sizes = \<lparr>size_of_agent_entry = 100, size_of_agent_mail = 80\<rparr>"

definition sample_limits :: registry_limits where
  "sample_limits = \<lparr>max_agents = 4, max_mailbox_messages = 2\<rparr>"

definition root_key :: agent_turn_key where
  "root_key = \<lparr>tk_agent = root, tk_turn = 7\<rparr>"

definition child_key :: agent_turn_key where
  "child_key = \<lparr>tk_agent = ''/root/review'', tk_turn = 2\<rparr>"

text \<open>The root, and one child that still has its task queued.\<close>

definition sample_tree :: "nat \<Rightarrow> agent_registry" where
  "sample_tree used =
     \<lparr>rg_agents =
        [(root, \<lparr>ar_parent = None, ar_turn = 7, ar_state = Active Runnable, ar_mailbox = []\<rparr>),
         (''/root/review'', \<lparr>ar_parent = Some root, ar_turn = 2, ar_state = Active Runnable,
            ar_mailbox = [\<lparr>mail_sender = root_key, mail_content = McTask ''go''\<rparr>]\<rparr>)],
      rg_limits = sample_limits, rg_budget = \<lparr>rb_limit = 10000, rb_used = used\<rparr>\<rparr>"

lemmas sample_defs = sample_sizes_def sample_limits_def root_key_def child_key_def sample_tree_def root_def

lemmas registry_defs =
  register_child_def settle_turn_def take_mailbox_def send_message_def active_def child_def valid_component_def
  charge_registry_eq fits_def charged_def reserve_mail_eq enqueue_def write_agent_def im_modify_def
  record_bytes_def mail_bytes_def saturating_add_def RETAINED_CONTAINER_OVERHEAD_BYTES_def USIZE_MAX_def
  new_agent_record_def enqueue_record_def

lemma sample_start:
  "with_budget sample_sizes 7 sample_limits (with_limit 10000) =
     (\<lparr>rb_limit = 10000, rb_used = 137\<rparr>,
      Inr \<lparr>rg_agents = [(root, \<lparr>ar_parent = None, ar_turn = 7, ar_state = Active Runnable, ar_mailbox = []\<rparr>)],
           rg_limits = sample_limits, rg_budget = \<lparr>rb_limit = 10000, rb_used = 137\<rparr>\<rparr>)"
  by (simp add: with_budget_def with_limit_def consume_eq registry_defs sample_defs)

lemma sample_register:
  "register_child sample_sizes 2 root_key ''review'' ''go''
     \<lparr>rg_agents = [(root, \<lparr>ar_parent = None, ar_turn = 7, ar_state = Active Runnable, ar_mailbox = []\<rparr>)],
      rg_limits = sample_limits, rg_budget = \<lparr>rb_limit = 10000, rb_used = 137\<rparr>\<rparr> =
   (sample_tree 405, Inr child_key)"
  by (simp add: registry_defs sample_defs)

lemma sample_reachable: "reachable_from (registry_starts sample_sizes) (registry_steps sample_sizes) (sample_tree 405)"
proof (rule reachable_from.step)
  show "reachable_from (registry_starts sample_sizes) (registry_steps sample_sizes)
     \<lparr>rg_agents = [(root, \<lparr>ar_parent = None, ar_turn = 7, ar_state = Active Runnable, ar_mailbox = []\<rparr>)],
      rg_limits = sample_limits, rg_budget = \<lparr>rb_limit = 10000, rb_used = 137\<rparr>\<rparr>"
    by (rule reachable_from.start)
      (use sample_start in \<open>auto simp: registry_starts_def sample_limits_def intro!: exI\<close>)
  show "registry_steps sample_sizes
     \<lparr>rg_agents = [(root, \<lparr>ar_parent = None, ar_turn = 7, ar_state = Active Runnable, ar_mailbox = []\<rparr>)],
      rg_limits = sample_limits, rg_budget = \<lparr>rb_limit = 10000, rb_used = 137\<rparr>\<rparr> (sample_tree 405)"
    unfolding registry_steps_def
    by (intro exI [of _ "OpRegisterChild 2 root_key ''review'' ''go''"] exI [of _ "Inr (RpKey child_key)"])
      (simp add: sample_register del: One_nat_def)
qed

lemma sample_tree_ok: "registry_ok (sample_tree 405)"
  using reg.inv_reachable [OF sample_reachable] by blast

lemma sample_settled:
  "settle_turn sample_sizes child_key (CompFinished ''ok'') (sample_tree 405) =
   ((sample_tree 405)
      \<lparr>rg_agents :=
         [(root, \<lparr>ar_parent = None, ar_turn = 7, ar_state = Active Runnable,
                  ar_mailbox = [\<lparr>mail_sender = child_key, mail_content = McTurnFinished (CompFinished ''ok'')\<rparr>]\<rparr>),
          (''/root/review'', \<lparr>ar_parent = Some root, ar_turn = 2, ar_state = Idle,
                  ar_mailbox = [\<lparr>mail_sender = root_key, mail_content = McTask ''go''\<rparr>]\<rparr>)],
       rg_budget := \<lparr>rb_limit = 10000, rb_used = 531\<rparr>\<rparr>, Inr ())"
  by (simp add: registry_defs sample_defs)


theorem mail_fifo_witness:
  "\<exists>reg' rs. registry_run sample_sizes
       [OpSendMessage root_key ''/root/review'' ''more'', OpTakeMailbox child_key] (sample_tree 405) = (reg', rs) \<and>
     [\<lparr>mail_sender = root_key, mail_content = McTask ''go''\<rparr>, \<lparr>mail_sender = root_key, mail_content = McMessage ''more''\<rparr>]
       @ mailbox_of reg' ''/root/review'' =
     mailbox_of (sample_tree 405) ''/root/review'' @ [\<lparr>mail_sender = root_key, mail_content = McMessage ''more''\<rparr>]"
proof -
  let ?ops = "[OpSendMessage root_key ''/root/review'' ''more'', OpTakeMailbox child_key]"
  obtain reg' rs where run: "registry_run sample_sizes ?ops (sample_tree 405) = (reg', rs)" by fastforce
  have log: "mail_log sample_sizes ''/root/review'' ?ops (sample_tree 405) =
    ([\<lparr>mail_sender = root_key, mail_content = McMessage ''more''\<rparr>],
     [\<lparr>mail_sender = root_key, mail_content = McTask ''go''\<rparr>, \<lparr>mail_sender = root_key, mail_content = McMessage ''more''\<rparr>])"
    by (simp add: reply_def registry_defs sample_defs)
  from mail_fifo [OF run log] run show ?thesis by blast
qed

definition sample_base :: "agent_identity \<Rightarrow> stored_agent" where
  "sample_base identity =
     \<lparr>sa_identity = identity, sa_parent = None, sa_turn = 0, sa_state = Idle, sa_mailbox = [], sa_history = [],
      sa_loaded_tools = [], sa_last_task = [], sa_final_answer = None, sa_rounds = 0, sa_wait = None\<rparr>"

definition sample_stored :: "stored_agent list" where
  "sample_stored =
     [(sample_base root)\<lparr>sa_turn := 7, sa_state := Active Runnable\<rparr>,
      (sample_base ''/root/review'')\<lparr>sa_parent := Some root, sa_turn := 2, sa_state := Active Runnable,
         sa_mailbox := [\<lparr>mail_sender = root_key, mail_content = McTask ''go''\<rparr>]\<rparr>]"

theorem registry_checkpoint_roundtrip_witness:
  "\<exists>b'. restore sample_sizes sample_stored sample_limits (with_limit 10000) =
      (b', Inr ((sample_tree 405)\<lparr>rg_budget := b'\<rparr>)) \<and> rb_used b' = 405"
proof -
  have ids: "map sa_identity [sample_base root, sample_base ''/root/review''] = map fst (rg_agents (sample_tree 405))"
    by (simp add: sample_base_def sample_defs)
  have cp: "list_all2 (\<lambda>base a. checkpoint_agent (sample_tree 405) base = Inr a)
      [sample_base root, sample_base ''/root/review''] sample_stored"
    by (simp add: checkpoint_agent_def sample_base_def sample_stored_def sample_defs)
  have live: "\<forall>(k, r)\<in>set (rg_agents (sample_tree 405)). \<not> live_state (ar_state r)"
    by (simp add: sample_defs)
  have bytes: "stored_bytes sample_sizes sample_stored = 405"
    by (simp add: stored_bytes_def mails_bytes_def sample_stored_def sample_base_def registry_defs sample_defs)
  have "rb_used (with_limit 10000) + stored_bytes sample_sizes sample_stored
      \<le> min (rb_limit (with_limit 10000)) USIZE_MAX"
    by (simp add: bytes with_limit_def USIZE_MAX_def)
  from registry_checkpoint_roundtrip [OF sample_tree_ok ids cp live this] show ?thesis
    by (simp add: bytes with_limit_def) (simp add: sample_tree_def)
qed

end
