(* ===== verification/Client_Calls.thy ===== *)
theory Client_Calls
  imports Agent_Registry
begin

text \<open>
  The coordinator's table of client-executed calls (\<open>executor/multi_agent/pending_calls.rs\<close>, data of
  \<open>types/client_calls.rs\<close>): registration in batches, acceptance of output batches, transfer of
  accepted outputs to canonical context, checkpoint and restore.

  The table shares the response budget; as in the registry its counter is part of the state and
  charges by other holders are an operation of a run. A call id is a non-empty string, which is the
  only condition \<open>ClientCallId\<close> puts on it. \<open>entry_size\<close> is \<open>size_of\<close> of a table entry and
  \<open>ser\<close> the serializer used to measure tool-search outputs.
\<close>

section \<open>State\<close>

record client_call_owner =
  own_agent_turn :: agent_turn_key
  own_kind :: client_call_kind
  own_async_execution :: bool

record client_call_registration =
  reg_call_id :: string
  reg_owner :: client_call_owner

record client_tool_output_batch =
  bat_response_id :: string
  bat_outputs :: "client_tool_output list"

datatype client_call_resolution = ResolutionPending | ResolutionAccepted | ResolutionTransferred

record routed_client_output =
  rco_owner :: client_call_owner
  rco_output :: client_tool_output

record stored_client_call =
  scc_call_id :: string
  scc_owner :: client_call_owner
  scc_resolved :: bool

datatype client_call_error =
    EmptyResponseId
  | WrongResponse
  | EmptyCallId
  | CallLimit
  | BatchLimit
  | InvalidOwner
  | DuplicateCall string
  | UnknownCall string
  | AlreadyResolved string
  | KindMismatch string client_call_kind client_call_kind
  | CallBudget executor_error
  | CallPanic

datatype resolution = Pending | Resolved "client_tool_output list"

record client_record =
  ccr_owner :: client_call_owner
  ccr_resolution :: resolution

record client_call_view =
  ccv_call_id :: string
  ccv_owner :: client_call_owner
  ccv_resolution :: client_call_resolution
  ccv_output :: "client_tool_output option"

record pending_client_calls =
  pcc_response_id :: string
  pcc_calls :: "(string, client_record) index_map"
  pcc_max_calls :: nat
  pcc_budget :: executor_response_budget

section \<open>Operations\<close>

definition table_with_budget ::
  "string \<Rightarrow> nat \<Rightarrow> executor_response_budget \<Rightarrow>
   executor_response_budget \<times> (client_call_error + pending_client_calls)" where
  "table_with_budget response_id max_calls budget =
     (if response_id = [] then (budget, Inl EmptyResponseId)
      else case consume budget (saturating_add RETAINED_CONTAINER_OVERHEAD_BYTES (length response_id)) of
        (b, Inl e) \<Rightarrow> (b, Inl (CallBudget e))
      | (b, Inr _) \<Rightarrow>
          (b, Inr \<lparr>pcc_response_id = response_id, pcc_calls = [], pcc_max_calls = max_calls, pcc_budget = b\<rparr>))"

definition new_table :: "string \<Rightarrow> nat \<Rightarrow> nat \<Rightarrow> client_call_error + pending_client_calls" where
  "new_table response_id max_calls max_retained_bytes =
     snd (table_with_budget response_id max_calls (with_limit max_retained_bytes))"

definition registration_bytes :: "nat \<Rightarrow> client_call_registration \<Rightarrow> nat" where
  "registration_bytes entry_size call =
     saturating_add (saturating_add (saturating_add entry_size RETAINED_CONTAINER_OVERHEAD_BYTES)
       (length (reg_call_id call))) (length (tk_agent (own_agent_turn (reg_owner call))))"

fun check_registrations ::
  "nat \<Rightarrow> agent_registry \<Rightarrow> (string, client_record) index_map \<Rightarrow> client_call_registration list \<Rightarrow> string set \<Rightarrow> nat \<Rightarrow>
   client_call_error + nat" where
  "check_registrations entry_size reg table [] seen bytes = Inr bytes"
| "check_registrations entry_size reg table (call # calls) seen bytes =
     (if map_of table (reg_call_id call) \<noteq> None \<or> reg_call_id call \<in> seen
      then Inl (DuplicateCall (reg_call_id call))
      else case get_agent reg (tk_agent (own_agent_turn (reg_owner call))) of
        None \<Rightarrow> Inl InvalidOwner
      | Some owner \<Rightarrow>
          if av_turn owner \<noteq> tk_turn (own_agent_turn (reg_owner call)) \<or> \<not> is_active (av_state owner)
          then Inl InvalidOwner
          else check_registrations entry_size reg table calls (insert (reg_call_id call) seen)
                 (saturating_add bytes (registration_bytes entry_size call)))"

fun insert_registrations ::
  "client_call_registration list \<Rightarrow> (string, client_record) index_map \<Rightarrow> (string, client_record) index_map" where
  "insert_registrations [] table = table"
| "insert_registrations (call # calls) table =
     insert_registrations calls
       (AList.update (reg_call_id call) \<lparr>ccr_owner = reg_owner call, ccr_resolution = Pending\<rparr> table)"

text \<open>The unsigned subtraction of the capacity check panics when it would underflow.\<close>

definition register_calls ::
  "nat \<Rightarrow> agent_registry \<Rightarrow> client_call_registration list \<Rightarrow> pending_client_calls \<Rightarrow>
   (pending_client_calls, client_call_error, unit) outcome" where
  "register_calls entry_size reg calls t =
     (if length (pcc_calls t) > pcc_max_calls t then (t, Inl CallPanic)
      else if length calls > pcc_max_calls t - length (pcc_calls t) then (t, Inl CallLimit)
      else case check_registrations entry_size reg (pcc_calls t) calls {} 0 of
        Inl e \<Rightarrow> (t, Inl e)
      | Inr bytes \<Rightarrow>
          (case consume (pcc_budget t) bytes of
             (b, Inl e) \<Rightarrow> (t\<lparr>pcc_budget := b\<rparr>, Inl (CallBudget e))
           | (b, Inr _) \<Rightarrow>
               (t\<lparr>pcc_budget := b, pcc_calls := insert_registrations calls (pcc_calls t)\<rparr>, Inr ())))"

definition record_of_stored_call :: "stored_client_call \<Rightarrow> client_record" where
  "record_of_stored_call call =
     \<lparr>ccr_owner = scc_owner call, ccr_resolution = (if scc_resolved call then Resolved [] else Pending)\<rparr>"

fun restore_calls ::
  "nat \<Rightarrow> agent_registry \<Rightarrow> stored_client_call list \<Rightarrow> pending_client_calls \<Rightarrow>
   executor_response_budget \<times> (client_call_error + pending_client_calls)" where
  "restore_calls entry_size reg [] t = (pcc_budget t, Inr t)"
| "restore_calls entry_size reg (call # calls) t =
     (if get_agent reg (tk_agent (own_agent_turn (scc_owner call))) = None then (pcc_budget t, Inl InvalidOwner)
      else if map_of (pcc_calls t) (scc_call_id call) \<noteq> None
      then (pcc_budget t, Inl (DuplicateCall (scc_call_id call)))
      else case consume (pcc_budget t)
          (registration_bytes entry_size \<lparr>reg_call_id = scc_call_id call, reg_owner = scc_owner call\<rparr>) of
        (b, Inl e) \<Rightarrow> (b, Inl (CallBudget e))
      | (b, Inr _) \<Rightarrow>
          restore_calls entry_size reg calls
            (t\<lparr>pcc_budget := b, pcc_calls := AList.update (scc_call_id call) (record_of_stored_call call) (pcc_calls t)\<rparr>))"

definition restore_table ::
  "nat \<Rightarrow> string \<Rightarrow> stored_client_call list \<Rightarrow> agent_registry \<Rightarrow> nat \<Rightarrow> executor_response_budget \<Rightarrow>
   executor_response_budget \<times> (client_call_error + pending_client_calls)" where
  "restore_table entry_size response_id records reg max_calls budget =
     (case table_with_budget response_id max_calls budget of
        (b, Inl e) \<Rightarrow> (b, Inl e)
      | (b, Inr t) \<Rightarrow>
          if length records > max_calls then (b, Inl CallLimit)
          else restore_calls entry_size reg records t)"

definition checkpoint :: "pending_client_calls \<Rightarrow> stored_client_call list" where
  "checkpoint t =
     map (\<lambda>(c, r). \<lparr>scc_call_id = c, scc_owner = ccr_owner r, scc_resolved = (ccr_resolution r \<noteq> Pending)\<rparr>) (pcc_calls t)"

definition call_view :: "string \<Rightarrow> client_record \<Rightarrow> client_call_view" where
  "call_view c r =
     (case (case ccr_resolution r of
              Pending \<Rightarrow> (ResolutionPending, None)
            | Resolved outs \<Rightarrow>
                (case outs of out # _ \<Rightarrow> (ResolutionAccepted, Some out) | [] \<Rightarrow> (ResolutionTransferred, None))) of
        (res, out) \<Rightarrow>
          \<lparr>ccv_call_id = c, ccv_owner = ccr_owner r, ccv_resolution = res, ccv_output = out\<rparr>)"

definition get_call :: "pending_client_calls \<Rightarrow> string \<Rightarrow> client_call_view option" where
  "get_call t c = map_option (call_view c) (map_of (pcc_calls t) c)"

definition pending_views :: "pending_client_calls \<Rightarrow> client_call_view list" where
  "pending_views t =
     map (\<lambda>(c, r). call_view c r) (filter (\<lambda>(_, r). ccr_resolution r = Pending) (pcc_calls t))"

definition awaiting_outputs :: "pending_client_calls \<Rightarrow> client_call_view list" where
  "awaiting_outputs t = filter (\<lambda>v. \<not> own_async_execution (ccv_owner v)) (pending_views t)"

fun validate_outputs ::
  "tool_search_output_message serializer \<Rightarrow> (string, client_record) index_map \<Rightarrow> client_tool_output list \<Rightarrow>
   string set \<Rightarrow> nat \<Rightarrow> client_call_error + nat" where
  "validate_outputs ser table [] seen bytes = Inr bytes"
| "validate_outputs ser table (out # outs) seen bytes =
     (let c = cto_call_id out in
      if c = [] then Inl EmptyCallId
      else case map_of table c of
        None \<Rightarrow> Inl (UnknownCall c)
      | Some r \<Rightarrow>
          if \<not> own_async_execution (ccr_owner r) \<and> c \<in> seen then Inl (DuplicateCall c)
          else if \<not> own_async_execution (ccr_owner r) \<and> ccr_resolution r \<noteq> Pending then Inl (AlreadyResolved c)
          else if own_kind (ccr_owner r) \<noteq> cto_kind out
          then Inl (KindMismatch c (own_kind (ccr_owner r)) (cto_kind out))
          else validate_outputs ser table outs
                 (if own_async_execution (ccr_owner r) then seen else insert c seen)
                 (saturating_add bytes (retained_client_output ser out)))"

definition validate_batch ::
  "tool_search_output_message serializer \<Rightarrow> pending_client_calls \<Rightarrow> client_tool_output_batch \<Rightarrow> client_call_error + nat" where
  "validate_batch ser t batch =
     (if bat_response_id batch \<noteq> pcc_response_id t then Inl WrongResponse
      else if length (bat_outputs batch) > pcc_max_calls t then Inl BatchLimit
      else validate_outputs ser (pcc_calls t) (bat_outputs batch) {} 0)"

definition push_output :: "client_tool_output \<Rightarrow> client_record \<Rightarrow> client_record" where
  "push_output out r =
     r\<lparr>ccr_resolution := (case ccr_resolution r of Pending \<Rightarrow> Resolved [out] | Resolved outs \<Rightarrow> Resolved (outs @ [out]))\<rparr>"

text \<open>\<open>None\<close> is the panic of \<open>expect\<close>.\<close>

fun commit_outputs ::
  "client_tool_output list \<Rightarrow> (string, client_record) index_map \<Rightarrow> (string, client_record) index_map option" where
  "commit_outputs [] table = Some table"
| "commit_outputs (out # outs) table =
     (case map_of table (cto_call_id out) of
        None \<Rightarrow> None
      | Some _ \<Rightarrow> commit_outputs outs (im_modify (cto_call_id out) (push_output out) table))"

definition accept_outputs ::
  "tool_search_output_message serializer \<Rightarrow> client_tool_output_batch \<Rightarrow> pending_client_calls \<Rightarrow>
   (pending_client_calls, client_tool_output_batch \<times> client_call_error, unit) outcome" where
  "accept_outputs ser batch t =
     (case validate_batch ser t batch of
        Inl e \<Rightarrow> (t, Inl (batch, e))
      | Inr bytes \<Rightarrow>
          (case consume (pcc_budget t) bytes of
             (b, Inl e) \<Rightarrow> (t\<lparr>pcc_budget := b\<rparr>, Inl (batch, CallBudget e))
           | (b, Inr _) \<Rightarrow>
               (case commit_outputs (bat_outputs batch) (pcc_calls t) of
                  None \<Rightarrow> (t\<lparr>pcc_budget := b\<rparr>, Inl (batch, CallPanic))
                | Some calls \<Rightarrow> (t\<lparr>pcc_budget := b, pcc_calls := calls\<rparr>, Inr ()))))"

definition take_accepted :: "string \<Rightarrow> pending_client_calls \<Rightarrow> pending_client_calls \<times> routed_client_output option" where
  "take_accepted c t =
     (case map_of (pcc_calls t) c of
        None \<Rightarrow> (t, None)
      | Some r \<Rightarrow>
          (case ccr_resolution r of
             Pending \<Rightarrow> (t, None)
           | Resolved [] \<Rightarrow> (t, None)
           | Resolved (out # outs) \<Rightarrow>
               (t\<lparr>pcc_calls := im_modify c (\<lambda>r. r\<lparr>ccr_resolution := Resolved outs\<rparr>) (pcc_calls t)\<rparr>,
                Some \<lparr>rco_owner = ccr_owner r, rco_output = out\<rparr>)))"


section \<open>Runs of operations\<close>

datatype client_op =
    CoRegister agent_registry "client_call_registration list"
  | CoAccept client_tool_output_batch
  | CoTake string
  | CoOtherCharge nat

datatype client_reply =
    CrOk
  | CrErr client_call_error
  | CrRejected client_tool_output_batch client_call_error
  | CrTaken "routed_client_output option"

fun client_step ::
  "nat \<Rightarrow> tool_search_output_message serializer \<Rightarrow> client_op \<Rightarrow> pending_client_calls \<Rightarrow> pending_client_calls \<times> client_reply" where
  "client_step es ser (CoRegister reg calls) t =
     (case register_calls es reg calls t of (t', Inl e) \<Rightarrow> (t', CrErr e) | (t', Inr _) \<Rightarrow> (t', CrOk))"
| "client_step es ser (CoAccept batch) t =
     (case accept_outputs ser batch t of (t', Inl (b, e)) \<Rightarrow> (t', CrRejected b e) | (t', Inr _) \<Rightarrow> (t', CrOk))"
| "client_step es ser (CoTake c) t = (case take_accepted c t of (t', out) \<Rightarrow> (t', CrTaken out))"
| "client_step es ser (CoOtherCharge n) t =
     (case consume (pcc_budget t) n of
        (b, Inl e) \<Rightarrow> (t\<lparr>pcc_budget := b\<rparr>, CrErr (CallBudget e))
      | (b, Inr _) \<Rightarrow> (t\<lparr>pcc_budget := b\<rparr>, CrOk))"

fun client_run ::
  "nat \<Rightarrow> tool_search_output_message serializer \<Rightarrow> client_op list \<Rightarrow> pending_client_calls \<Rightarrow>
   pending_client_calls \<times> client_reply list" where
  "client_run es ser [] t = (t, [])"
| "client_run es ser (op # ops) t =
     (case client_step es ser op t of
        (t', r) \<Rightarrow> (case client_run es ser ops t' of (t'', rs) \<Rightarrow> (t'', r # rs)))"

text \<open>What one operation accepts for a call, and what it hands over.\<close>

definition outputs_for :: "string \<Rightarrow> client_tool_output list \<Rightarrow> client_tool_output list" where
  "outputs_for c outs = filter (\<lambda>out. cto_call_id out = c) outs"

fun accepted_for :: "string \<Rightarrow> client_op \<Rightarrow> client_reply \<Rightarrow> client_tool_output list" where
  "accepted_for c (CoAccept batch) CrOk = outputs_for c (bat_outputs batch)"
| "accepted_for c _ _ = []"

fun taken_for :: "string \<Rightarrow> client_op \<Rightarrow> client_reply \<Rightarrow> client_tool_output list" where
  "taken_for c (CoTake c') (CrTaken (Some routed)) = (if c' = c then [rco_output routed] else [])"
| "taken_for c _ _ = []"

definition accepted_log :: "string \<Rightarrow> client_op list \<Rightarrow> client_reply list \<Rightarrow> client_tool_output list" where
  "accepted_log c ops rs = concat (map2 (accepted_for c) ops rs)"

definition taken_log :: "string \<Rightarrow> client_op list \<Rightarrow> client_reply list \<Rightarrow> client_tool_output list" where
  "taken_log c ops rs = concat (map2 (taken_for c) ops rs)"

definition queue :: "client_record \<Rightarrow> client_tool_output list" where
  "queue r = (case ccr_resolution r of Pending \<Rightarrow> [] | Resolved outs \<Rightarrow> outs)"

definition queued :: "pending_client_calls \<Rightarrow> string \<Rightarrow> client_tool_output list" where
  "queued t c = (case map_of (pcc_calls t) c of None \<Rightarrow> [] | Some r \<Rightarrow> queue r)"

section \<open>The invariant\<close>

definition call_ok :: "string \<Rightarrow> client_record \<Rightarrow> bool" where
  "call_ok c r \<longleftrightarrow>
     (\<forall>out\<in>set (queue r). cto_call_id out = c \<and> cto_kind out = own_kind (ccr_owner r)) \<and>
     (\<not> own_async_execution (ccr_owner r) \<longrightarrow> length (queue r) \<le> 1)"

definition table_ok :: "pending_client_calls \<Rightarrow> bool" where
  "table_ok t \<longleftrightarrow>
     distinct (map fst (pcc_calls t)) \<and> length (pcc_calls t) \<le> pcc_max_calls t \<and>
     im.all_entries call_ok (pcc_calls t) \<and> rb_used (pcc_budget t) \<le> rb_limit (pcc_budget t)"

section \<open>What each operation does\<close>

definition push_all :: "client_tool_output list \<Rightarrow> client_record \<Rightarrow> client_record" where
  "push_all outs r = (if outs = [] then r else r\<lparr>ccr_resolution := Resolved (queue r @ outs)\<rparr>)"

lemma push_all_Nil [simp]: "push_all [] = (\<lambda>r. r)"
  by (simp add: push_all_def fun_eq_iff)

lemma push_all_Cons: "push_all outs (push_output out r) = push_all (out # outs) r"
  by (auto simp: push_all_def push_output_def queue_def split: resolution.splits)

lemma push_all_simps [simp]:
  "ccr_owner (push_all outs r) = ccr_owner r" "queue (push_all outs r) = queue r @ outs"
  by (simp_all add: push_all_def queue_def)

lemma push_all_pending: "ccr_resolution (push_all outs r) = Pending \<longleftrightarrow> outs = [] \<and> ccr_resolution r = Pending"
  by (simp add: push_all_def)

lemma outputs_for_Cons:
  "outputs_for c (out # outs) = (if cto_call_id out = c then out # outputs_for c outs else outputs_for c outs)"
  by (simp add: outputs_for_def)

lemma commit_outputs_effect:
  "\<forall>out\<in>set outs. map_of table (cto_call_id out) \<noteq> None \<Longrightarrow>
   \<exists>table'. commit_outputs outs table = Some table' \<and> map fst table' = map fst table \<and>
     (\<forall>c. map_of table' c = map_option (push_all (outputs_for c outs)) (map_of table c))"
proof (induction outs arbitrary: table)
  case Nil
  then show ?case by (simp add: outputs_for_def option.map_ident)
next
  case (Cons out outs)
  let ?t = "im_modify (cto_call_id out) (push_output out) table"
  have "\<forall>out\<in>set outs. map_of ?t (cto_call_id out) \<noteq> None"
    using Cons.prems by (auto simp: map_of_im_modify)
  from Cons.IH [OF this] obtain t' where t': "commit_outputs outs ?t = Some t'" "map fst t' = map fst ?t"
    "\<And>c. map_of t' c = map_option (push_all (outputs_for c outs)) (map_of ?t c)" by blast
  moreover have "map_of t' c = map_option (push_all (outputs_for c (out # outs))) (map_of table c)" for c
    by (simp add: t'(3) map_of_im_modify outputs_for_Cons option.map_comp comp_def push_all_Cons)
  moreover obtain r where "map_of table (cto_call_id out) = Some r" using Cons.prems by auto
  ultimately show ?case by (simp add: keys_im_modify)
qed

text \<open>One unfolding of the validation loop: the checks on the first output, and the rest.\<close>

lemma validate_outputs_Cons:
  assumes "validate_outputs ser table (out # outs) seen bytes = Inr n"
  shows "\<exists>r bytes'. cto_call_id out \<noteq> [] \<and> map_of table (cto_call_id out) = Some r \<and>
    own_kind (ccr_owner r) = cto_kind out \<and>
    (\<not> own_async_execution (ccr_owner r) \<longrightarrow> ccr_resolution r = Pending \<and> cto_call_id out \<notin> seen) \<and>
    validate_outputs ser table outs
      (if own_async_execution (ccr_owner r) then seen else insert (cto_call_id out) seen) bytes' = Inr n"
  using assms by (auto simp: Let_def split: if_splits option.splits)

lemma validate_outputs_ok:
  "validate_outputs ser table outs seen bytes = Inr n \<Longrightarrow> out \<in> set outs \<Longrightarrow>
   cto_call_id out \<noteq> [] \<and> (\<exists>r. map_of table (cto_call_id out) = Some r \<and> own_kind (ccr_owner r) = cto_kind out \<and>
     (\<not> own_async_execution (ccr_owner r) \<longrightarrow> ccr_resolution r = Pending))"
proof (induction outs arbitrary: seen bytes)
  case (Cons o' outs)
  from validate_outputs_Cons [OF Cons.prems(1)] Cons.IH Cons.prems(2) show ?case by (auto simp del: validate_outputs.simps)
qed simp

lemma validate_outputs_once:
  "validate_outputs ser table outs seen bytes = Inr n \<Longrightarrow> map_of table c = Some r \<Longrightarrow>
   \<not> own_async_execution (ccr_owner r) \<Longrightarrow>
   length (outputs_for c outs) \<le> 1 \<and> (c \<in> seen \<longrightarrow> outputs_for c outs = [])"
proof (induction outs arbitrary: seen bytes)
  case Nil
  then show ?case by (simp add: outputs_for_def)
next
  case (Cons out outs)
  from validate_outputs_Cons [OF Cons.prems(1)] obtain q bytes' where
    q: "map_of table (cto_call_id out) = Some q"
       "\<not> own_async_execution (ccr_owner q) \<longrightarrow> ccr_resolution q = Pending \<and> cto_call_id out \<notin> seen"
    and rest: "validate_outputs ser table outs
      (if own_async_execution (ccr_owner q) then seen else insert (cto_call_id out) seen) bytes' = Inr n" by blast
  from Cons.IH [OF rest Cons.prems(2,3)] q Cons.prems(2,3) show ?case
    by (auto simp: outputs_for_Cons split: if_splits)
qed

lemma validate_outputs_no_panic: "validate_outputs ser table outs seen bytes \<noteq> Inl CallPanic"
  by (induction outs arbitrary: seen bytes) (auto simp: Let_def split: option.splits)

lemma validate_batch_ok: "validate_batch ser t batch = Inr n \<Longrightarrow> validate_outputs ser (pcc_calls t) (bat_outputs batch) {} 0 = Inr n"
  by (auto simp: validate_batch_def split: if_splits)

lemma accept_outputs_ok:
  assumes "accept_outputs ser batch t = (t', Inr u)"
  shows "\<exists>n. validate_outputs ser (pcc_calls t) (bat_outputs batch) {} 0 = Inr n \<and>
    consume (pcc_budget t) n = (pcc_budget t', Inr ()) \<and>
    pcc_response_id t' = pcc_response_id t \<and> pcc_max_calls t' = pcc_max_calls t \<and>
    map fst (pcc_calls t') = map fst (pcc_calls t) \<and>
    (\<forall>c. map_of (pcc_calls t') c = map_option (push_all (outputs_for c (bat_outputs batch))) (map_of (pcc_calls t) c))"
proof -
  from assms obtain n b calls where n: "validate_batch ser t batch = Inr n" "consume (pcc_budget t) n = (b, Inr ())"
    "commit_outputs (bat_outputs batch) (pcc_calls t) = Some calls" "t' = t\<lparr>pcc_budget := b, pcc_calls := calls\<rparr>"
    by (auto simp: accept_outputs_def split: sum.splits prod.splits option.splits)
  have "\<forall>out\<in>set (bat_outputs batch). map_of (pcc_calls t) (cto_call_id out) \<noteq> None"
    using validate_outputs_ok [OF validate_batch_ok [OF n(1)]] by blast
  from commit_outputs_effect [OF this] n validate_batch_ok [OF n(1)] show ?thesis by auto
qed

lemma accept_outputs_err:
  assumes "accept_outputs ser batch t = (t', Inl (b, e))"
  shows "t' = t \<and> b = batch \<and> e \<noteq> CallPanic"
proof (cases "validate_batch ser t batch")
  case (Inl e')
  moreover have "e' \<noteq> CallPanic"
    using Inl validate_outputs_no_panic by (force simp: validate_batch_def split: if_splits)
  ultimately show ?thesis using assms by (auto simp: accept_outputs_def)
next
  case (Inr n)
  have "\<forall>out\<in>set (bat_outputs batch). map_of (pcc_calls t) (cto_call_id out) \<noteq> None"
    using validate_outputs_ok [OF validate_batch_ok [OF Inr]] by blast
  from commit_outputs_effect [OF this] Inr assms show ?thesis
    by (auto simp: accept_outputs_def consume_eq split: if_splits)
qed

lemma accept_outputs_cases:
  assumes "accept_outputs ser batch t = (t', r)"
  shows "(\<exists>e. r = Inl (batch, e) \<and> t' = t \<and> e \<noteq> CallPanic) \<or> r = Inr ()"
  using assms accept_outputs_err by (cases r) fastforce+

subsection \<open>Registration\<close>

lemma check_registrations_ok:
  "check_registrations es reg table calls seen bytes = Inr n \<Longrightarrow>
   distinct (map reg_call_id calls) \<and>
   (\<forall>call\<in>set calls. map_of table (reg_call_id call) = None \<and> reg_call_id call \<notin> seen)"
proof (induction calls arbitrary: seen bytes)
  case (Cons call calls)
  then obtain bytes' where "check_registrations es reg table calls (insert (reg_call_id call) seen) bytes' = Inr n"
    "map_of table (reg_call_id call) = None" "reg_call_id call \<notin> seen"
    by (auto split: if_splits option.splits)
  with Cons.IH [OF this(1)] show ?case by auto
qed simp

lemma check_registrations_no_panic: "check_registrations es reg table calls seen bytes \<noteq> Inl CallPanic"
  by (induction calls arbitrary: seen bytes) (auto split: option.splits)

lemma insert_registrations_append:
  "distinct (map reg_call_id calls) \<Longrightarrow> \<forall>call\<in>set calls. map_of table (reg_call_id call) = None \<Longrightarrow>
   insert_registrations calls table =
     table @ map (\<lambda>call. (reg_call_id call, \<lparr>ccr_owner = reg_owner call, ccr_resolution = Pending\<rparr>)) calls"
proof (induction calls arbitrary: table)
  case (Cons call calls)
  let ?e = "(reg_call_id call, \<lparr>ccr_owner = reg_owner call, ccr_resolution = Pending\<rparr>)"
  have "\<forall>c\<in>set calls. map_of (table @ [?e]) (reg_call_id c) = None"
    using Cons.prems by (auto simp: map_add_def intro: rev_image_eqI)
  with Cons show ?case by (simp add: alist_update_fresh)
qed simp

lemma new_entry:
  "map_of (map (\<lambda>call. (reg_call_id call, g call)) calls) c = Some r \<Longrightarrow>
   \<exists>call\<in>set calls. reg_call_id call = c \<and> r = g call"
  by (auto dest!: map_of_SomeD)

lemma register_calls_ok:
  assumes "register_calls es reg calls t = (t', Inr u)"
  shows "\<exists>n. consume (pcc_budget t) n = (pcc_budget t', Inr ()) \<and> distinct (map reg_call_id calls) \<and>
    (\<forall>call\<in>set calls. map_of (pcc_calls t) (reg_call_id call) = None) \<and>
    length (pcc_calls t) + length calls \<le> pcc_max_calls t \<and>
    pcc_max_calls t' = pcc_max_calls t \<and> pcc_response_id t' = pcc_response_id t \<and>
    pcc_calls t' = pcc_calls t @
      map (\<lambda>call. (reg_call_id call, \<lparr>ccr_owner = reg_owner call, ccr_resolution = Pending\<rparr>)) calls"
proof -
  from assms obtain n b where n: "check_registrations es reg (pcc_calls t) calls {} 0 = Inr n"
    "consume (pcc_budget t) n = (b, Inr ())" "\<not> length (pcc_calls t) > pcc_max_calls t"
    "\<not> length calls > pcc_max_calls t - length (pcc_calls t)"
    "t' = t\<lparr>pcc_budget := b, pcc_calls := insert_registrations calls (pcc_calls t)\<rparr>"
    by (auto simp: register_calls_def split: sum.splits prod.splits if_splits)
  with check_registrations_ok [OF n(1)] show ?thesis by (auto simp: insert_registrations_append)
qed

lemma register_calls_err:
  assumes "register_calls es reg calls t = (t', Inl e)"
  shows "t' = t \<and> (length (pcc_calls t) \<le> pcc_max_calls t \<longrightarrow> e \<noteq> CallPanic)"
proof -
  show ?thesis
    using assms check_registrations_no_panic [of es reg "pcc_calls t" calls "{}" 0]
    by (auto simp: register_calls_def consume_eq split: if_splits sum.splits prod.splits)
qed


lemma take_accepted_cases:
  assumes "take_accepted c t = (t', out)"
  shows "(t' = t \<and> out = None \<and> queued t c = []) \<or>
    (\<exists>r o1 outs. map_of (pcc_calls t) c = Some r \<and> ccr_resolution r = Resolved (o1 # outs) \<and>
       out = Some \<lparr>rco_owner = ccr_owner r, rco_output = o1\<rparr> \<and>
       t' = t\<lparr>pcc_calls := im_modify c (\<lambda>r. r\<lparr>ccr_resolution := Resolved outs\<rparr>) (pcc_calls t)\<rparr>)"
  using assms
  by (auto simp: take_accepted_def queued_def queue_def split: option.splits resolution.splits list.splits)

subsection \<open>Every operation keeps the invariant\<close>

lemma table_ok_charge: "table_ok t \<Longrightarrow> consume (pcc_budget t) n = (b, r) \<Longrightarrow> table_ok (t\<lparr>pcc_budget := b\<rparr>)"
  by (auto simp: table_ok_def consume_eq split: if_splits)

lemma register_calls_keeps:
  assumes "table_ok t" and "register_calls es reg calls t = (t', Inr u)"
  shows "table_ok t'"
proof -
  let ?new = "map (\<lambda>call. (reg_call_id call, \<lparr>ccr_owner = reg_owner call, ccr_resolution = Pending\<rparr>)) calls"
  from register_calls_ok [OF assms(2)] obtain n where n: "consume (pcc_budget t) n = (pcc_budget t', Inr ())"
    "distinct (map reg_call_id calls)" "\<forall>call\<in>set calls. map_of (pcc_calls t) (reg_call_id call) = None"
    "length (pcc_calls t) + length calls \<le> pcc_max_calls t"
    and t': "pcc_calls t' = pcc_calls t @ ?new" "pcc_max_calls t' = pcc_max_calls t" by blast
  have fresh: "call_ok c r" if "map_of ?new c = Some r" for c r
    using map_of_SomeD [OF that] by (auto simp: call_ok_def queue_def)
  have "im.all_entries call_ok (pcc_calls t @ ?new)"
    using assms(1) fresh by (auto simp: table_ok_def im.all_entries_def map_add_def split: option.splits)
  moreover have "reg_call_id call \<notin> set (map fst (pcc_calls t))" if "call \<in> set calls" for call
    using n(3) that by (simp add: im.keys_get del: set_map)
  then have "set (map fst (pcc_calls t)) \<inter> set (map reg_call_id calls) = {}"
    unfolding disjoint_iff set_map [of reg_call_id] by blast
  then have "distinct (map fst (pcc_calls t @ ?new))"
    using assms(1) n(2) by (simp add: table_ok_def comp_def)
  moreover have "rb_used (pcc_budget t') \<le> rb_limit (pcc_budget t')"
    using n(1) by (simp add: consume_ok)
  ultimately show ?thesis using n(4) t' by (simp add: table_ok_def del: map_append)
qed

lemma accept_outputs_keeps:
  assumes "table_ok t" and "accept_outputs ser batch t = (t', Inr u)"
  shows "table_ok t'"
proof -
  from accept_outputs_ok [OF assms(2)] obtain n where n: "validate_outputs ser (pcc_calls t) (bat_outputs batch) {} 0 = Inr n"
    "consume (pcc_budget t) n = (pcc_budget t', Inr ())" "pcc_max_calls t' = pcc_max_calls t"
    "map fst (pcc_calls t') = map fst (pcc_calls t)"
    "\<And>c. map_of (pcc_calls t') c = map_option (push_all (outputs_for c (bat_outputs batch))) (map_of (pcc_calls t) c)" by blast
  have "call_ok c r'" if r': "map_of (pcc_calls t') c = Some r'" for c r'
  proof -
    from r' n(5) [of c] obtain r where r: "map_of (pcc_calls t) c = Some r"
      "r' = push_all (outputs_for c (bat_outputs batch)) r" by auto
    have ok: "call_ok c r" using assms(1) r(1) by (auto simp: table_ok_def dest: im.all_entriesD)
    have out: "cto_call_id out = c \<and> cto_kind out = own_kind (ccr_owner r) \<and>
        (\<not> own_async_execution (ccr_owner r) \<longrightarrow> ccr_resolution r = Pending)"
      if "out \<in> set (outputs_for c (bat_outputs batch))" for out
      using validate_outputs_ok [OF n(1), of out] that r(1) by (auto simp: outputs_for_def)
    have "length (queue r') \<le> 1" if sync: "\<not> own_async_execution (ccr_owner r)"
    proof (cases "outputs_for c (bat_outputs batch)")
      case Nil
      with ok sync r(2) show ?thesis by (simp add: call_ok_def)
    next
      case (Cons o1 os)
      with out [of o1] sync have "queue r = []" by (simp add: queue_def)
      with validate_outputs_once [OF n(1) r(1) sync] r(2) show ?thesis by simp
    qed
    with ok out r(2) show ?thesis by (auto simp: call_ok_def)
  qed
  moreover have "length (pcc_calls t') = length (pcc_calls t)" using n(4) by (metis length_map)
  ultimately show ?thesis
    using assms(1) n by (auto simp: table_ok_def consume_ok intro!: im.all_entriesI)
qed

lemma take_accepted_keeps:
  assumes "table_ok t" and "take_accepted c t = (t', out)"
  shows "table_ok t'"
  using take_accepted_cases [OF assms(2)]
proof (elim disjE exE conjE)
  fix r o1 outs assume r: "map_of (pcc_calls t) c = Some r" "ccr_resolution r = Resolved (o1 # outs)"
    "t' = t\<lparr>pcc_calls := im_modify c (\<lambda>r. r\<lparr>ccr_resolution := Resolved outs\<rparr>) (pcc_calls t)\<rparr>"
  have "im.all_entries call_ok (im_modify c (\<lambda>r. r\<lparr>ccr_resolution := Resolved outs\<rparr>) (pcc_calls t))"
    using assms(1) r by (intro im.all_entries_modify) (auto simp: table_ok_def call_ok_def queue_def)
  with assms(1) r show ?thesis by (simp add: table_ok_def keys_im_modify)
qed (use assms(1) in simp)

lemma client_step_keeps:
  assumes "table_ok t" and "client_step es ser op t = (t', r)"
  shows "table_ok t'"
proof (cases op)
  case (CoRegister reg calls)
  with assms show ?thesis
    by (auto split: prod.splits sum.splits dest: register_calls_err register_calls_keeps)
next
  case (CoAccept batch)
  with assms show ?thesis
    by (auto split: prod.splits sum.splits dest: accept_outputs_err accept_outputs_keeps)
next
  case (CoTake c)
  with assms show ?thesis by (auto split: prod.splits dest: take_accepted_keeps)
next
  case (CoOtherCharge n)
  with assms show ?thesis by (auto split: prod.splits sum.splits dest: table_ok_charge)
qed

definition table_starts :: "pending_client_calls \<Rightarrow> bool" where
  "table_starts t \<longleftrightarrow> (\<exists>rid mx b b'. table_with_budget rid mx b = (b', Inr t))"

definition table_steps :: "nat \<Rightarrow> tool_search_output_message serializer \<Rightarrow> pending_client_calls \<Rightarrow> pending_client_calls \<Rightarrow> bool" where
  "table_steps es ser t t' \<longleftrightarrow> (\<exists>op r. client_step es ser op t = (t', r))"

interpretation calls: invariant_system table_starts "table_steps es ser" table_ok for es ser
proof unfold_locales
  fix t assume "table_starts t"
  then show "table_ok t"
    by (auto simp: table_starts_def table_with_budget_def table_ok_def consume_eq im.all_entries_def split: if_splits)
next
  fix t t' assume "table_ok t" "table_steps es ser t t'"
  then show "table_ok t'" by (auto simp: table_steps_def intro: client_step_keeps)
qed

subsection \<open>Conservation and single resolution\<close>

lemma queued_register:
  assumes "register_calls es reg calls t = (t', Inr u)"
  shows "queued t' c = queued t c"
proof -
  let ?new = "map (\<lambda>call. (reg_call_id call, \<lparr>ccr_owner = reg_owner call, ccr_resolution = Pending\<rparr>)) calls"
  from register_calls_ok [OF assms] have calls: "pcc_calls t' = pcc_calls t @ ?new"
    and fresh: "\<forall>call\<in>set calls. map_of (pcc_calls t) (reg_call_id call) = None"
    by auto
  have new: "queue r = []" if "map_of ?new c = Some r" for r
    using map_of_SomeD [OF that] by (auto simp: queue_def)
  have "map_of (pcc_calls t) c = None" if "map_of ?new c = Some r" for r
    using map_of_SomeD [OF that] fresh by auto
  with new show ?thesis
    by (cases "map_of ?new c") (auto simp: queued_def calls map_add_def split: option.splits)
qed

lemma client_step_conserves:
  assumes "client_step es ser op t = (t', r)"
  shows "taken_for c op r @ queued t' c = queued t c @ accepted_for c op r"
proof (cases op)
  case (CoRegister reg calls)
  with assms show ?thesis
    by (auto split: prod.splits sum.splits dest: register_calls_err simp: queued_register)
next
  case (CoAccept batch)
  show ?thesis
  proof (cases "snd (accept_outputs ser batch t)")
    case (Inl e)
    with CoAccept assms show ?thesis
      by (auto split: prod.splits sum.splits dest: accept_outputs_err)
  next
    case (Inr u)
    with CoAccept assms have acc: "accept_outputs ser batch t = (t', Inr u)" and r: "r = CrOk"
      by (auto split: prod.splits sum.splits)
    from accept_outputs_ok [OF acc] have eff: "map_of (pcc_calls t') c = map_option (push_all (outputs_for c (bat_outputs batch))) (map_of (pcc_calls t) c)"
      and known: "\<And>out. out \<in> set (bat_outputs batch) \<Longrightarrow> map_of (pcc_calls t) (cto_call_id out) \<noteq> None"
      by (auto dest: validate_outputs_ok)
    have "outputs_for c (bat_outputs batch) = []" if "map_of (pcc_calls t) c = None"
      using known that by (fastforce simp: outputs_for_def filter_empty_conv)
    with eff CoAccept r show ?thesis by (cases "map_of (pcc_calls t) c") (auto simp: queued_def)
  qed
next
  case (CoTake d)
  with assms obtain out where take: "take_accepted d t = (t', out)" and r: "r = CrTaken out"
    by (auto split: prod.splits)
  from take_accepted_cases [OF take] CoTake r show ?thesis
    by (auto simp: queued_def queue_def map_of_im_modify)
next
  case (CoOtherCharge n)
  with assms show ?thesis by (auto simp: queued_def consume_eq split: prod.splits if_splits)
qed

lemma client_run_length: "client_run es ser ops t = (t', rs) \<Longrightarrow> length rs = length ops"
  by (induction ops arbitrary: t rs) (auto split: prod.splits)

lemma client_run_conserves:
  "client_run es ser ops t = (t', rs) \<Longrightarrow> taken_log c ops rs @ queued t' c = queued t c @ accepted_log c ops rs"
proof (induction ops arbitrary: t rs)
  case Nil
  then show ?case by (simp add: taken_log_def accepted_log_def)
next
  case (Cons op ops)
  obtain t1 r where step: "client_step es ser op t = (t1, r)" by fastforce
  obtain rs1 where run: "client_run es ser ops t1 = (t', rs1)" and rs: "rs = r # rs1"
    using Cons.prems step by (auto split: prod.splits)
  from Cons.IH [OF run] client_step_conserves [OF step, of c] rs show ?case
    by (simp add: taken_log_def accepted_log_def flip: append_assoc) (simp add: append_assoc)
qed

text \<open>How many outputs a synchronous call can still accept.\<close>

definition acceptable :: "pending_client_calls \<Rightarrow> string \<Rightarrow> nat" where
  "acceptable t c = (case map_of (pcc_calls t) c of Some r \<Rightarrow> if ccr_resolution r = Pending then 1 else 0 | None \<Rightarrow> 0)"

definition synchronous :: "pending_client_calls \<Rightarrow> string \<Rightarrow> bool" where
  "synchronous t c \<longleftrightarrow> (\<exists>r. map_of (pcc_calls t) c = Some r \<and> \<not> own_async_execution (ccr_owner r))"

lemma client_step_sync:
  assumes "synchronous t c" and "client_step es ser op t = (t', r)"
  shows "synchronous t' c \<and> length (accepted_for c op r) + acceptable t' c \<le> acceptable t c"
proof -
  from assms(1) obtain rec where rec: "map_of (pcc_calls t) c = Some rec" "\<not> own_async_execution (ccr_owner rec)"
    by (auto simp: synchronous_def)
  show ?thesis
  proof (cases op)
    case (CoRegister reg calls)
    show ?thesis
    proof (cases "snd (register_calls es reg calls t)")
      case (Inl e)
      with CoRegister assms show ?thesis by (auto split: prod.splits sum.splits dest: register_calls_err)
    next
      case (Inr u)
      with CoRegister assms have ok: "register_calls es reg calls t = (t', Inr u)" by (auto split: prod.splits sum.splits)
      let ?new = "map (\<lambda>call. (reg_call_id call, \<lparr>ccr_owner = reg_owner call, ccr_resolution = Pending\<rparr>)) calls"
      from register_calls_ok [OF ok] have calls: "pcc_calls t' = pcc_calls t @ ?new"
        and fresh: "\<forall>call\<in>set calls. map_of (pcc_calls t) (reg_call_id call) = None"
        by auto
      have "map_of ?new c = None"
        using fresh rec new_entry [of "\<lambda>call. \<lparr>ccr_owner = reg_owner call, ccr_resolution = Pending\<rparr>" calls c]
        by (cases "map_of ?new c") auto
      with rec calls CoRegister show ?thesis by (auto simp: synchronous_def acceptable_def map_add_def)
    qed
  next
    case (CoAccept batch)
    show ?thesis
    proof (cases "snd (accept_outputs ser batch t)")
      case (Inl e)
      with CoAccept assms show ?thesis by (auto split: prod.splits sum.splits dest: accept_outputs_err)
    next
      case (Inr u)
      with CoAccept assms have acc: "accept_outputs ser batch t = (t', Inr u)" and r: "r = CrOk"
        by (auto split: prod.splits sum.splits)
      from accept_outputs_ok [OF acc] obtain n where
        val: "validate_outputs ser (pcc_calls t) (bat_outputs batch) {} 0 = Inr n" and
        eff: "map_of (pcc_calls t') c = Some (push_all (outputs_for c (bat_outputs batch)) rec)" using rec by auto
      have "ccr_resolution rec = Pending" if "out \<in> set (outputs_for c (bat_outputs batch))" for out
        using validate_outputs_ok [OF val, of out] that rec by (auto simp: outputs_for_def)
      with validate_outputs_once [OF val rec] eff rec CoAccept r show ?thesis
        by (cases "outputs_for c (bat_outputs batch)") (auto simp: synchronous_def acceptable_def push_all_pending)
    qed
  next
    case (CoTake d)
    with assms obtain out where take: "take_accepted d t = (t', out)" and r: "r = CrTaken out"
      by (auto split: prod.splits)
    from take_accepted_cases [OF take] CoTake r rec show ?thesis
      by (auto simp: synchronous_def acceptable_def map_of_im_modify)
  next
    case (CoOtherCharge n)
    with assms rec show ?thesis
      by (auto simp: synchronous_def acceptable_def consume_eq split: prod.splits if_splits)
  qed
qed

lemma client_run_sync:
  "synchronous t c \<Longrightarrow> client_run es ser ops t = (t', rs) \<Longrightarrow>
   length (accepted_log c ops rs) + acceptable t' c \<le> acceptable t c"
proof (induction ops arbitrary: t rs)
  case Nil
  then show ?case by (simp add: accepted_log_def)
next
  case (Cons op ops)
  obtain t1 r where step: "client_step es ser op t = (t1, r)" by fastforce
  obtain rs1 where run: "client_run es ser ops t1 = (t', rs1)" and rs: "rs = r # rs1"
    using Cons.prems step by (auto split: prod.splits)
  note one = client_step_sync [OF Cons.prems(1) step]
  from Cons.IH [OF _ run] one have "length (accepted_log c ops rs1) + acceptable t' c \<le> acceptable t1 c" by blast
  with one rs show ?case by (simp add: accepted_log_def)
qed


subsection \<open>Checkpoint and restore\<close>

definition stored_calls_bytes :: "nat \<Rightarrow> stored_client_call list \<Rightarrow> nat" where
  "stored_calls_bytes es calls =
     sum_list (map (\<lambda>c. registration_bytes es \<lparr>reg_call_id = scc_call_id c, reg_owner = scc_owner c\<rparr>) calls)"

lemma restore_calls_fits:
  "distinct (map fst (pcc_calls t) @ map scc_call_id calls) \<Longrightarrow>
   \<forall>c\<in>set calls. get_agent reg (tk_agent (own_agent_turn (scc_owner c))) \<noteq> None \<Longrightarrow>
   rb_used (pcc_budget t) + stored_calls_bytes es calls \<le> min (rb_limit (pcc_budget t)) USIZE_MAX \<Longrightarrow>
   \<exists>b. b = (pcc_budget t)\<lparr>rb_used := rb_used (pcc_budget t) + stored_calls_bytes es calls\<rparr> \<and>
     restore_calls es reg calls t =
       (b, Inr (t\<lparr>pcc_budget := b,
          pcc_calls := pcc_calls t @ map (\<lambda>c. (scc_call_id c, record_of_stored_call c)) calls\<rparr>))"
proof (induction calls arbitrary: t)
  case Nil
  then show ?case by (simp add: stored_calls_bytes_def)
next
  case (Cons c calls)
  let ?n = "registration_bytes es \<lparr>reg_call_id = scc_call_id c, reg_owner = scc_owner c\<rparr>"
  let ?b = "(pcc_budget t)\<lparr>rb_used := rb_used (pcc_budget t) + ?n\<rparr>"
  let ?t = "t\<lparr>pcc_budget := ?b, pcc_calls := pcc_calls t @ [(scc_call_id c, record_of_stored_call c)]\<rparr>"
  have bytes: "stored_calls_bytes es (c # calls) = ?n + stored_calls_bytes es calls" by (simp add: stored_calls_bytes_def)
  have fresh: "map_of (pcc_calls t) (scc_call_id c) = None" using Cons.prems(1) by (auto simp: map_of_eq_None_iff)
  have "\<exists>b. b = (pcc_budget ?t)\<lparr>rb_used := rb_used (pcc_budget ?t) + stored_calls_bytes es calls\<rparr> \<and>
     restore_calls es reg calls ?t =
       (b, Inr (?t\<lparr>pcc_budget := b,
          pcc_calls := pcc_calls ?t @ map (\<lambda>c. (scc_call_id c, record_of_stored_call c)) calls\<rparr>))"
    by (rule Cons.IH) (use Cons.prems bytes in auto)
  moreover have "consume (pcc_budget t) ?n = (?b, Inr ())" using Cons.prems(3) bytes by (simp add: consume_eq)
  ultimately show ?case
    using fresh Cons.prems(2) bytes by (simp add: alist_update_fresh add.assoc)
qed

lemma checkpoint_entries:
  "map (\<lambda>c. (scc_call_id c, record_of_stored_call c)) (checkpoint t) =
   map (\<lambda>(c, r). (c, r\<lparr>ccr_resolution := (if ccr_resolution r = Pending then Pending else Resolved [])\<rparr>)) (pcc_calls t)"
  by (auto simp: checkpoint_def record_of_stored_call_def)

lemma checkpoint_ids: "map scc_call_id (checkpoint t) = map fst (pcc_calls t)"
  by (auto simp: checkpoint_def)

section \<open>Properties\<close>

text \<open>Every table reachable from a new one by registrations, output batches, transfers and charges
  by other holders of the budget is well formed: distinct call ids within capacity, so the unsigned
  capacity subtraction cannot underflow, every queued output has its call's id and kind, a
  synchronous call never holds more than one, and the budget is not exceeded.\<close>

lemma client_calls_reachable_ok:
  assumes "reachable_from table_starts (table_steps es ser) t"
  shows "table_ok t"
  using calls.inv_reachable [OF assms] .

text \<open>An output batch is accepted as a whole or not at all: a rejection returns the batch intact
  and leaves every call and the byte counter as they were, and neither a registration nor a batch
  reaches a panic.\<close>

lemma accept_outputs_atomic:
  assumes "table_ok t"
  shows "(accept_outputs ser batch t = (t', Inl (b, e)) \<longrightarrow> t' = t \<and> b = batch \<and> e \<noteq> CallPanic) \<and>
    (register_calls es reg calls t = (t', Inl e) \<longrightarrow> t' = t \<and> e \<noteq> CallPanic)"
  using assms accept_outputs_err register_calls_err by (auto simp: table_ok_def)

text \<open>C1. Outputs are neither lost, duplicated nor reordered: over any run, the outputs of a call
  handed to canonical context followed by those still queued are those queued at the start followed
  by those of the accepted batches, in order.\<close>

theorem client_outputs_conserved:
  assumes "client_run es ser ops t = (t', rs)"
  shows "taken_log c ops rs @ queued t' c = queued t c @ accepted_log c ops rs"
  using client_run_conserves [OF assms] .

text \<open>A synchronous call is resolved at most once: over any run the accepted batches hold at most
  one output for it, and none when it was resolved before.\<close>

lemma sync_call_resolved_once:
  assumes "synchronous t c" and "client_run es ser ops t = (t', rs)"
  shows "length (accepted_log c ops rs) \<le> acceptable t c"
  using client_run_sync [OF assms] by simp

text \<open>A restored table has the same calls, owners, order and pending calls as the table that was
  checkpointed, and is the same table when every accepted output had been transferred.\<close>

lemma client_calls_roundtrip:
  assumes "table_ok t" and "pcc_response_id t \<noteq> []"
    and "\<forall>(c, r)\<in>set (pcc_calls t). get_agent reg (tk_agent (own_agent_turn (ccr_owner r))) \<noteq> None"
    and "rb_used b + saturating_add OVERHEAD (length (pcc_response_id t)) + stored_calls_bytes es (checkpoint t)
      \<le> min (rb_limit b) USIZE_MAX"
  shows "\<exists>b' t'. restore_table es (pcc_response_id t) (checkpoint t) reg (pcc_max_calls t) b = (b', Inr t') \<and>
    checkpoint t' = checkpoint t \<and> pending_views t' = pending_views t \<and>
    ((\<forall>c r. map_of (pcc_calls t) c = Some r \<longrightarrow> queue r = []) \<longrightarrow> t' = t\<lparr>pcc_budget := b'\<rparr>)"
proof -
  let ?h = "saturating_add OVERHEAD (length (pcc_response_id t))"
  let ?b1 = "b\<lparr>rb_used := rb_used b + ?h\<rparr>"
  let ?t1 = "\<lparr>pcc_response_id = pcc_response_id t, pcc_calls = [], pcc_max_calls = pcc_max_calls t, pcc_budget = ?b1\<rparr>"
  let ?calls = "map (\<lambda>(c, r). (c, r\<lparr>ccr_resolution := (if ccr_resolution r = Pending then Pending else Resolved [])\<rparr>)) (pcc_calls t)"
  have start: "table_with_budget (pcc_response_id t) (pcc_max_calls t) b = (?b1, Inr ?t1)"
    using assms(2,4) by (simp add: table_with_budget_def consume_eq)
  have "\<exists>b'. b' = (pcc_budget ?t1)\<lparr>rb_used := rb_used (pcc_budget ?t1) + stored_calls_bytes es (checkpoint t)\<rparr> \<and>
     restore_calls es reg (checkpoint t) ?t1 = (b', Inr (?t1\<lparr>pcc_budget := b',
          pcc_calls := pcc_calls ?t1 @ map (\<lambda>c. (scc_call_id c, record_of_stored_call c)) (checkpoint t)\<rparr>))"
    using assms(1,3,4)
    by (intro restore_calls_fits) (auto simp: checkpoint_ids table_ok_def, auto simp: checkpoint_def)
  then obtain b' where run: "restore_calls es reg (checkpoint t) ?t1 = (b', Inr (?t1\<lparr>pcc_budget := b', pcc_calls := ?calls\<rparr>))"
    by (auto simp: checkpoint_entries)
  have len: "\<not> length (checkpoint t) > pcc_max_calls t"
    using assms(1) by (simp add: table_ok_def checkpoint_def)
  define t' where "t' = ?t1\<lparr>pcc_budget := b', pcc_calls := ?calls\<rparr>"
  have "checkpoint t' = checkpoint t" by (auto simp: t'_def checkpoint_def)
  moreover have "pending_views t' = pending_views t"
  proof -
    have "map (\<lambda>(c, r). call_view c r) (filter (\<lambda>(_, r). ccr_resolution r = Pending)
        (map (\<lambda>(c, r). (c, r\<lparr>ccr_resolution := (if ccr_resolution r = Pending then Pending else Resolved [])\<rparr>)) m))
      = map (\<lambda>(c, r). call_view c r) (filter (\<lambda>(_, r). ccr_resolution r = Pending) m)" for m
      by (induction m) (auto simp: call_view_def split: if_splits)
    then show ?thesis by (simp add: t'_def pending_views_def)
  qed
  moreover have "t' = t\<lparr>pcc_budget := b'\<rparr>" if empty: "\<forall>c r. map_of (pcc_calls t) c = Some r \<longrightarrow> queue r = []"
  proof -
    have "?calls = pcc_calls t"
    proof (rule map_idI)
      fix e assume e: "e \<in> set (pcc_calls t)"
      obtain c r where cr: "e = (c, r)" by fastforce
      with e assms(1) empty have "queue r = []" by (auto simp: table_ok_def)
      then have "ccr_resolution r = (if ccr_resolution r = Pending then Pending else Resolved [])"
        by (auto simp: queue_def split: resolution.splits)
      then have "r\<lparr>ccr_resolution := (if ccr_resolution r = Pending then Pending else Resolved [])\<rparr> = r"
        by (cases r) simp
      then show "(\<lambda>(c, r). (c, r\<lparr>ccr_resolution := (if ccr_resolution r = Pending then Pending else Resolved [])\<rparr>)) e = e"
        unfolding cr by (simp only: prod.case)
    qed
    then show ?thesis by (simp add: t'_def)
  qed
  ultimately show ?thesis
    using start run len by (intro exI [of _ b'] exI [of _ t']) (simp add: restore_table_def t'_def)
qed


subsection \<open>The properties on a concrete table\<close>

definition sample_owner :: "bool \<Rightarrow> client_call_owner" where
  "sample_owner async_execution =
     \<lparr>own_agent_turn = root_key, own_kind = CkFunction, own_async_execution = async_execution\<rparr>"

definition sample_ser :: "tool_search_output_message serializer" where
  "sample_ser m = ([], True)"

text \<open>A synchronous call \<open>a\<close> and an async call \<open>b\<close> of the root, both pending.\<close>

definition sample_table :: pending_client_calls where
  "sample_table =
     \<lparr>pcc_response_id = ''resp'',
      pcc_calls = [(''a'', \<lparr>ccr_owner = sample_owner False, ccr_resolution = Pending\<rparr>),
                   (''b'', \<lparr>ccr_owner = sample_owner True, ccr_resolution = Pending\<rparr>)],
      pcc_max_calls = 4, pcc_budget = \<lparr>rb_limit = 1000, rb_used = 176\<rparr>\<rparr>"

definition sample_registrations :: "client_call_registration list" where
  "sample_registrations =
     [\<lparr>reg_call_id = ''a'', reg_owner = sample_owner False\<rparr>, \<lparr>reg_call_id = ''b'', reg_owner = sample_owner True\<rparr>]"

definition sample_batch :: "string list \<Rightarrow> client_tool_output_batch" where
  "sample_batch ids =
     \<lparr>bat_response_id = ''resp'', bat_outputs = map (\<lambda>c. CtFunction (sample_function_output c ''42'')) ids\<rparr>"

lemmas client_sample_defs = sample_owner_def sample_ser_def sample_table_def sample_registrations_def sample_batch_def

lemma sample_table_start:
  "table_with_budget ''resp'' 4 (with_limit 1000) =
     (\<lparr>rb_limit = 1000, rb_used = 36\<rparr>, Inr \<lparr>pcc_response_id = ''resp'', pcc_calls = [], pcc_max_calls = 4,
        pcc_budget = \<lparr>rb_limit = 1000, rb_used = 36\<rparr>\<rparr>)"
  by (simp add: table_with_budget_def consume_eq with_limit_def saturating_add_def
      RETAINED_CONTAINER_OVERHEAD_BYTES_def USIZE_MAX_def)

lemma sample_table_registered:
  "register_calls 32 (sample_tree 405) sample_registrations
     \<lparr>pcc_response_id = ''resp'', pcc_calls = [], pcc_max_calls = 4, pcc_budget = \<lparr>rb_limit = 1000, rb_used = 36\<rparr>\<rparr> =
   (sample_table, Inr ())"
  by (simp add: register_calls_def registration_bytes_def get_agent_def view_def consume_eq saturating_add_def
      RETAINED_CONTAINER_OVERHEAD_BYTES_def USIZE_MAX_def client_sample_defs sample_defs)

lemma sample_table_reachable: "reachable_from table_starts (table_steps 32 sample_ser) sample_table"
proof (rule reachable_from.step)
  show "reachable_from table_starts (table_steps 32 sample_ser) \<lparr>pcc_response_id = ''resp'', pcc_calls = [],
      pcc_max_calls = 4, pcc_budget = \<lparr>rb_limit = 1000, rb_used = 36\<rparr>\<rparr>"
    using sample_table_start by (intro reachable_from.start) (auto simp: table_starts_def)
  show "table_steps 32 sample_ser \<lparr>pcc_response_id = ''resp'', pcc_calls = [],
      pcc_max_calls = 4, pcc_budget = \<lparr>rb_limit = 1000, rb_used = 36\<rparr>\<rparr> sample_table"
    unfolding table_steps_def
    by (intro exI [of _ "CoRegister (sample_tree 405) sample_registrations"] exI [of _ CrOk])
      (simp add: sample_table_registered)
qed

lemma sample_table_ok: "table_ok sample_table"
  using calls.inv_reachable [OF sample_table_reachable] .

lemma sample_run:
  "\<exists>t' rs. client_run 32 sample_ser
     [CoAccept (sample_batch [''b'', ''a'', ''b'']), CoTake ''b'', CoAccept (sample_batch [''a''])] sample_table = (t', rs) \<and>
   accepted_log ''b'' [CoAccept (sample_batch [''b'', ''a'', ''b'']), CoTake ''b'', CoAccept (sample_batch [''a''])] rs =
     [CtFunction (sample_function_output ''b'' ''42''), CtFunction (sample_function_output ''b'' ''42'')] \<and>
   taken_log ''b'' [CoAccept (sample_batch [''b'', ''a'', ''b'']), CoTake ''b'', CoAccept (sample_batch [''a''])] rs =
     [CtFunction (sample_function_output ''b'' ''42'')] \<and>
   accepted_log ''a'' [CoAccept (sample_batch [''b'', ''a'', ''b'']), CoTake ''b'', CoAccept (sample_batch [''a''])] rs =
     [CtFunction (sample_function_output ''a'' ''42'')]"
  by (simp add: accept_outputs_def validate_batch_def take_accepted_def client_sample_defs Let_def consume_eq
      retained_function_result_def opt_len_def saturating_add_def RETAINED_CONTAINER_OVERHEAD_BYTES_def USIZE_MAX_def
      im_modify_def push_output_def accepted_log_def taken_log_def outputs_for_def)

theorem client_outputs_conserved_witness:
  "\<exists>t' rs. client_run 32 sample_ser
     [CoAccept (sample_batch [''b'', ''a'', ''b'']), CoTake ''b'', CoAccept (sample_batch [''a''])] sample_table = (t', rs) \<and>
   CtFunction (sample_function_output ''b'' ''42'') # queued t' ''b'' =
     [CtFunction (sample_function_output ''b'' ''42''), CtFunction (sample_function_output ''b'' ''42'')]"
proof -
  let ?ops = "[CoAccept (sample_batch [''b'', ''a'', ''b'']), CoTake ''b'', CoAccept (sample_batch [''a''])]"
  from sample_run obtain t' rs where run: "client_run 32 sample_ser ?ops sample_table = (t', rs)"
    and log: "accepted_log ''b'' ?ops rs =
      [CtFunction (sample_function_output ''b'' ''42''), CtFunction (sample_function_output ''b'' ''42'')]"
      "taken_log ''b'' ?ops rs = [CtFunction (sample_function_output ''b'' ''42'')]" by blast
  have "queued sample_table ''b'' = []" by (simp add: queued_def queue_def sample_table_def)
  with client_outputs_conserved [OF run, of "''b''"] log run show ?thesis by auto
qed

end
