(* ===== verification/Call_Ledger.thy ===== *)
theory Call_Ledger
  imports Items
begin

text \<open>
  The ledger of client-owned calls in an item sequence (\<open>executor/pending_calls.rs\<close>): which
  calls still need an output, how long the prefix is that a compaction may summarise, and the
  stub a pending call is reported with. The scan stops at the first error and drops the ledger,
  so the operations return the new ledger or the error.

  The second half is an independent reading of the same sequence (first call per id, ids with an
  output, open synchronous ids) and the refinement lemma \<open>scan_refines\<close>: a scan that succeeds
  has computed exactly that reading.
\<close>

section \<open>The ledger\<close>

record pending_call =
  pc_call_id :: string
  pc_kind :: client_call_kind
  pc_function_name :: "string option"
  pc_namespaced :: bool
  pc_async_execution :: bool

datatype steering_required_input =
    SriFunction string string
  | SriCustom string
  | SriShell string
  | SriToolSearch string tool_search_execution

definition SHELL_FUNCTION_NAME :: string where
  "SHELL_FUNCTION_NAME = ''shell''"

fun public_kind_of_name :: "string \<Rightarrow> string \<Rightarrow> responses_tool list \<Rightarrow> steering_required_input option" where
  "public_kind_of_name call_id nm [] = None"
| "public_kind_of_name call_id nm (tool # tools) =
     (case tool of
        RtShell _ \<Rightarrow> if nm = SHELL_FUNCTION_NAME then Some (SriShell call_id) else public_kind_of_name call_id nm tools
      | RtCustom declared \<Rightarrow> if ctp_name declared = nm then Some (SriCustom call_id) else public_kind_of_name call_id nm tools
      | _ \<Rightarrow> public_kind_of_name call_id nm tools)"

definition into_steering_required_input ::
  "pending_call \<Rightarrow> responses_tool list \<Rightarrow> pending_call + steering_required_input" where
  "into_steering_required_input call tools =
     (case pc_kind call of
        CkFunction \<Rightarrow>
          (case pc_function_name call of
             None \<Rightarrow> Inl (call\<lparr>pc_function_name := None\<rparr>)
           | Some nm \<Rightarrow>
               (case (if pc_namespaced call then None else public_kind_of_name (pc_call_id call) nm tools) of
                  Some required \<Rightarrow> Inr required
                | None \<Rightarrow> Inr (SriFunction (pc_call_id call) nm)))
      | CkCustom \<Rightarrow> Inr (SriCustom (pc_call_id call))
      | CkShell \<Rightarrow> Inr (SriShell (pc_call_id call))
      | CkToolSearch \<Rightarrow> Inr (SriToolSearch (pc_call_id call) TsClient))"

fun required_call_id :: "steering_required_input \<Rightarrow> string" where
  "required_call_id (SriFunction c _) = c"
| "required_call_id (SriCustom c) = c"
| "required_call_id (SriShell c) = c"
| "required_call_id (SriToolSearch c _) = c"

record call_record =
  cr_kind :: client_call_kind
  cr_function_name :: "string option"
  cr_namespaced :: bool
  cr_async_execution :: bool
  cr_resolved :: bool

record call_ledger =
  cl_calls :: "(string, call_record) index_map"
  cl_unresolved_sync :: nat
  cl_resolved_prefix :: nat

definition empty_ledger :: call_ledger where
  "empty_ledger = \<lparr>cl_calls = [], cl_unresolved_sync = 0, cl_resolved_prefix = 0\<rparr>"

definition add_call ::
  "string \<Rightarrow> client_call_kind \<Rightarrow> bool \<Rightarrow> string option \<Rightarrow> bool \<Rightarrow> call_ledger \<Rightarrow> executor_error + call_ledger" where
  "add_call call_id kind async_execution function_name namespaced ledger =
     (if call_id = [] then Inl (InvalidRequest (call_item_name kind @ '' call_id must not be empty''))
      else if map_of (cl_calls ledger) call_id \<noteq> None then Inr ledger
      else Inr (ledger
        \<lparr>cl_calls := AList.update call_id
           \<lparr>cr_kind = kind, cr_function_name = function_name, cr_namespaced = namespaced,
            cr_async_execution = async_execution, cr_resolved = False\<rparr> (cl_calls ledger),
         cl_unresolved_sync := cl_unresolved_sync ledger + (if async_execution then 0 else 1)\<rparr>))"

definition resolve_call ::
  "string \<Rightarrow> client_call_kind \<Rightarrow> call_ledger \<Rightarrow> executor_error + call_ledger" where
  "resolve_call call_id output_kind ledger =
     (if call_id = [] then Inl (InvalidRequest (output_item_name output_kind @ '' call_id must not be empty''))
      else case map_of (cl_calls ledger) call_id of
        None \<Rightarrow> Inl (ToolErr (TeUnknownCallOutput call_id))
      | Some r \<Rightarrow>
          if cr_kind r \<noteq> output_kind then
            Inl (InvalidRequest (output_item_name output_kind @ '' cannot resolve '' @ call_item_name (cr_kind r)
              @ '' call_id '' @ [CHR 0x27] @ call_id @ [CHR 0x27]))
          else if \<not> cr_resolved r then
            Inr (ledger
              \<lparr>cl_calls := im_modify call_id (\<lambda>r. r\<lparr>cr_resolved := True\<rparr>) (cl_calls ledger),
               cl_unresolved_sync := cl_unresolved_sync ledger - (if cr_async_execution r then 0 else 1)\<rparr>)
          else Inr ledger)"

fun scan_item :: "input_item \<Rightarrow> call_ledger \<Rightarrow> executor_error + call_ledger" where
  "scan_item (IiFunctionCall call) ledger =
     add_call (ifn_call_id call) CkFunction (ifn_async_execution call) (Some (ifn_name call))
       (ifn_namespace call \<noteq> None) ledger"
| "scan_item (IiCustomToolCall call) ledger =
     add_call (ctc_call_id call) CkCustom (ctc_async_execution call) None False ledger"
| "scan_item (IiFunctionCallOutput out) ledger = resolve_call (frm_call_id out) CkFunction ledger"
| "scan_item (IiCustomToolCallOutput out) ledger = resolve_call (com_call_id out) CkCustom ledger"
| "scan_item (IiShellCall call) ledger = add_call (sc_call_id call) CkShell False None False ledger"
| "scan_item (IiShellCallOutput out) ledger = resolve_call (som_call_id out) CkShell ledger"
| "scan_item (IiToolSearchCall call) ledger =
     (case its_call_id call of None \<Rightarrow> Inr ledger | Some c \<Rightarrow> add_call c CkToolSearch False None False ledger)"
| "scan_item (IiToolSearchOutput out) ledger =
     (case tso_call_id out of None \<Rightarrow> Inr ledger | Some c \<Rightarrow> resolve_call c CkToolSearch ledger)"
| "scan_item _ ledger = Inr ledger"

definition mark_prefix :: "nat \<Rightarrow> call_ledger \<Rightarrow> call_ledger" where
  "mark_prefix index ledger =
     (if cl_unresolved_sync ledger = 0 then ledger\<lparr>cl_resolved_prefix := index + 1\<rparr> else ledger)"

fun scan_from :: "nat \<Rightarrow> input_item list \<Rightarrow> call_ledger \<Rightarrow> executor_error + call_ledger" where
  "scan_from index [] ledger = Inr ledger"
| "scan_from index (item # items) ledger =
     (case scan_item item ledger of
        Inl e \<Rightarrow> Inl e
      | Inr ledger' \<Rightarrow> scan_from (Suc index) items (mark_prefix index ledger'))"

definition scan :: "input_item list \<Rightarrow> executor_error + call_ledger" where
  "scan items = scan_from 0 items empty_ledger"

definition awaits_output :: "call_ledger \<Rightarrow> bool" where
  "awaits_output ledger \<longleftrightarrow> cl_unresolved_sync ledger > 0"

definition require_answered :: "call_ledger \<Rightarrow> executor_error + unit" where
  "require_answered ledger =
     (case List.find (\<lambda>(_, r). \<not> cr_resolved r \<and> \<not> cr_async_execution r) (cl_calls ledger) of
        Some (call_id, _) \<Rightarrow> Inl (ToolErr (TeMissingOutput call_id))
      | None \<Rightarrow> Inr ())"

definition resolved_prefix_len :: "call_ledger \<Rightarrow> nat" where
  "resolved_prefix_len ledger = cl_resolved_prefix ledger"

definition pending :: "call_ledger \<Rightarrow> pending_call list" where
  "pending ledger =
     map (\<lambda>(call_id, r). \<lparr>pc_call_id = call_id, pc_kind = cr_kind r, pc_function_name = cr_function_name r,
                           pc_namespaced = cr_namespaced r, pc_async_execution = cr_async_execution r\<rparr>)
       (filter (\<lambda>(_, r). \<not> cr_resolved r) (cl_calls ledger))"

section \<open>The same sequence read directly\<close>

text \<open>The calls and outputs of a sequence, without any running state.\<close>

definition call_ids :: "input_item list \<Rightarrow> string list" where
  "call_ids items = List.map_filter item_call_id items"

definition output_ids :: "input_item list \<Rightarrow> string set" where
  "output_ids items = {c. \<exists>i\<in>set items. output_call_id i = Some c}"

definition first_call :: "input_item list \<Rightarrow> string \<Rightarrow> input_item option" where
  "first_call items c = List.find (\<lambda>i. item_call_id i = Some c) items"

fun first_occurrences :: "'a list \<Rightarrow> 'a list" where
  "first_occurrences [] = []"
| "first_occurrences (x # xs) = x # filter (\<lambda>y. y \<noteq> x) (first_occurrences xs)"

fun call_kind :: "input_item \<Rightarrow> client_call_kind option" where
  "call_kind (IiFunctionCall _) = Some CkFunction"
| "call_kind (IiCustomToolCall _) = Some CkCustom"
| "call_kind (IiShellCall _) = Some CkShell"
| "call_kind (IiToolSearchCall _) = Some CkToolSearch"
| "call_kind _ = None"

fun output_kind :: "input_item \<Rightarrow> client_call_kind option" where
  "output_kind (IiFunctionCallOutput _) = Some CkFunction"
| "output_kind (IiCustomToolCallOutput _) = Some CkCustom"
| "output_kind (IiShellCallOutput _) = Some CkShell"
| "output_kind (IiToolSearchOutput _) = Some CkToolSearch"
| "output_kind _ = None"

text \<open>Synchronous calls with no output: the first call item with an id decides whether the call
  is synchronous.\<close>

definition open_sync :: "input_item list \<Rightarrow> string \<Rightarrow> bool" where
  "open_sync items c \<longleftrightarrow>
     (\<exists>i. first_call items c = Some i \<and> \<not> is_async_call i) \<and> c \<notin> output_ids items"

definition answered :: "input_item list \<Rightarrow> bool" where
  "answered items \<longleftrightarrow> (\<forall>c. \<not> open_sync items c)"

text \<open>When the sequence is one the scan admits: non-empty ids, and each output after a call of its
  own kind.\<close>

definition admissible_at :: "input_item list \<Rightarrow> input_item \<Rightarrow> bool" where
  "admissible_at before i \<longleftrightarrow>
     item_call_id i \<noteq> Some [] \<and>
     (case output_call_id i of
        None \<Rightarrow> True
      | Some c \<Rightarrow> c \<noteq> [] \<and> (\<exists>call. first_call before c = Some call \<and> call_kind call = output_kind i))"

definition admissible :: "input_item list \<Rightarrow> bool" where
  "admissible items \<longleftrightarrow> (\<forall>n<length items. admissible_at (take n items) (items ! n))"


definition call_record_of :: "input_item \<Rightarrow> call_record" where
  "call_record_of i =
     \<lparr>cr_kind = (case call_kind i of Some k \<Rightarrow> k | None \<Rightarrow> CkFunction),
      cr_function_name = (case i of IiFunctionCall call \<Rightarrow> Some (ifn_name call) | _ \<Rightarrow> None),
      cr_namespaced = (case i of IiFunctionCall call \<Rightarrow> ifn_namespace call \<noteq> None | _ \<Rightarrow> False),
      cr_async_execution = is_async_call i, cr_resolved = False\<rparr>"

definition spec_record :: "input_item list \<Rightarrow> string \<Rightarrow> call_record" where
  "spec_record items c =
     (call_record_of (the (first_call items c)))\<lparr>cr_resolved := c \<in> output_ids items\<rparr>"

definition spec_calls :: "input_item list \<Rightarrow> (string, call_record) index_map" where
  "spec_calls items = map (\<lambda>c. (c, spec_record items c)) (first_occurrences (call_ids items))"

definition owed :: "string \<times> call_record \<Rightarrow> bool" where
  "owed entry \<longleftrightarrow> \<not> cr_resolved (snd entry) \<and> \<not> cr_async_execution (snd entry)"

subsection \<open>Facts on the reading\<close>

lemma set_first_occurrences [simp]: "set (first_occurrences xs) = set xs"
  by (induction xs) auto

lemma distinct_first_occurrences [simp]: "distinct (first_occurrences xs)"
  by (induction xs) auto

lemma first_occurrences_snoc:
  "first_occurrences (xs @ [x]) = (if x \<in> set xs then first_occurrences xs else first_occurrences xs @ [x])"
  by (induction xs) (auto simp: filter_append)

lemma call_ids_snoc:
  "call_ids (xs @ [x]) = call_ids xs @ (case item_call_id x of None \<Rightarrow> [] | Some c \<Rightarrow> [c])"
  by (auto simp: call_ids_def List.map_filter_def split: option.splits)

lemma output_ids_snoc:
  "output_ids (xs @ [x]) = (case output_call_id x of None \<Rightarrow> output_ids xs | Some c \<Rightarrow> insert c (output_ids xs))"
  by (auto simp: output_ids_def split: option.splits)

lemma find_snoc:
  "List.find P (xs @ [x]) = (case List.find P xs of None \<Rightarrow> (if P x then Some x else None) | Some y \<Rightarrow> Some y)"
  by (induction xs) auto

lemmas first_call_snoc = find_snoc [where P = "\<lambda>i. item_call_id i = Some c" for c, folded first_call_def]

lemma first_call_None: "first_call xs c = None \<longleftrightarrow> c \<notin> set (call_ids xs)"
  by (auto simp: first_call_def call_ids_def find_None_iff List.map_filter_def image_def)

lemma first_call_Some_id: "first_call xs c = Some i \<Longrightarrow> item_call_id i = Some c"
  by (auto simp: first_call_def find_Some_iff)

lemma map_of_spec_calls:
  "map_of (spec_calls xs) c = (if c \<in> set (call_ids xs) then Some (spec_record xs c) else None)"
  by (simp add: spec_calls_def map_of_map_restrict restrict_map_def)

lemma keys_spec_calls: "map fst (spec_calls xs) = first_occurrences (call_ids xs)"
  by (simp add: spec_calls_def comp_def)

lemma spec_record_simps [simp]:
  "cr_resolved (spec_record xs c) \<longleftrightarrow> c \<in> output_ids xs"
  "cr_async_execution (spec_record xs c) = is_async_call (the (first_call xs c))"
  by (simp_all add: spec_record_def call_record_of_def)

lemma spec_record_kind:
  "first_call xs c = Some call \<Longrightarrow> Some (cr_kind (spec_record xs c)) = call_kind call"
  using first_call_Some_id [of xs c call]
  by (cases call) (auto simp: spec_record_def call_record_of_def)

lemma scan_item_call:
  "item_call_id i = Some c \<Longrightarrow>
   scan_item i l = add_call c (cr_kind (call_record_of i)) (is_async_call i)
     (cr_function_name (call_record_of i)) (cr_namespaced (call_record_of i)) l"
  by (cases i) (auto simp: call_record_of_def)

lemma scan_item_output:
  "output_call_id i = Some c \<Longrightarrow> \<exists>k. output_kind i = Some k \<and> scan_item i l = resolve_call c k l"
  by (cases i) auto

lemma scan_item_other:
  "item_call_id i = None \<Longrightarrow> output_call_id i = None \<Longrightarrow> scan_item i l = Inr l"
  by (cases i) auto

lemma call_record_of_fresh:
  "\<lparr>cr_kind = cr_kind (call_record_of i), cr_function_name = cr_function_name (call_record_of i),
    cr_namespaced = cr_namespaced (call_record_of i), cr_async_execution = is_async_call i,
    cr_resolved = False\<rparr> = call_record_of i"
  by (simp add: call_record_of_def)

lemma scan_from_snoc:
  "scan_from n (xs @ [x]) l =
     (case scan_from n xs l of
        Inl e \<Rightarrow> Inl e
      | Inr l' \<Rightarrow> (case scan_item x l' of Inl e \<Rightarrow> Inl e | Inr l'' \<Rightarrow> Inr (mark_prefix (n + length xs) l'')))"
  by (induction xs arbitrary: n l) (auto split: sum.splits)

lemma scan_snoc:
  "scan (xs @ [x]) =
     (case scan xs of
        Inl e \<Rightarrow> Inl e
      | Inr l \<Rightarrow> (case scan_item x l of Inl e \<Rightarrow> Inl e | Inr l' \<Rightarrow> Inr (mark_prefix (length xs) l')))"
  by (simp add: scan_def scan_from_snoc split: sum.splits)

lemma admissible_snoc: "admissible (xs @ [x]) \<longleftrightarrow> admissible xs \<and> admissible_at xs x"
  by (auto simp: admissible_def nth_append less_Suc_eq all_conj_distrib)

lemma answered_spec: "answered xs \<longleftrightarrow> filter owed (spec_calls xs) = []"
proof -
  have "(\<exists>c. open_sync xs c) \<longleftrightarrow> (\<exists>e\<in>set (spec_calls xs). owed e)"
    unfolding open_sync_def owed_def spec_calls_def
    by (auto simp: first_call_None [symmetric])
      (metis not_None_eq first_call_None option.sel)+
  then show ?thesis by (auto simp: answered_def filter_empty_conv)
qed


subsection \<open>The scan refines the reading\<close>

lemma spec_calls_other:
  assumes "item_call_id x = None" and "output_call_id x = None"
  shows "spec_calls (xs @ [x]) = spec_calls xs"
  using assms by (simp add: spec_calls_def spec_record_def call_ids_snoc output_ids_snoc first_call_snoc
      split: option.splits cong: map_cong)

lemma first_call_snoc_old: "c \<in> set (call_ids xs) \<Longrightarrow> first_call (xs @ [x]) c = first_call xs c"
  using first_call_None [of xs c] by (auto simp: first_call_snoc split: option.splits)

lemma spec_calls_repeat:
  assumes "item_call_id x = Some c" and "c \<in> set (call_ids xs)"
  shows "spec_calls (xs @ [x]) = spec_calls xs"
  using assms item_call_id_not_output [OF assms(1)]
  by (auto simp: spec_calls_def spec_record_def call_ids_snoc output_ids_snoc first_occurrences_snoc
      first_call_snoc_old)

lemma spec_calls_new:
  assumes "item_call_id x = Some c" and "c \<notin> set (call_ids xs)" and "output_ids xs \<subseteq> set (call_ids xs)"
  shows "spec_calls (xs @ [x]) = spec_calls xs @ [(c, call_record_of x)]"
proof -
  have "first_call (xs @ [x]) c = Some x"
    using assms(1,2) first_call_None [of xs c] by (simp add: first_call_snoc)
  with assms item_call_id_not_output [OF assms(1)] show ?thesis
    by (auto simp: spec_calls_def spec_record_def call_ids_snoc output_ids_snoc first_occurrences_snoc
        first_call_snoc_old call_record_of_def)
qed

lemma spec_calls_output:
  assumes "output_call_id x = Some c"
  shows "spec_calls (xs @ [x]) = im_modify c (\<lambda>r. r\<lparr>cr_resolved := True\<rparr>) (spec_calls xs)"
proof -
  have none: "item_call_id x = None"
    using assms item_call_id_not_output by (cases "item_call_id x") auto
  show ?thesis
    using assms none
    by (auto simp: spec_calls_def im_modify_map_entries spec_record_def call_ids_snoc output_ids_snoc
        first_call_snoc_old)
qed

definition longest_answered_prefix :: "input_item list \<Rightarrow> nat" where
  "longest_answered_prefix items = Max {n. n \<le> length items \<and> answered (take n items)}"

lemma answered_Nil [simp]: "answered []"
  by (simp add: answered_def open_sync_def first_call_def)

lemma longest_answered_prefix_snoc:
  "longest_answered_prefix (xs @ [x]) =
     (if answered (xs @ [x]) then Suc (length xs) else longest_answered_prefix xs)"
proof -
  let ?S = "{n. n \<le> length xs \<and> answered (take n xs)}"
  have split: "{n. n \<le> length (xs @ [x]) \<and> answered (take n (xs @ [x]))} =
    ?S \<union> (if answered (xs @ [x]) then {Suc (length xs)} else {})"
    by (auto simp: le_Suc_eq)
  have fin: "finite ?S" and "0 \<in> ?S" by auto
  then have "Max (insert (Suc (length xs)) ?S) = Suc (length xs)"
    by (intro Max_eqI) auto
  with split show ?thesis by (auto simp: longest_answered_prefix_def)
qed

definition ledger_reads :: "input_item list \<Rightarrow> call_ledger \<Rightarrow> bool" where
  "ledger_reads items l \<longleftrightarrow>
     cl_calls l = spec_calls items \<and>
     cl_unresolved_sync l = length (filter owed (spec_calls items)) \<and>
     output_ids items \<subseteq> set (call_ids items)"

lemma unresolved_sync_zero: "ledger_reads xs l \<Longrightarrow> cl_unresolved_sync l = 0 \<longleftrightarrow> answered xs"
  by (simp add: ledger_reads_def answered_spec)

lemma scan_item_call_reads:
  assumes reads: "ledger_reads xs l" and call: "item_call_id x = Some c"
  shows "if c = [] then \<exists>e. scan_item x l = Inl e
    else \<exists>l'. scan_item x l = Inr l' \<and> ledger_reads (xs @ [x]) l' \<and> cl_resolved_prefix l' = cl_resolved_prefix l"
proof (cases "c = [] \<or> c \<in> set (call_ids xs)")
  case True
  with reads call spec_calls_repeat [OF call] item_call_id_not_output [OF call] show ?thesis
    by (auto simp: scan_item_call add_call_def ledger_reads_def map_of_spec_calls call_ids_snoc output_ids_snoc)
next
  case False
  with reads have "map_of (cl_calls l) c = None"
    by (simp add: ledger_reads_def map_of_spec_calls)
  with False reads call spec_calls_new [OF call] item_call_id_not_output [OF call] show ?thesis
    by (auto simp: scan_item_call add_call_def ledger_reads_def call_ids_snoc output_ids_snoc
        alist_update_fresh call_record_of_fresh owed_def call_record_of_def)
qed

lemma scan_item_output_reads:
  assumes reads: "ledger_reads xs l" and out: "output_call_id x = Some c"
  shows "if admissible_at xs x
    then \<exists>l'. scan_item x l = Inr l' \<and> ledger_reads (xs @ [x]) l' \<and> cl_resolved_prefix l' = cl_resolved_prefix l
    else \<exists>e. scan_item x l = Inl e"
proof -
  from scan_item_output [OF out] obtain k where k: "output_kind x = Some k" "scan_item x l = resolve_call c k l"
    by blast
  have none: "item_call_id x = None"
    using out item_call_id_not_output by (cases "item_call_id x") auto
  have calls: "cl_calls l = spec_calls xs" using reads by (simp add: ledger_reads_def)
  show ?thesis
  proof (cases "c \<noteq> [] \<and> (\<exists>call. first_call xs c = Some call \<and> call_kind call = Some k)")
    case False
    with k out none calls show ?thesis
      using spec_record_kind [of xs c] first_call_None [of xs c]
      by (auto simp: admissible_at_def resolve_call_def map_of_spec_calls split: option.splits)
  next
    case True
    then obtain call where first: "first_call xs c = Some call" "call_kind call = Some k" by blast
    then have lookup: "map_of (spec_calls xs) c = Some (spec_record xs c)" and mem: "c \<in> set (call_ids xs)"
      using first_call_None [of xs c] by (auto simp: map_of_spec_calls)
    have kind: "cr_kind (spec_record xs c) = k" using spec_record_kind [OF first(1)] first(2) by simp
    have same: "im_modify c (\<lambda>r. r\<lparr>cr_resolved := True\<rparr>) (spec_calls xs) = spec_calls xs" if "c \<in> output_ids xs"
      using that by (auto simp: spec_calls_def im_modify_map_entries spec_record_def)
    have count: "length (filter owed (im_modify c (\<lambda>r. r\<lparr>cr_resolved := True\<rparr>) (spec_calls xs)))
        + (if owed (c, spec_record xs c) then 1 else 0) = length (filter owed (spec_calls xs))"
      using im_count_modify [of "spec_calls xs" c "spec_record xs c" owed "\<lambda>r. r\<lparr>cr_resolved := True\<rparr>"] lookup
      by (simp add: keys_spec_calls owed_def)
    show ?thesis
      using True k out none reads lookup kind mem count same spec_calls_output [OF out, of xs] first
      by (auto simp: admissible_at_def resolve_call_def ledger_reads_def call_ids_snoc output_ids_snoc owed_def)
  qed
qed

lemma scan_item_reads:
  assumes "ledger_reads xs l"
  shows "if admissible_at xs x
    then \<exists>l'. scan_item x l = Inr l' \<and> ledger_reads (xs @ [x]) l' \<and> cl_resolved_prefix l' = cl_resolved_prefix l
    else \<exists>e. scan_item x l = Inl e"
proof (cases "item_call_id x")
  case (Some c)
  with scan_item_call_reads [OF assms Some] item_call_id_not_output [OF Some] show ?thesis
    by (simp add: admissible_at_def)
next
  case none: None
  show ?thesis
  proof (cases "output_call_id x")
    case (Some c)
    then show ?thesis by (rule scan_item_output_reads [OF assms])
  next
    case None
    with none assms spec_calls_other [OF none None] show ?thesis
      by (auto simp: scan_item_other admissible_at_def ledger_reads_def call_ids_snoc output_ids_snoc)
  qed
qed

lemma scan_refines:
  "if admissible items
   then \<exists>l. scan items = Inr l \<and> ledger_reads items l \<and> cl_resolved_prefix l = longest_answered_prefix items
   else \<exists>e. scan items = Inl e"
proof (induction items rule: rev_induct)
  case Nil
  have "longest_answered_prefix [] = 0" by (simp add: longest_answered_prefix_def)
  then show ?case
    by (auto simp: admissible_def scan_def empty_ledger_def ledger_reads_def spec_calls_def call_ids_def
        output_ids_def List.map_filter_def)
next
  case (snoc x xs)
  show ?case
  proof (cases "admissible xs")
    case False
    with snoc show ?thesis by (auto simp: admissible_snoc scan_snoc)
  next
    case True
    with snoc obtain l where l: "scan xs = Inr l" "ledger_reads xs l"
      "cl_resolved_prefix l = longest_answered_prefix xs" by auto
    from scan_item_reads [OF l(2), of x] True l show ?thesis
      by (auto simp: admissible_snoc scan_snoc mark_prefix_def longest_answered_prefix_snoc unresolved_sync_zero
          ledger_reads_def answered_spec split: if_splits)
  qed
qed


lemma scan_reads:
  assumes "scan items = Inr l"
  shows "ledger_reads items l" and "cl_resolved_prefix l = longest_answered_prefix items"
  using scan_refines [of items] assms by (auto split: if_splits)

lemma longest_answered_prefix_max:
  "longest_answered_prefix items \<le> length items"
  "answered (take (longest_answered_prefix items) items)"
  "m \<le> length items \<Longrightarrow> answered (take m items) \<Longrightarrow> m \<le> longest_answered_prefix items"
proof -
  let ?S = "{n. n \<le> length items \<and> answered (take n items)}"
  have fin: "finite ?S" and ne: "?S \<noteq> {}" by (auto intro: exI [of _ 0])
  show "longest_answered_prefix items \<le> length items" "answered (take (longest_answered_prefix items) items)"
    using Max_in [OF fin ne] by (auto simp: longest_answered_prefix_def)
  show "m \<le> length items \<Longrightarrow> answered (take m items) \<Longrightarrow> m \<le> longest_answered_prefix items"
    using fin by (auto simp: longest_answered_prefix_def)
qed

lemma find_owed: "List.find (\<lambda>(_, r). \<not> cr_resolved r \<and> \<not> cr_async_execution r) m = List.find owed m"
  by (rule arg_cong [of _ _ "\<lambda>P. List.find P m"]) (auto simp: owed_def fun_eq_iff)

lemma owed_spec: "(c, spec_record xs c) \<in> set (spec_calls xs) \<Longrightarrow> owed (c, spec_record xs c) \<longleftrightarrow> open_sync xs c"
  using first_call_None [of xs c]
  by (auto simp: owed_def open_sync_def spec_calls_def)

lemma find_map_entry:
  "List.find P (map (\<lambda>c. (c, f c)) cs) = map_option (\<lambda>c. (c, f c)) (List.find (\<lambda>c. P (c, f c)) cs)"
  by (induction cs) auto

lemma find_owed_spec:
  "List.find owed (spec_calls xs) =
   map_option (\<lambda>c. (c, spec_record xs c)) (List.find (open_sync xs) (first_occurrences (call_ids xs)))"
proof -
  have "List.find owed (spec_calls xs) = map_option (\<lambda>c. (c, spec_record xs c))
      (List.find (\<lambda>c. owed (c, spec_record xs c)) (first_occurrences (call_ids xs)))"
    by (simp add: spec_calls_def find_map_entry)
  also have "List.find (\<lambda>c. owed (c, spec_record xs c)) (first_occurrences (call_ids xs)) =
      List.find (open_sync xs) (first_occurrences (call_ids xs))"
    by (rule find_cong) (auto simp: owed_spec spec_calls_def)
  finally show ?thesis .
qed

lemma pending_entry:
  "p \<in> set (pending l) \<Longrightarrow>
   \<exists>r. (pc_call_id p, r) \<in> set (cl_calls l) \<and> pc_kind p = cr_kind r \<and> pc_function_name p = cr_function_name r \<and>
     pc_namespaced p = cr_namespaced r \<and> pc_async_execution p = cr_async_execution r"
  by (auto simp: pending_def)

section \<open>Properties\<close>

text \<open>C18. The scan accepts exactly the sequences in which every call and output id is non-empty and
  every output answers an earlier call of its own kind; the first call item with an id fixes the kind.\<close>

theorem scan_accepts_iff: "is_ok (scan items) \<longleftrightarrow> admissible items"
  using scan_refines [of items] by (auto split: if_splits)

text \<open>After a successful scan the pending calls are, in the order of first emission and each
  once, the call ids of the sequence that no output in it names.\<close>

lemma scan_pending:
  assumes "scan items = Inr l"
  shows "map pc_call_id (pending l) =
    filter (\<lambda>c. c \<notin> output_ids items) (first_occurrences (call_ids items))"
  using scan_reads(1) [OF assms]
  by (simp add: pending_def ledger_reads_def spec_calls_def filter_map comp_def case_prod_beta')

text \<open>The resolved prefix is the longest prefix whose synchronous calls are all answered
  inside it, so a compaction that summarises it never separates a synchronous call from its output.\<close>

lemma scan_resolved_prefix:
  assumes "scan items = Inr l"
  shows "resolved_prefix_len l \<le> length items \<and> answered (take (resolved_prefix_len l) items) \<and>
    (\<forall>m\<le>length items. answered (take m items) \<longrightarrow> m \<le> resolved_prefix_len l)"
  using scan_reads(2) [OF assms] longest_answered_prefix_max
  by (simp add: resolved_prefix_len_def)

text \<open>The two checks on open synchronous calls agree with the sequence: \<open>awaits_output\<close>
  is true, and \<open>require_answered\<close> fails, exactly when a synchronous call has no output, and the
  error names the first such call in emission order.\<close>

lemma scan_open_sync:
  assumes "scan items = Inr l"
  shows "(awaits_output l \<longleftrightarrow> (\<exists>c. open_sync items c)) \<and>
    require_answered l =
      (case List.find (open_sync items) (first_occurrences (call_ids items)) of
         None \<Rightarrow> Inr ()
       | Some c \<Rightarrow> Inl (ToolErr (TeMissingOutput c)))"
proof -
  have reads: "ledger_reads items l" using scan_reads(1) [OF assms] .
  have "awaits_output l \<longleftrightarrow> (\<exists>c. open_sync items c)"
    using unresolved_sync_zero [OF reads] by (auto simp: awaits_output_def answered_def)
  moreover have "cl_calls l = spec_calls items" using reads by (simp add: ledger_reads_def)
  ultimately show ?thesis
    by (simp add: require_answered_def find_owed find_owed_spec split: option.splits)
qed

lemma public_kind_call_id: "public_kind_of_name c nm tools = Some r \<Longrightarrow> required_call_id r = c"
  by (induction tools) (auto split: responses_tool.splits if_splits)

lemma spec_record_function_name:
  "c \<in> set (call_ids xs) \<Longrightarrow> cr_kind (spec_record xs c) = CkFunction \<Longrightarrow> \<exists>nm. cr_function_name (spec_record xs c) = Some nm"
  using first_call_Some_id [of xs c] first_call_None [of xs c]
  by (cases "first_call xs c")
    (auto simp: spec_record_def call_record_of_def split: option.splits input_item.splits elim: item_call_id.elims)

lemma pending_function_name:
  assumes "scan items = Inr l" and "p \<in> set (pending l)" and "pc_kind p = CkFunction"
  shows "\<exists>nm. pc_function_name p = Some nm"
proof -
  from pending_entry [OF assms(2)] obtain r where r: "(pc_call_id p, r) \<in> set (cl_calls l)"
    "pc_kind p = cr_kind r" "pc_function_name p = cr_function_name r" by blast
  with scan_reads(1) [OF assms(1)] have "r = spec_record items (pc_call_id p)" "pc_call_id p \<in> set (call_ids items)"
    by (auto simp: ledger_reads_def spec_calls_def)
  with r assms(3) spec_record_function_name show ?thesis by simp
qed

text \<open>Every call a scan leaves pending has a steering stub: the stub names the call's own id,
  and a namespaced function call stays a function whatever custom or shell tools are declared.\<close>

lemma pending_has_steering_stub:
  assumes "scan items = Inr l" and "p \<in> set (pending l)"
  shows "\<exists>r. into_steering_required_input p tools = Inr r \<and> required_call_id r = pc_call_id p \<and>
    (pc_kind p = CkFunction \<and> pc_namespaced p \<longrightarrow> (\<exists>nm. r = SriFunction (pc_call_id p) nm))"
  using pending_function_name [OF assms]
  by (cases "pc_kind p")
    (auto simp: into_steering_required_input_def dest: public_kind_call_id split: option.splits if_splits)


subsection \<open>The properties on a concrete history\<close>

text \<open>A user message, an asynchronous call left open, a synchronous call and its output, and a
  second synchronous call left open.\<close>

definition sample_history :: "input_item list" where
  "sample_history =
     [sample_user_message ''hi'', sample_function_call ''a'' True, sample_function_call ''b'' False,
      IiFunctionCallOutput (sample_function_output ''b'' ''42''), sample_function_call ''c'' False]"

definition sample_ledger :: call_ledger where
  "sample_ledger = (case scan sample_history of Inr l \<Rightarrow> l | Inl _ \<Rightarrow> empty_ledger)"

lemma scan_sample_history: "scan sample_history = Inr sample_ledger"
  by (simp add: sample_ledger_def sample_history_def scan_def empty_ledger_def add_call_def resolve_call_def
      mark_prefix_def im_modify_def)

lemma call_ids_sample: "call_ids sample_history = [''a'', ''b'', ''c'']"
  by (simp add: sample_history_def call_ids_def List.map_filter_def)

lemma output_ids_sample: "output_ids sample_history = {''b''}"
  by (auto simp: sample_history_def output_ids_def)

lemma pending_sample:
  "pending sample_ledger =
     [\<lparr>pc_call_id = ''a'', pc_kind = CkFunction, pc_function_name = Some ''lookup'', pc_namespaced = False,
       pc_async_execution = True\<rparr>,
      \<lparr>pc_call_id = ''c'', pc_kind = CkFunction, pc_function_name = Some ''lookup'', pc_namespaced = False,
       pc_async_execution = False\<rparr>]"
  by (simp add: sample_ledger_def sample_history_def scan_def empty_ledger_def add_call_def resolve_call_def
      mark_prefix_def im_modify_def pending_def)

end
