(* ===== verification/Tree_Checkpoint.thy ===== *)
theory Tree_Checkpoint
  imports Client_Calls Call_Ledger
begin

text \<open>
  The validation of a stored agent tree before any live state is built from it
  (\<open>executor/multi_agent/checkpoint.rs\<close>). It spans three components: the registry restores the
  agents, the client-call table restores the ownership records, and the call ledger reads each
  agent's history; the properties state what the validation guarantees to all three. \<open>ser\<close> is the
  serializer that measures the snapshot.
\<close>

section \<open>Validation\<close>

record multi_agent_config =
  cfg_enabled :: bool
  cfg_max_concurrent_subagents :: "nat option"

record stored_tree_snapshot =
  snap_version :: nat
  snap_config :: multi_agent_config
  snap_agents :: "stored_agent list"
  snap_client_calls :: "stored_client_call list"

record checkpoint_limits =
  cpl_max_agents :: nat
  cpl_max_mailbox_messages :: nat
  cpl_max_client_calls :: nat
  cpl_max_bytes :: nat

definition for_response :: "nat \<Rightarrow> checkpoint_limits" where
  "for_response max_bytes =
     \<lparr>cpl_max_agents = 1024, cpl_max_mailbox_messages = 1024, cpl_max_client_calls = 4096, cpl_max_bytes = max_bytes\<rparr>"

definition invalid :: "string \<Rightarrow> executor_error" where
  "invalid message = InvalidRequest message"

type_synonym unresolved_calls = "(agent_identity \<times> string, client_call_kind) index_map"

definition parent_reference_ok :: "stored_agent \<Rightarrow> agent_identity set \<Rightarrow> bool" where
  "parent_reference_ok agent seen =
     (case sa_parent agent of
        None \<Rightarrow> seen = {} \<and> is_root (sa_identity agent)
      | Some parent \<Rightarrow>
          parent \<in> seen \<and>
          (case rsplit_once_slash (sa_identity agent) of None \<Rightarrow> False | Some (path, _) \<Rightarrow> path = parent))"

fun is_wait_call :: "string \<Rightarrow> input_item \<Rightarrow> bool" where
  "is_wait_call c (IiFunctionCall call) = (ifn_call_id call = c \<and> ifn_name call = ''wait_agent'')"
| "is_wait_call c _ = False"

definition wait_matches :: "stored_agent \<Rightarrow> pending_call list \<Rightarrow> bool" where
  "wait_matches agent calls =
     (case sa_wait agent of
        None \<Rightarrow> True
      | Some w \<Rightarrow>
          list_ex (\<lambda>call. pc_call_id call = saw_call_id w) calls \<and>
          list_ex (is_wait_call (saw_call_id w)) (sa_history agent))"

definition is_wait_of :: "stored_agent \<Rightarrow> string \<Rightarrow> bool" where
  "is_wait_of agent c = (case sa_wait agent of None \<Rightarrow> False | Some w \<Rightarrow> saw_call_id w = c)"

fun note_unresolved :: "stored_agent \<Rightarrow> pending_call list \<Rightarrow> unresolved_calls \<Rightarrow> unresolved_calls" where
  "note_unresolved agent [] unresolved = unresolved"
| "note_unresolved agent (call # calls) unresolved =
     note_unresolved agent calls
       (if is_wait_of agent (pc_call_id call) then unresolved
        else AList.update (sa_identity agent, pc_call_id call) (pc_kind call) unresolved)"

fun check_agents ::
  "checkpoint_limits \<Rightarrow> stored_agent list \<Rightarrow> agent_identity set \<Rightarrow> unresolved_calls \<Rightarrow>
   executor_error + agent_identity set \<times> unresolved_calls" where
  "check_agents limits [] seen unresolved = Inr (seen, unresolved)"
| "check_agents limits (agent # ags) seen unresolved =
     (if sa_identity agent \<in> seen \<or> length (sa_mailbox agent) > cpl_max_mailbox_messages limits
      then Inl (invalid ''duplicate agent or oversized mailbox'')
      else if \<not> parent_reference_ok agent seen then Inl (invalid ''invalid checkpoint parent reference'')
      else if live_state (sa_state agent) then Inl (invalid ''checkpoint contains live work'')
      else case scan (sa_history agent) of
        Inl e \<Rightarrow> Inl e
      | Inr ledger \<Rightarrow>
          if \<not> wait_matches agent (pending ledger)
          then Inl (invalid ''checkpoint wait has no matching collaboration call'')
          else check_agents limits ags (insert (sa_identity agent) seen)
                 (note_unresolved agent (pending ledger) unresolved))"

fun check_client_calls ::
  "agent_identity set \<Rightarrow> stored_client_call list \<Rightarrow> string set \<Rightarrow> unresolved_calls \<Rightarrow> executor_error + unresolved_calls" where
  "check_client_calls known [] ids unresolved = Inr unresolved"
| "check_client_calls known (call # calls) ids unresolved =
     (if scc_call_id call \<in> ids \<or> tk_agent (own_agent_turn (scc_owner call)) \<notin> known
      then Inl (invalid ''duplicate client call or unknown owner'')
      else let key = (tk_agent (own_agent_turn (scc_owner call)), scc_call_id call);
               kind = map_of unresolved key
           in if (\<not> scc_resolved call \<and> kind \<noteq> Some (own_kind (scc_owner call))) \<or> (scc_resolved call \<and> kind \<noteq> None)
              then Inl (invalid ''client-call checkpoint disagrees with canonical history'')
              else check_client_calls known calls (insert (scc_call_id call) ids) (AList.delete key unresolved))"

definition from_stored ::
  "stored_tree_snapshot serializer \<Rightarrow> stored_tree_snapshot \<Rightarrow> checkpoint_limits \<Rightarrow> executor_error + stored_tree_snapshot" where
  "from_stored ser snapshot limits =
     (if snap_version snapshot \<noteq> 1 \<or> \<not> cfg_enabled (snap_config snapshot) \<or>
         cfg_max_concurrent_subagents (snap_config snapshot) = Some 0
      then Inl (invalid ''unsupported checkpoint version or configuration'')
      else if snap_agents snapshot = [] \<or> length (snap_agents snapshot) > cpl_max_agents limits \<or>
         length (snap_client_calls snapshot) > cpl_max_client_calls limits
      then Inl (invalid ''checkpoint exceeds retention limits'')
      else case serialized_size_up_to ser snapshot (cpl_max_bytes limits) of
        Inl e \<Rightarrow> Inl e
      | Inr None \<Rightarrow> Inl (invalid ''checkpoint exceeds retention limits'')
      | Inr (Some _) \<Rightarrow>
          (case check_agents limits (snap_agents snapshot) {} [] of
             Inl e \<Rightarrow> Inl e
           | Inr (known, unresolved) \<Rightarrow>
               if list_ex (\<lambda>agent. list_ex (\<lambda>mail. tk_agent (mail_sender mail) \<notin> known) (sa_mailbox agent))
                    (snap_agents snapshot)
               then Inl (invalid ''checkpoint mail has an unknown sender'')
               else case check_client_calls known (snap_client_calls snapshot) {} unresolved of
                 Inl e \<Rightarrow> Inl e
               | Inr rest \<Rightarrow>
                   if rest \<noteq> [] then Inl (invalid ''unresolved call has no ownership record'')
                   else Inr snapshot))"

section \<open>Lemmas\<close>

lemma check_agents_ok:
  "check_agents limits ags seen unresolved = Inr (known, rest) \<Longrightarrow>
   known = seen \<union> set (map sa_identity ags) \<and> distinct (map sa_identity ags) \<and>
   seen \<inter> set (map sa_identity ags) = {} \<and>
   (\<forall>a\<in>set ags. length (sa_mailbox a) \<le> cpl_max_mailbox_messages limits \<and> \<not> live_state (sa_state a) \<and>
      (\<exists>l. scan (sa_history a) = Inr l \<and> wait_matches a (pending l)))"
proof (induction ags arbitrary: seen unresolved)
  case (Cons a ags)
  from Cons.prems obtain l where l: "scan (sa_history a) = Inr l" "wait_matches a (pending l)"
    "sa_identity a \<notin> seen" "length (sa_mailbox a) \<le> cpl_max_mailbox_messages limits" "\<not> live_state (sa_state a)"
    "check_agents limits ags (insert (sa_identity a) seen) (note_unresolved a (pending l) unresolved) = Inr (known, rest)"
    by (auto split: if_splits sum.splits)
  from Cons.IH [OF l(6)] l show ?case by auto
qed simp

lemma check_agents_order:
  "check_agents limits ags (set seen) unresolved = Inr r \<Longrightarrow> tree_order seen (map stored_entry ags)"
proof (induction ags arbitrary: seen unresolved)
  case (Cons a ags)
  from Cons.prems obtain u where rest: "check_agents limits ags (insert (sa_identity a) (set seen)) u = Inr r"
    and a: "sa_identity a \<notin> set seen" "parent_reference_ok a (set seen)"
    by (auto split: if_splits sum.splits)
  from rest have "check_agents limits ags (set (seen @ [sa_identity a])) u = Inr r" by simp
  from Cons.IH [OF this] have order: "tree_order (seen @ [sa_identity a]) (map stored_entry ags)" .
  have entry: "stored_entry a = (sa_identity a, record_of_stored a)" "ar_parent (record_of_stored a) = sa_parent a"
    by (simp_all add: stored_entry_def record_of_stored_def)
  show ?case
  proof (cases "sa_parent a")
    case None
    with order a show ?thesis by (simp add: entry parent_reference_ok_def)
  next
    case (Some p)
    with a have "p \<in> set seen" "map_option fst (rsplit_once_slash (sa_identity a)) = Some p"
      by (auto simp: parent_reference_ok_def split: option.splits)
    moreover from this a have "sa_identity a \<noteq> p" by blast
    ultimately show ?thesis using order Some by (simp add: entry)
  qed
qed simp

lemma map_of_note_unresolved:
  assumes "distinct (map pc_call_id calls)"
  shows "map_of (note_unresolved a calls unresolved) (i, c) =
    (if i = sa_identity a \<and> \<not> is_wait_of a c \<and> c \<in> set (map pc_call_id calls)
     then map_option pc_kind (List.find (\<lambda>p. pc_call_id p = c) calls) else map_of unresolved (i, c))"
  using assms
proof (induction calls arbitrary: unresolved)
  case (Cons p calls)
  have "List.find (\<lambda>q. pc_call_id q = pc_call_id p) calls = None"
    using Cons.prems unfolding find_None_iff by (simp add: image_iff) metis
  with Cons show ?case by (auto simp: im_get_put)
qed simp

text \<open>The calls an agent's history leaves open, the collaboration wait excepted.\<close>

definition open_client_call :: "stored_agent \<Rightarrow> string \<Rightarrow> client_call_kind \<Rightarrow> bool" where
  "open_client_call agent c k \<longleftrightarrow>
     \<not> is_wait_of agent c \<and>
     (\<exists>l. scan (sa_history agent) = Inr l \<and> (\<exists>p\<in>set (pending l). pc_call_id p = c \<and> pc_kind p = k))"

lemma pending_distinct: "scan items = Inr l \<Longrightarrow> distinct (map pc_call_id (pending l))"
proof -
  assume "scan items = Inr l"
  then have "cl_calls l = spec_calls items" using scan_reads(1) by (simp add: ledger_reads_def)
  then have "map pc_call_id (pending l) = map fst (filter (\<lambda>(_, r). \<not> cr_resolved r) (spec_calls items))"
    by (simp add: pending_def comp_def case_prod_beta')
  moreover have "distinct (map fst (spec_calls items))" by (simp add: keys_spec_calls)
  ultimately show ?thesis by (simp add: distinct_map_filter)
qed

lemma find_unique:
  "distinct (map f xs) \<Longrightarrow> List.find (\<lambda>x. f x = c) xs = Some x \<longleftrightarrow> x \<in> set xs \<and> f x = c"
  by (induction xs) (auto simp: inj_on_def)

lemma check_agents_unresolved:
  "check_agents limits ags seen unresolved = Inr (known, rest) \<Longrightarrow>
   (\<forall>i c. map_of unresolved (i, c) \<noteq> None \<longrightarrow> i \<in> seen) \<Longrightarrow>
   map_of rest (i, c) = Some k \<longleftrightarrow>
     map_of unresolved (i, c) = Some k \<or> (\<exists>a\<in>set ags. sa_identity a = i \<and> open_client_call a c k)"
proof (induction ags arbitrary: seen unresolved)
  case (Cons a ags)
  from Cons.prems(1) obtain l where l: "scan (sa_history a) = Inr l" "sa_identity a \<notin> seen"
    "check_agents limits ags (insert (sa_identity a) seen) (note_unresolved a (pending l) unresolved) = Inr (known, rest)"
    by (auto split: if_splits sum.splits)
  note look = map_of_note_unresolved [OF pending_distinct [OF l(1)]]
  have absent: "map_of unresolved (sa_identity a, c) = None" for c using Cons.prems(2) l(2) by blast
  have own: "map_of (note_unresolved a (pending l) unresolved) (i, c) = Some k \<longleftrightarrow>
    map_of unresolved (i, c) = Some k \<or> (sa_identity a = i \<and> open_client_call a c k)"
  proof (cases "i = sa_identity a")
    case True
    then show ?thesis
      using l(1) absent [of c] find_unique [OF pending_distinct [OF l(1)], of c]
      by (auto simp: look open_client_call_def)
  qed (simp add: look)
  have "\<forall>i c. map_of (note_unresolved a (pending l) unresolved) (i, c) \<noteq> None \<longrightarrow> i \<in> insert (sa_identity a) seen"
    using Cons.prems(2) by (auto simp: look split: if_splits)
  from Cons.IH [OF l(3) this] own show ?case by auto
qed auto

lemma check_client_calls_ok:
  "check_client_calls known calls ids unresolved = Inr rest \<Longrightarrow>
   distinct (map scc_call_id calls) \<and> ids \<inter> set (map scc_call_id calls) = {} \<and>
   (\<forall>c\<in>set calls. tk_agent (own_agent_turn (scc_owner c)) \<in> known)"
proof (induction calls arbitrary: ids unresolved)
  case (Cons c calls)
  then obtain u where "check_client_calls known calls (insert (scc_call_id c) ids) u = Inr rest"
    "scc_call_id c \<notin> ids" "tk_agent (own_agent_turn (scc_owner c)) \<in> known"
    by (auto simp: Let_def split: if_splits)
  with Cons.IH [OF this(1)] show ?case by auto
qed simp

definition owner_key :: "stored_client_call \<Rightarrow> agent_identity \<times> string" where
  "owner_key call = (tk_agent (own_agent_turn (scc_owner call)), scc_call_id call)"

lemma check_client_calls_exact:
  assumes "check_client_calls known calls ids unresolved = Inr rest"
  shows "map_of rest key = (if key \<in> owner_key ` set calls then None else map_of unresolved key) \<and>
    (\<forall>c\<in>set calls. map_of unresolved (owner_key c) = (if scc_resolved c then None else Some (own_kind (scc_owner c))))"
  using assms
proof (induction calls arbitrary: ids unresolved)
  case (Cons c calls)
  from Cons.prems have rest: "check_client_calls known calls (insert (scc_call_id c) ids) (AList.delete (owner_key c) unresolved) = Inr rest"
    and c: "map_of unresolved (owner_key c) = (if scc_resolved c then None else Some (own_kind (scc_owner c)))"
    by (auto simp: Let_def owner_key_def split: if_splits)
  have "owner_key d \<noteq> owner_key c" if "d \<in> set calls" for d
    using check_client_calls_ok [OF rest] imageI [OF that, of scc_call_id] by (auto simp: owner_key_def)
  with Cons.IH [OF rest] c show ?case by (auto simp: delete_conv')
qed simp

lemma from_stored_parts:
  assumes "from_stored ser snapshot limits = Inr s"
  shows "s = snapshot \<and> snap_agents snapshot \<noteq> [] \<and> length (snap_agents snapshot) \<le> cpl_max_agents limits \<and>
    length (snap_client_calls snapshot) \<le> cpl_max_client_calls limits \<and>
    (\<exists>known unresolved. check_agents limits (snap_agents snapshot) {} [] = Inr (known, unresolved) \<and>
       (\<forall>a\<in>set (snap_agents snapshot). \<forall>mail\<in>set (sa_mailbox a). tk_agent (mail_sender mail) \<in> known) \<and>
       check_client_calls known (snap_client_calls snapshot) {} unresolved = Inr [])"
  using assms
  by (auto simp: from_stored_def list_ex_iff split: if_splits sum.splits option.splits)


lemma checkpoint_of_stored:
  "checkpoint (t\<lparr>pcc_calls := map (\<lambda>c. (scc_call_id c, record_of_stored_call c)) calls\<rparr>) = calls"
  by (induction calls) (auto simp: checkpoint_def record_of_stored_call_def)

definition registry_limits_of :: "checkpoint_limits \<Rightarrow> registry_limits" where
  "registry_limits_of limits =
     \<lparr>max_agents = cpl_max_agents limits, max_mailbox_messages = cpl_max_mailbox_messages limits\<rparr>"

lemma validated_registry:
  assumes "from_stored ser snapshot limits = Inr s"
    and "rb_used b + stored_bytes sz (snap_agents s) \<le> min (rb_limit b) USIZE_MAX"
  shows "restore sz (snap_agents s) (registry_limits_of limits) b =
    (b\<lparr>rb_used := rb_used b + stored_bytes sz (snap_agents s)\<rparr>,
     Inr \<lparr>rg_agents = map stored_entry (snap_agents s), rg_limits = registry_limits_of limits,
          rg_budget = b\<lparr>rb_used := rb_used b + stored_bytes sz (snap_agents s)\<rparr>\<rparr>)"
proof -
  from from_stored_parts [OF assms(1)] obtain known unresolved where s: "s = snapshot"
    and size: "snap_agents s \<noteq> []" "length (snap_agents s) \<le> cpl_max_agents limits"
    and check: "check_agents limits (snap_agents s) {} [] = Inr (known, unresolved)"
    and mail: "\<forall>a\<in>set (snap_agents s). \<forall>m\<in>set (sa_mailbox a). tk_agent (mail_sender m) \<in> known" by blast
  note parts = check_agents_ok [OF check]
  have "restore_agents sz (registry_limits_of limits) (snap_agents s) (snap_agents s) [] b =
    (b\<lparr>rb_used := rb_used b + stored_bytes sz (snap_agents s)\<rparr>, Inr ([] @ map stored_entry (snap_agents s)))"
    by (rule restore_agents_fits)
      (use parts mail assms(2) check_agents_order [of limits "snap_agents s" "[]"] check
        in \<open>auto simp: registry_limits_of_def\<close>)
  then show ?thesis using size by (simp add: restore_def registry_limits_of_def)
qed

section \<open>Properties\<close>

text \<open>C24. A validated tree cannot fail to restore for structural reasons: given byte capacity for what
  it holds, the registry and the client-call table are both rebuilt from it, with the same agents in
  the same order and the same ownership records.\<close>

theorem validated_tree_restores:
  assumes "from_stored ser snapshot limits = Inr s" and "rid \<noteq> []"
    and "rb_used b + stored_bytes sz (snap_agents s) + saturating_add OVERHEAD (length rid)
      + stored_calls_bytes es (snap_client_calls s) \<le> min (rb_limit b) USIZE_MAX"
  shows "\<exists>b1 reg b2 t. restore sz (snap_agents s) (registry_limits_of limits) b = (b1, Inr reg) \<and>
    restore_table es rid (snap_client_calls s) reg (cpl_max_client_calls limits) b1 = (b2, Inr t) \<and>
    rg_agents reg = map stored_entry (snap_agents s) \<and> checkpoint t = snap_client_calls s"
proof -
  let ?b1 = "b\<lparr>rb_used := rb_used b + stored_bytes sz (snap_agents s)\<rparr>"
  let ?reg = "\<lparr>rg_agents = map stored_entry (snap_agents s), rg_limits = registry_limits_of limits, rg_budget = ?b1\<rparr>"
  let ?h = "saturating_add OVERHEAD (length rid)"
  let ?b2 = "?b1\<lparr>rb_used := rb_used ?b1 + ?h\<rparr>"
  let ?t = "\<lparr>pcc_response_id = rid, pcc_calls = [], pcc_max_calls = cpl_max_client_calls limits, pcc_budget = ?b2\<rparr>"
  from from_stored_parts [OF assms(1)] obtain known unresolved where
    len: "length (snap_client_calls s) \<le> cpl_max_client_calls limits"
    and check: "check_agents limits (snap_agents s) {} [] = Inr (known, unresolved)"
    and cc: "check_client_calls known (snap_client_calls s) {} unresolved = Inr []" by blast
  have known: "known = set (map fst (map stored_entry (snap_agents s)))"
    using check_agents_ok [OF check] by (auto simp: stored_entry_def image_image)
  have owners: "\<forall>c\<in>set (snap_client_calls s). get_agent ?reg (tk_agent (own_agent_turn (scc_owner c))) \<noteq> None"
  proof
    fix c assume "c \<in> set (snap_client_calls s)"
    with check_client_calls_ok [OF cc] known
    have "tk_agent (own_agent_turn (scc_owner c)) \<in> set (map fst (map stored_entry (snap_agents s)))" by blast
    then show "get_agent ?reg (tk_agent (own_agent_turn (scc_owner c))) \<noteq> None"
      unfolding im.keys_get by (simp add: get_agent_def)
  qed
  have reg: "restore sz (snap_agents s) (registry_limits_of limits) b = (?b1, Inr ?reg)"
    using assms(3) by (intro validated_registry [OF assms(1)]) simp
  have start: "table_with_budget rid (cpl_max_client_calls limits) ?b1 = (?b2, Inr ?t)"
    using assms(2,3) by (simp add: table_with_budget_def consume_eq)
  obtain b' where "restore_calls es ?reg (snap_client_calls s) ?t =
    (b', Inr (?t\<lparr>pcc_budget := b', pcc_calls := map (\<lambda>c. (scc_call_id c, record_of_stored_call c)) (snap_client_calls s)\<rparr>))"
    using restore_calls_fits [of ?t "snap_client_calls s" ?reg es] check_client_calls_ok [OF cc] owners assms(3) by auto
  with start len have table: "restore_table es rid (snap_client_calls s) ?reg (cpl_max_client_calls limits) ?b1 =
    (b', Inr (?t\<lparr>pcc_budget := b', pcc_calls := map (\<lambda>c. (scc_call_id c, record_of_stored_call c)) (snap_client_calls s)\<rparr>))"
    by (simp add: restore_table_def)
  have "checkpoint (?t\<lparr>pcc_budget := b', pcc_calls := map (\<lambda>c. (scc_call_id c, record_of_stored_call c)) (snap_client_calls s)\<rparr>)
      = snap_client_calls s"
    by (rule checkpoint_of_stored)
  moreover have "rg_agents ?reg = map stored_entry (snap_agents s)" by simp
  ultimately show ?thesis using reg table by blast
qed

text \<open>C38. In a validated tree the ownership records and the histories agree exactly: a call is recorded
  as unresolved for an agent, with a kind, if and only if that agent's history leaves a call with that
  id and kind without an output (a collaboration wait apart). No owed call is missing, none is invented.\<close>

theorem validated_tree_ownership:
  assumes "from_stored ser snapshot limits = Inr s"
  shows "(\<exists>call\<in>set (snap_client_calls s). tk_agent (own_agent_turn (scc_owner call)) = i \<and> scc_call_id call = c \<and>
      own_kind (scc_owner call) = k \<and> \<not> scc_resolved call) \<longleftrightarrow>
    (\<exists>a\<in>set (snap_agents s). sa_identity a = i \<and> open_client_call a c k)"
proof -
  from from_stored_parts [OF assms] obtain known unresolved where
    check: "check_agents limits (snap_agents s) {} [] = Inr (known, unresolved)"
    and cc: "check_client_calls known (snap_client_calls s) {} unresolved = Inr []" by blast
  have hist: "map_of unresolved (i, c) = Some k \<longleftrightarrow> (\<exists>a\<in>set (snap_agents s). sa_identity a = i \<and> open_client_call a c k)"
    using check_agents_unresolved [OF check, of i c k] by simp
  note exact = check_client_calls_exact [OF cc, of "(i, c)"]
  show ?thesis
  proof
    assume "\<exists>call\<in>set (snap_client_calls s). tk_agent (own_agent_turn (scc_owner call)) = i \<and> scc_call_id call = c \<and>
      own_kind (scc_owner call) = k \<and> \<not> scc_resolved call"
    with exact have "map_of unresolved (i, c) = Some k" by (auto simp: owner_key_def)
    with hist show "\<exists>a\<in>set (snap_agents s). sa_identity a = i \<and> open_client_call a c k" by blast
  next
    assume "\<exists>a\<in>set (snap_agents s). sa_identity a = i \<and> open_client_call a c k"
    with hist have u: "map_of unresolved (i, c) = Some k" by blast
    with exact have "(i, c) \<in> owner_key ` set (snap_client_calls s)" by (auto split: if_splits)
    then obtain call where call: "call \<in> set (snap_client_calls s)" "owner_key call = (i, c)" by auto
    with exact u have "\<not> scc_resolved call \<and> own_kind (scc_owner call) = k" by (auto split: if_splits)
    with call show "\<exists>call\<in>set (snap_client_calls s). tk_agent (own_agent_turn (scc_owner call)) = i \<and> scc_call_id call = c \<and>
      own_kind (scc_owner call) = k \<and> \<not> scc_resolved call" by (auto simp: owner_key_def)
  qed
qed

subsection \<open>The properties on a concrete tree\<close>

definition sample_snapshot :: stored_tree_snapshot where
  "sample_snapshot =
     \<lparr>snap_version = 1, snap_config = \<lparr>cfg_enabled = True, cfg_max_concurrent_subagents = None\<rparr>,
      snap_agents = [(sample_base root)\<lparr>sa_history := [sample_function_call ''a'' False]\<rparr>],
      snap_client_calls = [\<lparr>scc_call_id = ''a'', scc_owner = sample_owner False, scc_resolved = False\<rparr>]\<rparr>"

lemma sample_snapshot_valid:
  "from_stored (\<lambda>_. ([10], True)) sample_snapshot (for_response 100) = Inr sample_snapshot"
  by (simp add: from_stored_def sample_snapshot_def for_response_def sample_base_def serialized_size_up_to_eq
      parent_reference_ok_def is_root_def root_def scan_def empty_ledger_def add_call_def mark_prefix_def pending_def
      wait_matches_def is_wait_of_def sample_owner_def root_key_def)

theorem validated_tree_restores_witness:
  "\<exists>b1 reg b2 t. restore sample_sizes (snap_agents sample_snapshot) (registry_limits_of (for_response 100)) (with_limit 1000) = (b1, Inr reg) \<and>
    restore_table 32 ''resp'' (snap_client_calls sample_snapshot) reg 4096 b1 = (b2, Inr t) \<and>
    checkpoint t = snap_client_calls sample_snapshot"
proof -
  have fits: "rb_used (with_limit 1000) + stored_bytes sample_sizes (snap_agents sample_snapshot)
      + saturating_add OVERHEAD (length ''resp'') + stored_calls_bytes 32 (snap_client_calls sample_snapshot)
      \<le> min (rb_limit (with_limit 1000)) USIZE_MAX"
    by (simp add: with_limit_def sample_snapshot_def stored_bytes_def stored_calls_bytes_def mails_bytes_def
        sample_base_def registration_bytes_def sample_owner_def registry_defs sample_defs)
  have "''resp'' \<noteq> []" by simp
  from validated_tree_restores [OF sample_snapshot_valid this fits] show ?thesis
    by (auto simp: for_response_def)
qed

theorem validated_tree_ownership_witness:
  "(\<exists>call\<in>set (snap_client_calls sample_snapshot). tk_agent (own_agent_turn (scc_owner call)) = root \<and>
      scc_call_id call = ''a'' \<and> own_kind (scc_owner call) = CkFunction \<and> \<not> scc_resolved call) \<and>
   (\<exists>a\<in>set (snap_agents sample_snapshot). sa_identity a = root \<and> open_client_call a ''a'' CkFunction)"
proof -
  have "\<exists>call\<in>set (snap_client_calls sample_snapshot). tk_agent (own_agent_turn (scc_owner call)) = root \<and>
      scc_call_id call = ''a'' \<and> own_kind (scc_owner call) = CkFunction \<and> \<not> scc_resolved call"
    by (simp add: sample_snapshot_def sample_owner_def root_key_def)
  with validated_tree_ownership [OF sample_snapshot_valid, of root "''a''" CkFunction] show ?thesis by blast
qed

end
