(* ===== verification/Text_Utils.thy ===== *)
theory Text_Utils
  imports Prelude
begin

text \<open>
  The operations of \<open>str\<close> the code uses, on UTF-8 byte strings: ASCII case folding, prefixes and
  suffixes, splitting at a separator, white space, and the validity of a byte sequence as UTF-8.
\<close>

section \<open>Case, prefixes, splitting\<close>

definition ascii_lower :: "char \<Rightarrow> char" where
  "ascii_lower c = (let n = of_char c :: nat in if 65 \<le> n \<and> n \<le> 90 then char_of (n + 32) else c)"

definition to_ascii_lowercase :: "string \<Rightarrow> string" where
  "to_ascii_lowercase s = map ascii_lower s"

definition eq_ignore_ascii_case :: "string \<Rightarrow> string \<Rightarrow> bool" where
  "eq_ignore_ascii_case a b \<longleftrightarrow> to_ascii_lowercase a = to_ascii_lowercase b"

definition starts_with :: "string \<Rightarrow> string \<Rightarrow> bool" where
  "starts_with s p \<longleftrightarrow> take (length p) s = p"

definition strip_prefix :: "string \<Rightarrow> string \<Rightarrow> string option" where
  "strip_prefix s p = (if starts_with s p then Some (drop (length p) s) else None)"

fun split_once :: "char \<Rightarrow> string \<Rightarrow> (string \<times> string) option" where
  "split_once sep [] = None"
| "split_once sep (c # cs) =
     (if c = sep then Some ([], cs) else map_option (\<lambda>(a, b). (c # a, b)) (split_once sep cs))"

definition rsplit_once :: "char \<Rightarrow> string \<Rightarrow> (string \<times> string) option" where
  "rsplit_once sep s = map_option (\<lambda>(a, b). (rev b, rev a)) (split_once sep (rev s))"

lemma starts_with_append [simp]: "starts_with (p @ s) p"
  by (simp add: starts_with_def)

lemma starts_with_iff: "starts_with s p \<longleftrightarrow> (\<exists>t. s = p @ t)"
  by (metis append_eq_conv_conj append_take_drop_id starts_with_def)

lemma eq_ignore_ascii_case_refl [simp]: "eq_ignore_ascii_case a a"
  by (simp add: eq_ignore_ascii_case_def)

lemma eq_ignore_ascii_case_sym: "eq_ignore_ascii_case a b \<longleftrightarrow> eq_ignore_ascii_case b a"
  by (auto simp: eq_ignore_ascii_case_def)

lemma eq_ignore_ascii_case_trans: "eq_ignore_ascii_case a b \<Longrightarrow> eq_ignore_ascii_case b c \<Longrightarrow> eq_ignore_ascii_case a c"
  by (simp add: eq_ignore_ascii_case_def)

lemma eq_ignore_ascii_case_length: "eq_ignore_ascii_case a b \<Longrightarrow> length a = length b"
  unfolding eq_ignore_ascii_case_def to_ascii_lowercase_def by (metis length_map)

lemma to_ascii_lowercase_simps [simp]:
  "to_ascii_lowercase [] = []" "to_ascii_lowercase (a @ b) = to_ascii_lowercase a @ to_ascii_lowercase b"
  "length (to_ascii_lowercase a) = length a"
  by (simp_all add: to_ascii_lowercase_def)

lemma to_ascii_lowercase_take: "to_ascii_lowercase (take n a) = take n (to_ascii_lowercase a)"
  by (simp add: to_ascii_lowercase_def take_map)

lemma split_once_Some: "split_once sep s = Some (a, b) \<longleftrightarrow> s = a @ sep # b \<and> sep \<notin> set a"
proof (induction s arbitrary: a)
  case (Cons c cs)
  show ?case
  proof (cases a)
    case Nil
    then show ?thesis by auto
  next
    case (Cons d ds)
    with Cons.IH [of ds] show ?thesis by auto
  qed
qed simp

lemma split_once_None: "split_once sep s = None \<longleftrightarrow> sep \<notin> set s"
  by (induction sep s rule: split_once.induct) auto

lemma rsplit_once_Some: "rsplit_once sep s = Some (a, b) \<longleftrightarrow> s = a @ sep # b \<and> sep \<notin> set b"
proof -
  have "rsplit_once sep s = Some (a, b) \<longleftrightarrow> split_once sep (rev s) = Some (rev b, rev a)"
    by (auto simp: rsplit_once_def)
  also have "\<dots> \<longleftrightarrow> rev s = rev (a @ sep # b) \<and> sep \<notin> set b" by (simp add: split_once_Some)
  finally show ?thesis by (simp only: rev_is_rev_conv)
qed

section \<open>White space\<close>

text \<open>\<open>str::trim\<close> on UTF-8 bytes: a text is blank when it is a sequence of \<open>White_Space\<close> code
  points.\<close>

fun strip_space :: "nat list \<Rightarrow> nat list option" where
  "strip_space (b # bs) =
     (if b \<in> {0x09, 0x0A, 0x0B, 0x0C, 0x0D, 0x20} then Some bs
      else case bs of
        c # cs \<Rightarrow>
          if b = 0xC2 \<and> c \<in> {0x85, 0xA0} then Some cs
          else (case cs of
            d # ds \<Rightarrow>
              if (b = 0xE1 \<and> c = 0x9A \<and> d = 0x80) \<or> (b = 0xE3 \<and> c = 0x80 \<and> d = 0x80)
                \<or> (b = 0xE2 \<and> c = 0x81 \<and> d = 0x9F)
                \<or> (b = 0xE2 \<and> c = 0x80 \<and> (0x80 \<le> d \<and> d \<le> 0x8A \<or> d \<in> {0xA8, 0xA9, 0xAF}))
              then Some ds else None
          | [] \<Rightarrow> None)
      | [] \<Rightarrow> None)"
| "strip_space [] = None"

lemma strip_space_shorter: "strip_space bs = Some bs' \<Longrightarrow> length bs' < length bs"
  by (induction bs rule: strip_space.induct) (auto split: if_splits list.splits)

function blank_bytes :: "nat list \<Rightarrow> bool" where
  "blank_bytes bs \<longleftrightarrow>
     (if bs = [] then True else case strip_space bs of None \<Rightarrow> False | Some bs' \<Rightarrow> blank_bytes bs')"
  by auto
termination by (relation "Wellfounded.measure length") (auto dest: strip_space_shorter)

declare blank_bytes.simps [simp del]

definition blank :: "string \<Rightarrow> bool" where
  "blank text \<longleftrightarrow> blank_bytes (map of_char text)"

fun trim_end :: "string \<Rightarrow> string" where
  "trim_end [] = []"
| "trim_end (c # cs) = (if blank (c # cs) then [] else c # trim_end cs)"

function trim_start :: "nat list \<Rightarrow> nat list" where
  "trim_start bs = (case strip_space bs of None \<Rightarrow> bs | Some bs' \<Rightarrow> trim_start bs')"
  by auto
termination by (relation "Wellfounded.measure length") (auto dest: strip_space_shorter)

declare trim_start.simps [simp del]

definition trim :: "string \<Rightarrow> string" where
  "trim s = trim_end (map char_of (trim_start (map of_char s)))"

section \<open>UTF-8\<close>

definition continuation :: "nat \<Rightarrow> bool" where
  "continuation b \<longleftrightarrow> 0x80 \<le> b \<and> b \<le> 0xBF"

text \<open>\<open>str::from_utf8\<close>: the well-formed byte sequences (no overlong forms, no surrogates, at most
  U+10FFFF).\<close>

function utf8_valid :: "nat list \<Rightarrow> bool" where
  "utf8_valid bs \<longleftrightarrow>
     (case bs of
        [] \<Rightarrow> True
      | b # cs \<Rightarrow>
          if b < 0x80 then utf8_valid cs
          else if 0xC2 \<le> b \<and> b \<le> 0xDF then
            (case cs of c # ds \<Rightarrow> continuation c \<and> utf8_valid ds | [] \<Rightarrow> False)
          else if 0xE0 \<le> b \<and> b \<le> 0xEF then
            (case cs of
               c # d # ds \<Rightarrow>
                 continuation c \<and> continuation d \<and> (b = 0xE0 \<longrightarrow> 0xA0 \<le> c) \<and> (b = 0xED \<longrightarrow> c \<le> 0x9F) \<and> utf8_valid ds
             | _ \<Rightarrow> False)
          else if 0xF0 \<le> b \<and> b \<le> 0xF4 then
            (case cs of
               c # d # e # ds \<Rightarrow>
                 continuation c \<and> continuation d \<and> continuation e \<and> (b = 0xF0 \<longrightarrow> 0x90 \<le> c) \<and> (b = 0xF4 \<longrightarrow> c \<le> 0x8F) \<and>
                 utf8_valid ds
             | _ \<Rightarrow> False)
          else False)"
  by auto
termination by (relation "Wellfounded.measure length") auto

declare utf8_valid.simps [simp del]

section \<open>Decimal numbers\<close>

definition digit :: "nat \<Rightarrow> char" where
  "digit d = char_of (48 + d)"

fun decimal :: "nat \<Rightarrow> string" where
  "decimal n = (if n < 10 then [digit n] else decimal (n div 10) @ [digit (n mod 10)])"

declare decimal.simps [simp del]

definition trim_end_matches :: "char \<Rightarrow> string \<Rightarrow> string" where
  "trim_end_matches c s = rev (dropWhile (\<lambda>d. d = c) (rev s))"

end
