(* ===== verification/Compaction_Window.thy ===== *)
theory Compaction_Window
  imports Call_Ledger Text_Utils
begin

text \<open>
  Which items a compaction checkpoint keeps (\<open>types/io/input/window.rs\<close>), what a compaction carries
  over (\<open>executor/compaction/carry_over.rs\<close>, \<open>context.rs\<close> and the window construction of
  \<open>executor/compaction.rs\<close>), and the generation-checked replacement of one agent's history
  (\<open>executor/multi_agent/compaction.rs\<close>).

  Model inference is outside the repository: \<open>infer\<close> is a parameter that turns the summary
  request's items into an error or a summary text. \<open>fresh\<close> stands for \<open>uuid7_str\<close>.
  Request payloads and token usage pass through unread and stay polymorphic.
\<close>

section \<open>The window\<close>

text \<open>\<open>zip\<close> with the marks and \<open>filter_map\<close>: the items whose mark is set.\<close>

definition select :: "'a list \<Rightarrow> bool list \<Rightarrow> 'a list" where
  "select xs bs = map fst (filter snd (zip xs bs))"

record compaction_window =
  latest_index :: nat
  retained_start :: nat

definition latest_compaction_window :: "input_item list \<Rightarrow> compaction_window option" where
  "latest_compaction_window items =
     (case rposition is_compaction items of
        None \<Rightarrow> None
      | Some latest \<Rightarrow> Some
          \<lparr>latest_index = latest,
           retained_start =
             (case rposition is_compaction (take latest items) of None \<Rightarrow> 0 | Some i \<Rightarrow> i + 1)\<rparr>)"

fun completed_user_message :: "input_item \<Rightarrow> bool" where
  "completed_user_message (IiMessage m) \<longleftrightarrow>
     im_role m = ''user'' \<and> im_id m \<noteq> None \<and> im_status m = Some MsCompleted"
| "completed_user_message _ \<longleftrightarrow> False"

definition retains_user_item :: "compaction_window \<Rightarrow> nat \<Rightarrow> input_item \<Rightarrow> bool" where
  "retains_user_item w index item \<longleftrightarrow>
     index \<ge> retained_start w \<and> index < latest_index w \<and> completed_user_message item"

definition retained_async_call :: "input_item \<Rightarrow> string set \<Rightarrow> bool" where
  "retained_async_call item ids \<longleftrightarrow>
     is_async_call item \<and> (case item_call_id item of None \<Rightarrow> False | Some c \<Rightarrow> c \<in> ids)"

definition retains_item :: "compaction_window \<Rightarrow> nat \<Rightarrow> input_item \<Rightarrow> string set \<Rightarrow> bool" where
  "retains_item w index item open_ids \<longleftrightarrow>
     retains_user_item w index item \<or> (index < latest_index w \<and> retained_async_call item open_ids)"

definition open_async_step :: "input_item \<Rightarrow> string set \<Rightarrow> string set" where
  "open_async_step item open_ids =
     (if is_async_call item then (case item_call_id item of None \<Rightarrow> open_ids | Some c \<Rightarrow> insert c open_ids)
      else case output_call_id item of None \<Rightarrow> open_ids | Some c \<Rightarrow> open_ids - {c})"

definition open_async_call_ids :: "input_item list \<Rightarrow> string set" where
  "open_async_call_ids items = fold open_async_step items {}"

text \<open>The marks are set walking the sequence backwards, as \<open>rev\<close> does in the source.\<close>

definition async_call_id_set :: "input_item list \<Rightarrow> string set" where
  "async_call_id_set items = set (List.map_filter item_call_id (filter is_async_call items))"

fun mark_records :: "string set \<Rightarrow> string set \<Rightarrow> input_item list \<Rightarrow> bool list" where
  "mark_records calls answered_ids [] = []"
| "mark_records calls answered_ids (item # earlier) =
     (if is_async_call item then True # mark_records calls answered_ids earlier
      else case output_call_id item of
        None \<Rightarrow> False # mark_records calls answered_ids earlier
      | Some c \<Rightarrow>
          if c \<in> calls then (c \<notin> answered_ids) # mark_records calls (insert c answered_ids) earlier
          else False # mark_records calls answered_ids earlier)"

definition async_records :: "input_item list \<Rightarrow> bool list" where
  "async_records items = rev (mark_records (async_call_id_set items) {} (rev items))"

definition window_open_ids :: "compaction_window option \<Rightarrow> input_item list \<Rightarrow> string set" where
  "window_open_ids window items =
     (case window of
        None \<Rightarrow> {}
      | Some w \<Rightarrow>
          open_async_call_ids (take (latest_index w) items) \<union>
          set (List.map_filter output_call_id (drop (latest_index w) items)))"

definition model_items :: "input_item list \<Rightarrow> input_item list" where
  "model_items items =
     (let window = latest_compaction_window items;
          open_ids = window_open_ids window items
      in map snd (filter
           (\<lambda>(index, item). is_model_visible item \<and>
              (case window of
                 None \<Rightarrow> True
               | Some w \<Rightarrow> index \<ge> latest_index w \<or> retains_item w index item open_ids))
           (List.enumerate 0 items)))"

definition retain_window :: "input_item list \<Rightarrow> (input_item \<Rightarrow> bool) \<Rightarrow> input_item list" where
  "retain_window history keep =
     (case latest_compaction_window history of
        None \<Rightarrow> history
      | Some w \<Rightarrow>
          (let records = async_records (take (latest_index w) history);
               retained = map
                 (\<lambda>(index, item). index \<ge> latest_index w \<or> retains_user_item w index item \<or> records ! index \<or> keep item)
                 (List.enumerate 0 history)
           in select history retained))"

fun is_mcp_list_tools :: "input_item \<Rightarrow> bool" where
  "is_mcp_list_tools (IiMcpListTools _) = True"
| "is_mcp_list_tools _ = False"

definition canonical_session_history :: "input_item list \<Rightarrow> input_item list" where
  "canonical_session_history history = retain_window history is_mcp_list_tools"

section \<open>What a compaction keeps\<close>

fun value_has_content :: "json \<Rightarrow> bool" where
  "value_has_content JNull = False"
| "value_has_content (JString text) = (\<not> blank text)"
| "value_has_content (JArray values) = list_ex value_has_content values"
| "value_has_content (JObject entries) = list_ex (\<lambda>(_, v). value_has_content v) entries"
| "value_has_content (JBool _) = True"
| "value_has_content (JNumber _) = True"

fun content_part_meaningful :: "input_content \<Rightarrow> bool" where
  "content_part_meaningful (IcInputText c) = (\<not> blank (itc_text c))"
| "content_part_meaningful (IcOutputText c) = (\<not> blank (itc_text c))"
| "content_part_meaningful (IcReasoningText c) = (\<not> blank (itc_text c))"
| "content_part_meaningful (IcInputImage c) =
     list_ex (\<lambda>r. case r of None \<Rightarrow> False | Some reference \<Rightarrow> \<not> blank reference) [iic_image_url c, iic_file_id c]"
| "content_part_meaningful (IcRefusal c) = (\<not> blank (rfc_refusal c))"
| "content_part_meaningful (IcInputFile c) =
     (case ifc_file_data c of None \<Rightarrow> False | Some data \<Rightarrow> \<not> blank data)"
| "content_part_meaningful (IcUnknown _) = False"

fun has_content :: "tool_call_output \<Rightarrow> bool" where
  "has_content (TcoText text) = (\<not> blank text)"
| "has_content (TcoContent content) = (content \<noteq> [])"

fun item_has_meaningful_context :: "input_item \<Rightarrow> bool" where
  "item_has_meaningful_context (IiMessage m) =
     (case im_content m of ImcText text \<Rightarrow> \<not> blank text | ImcParts parts \<Rightarrow> list_ex content_part_meaningful parts)"
| "item_has_meaningful_context (IiFunctionCall call) = (\<not> blank (ifn_name call) \<or> \<not> blank (ifn_arguments call))"
| "item_has_meaningful_context (IiCodeInterpreterCall call) =
     (\<not> blank (cic_code call) \<or> (case cic_outputs call of None \<Rightarrow> False | Some outs \<Rightarrow> outs \<noteq> []))"
| "item_has_meaningful_context (IiFunctionCallOutput out) = has_content (frm_output out)"
| "item_has_meaningful_context (IiToolSearchCall call) =
     (its_call_id call \<noteq> None \<or> value_has_content (its_arguments call))"
| "item_has_meaningful_context (IiToolSearchOutput out) = (tso_call_id out \<noteq> None \<or> tso_tools out \<noteq> [])"
| "item_has_meaningful_context (IiCustomToolCall call) = (\<not> blank (ctc_name call) \<or> \<not> blank (ctc_input call))"
| "item_has_meaningful_context (IiCustomToolCallOutput out) = has_content (com_output out)"
| "item_has_meaningful_context (IiShellCall call) = (sca_commands (sc_action call) \<noteq> [])"
| "item_has_meaningful_context (IiShellCallOutput out) = (som_output out \<noteq> [])"
| "item_has_meaningful_context (IiReasoning r) =
     (list_ex (\<lambda>text. \<not> blank text) (ro_content r) \<or> ro_summary r \<noteq> [] \<or>
      (case ro_encrypted_content r of None \<Rightarrow> False | Some state \<Rightarrow> \<not> blank state))"
| "item_has_meaningful_context (IiCompaction c) = (\<not> blank (cmp_encrypted_content c))"
| "item_has_meaningful_context _ = False"

text \<open>The user messages a compaction keeps, completed and under fresh ids.\<close>

definition retain_user_message :: "string \<Rightarrow> input_message \<Rightarrow> input_item" where
  "retain_user_message new_id m =
     IiMessage (m\<lparr>im_id := Some new_id, im_status := Some MsCompleted,
       im_content := (case im_content m of
          ImcText text \<Rightarrow> ImcParts [IcInputText \<lparr>itc_text = text, itc_extra = []\<rparr>]
        | ImcParts parts \<Rightarrow> ImcParts parts)\<rparr>)"

definition retained_user_window :: "(nat \<Rightarrow> string) \<Rightarrow> input_item list \<Rightarrow> input_item list" where
  "retained_user_window fresh items =
     (let window = latest_compaction_window items
      in List.map_filter
           (\<lambda>(index, item).
              (case item of
                 IiMessage m \<Rightarrow>
                   if im_role m \<noteq> ''user'' \<or>
                      (case window of
                         None \<Rightarrow> False
                       | Some w \<Rightarrow> index < latest_index w \<and> \<not> retains_user_item w index item)
                   then None
                   else Some (retain_user_message (fresh index) m)
               | _ \<Rightarrow> None))
           (List.enumerate 0 items))"

definition finish_compacted_window :: "string \<Rightarrow> input_item list \<Rightarrow> string \<Rightarrow> input_item list" where
  "finish_compacted_window new_id output_items summary =
     output_items @ [IiCompaction \<lparr>cmp_agent = None, cmp_id = Some new_id, cmp_encrypted_content = summary\<rparr>]"

definition COMPACTION_PROMPT :: string where
  "COMPACTION_PROMPT = ''You are performing a CONTEXT CHECKPOINT COMPACTION. Create a concise handoff summary that preserves current progress, decisions, constraints, unresolved work, and critical references for the next model. Return only the summary.''"

definition is_compaction_trigger :: "input_item \<Rightarrow> bool" where
  "is_compaction_trigger item \<longleftrightarrow> item = IiCompactionTrigger"

definition summary_items :: "input_item list \<Rightarrow> input_item list" where
  "summary_items items =
     filter (\<lambda>item. \<not> is_compaction_trigger item) items @
     [IiMessage \<lparr>im_agent = None, im_id = None, im_role = ''user'', im_phase = None, im_status = None,
                 im_content = ImcText COMPACTION_PROMPT\<rparr>]"

definition compact_items ::
  "(nat \<Rightarrow> string) \<Rightarrow> string \<Rightarrow> (input_item list \<Rightarrow> executor_error + string \<times> 'u) \<Rightarrow> input_item list \<Rightarrow>
   executor_error + input_item list \<times> 'u" where
  "compact_items fresh new_id infer items =
     (if \<not> list_ex item_has_meaningful_context items
      then Inl (InvalidRequest ''compaction requires non-empty input or previous_response_id context'')
      else case infer (summary_items items) of
        Inl e \<Rightarrow> Inl e
      | Inr (summary, usage) \<Rightarrow>
          Inr (finish_compacted_window new_id (retained_user_window fresh items) summary, usage))"


section \<open>Carrying async calls over\<close>

record stored_carry_over =
  sco_answered :: "input_item list"
  sco_own_open_calls :: "input_item list"

record compaction_carry_over =
  cco_open_calls :: "input_item list"
  cco_stored :: stored_carry_over

definition is_tool_record :: "input_item \<Rightarrow> bool" where
  "is_tool_record item \<longleftrightarrow> item_call_id item \<noteq> None \<or> output_call_id item \<noteq> None"

definition carries :: "(input_item \<Rightarrow> string option) \<Rightarrow> (string \<Rightarrow> bool) \<Rightarrow> input_item \<Rightarrow> bool" where
  "carries f P item \<longleftrightarrow> (case f item of None \<Rightarrow> False | Some c \<Rightarrow> P c)"

definition carry_over_new :: "input_item list \<Rightarrow> input_item list \<Rightarrow> input_item list \<Rightarrow> compaction_carry_over" where
  "carry_over_new compacted_items own suffix =
     (let open_ids = open_async_call_ids compacted_items;
          own_items = filter is_tool_record own;
          own_calls = set (List.map_filter item_call_id own_items);
          kept_in_suffix = set (List.map_filter output_call_id suffix);
          calls_in_suffix = set (List.map_filter item_call_id suffix);
          records = map
            (\<lambda>(item, is_record).
               let late = carries output_call_id (\<lambda>c. c \<notin> own_calls \<and> c \<notin> kept_in_suffix) item;
                   in_suffix = carries item_call_id (\<lambda>c. c \<in> calls_in_suffix) item \<or>
                               carries output_call_id (\<lambda>c. c \<in> kept_in_suffix) item
               in late \<or> (is_record \<and> \<not> retained_async_call item open_ids \<and> \<not> in_suffix))
            (zip own_items (async_records own_items))
      in \<lparr>cco_open_calls = filter (\<lambda>item. retained_async_call item open_ids) compacted_items,
          cco_stored =
            \<lparr>sco_answered = select own_items records,
             sco_own_open_calls =
               map fst (filter (\<lambda>(item, is_record). \<not> is_record \<and> retained_async_call item open_ids)
                 (zip own_items records))\<rparr>\<rparr>)"

definition splice_before_checkpoint :: "input_item list \<Rightarrow> input_item list \<Rightarrow> input_item list" where
  "splice_before_checkpoint compacted items =
     (let at_index = (case rposition is_compaction compacted of None \<Rightarrow> length compacted | Some i \<Rightarrow> i)
      in take at_index compacted @ items @ drop at_index compacted)"

definition insert_into :: "stored_carry_over \<Rightarrow> input_item list \<Rightarrow> input_item list" where
  "insert_into stored compacted =
     splice_before_checkpoint compacted (sco_answered stored) @ sco_own_open_calls stored"

definition into_inputs :: "stored_carry_over \<Rightarrow> input_item list" where
  "into_inputs stored = sco_answered stored @ sco_own_open_calls stored"

section \<open>Replacing one agent's history\<close>

record ('a, 'r) compaction_plan =
  cpl_agent :: 'a
  cpl_generation :: nat
  cpl_prefix :: "input_item list"
  cpl_request :: 'r

record ('a, 'u) compaction_result =
  cpr_agent :: 'a
  cpr_generation :: nat
  cpr_prefix_len :: nat
  cpr_replacement :: "input_item list"
  cpr_usage :: 'u

datatype compaction_commit = Applied | Stale

definition prepare_explicit ::
  "'a \<Rightarrow> nat \<Rightarrow> input_item list \<Rightarrow> 'r \<Rightarrow> executor_error + ('a, 'r) compaction_plan option" where
  "prepare_explicit agent generation history request =
     (case scan history of
        Inl e \<Rightarrow> Inl e
      | Inr ledger \<Rightarrow>
          (let prefix = take (resolved_prefix_len ledger) history
           in Inr (if prefix \<noteq> []
                   then Some \<lparr>cpl_agent = agent, cpl_generation = generation, cpl_prefix = prefix, cpl_request = request\<rparr>
                   else None)))"

definition recorded_items :: "input_item list \<Rightarrow> input_item list" where
  "recorded_items items = select items (async_records items)"

definition execute ::
  "(nat \<Rightarrow> string) \<Rightarrow> string \<Rightarrow> ('r \<Rightarrow> input_item list \<Rightarrow> executor_error + string \<times> 'u) \<Rightarrow>
   ('a, 'r) compaction_plan \<Rightarrow> executor_error + ('a, 'u) compaction_result" where
  "execute fresh new_id infer plan =
     (let discovery = filter is_mcp_list_tools (cpl_prefix plan);
          records = recorded_items (cpl_prefix plan)
      in case compact_items fresh new_id (infer (cpl_request plan)) (cpl_prefix plan) of
           Inl e \<Rightarrow> Inl e
         | Inr (replacement, usage) \<Rightarrow>
             Inr \<lparr>cpr_agent = cpl_agent plan, cpr_generation = cpl_generation plan,
                  cpr_prefix_len = length (cpl_prefix plan),
                  cpr_replacement = splice_before_checkpoint replacement records @ discovery,
                  cpr_usage = usage\<rparr>)"

definition commit ::
  "('a, 'u) compaction_result \<Rightarrow> nat \<Rightarrow> input_item list \<Rightarrow> input_item list \<times> compaction_commit" where
  "commit result generation history =
     (if cpr_generation result \<noteq> generation \<or> cpr_prefix_len result > length history then (history, Stale)
      else (cpr_replacement result @ drop (cpr_prefix_len result) history, Applied))"


text \<open>Every output in the sequence for an id of \<open>A\<close> comes after an async call with that id; \<open>seen\<close>
  are the ids of the async calls so far.\<close>

fun calls_before :: "string set \<Rightarrow> string set \<Rightarrow> input_item list \<Rightarrow> bool" where
  "calls_before A seen [] \<longleftrightarrow> True"
| "calls_before A seen (i # items) \<longleftrightarrow>
     (case output_call_id i of None \<Rightarrow> True | Some c \<Rightarrow> c \<in> A \<longrightarrow> c \<in> seen) \<and>
     calls_before A (if is_async_call i then seen \<union> set_option (item_call_id i) else seen) items"

section \<open>Lemmas: positions, selections, events\<close>

lemma select_simps [simp]:
  "select [] bs = []" "select xs [] = []"
  "select (x # xs) (b # bs) = (if b then x # select xs bs else select xs bs)"
  by (simp_all add: select_def)

lemma select_append:
  "length xs = length bs \<Longrightarrow> select (xs @ ys) (bs @ cs) = select xs bs @ select ys cs"
  by (simp add: select_def)

lemma select_subset: "i \<in> set (select xs bs) \<Longrightarrow> i \<in> set xs"
  by (auto simp: select_def dest: set_zip_leftD)

lemma select_map: "select xs (map P xs) = filter P xs"
  by (induction xs) auto

lemma filter_select:
  "length bs = length xs \<Longrightarrow> (\<And>i. i < length xs \<Longrightarrow> Q (xs ! i) \<Longrightarrow> bs ! i) \<Longrightarrow>
   filter Q (select xs bs) = filter Q xs"
proof (induction xs arbitrary: bs)
  case (Cons x xs)
  then obtain b cs where bs: "bs = b # cs" by (cases bs) auto
  have "filter Q (select xs cs) = filter Q xs"
    using Cons.IH [of cs] Cons.prems(1) Cons.prems(2) [of "Suc i" for i] bs by auto
  with Cons.prems(2) [of 0] bs show ?case by auto
qed simp

lemma filter_enumerate:
  "(\<And>i x. n \<le> i \<Longrightarrow> i < n + length xs \<Longrightarrow> x \<in> set xs \<Longrightarrow> P i x = Q x) \<Longrightarrow>
   map snd (filter (\<lambda>(i, x). P i x) (List.enumerate n xs)) = filter Q xs"
proof (induction xs arbitrary: n)
  case (Cons x xs)
  have "map snd (filter (\<lambda>(i, x). P i x) (List.enumerate (Suc n) xs)) = filter Q xs"
    by (rule Cons.IH) (use Cons.prems in auto)
  with Cons.prems [of n x] show ?case by simp
qed simp

text \<open>The split a checkpoint makes: superseded items, the items since the previous checkpoint, the
  checkpoint and what follows it.\<close>

definition window_split ::
  "input_item list \<Rightarrow> input_item list \<Rightarrow> input_item list \<Rightarrow> input_item \<Rightarrow> input_item list \<Rightarrow> bool" where
  "window_split items old mid k after \<longleftrightarrow>
     items = old @ mid @ k # after \<and> is_compaction k \<and> (\<forall>i\<in>set after. \<not> is_compaction i) \<and>
     (\<forall>i\<in>set mid. \<not> is_compaction i) \<and> (old = [] \<or> is_compaction (last old))"

lemma latest_window_split:
  assumes "window_split items old mid k after"
  shows "latest_compaction_window items =
    Some \<lparr>latest_index = length old + length mid, retained_start = length old\<rparr>"
proof -
  have items: "items = (old @ mid) @ k # after" and k: "is_compaction k"
    and after: "\<forall>i\<in>set after. \<not> is_compaction i" and mid: "\<forall>i\<in>set mid. \<not> is_compaction i"
    and old: "old = [] \<or> is_compaction (last old)"
    using assms by (auto simp: window_split_def)
  have latest: "rposition is_compaction items = Some (length (old @ mid))"
    unfolding items by (rule rposition_split [OF k after])
  have "(case rposition is_compaction (old @ mid) of None \<Rightarrow> 0 | Some i \<Rightarrow> i + 1) = length old"
  proof (cases old rule: rev_cases)
    case Nil
    with mid show ?thesis by (simp add: rposition_None [THEN iffD2])
  next
    case (snoc ys y)
    with old mid rposition_split [of is_compaction y mid ys] show ?thesis by simp
  qed
  with latest items show ?thesis by (simp add: latest_compaction_window_def)
qed

lemma window_split_exists:
  assumes "latest_compaction_window items = Some w"
  shows "\<exists>old mid k after. window_split items old mid k after"
proof -
  from assms obtain l where "rposition is_compaction items = Some l"
    by (auto simp: latest_compaction_window_def split: option.splits)
  from rposition_Some_split [OF this] obtain before k after where
    items: "items = before @ k # after" "is_compaction k" "\<forall>i\<in>set after. \<not> is_compaction i" by blast
  show ?thesis
  proof (cases "rposition is_compaction before")
    case None
    with items have "window_split items [] before k after" by (simp add: window_split_def rposition_None)
    then show ?thesis by blast
  next
    case (Some j)
    from rposition_Some_split [OF this] obtain b x c where
      "before = b @ x # c" "is_compaction x" "\<forall>i\<in>set c. \<not> is_compaction i" by blast
    with items have "window_split items (b @ [x]) c k after" by (simp add: window_split_def)
    then show ?thesis by blast
  qed
qed

lemma no_window_iff: "latest_compaction_window items = None \<longleftrightarrow> (\<forall>i\<in>set items. \<not> is_compaction i)"
  by (simp add: latest_compaction_window_def rposition_None [symmetric] split: option.splits)

subsection \<open>Events of one async call\<close>

definition is_event :: "string \<Rightarrow> input_item \<Rightarrow> bool" where
  "is_event c i \<longleftrightarrow> (is_async_call i \<and> item_call_id i = Some c) \<or> output_call_id i = Some c"

abbreviation events :: "string \<Rightarrow> input_item list \<Rightarrow> input_item list" where
  "events c \<equiv> filter (is_event c)"

lemma open_async_iff:
  "c \<in> open_async_call_ids xs \<longleftrightarrow> events c xs \<noteq> [] \<and> is_async_call (last (events c xs))"
proof (induction xs rule: rev_induct)
  case (snoc x xs)
  show ?case
  proof (cases "is_async_call x")
    case True
    then obtain d where d: "item_call_id x = Some d" using async_call_has_id by blast
    with True have "is_event c x \<longleftrightarrow> d = c"
      by (auto simp: is_event_def dest: item_call_id_not_output)
    with snoc True d show ?thesis
      by (auto simp: open_async_call_ids_def open_async_step_def)
  next
    case False
    then have "is_event c x \<longleftrightarrow> output_call_id x = Some c" by (simp add: is_event_def)
    with snoc False show ?thesis
      by (auto simp: open_async_call_ids_def open_async_step_def split: option.splits)
  qed
qed (simp add: open_async_call_ids_def)

lemma open_async_cong:
  "(\<And>c. events c xs = [] \<longleftrightarrow> events c ys = []) \<Longrightarrow>
   (\<And>c. events c xs \<noteq> [] \<Longrightarrow> last (events c xs) = last (events c ys)) \<Longrightarrow>
   open_async_call_ids xs = open_async_call_ids ys"
  by (auto simp: open_async_iff)

lemma open_async_append:
  "c \<in> open_async_call_ids (xs @ ys) \<longleftrightarrow>
     (if events c ys = [] then c \<in> open_async_call_ids xs else is_async_call (last (events c ys)))"
  by (auto simp: open_async_iff)

lemma open_async_append_cong:
  "events c ys = events c zs \<Longrightarrow>
   (events c zs = [] \<Longrightarrow> c \<in> open_async_call_ids xs \<longleftrightarrow> c \<in> open_async_call_ids xs') \<Longrightarrow>
   c \<in> open_async_call_ids (xs @ ys) \<longleftrightarrow> c \<in> open_async_call_ids (xs' @ zs)"
  by (simp add: open_async_append)

lemma open_async_append_left:
  "open_async_call_ids xs = open_async_call_ids ys \<Longrightarrow>
   open_async_call_ids (xs @ zs) = open_async_call_ids (ys @ zs)"
  by (auto simp: set_eq_iff open_async_append)

lemma async_call_id_set_iff:
  "c \<in> async_call_id_set xs \<longleftrightarrow> (\<exists>i\<in>set xs. is_async_call i \<and> item_call_id i = Some c)"
  by (force simp: async_call_id_set_def List.map_filter_def)

lemma open_async_subset: "open_async_call_ids xs \<subseteq> async_call_id_set xs"
proof
  fix c assume "c \<in> open_async_call_ids xs"
  then have ne: "events c xs \<noteq> []" and call: "is_async_call (last (events c xs))" by (simp_all add: open_async_iff)
  from last_in_set [OF ne] have "last (events c xs) \<in> set xs" "is_event c (last (events c xs))" by auto
  with call show "c \<in> async_call_id_set xs"
    by (auto simp: async_call_id_set_iff is_event_def dest: output_not_async)
qed

subsection \<open>Async records\<close>

definition out_ids :: "input_item list \<Rightarrow> string set" where
  "out_ids xs = set (List.map_filter output_call_id xs)"

lemma out_ids_iff: "c \<in> out_ids xs \<longleftrightarrow> (\<exists>i\<in>set xs. output_call_id i = Some c)"
  by (force simp: out_ids_def List.map_filter_def)

lemma length_mark_records [simp]: "length (mark_records calls ans xs) = length xs"
  by (induction xs arbitrary: ans) (auto split: option.splits)

lemma length_async_records [simp]: "length (async_records xs) = length xs"
  by (simp add: async_records_def)

lemma mark_records_append:
  "mark_records calls ans (xs @ ys) = mark_records calls ans xs @ mark_records calls (ans \<union> (out_ids xs \<inter> calls)) ys"
proof (induction xs arbitrary: ans)
  case Nil
  then show ?case by (simp add: out_ids_def List.map_filter_def)
next
  case (Cons x xs)
  show ?case
  proof (cases "output_call_id x")
    case None
    with Cons show ?thesis by (auto simp: out_ids_def List.map_filter_def)
  next
    case (Some c)
    then have "out_ids (x # xs) = insert c (out_ids xs)" by (simp add: out_ids_def List.map_filter_def)
    with Cons Some output_not_async [OF Some] show ?thesis by (auto simp: insert_absorb Un_assoc)
  qed
qed

lemma async_records_nth:
  "async_records (a @ x # b) ! length a \<longleftrightarrow>
     is_async_call x \<or> (\<exists>c. output_call_id x = Some c \<and> c \<in> async_call_id_set (a @ x # b) \<and> c \<notin> out_ids b)"
proof -
  let ?calls = "async_call_id_set (a @ x # b)"
  have "async_records (a @ x # b) =
    rev (mark_records ?calls (out_ids (rev b) \<inter> ?calls) (x # rev a)) @ rev (mark_records ?calls {} (rev b))"
    by (simp add: async_records_def mark_records_append)
  then have "async_records (a @ x # b) ! length a = hd (mark_records ?calls (out_ids (rev b) \<inter> ?calls) (x # rev a))"
    by (auto simp: nth_append split: option.splits)
  then show ?thesis
    by (auto simp: out_ids_iff split: option.splits)
qed


subsection \<open>The two selections without positions\<close>

lemma user_message_visible: "completed_user_message i \<Longrightarrow> is_model_visible i"
  by (cases i) auto

lemma retained_async_visible: "retained_async_call i ids \<Longrightarrow> is_model_visible i"
  by (simp add: retained_async_call_def)

lemma model_items_no_window:
  "latest_compaction_window items = None \<Longrightarrow> model_items items = filter is_model_visible items"
  unfolding model_items_def Let_def by (intro trans [OF filter_enumerate [where Q = is_model_visible]]) auto

lemma model_items_split:
  assumes split: "window_split items old mid k after"
    and ids: "ids = open_async_call_ids (old @ mid) \<union> out_ids after"
  shows "model_items items =
    filter (\<lambda>i. retained_async_call i ids) old
    @ filter (\<lambda>i. completed_user_message i \<or> retained_async_call i ids) mid
    @ k # filter is_model_visible after"
proof -
  let ?w = "\<lparr>latest_index = length old + length mid, retained_start = length old\<rparr>"
  note w = latest_window_split [OF split]
  have items: "items = old @ mid @ k # after" and k: "is_compaction k"
    using split by (simp_all add: window_split_def)
  have kv: "is_model_visible k" "output_call_id k = None" using k by (cases k; simp)+
  have open_eq: "window_open_ids (Some ?w) items = ids"
    using kv by (auto simp: window_open_ids_def items ids out_ids_def List.map_filter_def)
  let ?P = "\<lambda>index item. is_model_visible item \<and> (index \<ge> latest_index ?w \<or> retains_item ?w index item ids)"
  have "model_items items = map snd (filter (\<lambda>(index, item). ?P index item) (List.enumerate 0 items))"
    unfolding model_items_def Let_def w open_eq option.case ..
  also have "\<dots> = map snd (filter (\<lambda>(index, item). ?P index item) (List.enumerate 0 old))
      @ map snd (filter (\<lambda>(index, item). ?P index item) (List.enumerate (length old) mid))
      @ map snd (filter (\<lambda>(index, item). ?P index item) (List.enumerate (length old + length mid) (k # after)))"
    unfolding items by (simp only: enumerate_append_eq filter_append map_append add_0)
  also have "map snd (filter (\<lambda>(index, item). ?P index item) (List.enumerate 0 old)) =
      filter (\<lambda>i. retained_async_call i ids) old"
    by (rule filter_enumerate) (auto simp: retains_item_def retains_user_item_def retained_async_visible)
  also have "map snd (filter (\<lambda>(index, item). ?P index item) (List.enumerate (length old) mid)) =
      filter (\<lambda>i. completed_user_message i \<or> retained_async_call i ids) mid"
    by (rule filter_enumerate)
      (auto simp: retains_item_def retains_user_item_def retained_async_visible user_message_visible)
  also have "map snd (filter (\<lambda>(index, item). ?P index item)
      (List.enumerate (length old + length mid) (k # after))) = filter is_model_visible (k # after)"
    by (rule filter_enumerate) auto
  finally show ?thesis using kv by simp
qed

definition retain_marks :: "(input_item \<Rightarrow> bool) \<Rightarrow> input_item list \<Rightarrow> input_item list \<Rightarrow> bool list" where
  "retain_marks keep old mid =
     map (\<lambda>i. (length old \<le> i \<and> completed_user_message ((old @ mid) ! i)) \<or>
              async_records (old @ mid) ! i \<or> keep ((old @ mid) ! i)) [0..<length (old @ mid)]"

lemma length_retain_marks [simp]: "length (retain_marks keep old mid) = length old + length mid"
  by (simp add: retain_marks_def)

lemma retain_marks_nth:
  "i < length old + length mid \<Longrightarrow> retain_marks keep old mid ! i \<longleftrightarrow>
     (length old \<le> i \<and> completed_user_message ((old @ mid) ! i)) \<or>
     async_records (old @ mid) ! i \<or> keep ((old @ mid) ! i)"
  by (simp add: retain_marks_def)

lemma retain_window_split:
  assumes split: "window_split items old mid k after"
  shows "retain_window items keep = select (old @ mid) (retain_marks keep old mid) @ k # after"
proof -
  let ?w = "\<lparr>latest_index = length old + length mid, retained_start = length old\<rparr>"
  let ?R = "async_records (old @ mid)"
  let ?f = "\<lambda>(index, item). index \<ge> latest_index ?w \<or> retains_user_item ?w index item \<or> ?R ! index \<or> keep item"
  note w = latest_window_split [OF split]
  have items: "items = (old @ mid) @ k # after" using split by (simp add: window_split_def)
  have marks: "map ?f (List.enumerate 0 items) = retain_marks keep old mid @ map (\<lambda>_. True) (k # after)"
    unfolding items
    by (intro nth_equalityI) (auto simp: nth_enumerate_eq retain_marks_nth nth_append retains_user_item_def nth_Cons')
  have "retain_window items keep = select items (map ?f (List.enumerate 0 items))"
    unfolding retain_window_def w option.case Let_def by (simp add: items)
  also have "\<dots> = select (old @ mid) (retain_marks keep old mid) @ select (k # after) (map (\<lambda>_. True) (k # after))"
    unfolding marks unfolding items by (rule select_append) simp
  also have "select (k # after) (map (\<lambda>_. True) (k # after)) = k # after"
    unfolding select_map by simp
  finally show ?thesis .
qed


subsection \<open>Keeping the records keeps the open calls\<close>

lemma select_at:
  assumes "length bs = length (a @ x # b)" and "bs ! length a"
  shows "select (a @ x # b) bs = select a (take (length a) bs) @ x # select b (drop (Suc (length a)) bs)"
proof -
  have "bs = take (length a) bs @ True # drop (Suc (length a)) bs"
    using assms id_take_nth_drop [of "length a" bs] by simp
  moreover have "length a = length (take (length a) bs)" using assms(1) by simp
  ultimately obtain cs ds where bs: "bs = cs @ True # ds" and len: "length a = length cs"
    by blast
  then show ?thesis by (simp add: select_append)
qed

lemma events_select_last:
  assumes "length bs = length xs" and "\<And>i. i < length xs \<Longrightarrow> async_records xs ! i \<Longrightarrow> bs ! i"
    and "c \<in> async_call_id_set xs"
  shows "events c xs \<noteq> [] \<and> events c (select xs bs) \<noteq> [] \<and> last (events c (select xs bs)) = last (events c xs)"
proof -
  have "\<exists>i\<in>set xs. is_event c i" using assms(3) by (auto simp: async_call_id_set_iff is_event_def)
  from split_list_last_prop [OF this] obtain a x b where xs: "xs = a @ x # b" and x: "is_event c x"
    and b: "\<forall>i\<in>set b. \<not> is_event c i" by blast
  have "c \<notin> out_ids b" using b by (auto simp: out_ids_iff is_event_def)
  then have "async_records xs ! length a"
    unfolding xs using x assms(3) by (subst async_records_nth) (auto simp: xs is_event_def)
  then have "bs ! length a" using assms(2) [of "length a"] xs by simp
  then have sel: "select xs bs = select a (take (length a) bs) @ x # select b (drop (Suc (length a)) bs)"
    unfolding xs using assms(1) xs by (intro select_at) auto
  have "events c (select b (drop (Suc (length a)) bs)) = []"
    using b by (auto simp: filter_empty_conv dest: select_subset)
  then have "events c (select xs bs) = events c (select a (take (length a) bs)) @ [x]"
    unfolding sel using x by simp
  moreover have "events c xs = events c a @ [x]" using xs x b by (auto simp: filter_empty_conv)
  ultimately show ?thesis by simp
qed

lemma open_async_select:
  assumes "length bs = length xs" and "\<And>i. i < length xs \<Longrightarrow> async_records xs ! i \<Longrightarrow> bs ! i"
  shows "open_async_call_ids (select xs bs) = open_async_call_ids xs"
proof (rule set_eqI)
  fix c
  show "c \<in> open_async_call_ids (select xs bs) \<longleftrightarrow> c \<in> open_async_call_ids xs"
  proof (cases "c \<in> async_call_id_set xs")
    case True
    then show ?thesis using events_select_last [OF assms True] by (simp add: open_async_iff)
  next
    case False
    then have "c \<notin> async_call_id_set (select xs bs)"
      by (auto simp: async_call_id_set_iff dest: select_subset)
    with False show ?thesis using open_async_subset by blast
  qed
qed

lemma open_async_recorded: "open_async_call_ids (recorded_items xs) = open_async_call_ids xs"
  unfolding recorded_items_def by (rule open_async_select) auto

lemma open_async_no_events:
  "(\<And>i. i \<in> set ys \<Longrightarrow> \<not> is_async_call i \<and> output_call_id i = None) \<Longrightarrow>
   open_async_call_ids (xs @ ys) = open_async_call_ids xs \<and> open_async_call_ids (ys @ xs) = open_async_call_ids xs"
proof -
  assume none: "\<And>i. i \<in> set ys \<Longrightarrow> \<not> is_async_call i \<and> output_call_id i = None"
  have ev: "events c ys = []" for c using none by (auto simp: is_event_def filter_empty_conv)
  show ?thesis by (auto simp: set_eq_iff open_async_append open_async_iff ev)
qed

lemma open_async_retain_window: "open_async_call_ids (retain_window items keep) = open_async_call_ids items"
proof (cases "latest_compaction_window items")
  case None
  then show ?thesis by (simp add: retain_window_def)
next
  case (Some w)
  from window_split_exists [OF this] obtain old mid k after where split: "window_split items old mid k after" by blast
  have "open_async_call_ids (select (old @ mid) (retain_marks keep old mid)) = open_async_call_ids (old @ mid)"
    by (rule open_async_select) (auto simp: retain_marks_nth)
  from open_async_append_left [OF this, of "k # after"] show ?thesis
    using split retain_window_split [OF split, of keep] by (simp add: window_split_def)
qed


subsection \<open>The canonical history has the same model view\<close>

lemma in_select_nth: "i \<in> set (select xs bs) \<Longrightarrow> \<exists>n<length xs. xs ! n = i \<and> n < length bs \<and> bs ! n"
  by (auto simp: select_def in_set_zip)

lemma async_records_imp:
  assumes "n < length xs"
  shows "is_async_call (xs ! n) \<Longrightarrow> async_records xs ! n"
    and "async_records xs ! n \<Longrightarrow> is_async_call (xs ! n) \<or> output_call_id (xs ! n) \<noteq> None"
  using async_records_nth [of "take n xs" "xs ! n" "drop (Suc n) xs"] assms id_take_nth_drop [OF assms] by auto

lemma record_kind:
  "is_async_call i \<or> output_call_id i \<noteq> None \<Longrightarrow> \<not> is_compaction i \<and> \<not> completed_user_message i"
  by (cases i) auto

lemma mcp_kind: "is_mcp_list_tools i \<Longrightarrow> \<not> is_compaction i \<and> \<not> completed_user_message i"
  by (cases i) auto

lemma user_not_compaction: "completed_user_message i \<Longrightarrow> \<not> is_compaction i"
  by (cases i) auto

lemma canonical_no_checkpoint_before:
  assumes "i \<in> set (select (old @ mid) (retain_marks is_mcp_list_tools old mid))"
  shows "\<not> is_compaction i"
proof -
  from in_select_nth [OF assms] obtain n where n: "n < length (old @ mid)" "(old @ mid) ! n = i"
    "retain_marks is_mcp_list_tools old mid ! n" by auto
  then have "completed_user_message i \<or> async_records (old @ mid) ! n \<or> is_mcp_list_tools i"
    by (auto simp: retain_marks_nth)
  with n async_records_imp(2) [of n "old @ mid"] record_kind [of i] mcp_kind [of i] user_not_compaction [of i]
  show ?thesis by auto
qed

lemma canonical_old_not_user:
  assumes "i \<in> set (select old (take (length old) (retain_marks is_mcp_list_tools old mid)))"
  shows "\<not> completed_user_message i"
proof -
  from in_select_nth [OF assms] obtain n where n: "n < length old" "old ! n = i"
    "retain_marks is_mcp_list_tools old mid ! n" by auto
  then have "async_records (old @ mid) ! n \<or> is_mcp_list_tools i"
    by (auto simp: retain_marks_nth nth_append)
  with n async_records_imp(2) [of n "old @ mid"] record_kind [of i] mcp_kind [of i] show ?thesis
    by (auto simp: nth_append)
qed

lemma retained_async_marked:
  "n < length old + length mid \<Longrightarrow> retained_async_call ((old @ mid) ! n) ids \<Longrightarrow> retain_marks keep old mid ! n"
  using async_records_imp(1) [of n "old @ mid"] by (auto simp: retain_marks_nth retained_async_call_def)

lemma model_items_canonical: "model_items (canonical_session_history items) = model_items items"
proof (cases "latest_compaction_window items")
  case None
  then show ?thesis by (simp add: canonical_session_history_def retain_window_def)
next
  case (Some w)
  from window_split_exists [OF this] obtain old mid k after where split: "window_split items old mid k after" by blast
  define marks where "marks = retain_marks is_mcp_list_tools old mid"
  define ids where "ids = open_async_call_ids (old @ mid) \<union> out_ids after"
  let ?B = "select (old @ mid) marks"
  have canon: "canonical_session_history items = [] @ ?B @ k # after"
    by (simp add: canonical_session_history_def retain_window_split [OF split] marks_def)
  then have split': "window_split (canonical_session_history items) [] ?B k after"
    using split canonical_no_checkpoint_before by (auto simp: window_split_def marks_def)
  have open_eq: "open_async_call_ids ?B = open_async_call_ids (old @ mid)"
    unfolding marks_def by (rule open_async_select) (auto simp: retain_marks_nth)
  have B: "?B = select old (take (length old) marks) @ select mid (drop (length old) marks)"
    using select_append [of old "take (length old) marks" mid "drop (length old) marks"] by (simp add: marks_def)
  have old_part: "filter (\<lambda>i. completed_user_message i \<or> retained_async_call i ids) (select old (take (length old) marks))
      = filter (\<lambda>i. retained_async_call i ids) (select old (take (length old) marks))"
    using canonical_old_not_user unfolding marks_def by (intro filter_cong) auto
  have old_all: "filter (\<lambda>i. retained_async_call i ids) (select old (take (length old) marks))
      = filter (\<lambda>i. retained_async_call i ids) old"
  proof (rule filter_select)
    fix n assume "n < length old" "retained_async_call (old ! n) ids"
    then show "take (length old) marks ! n"
      using retained_async_marked [of n old mid ids] by (auto simp: marks_def nth_append)
  qed (simp add: marks_def)
  have mid_part: "filter (\<lambda>i. completed_user_message i \<or> retained_async_call i ids) (select mid (drop (length old) marks))
      = filter (\<lambda>i. completed_user_message i \<or> retained_async_call i ids) mid"
  proof (rule filter_select)
    fix n assume "n < length mid" "completed_user_message (mid ! n) \<or> retained_async_call (mid ! n) ids"
    then show "drop (length old) marks ! n"
      using retained_async_marked [of "length old + n" old mid ids]
      by (auto simp: marks_def retain_marks_nth nth_append)
  qed (simp add: marks_def)
  show ?thesis
    unfolding model_items_split [OF split' refl] model_items_split [OF split ids_def]
    using open_eq by (simp add: B old_part old_all mid_part ids_def [symmetric])
qed


subsection \<open>What the model receives\<close>

lemma calls_before_append:
  "calls_before A seen (xs @ ys) \<longleftrightarrow> calls_before A seen xs \<and> calls_before A (seen \<union> async_call_id_set xs) ys"
proof (induction xs arbitrary: seen)
  case (Cons x xs)
  have "async_call_id_set (x # xs) = (if is_async_call x then set_option (item_call_id x) else {}) \<union> async_call_id_set xs"
    by (auto simp: async_call_id_set_iff set_eq_iff)
  with Cons show ?case by (auto simp: Un_assoc)
qed (simp add: async_call_id_set_def List.map_filter_def)

lemma calls_before_mono:
  "calls_before A seen xs \<Longrightarrow> seen \<inter> out_ids xs \<subseteq> seen' \<Longrightarrow> calls_before A seen' xs"
proof (induction xs arbitrary: seen seen')
  case (Cons x xs)
  have "out_ids xs \<subseteq> out_ids (x # xs)" by (auto simp: out_ids_iff)
  with Cons.prems(2) have "(if is_async_call x then seen \<union> set_option (item_call_id x) else seen) \<inter> out_ids xs
      \<subseteq> (if is_async_call x then seen' \<union> set_option (item_call_id x) else seen')"
    by auto
  from Cons.IH [OF _ this] Cons.prems(1)
  have "calls_before A (if is_async_call x then seen' \<union> set_option (item_call_id x) else seen') xs"
    by simp
  moreover have "c \<in> seen'" if "output_call_id x = Some c" "c \<in> A" for c
  proof -
    have "c \<in> out_ids (x # xs)" using that(1) by (auto simp: out_ids_iff)
    with Cons.prems that show ?thesis by auto
  qed
  ultimately show ?case by (simp split: option.split)
qed simp

lemma calls_before_visible: "calls_before A seen (filter is_model_visible xs) = calls_before A seen xs"
proof (induction xs arbitrary: seen)
  case (Cons x xs)
  show ?case
  proof (cases "is_model_visible x")
    case False
    then have "output_call_id x = None" "\<not> is_async_call x" by (cases x; simp)+
    with Cons False show ?thesis by simp
  qed (simp add: Cons)
qed simp

lemma calls_before_no_outputs:
  "(\<And>i. i \<in> set xs \<Longrightarrow> output_call_id i = None) \<Longrightarrow> calls_before A seen xs"
  by (induction xs arbitrary: seen) auto

lemma user_no_output: "completed_user_message i \<Longrightarrow> output_call_id i = None \<and> \<not> is_async_call i"
  by (cases i) auto

lemma retained_async_no_output: "retained_async_call i ids \<Longrightarrow> output_call_id i = None"
  by (auto simp: retained_async_call_def dest: async_call_has_id item_call_id_not_output)

lemma compaction_no_output: "is_compaction i \<Longrightarrow> output_call_id i = None \<and> item_call_id i = None"
  by (cases i) auto

lemma model_items_calls_before:
  assumes "calls_before A {} items"
  shows "calls_before A {} (model_items items)"
proof (cases "latest_compaction_window items")
  case None
  with assms show ?thesis by (simp add: model_items_no_window calls_before_visible)
next
  case (Some w)
  from window_split_exists [OF this] obtain old mid k after where split: "window_split items old mid k after" by blast
  define ids where "ids = open_async_call_ids (old @ mid) \<union> out_ids after"
  define kept where "kept = filter (\<lambda>i. retained_async_call i ids) old
    @ filter (\<lambda>i. completed_user_message i \<or> retained_async_call i ids) mid @ [k]"
  have model: "model_items items = kept @ filter is_model_visible after"
    by (simp add: kept_def model_items_split [OF split ids_def])
  have "is_compaction k" using split by (simp add: window_split_def)
  then have k: "output_call_id k = None" "item_call_id k = None" "\<not> is_async_call k"
    using compaction_no_output [of k] async_not_compaction [of k] by blast+
  have kept: "calls_before A {} kept"
    using k by (intro calls_before_no_outputs) (auto simp: kept_def dest: user_no_output retained_async_no_output)
  have "calls_before A (async_call_id_set (old @ mid @ [k])) after"
    using assms split calls_before_append [of A "{}" "old @ mid @ [k]" after] by (simp add: window_split_def)
  moreover have "async_call_id_set (old @ mid @ [k]) \<inter> out_ids after \<subseteq> async_call_id_set kept"
  proof
    fix c assume c: "c \<in> async_call_id_set (old @ mid @ [k]) \<inter> out_ids after"
    then obtain i where i: "i \<in> set (old @ mid)" "is_async_call i" "item_call_id i = Some c"
      using k by (auto simp: async_call_id_set_iff)
    with c have "retained_async_call i ids" by (simp add: retained_async_call_def ids_def)
    with i have "i \<in> set kept" by (auto simp: kept_def)
    with i show "c \<in> async_call_id_set kept" by (auto simp: async_call_id_set_iff)
  qed
  ultimately have "calls_before A (async_call_id_set kept) after" by (rule calls_before_mono)
  with kept show ?thesis by (simp add: model calls_before_append calls_before_visible)
qed

lemma events_visible: "events c (filter is_model_visible xs) = events c xs"
  by (induction xs) (auto simp: is_event_def)

lemma kept_event [simp]:
  "(retained_async_call i ids \<and> is_event c i) \<longleftrightarrow> (c \<in> ids \<and> is_async_call i \<and> item_call_id i = Some c)"
  "((completed_user_message i \<or> retained_async_call i ids) \<and> is_event c i) \<longleftrightarrow>
   (c \<in> ids \<and> is_async_call i \<and> item_call_id i = Some c)"
  using user_no_output [of i] async_call_has_id [of i] item_call_id_not_output [of i]
  by (auto simp: is_event_def retained_async_call_def)

lemma open_async_model_items: "open_async_call_ids (model_items items) = open_async_call_ids items"
proof (cases "latest_compaction_window items")
  case None
  then show ?thesis by (simp add: model_items_no_window open_async_iff set_eq_iff events_visible del: filter_filter)
next
  case (Some w)
  from window_split_exists [OF this] obtain old mid k after where split: "window_split items old mid k after" by blast
  define ids where "ids = open_async_call_ids (old @ mid) \<union> out_ids after"
  let ?kept = "filter (\<lambda>i. retained_async_call i ids) old
    @ filter (\<lambda>i. completed_user_message i \<or> retained_async_call i ids) mid"
  have "is_compaction k" using split by (simp add: window_split_def)
  then have k: "\<not> is_event c k" for c
    using compaction_no_output [of k] by (simp add: is_event_def)
  have kept: "events c ?kept = (if c \<in> ids then filter (\<lambda>i. is_async_call i \<and> item_call_id i = Some c) (old @ mid) else [])"
    for c by (simp add: kept_event)
  have before: "c \<in> open_async_call_ids ?kept \<longleftrightarrow> c \<in> open_async_call_ids (old @ mid)" if "events c after = []" for c
  proof -
    from that have "c \<notin> out_ids after" by (auto simp: out_ids_iff filter_empty_conv is_event_def)
    then have ids: "c \<in> ids \<longleftrightarrow> c \<in> open_async_call_ids (old @ mid)" by (simp add: ids_def)
    let ?calls = "filter (\<lambda>i. is_async_call i \<and> item_call_id i = Some c) (old @ mid)"
    have "?calls \<noteq> []" if "c \<in> open_async_call_ids (old @ mid)"
      using that open_async_subset by (fastforce simp: filter_empty_conv async_call_id_set_iff)
    moreover have "is_async_call (last ?calls)" if "?calls \<noteq> []"
      using last_in_set [OF that] by auto
    ultimately show ?thesis using kept [of c] ids by (auto simp: open_async_iff)
  qed
  have same: "events c (k # filter is_model_visible after) = events c (k # after)" for c
    using k [of c] by (simp add: events_visible del: filter_filter)
  have "events c (k # after) = [] \<Longrightarrow> events c after = []" for c using k [of c] by simp
  from open_async_append_cong [OF same before, OF this]
  have "c \<in> open_async_call_ids (?kept @ k # filter is_model_visible after) \<longleftrightarrow>
      c \<in> open_async_call_ids ((old @ mid) @ k # after)" for c .
  moreover have "items = (old @ mid) @ k # after" using split by (simp add: window_split_def)
  moreover have "model_items items = ?kept @ k # filter is_model_visible after"
    by (simp add: model_items_split [OF split ids_def])
  ultimately show ?thesis by (simp only: set_eq_iff) simp
qed


subsection \<open>A compacted window\<close>

lemma retained_user_window_kind:
  "i \<in> set (retained_user_window fresh items) \<Longrightarrow> \<exists>m. i = IiMessage m"
  by (auto simp: retained_user_window_def List.map_filter_def retain_user_message_def Let_def
      split: input_item.splits if_splits option.splits)

lemma compact_items_shape:
  assumes "compact_items fresh new_id infer items = Inr (compacted, u)"
  shows "\<exists>users k. compacted = users @ [k] \<and> is_compaction k \<and> (\<forall>i\<in>set users. \<exists>m. i = IiMessage m)"
  using assms retained_user_window_kind [of _ fresh items]
  by (force simp: compact_items_def finish_compacted_window_def split: if_splits sum.splits prod.splits)

lemma splice_before_checkpoint_last:
  assumes "compacted = users @ [k]" and "is_compaction k"
  shows "splice_before_checkpoint compacted xs = users @ xs @ [k]"
  using rposition_split [of is_compaction k "[]" users] assms
  by (simp add: splice_before_checkpoint_def Let_def)

lemma open_async_window:
  assumes "\<forall>i\<in>set users. \<exists>m. i = IiMessage m" and "is_compaction k"
    and "\<forall>i\<in>set tail. is_mcp_list_tools i"
  shows "open_async_call_ids (users @ xs @ k # tail) = open_async_call_ids xs"
proof -
  have users: "\<not> is_async_call i \<and> output_call_id i = None" if "i \<in> set users" for i
    using assms(1) that by auto
  have tail: "\<not> is_async_call i \<and> output_call_id i = None" if "i \<in> set (k # tail)" for i
    using assms(2,3) that by (cases i) auto
  show ?thesis
    using open_async_no_events [OF users, of users "xs @ k # tail"] open_async_no_events [OF tail, of "k # tail" xs]
    by simp
qed

lemma execute_replacement:
  assumes "execute fresh new_id infer plan = Inr res"
  shows "cpr_prefix_len res = length (cpl_prefix plan) \<and> cpr_generation res = cpl_generation plan \<and>
    open_async_call_ids (cpr_replacement res) = open_async_call_ids (cpl_prefix plan)"
proof -
  from assms obtain compacted u where
    c: "compact_items fresh new_id (infer (cpl_request plan)) (cpl_prefix plan) = Inr (compacted, u)"
    and res: "res = \<lparr>cpr_agent = cpl_agent plan, cpr_generation = cpl_generation plan,
      cpr_prefix_len = length (cpl_prefix plan),
      cpr_replacement = splice_before_checkpoint compacted (recorded_items (cpl_prefix plan))
        @ filter is_mcp_list_tools (cpl_prefix plan), cpr_usage = u\<rparr>"
    by (auto simp: execute_def Let_def split: sum.splits)
  from compact_items_shape [OF c] obtain users k where shape: "compacted = users @ [k]" "is_compaction k"
    "\<forall>i\<in>set users. \<exists>m. i = IiMessage m" by blast
  from splice_before_checkpoint_last [OF shape(1,2)] open_async_window [OF shape(3,2)]
  show ?thesis by (simp add: res open_async_recorded)
qed

lemma prepare_explicit_prefix:
  assumes "prepare_explicit agent g h req = Inr (Some plan)"
  shows "\<exists>n\<le>length h. cpl_prefix plan = take n h \<and> cpl_generation plan = g \<and> answered (take n h)"
proof -
  from assms obtain l where l: "scan h = Inr l" "cpl_prefix plan = take (resolved_prefix_len l) h"
    "cpl_generation plan = g" by (auto simp: prepare_explicit_def Let_def split: sum.splits if_splits)
  moreover have "resolved_prefix_len l \<le> length h" "answered (take (resolved_prefix_len l) h)"
    using scan_reads(2) [OF l(1)] longest_answered_prefix_max by (simp_all add: resolved_prefix_len_def)
  ultimately show ?thesis by blast
qed

section \<open>Properties\<close>

text \<open>Dropping superseded items from a stored history does not change what the model sees: the
  model-visible items of the canonical history are those of the full history, in the same order.\<close>

lemma canonical_same_model_view: "model_items (canonical_session_history items) = model_items items"
  by (rule model_items_canonical)

text \<open>C37. Both projections keep every async call that can still be answered: the ids open in the
  model view and in any retained window are exactly the ids open in the full history.\<close>

theorem open_calls_survive:
  "open_async_call_ids (model_items items) = open_async_call_ids items \<and>
   open_async_call_ids (retain_window items keep) = open_async_call_ids items"
  by (simp add: open_async_model_items open_async_retain_window)

text \<open>The model never receives an output of an async call without the call: if in the history
  every output for an id of \<open>A\<close> follows an async call with that id, then so does it in the model view,
  also when the call lies before the checkpoint and was already answered there.\<close>

lemma model_view_calls_before_outputs:
  assumes "calls_before A {} items"
  shows "calls_before A {} (model_items items)"
  using assms by (rule model_items_calls_before)


definition sample_infer :: "unit \<Rightarrow> input_item list \<Rightarrow> executor_error + string \<times> unit" where
  "sample_infer request items = Inr (''summary'', ())"

definition sample_plan :: "(unit, unit) compaction_plan" where
  "sample_plan = \<lparr>cpl_agent = (), cpl_generation = 7, cpl_prefix = take 4 sample_history, cpl_request = ()\<rparr>"

lemma sample_prepared: "prepare_explicit () 7 sample_history () = Inr (Some sample_plan)"
proof -
  have "resolved_prefix_len sample_ledger = 4"
    by (simp add: sample_ledger_def sample_history_def scan_def empty_ledger_def add_call_def resolve_call_def
        mark_prefix_def im_modify_def resolved_prefix_len_def)
  then show ?thesis
    by (simp add: prepare_explicit_def scan_sample_history sample_plan_def Let_def)
      (simp add: sample_history_def)
qed

lemma blank_letter: "\<not> blank ''hi''"
  by (simp add: blank_def blank_bytes.simps)

lemma sample_executed: "\<exists>res. execute (\<lambda>_. ''msg_2'') ''cmp_1'' sample_infer sample_plan = Inr res"
  by (simp add: execute_def compact_items_def sample_infer_def sample_plan_def sample_history_def blank_letter Let_def)


text \<open>After a request is compacted, the model input (compacted window followed by the carried
  calls) has exactly the async calls of the summarised items open, each as the item it was.\<close>

lemma carry_over_keeps_open_calls:
  assumes "compact_items fresh new_id infer items = Inr (compacted, u)"
  shows "open_async_call_ids (compacted @ cco_open_calls (carry_over_new items own suffix)) = open_async_call_ids items \<and>
    set (cco_open_calls (carry_over_new items own suffix)) \<subseteq> set items"
proof -
  let ?open = "cco_open_calls (carry_over_new items own suffix)"
  from compact_items_shape [OF assms] obtain users k where shape: "compacted = users @ [k]" "is_compaction k"
    "\<forall>i\<in>set users. \<exists>m. i = IiMessage m" by blast
  have "\<not> is_async_call i \<and> output_call_id i = None" if "i \<in> set compacted" for i
    using that shape compaction_no_output [of k] async_not_compaction [of k] by auto
  then have "open_async_call_ids (compacted @ ?open) = open_async_call_ids ?open"
    using open_async_no_events [of compacted ?open] by blast
  moreover have "open_async_call_ids ?open = open_async_call_ids items"
  proof (rule set_eqI)
    fix c
    have ev: "events c ?open =
      (if c \<in> open_async_call_ids items then filter (\<lambda>i. is_async_call i \<and> item_call_id i = Some c) items else [])"
      by (simp add: carry_over_new_def Let_def)
    have "filter (\<lambda>i. is_async_call i \<and> item_call_id i = Some c) items \<noteq> []" if "c \<in> open_async_call_ids items"
      using that open_async_subset by (fastforce simp: filter_empty_conv async_call_id_set_iff)
    moreover have "is_async_call (last xs)" if "xs = filter (\<lambda>i. is_async_call i \<and> item_call_id i = Some c) items" "xs \<noteq> []"
      for xs using that last_in_set [OF that(2)] by auto
    ultimately show "c \<in> open_async_call_ids ?open \<longleftrightarrow> c \<in> open_async_call_ids items"
      using ev by (auto simp: open_async_iff [of c ?open])
  qed
  ultimately show ?thesis by (auto simp: carry_over_new_def Let_def)
qed

end
