(* ===== verification/Run_Owner.thy ===== *)
theory Run_Owner
  imports Agent_Registry "HOL-Library.Multiset"
begin

text \<open>
  Scoped ownership of concurrent turn work (\<open>executor/multi_agent.rs\<close>): admission of tasks,
  interruption by exact turn key, joining and teardown.

  The task set is Tokio's \<open>JoinSet\<close>, which is outside the repository. Its part in the state is the
  list of task ids that were spawned and not yet joined, with the aborts requested; what a join
  returns is an input. Relied on, as documented: a spawn gives an id that no unjoined task has, and
  a join returns the outcome of one unjoined task.
\<close>

section \<open>State and operations\<close>

type_synonym task_id = nat

datatype spawn_rejection = AgentActive | SubagentLimit

text \<open>What \<open>join_next_with_id\<close> returns: the task's own result, or a join error that is a cancellation
  or a panic.\<close>

datatype 't join_result = JoinOk (joined_id: task_id) "executor_error + 't" | JoinErr (joined_id: task_id) (cancelled: bool)

datatype 't agent_task_outcome = Finished "executor_error + 't" | TaskInterrupted | JoinFailed bool

record 't agent_task_completion =
  tc_task :: task_id
  tc_owner :: agent_turn_key
  tc_outcome :: "'t agent_task_outcome"

record owned_task =
  ot_aborted :: bool
  ot_owner :: agent_turn_key
  ot_interrupt_requested :: bool

record run_owner =
  run_tasks :: "task_id list"
  run_owned :: "(task_id, owned_task) index_map"
  run_max_concurrent_subagents :: nat
  run_subagents :: nat

definition new_owner :: "nat \<Rightarrow> run_owner" where
  "new_owner max_concurrent_subagents =
     \<lparr>run_tasks = [], run_owned = [], run_max_concurrent_subagents = max_concurrent_subagents, run_subagents = 0\<rparr>"

definition has_turn :: "agent_turn_key \<Rightarrow> run_owner \<Rightarrow> bool" where
  "has_turn turn ro \<longleftrightarrow> list_ex (\<lambda>(_, task). ot_owner task = turn) (run_owned ro)"

definition is_empty_owner :: "run_owner \<Rightarrow> bool" where
  "is_empty_owner ro \<longleftrightarrow> run_owned ro = []"

definition spawn_turn :: "task_id \<Rightarrow> agent_turn_key \<Rightarrow> run_owner \<Rightarrow> (run_owner, spawn_rejection, task_id) outcome" where
  "spawn_turn fresh owner ro =
     (if list_ex (\<lambda>(_, task). tk_agent (ot_owner task) = tk_agent owner) (run_owned ro) then (ro, Inl AgentActive)
      else if \<not> is_root (tk_agent owner) \<and> run_subagents ro \<ge> run_max_concurrent_subagents ro
      then (ro, Inl SubagentLimit)
      else
        (ro\<lparr>run_tasks := run_tasks ro @ [fresh],
            run_subagents := run_subagents ro + (if is_root (tk_agent owner) then 0 else 1),
            run_owned := AList.update fresh \<lparr>ot_aborted = False, ot_owner = owner, ot_interrupt_requested = False\<rparr>
              (run_owned ro)\<rparr>,
         Inr fresh))"

definition request_interrupt :: "owned_task \<Rightarrow> owned_task" where
  "request_interrupt task = task\<lparr>ot_interrupt_requested := True, ot_aborted := True\<rparr>"

definition interrupt :: "agent_turn_key \<Rightarrow> run_owner \<Rightarrow> run_owner \<times> bool" where
  "interrupt turn ro =
     (case List.find (\<lambda>(_, task). ot_owner task = turn) (run_owned ro) of
        None \<Rightarrow> (ro, False)
      | Some (i, _) \<Rightarrow> (ro\<lparr>run_owned := im_modify i request_interrupt (run_owned ro)\<rparr>, True))"

text \<open>\<open>None\<close> is a panic: an unknown task, or a subagent counter that would underflow.\<close>

definition complete :: "'t join_result \<Rightarrow> run_owner \<Rightarrow> (run_owner \<times> 't agent_task_completion) option" where
  "complete result ro =
     (let i = joined_id result in
      case map_of (run_owned ro) i of
        None \<Rightarrow> None
      | Some owned \<Rightarrow>
          if \<not> is_root (tk_agent (ot_owner owned)) \<and> run_subagents ro = 0 then None
          else Some
            (ro\<lparr>run_owned := AList.delete i (run_owned ro),
                run_subagents := run_subagents ro - (if is_root (tk_agent (ot_owner owned)) then 0 else 1)\<rparr>,
             \<lparr>tc_task = i, tc_owner = ot_owner owned,
              tc_outcome = (case result of
                 JoinOk _ r \<Rightarrow> Finished r
               | JoinErr _ c \<Rightarrow> if c \<and> ot_interrupt_requested owned then TaskInterrupted else JoinFailed c)\<rparr>))"

text \<open>\<open>join_next\<close> takes the outcome the task set yields next; an empty task set yields nothing. The
  outer \<open>None\<close> is the panic of \<open>complete\<close>. \<open>try_join_next\<close> may find no task finished.\<close>

definition join_next :: "'t join_result \<Rightarrow> run_owner \<Rightarrow> (run_owner \<times> 't agent_task_completion option) option" where
  "join_next result ro =
     (if run_tasks ro = [] then Some (ro, None)
      else map_option (\<lambda>(ro', c). (ro', Some c))
             (complete result (ro\<lparr>run_tasks := remove1 (joined_id result) (run_tasks ro)\<rparr>)))"

definition try_join_next :: "'t join_result option \<Rightarrow> run_owner \<Rightarrow> (run_owner \<times> 't agent_task_completion option) option" where
  "try_join_next ready ro = (case ready of None \<Rightarrow> Some (ro, None) | Some result \<Rightarrow> join_next result ro)"

text \<open>\<open>finish_and_join\<close> loops until the task set is empty. The list holds the outcomes in the order the
  task set yields them; \<open>None\<close> is a panic, or a list that is too short.\<close>

fun finish_and_join :: "'t join_result list \<Rightarrow> run_owner \<Rightarrow> (run_owner \<times> 't agent_task_completion list) option" where
  "finish_and_join [] ro = (if run_tasks ro = [] then Some (ro, []) else None)"
| "finish_and_join (result # results) ro =
     (case join_next result ro of
        None \<Rightarrow> None
      | Some (ro', None) \<Rightarrow> Some (ro', [])
      | Some (ro', Some c) \<Rightarrow>
          map_option (\<lambda>(ro'', cs). (ro'', c # cs)) (finish_and_join results ro'))"

definition cancel_and_join :: "'t join_result list \<Rightarrow> run_owner \<Rightarrow> (run_owner \<times> 't agent_task_completion list) option" where
  "cancel_and_join results ro =
     finish_and_join results (ro\<lparr>run_owned := map (\<lambda>(i, task). (i, request_interrupt task)) (run_owned ro)\<rparr>)"

section \<open>Invariant\<close>

definition subagent_entry :: "task_id \<times> owned_task \<Rightarrow> bool" where
  "subagent_entry e \<longleftrightarrow> \<not> is_root (tk_agent (ot_owner (snd e)))"

definition owner_ok :: "run_owner \<Rightarrow> bool" where
  "owner_ok ro \<longleftrightarrow>
     distinct (map fst (run_owned ro)) \<and> mset (run_tasks ro) = mset (map fst (run_owned ro)) \<and>
     distinct (map (\<lambda>(_, task). tk_agent (ot_owner task)) (run_owned ro)) \<and>
     run_subagents ro = length (filter subagent_entry (run_owned ro)) \<and>
     run_subagents ro \<le> run_max_concurrent_subagents ro"

text \<open>One step: a spawn under an id no unjoined task has, an interruption, or a join of an unjoined
  task.\<close>

inductive owner_step :: "run_owner \<Rightarrow> run_owner \<Rightarrow> bool" where
  spawn: "fresh \<notin> set (run_tasks ro) \<Longrightarrow> spawn_turn fresh key ro = (ro', r) \<Longrightarrow> owner_step ro ro'"
| interrupt: "interrupt turn ro = (ro', b) \<Longrightarrow> owner_step ro ro'"
| join: "joined_id (result :: unit join_result) \<in> set (run_tasks ro) \<Longrightarrow> join_next result ro = Some (ro', c) \<Longrightarrow> owner_step ro ro'"

lemma owner_tasks: "owner_ok ro \<Longrightarrow> set (run_tasks ro) = set (map fst (run_owned ro))"
  by (metis owner_ok_def set_mset_mset)

lemma spawn_turn_keeps:
  assumes "owner_ok ro" and "fresh \<notin> set (run_tasks ro)" and "spawn_turn fresh key ro = (ro', r)"
  shows "owner_ok ro'"
proof (cases r)
  case (Inl e)
  with assms show ?thesis by (auto simp: spawn_turn_def split: if_splits)
next
  case (Inr i)
  have "map_of (run_owned ro) fresh = None"
    using assms(2) owner_tasks [OF assms(1)] im.keys_get [of fresh "run_owned ro"] by auto
  note upd = alist_update_fresh [OF this]
  have fresh: "fresh \<notin> set (map fst (run_owned ro))" using assms(2) owner_tasks [OF assms(1)] by blast
  from Inr assms(3) have ok: "\<not> list_ex (\<lambda>(_, task). tk_agent (ot_owner task) = tk_agent key) (run_owned ro)"
    "is_root (tk_agent key) \<or> run_subagents ro < run_max_concurrent_subagents ro"
    and ro': "ro' = ro\<lparr>run_tasks := run_tasks ro @ [fresh],
            run_subagents := run_subagents ro + (if is_root (tk_agent key) then 0 else 1),
            run_owned := run_owned ro @ [(fresh, \<lparr>ot_aborted = False, ot_owner = key, ot_interrupt_requested = False\<rparr>)]\<rparr>"
    by (auto simp: spawn_turn_def upd split: if_splits)
  have "tk_agent key \<notin> set (map (\<lambda>(_, task). tk_agent (ot_owner task)) (run_owned ro))"
    using ok(1) by (auto simp: list_ex_iff)
  with ok(2) assms(1) fresh show ?thesis
    by (auto simp: owner_ok_def ro' subagent_entry_def)
qed

lemma request_interrupt_owner [simp]: "ot_owner (request_interrupt task) = ot_owner task"
  by (simp add: request_interrupt_def)

lemma interrupted_owner [simp]: "ot_owner (if p then request_interrupt task else task) = ot_owner task"
  by simp

lemma interrupted_owners:
  "map (\<lambda>(_, task). tk_agent (ot_owner task)) (im_modify i request_interrupt m) = map (\<lambda>(_, task). tk_agent (ot_owner task)) m"
  "length (filter subagent_entry (im_modify i request_interrupt m)) = length (filter subagent_entry m)"
proof (induction m)
  case (Cons e m)
  { case 1 show ?case using Cons by (cases e) (simp add: im_modify_Cons) }
  { case 2 show ?case using Cons by (cases e) (simp add: im_modify_Cons subagent_entry_def) }
qed (simp_all add: im_modify_def)

lemma interrupt_keeps:
  assumes "owner_ok ro" and "interrupt turn ro = (ro', b)"
  shows "owner_ok ro'" and "run_tasks ro' = run_tasks ro"
  using assms by (auto simp: interrupt_def owner_ok_def keys_im_modify interrupted_owners simp flip: mset_map split: option.splits)

lemma delete_split:
  assumes "distinct (map fst m)" and "map_of m k = Some v"
  shows "\<exists>a b. m = a @ (k, v) # b \<and> AList.delete k m = a @ b"
proof -
  from split_list [OF map_of_SomeD [OF assms(2)]] obtain a b where m: "m = a @ (k, v) # b" by blast
  with assms(1) have "AList.delete k a = a" "AList.delete k b = b" by (auto simp: image_iff)
  then have "AList.delete k m = a @ b" by (simp add: m AList.delete_eq)
  with m show ?thesis by blast
qed

lemma join_next_keeps:
  assumes "owner_ok ro" and "joined_id result \<in> set (run_tasks ro)"
  shows "\<exists>ro' c task. join_next result ro = Some (ro', Some c) \<and> owner_ok ro' \<and>
    map_of (run_owned ro) (joined_id result) = Some task \<and> tc_task c = joined_id result \<and> tc_owner c = ot_owner task \<and>
    run_tasks ro' = remove1 (joined_id result) (run_tasks ro) \<and>
    run_max_concurrent_subagents ro' = run_max_concurrent_subagents ro \<and>
    run_owned ro' = AList.delete (joined_id result) (run_owned ro)"
proof -
  let ?i = "joined_id result"
  obtain task where task: "map_of (run_owned ro) ?i = Some task"
    using assms owner_tasks [OF assms(1)] im.keys_get [of ?i "run_owned ro"] by auto
  have dist: "distinct (map fst (run_owned ro))" using assms(1) by (simp add: owner_ok_def)
  from delete_split [OF dist task] obtain a b where ab: "run_owned ro = a @ (?i, task) # b"
    "AList.delete ?i (run_owned ro) = a @ b" by blast
  have count: "run_subagents ro = length (filter subagent_entry (a @ b)) + (if is_root (tk_agent (ot_owner task)) then 0 else 1)"
    using assms(1) ab(1) by (simp add: owner_ok_def subagent_entry_def)
  have tasks: "mset (remove1 ?i (run_tasks ro)) = mset (map fst (a @ b))"
    using assms(1) ab(1) by (simp add: owner_ok_def)
  let ?ro = "ro\<lparr>run_tasks := remove1 ?i (run_tasks ro), run_owned := a @ b,
      run_subagents := run_subagents ro - (if is_root (tk_agent (ot_owner task)) then 0 else 1)\<rparr>"
  have "owner_ok ?ro"
    using assms(1) count tasks by (auto simp: owner_ok_def ab(1))
  moreover have "\<not> (\<not> is_root (tk_agent (ot_owner task)) \<and> run_subagents ro = 0)" using count by auto
  moreover have "run_tasks ro \<noteq> []" using assms(2) by auto
  ultimately show ?thesis using task by (auto simp: join_next_def complete_def Let_def ab(2))
qed

lemma max_concurrent_subagents_fixed: "owner_step ro ro' \<Longrightarrow> run_max_concurrent_subagents ro' = run_max_concurrent_subagents ro"
proof (induction rule: owner_step.induct)
  case (join result ro ro' c)
  then show ?case
    by (auto simp: join_next_def complete_def Let_def split: if_splits option.splits)
qed (auto simp: spawn_turn_def interrupt_def split: if_splits option.splits)

interpretation ro: invariant_system "\<lambda>ro. ro = new_owner n" owner_step
  "\<lambda>ro. owner_ok ro \<and> run_max_concurrent_subagents ro = n" for n
proof unfold_locales
  fix ro assume "ro = new_owner n"
  then show "owner_ok ro \<and> run_max_concurrent_subagents ro = n" by (auto simp: new_owner_def owner_ok_def)
next
  fix ro ro' assume "owner_ok ro \<and> run_max_concurrent_subagents ro = n" and step: "owner_step ro ro'"
  then have ok: "owner_ok ro" and "run_max_concurrent_subagents ro = n" by auto
  moreover from step have "owner_ok ro'"
  proof cases
    case (spawn fresh key r)
    with ok show ?thesis using spawn_turn_keeps by blast
  next
    case (interrupt turn b)
    with ok show ?thesis using interrupt_keeps by blast
  next
    case (join result c)
    with join_next_keeps [OF ok join(1)] show ?thesis by auto
  qed
  ultimately show "owner_ok ro' \<and> run_max_concurrent_subagents ro' = n"
    using max_concurrent_subagents_fixed [OF step] by simp
qed

lemma owner_ok_bound: "owner_ok ro \<Longrightarrow> length (run_owned ro) \<le> Suc (run_max_concurrent_subagents ro)"
proof -
  assume ok: "owner_ok ro"
  let ?roots = "filter (\<lambda>e. \<not> subagent_entry e) (run_owned ro)"
  have "distinct (map (\<lambda>(_, task). tk_agent (ot_owner task)) ?roots)"
    using ok by (simp add: owner_ok_def distinct_map_filter)
  moreover have "set (map (\<lambda>(_, task). tk_agent (ot_owner task)) ?roots) \<subseteq> {root}"
    by (auto simp: subagent_entry_def is_root_def)
  ultimately have "length (map (\<lambda>(_, task). tk_agent (ot_owner task)) ?roots) \<le> card {root}"
    by (metis card_mono distinct_card finite.emptyI finite.insertI)
  then have "length ?roots \<le> 1" by simp
  moreover have "length (run_owned ro) = length (filter subagent_entry (run_owned ro)) + length ?roots"
    by (simp add: sum_length_filter_compl)
  ultimately show ?thesis using ok by (simp add: owner_ok_def)
qed

section \<open>Teardown\<close>

text \<open>What a teardown reports for one yielded outcome: the turn that owned the task, its own result
  unchanged, a cancellation as an interruption only where one was requested.\<close>

definition completion_of :: "(task_id, owned_task) index_map \<Rightarrow> 't join_result \<Rightarrow> 't agent_task_completion" where
  "completion_of owned result =
     (let task = the (map_of owned (joined_id result)) in
      \<lparr>tc_task = joined_id result, tc_owner = ot_owner task,
       tc_outcome = (case result of
          JoinOk _ r \<Rightarrow> Finished r
        | JoinErr _ c \<Rightarrow> if c \<and> ot_interrupt_requested task then TaskInterrupted else JoinFailed c)\<rparr>)"

lemma join_next_completion:
  assumes "owner_ok ro" and "joined_id result \<in> set (run_tasks ro)"
  shows "\<exists>ro'. join_next result ro = Some (ro', Some (completion_of (run_owned ro) result)) \<and> owner_ok ro' \<and>
    run_tasks ro' = remove1 (joined_id result) (run_tasks ro) \<and>
    run_owned ro' = AList.delete (joined_id result) (run_owned ro)"
proof -
  from join_next_keeps [OF assms] obtain ro' c task where step: "join_next result ro = Some (ro', Some c)"
    and rest: "owner_ok ro'" "map_of (run_owned ro) (joined_id result) = Some task"
      "run_tasks ro' = remove1 (joined_id result) (run_tasks ro)"
      "run_owned ro' = AList.delete (joined_id result) (run_owned ro)" by blast
  from step rest(2) have "c = completion_of (run_owned ro) result"
    by (auto simp: join_next_def complete_def completion_of_def Let_def split: if_splits)
  with step rest show ?thesis by blast
qed

lemma completion_of_delete:
  "joined_id result \<noteq> i \<Longrightarrow> completion_of (AList.delete i m) result = completion_of m result"
  by (simp add: completion_of_def)

lemma owner_ok_empty: "owner_ok ro \<Longrightarrow> run_tasks ro = [] \<longleftrightarrow> run_owned ro = []"
  by (auto simp: owner_ok_def)

lemma finish_and_join_completes:
  "owner_ok ro \<Longrightarrow> mset (map joined_id results) = mset (run_tasks ro) \<Longrightarrow>
   \<exists>ro'. finish_and_join results ro = Some (ro', map (completion_of (run_owned ro)) results) \<and> is_empty_owner ro'"
proof (induction results arbitrary: ro)
  case Nil
  then show ?case by (auto simp: is_empty_owner_def owner_ok_empty)
next
  case (Cons result results)
  have "mset (run_tasks ro) = add_mset (joined_id result) (mset (map joined_id results))"
    using Cons.prems(2) by (metis list.simps(9) mset.simps(2))
  then have mem: "joined_id result \<in> set (run_tasks ro)"
    and rest: "mset (map joined_id results) = mset (remove1 (joined_id result) (run_tasks ro))"
    by (metis set_mset_mset union_single_eq_member, simp)
  from join_next_completion [OF Cons.prems(1) mem] obtain ro' where ro':
    "join_next result ro = Some (ro', Some (completion_of (run_owned ro) result))" "owner_ok ro'"
    "run_tasks ro' = remove1 (joined_id result) (run_tasks ro)"
    "run_owned ro' = AList.delete (joined_id result) (run_owned ro)" by blast
  from Cons.IH [OF ro'(2)] rest ro'(3) obtain ro'' where ro'':
    "finish_and_join results ro' = Some (ro'', map (completion_of (run_owned ro')) results)" "is_empty_owner ro''"
    by auto
  have "distinct (map fst (run_owned ro))" using Cons.prems(1) by (simp add: owner_ok_def)
  then have "distinct (run_tasks ro)"
    using Cons.prems(1) unfolding owner_ok_def by (metis mset_eq_imp_distinct_iff)
  then have "joined_id result \<notin> set (map joined_id results)"
    using rest by (metis DiffD2 insertI1 set_mset_mset set_remove1_eq)
  then have "map (completion_of (run_owned ro')) results = map (completion_of (run_owned ro)) results"
    unfolding ro'(4) by (intro map_cong refl completion_of_delete) (auto simp: image_iff)
  with ro'(1) ro'' show ?case by simp
qed

lemma interrupt_all_keeps:
  fixes ro :: run_owner
  assumes "owner_ok ro"
  shows "owner_ok (ro\<lparr>run_owned := map (\<lambda>(i, task). (i, request_interrupt task)) (run_owned ro)\<rparr>)"
proof -
  have "(\<lambda>x. subagent_entry (fst x, request_interrupt (snd x))) = subagent_entry"
    by (simp add: subagent_entry_def fun_eq_iff)
  with assms show ?thesis by (simp add: owner_ok_def split_beta' comp_def filter_map)
qed

text \<open>How a cancelled teardown reports one yielded outcome.\<close>

fun teardown_outcome :: "'t join_result \<Rightarrow> 't agent_task_outcome" where
  "teardown_outcome (JoinOk _ r) = Finished r"
| "teardown_outcome (JoinErr _ c) = (if c then TaskInterrupted else JoinFailed False)"

lemma completion_of_interrupted:
  assumes "map_of m (joined_id result) = Some task"
  shows "completion_of (map (\<lambda>(i, task). (i, request_interrupt task)) m) result =
    \<lparr>tc_task = joined_id result, tc_owner = ot_owner task, tc_outcome = teardown_outcome result\<rparr>"
proof -
  have "map_of (map (\<lambda>(i, task). (i, request_interrupt task)) m) (joined_id result) = Some (request_interrupt task)"
    using assms by (simp add: map_of_map)
  then show ?thesis by (cases result) (auto simp: completion_of_def Let_def request_interrupt_def)
qed

text \<open>From a new owner with descendant limit n, whatever turns are spawned, interrupted and joined, the
  registered tasks are exactly the unjoined ones, no agent has two of them, the subagent counter equals
  the number of unjoined descendant tasks and is at most n, and at most n + 1 tasks are retained.\<close>

lemma run_owner_bounded:
  assumes "reachable_from (\<lambda>ro. ro = new_owner n) owner_step ro"
  shows "owner_ok ro \<and> run_subagents ro \<le> n \<and> length (run_tasks ro) \<le> Suc n"
proof -
  from ro.inv_reachable [OF assms] have ok: "owner_ok ro" and n: "run_max_concurrent_subagents ro = n" by auto
  from ok n have "run_subagents ro \<le> n" by (simp add: owner_ok_def)
  moreover have "length (run_tasks ro) = length (run_owned ro)"
    using ok unfolding owner_ok_def by (metis length_map mset_eq_length)
  ultimately show ?thesis using owner_ok_bound [OF ok] ok n by simp
qed

text \<open>C40. Cancelling a run loses nothing: when the task set yields each unjoined task once, in any order,
  \<open>cancel_and_join\<close> does not panic, empties the owner, and reports one completion per task, in the order
  they were yielded, under the turn that owned the task; a task's own result (also one that won the race
  against its cancellation) and a panic are reported as they are, and a cancellation as an interruption.\<close>

theorem cancel_and_join_loses_nothing:
  assumes "reachable_from (\<lambda>ro. ro = new_owner n) owner_step ro"
    and "mset (map joined_id results) = mset (run_tasks ro)"
  shows "\<exists>ro' cs. cancel_and_join results ro = Some (ro', cs) \<and> is_empty_owner ro' \<and>
    map tc_task cs = map joined_id results \<and> map tc_outcome cs = map teardown_outcome results \<and>
    list_all (\<lambda>c. map_option ot_owner (map_of (run_owned ro) (tc_task c)) = Some (tc_owner c)) cs"
proof -
  let ?m = "map (\<lambda>(i, task). (i, request_interrupt task)) (run_owned ro)"
  from ro.inv_reachable [OF assms(1)] have ok: "owner_ok ro" by auto
  have owned: "\<exists>task. map_of (run_owned ro) (joined_id result) = Some task" if "result \<in> set results" for result
  proof -
    from that assms(2) have "joined_id result \<in> set (run_tasks ro)"
      by (metis imageI list.set_map set_mset_mset)
    then show ?thesis using owner_tasks [OF ok] im.keys_get [of "joined_id result" "run_owned ro"] by auto
  qed
  from finish_and_join_completes [OF interrupt_all_keeps [OF ok], of results] assms(2)
  obtain ro' where "cancel_and_join results ro = Some (ro', map (completion_of ?m) results)" "is_empty_owner ro'"
    by (auto simp: cancel_and_join_def)
  moreover have "map tc_task (map (completion_of ?m) results) = map joined_id results"
    by (simp add: completion_of_def Let_def)
  moreover have "map tc_outcome (map (completion_of ?m) results) = map teardown_outcome results"
    using owned by (force simp: completion_of_interrupted)
  moreover have "list_all (\<lambda>c. map_option ot_owner (map_of (run_owned ro) (tc_task c)) = Some (tc_owner c))
      (map (completion_of ?m) results)"
    using owned by (force simp: list_all_iff completion_of_interrupted)
  ultimately show ?thesis by blast
qed

section \<open>A run with two tasks\<close>

definition two_task_owner :: run_owner where
  "two_task_owner = fst (interrupt child_key (fst (spawn_turn 9 child_key (fst (spawn_turn 4 root_key (new_owner 2))))))"

lemma two_task_owner_reachable: "reachable_from (\<lambda>ro. ro = new_owner 2) owner_step two_task_owner"
proof -
  let ?a = "fst (spawn_turn 4 root_key (new_owner 2))" and ?b = "\<lambda>a. fst (spawn_turn 9 child_key a)"
  have "owner_step (new_owner 2) ?a"
    by (rule owner_step.spawn [of 4 _ root_key _ "snd (spawn_turn 4 root_key (new_owner 2))"]) (simp_all add: new_owner_def)
  moreover have "run_tasks ?a = [4]" by (simp add: spawn_turn_def new_owner_def root_key_def is_root_def)
  then have "owner_step ?a (?b ?a)"
    by (intro owner_step.spawn [of 9 _ child_key _ "snd (spawn_turn 9 child_key ?a)"]) simp_all
  moreover have "owner_step (?b ?a) (fst (interrupt child_key (?b ?a)))"
    by (rule owner_step.interrupt [of child_key _ _ "snd (interrupt child_key (?b ?a))"]) simp
  ultimately show ?thesis unfolding two_task_owner_def
    by (intro reachable_from.step [OF reachable_from.step [OF reachable_from.step [OF reachable_from.start]]]) simp_all
qed

theorem cancel_and_join_loses_nothing_witness:
  "\<exists>ro' cs. cancel_and_join [JoinErr 9 True, JoinOk 4 (Inr ''answer'')] two_task_owner = Some (ro', cs) \<and> is_empty_owner ro' \<and>
    map tc_task cs = [9, 4] \<and> map tc_outcome cs = [TaskInterrupted, Finished (Inr ''answer'')]"
proof -
  have "run_tasks two_task_owner = [4, 9]" by code_simp
  then have "mset (map joined_id [JoinErr 9 True, JoinOk 4 (Inr ''answer'')]) = mset (run_tasks two_task_owner)"
    by simp
  from cancel_and_join_loses_nothing [OF two_task_owner_reachable this] show ?thesis by auto
qed

end
