(* ===== verification/Rate_Limit.thy ===== *)
theory Rate_Limit
  imports Text_Utils "HOL-Library.Word" "HOL-Library.Multiset"
begin

text \<open>
  The per-caller request rate limiter of the gateway (\<open>agentic-server/src/rate_limit.rs\<close>): the
  generic cell rate algorithm on one theoretical arrival time per caller, with a bounded key map.

  A \<open>Duration\<close> and an \<open>Instant\<close> are \<open>nat\<close> nanoseconds (a monotonic clock). The clock
  reading of \<open>check\<close> is an argument. \<open>NonZeroU32\<close> fields are \<open>nat\<close> with their range in
  \<open>config_ok\<close>. The key map is a \<open>HashMap\<close>: only lookups, insertions, \<open>retain\<close> and its size
  are used, so its order does not matter.
\<close>

unbundle bit_operations_syntax

section \<open>Configuration\<close>

definition U32_MAX :: nat where
  "U32_MAX = 2 ^ 32 - 1"

definition U64_MAX :: nat where
  "U64_MAX = 2 ^ 64 - 1"

definition from_secs :: "nat \<Rightarrow> nat" where
  "from_secs s = s * 1000000000"

definition from_millis :: "nat \<Rightarrow> nat" where
  "from_millis ms = ms * 1000000"

definition MAX_KEYS :: nat where
  "MAX_KEYS = 100000"

definition OVERFLOW_WARNING_INTERVAL :: nat where
  "OVERFLOW_WARNING_INTERVAL = from_secs 60"

definition SWEEP_INTERVAL :: nat where
  "SWEEP_INTERVAL = from_secs 1"

record rate_limit_config =
  requests_per_minute :: nat
  burst :: nat

datatype rate_limit_config_error = BurstTooLarge nat nat

definition new_config :: "nat \<Rightarrow> nat option \<Rightarrow> rate_limit_config_error + rate_limit_config" where
  "new_config rpm b =
     (let b = (case b of None \<Rightarrow> rpm | Some b \<Rightarrow> b); max = rpm * 60
      in if b > max then Inl (BurstTooLarge b max)
         else Inr \<lparr>requests_per_minute = rpm, burst = b\<rparr>)"

definition config_interval :: "rate_limit_config \<Rightarrow> nat" where
  "config_interval cfg = from_secs 60 div requests_per_minute cfg"

definition config_ok :: "rate_limit_config \<Rightarrow> bool" where
  "config_ok cfg \<longleftrightarrow> 0 < requests_per_minute cfg \<and> requests_per_minute cfg \<le> U32_MAX \<and>
     0 < burst cfg \<and> burst cfg \<le> U32_MAX \<and> burst cfg \<le> 60 * requests_per_minute cfg"

section \<open>Whose bucket\<close>

datatype ip_addr = V4 "32 word" | V6 "128 word"

text \<open>\<open>IpAddr::to_canonical\<close>: an IPv4-mapped address is the one with 80 zero bits, 16 one bits and
  the IPv4 address.\<close>

fun to_canonical :: "ip_addr \<Rightarrow> ip_addr" where
  "to_canonical (V4 a) = V4 a"
| "to_canonical (V6 a) = (if drop_bit 32 a = 0xffff then V4 (ucast a) else V6 a)"

definition caller_network :: "ip_addr \<Rightarrow> ip_addr" where
  "caller_network ip =
     (case to_canonical ip of
        V4 v4 \<Rightarrow> V4 v4
      | V6 v6 \<Rightarrow> V6 (v6 AND push_bit 64 (- 1)))"

record principal =
  pr_issuer :: string
  pr_subject :: string

datatype rate_limit_key = Principal string string | Peer ip_addr | Anonymous | Overflow

definition for_caller :: "principal option \<Rightarrow> ip_addr option \<Rightarrow> rate_limit_key" where
  "for_caller pr peer =
     (case pr of
        Some p \<Rightarrow> Principal (pr_issuer p) (pr_subject p)
      | None \<Rightarrow> (case peer of None \<Rightarrow> Anonymous | Some ip \<Rightarrow> Peer (caller_network ip)))"

section \<open>The limiter\<close>

datatype decision = Allowed | Limited (retry_after: nat) (reset: nat)

record limiter_state =
  arrivals :: "(rate_limit_key, nat) index_map"
  next_sweep :: "nat option"
  last_overflow_warning :: "nat option"

record rate_limiter =
  rl_config :: rate_limit_config
  rl_interval :: nat
  rl_tolerance :: nat
  rl_max_keys :: nat

definition empty_state :: limiter_state where
  "empty_state = \<lparr>arrivals = [], next_sweep = None, last_overflow_warning = None\<rparr>"

definition with_max_keys :: "rate_limit_config \<Rightarrow> nat \<Rightarrow> rate_limiter" where
  "with_max_keys cfg max_keys =
     \<lparr>rl_config = cfg, rl_interval = config_interval cfg,
      rl_tolerance = config_interval cfg * (burst cfg - 1), rl_max_keys = max_keys\<rparr>"

definition new_limiter :: "rate_limit_config \<Rightarrow> rate_limiter" where
  "new_limiter cfg = with_max_keys cfg MAX_KEYS"

definition sweep_due :: "nat \<Rightarrow> limiter_state \<Rightarrow> bool" where
  "sweep_due now st \<longleftrightarrow> (case next_sweep st of None \<Rightarrow> True | Some due \<Rightarrow> now \<ge> due)"

definition sweep :: "nat \<Rightarrow> limiter_state \<Rightarrow> limiter_state" where
  "sweep now st = st\<lparr>next_sweep := Some (now + SWEEP_INTERVAL), arrivals := filter (\<lambda>(_, arrival). arrival > now) (arrivals st)\<rparr>"

definition note_overflow :: "nat \<Rightarrow> limiter_state \<Rightarrow> limiter_state" where
  "note_overflow now st =
     (if (case last_overflow_warning st of None \<Rightarrow> True | Some warned \<Rightarrow> now - warned \<ge> OVERFLOW_WARNING_INTERVAL)
      then st\<lparr>last_overflow_warning := Some now\<rparr> else st)"

definition admit_key :: "rate_limiter \<Rightarrow> limiter_state \<Rightarrow> rate_limit_key \<Rightarrow> nat \<Rightarrow> limiter_state \<times> rate_limit_key" where
  "admit_key lim st key now =
     (if length (arrivals st) < rl_max_keys lim \<or> map_of (arrivals st) key \<noteq> None then (st, key)
      else let st1 = (if sweep_due now st then sweep now st else st)
           in if sweep_due now st \<and> length (arrivals st1) < rl_max_keys lim then (st1, key)
              else (note_overflow now st1, Overflow))"

text \<open>The bucket the request is charged to is returned beside the decision, for the statements.\<close>

definition check :: "rate_limiter \<Rightarrow> limiter_state \<Rightarrow> nat \<Rightarrow> rate_limit_key \<Rightarrow> limiter_state \<times> rate_limit_key \<times> decision" where
  "check lim st now key =
     (let (st, key) = admit_key lim st key now;
          arrival = (case map_of (arrivals st) key of None \<Rightarrow> now | Some arrival \<Rightarrow> max arrival now)
      in if arrival > now + rl_tolerance lim
         then (st, key, Limited (arrival - rl_tolerance lim - now) (arrival - now))
         else (st\<lparr>arrivals := AList.update key (arrival + rl_interval lim) (arrivals st)\<rparr>, key, Allowed))"

text \<open>A run of requests, each with its time, and the decisions with the buckets charged.\<close>

fun check_all :: "rate_limiter \<Rightarrow> limiter_state \<Rightarrow> (nat \<times> rate_limit_key) list \<Rightarrow>
    limiter_state \<times> (nat \<times> rate_limit_key \<times> decision) list" where
  "check_all lim st [] = (st, [])"
| "check_all lim st ((now, key) # rs) =
     (case check lim st now key of (st1, bucket, d) \<Rightarrow>
      case check_all lim st1 rs of (st2, ds) \<Rightarrow> (st2, (now, bucket, d) # ds))"

section \<open>Client-facing hints\<close>

definition div_ceil :: "nat \<Rightarrow> nat \<Rightarrow> nat" where
  "div_ceil a b = a div b + (if a mod b > 0 then 1 else 0)"

definition ceiling :: "nat \<Rightarrow> nat \<Rightarrow> nat" where
  "ceiling wait unit =
     (let n = max (div_ceil wait unit) 1 in if n \<le> U64_MAX then n else U64_MAX)"

definition retry_after_seconds :: "nat \<Rightarrow> nat" where
  "retry_after_seconds wait = ceiling wait (from_secs 1)"

definition retry_after_millis :: "nat \<Rightarrow> nat" where
  "retry_after_millis wait = ceiling wait (from_millis 1)"

definition decimal3 :: "nat \<Rightarrow> string" where
  "decimal3 n = [digit (n div 100 mod 10), digit (n div 10 mod 10), digit (n mod 10)]"

definition reset_duration :: "nat \<Rightarrow> string" where
  "reset_duration wait =
     (let millis = retry_after_millis wait in
      if millis < 1000 then decimal millis @ ''ms''
      else
        let minutes = millis div 60000; millis = millis mod 60000;
            seconds = decimal (millis div 1000) @ ''.'' @ decimal3 (millis mod 1000);
            seconds = trim_end_matches (CHR ''.'') (trim_end_matches (CHR ''0'') seconds)
        in if minutes = 0 then seconds @ ''s'' else decimal minutes @ ''m'' @ seconds @ ''s'')"

section \<open>Buckets\<close>

text \<open>When the bucket of a key next conforms at its earliest, read at time \<open>now\<close>.\<close>

definition arrival_of :: "limiter_state \<Rightarrow> rate_limit_key \<Rightarrow> nat \<Rightarrow> nat" where
  "arrival_of st key now = (case map_of (arrivals st) key of None \<Rightarrow> now | Some arrival \<Rightarrow> max arrival now)"

lemma arrival_of_ge: "now \<le> arrival_of st key now"
  by (simp add: arrival_of_def split: option.splits)

lemma arrival_of_mono: "now \<le> now' \<Longrightarrow> arrival_of st key now \<le> arrival_of st key now'"
  by (auto simp: arrival_of_def split: option.splits)

definition state_ok :: "limiter_state \<Rightarrow> bool" where
  "state_ok st \<longleftrightarrow> distinct (map fst (arrivals st))"

lemma map_of_sweep:
  "state_ok st \<Longrightarrow> map_of (arrivals (sweep now st)) key =
     (case map_of (arrivals st) key of None \<Rightarrow> None | Some arrival \<Rightarrow> if arrival > now then Some arrival else None)"
proof -
  have "distinct (map fst m) \<Longrightarrow> map_of (filter (\<lambda>(_, arrival). arrival > now) m) key =
     (case map_of m key of None \<Rightarrow> None | Some arrival \<Rightarrow> if arrival > now then Some arrival else None)" for m :: "(rate_limit_key \<times> nat) list"
    by (induction m) (auto simp: map_of_eq_None_iff split: option.splits)
  then show "state_ok st \<Longrightarrow> ?thesis" by (simp add: sweep_def state_ok_def)
qed

lemma sweep_neutral: "state_ok st \<Longrightarrow> now \<le> now' \<Longrightarrow> arrival_of (sweep now st) key now' = arrival_of st key now'"
  by (auto simp: arrival_of_def map_of_sweep split: option.splits)

lemma note_overflow_arrivals [simp]: "arrivals (note_overflow now st) = arrivals st"
  by (simp add: note_overflow_def)

lemma admit_key_neutral:
  assumes "state_ok st" and "admit_key lim st key now = (st', bucket)" and "now \<le> now'"
  shows "arrival_of st' k now' = arrival_of st k now'"
proof -
  have "arrival_of (note_overflow now st0) k now' = arrival_of st0 k now'" for st0 by (simp add: arrival_of_def)
  with assms show ?thesis by (auto simp: admit_key_def Let_def sweep_neutral split: if_splits)
qed

lemma admit_key_state_ok: "state_ok st \<Longrightarrow> admit_key lim st key now = (st', bucket) \<Longrightarrow> state_ok st'"
  by (auto simp: admit_key_def Let_def state_ok_def sweep_def distinct_map_filter split: if_splits)

lemma check_unfold:
  "check lim st now key =
     (case admit_key lim st key now of (st1, bucket) \<Rightarrow>
      let arrival = arrival_of st1 bucket now
      in if arrival > now + rl_tolerance lim
         then (st1, bucket, Limited (arrival - rl_tolerance lim - now) (arrival - now))
         else (st1\<lparr>arrivals := AList.update bucket (arrival + rl_interval lim) (arrivals st1)\<rparr>, bucket, Allowed))"
  by (simp add: check_def arrival_of_def Let_def split: prod.splits)

lemma check_state_ok: "state_ok st \<Longrightarrow> check lim st now key = (st', bucket, d) \<Longrightarrow> state_ok st'"
  by (auto simp: check_unfold Let_def state_ok_def distinct_update dest: admit_key_state_ok [unfolded state_ok_def]
      split: prod.splits if_splits)

text \<open>One check moves the arrival time of the bucket it charges by one interval if it is allowed, and
  leaves every other bucket, and a refused one, where it was.\<close>

lemma check_arrival:
  assumes "state_ok st" and "check lim st now key = (st', bucket, d)" and "now \<le> now'"
  shows "d = Allowed \<Longrightarrow> arrival_of st bucket now \<le> now + rl_tolerance lim"
    and "d = Allowed \<Longrightarrow> arrival_of st' bucket now' = max (arrival_of st bucket now + rl_interval lim) now'"
    and "d \<noteq> Allowed \<or> k \<noteq> bucket \<Longrightarrow> arrival_of st' k now' = arrival_of st k now'"
proof -
  obtain st1 where adm: "admit_key lim st key now = (st1, bucket)"
    using assms(2) by (auto simp: check_unfold Let_def split: prod.splits if_splits)
  note neutral = admit_key_neutral [OF assms(1) adm]
  show "d = Allowed \<Longrightarrow> arrival_of st bucket now \<le> now + rl_tolerance lim"
    using assms(2) neutral [of now bucket] by (auto simp: check_unfold adm Let_def split: if_splits)
  show "d = Allowed \<Longrightarrow> arrival_of st' bucket now' = max (arrival_of st bucket now + rl_interval lim) now'"
    using assms(2) neutral [of now bucket]
    by (auto simp: check_unfold adm Let_def arrival_of_def update_conv' split: if_splits)
  show "d \<noteq> Allowed \<or> k \<noteq> bucket \<Longrightarrow> arrival_of st' k now' = arrival_of st k now'"
    using assms(2) neutral [OF assms(3), of k]
    by (auto simp: check_unfold adm Let_def arrival_of_def update_conv' split: if_splits)
qed

section \<open>The rate\<close>

fun admitted :: "rate_limit_key \<Rightarrow> (nat \<times> rate_limit_key \<times> decision) list \<Rightarrow> nat" where
  "admitted k [] = 0"
| "admitted k ((_, bucket, d) # ds) = (if bucket = k \<and> d = Allowed then 1 else 0) + admitted k ds"

text \<open>Requests in the order the clock saw them, the first not before \<open>t\<close>.\<close>

fun timed :: "nat \<Rightarrow> (nat \<times> rate_limit_key) list \<Rightarrow> bool" where
  "timed t [] \<longleftrightarrow> True"
| "timed t ((now, _) # rs) \<longleftrightarrow> t \<le> now \<and> timed now rs"

lemma check_all_rate:
  assumes "state_ok st" and "check_all lim st rs = (st', ds)" and "timed t rs" and "\<forall>(now, _)\<in>set rs. now \<le> u"
    and "t \<le> u" and "arrival_of st k t \<le> t + rl_tolerance lim + rl_interval lim"
  shows "arrival_of st k t + rl_interval lim * admitted k ds \<le> u + rl_tolerance lim + rl_interval lim"
  using assms
proof (induction rs arbitrary: st st' ds t)
  case (Cons r rs)
  obtain now key where r: "r = (now, key)" by (cases r)
  obtain st1 bucket d where chk: "check lim st now key = (st1, bucket, d)" by (cases "check lim st now key") auto
  obtain ds1 where rest: "check_all lim st1 rs = (st', ds1)" and ds: "ds = (now, bucket, d) # ds1"
    using Cons.prems(2) chk by (auto simp: r split: prod.splits)
  have t: "t \<le> now" "timed now rs" "now \<le> u" using Cons.prems(3,4) by (auto simp: r)
  note step = check_arrival [OF Cons.prems(1) chk order_refl]
  have mono: "arrival_of st k t \<le> arrival_of st k now" by (rule arrival_of_mono [OF t(1)])
  note IH = Cons.IH [OF check_state_ok [OF Cons.prems(1) chk] rest t(2) _ t(3)]
  have u: "\<forall>(now, _)\<in>set rs. now \<le> u" using Cons.prems(4) by simp
  show ?case
  proof (cases "bucket = k \<and> d = Allowed")
    case True
    then have "arrival_of st1 k now = arrival_of st k now + rl_interval lim"
      and "arrival_of st k now \<le> now + rl_tolerance lim"
      using step(1,2) arrival_of_ge [of now st k] by auto
    with IH [OF u] True mono show ?thesis by (simp add: ds algebra_simps)
  next
    case False
    then have same: "arrival_of st1 k now = arrival_of st k now" using step(3) [of k] by auto
    have "arrival_of st k now \<le> now + rl_tolerance lim + rl_interval lim"
      using Cons.prems(6) t(1) by (auto simp: arrival_of_def split: option.splits)
    with IH [OF u] same False mono show ?thesis by (auto simp: ds)
  qed
qed simp

lemma check_all_keeps:
  assumes "state_ok st" and "check_all lim st rs = (st', ds)" and "timed t rs" and "\<forall>(now, _)\<in>set rs. now \<le> u"
    and "t \<le> u" and "arrival_of st k t \<le> t + rl_tolerance lim + rl_interval lim"
  shows "state_ok st' \<and> arrival_of st' k u \<le> u + rl_tolerance lim + rl_interval lim"
  using assms
proof (induction rs arbitrary: st ds t)
  case Nil
  then show ?case by (auto simp: arrival_of_def split: option.splits)
next
  case (Cons r rs)
  obtain now key where r: "r = (now, key)" by (cases r)
  obtain st1 bucket d where chk: "check lim st now key = (st1, bucket, d)" by (cases "check lim st now key") auto
  obtain ds1 where rest: "check_all lim st1 rs = (st', ds1)"
    using Cons.prems(2) chk by (auto simp: r split: prod.splits)
  have t: "t \<le> now" "timed now rs" "now \<le> u" "\<forall>(now, _)\<in>set rs. now \<le> u" using Cons.prems(3,4) by (auto simp: r)
  have bound: "arrival_of st k now \<le> now + rl_tolerance lim + rl_interval lim"
    using Cons.prems(6) t(1) by (auto simp: arrival_of_def split: option.splits)
  note step = check_arrival [OF Cons.prems(1) chk order_refl]
  have "arrival_of st1 k now \<le> now + rl_tolerance lim + rl_interval lim"
    using bound step(1,2) step(3) [of k] by (cases "bucket = k \<and> d = Allowed") auto
  then show ?case by (rule Cons.IH [OF check_state_ok [OF Cons.prems(1) chk] rest t(2,4,3)])
qed

lemma check_all_append:
  "check_all lim st (rs1 @ rs2) =
     (case check_all lim st rs1 of (st1, ds1) \<Rightarrow> case check_all lim st1 rs2 of (st2, ds2) \<Rightarrow> (st2, ds1 @ ds2))"
  by (induction rs1 arbitrary: st) (auto split: prod.splits)

lemma check_all_length: "check_all lim st rs = (st', ds) \<Longrightarrow> length ds = length rs"
  by (induction rs arbitrary: st ds) (auto split: prod.splits)

lemma timed_append: "timed t (rs1 @ rs2) \<Longrightarrow> timed t rs1"
  by (induction rs1 arbitrary: t) auto

lemma timed_suffix: "timed t (rs1 @ rs2) \<Longrightarrow> \<forall>(now, _)\<in>set rs2. u \<le> now \<Longrightarrow> timed u rs2"
proof (induction rs1 arbitrary: t)
  case Nil
  then show ?case by (cases rs2) auto
qed auto

lemma empty_state_ok: "state_ok empty_state" "arrival_of empty_state k t = t"
  by (simp_all add: state_ok_def empty_state_def arrival_of_def)

lemma interval_pos: "config_ok cfg \<Longrightarrow> 0 < config_interval cfg"
  by (simp add: config_ok_def config_interval_def from_secs_def U32_MAX_def div_greater_zero_iff)

lemma with_max_keys_simps [simp]:
  "rl_interval (with_max_keys cfg n) = config_interval cfg" "rl_max_keys (with_max_keys cfg n) = n"
  "rl_config (with_max_keys cfg n) = cfg"
  by (simp_all add: with_max_keys_def)

lemma tolerance_interval:
  "config_ok cfg \<Longrightarrow> rl_tolerance (with_max_keys cfg n) + config_interval cfg = burst cfg * config_interval cfg"
  by (cases "burst cfg") (auto simp: with_max_keys_def config_ok_def algebra_simps)


section \<open>Hints\<close>

lemma ceiling_covers:
  assumes "0 < unit" and "wait \<le> U64_MAX * unit"
  shows "wait \<le> ceiling wait unit * unit" and "1 \<le> ceiling wait unit"
    and "1 < ceiling wait unit \<Longrightarrow> (ceiling wait unit - 1) * unit < wait"
proof -
  have eq: "wait = wait div unit * unit + wait mod unit" by simp
  moreover have lt: "wait mod unit < unit" using assms(1) by simp
  moreover have "wait div unit \<le> U64_MAX" using assms by (metis div_le_mono nonzero_mult_div_cancel_right not_gr0)
  moreover have "wait div unit < U64_MAX \<or> wait mod unit = 0"
    using assms calculation(1,3) by (metis add_cancel_left_right add_le_same_cancel1 le_neq_implies_less le_zero_eq)
  ultimately have le: "div_ceil wait unit \<le> U64_MAX" by (auto simp: div_ceil_def)
  moreover have "1 \<le> U64_MAX" by (simp add: U64_MAX_def)
  ultimately have c: "ceiling wait unit = max (div_ceil wait unit) 1" by (auto simp: ceiling_def Let_def)
  show "1 \<le> ceiling wait unit" by (simp add: c)
  have up: "wait \<le> div_ceil wait unit * unit"
  proof (cases "wait mod unit = 0")
    case True
    then show ?thesis by (simp add: div_ceil_def) (use eq in linarith)
  next
    case False
    then show ?thesis by (simp add: div_ceil_def) (use eq lt in linarith)
  qed
  also have "\<dots> \<le> ceiling wait unit * unit" by (simp add: c)
  finally show "wait \<le> ceiling wait unit * unit" .
  assume big: "1 < ceiling wait unit"
  show "(ceiling wait unit - 1) * unit < wait"
  proof (cases "wait mod unit = 0")
    case True
    with big have "ceiling wait unit - 1 = wait div unit - 1" "0 < wait div unit" by (auto simp: c div_ceil_def)
    then have "(ceiling wait unit - 1) * unit < wait div unit * unit" using assms(1) by simp
    then show ?thesis using eq True by linarith
  next
    case False
    with big have "ceiling wait unit - 1 = wait div unit" by (auto simp: c div_ceil_def split: if_splits)
    then show ?thesis using eq False by (metis less_add_same_cancel1 not_gr0)
  qed
qed

lemma check_tracked:
  assumes "map_of (arrivals st) key = Some a"
  shows "check lim st now key =
     (if arrival_of st key now > now + rl_tolerance lim
      then (st, key, Limited (arrival_of st key now - rl_tolerance lim - now) (arrival_of st key now - now))
      else (st\<lparr>arrivals := AList.update key (arrival_of st key now + rl_interval lim) (arrivals st)\<rparr>, key, Allowed))"
  using assms by (simp add: check_unfold admit_key_def Let_def)

lemma burst_allowed:
  assumes "map_of (arrivals st) key = Some a" and "arrival_of st key now + rl_interval lim * n \<le> now + rl_tolerance lim + rl_interval lim"
  shows "map (snd \<circ> snd) (snd (check_all lim st (replicate n (now, key)))) = replicate n Allowed"
  using assms
proof (induction n arbitrary: st a)
  case (Suc n)
  let ?st = "st\<lparr>arrivals := AList.update key (arrival_of st key now + rl_interval lim) (arrivals st)\<rparr>"
  have "arrival_of st key now \<le> now + rl_tolerance lim"
    using Suc.prems(2) by (simp add: algebra_simps)
  then have chk: "check lim st now key = (?st, key, Allowed)" using Suc.prems(1) by (simp add: check_tracked)
  have "arrival_of ?st key now = arrival_of st key now + rl_interval lim"
    using arrival_of_ge [of now st key] by (simp add: arrival_of_def update_conv')
  with Suc.prems(2) have "map (snd \<circ> snd) (snd (check_all lim ?st (replicate n (now, key)))) = replicate n Allowed"
    by (intro Suc.IH [of _ "arrival_of st key now + rl_interval lim"]) (simp_all add: update_conv' algebra_simps)
  then show ?case
    by (cases "check_all lim ?st (replicate n (now, key))") (simp add: chk comp_def)
qed simp

lemma check_limited:
  assumes "state_ok st" and "check lim st now key = (st', key, Limited r s)"
  shows "\<exists>a. map_of (arrivals st') key = Some a \<and> a = now + rl_tolerance lim + r \<and> s = rl_tolerance lim + r \<and> 0 < r \<and>
    arrival_of st key now = a"
proof -
  obtain st1 where adm: "admit_key lim st key now = (st1, key)"
    using assms(2) by (auto simp: check_unfold Let_def split: prod.splits if_splits)
  with assms(2) have lim: "arrival_of st1 key now > now + rl_tolerance lim" "st' = st1"
    "r = arrival_of st1 key now - rl_tolerance lim - now" "s = arrival_of st1 key now - now"
    by (auto simp: check_unfold Let_def split: if_splits)
  have "arrival_of st1 key now = arrival_of st key now"
    by (rule admit_key_neutral [OF assms(1) adm order_refl])
  with lim show ?thesis by (auto simp: arrival_of_def split: option.splits)
qed

text \<open>A refusal's hints are exact. In any run, if a request is refused under its own bucket with
  \<open>retry_after\<close> and \<open>reset\<close>, then with no further charge to the bucket a request is admitted exactly
  from \<open>retry_after\<close> on; it is admitted after the whole seconds of the retry-after header and after the
  milliseconds of retry-after-ms, neither of which is zero; and after \<open>reset\<close> a whole burst is
  admitted at once.\<close>

lemma retry_after_exact:
  assumes "config_ok cfg" and "check_all (with_max_keys cfg n) empty_state rs = (st, ds)" and "timed 0 rs"
    and "\<forall>(t, _)\<in>set rs. t \<le> now" and "check (with_max_keys cfg n) st now key = (st', key, Limited r s)"
  shows "(\<forall>d. snd (snd (check (with_max_keys cfg n) st' (now + d) key)) = Allowed \<longleftrightarrow> r \<le> d) \<and>
    r \<le> from_secs (retry_after_seconds r) \<and> r \<le> from_millis (retry_after_millis r) \<and>
    0 < retry_after_seconds r \<and> 0 < retry_after_millis r \<and>
    map (snd \<circ> snd) (snd (check_all (with_max_keys cfg n) st' (replicate (burst cfg) (now + s, key)))) =
      replicate (burst cfg) Allowed"
proof -
  let ?lim = "with_max_keys cfg n"
  from check_all_keeps [OF empty_state_ok(1) assms(2,3,4), of key]
  have ok: "state_ok st" and "arrival_of st key now \<le> now + rl_tolerance ?lim + rl_interval ?lim"
    by (auto simp: empty_state_ok)
  moreover obtain a where a: "map_of (arrivals st') key = Some a" "a = now + rl_tolerance ?lim + r" "s = rl_tolerance ?lim + r"
    "0 < r" "arrival_of st key now = a"
    using check_limited [OF ok assms(5)] by blast
  ultimately have "r \<le> config_interval cfg" by simp
  also have "\<dots> \<le> from_secs 60" by (simp add: config_interval_def div_le_dividend)
  finally have r: "r \<le> from_secs 60" .
  have arr: "arrival_of st' key t = max a t" for t using a(1) by (simp add: arrival_of_def)
  have "snd (snd (check ?lim st' (now + d) key)) = Allowed \<longleftrightarrow> r \<le> d" for d
    using a(4) by (auto simp: check_tracked [OF a(1)] arr a(2))
  moreover have "r \<le> U64_MAX * from_secs 1" "r \<le> U64_MAX * from_millis 1"
    using r by (simp_all add: U64_MAX_def from_secs_def from_millis_def)
  then have "r \<le> from_secs (retry_after_seconds r)" "r \<le> from_millis (retry_after_millis r)"
    "0 < retry_after_seconds r" "0 < retry_after_millis r"
    using ceiling_covers(1,2) [of "from_secs 1" r] ceiling_covers(1,2) [of "from_millis 1" r]
    by (simp_all add: retry_after_seconds_def retry_after_millis_def from_secs_def from_millis_def)
  moreover have "arrival_of st' key (now + s) + rl_interval ?lim * burst cfg \<le> now + s + rl_tolerance ?lim + rl_interval ?lim"
    using tolerance_interval [OF assms(1), of n] by (simp add: arr a(2,3) algebra_simps)
  then have "map (snd \<circ> snd) (snd (check_all ?lim st' (replicate (burst cfg) (now + s, key)))) = replicate (burst cfg) Allowed"
    by (rule burst_allowed [OF a(1)])
  ultimately show ?thesis by blast
qed

section \<open>Memory\<close>

definition callers :: "limiter_state \<Rightarrow> (rate_limit_key, nat) index_map" where
  "callers st = filter (\<lambda>(k, _). k \<noteq> Overflow) (arrivals st)"

lemma length_filter_filter: "length (filter P (filter Q xs)) \<le> length (filter P xs)"
  by (induction xs) auto

lemma length_filter_update:
  "map_of m b \<noteq> None \<Longrightarrow> length (filter (\<lambda>(k, _). Q k) (AList.update b v m)) = length (filter (\<lambda>(k, _). Q k) m)"
  by (induction m) (auto split: if_splits)

lemma admit_key_memory:
  assumes "length (callers st) \<le> rl_max_keys lim" and "admit_key lim st key now = (st', bucket)"
  shows "length (callers st') \<le> rl_max_keys lim \<and>
    (bucket = Overflow \<or> map_of (arrivals st') bucket \<noteq> None \<or> length (arrivals st') < rl_max_keys lim)"
proof -
  have "callers (sweep now st) = filter (\<lambda>(k, _). k \<noteq> Overflow) (filter (\<lambda>(_, arrival). arrival > now) (arrivals st))"
    by (simp add: callers_def sweep_def)
  then have "length (callers (sweep now st)) \<le> rl_max_keys lim"
    using assms(1) length_filter_filter unfolding callers_def by (metis order_trans)
  moreover have "callers (note_overflow now st0) = callers st0" for st0 by (simp add: callers_def)
  ultimately show ?thesis using assms by (auto simp: admit_key_def Let_def split: if_splits)
qed

lemma check_memory:
  assumes "length (callers st) \<le> rl_max_keys lim" and "check lim st now key = (st', bucket, d)"
  shows "length (callers st') \<le> rl_max_keys lim"
proof -
  obtain st1 where adm: "admit_key lim st key now = (st1, bucket)"
    using assms(2) by (auto simp: check_unfold Let_def split: prod.splits if_splits)
  note mem = admit_key_memory [OF assms(1) adm]
  have "length (filter (\<lambda>(k, _). k \<noteq> Overflow) (AList.update bucket v (arrivals st1))) \<le> rl_max_keys lim" for v
  proof (cases "map_of (arrivals st1) bucket")
    case None
    with mem show ?thesis
      by (auto simp: alist_update_fresh callers_def Suc_le_eq intro: le_less_trans [OF length_filter_le])
  next
    case (Some w)
    with mem show ?thesis by (simp add: length_filter_update callers_def)
  qed
  with assms(2) mem show ?thesis by (auto simp: check_unfold adm Let_def callers_def split: if_splits)
qed

lemma check_all_memory:
  assumes "check_all lim st rs = (st', ds)" and "state_ok st" and "length (callers st) \<le> rl_max_keys lim"
  shows "state_ok st' \<and> length (callers st') \<le> rl_max_keys lim"
  using assms
proof (induction rs arbitrary: st ds)
  case (Cons r rs)
  obtain now key where r: "r = (now, key)" by (cases r)
  obtain st1 bucket d where chk: "check lim st now key = (st1, bucket, d)" by (cases "check lim st now key") auto
  obtain ds1 where "check_all lim st1 rs = (st', ds1)"
    using Cons.prems(1) chk by (auto simp: r split: prod.splits)
  then show ?case
    by (rule Cons.IH [OF _ check_state_ok [OF Cons.prems(2) chk] check_memory [OF Cons.prems(3) chk]])
qed simp

text \<open>The key map is bounded: whatever requests arrive, the limiter tracks at most \<open>max_keys\<close> callers
  and the shared overflow bucket, each once.\<close>

lemma limiter_memory_bounded:
  assumes "check_all (with_max_keys cfg n) empty_state rs = (st, ds)"
  shows "distinct (map fst (arrivals st)) \<and> length (arrivals st) \<le> n + 1"
proof -
  let ?overflow = "filter (\<lambda>e. \<not> (case e of (k, _) \<Rightarrow> k \<noteq> Overflow)) (arrivals st)"
  from check_all_memory [OF assms empty_state_ok(1)]
  have ok: "state_ok st" "length (callers st) \<le> n" by (auto simp: callers_def empty_state_def)
  have "length (arrivals st) = length (callers st) + length ?overflow"
    by (simp only: callers_def sum_length_filter_compl)
  moreover have "distinct (map fst ?overflow)" using ok(1) unfolding state_ok_def by (rule distinct_map_filter)
  moreover have "set (map fst ?overflow) \<subseteq> {Overflow}" by auto
  ultimately have "length (map fst ?overflow) \<le> card {Overflow}"
    by (metis card_mono distinct_card finite.emptyI finite.insertI)
  with \<open>length (arrivals st) = _\<close> ok show ?thesis by (simp add: state_ok_def)
qed

section \<open>Caller networks\<close>

text \<open>Two IPv6 peers share a bucket exactly when they are in one /64 network, or are the same IPv4 caller.\<close>

lemma caller_network_v6:
  assumes "drop_bit 32 a \<noteq> 0xffff" and "drop_bit 32 b \<noteq> (0xffff :: 128 word)"
  shows "caller_network (V6 a) = caller_network (V6 b) \<longleftrightarrow> drop_bit 64 a = drop_bit 64 b"
proof -
  have "x AND push_bit 64 (- 1) = y AND push_bit 64 (- 1) \<longleftrightarrow> drop_bit 64 x = drop_bit 64 y" for x y :: "128 word"
  proof
    assume eq: "x AND push_bit 64 (- 1) = y AND push_bit 64 (- 1)"
    have "drop_bit 64 z = drop_bit 64 (z AND push_bit 64 (- 1))" for z :: "128 word"
      by (intro bit_word_eqI) (auto simp: bit_simps dest: bit_imp_le_length)
    with eq show "drop_bit 64 x = drop_bit 64 y" by metis
  next
    assume eq: "drop_bit 64 x = drop_bit 64 y"
    have "z AND push_bit 64 (- 1) = push_bit 64 (drop_bit 64 z)" for z :: "128 word"
      by (intro bit_word_eqI) (auto simp: bit_simps dest: bit_imp_le_length)
    with eq show "x AND push_bit 64 (- 1) = y AND push_bit 64 (- 1)" by simp
  qed
  with assms show ?thesis by (simp add: caller_network_def)
qed

section \<open>A run at 60 requests per minute, burst 3\<close>

definition sample_config :: rate_limit_config where
  "sample_config = \<lparr>requests_per_minute = 60, burst = 3\<rparr>"

lemma sample_config_ok: "config_ok sample_config"
  by (simp add: config_ok_def sample_config_def U32_MAX_def)

definition sample_run :: "(nat \<times> rate_limit_key) list" where
  "sample_run = [(5, Anonymous), (5, Anonymous), (6, Anonymous), (7, Anonymous)]"

definition sample_limiter :: rate_limiter where
  "sample_limiter = with_max_keys sample_config 10"

definition sample_state :: limiter_state where
  "sample_state = \<lparr>arrivals = [(Anonymous, 3000000005)], next_sweep = None, last_overflow_warning = None\<rparr>"

lemmas sample_simps = sample_config_def sample_limiter_def sample_run_def sample_state_def empty_state_def with_max_keys_def
  config_interval_def from_secs_def check_def admit_key_def

lemma sample_admitted:
  "check_all sample_limiter empty_state sample_run =
     (sample_state, [(5, Anonymous, Allowed), (5, Anonymous, Allowed), (6, Anonymous, Allowed),
       (7, Anonymous, Limited 999999998 2999999998)])"
  by (simp add: sample_simps)


end
