(* ===== verification/Item_History.thy ===== *)
theory Item_History
  imports Items Text_Utils Call_Ledger
begin

text \<open>
  History items as requests, responses and conversations share them (\<open>types/io/item.rs\<close>,
  \<open>types/io/item/item_id.rs\<close>): public ids and their prefixes, admission of client items, and the
  replay of a public output as input (\<open>OutputItem::to_input_item\<close> of \<open>types/io/output.rs\<close> with the
  conversions of \<open>types/io/input.rs\<close>, \<open>input/conversions.rs\<close>, \<open>input/tool_search.rs\<close> and
  \<open>multi_agent/input.rs\<close>).
\<close>

datatype in_out_item = IoInput input_item | IoOutput output_item

section \<open>Replaying an output as input\<close>

definition top_logprob_json :: "top_logprob \<Rightarrow> json" where
  "top_logprob_json l = JObject
     [(''token'', JString (tl_token l)), (''bytes'', JArray (map (\<lambda>b. JNumber (PosInt b)) (tl_bytes l))),
      (''logprob'', JNumber (Float (tl_logprob l)))]"

definition logprob_json :: "output_text_logprob \<Rightarrow> json" where
  "logprob_json l = JObject
     [(''token'', JString (ol_token l)), (''bytes'', JArray (map (\<lambda>b. JNumber (PosInt b)) (ol_bytes l))),
      (''logprob'', JNumber (Float (ol_logprob l))), (''top_logprobs'', JArray (map top_logprob_json (ol_top_logprobs l)))]"

fun input_content_of_output :: "output_message_content \<Rightarrow> input_content" where
  "input_content_of_output (OmcInputText part) = IcInputText part"
| "input_content_of_output (OmcOutputText part) = IcOutputText
     \<lparr>itc_text = otc_text part,
      itc_extra = (case otc_annotations part of None \<Rightarrow> [] | Some annotations \<Rightarrow> [(''annotations'', JArray annotations)])
        @ [(''logprobs'', JArray (map logprob_json (otc_logprobs part)))]\<rparr>"

definition input_message_of_output :: "output_message \<Rightarrow> input_message" where
  "input_message_of_output msg =
     \<lparr>im_agent = om_agent msg, im_id = Some (om_id msg), im_role = om_role msg, im_phase = om_phase msg,
      im_status = Some (om_status msg), im_content = ImcParts (map input_content_of_output (om_content msg))\<rparr>"

definition input_call_of_function :: "function_tool_call \<Rightarrow> input_function_tool_call" where
  "input_call_of_function call =
     \<lparr>ifn_agent = ftc_agent call, ifn_id = Some (ftc_id call), ifn_call_id = ftc_call_id call, ifn_name = ftc_name call,
      ifn_namespace = ftc_namespace call, ifn_arguments = ftc_arguments call, ifn_status = Some (ftc_status call),
      ifn_async_execution = ftc_async_execution call\<rparr>"

definition input_tool_search_of_output :: "tool_search_call \<Rightarrow> tool_search_status + input_tool_search_call" where
  "input_tool_search_of_output call =
     (if tsc_status call \<noteq> TsCompleted then Inl (tsc_status call)
      else Inr \<lparr>its_agent = tsc_agent call, its_id = tsc_id call, its_call_id = tsc_call_id call,
        its_execution = tsc_execution call, its_arguments = tsc_arguments call, its_status = TsCompleted\<rparr>)"

definition input_multi_agent_of_call :: "multi_agent_call \<Rightarrow> input_multi_agent_call" where
  "input_multi_agent_of_call item =
     \<lparr>ima_id = Some (mac_id item), ima_call_id = mac_call_id item, ima_action = mac_action item,
      ima_arguments = mac_arguments item, ima_agent = mac_agent item\<rparr>"

definition input_multi_agent_of_output :: "multi_agent_call_output \<Rightarrow> input_multi_agent_call_output" where
  "input_multi_agent_of_output item =
     \<lparr>imo_id = Some (mao_id item), imo_call_id = mao_call_id item, imo_action = mao_action item,
      imo_output = mao_output item, imo_agent = mao_agent item\<rparr>"

definition input_agent_message_of :: "agent_message \<Rightarrow> input_agent_message" where
  "input_agent_message_of item =
     \<lparr>iam_id = Some (am_id item), iam_author = am_author item, iam_recipient = am_recipient item,
      iam_content = am_content item, iam_agent = am_agent item\<rparr>"

fun to_input_item :: "output_item \<Rightarrow> input_item option" where
  "to_input_item (OiMessage message) = Some (IiMessage (input_message_of_output message))"
| "to_input_item (OiReasoning reasoning) = Some (IiReasoning reasoning)"
| "to_input_item (OiFunctionCall call) = Some (IiFunctionCall (input_call_of_function call))"
| "to_input_item (OiToolSearchCall call) =
     (case input_tool_search_of_output call of Inl _ \<Rightarrow> None | Inr c \<Rightarrow> Some (IiToolSearchCall c))"
| "to_input_item (OiToolSearchOutput out) = Some (IiToolSearchOutput out)"
| "to_input_item (OiCustomToolCall call) = Some (IiCustomToolCall call)"
| "to_input_item (OiShellCall call) = Some (IiShellCall call)"
| "to_input_item (OiWebSearchCall call) = Some (IiWebSearchCall call)"
| "to_input_item (OiMcpCall call) = Some (IiMcpCall call)"
| "to_input_item (OiCodeInterpreterCall call) = Some (IiCodeInterpreterCall call)"
| "to_input_item (OiMcpListTools listing) = Some (IiMcpListTools listing)"
| "to_input_item (OiCompaction item) = Some (IiCompaction item)"
| "to_input_item (OiMultiAgentCall item) = Some (IiMultiAgentCall (input_multi_agent_of_call item))"
| "to_input_item (OiMultiAgentCallOutput item) = Some (IiMultiAgentCallOutput (input_multi_agent_of_output item))"
| "to_input_item (OiAgentMessage item) = Some (IiAgentMessage (input_agent_message_of item))"
| "to_input_item OiUnknown = None"

fun as_input :: "in_out_item \<Rightarrow> input_item option" where
  "as_input (IoInput item) = Some item"
| "as_input (IoOutput item) = to_input_item item"

definition into_input_items :: "in_out_item list \<Rightarrow> input_item list" where
  "into_input_items history = List.map_filter as_input history"

fun into_replayed_input :: "in_out_item \<Rightarrow> in_out_item" where
  "into_replayed_input (IoOutput (OiToolSearchOutput out)) = IoInput (IiToolSearchOutput out)"
| "into_replayed_input (IoOutput (OiToolSearchCall call)) =
     (case input_tool_search_of_output call of
        Inl _ \<Rightarrow> IoOutput (OiToolSearchCall call)
      | Inr c \<Rightarrow> IoInput (IiToolSearchCall c))"
| "into_replayed_input item = item"

section \<open>Public ids\<close>

definition normalize_public_id :: "string \<Rightarrow> string \<Rightarrow> string" where
  "normalize_public_id prefix i = (if i \<noteq> [] \<and> \<not> starts_with i prefix then prefix @ i else i)"

definition normalize_message_id :: "string \<Rightarrow> string" where
  "normalize_message_id = normalize_public_id ''msg_''"

definition normalize_reasoning_id :: "string \<Rightarrow> string" where
  "normalize_reasoning_id = normalize_public_id ''rs_''"

definition normalize_function_call_id :: "string \<Rightarrow> string" where
  "normalize_function_call_id = normalize_public_id ''fc_''"

definition nonempty_id :: "string \<Rightarrow> string option" where
  "nonempty_id i = (if i = [] then None else Some i)"

fun input_id :: "input_item \<Rightarrow> string option" where
  "input_id (IiMultiAgentCall item) = ima_id item"
| "input_id (IiMultiAgentCallOutput item) = imo_id item"
| "input_id (IiAgentMessage item) = iam_id item"
| "input_id (IiMessage item) = im_id item"
| "input_id (IiFunctionCall item) = ifn_id item"
| "input_id (IiCodeInterpreterCall item) = Some (cic_id item)"
| "input_id (IiToolSearchCall item) = Some (its_id item)"
| "input_id (IiToolSearchOutput item) = tso_id item"
| "input_id (IiCustomToolCall item) = nonempty_id (ctc_id item)"
| "input_id (IiShellCall item) = sc_id item"
| "input_id (IiShellCallOutput item) = som_id item"
| "input_id (IiReasoning item) = Some (ro_id item)"
| "input_id (IiMcpListTools item) = Some (mls_id item)"
| "input_id (IiCompaction item) = cmp_id item"
| "input_id (IiWebSearchCall item) = Some (wsc_id item)"
| "input_id (IiMcpCall item) = Some (mc_id item)"
| "input_id (IiCustomToolCallOutput item) = com_id item"
| "input_id (IiFunctionCallOutput item) = frm_id item"
| "input_id IiCompactionTrigger = None"

fun input_id_prefix :: "input_item \<Rightarrow> string option" where
  "input_id_prefix (IiMultiAgentCall _) = Some ''mac_''"
| "input_id_prefix (IiMultiAgentCallOutput _) = Some ''maco_''"
| "input_id_prefix (IiAgentMessage _) = Some ''amsg_''"
| "input_id_prefix (IiMessage _) = Some ''msg_''"
| "input_id_prefix (IiFunctionCall _) = Some ''fc_''"
| "input_id_prefix (IiFunctionCallOutput _) = Some ''fc_''"
| "input_id_prefix (IiCodeInterpreterCall _) = Some ''ci_''"
| "input_id_prefix (IiToolSearchCall _) = Some ''tsc_''"
| "input_id_prefix (IiToolSearchOutput _) = Some ''tso_''"
| "input_id_prefix (IiCustomToolCall _) = Some ''ctc_''"
| "input_id_prefix (IiShellCall _) = Some ''sh_''"
| "input_id_prefix (IiReasoning _) = Some ''rs_''"
| "input_id_prefix (IiMcpListTools _) = Some ''mcpl_''"
| "input_id_prefix (IiCompaction _) = Some ''cmp_''"
| "input_id_prefix (IiWebSearchCall _) = Some ''ws_''"
| "input_id_prefix (IiMcpCall _) = Some ''mcp_''"
| "input_id_prefix (IiShellCallOutput _) = Some ''sho_''"
| "input_id_prefix (IiCustomToolCallOutput _) = Some ''ctco_''"
| "input_id_prefix IiCompactionTrigger = None"

fun output_id :: "output_item \<Rightarrow> string option" where
  "output_id (OiMultiAgentCall item) = Some (mac_id item)"
| "output_id (OiMultiAgentCallOutput item) = Some (mao_id item)"
| "output_id (OiAgentMessage item) = Some (am_id item)"
| "output_id (OiMessage item) = Some (om_id item)"
| "output_id (OiFunctionCall item) = Some (ftc_id item)"
| "output_id (OiCodeInterpreterCall item) = Some (cic_id item)"
| "output_id (OiToolSearchCall item) = Some (tsc_id item)"
| "output_id (OiToolSearchOutput item) = tso_id item"
| "output_id (OiCustomToolCall item) = nonempty_id (ctc_id item)"
| "output_id (OiShellCall item) = sc_id item"
| "output_id (OiWebSearchCall item) = Some (wsc_id item)"
| "output_id (OiMcpCall item) = Some (mc_id item)"
| "output_id (OiMcpListTools item) = Some (mls_id item)"
| "output_id (OiReasoning item) = Some (ro_id item)"
| "output_id (OiCompaction item) = cmp_id item"
| "output_id OiUnknown = None"

fun output_id_prefix :: "output_item \<Rightarrow> string option" where
  "output_id_prefix (OiMultiAgentCall _) = Some ''mac_''"
| "output_id_prefix (OiMultiAgentCallOutput _) = Some ''maco_''"
| "output_id_prefix (OiAgentMessage _) = Some ''amsg_''"
| "output_id_prefix (OiMessage _) = Some ''msg_''"
| "output_id_prefix (OiFunctionCall _) = Some ''fc_''"
| "output_id_prefix (OiCodeInterpreterCall _) = Some ''ci_''"
| "output_id_prefix (OiToolSearchCall _) = Some ''tsc_''"
| "output_id_prefix (OiToolSearchOutput _) = Some ''tso_''"
| "output_id_prefix (OiCustomToolCall _) = Some ''ctc_''"
| "output_id_prefix (OiShellCall _) = Some ''sh_''"
| "output_id_prefix (OiWebSearchCall _) = Some ''ws_''"
| "output_id_prefix (OiMcpCall _) = Some ''mcp_''"
| "output_id_prefix (OiMcpListTools _) = Some ''mcpl_''"
| "output_id_prefix (OiReasoning _) = Some ''rs_''"
| "output_id_prefix (OiCompaction _) = Some ''cmp_''"
| "output_id_prefix OiUnknown = None"

fun item_id :: "in_out_item \<Rightarrow> string option" where
  "item_id (IoInput item) = input_id item"
| "item_id (IoOutput item) = output_id item"

fun item_id_prefix :: "in_out_item \<Rightarrow> string option" where
  "item_id_prefix (IoInput item) = input_id_prefix item"
| "item_id_prefix (IoOutput item) = output_id_prefix item"

section \<open>Client items\<close>

datatype client_item_error =
    InvalidId (ce_param: string) (ce_id: string) (ce_prefix: string)
  | EmptyString (ce_param: string)

fun error_code :: "client_item_error \<Rightarrow> string" where
  "error_code (InvalidId _ _ _) = ''invalid_value''"
| "error_code (EmptyString _) = ''empty_string''"

definition client_call_id_ok :: "string \<Rightarrow> bool" where
  "client_call_id_ok call_id \<longleftrightarrow> call_id \<noteq> []"

definition carried_call_id :: "input_item \<Rightarrow> string option" where
  "carried_call_id item = (case item_call_id item of Some c \<Rightarrow> Some c | None \<Rightarrow> output_call_id item)"

definition wrong_prefix :: "in_out_item \<Rightarrow> string \<Rightarrow> client_item_error option" where
  "wrong_prefix self item =
     (case (item_id self, item_id_prefix self) of
        (Some i, Some prefix) \<Rightarrow>
          if \<not> starts_with i prefix then Some (InvalidId (item @ ''.id'') i (trim_end_matches (CHR ''_'') prefix)) else None
      | _ \<Rightarrow> None)"

definition admit :: "in_out_item \<Rightarrow> string \<Rightarrow> client_item_error + unit" where
  "admit self item =
     (case wrong_prefix self item of
        Some e \<Rightarrow> Inl e
      | None \<Rightarrow>
          (case Option.bind (as_input self) carried_call_id of
             Some c \<Rightarrow> if client_call_id_ok c then Inr () else Inl (EmptyString (item @ ''.call_id''))
           | None \<Rightarrow> Inr ()))"

fun admit_from :: "nat \<Rightarrow> in_out_item list \<Rightarrow> string \<Rightarrow> client_item_error + unit" where
  "admit_from index [] field = Inr ()"
| "admit_from index (item # items) field =
     (case admit item (field @ ''['' @ decimal index @ '']'') of
        Inl e \<Rightarrow> Inl e
      | Inr _ \<Rightarrow> admit_from (Suc index) items field)"

definition admit_all :: "in_out_item list \<Rightarrow> string \<Rightarrow> client_item_error + unit" where
  "admit_all items field = admit_from 0 items field"

definition get_or_insert :: "'a \<Rightarrow> 'a option \<Rightarrow> 'a option" where
  "get_or_insert v slot = (case slot of None \<Rightarrow> Some v | Some w \<Rightarrow> Some w)"

fun complete_omitted_status :: "in_out_item \<Rightarrow> in_out_item" where
  "complete_omitted_status (IoInput (IiFunctionCall call)) =
     IoInput (IiFunctionCall (call\<lparr>ifn_status := get_or_insert MsInProgress (ifn_status call)\<rparr>))"
| "complete_omitted_status (IoInput (IiFunctionCallOutput out)) =
     IoInput (IiFunctionCallOutput (out\<lparr>frm_status := get_or_insert MsCompleted (frm_status out)\<rparr>))"
| "complete_omitted_status (IoInput (IiCustomToolCallOutput out)) =
     IoInput (IiCustomToolCallOutput (out\<lparr>com_status := get_or_insert MsCompleted (com_status out)\<rparr>))"
| "complete_omitted_status (IoInput (IiShellCallOutput out)) =
     IoInput (IiShellCallOutput (out\<lparr>som_status := get_or_insert ShCompleted (som_status out)\<rparr>))"
| "complete_omitted_status item = item"

fun set_input_id :: "string \<Rightarrow> input_item \<Rightarrow> input_item" where
  "set_input_id i (IiMultiAgentCall item) = IiMultiAgentCall (item\<lparr>ima_id := Some i\<rparr>)"
| "set_input_id i (IiMultiAgentCallOutput item) = IiMultiAgentCallOutput (item\<lparr>imo_id := Some i\<rparr>)"
| "set_input_id i (IiAgentMessage item) = IiAgentMessage (item\<lparr>iam_id := Some i\<rparr>)"
| "set_input_id i (IiMessage item) = IiMessage (item\<lparr>im_id := Some i\<rparr>)"
| "set_input_id i (IiFunctionCall item) = IiFunctionCall (item\<lparr>ifn_id := Some i\<rparr>)"
| "set_input_id i (IiShellCall item) = IiShellCall (item\<lparr>sc_id := Some i\<rparr>)"
| "set_input_id i (IiShellCallOutput item) = IiShellCallOutput (item\<lparr>som_id := Some i\<rparr>)"
| "set_input_id i (IiCompaction item) = IiCompaction (item\<lparr>cmp_id := Some i\<rparr>)"
| "set_input_id i (IiToolSearchOutput item) = IiToolSearchOutput (item\<lparr>tso_id := Some i\<rparr>)"
| "set_input_id i (IiCustomToolCallOutput item) = IiCustomToolCallOutput (item\<lparr>com_id := Some i\<rparr>)"
| "set_input_id i (IiCodeInterpreterCall item) = IiCodeInterpreterCall (item\<lparr>cic_id := i\<rparr>)"
| "set_input_id i (IiToolSearchCall item) = IiToolSearchCall (item\<lparr>its_id := i\<rparr>)"
| "set_input_id i (IiCustomToolCall item) = IiCustomToolCall (item\<lparr>ctc_id := i\<rparr>)"
| "set_input_id i (IiReasoning item) = IiReasoning (item\<lparr>ro_id := i\<rparr>)"
| "set_input_id i (IiMcpListTools item) = IiMcpListTools (item\<lparr>mls_id := i\<rparr>)"
| "set_input_id i (IiWebSearchCall item) = IiWebSearchCall (item\<lparr>wsc_id := i\<rparr>)"
| "set_input_id i (IiMcpCall item) = IiMcpCall (item\<lparr>mc_id := i\<rparr>)"
| "set_input_id i (IiFunctionCallOutput item) = IiFunctionCallOutput (item\<lparr>frm_id := Some i\<rparr>)"
| "set_input_id i IiCompactionTrigger = IiCompactionTrigger"

fun set_output_id :: "string \<Rightarrow> output_item \<Rightarrow> output_item" where
  "set_output_id i (OiMultiAgentCall item) = OiMultiAgentCall (item\<lparr>mac_id := i\<rparr>)"
| "set_output_id i (OiMultiAgentCallOutput item) = OiMultiAgentCallOutput (item\<lparr>mao_id := i\<rparr>)"
| "set_output_id i (OiAgentMessage item) = OiAgentMessage (item\<lparr>am_id := i\<rparr>)"
| "set_output_id i (OiMessage item) = OiMessage (item\<lparr>om_id := i\<rparr>)"
| "set_output_id i (OiFunctionCall item) = OiFunctionCall (item\<lparr>ftc_id := i\<rparr>)"
| "set_output_id i (OiCodeInterpreterCall item) = OiCodeInterpreterCall (item\<lparr>cic_id := i\<rparr>)"
| "set_output_id i (OiToolSearchCall item) = OiToolSearchCall (item\<lparr>tsc_id := i\<rparr>)"
| "set_output_id i (OiToolSearchOutput item) = OiToolSearchOutput (item\<lparr>tso_id := Some i\<rparr>)"
| "set_output_id i (OiCustomToolCall item) = OiCustomToolCall (item\<lparr>ctc_id := i\<rparr>)"
| "set_output_id i (OiWebSearchCall item) = OiWebSearchCall (item\<lparr>wsc_id := i\<rparr>)"
| "set_output_id i (OiMcpCall item) = OiMcpCall (item\<lparr>mc_id := i\<rparr>)"
| "set_output_id i (OiMcpListTools item) = OiMcpListTools (item\<lparr>mls_id := i\<rparr>)"
| "set_output_id i (OiReasoning item) = OiReasoning (item\<lparr>ro_id := i\<rparr>)"
| "set_output_id i (OiShellCall item) = OiShellCall (item\<lparr>sc_id := Some i\<rparr>)"
| "set_output_id i (OiCompaction item) = OiCompaction (item\<lparr>cmp_id := Some i\<rparr>)"
| "set_output_id i OiUnknown = OiUnknown"

fun set_id :: "string \<Rightarrow> in_out_item \<Rightarrow> in_out_item" where
  "set_id i (IoInput item) = IoInput (set_input_id i item)"
| "set_id i (IoOutput item) = IoOutput (set_output_id i item)"

fun expand_message :: "in_out_item \<Rightarrow> in_out_item" where
  "expand_message (IoInput (IiMessage message)) = IoInput (IiMessage (message
     \<lparr>im_status := get_or_insert MsCompleted (im_status message),
      im_content := (case im_content message of
         ImcText s \<Rightarrow> ImcParts [IcInputText \<lparr>itc_text = s, itc_extra = []\<rparr>]
       | ImcParts parts \<Rightarrow> ImcParts parts)\<rparr>))"
| "expand_message item = item"

definition into_public :: "string \<Rightarrow> in_out_item \<Rightarrow> in_out_item" where
  "into_public i item = expand_message (complete_omitted_status (set_id i item))"

section \<open>Lemmas\<close>

lemma replay_id: "to_input_item out = Some item \<Longrightarrow> input_id item = output_id out \<and> input_id_prefix item = output_id_prefix out"
  by (cases out) (auto simp: input_message_of_output_def input_call_of_function_def input_tool_search_of_output_def
      input_multi_agent_of_call_def input_multi_agent_of_output_def input_agent_message_of_def split: sum.splits if_splits)

lemma set_id_replay:
  "to_input_item (set_output_id i out) = map_option (set_input_id i) (to_input_item out)"
  by (cases out) (auto simp: input_message_of_output_def input_call_of_function_def input_tool_search_of_output_def
      input_multi_agent_of_call_def input_multi_agent_of_output_def input_agent_message_of_def split: sum.splits)

lemma set_input_id_keeps:
  "input_id_prefix (set_input_id i item) = input_id_prefix item"
  "item_call_id (set_input_id i item) = item_call_id item" "output_call_id (set_input_id i item) = output_call_id item"
  "is_async_call (set_input_id i item) = is_async_call item"
  by (cases item; simp)+

lemma set_input_id_carried: "carried_call_id (set_input_id i item) = carried_call_id item"
  by (simp add: carried_call_id_def set_input_id_keeps split: option.split)

lemma set_output_id_prefix: "output_id_prefix (set_output_id i item) = output_id_prefix item"
  by (cases item) auto

lemma set_id_id: "item_id_prefix item \<noteq> None \<Longrightarrow> i \<noteq> [] \<Longrightarrow> item_id (set_id i item) = Some i"
proof (cases item)
  case (IoInput x)
  then show "item_id_prefix item \<noteq> None \<Longrightarrow> i \<noteq> [] \<Longrightarrow> ?thesis" by (cases x) (auto simp: nonempty_id_def)
next
  case (IoOutput x)
  then show "item_id_prefix item \<noteq> None \<Longrightarrow> i \<noteq> [] \<Longrightarrow> ?thesis" by (cases x) (auto simp: nonempty_id_def)
qed

definition item_carried :: "in_out_item \<Rightarrow> string option" where
  "item_carried item = Option.bind (as_input item) carried_call_id"

lemma set_id_keeps: "item_id_prefix (set_id i item) = item_id_prefix item" "item_carried (set_id i item) = item_carried item"
proof -
  show "item_id_prefix (set_id i item) = item_id_prefix item"
    by (cases item) (simp_all add: set_input_id_keeps set_output_id_prefix)
  show "item_carried (set_id i item) = item_carried item"
  proof (cases item)
    case (IoOutput out)
    then show ?thesis by (cases "to_input_item out") (simp_all add: item_carried_def set_id_replay set_input_id_carried)
  qed (simp add: item_carried_def set_input_id_carried)
qed

lemma complete_input_keeps:
  "\<exists>item'. complete_omitted_status (IoInput item) = IoInput item' \<and> input_id item' = input_id item \<and>
     input_id_prefix item' = input_id_prefix item \<and> carried_call_id item' = carried_call_id item"
  by (cases item) (simp_all add: carried_call_id_def)

lemma complete_omitted_status_keeps:
  "item_id (complete_omitted_status item) = item_id item \<and> item_id_prefix (complete_omitted_status item) = item_id_prefix item \<and>
   item_carried (complete_omitted_status item) = item_carried item"
proof (cases item)
  case (IoInput x)
  then show ?thesis using complete_input_keeps [of x] by (auto simp: item_carried_def)
qed simp

lemma expand_input_keeps:
  "\<exists>item'. expand_message (IoInput item) = IoInput item' \<and> input_id item' = input_id item \<and>
     input_id_prefix item' = input_id_prefix item \<and> carried_call_id item' = carried_call_id item"
  by (cases item) (simp_all add: carried_call_id_def)

lemma expand_message_keeps:
  "item_id (expand_message item) = item_id item \<and> item_id_prefix (expand_message item) = item_id_prefix item \<and>
   item_carried (expand_message item) = item_carried item"
proof (cases item)
  case (IoInput x)
  then show ?thesis using expand_input_keeps [of x] by (auto simp: item_carried_def)
qed simp

lemma admit_ok_iff:
  "admit item p = Inr () \<longleftrightarrow>
     (\<forall>i prefix. item_id item = Some i \<longrightarrow> item_id_prefix item = Some prefix \<longrightarrow> starts_with i prefix) \<and>
     item_carried item \<noteq> Some []"
  by (auto simp: admit_def wrong_prefix_def item_carried_def client_call_id_ok_def split: option.splits)

lemma replay_admission: "to_input_item out = Some item \<Longrightarrow> admit (IoOutput out) p = admit (IoInput item) p"
proof -
  assume r: "to_input_item out = Some item"
  then have "wrong_prefix (IoOutput out) p = wrong_prefix (IoInput item) p" by (simp add: wrong_prefix_def replay_id)
  moreover have "as_input (IoOutput out) = as_input (IoInput item)" using r by simp
  ultimately show ?thesis by (simp only: admit_def)
qed

lemma into_public_keeps:
  assumes "item_id_prefix item = Some prefix" and "i \<noteq> []"
  shows "item_id (into_public i item) = Some i \<and> item_id_prefix (into_public i item) = Some prefix \<and>
    item_carried (into_public i item) = item_carried item"
  using assms set_id_id [of item i] by (simp add: into_public_def expand_message_keeps complete_omitted_status_keeps set_id_keeps)

text \<open>What the gateway returns can be sent back: an item that was given a stored id of its own type
  keeps the call it names, passes the admission of client items, and so does its replay as input;
  and in general an output is admitted exactly as its replay is.\<close>

lemma public_item_readmitted:
  assumes "item_id_prefix item = Some prefix" and "i = prefix @ suffix" and "item_carried item \<noteq> Some []"
  shows "item_id (into_public i item) = Some i \<and> item_carried (into_public i item) = item_carried item \<and>
    admit (into_public i item) param = Inr () \<and>
    (\<forall>replayed. as_input (into_public i item) = Some replayed \<longrightarrow> admit (IoInput replayed) param = Inr ())"
proof -
  have "prefix \<noteq> []"
  proof (cases item)
    case (IoInput x)
    then show ?thesis using assms(1) by (cases x) auto
  next
    case (IoOutput x)
    then show ?thesis using assms(1) by (cases x) auto
  qed
  then have keeps: "item_id (into_public i item) = Some i" "item_id_prefix (into_public i item) = Some prefix"
    "item_carried (into_public i item) = item_carried item"
    using into_public_keeps [OF assms(1)] assms(2) by auto
  then have ok: "admit (into_public i item) param = Inr ()" using assms(2,3) by (auto simp: admit_ok_iff starts_with_iff)
  moreover have "admit (IoInput replayed) param = Inr ()" if "as_input (into_public i item) = Some replayed" for replayed
    using that ok replay_admission by (cases "into_public i item") auto
  ultimately show ?thesis using keeps by blast
qed

text \<open>A request's items are all admitted or the error names the first refused one: \<open>admit_all\<close> fails
  exactly when some item is refused, with the error of the first such item under its position.\<close>

lemma admit_from_error:
  "admit_from n items field = Inl e \<longleftrightarrow>
     (\<exists>k<length items. admit (items ! k) (field @ ''['' @ decimal (n + k) @ '']'') = Inl e \<and>
        (\<forall>j<k. admit (items ! j) (field @ ''['' @ decimal (n + j) @ '']'') = Inr ()))"
proof (induction items arbitrary: n)
  case (Cons item items)
  show ?case
  proof (cases "admit item (field @ ''['' @ decimal n @ '']'')")
    case (Inl e')
    then show ?thesis by (simp add: Ex_less_Suc2 All_less_Suc2)
  next
    case (Inr u)
    then have "admit_from n (item # items) field = Inl e \<longleftrightarrow> admit_from (Suc n) items field = Inl e" by simp
    also have "\<dots> \<longleftrightarrow> (\<exists>k<length items. admit (items ! k) (field @ ''['' @ decimal (n + Suc k) @ '']'') = Inl e \<and>
        (\<forall>j<k. admit (items ! j) (field @ ''['' @ decimal (n + Suc j) @ '']'') = Inr ()))"
      by (simp add: Cons.IH)
    also have "\<dots> \<longleftrightarrow> (\<exists>k<Suc (length items). admit ((item # items) ! k) (field @ ''['' @ decimal (n + k) @ '']'') = Inl e \<and>
        (\<forall>j<k. admit ((item # items) ! j) (field @ ''['' @ decimal (n + j) @ '']'') = Inr ()))"
      using Inr by (simp only: Ex_less_Suc2 All_less_Suc2 nth_Cons_0 nth_Cons_Suc) simp
    finally show ?thesis by simp
  qed
qed simp

definition sample_call_item :: in_out_item where
  "sample_call_item = IoOutput (OiFunctionCall \<lparr>ftc_agent = None, ftc_id = ''x'', ftc_call_id = ''call_1'', ftc_name = ''f'',
     ftc_namespace = None, ftc_arguments = ''{}'', ftc_status = MsCompleted, ftc_async_execution = False\<rparr>)"

end
