(* ===== verification/Json_Values.thy ===== *)
theory Json_Values
  imports Items
begin

text \<open>
  JSON values as the code compares and writes them: equality of \<open>serde_json::Value\<close>, the collection of members into an
  object, and the members of a function declaration (\<open>types/tools/params.rs\<close>).

  \<open>serde_json\<close> keeps the order of an object's members and compares them without it. Its objects have distinct keys
  (\<open>json_wf\<close>), which lists do not enforce.
\<close>

text \<open>Equality of JSON values; the order of an object's members does not matter.\<close>

function (sequential) json_equal :: "json \<Rightarrow> json \<Rightarrow> bool" where
  "json_equal (JObject xs) v =
     (case v of
        JObject ys \<Rightarrow> length xs = length ys \<and>
          (\<forall>e \<in> set xs. case map_of ys (fst e) of Some w \<Rightarrow> json_equal (snd e) w | None \<Rightarrow> False)
      | _ \<Rightarrow> False)"
| "json_equal (JArray xs) v =
     (case v of
        JArray ys \<Rightarrow> length xs = length ys \<and> (\<forall>p \<in> set (zip xs ys). json_equal (fst p) (snd p))
      | _ \<Rightarrow> False)"
| "json_equal v w = (v = w)"
  by pat_completeness auto

lemma member_size: "x \<in> set xs \<Longrightarrow> f x < Suc (size_list f xs)"
  by (induction xs) auto

lemma object_member_size: "(k, v :: json) \<in> set xs \<Longrightarrow> size v < Suc (size_list (size_prod (\<lambda>x. 0) size) xs)"
  by (induction xs) auto

termination json_equal
  by (relation "measure (\<lambda>(v, w). size v)")
    (auto simp: object_member_size member_size dest: set_zip_leftD)

definition collect_map :: "(string \<times> json) list \<Rightarrow> (string \<times> json) list" where
  "collect_map entries = fold (\<lambda>(k, v) m. AList.update k v m) entries []"

lemma collect_map_distinct:
  assumes "distinct (map fst entries)"
  shows "collect_map entries = entries"
proof -
  have "fold (\<lambda>(k, v) m. AList.update k v m) es acc = acc @ es" if "distinct (map fst (acc @ es))" for es acc
    using that
  proof (induction es arbitrary: acc)
    case (Cons e es)
    obtain k v where e: "e = (k, v)" by fastforce
    have "map_of acc k = None" using Cons.prems e by (auto simp: map_of_eq_None_iff)
    then have "AList.update k v acc = acc @ [(k, v)]" by (rule alist_update_fresh)
    then show ?case using Cons.IH [of "acc @ [(k, v)]"] Cons.prems e by simp
  qed simp
  from this [of "[]" entries] assms show ?thesis by (simp add: collect_map_def)
qed

text \<open>How serde writes a function: absent members are skipped, members it does not know follow.\<close>

definition optional_field :: "string \<Rightarrow> ('a \<Rightarrow> json) \<Rightarrow> 'a option \<Rightarrow> (string \<times> json) list" where
  "optional_field name write v = (case v of None \<Rightarrow> [] | Some x \<Rightarrow> [(name, write x)])"

definition function_fields :: "function_tool_param \<Rightarrow> (string \<times> json) list" where
  "function_fields p =
     (''name'', JString (ftp_name p)) # optional_field ''description'' JString (ftp_description p) @
     optional_field ''parameters'' id (ftp_parameters p) @ optional_field ''strict'' JBool (ftp_strict p) @
     optional_field ''defer_loading'' JBool (ftp_defer_loading p) @ optional_field ''async'' JBool (ftp_async_execution p) @
     ftp_extra p"


text \<open>Values that \<open>serde_json\<close> can hold.\<close>

function (sequential) json_wf :: "json \<Rightarrow> bool" where
  "json_wf (JObject xs) \<longleftrightarrow> distinct (map fst xs) \<and> (\<forall>e \<in> set xs. json_wf (snd e))"
| "json_wf (JArray xs) \<longleftrightarrow> (\<forall>v \<in> set xs. json_wf v)"
| "json_wf _ \<longleftrightarrow> True"
  by pat_completeness auto

termination json_wf
  by (relation "measure size") (auto simp: object_member_size member_size)

lemma json_equal_refl: "json_wf v \<Longrightarrow> json_equal v v"
proof (induction v rule: json_wf.induct)
  case (1 xs)
  then have "map_of xs (fst e) = Some (snd e) \<and> json_equal (snd e) (snd e)" if "e \<in> set xs" for e
    using that by (cases e) auto
  then show ?case by fastforce
next
  case (2 xs)
  then show ?case by (auto simp: set_zip)
qed simp_all

end
