(* ===== verification/Search_History.thy ===== *)
theory Search_History
  imports Item_History Json_Values
begin

text \<open>
  What the model sees of tool-search history (\<open>types/io/input/search_history.rs\<close>): the pairing of search
  calls and outputs, the defects a history may have, and the lowering of each paired item to the
  function call or output the model saw.

  Serialization is a parameter: \<open>ser\<close> gives the text of a JSON value, \<open>None\<close> where it fails.
\<close>

section \<open>Model text\<close>

type_synonym json_text = "json \<Rightarrow> string option"

definition TOOL_SEARCH_NAME :: string where
  "TOOL_SEARCH_NAME = ''tool_search''"

definition UNSERIALIZABLE_SEARCH_OUTPUT :: string where
  "UNSERIALIZABLE_SEARCH_OUTPUT = ''{'' @ [CHR 0x22] @ ''tools'' @ [CHR 0x22] @ '':[]}''"

definition HOSTED_EMPTY_SEARCH_OUTPUT :: string where
  "HOSTED_EMPTY_SEARCH_OUTPUT = ''{'' @ [CHR 0x22] @ ''tools'' @ [CHR 0x22] @ '':[],'' @ [CHR 0x22] @ ''note'' @ [CHR 0x22] @ '':'' @ [CHR 0x22] @
     ''No tools were loaded. '' @ [CHR 0x60] @ ''query'' @ [CHR 0x60] @ '' keeps only tools whose name or description contains it, and tools loaded earlier in this conversation are not returned again. Search the path again without '' @ [CHR 0x60] @ ''query'' @ [CHR 0x60] @ '', or call a tool that is already loaded.'' @ [CHR 0x22] @ ''}''"

fun model_visible_tool :: "responses_tool \<Rightarrow> json option" where
  "model_visible_tool (RtFunction definition) = Some (JObject ((''type'', JString ''function'') # function_fields definition))"
| "model_visible_tool (RtNamespace namespace) = Some (JObject
     ((''type'', JString ''namespace'') # (''name'', JString (cnp_name namespace)) #
      optional_field ''description'' JString (cnp_description namespace)))"
| "model_visible_tool _ = None"

definition canonical_search_output :: "json_text \<Rightarrow> responses_tool list \<Rightarrow> string" where
  "canonical_search_output ser tools =
     (case ser (JObject [(''tools'', JArray (List.map_filter model_visible_tool tools))]) of
        None \<Rightarrow> UNSERIALIZABLE_SEARCH_OUTPUT
      | Some s \<Rightarrow> s)"

definition hosted_search_output_text :: "json_text \<Rightarrow> responses_tool list \<Rightarrow> string" where
  "hosted_search_output_text ser tools =
     (if tools = [] then HOSTED_EMPTY_SEARCH_OUTPUT else canonical_search_output ser tools)"

definition hosted_private_call_id :: "string \<Rightarrow> string" where
  "hosted_private_call_id i = i"

definition private_search_call :: "json_text \<Rightarrow> agent_attribution option \<Rightarrow> string \<Rightarrow> json \<Rightarrow> input_item" where
  "private_search_call ser agent call_id arguments = IiFunctionCall
     \<lparr>ifn_agent = agent, ifn_id = None, ifn_call_id = call_id, ifn_name = TOOL_SEARCH_NAME, ifn_namespace = None,
      ifn_arguments = (case ser arguments of None \<Rightarrow> ''{}'' | Some s \<Rightarrow> s), ifn_status = Some MsCompleted,
      ifn_async_execution = False\<rparr>"

definition model_search_call :: "json_text \<Rightarrow> input_tool_search_call \<Rightarrow> string \<Rightarrow> input_item" where
  "model_search_call ser call call_id = private_search_call ser (its_agent call) call_id (its_arguments call)"

definition model_search_output :: "json_text \<Rightarrow> tool_search_output_message \<Rightarrow> string \<Rightarrow> input_item" where
  "model_search_output ser out call_id = IiFunctionCallOutput
     \<lparr>frm_id = None, frm_status = None, frm_call_id = call_id,
      frm_output = TcoText (case tso_execution out of
        TsServer \<Rightarrow> hosted_search_output_text ser (tso_tools out)
      | TsClient \<Rightarrow> canonical_search_output ser (tso_tools out))\<rparr>"

section \<open>Pairing\<close>

datatype search_pairing = Paired string | OpenCall | UnmatchedOutput

datatype search_history_defect =
    DuplicateCallItemId
  | DuplicateHostedCallId
  | HostedOutputWithoutCall
  | IncompleteOutput
  | OpenHostedCall

record search_history =
  sh_pairings :: "search_pairing option list"
  sh_defects :: "search_history_defect option list"
  sh_open_hosted_call :: bool

fun is_search_item :: "input_item \<Rightarrow> bool" where
  "is_search_item (IiToolSearchCall _) = True"
| "is_search_item (IiToolSearchOutput _) = True"
| "is_search_item _ = False"

text \<open>The pairings vector is filled left to right, so the position of the next item is its length.\<close>

type_synonym pairing_state = "search_pairing option list \<times> nat list"

fun pair_item :: "pairing_state \<Rightarrow> input_item \<Rightarrow> pairing_state" where
  "pair_item (pairings, open_calls) (IiToolSearchCall call) =
     (case its_execution call of
        TsServer \<Rightarrow> (pairings @ [Some (Paired (hosted_private_call_id (its_id call)))], open_calls @ [length pairings])
      | TsClient \<Rightarrow> (pairings @ [Some (case its_call_id call of Some c \<Rightarrow> Paired c | None \<Rightarrow> OpenCall)], open_calls))"
| "pair_item (pairings, open_calls) (IiToolSearchOutput out) =
     (case tso_execution out of
        TsServer \<Rightarrow>
          (case open_calls of
             [] \<Rightarrow> (pairings @ [Some UnmatchedOutput], [])
           | i # rest \<Rightarrow>
               (pairings @ [Some (case pairings ! i of Some (Paired c) \<Rightarrow> Paired c | _ \<Rightarrow> UnmatchedOutput)], rest))
      | TsClient \<Rightarrow> (pairings @ [Some (case tso_call_id out of Some c \<Rightarrow> Paired c | None \<Rightarrow> UnmatchedOutput)], open_calls))"
| "pair_item (pairings, open_calls) _ = (pairings @ [None], open_calls)"

definition mark_open :: "nat list \<Rightarrow> search_pairing option list \<Rightarrow> search_pairing option list" where
  "mark_open positions pairings = foldl (\<lambda>ps i. ps[i := Some OpenCall]) pairings positions"

fun find_defects ::
  "string set \<Rightarrow> string set \<Rightarrow> string set \<Rightarrow> (input_item \<times> search_pairing option) list \<Rightarrow> search_history_defect option list" where
  "find_defects client seen hosted [] = []"
| "find_defects client seen hosted ((IiToolSearchCall call, pairing) # rest) =
     (if its_id call \<in> seen then Some DuplicateCallItemId # find_defects client seen hosted rest
      else let seen' = insert (its_id call) seen in
        case (pairing, its_execution call) of
          (Some (Paired c), TsServer) \<Rightarrow>
            if c \<in> client then Some DuplicateHostedCallId # find_defects client seen' hosted rest
            else if c \<in> hosted then Some DuplicateHostedCallId # find_defects client seen' hosted rest
            else None # find_defects client seen' (insert c hosted) rest
        | _ \<Rightarrow> None # find_defects client seen' hosted rest)"
| "find_defects client seen hosted ((IiToolSearchOutput out, pairing) # rest) =
     (if tso_execution out = TsServer \<and> pairing = Some UnmatchedOutput then Some HostedOutputWithoutCall
      else if tso_status out \<noteq> TsCompleted then Some IncompleteOutput else None) # find_defects client seen hosted rest"
| "find_defects client seen hosted (_ # rest) = None # find_defects client seen hosted rest"

definition history_defects :: "input_item list \<Rightarrow> search_pairing option list \<Rightarrow> search_history_defect option list" where
  "history_defects items pairings =
     find_defects (set (List.map_filter item_call_id items)) {} {} (zip items pairings)"

definition scan_searches :: "input_item list \<Rightarrow> search_history" where
  "scan_searches items =
     (case foldl pair_item ([], []) items of (pairings, open_calls) \<Rightarrow>
      let pairings = mark_open open_calls pairings
      in \<lparr>sh_pairings = pairings, sh_defects = history_defects items pairings, sh_open_hosted_call = open_calls \<noteq> []\<rparr>)"

definition defect :: "search_history \<Rightarrow> nat \<Rightarrow> search_history_defect option" where
  "defect h position = (if position < length (sh_defects h) then sh_defects h ! position else None)"

definition pairing :: "search_history \<Rightarrow> nat \<Rightarrow> search_pairing option" where
  "pairing h position = (if position < length (sh_pairings h) then sh_pairings h ! position else None)"

definition lowered :: "json_text \<Rightarrow> search_history \<Rightarrow> nat \<Rightarrow> input_item \<Rightarrow> input_item option" where
  "lowered ser h position item =
     (case pairing h position of
        Some (Paired c) \<Rightarrow>
          (case item of
             IiToolSearchCall call \<Rightarrow> Some (model_search_call ser call c)
           | IiToolSearchOutput out \<Rightarrow> Some (model_search_output ser out c)
           | _ \<Rightarrow> None)
      | _ \<Rightarrow> None)"

definition lower_searches :: "json_text \<Rightarrow> input_item list \<Rightarrow> input_item list" where
  "lower_searches ser items =
     (let h = scan_searches items
      in List.map_filter (\<lambda>(position, item). if is_search_item item then lowered ser h position item else Some item)
           (List.enumerate 0 items))"

fun completed_search_tools :: "in_out_item \<Rightarrow> responses_tool list" where
  "completed_search_tools (IoInput (IiToolSearchOutput out)) = (if tso_status out = TsCompleted then tso_tools out else [])"
| "completed_search_tools (IoOutput (OiToolSearchOutput out)) = (if tso_status out = TsCompleted then tso_tools out else [])"
| "completed_search_tools _ = []"

fun function_tool_name :: "responses_tool \<Rightarrow> string option" where
  "function_tool_name (RtFunction definition) = Some (ftp_name definition)"
| "function_tool_name _ = None"

definition searched_function_names :: "in_out_item list \<Rightarrow> string set" where
  "searched_function_names items = set (List.map_filter function_tool_name (concat (map completed_search_tools items)))"

section \<open>First in, first out\<close>

fun hosted_call :: "input_item \<Rightarrow> string option" where
  "hosted_call (IiToolSearchCall call) = (if its_execution call = TsServer then Some (its_id call) else None)"
| "hosted_call _ = None"

fun hosted_output :: "input_item \<Rightarrow> bool" where
  "hosted_output (IiToolSearchOutput out) = (tso_execution out = TsServer)"
| "hosted_output _ = False"

definition positions :: "('a \<Rightarrow> nat \<Rightarrow> bool) \<Rightarrow> 'a list \<Rightarrow> nat list" where
  "positions P xs = filter (\<lambda>i. P (xs ! i) i) [0..<length xs]"

lemma positions_snoc: "positions P (xs @ [x]) = positions P xs @ (if P x (length xs) then [length xs] else [])"
proof -
  have "filter (\<lambda>i. P ((xs @ [x]) ! i) i) [0..<length xs] = filter (\<lambda>i. P (xs ! i) i) [0..<length xs]"
    by (rule filter_cong) (auto simp: nth_append)
  then show ?thesis by (simp add: positions_def)
qed

lemma positions_mem [simp]: "i \<in> set (positions P xs) \<longleftrightarrow> i < length xs \<and> P (xs ! i) i"
  by (auto simp: positions_def)

lemma sorted_positions: "sorted_wrt (<) (positions P xs)"
  by (simp add: positions_def sorted_wrt_filter)

definition hosted_calls :: "input_item list \<Rightarrow> nat list" where
  "hosted_calls items = positions (\<lambda>item _. hosted_call item \<noteq> None) items"

definition paired_at :: "search_pairing option list \<Rightarrow> nat \<Rightarrow> bool" where
  "paired_at ps i \<longleftrightarrow> (case ps ! i of Some (Paired _) \<Rightarrow> True | _ \<Rightarrow> False)"

definition matched_outputs :: "input_item list \<Rightarrow> search_pairing option list \<Rightarrow> nat list" where
  "matched_outputs items ps = positions (\<lambda>item i. hosted_output item \<and> paired_at ps i) items"

definition pairing_inv :: "input_item list \<Rightarrow> pairing_state \<Rightarrow> bool" where
  "pairing_inv items st \<longleftrightarrow>
     (case st of (ps, op) \<Rightarrow>
      length ps = length items \<and> length (matched_outputs items ps) \<le> length (hosted_calls items) \<and>
      op = drop (length (matched_outputs items ps)) (hosted_calls items) \<and>
      (\<forall>k<length (matched_outputs items ps).
         hosted_calls items ! k < matched_outputs items ps ! k \<and>
         ps ! (matched_outputs items ps ! k) = map_option Paired (hosted_call (items ! (hosted_calls items ! k)))) \<and>
      (\<forall>i<length items. hosted_call (items ! i) \<noteq> None \<longrightarrow> ps ! i = map_option Paired (hosted_call (items ! i))) \<and>
      (\<forall>i<length items. hosted_output (items ! i) \<longrightarrow> paired_at ps i \<or> ps ! i = Some UnmatchedOutput))"

lemma pair_item_length: "length (fst (pair_item st item)) = Suc (length (fst st))"
  by (cases st; cases item) (auto split: tool_search_execution.splits list.splits)

lemma matched_outputs_snoc:
  assumes "length ps = length items"
  shows "matched_outputs (items @ [item]) (ps @ [p]) =
    matched_outputs items ps @ (if hosted_output item \<and> paired_at [p] 0 then [length items] else [])"
proof -
  have "positions (\<lambda>x i. hosted_output x \<and> paired_at (ps @ [p]) i) items = positions (\<lambda>x i. hosted_output x \<and> paired_at ps i) items"
    unfolding positions_def by (rule filter_cong) (auto simp: paired_at_def nth_append assms)
  then show ?thesis using assms by (simp add: matched_outputs_def positions_snoc paired_at_def nth_append)
qed

lemma hosted_calls_snoc:
  "hosted_calls (items @ [item]) = hosted_calls items @ (if hosted_call item \<noteq> None then [length items] else [])"
  by (simp add: hosted_calls_def positions_snoc)

lemma positions_bounds:
  "k < length (hosted_calls items) \<Longrightarrow> hosted_calls items ! k < length items \<and> hosted_call (items ! (hosted_calls items ! k)) \<noteq> None"
  "k < length (matched_outputs items ps) \<Longrightarrow> matched_outputs items ps ! k < length items \<and>
     hosted_output (items ! (matched_outputs items ps ! k)) \<and> paired_at ps (matched_outputs items ps ! k)"
proof -
  assume "k < length (hosted_calls items)"
  then have "hosted_calls items ! k \<in> set (hosted_calls items)" by simp
  then show "hosted_calls items ! k < length items \<and> hosted_call (items ! (hosted_calls items ! k)) \<noteq> None"
    by (simp add: hosted_calls_def)
next
  assume "k < length (matched_outputs items ps)"
  then have "matched_outputs items ps ! k \<in> set (matched_outputs items ps)" by simp
  then show "matched_outputs items ps ! k < length items \<and>
     hosted_output (items ! (matched_outputs items ps ! k)) \<and> paired_at ps (matched_outputs items ps ! k)"
    by (simp add: matched_outputs_def)
qed

lemma paired_at_snoc: "length ps = n \<Longrightarrow> paired_at (ps @ [p]) i = (if i < n then paired_at ps i else if i = n then paired_at [p] 0 else paired_at (ps @ [p]) i)"
  by (auto simp: paired_at_def nth_append)

text \<open>The parts of the invariant that only speak of the items seen so far survive a new item.\<close>

lemma pairing_inv_old:
  assumes "pairing_inv items (ps, op)" and "k < length (matched_outputs items ps)"
  shows "hosted_calls items ! k < matched_outputs items ps ! k \<and>
    (ps @ [p]) ! (matched_outputs items ps ! k) = map_option Paired (hosted_call ((items @ [item]) ! (hosted_calls items ! k)))"
  using assms positions_bounds(2) [OF assms(2)] positions_bounds(1) [of k items]
  by (auto simp: pairing_inv_def nth_append)

lemma pairing_inv_plain:
  assumes "pairing_inv items (ps, op)" and "hosted_call item = None" and "\<not> hosted_output item"
  shows "pairing_inv (items @ [item]) (ps @ [p], op)"
  using assms pairing_inv_old [OF assms(1)]
  by (auto simp: pairing_inv_def matched_outputs_snoc hosted_calls_snoc nth_append less_Suc_eq paired_at_def)

lemma pairing_inv_call:
  assumes inv: "pairing_inv items (ps, op)" and call: "hosted_call item = Some c" and "\<not> hosted_output item"
  shows "pairing_inv (items @ [item]) (ps @ [Some (Paired c)], op @ [length ps])"
proof -
  have len: "length ps = length items" using inv by (simp add: pairing_inv_def)
  have M: "matched_outputs (items @ [item]) (ps @ [Some (Paired c)]) = matched_outputs items ps"
    using len assms(3) by (simp add: matched_outputs_snoc)
  have C: "hosted_calls (items @ [item]) = hosted_calls items @ [length items]" using call by (simp add: hosted_calls_snoc)
  have old: "(hosted_calls items @ [length items]) ! k < matched_outputs items ps ! k \<and>
    (ps @ [Some (Paired c)]) ! (matched_outputs items ps ! k) =
      map_option Paired (hosted_call ((items @ [item]) ! ((hosted_calls items @ [length items]) ! k)))"
    if "k < length (matched_outputs items ps)" for k
    using pairing_inv_old [OF inv that] that inv by (simp add: pairing_inv_def nth_append)
  show ?thesis using inv old call assms(3)
    by (auto simp: pairing_inv_def M C len nth_append less_Suc_eq paired_at_def)
qed

lemma pairing_inv_output:
  assumes inv: "pairing_inv items (ps, i # rest)" and call: "hosted_call item = None" and "hosted_output item"
  shows "\<exists>c. ps ! i = Some (Paired c) \<and> pairing_inv (items @ [item]) (ps @ [Some (Paired c)], rest)"
proof -
  let ?n = "length (matched_outputs items ps)"
  have len: "length ps = length items" and n: "?n < length (hosted_calls items)"
    and op: "i # rest = drop ?n (hosted_calls items)"
    using inv by (auto simp: pairing_inv_def) (metis drop_all list.distinct(1) not_le)
  then have i: "i = hosted_calls items ! ?n" and rest: "rest = drop (Suc ?n) (hosted_calls items)"
    by (metis Cons_nth_drop_Suc list.inject)+
  with positions_bounds(1) [OF n] have ib: "i < length items" "hosted_call (items ! i) \<noteq> None" by auto
  then obtain c where c: "hosted_call (items ! i) = Some c" "ps ! i = Some (Paired c)"
    using inv by (auto simp: pairing_inv_def)
  have M: "matched_outputs (items @ [item]) (ps @ [Some (Paired c)]) = matched_outputs items ps @ [length items]"
    using len assms(3) by (simp add: matched_outputs_snoc paired_at_def)
  have C: "hosted_calls (items @ [item]) = hosted_calls items" using call by (simp add: hosted_calls_snoc)
  have "hosted_calls items ! k < (matched_outputs items ps @ [length items]) ! k \<and>
    (ps @ [Some (Paired c)]) ! ((matched_outputs items ps @ [length items]) ! k) =
      map_option Paired (hosted_call ((items @ [item]) ! (hosted_calls items ! k)))" if "k < Suc ?n" for k
  proof (cases "k = ?n")
    case True
    then show ?thesis using ib c i len by (auto simp: nth_append)
  next
    case False
    with that have "k < ?n" by simp
    with pairing_inv_old [OF inv this] show ?thesis by (simp add: nth_append)
  qed
  then have "pairing_inv (items @ [item]) (ps @ [Some (Paired c)], rest)"
    using inv call n rest by (auto simp: pairing_inv_def M C nth_append less_Suc_eq paired_at_def)
  with c(2) show ?thesis by blast
qed

lemma pairing_inv_unmatched:
  assumes inv: "pairing_inv items (ps, [])" and call: "hosted_call item = None" and "hosted_output item"
  shows "pairing_inv (items @ [item]) (ps @ [Some UnmatchedOutput], [])"
  using assms pairing_inv_old [OF inv]
  by (auto simp: pairing_inv_def matched_outputs_snoc hosted_calls_snoc nth_append less_Suc_eq paired_at_def)

lemma pairing_inv_step: "pairing_inv items (ps, op) \<Longrightarrow> pairing_inv (items @ [item]) (pair_item (ps, op) item)"
proof (cases item)
  case (IiToolSearchCall call)
  assume "pairing_inv items (ps, op)"
  with IiToolSearchCall pairing_inv_call [of items ps op item "its_id call"] pairing_inv_plain [of items ps op item]
  show ?thesis by (cases "its_execution call") (auto simp: hosted_private_call_id_def)
next
  case (IiToolSearchOutput out)
  assume "pairing_inv items (ps, op)"
  with IiToolSearchOutput pairing_inv_output [of items ps "hd op" "tl op" item] pairing_inv_unmatched [of items ps item]
    pairing_inv_plain [of items ps op item]
  show ?thesis by (cases "tso_execution out"; cases op) auto
qed (use pairing_inv_plain in auto)

lemma pairing_inv_scan: "pairing_inv items (foldl pair_item ([], []) items)"
proof (induction items rule: rev_induct)
  case Nil
  show ?case by (simp add: pairing_inv_def matched_outputs_def hosted_calls_def positions_def)
next
  case (snoc item items)
  then show ?case using pairing_inv_step [of items] by (cases "foldl pair_item ([], []) items") auto
qed

lemma mark_open_length [simp]: "length (mark_open is ps) = length ps"
  unfolding mark_open_def by (induction "is" arbitrary: ps) auto

lemma mark_open_nth: "i < length ps \<Longrightarrow> mark_open is ps ! i = (if i \<in> set is then Some OpenCall else ps ! i)"
proof (induction "is" arbitrary: ps)
  case Nil
  then show ?case by (simp add: mark_open_def)
next
  case (Cons j js)
  then have "mark_open (j # js) ps ! i = (if i \<in> set js then Some OpenCall else ps[j := Some OpenCall] ! i)"
    by (simp add: mark_open_def)
  with Cons.prems show ?case by (auto simp: nth_list_update)
qed

lemma filter_not_in_drop:
  assumes "distinct xs"
  shows "filter (\<lambda>i. i \<notin> set (drop n xs)) xs = take n xs"
proof -
  have "set (take n xs) \<inter> set (drop n xs) = {}" using assms by (simp add: set_take_disj_set_drop_if_distinct)
  then have "filter (\<lambda>i. i \<notin> set (drop n xs)) (take n xs) = take n xs" by (intro filter_True) auto
  moreover have "filter (\<lambda>i. i \<notin> set (drop n xs)) (drop n xs) = []" by (intro filter_False) auto
  ultimately have "filter (\<lambda>i. i \<notin> set (drop n xs)) (take n xs @ drop n xs) = take n xs"
    by (simp only: filter_append append_Nil2)
  then show ?thesis by (simp only: append_take_drop_id)
qed

lemma hosted_call_not_output: "hosted_call item \<noteq> None \<Longrightarrow> \<not> hosted_output item"
  by (cases item) auto

definition paired_calls :: "input_item list \<Rightarrow> search_pairing option list \<Rightarrow> nat list" where
  "paired_calls items ps = positions (\<lambda>item i. hosted_call item \<noteq> None \<and> paired_at ps i) items"

lemma paired_calls_marked:
  assumes "pairing_inv items (ps, op)"
  shows "paired_calls items (mark_open op ps) = take (length (matched_outputs items ps)) (hosted_calls items)"
    and "matched_outputs items (mark_open op ps) = matched_outputs items ps"
proof -
  have len: "length ps = length items" and op: "op = drop (length (matched_outputs items ps)) (hosted_calls items)"
    using assms by (auto simp: pairing_inv_def)
  have sub: "set op \<subseteq> set (hosted_calls items)" by (simp add: op set_drop_subset)
  have "paired_at (mark_open op ps) i \<longleftrightarrow> i \<notin> set op" if "i \<in> set (hosted_calls items)" for i
    using that assms len by (auto simp: paired_at_def mark_open_nth hosted_calls_def pairing_inv_def)
  then have "filter (paired_at (mark_open op ps)) (hosted_calls items) = filter (\<lambda>i. i \<notin> set op) (hosted_calls items)"
    by (intro filter_cong) auto
  moreover have "distinct (hosted_calls items)" by (simp add: hosted_calls_def positions_def)
  ultimately have "filter (paired_at (mark_open op ps)) (hosted_calls items) = take (length (matched_outputs items ps)) (hosted_calls items)"
    unfolding op by (simp add: filter_not_in_drop)
  then show "paired_calls items (mark_open op ps) = take (length (matched_outputs items ps)) (hosted_calls items)"
    by (simp add: paired_calls_def hosted_calls_def positions_def conj_commute)
  have "hosted_output (items ! i) \<and> paired_at (mark_open op ps) i \<longleftrightarrow> hosted_output (items ! i) \<and> paired_at ps i"
    if "i < length items" for i
    using that sub len hosted_call_not_output by (auto simp: paired_at_def mark_open_nth hosted_calls_def)
  then show "matched_outputs items (mark_open op ps) = matched_outputs items ps"
    unfolding matched_outputs_def positions_def by (intro filter_cong) auto
qed


end
