(* ===== verification/File_Text.thy ===== *)
theory File_Text
  imports Items Text_Utils
begin

text \<open>
  Inline text files of message \<open>input_file\<close> parts (\<open>types/io/input/file_text.rs\<close> and \<open>file_text/kinds.rs\<close>):
  which media types and file names identify text, and the \<open>input_text\<close> part the model receives.

  The base64 engine is a third-party crate: \<open>decode\<close> is a parameter, \<open>None\<close> for invalid base64.
  Strings are UTF-8 bytes; a comparison with an ASCII prefix or suffix therefore never cuts a character.
\<close>

section \<open>Kinds of file\<close>

definition TEXT_MEDIA_TYPES :: "string list" where
  "TEXT_MEDIA_TYPES = [
    ''application/csv'', ''application/ecmascript'', ''application/graphql'',
    ''application/javascript'', ''application/json'', ''application/jsonl'', ''application/ndjson'',
    ''application/sql'', ''application/toml'', ''application/typescript'', ''application/x-csh'',
    ''application/x-csv'', ''application/x-httpd-php'', ''application/x-javascript'',
    ''application/x-latex'', ''application/x-ndjson'', ''application/x-perl'', ''application/x-php'',
    ''application/x-ruby'', ''application/x-sh'', ''application/x-shellscript'', ''application/x-tex'',
    ''application/x-toml'', ''application/x-typescript'', ''application/x-yaml'', ''application/xml'',
    ''application/yaml'']"

definition TEXT_EXTENSIONS :: "string list" where
  "TEXT_EXTENSIONS = [
    ''adoc'', ''bash'', ''bat'', ''c'', ''cc'', ''cfg'', ''cjs'', ''clj'', ''cmake'', ''cmd'', ''conf'',
    ''cpp'', ''cs'', ''css'', ''csv'', ''cts'', ''dart'', ''diff'', ''dockerfile'', ''env'', ''erl'',
    ''ex'', ''exs'', ''fish'', ''go'', ''gql'', ''gradle'', ''graphql'', ''groovy'', ''h'', ''hcl'',
    ''hpp'', ''hs'', ''htm'', ''html'', ''ini'', ''ipynb'', ''java'', ''jl'', ''js'', ''json'',
    ''jsonl'', ''jsx'', ''kt'', ''kts'', ''less'', ''log'', ''lua'', ''markdown'', ''md'', ''mjs'',
    ''mk'', ''mts'', ''ndjson'', ''patch'', ''php'', ''pl'', ''pm'', ''properties'', ''proto'', ''ps1'',
    ''py'', ''r'', ''rb'', ''rs'', ''rst'', ''sass'', ''sbt'', ''scala'', ''scss'', ''sh'', ''sql'',
    ''svelte'', ''svg'', ''swift'', ''tex'', ''tf'', ''toml'', ''ts'', ''tsv'', ''tsx'', ''txt'',
    ''vue'', ''xml'', ''yaml'', ''yml'', ''zig'', ''zsh'']"

definition TEXT_FILENAMES :: "string list" where
  "TEXT_FILENAMES = [
    ''.bashrc'', ''.dockerignore'', ''.editorconfig'', ''.env'', ''.gitattributes'', ''.gitignore'',
    ''.npmrc'', ''.zshrc'', ''Containerfile'', ''Dockerfile'', ''Gemfile'', ''Jenkinsfile'',
    ''LICENSE'', ''Makefile'', ''Procfile'', ''README'', ''Rakefile'', ''Vagrantfile'']"

definition TYPESCRIPT_EXTENSIONS :: "string list" where
  "TYPESCRIPT_EXTENSIONS = [
    ''cts'', ''mts'', ''ts'']"

definition kind_contains :: "string list \<Rightarrow> string \<Rightarrow> bool" where
  "kind_contains known value \<longleftrightarrow> list_ex (\<lambda>k. eq_ignore_ascii_case k value) known"

definition has_prefix :: "string \<Rightarrow> string \<Rightarrow> bool" where
  "has_prefix value p \<longleftrightarrow> length p \<le> length value \<and> eq_ignore_ascii_case (take (length p) value) p"

definition has_suffix :: "string \<Rightarrow> string \<Rightarrow> bool" where
  "has_suffix value s \<longleftrightarrow> length s \<le> length value \<and> eq_ignore_ascii_case (drop (length value - length s) value) s"

definition is_text_media_type :: "string \<Rightarrow> bool" where
  "is_text_media_type media_type \<longleftrightarrow>
     has_prefix media_type ''text/'' \<or> has_suffix media_type ''+json'' \<or> has_suffix media_type ''+xml'' \<or>
     kind_contains TEXT_MEDIA_TYPES media_type"

definition split_filename :: "string \<Rightarrow> string \<times> string option" where
  "split_filename filename =
     (let basename = rev (takeWhile (\<lambda>c. c \<noteq> CHR ''/'' \<and> c \<noteq> CHR 0x5C) (rev filename))
      in (basename,
          case rsplit_once (CHR ''.'') basename of
            None \<Rightarrow> None
          | Some (stem, extension) \<Rightarrow> if stem = [] then None else Some extension))"

definition is_text_filename :: "string \<Rightarrow> bool" where
  "is_text_filename filename \<longleftrightarrow>
     (case split_filename filename of (basename, extension) \<Rightarrow>
        kind_contains TEXT_FILENAMES basename \<or>
        (case extension of None \<Rightarrow> False | Some extension \<Rightarrow> kind_contains TEXT_EXTENSIONS extension))"

definition is_binary_media_type :: "string \<Rightarrow> string \<Rightarrow> bool" where
  "is_binary_media_type media_type filename \<longleftrightarrow>
     (if eq_ignore_ascii_case media_type ''video/mp2t'' then
        \<not> (case snd (split_filename filename) of
             None \<Rightarrow> False
           | Some extension \<Rightarrow> kind_contains TYPESCRIPT_EXTENSIONS extension)
      else eq_ignore_ascii_case media_type ''application/pdf'' \<or> has_prefix media_type ''image/'' \<or>
        has_prefix media_type ''audio/'' \<or> has_prefix media_type ''video/'')"

definition is_text_file :: "string \<Rightarrow> string option \<Rightarrow> bool" where
  "is_text_file media_type filename \<longleftrightarrow>
     is_text_media_type media_type \<or>
     (case filename of
        None \<Rightarrow> False
      | Some filename \<Rightarrow> is_text_filename filename \<and> \<not> is_binary_media_type media_type filename)"

section \<open>Inlining\<close>

datatype input_file_error = FeFileId | FeFileUrl | FeMissingData | FeNotText | FeNotBase64DataUrl | FeInvalidBase64 | FeNotUtf8

definition parse_data_url :: "string \<Rightarrow> input_file_error + string \<times> string" where
  "parse_data_url url =
     (case split_once (CHR '','') url of
        None \<Rightarrow> Inl FeNotBase64DataUrl
      | Some (header, payload) \<Rightarrow>
          (case rsplit_once (CHR '';'') header of
             None \<Rightarrow> Inl FeNotBase64DataUrl
           | Some (media_type, encoding) \<Rightarrow>
               if \<not> eq_ignore_ascii_case encoding ''base64'' then Inl FeNotBase64DataUrl
               else Inr (trim (case split_once (CHR '';'') media_type of None \<Rightarrow> media_type | Some (m, _) \<Rightarrow> m), payload)))"

definition text_payload :: "input_file_content \<Rightarrow> input_file_error + string" where
  "text_payload file =
     (if ifc_file_id file \<noteq> None then Inl FeFileId
      else if ifc_file_url file \<noteq> None then Inl FeFileUrl
      else case ifc_file_data file of
        None \<Rightarrow> Inl FeMissingData
      | Some data \<Rightarrow>
          (case (if has_prefix data ''data:'' then parse_data_url (drop 5 data) else Inr ([], data)) of
             Inl e \<Rightarrow> Inl e
           | Inr (media_type, payload) \<Rightarrow>
               if is_text_file media_type (ifc_filename file) then Inr payload else Inl FeNotText))"

type_synonym base64 = "string \<Rightarrow> nat list option"

definition decoded_bytes :: "base64 \<Rightarrow> input_file_content \<Rightarrow> input_file_error + nat list" where
  "decoded_bytes decode file =
     (case text_payload file of
        Inl e \<Rightarrow> Inl e
      | Inr payload \<Rightarrow> (case decode payload of None \<Rightarrow> Inl FeInvalidBase64 | Some bytes \<Rightarrow> Inr bytes))"

definition validate_file :: "base64 \<Rightarrow> input_file_content \<Rightarrow> input_file_error + unit" where
  "validate_file decode file =
     (case decoded_bytes decode file of
        Inl e \<Rightarrow> Inl e
      | Inr bytes \<Rightarrow> if utf8_valid bytes then Inr () else Inl FeNotUtf8)"

definition text_of_file :: "base64 \<Rightarrow> input_file_content \<Rightarrow> input_file_error + input_text_content" where
  "text_of_file decode file =
     (case decoded_bytes decode file of
        Inl e \<Rightarrow> Inl e
      | Inr bytes \<Rightarrow>
          if \<not> utf8_valid bytes then Inl FeNotUtf8
          else let txt = map char_of bytes in
            Inr \<lparr>itc_text = (case ifc_filename file of
                     Some filename \<Rightarrow> ''File: '' @ filename @ [CHR 0x0A] @ txt
                   | None \<Rightarrow> txt),
                 itc_extra = (case map_of (ifc_extra file) ''prompt_cache_breakpoint'' of
                     None \<Rightarrow> []
                   | Some breakpoint \<Rightarrow> [(''prompt_cache_breakpoint'', breakpoint)])\<rparr>)"

section \<open>Properties\<close>

lemma has_prefix_lower: "has_prefix v p \<longleftrightarrow> (\<exists>t. to_ascii_lowercase v = to_ascii_lowercase p @ t)"
proof
  assume "has_prefix v p"
  then have "take (length p) (to_ascii_lowercase v) = to_ascii_lowercase p"
    by (simp add: has_prefix_def eq_ignore_ascii_case_def to_ascii_lowercase_take)
  then show "\<exists>t. to_ascii_lowercase v = to_ascii_lowercase p @ t" by (metis append_take_drop_id)
next
  assume "\<exists>t. to_ascii_lowercase v = to_ascii_lowercase p @ t"
  then obtain t where t: "to_ascii_lowercase v = to_ascii_lowercase p @ t" by blast
  then have "length v = length p + length t" by (metis length_append to_ascii_lowercase_simps(3))
  with t show "has_prefix v p"
    by (simp add: has_prefix_def eq_ignore_ascii_case_def to_ascii_lowercase_take)
qed

lemma kind_contains_lower: "kind_contains ks v \<longleftrightarrow> (\<exists>k\<in>set ks. to_ascii_lowercase v = to_ascii_lowercase k)"
  by (simp add: kind_contains_def list_ex_iff eq_ignore_ascii_case_def eq_commute)

lemma text_media_types_start:
  "k \<in> set TEXT_MEDIA_TYPES \<Longrightarrow> take 2 (to_ascii_lowercase k) = ''ap'' \<and> to_ascii_lowercase k \<noteq> ''application/pdf''"
  by (auto simp: TEXT_MEDIA_TYPES_def to_ascii_lowercase_def ascii_lower_def)

text \<open>The media types that no file name turns into text, unless they are text by their suffix.\<close>

definition media_only :: "string \<Rightarrow> bool" where
  "media_only m \<longleftrightarrow> eq_ignore_ascii_case m ''application/pdf'' \<or>
     list_ex (has_prefix m) [''image/'', ''audio/'', ''video/'']"

lemma media_only_lower:
  "media_only m \<Longrightarrow> \<exists>t. to_ascii_lowercase m = ''application/pdf'' \<or> to_ascii_lowercase m = ''image/'' @ t \<or>
     to_ascii_lowercase m = ''audio/'' @ t \<or> to_ascii_lowercase m = ''video/'' @ t"
proof -
  have "to_ascii_lowercase ''application/pdf'' = ''application/pdf''" "to_ascii_lowercase ''image/'' = ''image/''"
    "to_ascii_lowercase ''audio/'' = ''audio/''" "to_ascii_lowercase ''video/'' = ''video/''"
    by (simp_all add: to_ascii_lowercase_def ascii_lower_def)
  then show "media_only m \<Longrightarrow> ?thesis"
    by (auto simp: media_only_def has_prefix_lower eq_ignore_ascii_case_def)
qed

lemma media_only_not_listed: "media_only m \<Longrightarrow> \<not> has_prefix m ''text/'' \<and> \<not> kind_contains TEXT_MEDIA_TYPES m"
proof -
  assume "media_only m"
  from media_only_lower [OF this] obtain t where t: "to_ascii_lowercase m = ''application/pdf'' \<or> to_ascii_lowercase m = ''image/'' @ t \<or>
     to_ascii_lowercase m = ''audio/'' @ t \<or> to_ascii_lowercase m = ''video/'' @ t" by blast
  have "to_ascii_lowercase ''text/'' = ''text/''" by (simp add: to_ascii_lowercase_def ascii_lower_def)
  with t have "\<not> has_prefix m ''text/''" by (auto simp: has_prefix_lower)
  moreover have "\<not> kind_contains TEXT_MEDIA_TYPES m"
  proof
    assume "kind_contains TEXT_MEDIA_TYPES m"
    then obtain k where k: "k \<in> set TEXT_MEDIA_TYPES" "to_ascii_lowercase m = to_ascii_lowercase k"
      by (auto simp: kind_contains_lower)
    from text_media_types_start [OF k(1)] t show False by (auto simp flip: k(2))
  qed
  ultimately show ?thesis by blast
qed

lemma media_only_not_text_file:
  assumes "media_only m" and "\<not> has_suffix m ''+json''" and "\<not> has_suffix m ''+xml''"
    and "\<not> eq_ignore_ascii_case m ''video/mp2t''"
  shows "\<not> is_text_file m filename"
  using assms media_only_not_listed [OF assms(1)]
  by (auto simp: is_text_file_def is_text_media_type_def is_binary_media_type_def media_only_def split: option.splits)

text \<open>Only text reaches the model as an inlined file, and validation agrees with inlining: they fail
  with the same error, and if a file is inlined, its data decodes to valid UTF-8 that ends the part's
  text, it has neither a file id nor a URL, and a data URL's media type is not PDF, image, audio or
  video, whatever the file name says, unless it is a +json or +xml type or a mislabelled TypeScript.\<close>

lemma inlined_file_is_text:
  "validate_file decode file = (case text_of_file decode file of Inl e \<Rightarrow> Inl e | Inr _ \<Rightarrow> Inr ()) \<and>
   (text_of_file decode file = Inr c \<longrightarrow>
      ifc_file_id file = None \<and> ifc_file_url file = None \<and>
      (\<exists>data payload bytes pre. ifc_file_data file = Some data \<and> decode payload = Some bytes \<and> utf8_valid bytes \<and>
         itc_text c = pre @ map char_of bytes \<and>
         (has_prefix data ''data:'' \<longrightarrow>
           (\<exists>m. parse_data_url (drop 5 data) = Inr (m, payload) \<and>
             (media_only m \<longrightarrow> has_suffix m ''+json'' \<or> has_suffix m ''+xml'' \<or> eq_ignore_ascii_case m ''video/mp2t'')))))"
proof (intro conjI impI)
  show "validate_file decode file = (case text_of_file decode file of Inl e \<Rightarrow> Inl e | Inr _ \<Rightarrow> Inr ())"
    by (simp add: validate_file_def text_of_file_def Let_def split: sum.splits)
next
  assume ok: "text_of_file decode file = Inr c"
  then obtain bytes where bytes: "decoded_bytes decode file = Inr bytes" "utf8_valid bytes"
    and c: "itc_text c = (case ifc_filename file of
        Some filename \<Rightarrow> ''File: '' @ filename @ [CHR 0x0A] @ map char_of bytes | None \<Rightarrow> map char_of bytes)"
    by (auto simp: text_of_file_def Let_def split: sum.splits if_splits)
  from bytes(1) obtain payload where payload: "text_payload file = Inr payload" "decode payload = Some bytes"
    by (auto simp: decoded_bytes_def split: sum.splits option.splits)
  from payload(1) obtain data m where ref: "ifc_file_id file = None" "ifc_file_url file = None" "ifc_file_data file = Some data"
    and m: "(if has_prefix data ''data:'' then parse_data_url (drop 5 data) else Inr ([], data)) = Inr (m, payload)"
    and kind: "is_text_file m (ifc_filename file)"
    by (auto simp: text_payload_def split: if_splits option.splits sum.splits)
  show "ifc_file_id file = None" "ifc_file_url file = None" by (rule ref)+
  have "\<exists>pre. itc_text c = pre @ map char_of bytes"
  proof (cases "ifc_filename file")
    case (Some filename)
    then show ?thesis using c by (intro exI [of _ "''File: '' @ filename @ [CHR 0x0A]"]) simp
  qed (use c in simp)
  moreover have "media_only m \<longrightarrow> has_suffix m ''+json'' \<or> has_suffix m ''+xml'' \<or> eq_ignore_ascii_case m ''video/mp2t''"
    using media_only_not_text_file kind by blast
  ultimately show "\<exists>data payload bytes pre. ifc_file_data file = Some data \<and> decode payload = Some bytes \<and> utf8_valid bytes \<and>
         itc_text c = pre @ map char_of bytes \<and>
         (has_prefix data ''data:'' \<longrightarrow>
           (\<exists>m. parse_data_url (drop 5 data) = Inr (m, payload) \<and>
             (media_only m \<longrightarrow> has_suffix m ''+json'' \<or> has_suffix m ''+xml'' \<or> eq_ignore_ascii_case m ''video/mp2t'')))"
    using ref(3) payload(2) bytes(2) m by (metis (full_types))
qed

definition sample_file :: input_file_content where
  "sample_file = \<lparr>ifc_file_data = Some ''data:text/plain;charset=utf-8;base64,aGk='', ifc_file_id = None, ifc_file_url = None,
     ifc_filename = Some ''a.txt'', ifc_detail = None, ifc_extra = []\<rparr>"

definition sample_decode :: base64 where
  "sample_decode s = (if s = ''aGk='' then Some [104, 105] else None)"

lemma sample_file_text:
  "text_of_file sample_decode sample_file = Inr \<lparr>itc_text = ''File: a.txt'' @ [CHR 0x0A] @ ''hi'', itc_extra = []\<rparr>"
  by code_simp

end
