(* ===== verification/Model_Input.thy ===== *)
theory Model_Input
  imports Search_History Compaction_Window File_Text "HOL-Library.Word"
begin

text \<open>
  The model-facing copy of canonical history (\<open>ResponsesInput\<close> of \<open>types/io/input.rs\<close> and
  \<open>types/io/input/conversions.rs\<close>, with \<open>types/io/web_search.rs\<close> and \<open>types/io/code_interpreter.rs\<close>): every
  tool reaches the model as a function tool, files as text, and MCP calls under their discovery name.

  Serializers of the JSON texts are parameters, gathered in \<open>model_texts\<close>, as is the base64 decoder.
\<close>

unbundle bit_operations_syntax

section \<open>MCP tool names\<close>

text \<open>FNV-1a on 64 bits.\<close>

definition stable_name_hash :: "string \<Rightarrow> 64 word" where
  "stable_name_hash value =
     foldl (\<lambda>hash byte. (hash XOR word_of_nat (of_char byte)) * 0x100000001b3) 0xcbf29ce484222325 value"

definition hex_digit :: "nat \<Rightarrow> char" where
  "hex_digit n = (if n < 10 then char_of (48 + n) else char_of (87 + n))"

fun hex_digits :: "nat \<Rightarrow> nat \<Rightarrow> string" where
  "hex_digits 0 n = []"
| "hex_digits (Suc k) n = hex_digits k (n div 16) @ [hex_digit (n mod 16)]"

definition name_char :: "char \<Rightarrow> bool" where
  "name_char c \<longleftrightarrow> (let n = of_char c :: nat in
     48 \<le> n \<and> n \<le> 57 \<or> 65 \<le> n \<and> n \<le> 90 \<or> 97 \<le> n \<and> n \<le> 122 \<or> c = CHR ''_'' \<or> c = CHR ''-'')"

type_synonym mcp_identity = "string \<times> string"
type_synonym used_names = "(string, mcp_identity) index_map"

definition MAX_NAME_BYTES :: nat where
  "MAX_NAME_BYTES = 64"

text \<open>Each character outside the allowed set becomes one underscore; in UTF-8 bytes a character is a
  leading byte and its continuation bytes.\<close>

definition base_name :: "string \<Rightarrow> string \<Rightarrow> string" where
  "base_name server_label tool_name =
     map (\<lambda>c. if name_char c then c else CHR ''_'')
       (filter (\<lambda>c. \<not> continuation (of_char c)) (''mcp__'' @ server_label @ ''__'' @ tool_name))"

definition name_source :: "string \<Rightarrow> string \<Rightarrow> nat \<Rightarrow> string" where
  "name_source server_label tool_name attempt =
     server_label @ '':'' @ tool_name @ (if attempt = 0 then [] else '':'' @ decimal attempt)"

definition candidate_name :: "string \<Rightarrow> string \<Rightarrow> nat \<Rightarrow> string" where
  "candidate_name server_label tool_name attempt =
     (let base = base_name server_label tool_name;
          suffix = ''__'' @ hex_digits 10 (unat (stable_name_hash (name_source server_label tool_name attempt) AND 0xffffffffff));
          prefix_len = saturating_sub MAX_NAME_BYTES (length suffix)
      in take (min (length base) prefix_len) base @ suffix)"

definition name_free :: "used_names \<Rightarrow> string \<Rightarrow> mcp_identity \<Rightarrow> bool" where
  "name_free used name identity \<longleftrightarrow> (case map_of used name of None \<Rightarrow> True | Some existing \<Rightarrow> existing = identity)"

text \<open>The loop tries \<open>attempt\<close> 0, 1, 2, \<open>\<dots>\<close>; the counter saturates at its 32-bit maximum.\<close>

partial_function (option) try_names :: "string \<Rightarrow> string \<Rightarrow> used_names \<Rightarrow> nat \<Rightarrow> (string \<times> used_names) option" where
  "try_names server_label tool_name used attempt =
     (let candidate = candidate_name server_label tool_name attempt
      in if name_free used candidate (server_label, tool_name)
         then Some (candidate, AList.update candidate (server_label, tool_name) used)
         else try_names server_label tool_name used (min (attempt + 1) (2 ^ 32 - 1)))"

definition internal_mcp_tool_name :: "string \<Rightarrow> string \<Rightarrow> used_names \<Rightarrow> (string \<times> used_names) option" where
  "internal_mcp_tool_name server_label tool_name used =
     (let base = base_name server_label tool_name
      in if length base \<le> MAX_NAME_BYTES \<and> name_free used base (server_label, tool_name)
         then Some (base, AList.update base (server_label, tool_name) used)
         else try_names server_label tool_name used 0)"

fun assign_names :: "mcp_identity list \<Rightarrow> used_names \<Rightarrow> (string list \<times> used_names) option" where
  "assign_names [] used = Some ([], used)"
| "assign_names ((server_label, tool_name) # ids) used =
     (case internal_mcp_tool_name server_label tool_name used of
        None \<Rightarrow> None
      | Some (name, used') \<Rightarrow>
          (case assign_names ids used' of None \<Rightarrow> None | Some (names, used'') \<Rightarrow> Some (name # names, used'')))"

section \<open>Names are unique, short and well formed\<close>

lemma length_hex_digits [simp]: "length (hex_digits k n) = k"
  by (induction k arbitrary: n) auto

lemma hex_digit_name_char: "n < 16 \<Longrightarrow> name_char (hex_digit n)"
  by (auto simp: hex_digit_def name_char_def Let_def of_char_of)

lemma hex_digits_name_char: "list_all name_char (hex_digits k n)"
  by (induction k arbitrary: n) (auto simp: hex_digit_name_char)

lemma base_name_chars: "list_all name_char (base_name s t)"
proof -
  have "name_char (if name_char c then c else CHR ''_'')" for c by (simp add: name_char_def [of "CHR ''_''"] Let_def)
  then show ?thesis unfolding base_name_def by (simp only: list_all_iff list.set_map) blast
qed

lemma candidate_name_ok: "length (candidate_name s t k) \<le> MAX_NAME_BYTES \<and> list_all name_char (candidate_name s t k)"
proof -
  have "list_all name_char (take n (base_name s t))" for n
    using base_name_chars [of s t] by (auto simp: list_all_iff dest: in_set_takeD)
  then show ?thesis
    by (simp add: candidate_name_def Let_def MAX_NAME_BYTES_def saturating_sub_def hex_digits_name_char) (simp add: name_char_def)
qed

definition assigned :: "mcp_identity \<Rightarrow> used_names \<Rightarrow> string \<Rightarrow> used_names \<Rightarrow> bool" where
  "assigned identity used name used' \<longleftrightarrow>
     used' = AList.update name identity used \<and> name_free used name identity \<and> length name \<le> MAX_NAME_BYTES \<and> list_all name_char name"

lemma try_names_assigned:
  assumes "try_names s t used k = Some r"
  shows "assigned (s, t) used (fst r) (snd r)"
proof (rule try_names.raw_induct [of "\<lambda>s t used k r. assigned (s, t) used (fst r) (snd r)", OF _ assms])
  fix f s t used k r
  assume IH: "\<And>s t used k r. f s t used k = Some r \<Longrightarrow> assigned (s, t) used (fst r) (snd r)"
    and step: "(let candidate = candidate_name s t k
       in if name_free used candidate (s, t) then Some (candidate, AList.update candidate (s, t) used)
          else f s t used (min (k + 1) (2 ^ 32 - 1))) = Some r"
  show "assigned (s, t) used (fst r) (snd r)"
  proof (cases "name_free used (candidate_name s t k) (s, t)")
    case True
    with step show ?thesis by (auto simp: Let_def assigned_def candidate_name_ok)
  next
    case False
    with step have "f s t used (min (k + 1) (2 ^ 32 - 1)) = Some r" by (simp add: Let_def)
    then show ?thesis by (rule IH)
  qed
qed

lemma internal_name_assigned: "internal_mcp_tool_name s t used = Some (name, used') \<Longrightarrow> assigned (s, t) used name used'"
  by (auto simp: internal_mcp_tool_name_def Let_def assigned_def base_name_chars
      dest!: try_names_assigned [unfolded assigned_def] split: if_splits)

text \<open>The loop ends as soon as some attempt's candidate is free, in particular at once when no name is
  used.\<close>

lemma try_names_returns:
  assumes "name_free used (candidate_name s t (k + n)) (s, t)" and "k + n < 2 ^ 32"
  shows "\<exists>r. try_names s t used k = Some r"
  using assms
proof (induction n arbitrary: k)
  case 0
  then show ?case by (subst try_names.simps) (simp add: Let_def)
next
  case (Suc n)
  then have "\<exists>r. try_names s t used (min (k + 1) (2 ^ 32 - 1)) = Some r" by (simp add: min_def)
  then show ?case by (subst try_names.simps) (auto simp: Let_def)
qed

lemma assigned_keeps: "assigned identity used name used' \<Longrightarrow> map_of used n = Some i \<Longrightarrow> map_of used' n = Some i"
  by (auto simp: assigned_def name_free_def update_conv' split: option.splits)

lemma assign_names_keeps: "assign_names ids used = Some (names, used') \<Longrightarrow> map_of used n = Some i \<Longrightarrow> map_of used' n = Some i"
proof (induction ids arbitrary: used names)
  case (Cons j ids)
  obtain s t where j: "j = (s, t)" by (cases j)
  from Cons.prems(1) obtain name used1 names1 where step: "internal_mcp_tool_name s t used = Some (name, used1)"
    and rest: "assign_names ids used1 = Some (names1, used')"
    by (auto simp: j split: option.splits)
  from assigned_keeps [OF internal_name_assigned [OF step] Cons.prems(2)] show ?case by (rule Cons.IH [OF rest])
qed simp

lemma assign_names_bound:
  "assign_names ids used = Some (names, used') \<Longrightarrow>
   list_all2 (\<lambda>i n. map_of used' n = Some i \<and> length n \<le> MAX_NAME_BYTES \<and> list_all name_char n) ids names"
proof (induction ids arbitrary: used names)
  case (Cons i ids)
  obtain s t where i: "i = (s, t)" by (cases i)
  from Cons.prems obtain name used1 names1 where step: "internal_mcp_tool_name s t used = Some (name, used1)"
    and rest: "assign_names ids used1 = Some (names1, used')" and names: "names = name # names1"
    by (auto simp: i split: option.splits)
  from internal_name_assigned [OF step] have a: "assigned (s, t) used name used1" .
  then have "map_of used1 name = Some (s, t)" by (simp add: assigned_def update_conv')
  with assign_names_keeps [OF rest] Cons.IH [OF rest] a show ?case by (simp add: names i assigned_def)
qed simp

text \<open>Names already given stay given, so a tool that is named again gets the same name.\<close>

definition extends :: "used_names \<Rightarrow> used_names \<Rightarrow> bool" where
  "extends used used' \<longleftrightarrow> (\<forall>n i. map_of used n = Some i \<longrightarrow> map_of used' n = Some i)"

lemma name_free_extends: "extends used used' \<Longrightarrow> name_free used' n i \<Longrightarrow> name_free used n i"
  by (force simp: extends_def name_free_def split: option.splits)

lemma try_names_again:
  assumes "try_names s t used k = Some r"
  shows "extends used used' \<Longrightarrow> map_of used' (fst r) = Some (s, t) \<Longrightarrow> \<exists>u. try_names s t used' k = Some (fst r, u)"
proof -
  have "\<forall>used'. extends used used' \<longrightarrow> map_of used' (fst r) = Some (s, t) \<longrightarrow> (\<exists>u. try_names s t used' k = Some (fst r, u))"
  proof (rule try_names.raw_induct [of "\<lambda>s t used k r. \<forall>used'. extends used used' \<longrightarrow>
      map_of used' (fst r) = Some (s, t) \<longrightarrow> (\<exists>u. try_names s t used' k = Some (fst r, u))", OF _ assms], intro allI impI)
    fix f s t used k r used'
    assume IH: "\<And>s t used k r. f s t used k = Some r \<Longrightarrow> \<forall>used'. extends used used' \<longrightarrow>
        map_of used' (fst r) = Some (s, t) \<longrightarrow> (\<exists>u. try_names s t used' k = Some (fst r, u))"
      and step: "(let candidate = candidate_name s t k
         in if name_free used candidate (s, t) then Some (candidate, AList.update candidate (s, t) used)
            else f s t used (min (k + 1) (2 ^ 32 - 1))) = Some r"
      and ext: "extends used used'" "map_of used' (fst r) = Some (s, t)"
    show "\<exists>u. try_names s t used' k = Some (fst r, u)"
    proof (cases "name_free used (candidate_name s t k) (s, t)")
      case True
      with step have "fst r = candidate_name s t k" by (auto simp: Let_def)
      with ext(2) show ?thesis by (subst try_names.simps) (simp add: Let_def name_free_def)
    next
      case False
      with step have "f s t used (min (k + 1) (2 ^ 32 - 1)) = Some r" by (simp add: Let_def)
      with IH ext have "\<exists>u. try_names s t used' (min (k + 1) (2 ^ 32 - 1)) = Some (fst r, u)" by blast
      moreover have "\<not> name_free used' (candidate_name s t k) (s, t)" using False name_free_extends [OF ext(1)] by blast
      ultimately show ?thesis by (subst try_names.simps) (simp add: Let_def)
    qed
  qed
  then show "extends used used' \<Longrightarrow> map_of used' (fst r) = Some (s, t) \<Longrightarrow> \<exists>u. try_names s t used' k = Some (fst r, u)" by blast
qed

lemma internal_name_again:
  assumes "internal_mcp_tool_name s t used = Some (name, used1)" and "extends used1 used'"
  shows "\<exists>u. internal_mcp_tool_name s t used' = Some (name, u)"
proof -
  note a = internal_name_assigned [OF assms(1)]
  then have name: "map_of used' name = Some (s, t)" using assms(2) by (simp add: assigned_def extends_def update_conv')
  have ext: "extends used used'" using assigned_keeps [OF a] assms(2) by (simp add: extends_def)
  show ?thesis
  proof (cases "length (base_name s t) \<le> MAX_NAME_BYTES \<and> name_free used (base_name s t) (s, t)")
    case True
    with assms(1) have "name = base_name s t" by (simp add: internal_mcp_tool_name_def Let_def)
    with True name show ?thesis by (simp add: internal_mcp_tool_name_def Let_def name_free_def)
  next
    case False
    with assms(1) have "try_names s t used 0 = Some (name, used1)" by (auto simp: internal_mcp_tool_name_def Let_def)
    from try_names_again [OF this ext] name have "\<exists>u. try_names s t used' 0 = Some (name, u)" by simp
    moreover have "\<not> (length (base_name s t) \<le> MAX_NAME_BYTES \<and> name_free used' (base_name s t) (s, t))"
      using False name_free_extends [OF ext] by blast
    ultimately show ?thesis by (auto simp: internal_mcp_tool_name_def Let_def)
  qed
qed

lemma assign_names_member:
  assumes "assign_names ids used = Some (names, used')" and "i < length ids" and "extends used' used2"
  shows "\<exists>u. internal_mcp_tool_name (fst (ids ! i)) (snd (ids ! i)) used2 = Some (names ! i, u)"
  using assms
proof (induction ids arbitrary: used names i)
  case (Cons j ids)
  obtain s t where j: "j = (s, t)" by (cases j)
  from Cons.prems(1) obtain name used1 names1 where step: "internal_mcp_tool_name s t used = Some (name, used1)"
    and rest: "assign_names ids used1 = Some (names1, used')" and names: "names = name # names1"
    by (auto simp: j split: option.splits)
  show ?case
  proof (cases i)
    case 0
    have "extends used1 used2" using assign_names_keeps [OF rest] Cons.prems(3) by (simp add: extends_def)
    from internal_name_again [OF step this] show ?thesis by (simp add: 0 j names)
  next
    case (Suc i')
    with Cons.IH [OF rest] Cons.prems(2,3) show ?thesis by (simp add: names)
  qed
qed simp

text \<open>MCP tools get unambiguous function names: over any sequence of tools named from one table, two
  tools get the same name exactly when server and tool are the same, every name has at most 64 bytes
  of letters, digits, underscores and hyphens, and naming a tool ends whenever some attempt below
  \<open>2 ^ 32\<close> gives a free candidate.\<close>

lemma mcp_names_unambiguous:
  assumes "assign_names ids [] = Some (names, used)"
  shows "length names = length ids \<and>
    (\<forall>i<length ids. \<forall>j<length ids. names ! i = names ! j \<longleftrightarrow> ids ! i = ids ! j) \<and>
    list_all (\<lambda>n. length n \<le> MAX_NAME_BYTES \<and> list_all name_char n) names \<and>
    (\<forall>s t n. n < 2 ^ 32 \<longrightarrow> name_free used (candidate_name s t n) (s, t) \<longrightarrow> internal_mcp_tool_name s t used \<noteq> None)"
proof -
  note bound = assign_names_bound [OF assms]
  have len: "length names = length ids" using list_all2_lengthD [OF bound] by simp
  have at: "map_of used (names ! i) = Some (ids ! i)" "length (names ! i) \<le> MAX_NAME_BYTES" "list_all name_char (names ! i)"
    if "i < length ids" for i
    using list_all2_nthD [OF bound that] by auto
  have "names ! i = names ! j \<longleftrightarrow> ids ! i = ids ! j" if "i < length ids" "j < length ids" for i j
  proof
    assume "names ! i = names ! j"
    with at(1) [OF that(1)] at(1) [OF that(2)] show "ids ! i = ids ! j" by simp
  next
    assume "ids ! i = ids ! j"
    with assign_names_member [OF assms that(1), of used] assign_names_member [OF assms that(2), of used]
    show "names ! i = names ! j" by (auto simp: extends_def)
  qed
  moreover have "list_all (\<lambda>n. length n \<le> MAX_NAME_BYTES \<and> list_all name_char n) names"
    using at(2,3) len by (auto simp: list_all_length)
  moreover have "internal_mcp_tool_name s t used \<noteq> None" if "n < 2 ^ 32" "name_free used (candidate_name s t n) (s, t)" for s t n
    using try_names_returns [of used s t 0 n] that by (auto simp: internal_mcp_tool_name_def Let_def)
  ultimately show ?thesis using len by blast
qed

lemma sample_names:
  "assign_names [(''git hub'', ''x''), (''jira'', ''x''), (''git hub'', ''x'')] [] =
     Some ([''mcp__git_hub__x'', ''mcp__jira__x'', ''mcp__git_hub__x''],
       [(''mcp__git_hub__x'', (''git hub'', ''x'')), (''mcp__jira__x'', (''jira'', ''x''))])"
  by code_simp

section \<open>Requests' input\<close>

datatype responses_input = RiText string | RiItems "in_out_item list"

definition user_message :: "string \<Rightarrow> input_message" where
  "user_message s = \<lparr>im_agent = None, im_id = None, im_role = ''user'', im_phase = None, im_status = None, im_content = ImcText s\<rparr>"

text \<open>The conversion to input items, also what \<open>input_items\<close> iterates over.\<close>

fun to_input_items :: "responses_input \<Rightarrow> input_item list" where
  "to_input_items (RiText s) = [IiMessage (user_message s)]"
| "to_input_items (RiItems items) = into_input_items items"

definition of_input_items :: "input_item list \<Rightarrow> responses_input" where
  "of_input_items items = RiItems (map IoInput items)"

fun into_canonical_items :: "responses_input \<Rightarrow> in_out_item list" where
  "into_canonical_items (RiItems items) = map complete_omitted_status items"
| "into_canonical_items (RiText s) = map IoInput (to_input_items (RiText s))"

fun push_item :: "responses_input \<Rightarrow> in_out_item \<Rightarrow> responses_input" where
  "push_item (RiItems items) item = RiItems (items @ [item])"
| "push_item (RiText s) item = RiItems (into_canonical_items (RiText s) @ [item])"

definition extend_input :: "responses_input \<Rightarrow> input_item list \<Rightarrow> responses_input" where
  "extend_input input items = foldl push_item input (map IoInput items)"

fun item_agent :: "input_item \<Rightarrow> agent_attribution option" where
  "item_agent (IiMultiAgentCall item) = ima_agent item"
| "item_agent (IiMultiAgentCallOutput item) = imo_agent item"
| "item_agent (IiAgentMessage item) = iam_agent item"
| "item_agent (IiMessage item) = im_agent item"
| "item_agent (IiFunctionCall item) = ifn_agent item"
| "item_agent (IiCodeInterpreterCall item) = cic_agent item"
| "item_agent (IiToolSearchCall item) = its_agent item"
| "item_agent (IiToolSearchOutput item) = tso_agent item"
| "item_agent (IiCustomToolCall item) = ctc_agent item"
| "item_agent (IiShellCall item) = sc_agent item"
| "item_agent (IiWebSearchCall item) = wsc_agent item"
| "item_agent (IiMcpCall item) = mc_agent item"
| "item_agent (IiMcpListTools item) = mls_agent item"
| "item_agent (IiReasoning item) = ro_agent item"
| "item_agent (IiCompaction item) = cmp_agent item"
| "item_agent _ = None"

fun is_multi_agent_item :: "input_item \<Rightarrow> bool" where
  "is_multi_agent_item (IiMultiAgentCall _) = True"
| "is_multi_agent_item (IiMultiAgentCallOutput _) = True"
| "is_multi_agent_item (IiAgentMessage _) = True"
| "is_multi_agent_item _ = False"

definition has_multi_agent_history :: "responses_input \<Rightarrow> bool" where
  "has_multi_agent_history input \<longleftrightarrow> list_ex (\<lambda>item. item_agent item \<noteq> None \<or> is_multi_agent_item item) (to_input_items input)"

fun compaction_record :: "in_out_item \<Rightarrow> bool" where
  "compaction_record (IoInput (IiCompaction _)) = True"
| "compaction_record (IoOutput (OiCompaction _)) = True"
| "compaction_record _ = False"

fun contains_compaction :: "responses_input \<Rightarrow> bool" where
  "contains_compaction (RiItems items) = list_ex compaction_record items"
| "contains_compaction (RiText _) = False"

fun has_compaction_trigger :: "responses_input \<Rightarrow> bool" where
  "has_compaction_trigger (RiItems items) = list_ex (\<lambda>item. item = IoInput IiCompactionTrigger) items"
| "has_compaction_trigger (RiText _) = False"

fun async_record :: "in_out_item \<Rightarrow> bool" where
  "async_record (IoInput item) = is_async_call item"
| "async_record (IoOutput (OiFunctionCall call)) = ftc_async_execution call"
| "async_record (IoOutput (OiCustomToolCall call)) = ctc_async_execution call"
| "async_record (IoOutput _) = False"

fun has_async_call :: "responses_input \<Rightarrow> bool" where
  "has_async_call (RiItems items) = list_ex async_record items"
| "has_async_call (RiText _) = False"

section \<open>Projection for the model\<close>

fun compaction_as_message :: "input_item \<Rightarrow> input_item" where
  "compaction_as_message (IiCompaction c) = IiMessage
     \<lparr>im_agent = None, im_id = None, im_role = ''assistant'', im_phase = None, im_status = None,
      im_content = ImcParts [IcOutputText \<lparr>itc_text = cmp_encrypted_content c, itc_extra = []\<rparr>]\<rparr>"
| "compaction_as_message item = item"

fun unchanged_for_model :: "bool \<Rightarrow> in_out_item \<Rightarrow> bool" where
  "unchanged_for_model lower (IoInput item) = (is_model_visible item \<and> \<not> (lower \<and> is_search_item item))"
| "unchanged_for_model lower (IoOutput _) = False"

fun project_for_model :: "json_text \<Rightarrow> bool \<Rightarrow> responses_input \<Rightarrow> responses_input" where
  "project_for_model ser lower (RiText s) = RiText s"
| "project_for_model ser lower (RiItems items) =
     (if \<not> contains_compaction (RiItems items) \<and> list_all (unchanged_for_model lower) items then RiItems items
      else let model = map compaction_as_message (model_items (into_input_items items))
           in of_input_items (if lower then lower_searches ser model else model))"

definition model_input :: "json_text \<Rightarrow> responses_input \<Rightarrow> responses_input" where
  "model_input ser = project_for_model ser True"

definition model_input_keeping_search_items :: "json_text \<Rightarrow> responses_input \<Rightarrow> responses_input" where
  "model_input_keeping_search_items ser = project_for_model ser False"

section \<open>Lowering tools to function tools\<close>

text \<open>The texts that \<open>serde_json\<close> writes: \<open>mt_json\<close> for a JSON value, the others for a typed value.\<close>

record model_texts =
  mt_json :: "json \<Rightarrow> string"
  mt_search :: json_text
  mt_shell_action :: "shell_call_action \<Rightarrow> string"
  mt_shell_output :: "shell_call_output_content list \<Rightarrow> string"
  mt_page_action :: "web_search_action \<Rightarrow> string"
  mt_mcp_error :: "mcp_call_error \<Rightarrow> string"

definition function_call_item_id :: "string \<Rightarrow> string option" where
  "function_call_item_id i =
     (if i = [] then None
      else case (case strip_prefix i ''ctc_'' of Some s \<Rightarrow> Some s | None \<Rightarrow> strip_prefix i ''sh_'') of
        Some (c # cs) \<Rightarrow> Some (''fc_'' @ c # cs)
      | _ \<Rightarrow> Some i)"

definition message_status_of_shell :: "shell_call_status option \<Rightarrow> message_status option" where
  "message_status_of_shell status =
     (case status of
        Some ShCompleted \<Rightarrow> Some MsCompleted
      | Some ShInProgress \<Rightarrow> Some MsInProgress
      | Some ShIncomplete \<Rightarrow> None
      | None \<Rightarrow> None)"

definition function_call_of_custom :: "model_texts \<Rightarrow> custom_tool_call \<Rightarrow> input_function_tool_call" where
  "function_call_of_custom mt call =
     \<lparr>ifn_agent = ctc_agent call, ifn_id = function_call_item_id (ctc_id call), ifn_call_id = ctc_call_id call,
      ifn_name = ctc_name call, ifn_namespace = None, ifn_arguments = mt_json mt (JObject [(''input'', JString (ctc_input call))]),
      ifn_status = ctc_status call, ifn_async_execution = ctc_async_execution call\<rparr>"

definition function_call_of_shell :: "model_texts \<Rightarrow> shell_call \<Rightarrow> input_function_tool_call" where
  "function_call_of_shell mt call =
     \<lparr>ifn_agent = sc_agent call, ifn_id = Option.bind (sc_id call) function_call_item_id, ifn_call_id = sc_call_id call,
      ifn_name = ''shell'', ifn_namespace = None, ifn_arguments = mt_shell_action mt (sc_action call),
      ifn_status = message_status_of_shell (sc_status call), ifn_async_execution = False\<rparr>"

definition function_output_of_shell :: "model_texts \<Rightarrow> shell_call_output_message \<Rightarrow> function_tool_result_message" where
  "function_output_of_shell mt out =
     \<lparr>frm_id = som_id out, frm_status = message_status_of_shell (som_status out), frm_call_id = som_call_id out,
      frm_output = TcoText (mt_shell_output mt (som_output out))\<rparr>"

definition function_output_of_custom :: "custom_tool_call_output_message \<Rightarrow> function_tool_result_message" where
  "function_output_of_custom out =
     \<lparr>frm_id = com_id out, frm_status = com_status out, frm_call_id = com_call_id out, frm_output = com_output out\<rparr>"

definition internal_call :: "agent_attribution option \<Rightarrow> string \<Rightarrow> string \<Rightarrow> string \<Rightarrow> input_item" where
  "internal_call agent call_id name arguments = IiFunctionCall
     \<lparr>ifn_agent = agent, ifn_id = None, ifn_call_id = call_id, ifn_name = name, ifn_namespace = None, ifn_arguments = arguments,
      ifn_status = Some MsCompleted, ifn_async_execution = False\<rparr>"

definition internal_output :: "string \<Rightarrow> string \<Rightarrow> input_item" where
  "internal_output call_id out = IiFunctionCallOutput
     \<lparr>frm_id = None, frm_status = Some MsCompleted, frm_call_id = call_id, frm_output = TcoText out\<rparr>"

definition searched_queries :: "web_search_action_search \<Rightarrow> json" where
  "searched_queries search =
     JArray (map JString (if wsa_queries search = [] then [wsa_query search] else wsa_queries search))"

fun web_search_arguments :: "web_search_action \<Rightarrow> json" where
  "web_search_arguments (WaSearch search) = JObject [(''queries'', searched_queries search)]"
| "web_search_arguments _ = JObject []"

definition web_result_json :: "web_search_source \<Rightarrow> json" where
  "web_result_json source =
     JObject ((if wss_url source = [] then [] else [(''url'', JString (wss_url source))]) @
       (case wss_title source of None \<Rightarrow> [] | Some t \<Rightarrow> [(''title'', JString t)]))"

fun web_search_output :: "model_texts \<Rightarrow> web_search_action \<Rightarrow> string" where
  "web_search_output mt (WaSearch search) = mt_json mt (JObject
     [(''query'', JString (wsa_query search)), (''queries'', searched_queries search),
      (''results'', JObject [(''web'', JArray (map web_result_json (wsa_sources search))), (''news'', JArray [])])])"
| "web_search_output mt action = mt_page_action mt action"

definition lower_web_search :: "model_texts \<Rightarrow> web_search_call \<Rightarrow> input_item list" where
  "lower_web_search mt call =
     [internal_call (wsc_agent call) (wsc_id call) ''web_search'' (mt_json mt (web_search_arguments (wsc_action call))),
      internal_output (wsc_id call) (web_search_output mt (wsc_action call))]"

fun execution_status :: "code_interpreter_call_status \<Rightarrow> string" where
  "execution_status CiCompleted = ''completed''"
| "execution_status CiFailed = ''failed''"
| "execution_status _ = ''incomplete''"

fun logs_of :: "code_interpreter_call_output \<Rightarrow> string option" where
  "logs_of (CioLogs logs) = Some logs"
| "logs_of (CioImage _) = None"

fun join_lines :: "string list \<Rightarrow> string" where
  "join_lines [] = []"
| "join_lines [l] = l"
| "join_lines (l # ls) = l @ [CHR 0x0A] @ join_lines ls"

definition lower_code_interpreter :: "model_texts \<Rightarrow> code_interpreter_call \<Rightarrow> input_item list" where
  "lower_code_interpreter mt call =
     [internal_call (cic_agent call) (cic_id call) ''code_interpreter'' (mt_json mt (JObject [(''code'', JString (cic_code call))])),
      internal_output (cic_id call) (mt_json mt (JObject
        [(''status'', JString (execution_status (cic_status call))),
         (''stdout'', JString (join_lines (List.map_filter logs_of (case cic_outputs call of None \<Rightarrow> [] | Some outs \<Rightarrow> outs)))),
         (''stderr'', JString [])]))]"

subsection \<open>MCP calls\<close>

text \<open>The name a request's own declaration discovered for the call.\<close>

fun discovered_name :: "mcp_call \<Rightarrow> responses_tool \<Rightarrow> string option" where
  "discovered_name call (RtMcp param) =
     (if mtp_server_label param = mc_server_label call
      then map_option mdt_internal_name (List.find (\<lambda>tool. mdt_tool_name tool = mc_name call) (mtp_discovered_tools param))
      else None)"
| "discovered_name call _ = None"

definition usable_listing :: "mcp_call \<Rightarrow> mcp_list_tools \<Rightarrow> bool" where
  "usable_listing call listing \<longleftrightarrow> mls_server_label listing = mc_server_label call \<and> mls_error listing = None"

fun listing_of :: "mcp_call \<Rightarrow> in_out_item \<Rightarrow> mcp_list_tools option" where
  "listing_of call (IoInput (IiMcpListTools listing)) = (if usable_listing call listing then Some listing else None)"
| "listing_of call (IoOutput (OiMcpListTools listing)) = (if usable_listing call listing then Some listing else None)"
| "listing_of call _ = None"

fun latest_listing :: "mcp_call \<Rightarrow> responses_input \<Rightarrow> mcp_list_tools option" where
  "latest_listing call (RiItems items) = find_map (listing_of call) (rev items)"
| "latest_listing call (RiText _) = None"

text \<open>Naming the listed tools in order up to the called one; the result is the name found and the table
  filled so far, \<open>None\<close> where naming does not end.\<close>

fun listed_name :: "mcp_call \<Rightarrow> mcp_list_tool list \<Rightarrow> used_names \<Rightarrow> (string option \<times> used_names) option" where
  "listed_name call [] used = Some (None, used)"
| "listed_name call (tool # tools) used =
     (case internal_mcp_tool_name (mc_server_label call) (mlt_name tool) used of
        None \<Rightarrow> None
      | Some (name, used') \<Rightarrow>
          if mlt_name tool = mc_name call then Some (Some name, used') else listed_name call tools used')"

definition mcp_call_name :: "responses_input \<Rightarrow> mcp_call \<Rightarrow> responses_tool list \<Rightarrow> string option" where
  "mcp_call_name input call tools =
     (case find_map (discovered_name call) tools of
        Some name \<Rightarrow> Some name
      | None \<Rightarrow>
          (case (case latest_listing call input of
                   None \<Rightarrow> Some (None, [])
                 | Some listing \<Rightarrow> listed_name call (mls_tools listing) []) of
             None \<Rightarrow> None
           | Some (Some name, _) \<Rightarrow> Some name
           | Some (None, used) \<Rightarrow> map_option fst (internal_mcp_tool_name (mc_server_label call) (mc_name call) used)))"

definition mcp_call_output :: "model_texts \<Rightarrow> mcp_call \<Rightarrow> string" where
  "mcp_call_output mt call =
     (case mc_output call of
        Some out \<Rightarrow> out
      | None \<Rightarrow> (case mc_error call of Some e \<Rightarrow> mt_mcp_error mt e | None \<Rightarrow> []))"

definition mcp_call_input :: "model_texts \<Rightarrow> responses_input \<Rightarrow> mcp_call \<Rightarrow> responses_tool list \<Rightarrow> input_item list option" where
  "mcp_call_input mt input call tools =
     map_option
       (\<lambda>name. [internal_call (mc_agent call) (mc_id call) name (mc_arguments call), internal_output (mc_id call) (mcp_call_output mt call)])
       (mcp_call_name input call tools)"

subsection \<open>The whole input\<close>

record input_validation_error =
  ive_item_index :: nat
  ive_part_index :: nat
  ive_reason :: input_file_error

fun normalized_part :: "base64 \<Rightarrow> input_content \<Rightarrow> input_file_error + input_content" where
  "normalized_part decode (IcInputImage img) = Inr (IcInputImage (img\<lparr>iic_detail := get_or_insert ''auto'' (iic_detail img)\<rparr>))"
| "normalized_part decode (IcInputFile file) =
     (case text_of_file decode file of Inl e \<Rightarrow> Inl e | Inr t \<Rightarrow> Inr (IcInputText t))"
| "normalized_part decode part = Inr part"

fun normalized_parts :: "base64 \<Rightarrow> nat \<Rightarrow> input_content list \<Rightarrow> (nat \<times> input_file_error) + input_content list" where
  "normalized_parts decode n [] = Inr []"
| "normalized_parts decode n (part # parts) =
     (case normalized_part decode part of
        Inl e \<Rightarrow> Inl (n, e)
      | Inr p \<Rightarrow> (case normalized_parts decode (Suc n) parts of Inl e \<Rightarrow> Inl e | Inr ps \<Rightarrow> Inr (p # ps)))"

definition normalized_message :: "base64 \<Rightarrow> input_message \<Rightarrow> (nat \<times> input_file_error) + input_message" where
  "normalized_message decode message =
     (case im_content message of
        ImcText _ \<Rightarrow> Inr message
      | ImcParts parts \<Rightarrow>
          (case normalized_parts decode 0 parts of
             Inl e \<Rightarrow> Inl e
           | Inr ps \<Rightarrow> Inr (message\<lparr>im_content := ImcParts ps\<rparr>)))"

text \<open>One item of the model-facing copy; the outer \<open>None\<close> is an MCP naming that does not end.\<close>

fun normalized_item ::
  "model_texts \<Rightarrow> base64 \<Rightarrow> responses_input \<Rightarrow> responses_tool list \<Rightarrow> input_item \<Rightarrow> ((nat \<times> input_file_error) + input_item list) option" where
  "normalized_item mt decode input tools (IiMcpCall call) = map_option Inr (mcp_call_input mt input call tools)"
| "normalized_item mt decode input tools (IiWebSearchCall call) = Some (Inr (lower_web_search mt call))"
| "normalized_item mt decode input tools (IiCodeInterpreterCall call) = Some (Inr (lower_code_interpreter mt call))"
| "normalized_item mt decode input tools (IiCustomToolCall call) = Some (Inr [IiFunctionCall (function_call_of_custom mt call)])"
| "normalized_item mt decode input tools (IiCustomToolCallOutput out) = Some (Inr [IiFunctionCallOutput (function_output_of_custom out)])"
| "normalized_item mt decode input tools (IiShellCall call) = Some (Inr [IiFunctionCall (function_call_of_shell mt call)])"
| "normalized_item mt decode input tools (IiShellCallOutput out) = Some (Inr [IiFunctionCallOutput (function_output_of_shell mt out)])"
| "normalized_item mt decode input tools (IiMessage message) =
     Some (case normalized_message decode message of Inl e \<Rightarrow> Inl e | Inr m \<Rightarrow> Inr [IiMessage m])"
| "normalized_item mt decode input tools other = Some (Inr [other])"

fun normalized_items ::
  "model_texts \<Rightarrow> base64 \<Rightarrow> responses_input \<Rightarrow> responses_tool list \<Rightarrow> input_item list \<Rightarrow> input_item list \<Rightarrow>
   (input_validation_error + input_item list) option" where
  "normalized_items mt decode input tools [] model = Some (Inr model)"
| "normalized_items mt decode input tools (item # items) model =
     (case normalized_item mt decode input tools item of
        None \<Rightarrow> None
      | Some (Inl (part, reason)) \<Rightarrow>
          Some (Inl \<lparr>ive_item_index = length model, ive_part_index = part, ive_reason = reason\<rparr>)
      | Some (Inr lowered_items) \<Rightarrow> normalized_items mt decode input tools items (model @ lowered_items))"

definition normalized_model_input ::
  "model_texts \<Rightarrow> base64 \<Rightarrow> responses_input \<Rightarrow> responses_tool list \<Rightarrow> (input_validation_error + responses_input) option" where
  "normalized_model_input mt decode self tools =
     (case model_input (mt_search mt) self of
        RiText s \<Rightarrow> Some (Inr (RiText s))
      | RiItems items \<Rightarrow>
          (case normalized_items mt decode self tools (to_input_items (RiItems items)) [] of
             None \<Rightarrow> None
           | Some (Inl e) \<Rightarrow> Some (Inl e)
           | Some (Inr model) \<Rightarrow> Some (Inr (of_input_items model))))"

section \<open>Only function tools reach the model\<close>

fun model_part :: "input_content \<Rightarrow> bool" where
  "model_part (IcInputFile _) = False"
| "model_part (IcInputImage img) = (iic_detail img \<noteq> None)"
| "model_part _ = True"

fun model_item :: "input_item \<Rightarrow> bool" where
  "model_item (IiFunctionCall _) = True"
| "model_item (IiFunctionCallOutput _) = True"
| "model_item (IiReasoning _) = True"
| "model_item (IiMessage m) = (case im_content m of ImcText _ \<Rightarrow> True | ImcParts parts \<Rightarrow> list_all model_part parts)"
| "model_item _ = False"

text \<open>What the projection leaves: no hidden item, compaction item or search item.\<close>

definition projected_item :: "input_item \<Rightarrow> bool" where
  "projected_item item \<longleftrightarrow> is_model_visible item \<and> \<not> is_compaction item \<and> \<not> is_search_item item"

lemma normalized_parts_ok: "normalized_parts decode n parts = Inr ps \<Longrightarrow> list_all model_part ps"
proof (induction parts arbitrary: n ps)
  case (Cons part parts)
  have "normalized_part decode part = Inr p \<Longrightarrow> model_part p" for p
    by (cases part) (auto simp: get_or_insert_def split: sum.splits option.splits)
  with Cons show ?case by (auto split: sum.splits)
qed simp

lemma normalized_item_ok:
  assumes "normalized_item mt decode input tools item = Some (Inr out)" and "projected_item item"
  shows "list_all model_item out"
proof (cases item)
  case (IiMessage m)
  with assms(1) show ?thesis
    by (auto simp: normalized_message_def dest: normalized_parts_ok split: sum.splits input_message_content.splits)
qed (use assms in \<open>auto simp: projected_item_def mcp_call_input_def internal_call_def internal_output_def lower_web_search_def
    lower_code_interpreter_def\<close>)

lemma normalized_items_ok:
  "normalized_items mt decode input tools items model = Some (Inr out) \<Longrightarrow> list_all projected_item items \<Longrightarrow>
   list_all model_item model \<Longrightarrow> list_all model_item out"
proof (induction items arbitrary: model)
  case (Cons item items)
  then show ?case using normalized_item_ok [of mt decode input tools item]
    by (auto split: option.splits sum.splits prod.splits)
qed simp


lemma model_items_visible: "list_all is_model_visible (model_items items)"
  by (auto simp: model_items_def Let_def list_all_iff)

lemma compaction_as_message_kind:
  "is_model_visible item \<Longrightarrow> is_model_visible (compaction_as_message item) \<and> \<not> is_compaction (compaction_as_message item) \<and>
   is_search_item (compaction_as_message item) = is_search_item item"
  by (cases item) auto

lemma lowered_kind: "lowered ser h position item = Some out \<Longrightarrow> projected_item out"
  by (auto simp: lowered_def projected_item_def model_search_call_def private_search_call_def model_search_output_def
      split: option.splits search_pairing.splits input_item.splits)

lemma lower_searches_projected:
  assumes "list_all (\<lambda>i. is_model_visible i \<and> \<not> is_compaction i) items"
  shows "list_all projected_item (lower_searches ser items)"
  unfolding list_all_iff
proof
  fix out assume "out \<in> set (lower_searches ser items)"
  then obtain n where n: "n < length items"
    and out: "(if is_search_item (items ! n) then lowered ser (scan_searches items) n (items ! n) else Some (items ! n)) = Some out"
    by (auto simp: lower_searches_def Let_def List.map_filter_def dest!: in_set_enumerate_eq [THEN iffD1] split: if_splits)
  define item where "item = items ! n"
  have item: "item \<in> set items" using n by (simp add: item_def)
  note out = out [folded item_def]
  from out item assms lowered_kind show "projected_item out"
    by (cases "is_search_item item") (auto simp: list_all_iff projected_item_def)
qed

lemma to_input_items_of [simp]: "to_input_items (of_input_items items) = items"
  by (simp add: of_input_items_def into_input_items_def List.map_filter_def comp_def)

lemma unchanged_projected:
  assumes "\<not> contains_compaction (RiItems items)" and "list_all (unchanged_for_model True) items"
  shows "list_all projected_item (to_input_items (RiItems items))"
proof -
  have "projected_item item" if "i \<in> set items" "as_input i = Some item" for i item
  proof -
    from assms that have "\<not> compaction_record i" "unchanged_for_model True i" by (auto simp: list_ex_iff list_all_iff)
    with that(2) show ?thesis by (cases i; cases item) (auto simp: projected_item_def)
  qed
  then show ?thesis by (auto simp: into_input_items_def List.map_filter_def list_all_iff)
qed

lemma model_input_projected: "model_input ser self = RiItems items \<Longrightarrow> list_all projected_item (to_input_items (RiItems items))"
proof (cases self)
  case (RiItems own)
  assume eq: "model_input ser self = RiItems items"
  let ?model = "map compaction_as_message (model_items (into_input_items own))"
  have "list_all (\<lambda>i. is_model_visible i \<and> \<not> is_compaction i) ?model"
    using model_items_visible [of "into_input_items own"] compaction_as_message_kind by (auto simp: list_all_iff)
  from lower_searches_projected [OF this] have lower: "list_all projected_item (lower_searches ser ?model)" .
  show ?thesis
  proof (cases "\<not> contains_compaction (RiItems own) \<and> list_all (unchanged_for_model True) own")
    case True
    with eq have "items = own" by (simp add: model_input_def RiItems)
    with True unchanged_projected show ?thesis by simp
  next
    case False
    then have "project_for_model ser True (RiItems own) = of_input_items (lower_searches ser ?model)"
      by (simp only: project_for_model.simps if_False if_True Let_def)
    with eq have "RiItems items = of_input_items (lower_searches ser ?model)" by (simp only: model_input_def RiItems)
    then show ?thesis using lower by (simp only: to_input_items_of)
  qed
qed (simp add: model_input_def)

text \<open>C31. Whatever history a request carries, the copy the model gets holds only what an upstream
  function-calling model reads: text, or function calls and their outputs, reasoning items and messages
  whose files have become text and whose images all carry a detail.  MCP, web-search, code-interpreter,
  custom, shell and tool-search items, compaction records and multi-agent items are all lowered or
  left out.\<close>

theorem only_function_tools_reach_model:
  assumes "normalized_model_input mt decode self tools = Some (Inr out)"
  shows "case out of RiText s \<Rightarrow> self = RiText s | RiItems _ \<Rightarrow> list_all model_item (to_input_items out)"
proof (cases "model_input (mt_search mt) self")
  case (RiText s)
  moreover from RiText have "self = RiText s"
    by (cases self) (auto simp: model_input_def of_input_items_def Let_def split: if_splits)
  ultimately show ?thesis using assms by (auto simp: normalized_model_input_def)
next
  case (RiItems items)
  with assms obtain model where model: "normalized_items mt decode self tools (to_input_items (RiItems items)) [] = Some (Inr model)"
    and out: "out = of_input_items model"
    by (auto simp: normalized_model_input_def split: option.splits sum.splits)
  from normalized_items_ok [OF model model_input_projected [OF RiItems]] have "list_all model_item model" by simp
  then show ?thesis using to_input_items_of [of model] by (simp add: out of_input_items_def)
qed


definition sample_texts :: model_texts where
  "sample_texts = \<lparr>mt_json = (\<lambda>_. ''{}''), mt_search = Some \<circ> (\<lambda>_. ''{}''), mt_shell_action = (\<lambda>_. ''{}''),
     mt_shell_output = (\<lambda>_. ''[]''), mt_page_action = (\<lambda>_. ''{}''), mt_mcp_error = (\<lambda>_. ''error'')\<rparr>"

definition sample_request :: responses_input where
  "sample_request = RiItems
     [IoInput (IiMessage \<lparr>im_agent = None, im_id = None, im_role = ''user'', im_phase = None, im_status = None,
        im_content = ImcParts [IcInputImage \<lparr>iic_file_id = None, iic_image_url = Some ''http://x'', iic_detail = None, iic_extra = []\<rparr>]\<rparr>),
      IoOutput (OiCustomToolCall \<lparr>ctc_agent = None, ctc_id = ''ctc_1'', ctc_status = None, ctc_call_id = ''call_1'', ctc_name = ''patch'',
        ctc_input = ''x'', ctc_async_execution = False\<rparr>),
      IoOutput (OiCodeInterpreterCall \<lparr>cic_agent = None, cic_id = ''ci_1'', cic_container_id = ''c'', cic_code = ''1'',
        cic_status = CiCompleted, cic_outputs = None\<rparr>)]"

lemma sample_request_normalizes:
  "case normalized_model_input sample_texts (\<lambda>_. None) sample_request [] of
     Some (Inr (RiItems items)) \<Rightarrow> length items = 4 | _ \<Rightarrow> False"
  by code_simp

theorem only_function_tools_reach_model_witness:
  "\<exists>items. normalized_model_input sample_texts (\<lambda>_. None) sample_request [] = Some (Inr (RiItems items)) \<and>
     list_all model_item (to_input_items (RiItems items)) \<and> length items = 4"
proof -
  obtain items where items: "normalized_model_input sample_texts (\<lambda>_. None) sample_request [] = Some (Inr (RiItems items))"
    and "length items = 4"
    using sample_request_normalizes by (auto split: option.splits sum.splits responses_input.splits)
  moreover from only_function_tools_reach_model [OF items] have "list_all model_item (to_input_items (RiItems items))"
    by (simp only: responses_input.case)
  ultimately show ?thesis by blast
qed

end
