(* ===== verification/Session.thy ===== *)
theory Session
  imports Tree_Checkpoint Compaction_Window Item_History
begin

text \<open>
  Continuation sessions (\<open>executor/session.rs\<close>, \<open>executor/session/checkpoint.rs\<close>): a group of serial
  sessions, the execution leases they hand out, the pins that keep a published parent, and the byte
  budget every retained checkpoint is charged to.

  An \<open>Arc<RetainedCheckpoint>\<close> is an address in the world's heap. The references to it are the
  sessions' latest checkpoints, the leases' parents, the pins, and the checkpoints that are built and
  not yet handed over; when the last one goes, \<open>collect\<close> frees the checkpoint and refunds its
  reservation, as the drop of the last \<open>Arc\<close> does. An operation runs under the locks it takes, so it
  is one step of the world; a lock is never poisoned, since no code that holds one can panic.

  \<open>ser\<close> is the serializer that measures a checkpoint.
\<close>

section \<open>The checkpoint budget\<close>

record checkpoint_budget =
  cb_used :: nat
  cb_limit :: nat

definition try_reserve :: "checkpoint_budget \<Rightarrow> nat \<Rightarrow> checkpoint_budget option" where
  "try_reserve budget bytes =
     (case fetch_update
        (\<lambda>used. case checked_add used bytes of None \<Rightarrow> None | Some tot \<Rightarrow> if tot \<le> cb_limit budget then Some tot else None)
        (cb_used budget) of
        (used, ok) \<Rightarrow> if ok then Some (budget\<lparr>cb_used := used\<rparr>) else None)"

text \<open>\<open>fetch_sub\<close> wraps around.\<close>

definition drop_reservation :: "nat \<Rightarrow> checkpoint_budget \<Rightarrow> checkpoint_budget" where
  "drop_reservation bytes budget = budget\<lparr>cb_used := (cb_used budget + (2 ^ 64 - bytes)) mod 2 ^ 64\<rparr>"

definition aggregate_budget_error :: executor_error where
  "aggregate_budget_error = PayloadTooLarge
     ''response continuation exceeds the aggregate retained checkpoint budget; release inactive state or replay a compacted input window''"

definition reserve :: "checkpoint_budget \<Rightarrow> nat \<Rightarrow> executor_error + checkpoint_budget" where
  "reserve budget bytes = (case try_reserve budget bytes of None \<Rightarrow> Inl aggregate_budget_error | Some b \<Rightarrow> Inr b)"

lemma try_reserve_eq [budget_simps]:
  "try_reserve b n =
     (if cb_used b + n \<le> USIZE_MAX \<and> cb_used b + n \<le> cb_limit b then Some (b\<lparr>cb_used := cb_used b + n\<rparr>) else None)"
  by (simp add: try_reserve_def fetch_update_def checked_add_def split: prod.splits)

interpretation cb: byte_budget try_reserve cb_used cb_limit
  by unfold_locales (auto simp: budget_simps split: if_splits)

interpretation cbr: refundable_budget try_reserve cb_used cb_limit drop_reservation
proof unfold_locales
  fix n and b :: checkpoint_budget
  assume "n \<le> cb_used b" and "cb_used b \<le> USIZE_MAX"
  then have "cb_used b + (2 ^ 64 - n) = 2 ^ 64 + (cb_used b - n)" and "cb_used b - n < 2 ^ 64"
    by (simp_all add: USIZE_MAX_def)
  then show "cb_used (drop_reservation n b) = cb_used b - n" unfolding drop_reservation_def by simp
qed (simp add: drop_reservation_def)

section \<open>Checkpoints\<close>

record response_metadata =
  rm_multi_agent_tree :: "stored_tree_snapshot option"
  rm_model :: string
  rm_previous_response_id :: "string option"
  rm_effective_tools :: "responses_tool list option"
  rm_tool_search_loaded_tools :: "responses_tool list option"
  rm_effective_tool_choice :: tool_choice
  rm_effective_instructions :: "string option"

record response_checkpoint =
  ck_response_id :: "string option"
  ck_history :: "input_item list"
  ck_metadata :: response_metadata
  ck_durable :: bool
  ck_history_item_ids :: "string list"
  ck_requires_latest :: bool

record retained_checkpoint =
  rc_checkpoint :: response_checkpoint
  rc_reservation :: "nat option"

fun sanitize_for_persistence :: "responses_tool \<Rightarrow> responses_tool" where
  "sanitize_for_persistence (RtMcp param) =
     RtMcp (param\<lparr>mtp_headers := None, mtp_authorization := None, mtp_discovered_tools := []\<rparr>)"
| "sanitize_for_persistence tool = tool"

section \<open>The world\<close>

type_synonym address = nat
type_synonym session_id = nat

record session_state =
  ss_latest :: "address option"
  ss_active :: bool
  ss_closed :: bool
  ss_max_items :: nat
  ss_max_bytes :: nat
  ss_grouped :: bool

record response_continuation =
  lc_state :: session_id
  lc_parent :: "address option"
  lc_budgeted :: bool
  lc_history_replaced :: bool
  lc_compacted_output_count :: nat

record checkpoint_pin =
  pin_owner :: session_id
  pin_checkpoint :: address

record session_group_state =
  gs_closed :: bool
  gs_members :: "session_id list"

record session_world =
  w_group :: session_group_state
  w_max_sessions :: nat
  w_max_items :: nat
  w_max_bytes :: nat
  w_budget :: checkpoint_budget
  w_sessions :: "session_state list"
  w_leases :: "(nat, response_continuation) index_map"
  w_pins :: "(nat, checkpoint_pin) index_map"
  w_prepared :: "(address, session_id) index_map"
  w_loaded :: "address list"
  w_heap :: "(address, retained_checkpoint) index_map"
  w_next :: nat

definition group_new :: "nat \<Rightarrow> nat \<Rightarrow> nat \<Rightarrow> nat \<Rightarrow> session_world" where
  "group_new max_sessions max_items max_bytes max_retained_bytes =
     \<lparr>w_group = \<lparr>gs_closed = False, gs_members = []\<rparr>, w_max_sessions = max_sessions, w_max_items = max_items,
      w_max_bytes = max_bytes, w_budget = \<lparr>cb_used = 0, cb_limit = max_retained_bytes\<rparr>, w_sessions = [],
      w_leases = [], w_pins = [], w_prepared = [], w_loaded = [], w_heap = [], w_next = 0\<rparr>"

definition references :: "session_world \<Rightarrow> address set" where
  "references w =
     set (List.map_filter ss_latest (w_sessions w)) \<union> set (List.map_filter (lc_parent \<circ> snd) (w_leases w)) \<union>
     set (map (pin_checkpoint \<circ> snd) (w_pins w)) \<union> set (map fst (w_prepared w)) \<union> set (w_loaded w)"

definition reserved_bytes :: "retained_checkpoint \<Rightarrow> nat" where
  "reserved_bytes r = (case rc_reservation r of None \<Rightarrow> 0 | Some n \<Rightarrow> n)"

text \<open>The drops of the last references: each freed checkpoint returns its charge.\<close>

definition collect :: "session_world \<Rightarrow> session_world" where
  "collect w =
     w\<lparr>w_heap := filter (\<lambda>(a, _). a \<in> references w) (w_heap w),
       w_budget := fold drop_reservation
         (map (reserved_bytes \<circ> snd) (filter (\<lambda>(a, _). a \<notin> references w) (w_heap w))) (w_budget w)\<rparr>"

definition response_id_of :: "session_world \<Rightarrow> address \<Rightarrow> string option" where
  "response_id_of w a = (case map_of (w_heap w) a of None \<Rightarrow> None | Some r \<Rightarrow> ck_response_id (rc_checkpoint r))"

definition put_session :: "session_id \<Rightarrow> session_state \<Rightarrow> session_world \<Rightarrow> session_world" where
  "put_session sid s w = w\<lparr>w_sessions := (w_sessions w)[sid := s]\<rparr>"

section \<open>Sessions and groups\<close>

definition session_new :: "bool \<Rightarrow> nat \<Rightarrow> nat \<Rightarrow> session_state" where
  "session_new grouped max_items max_bytes =
     \<lparr>ss_latest = None, ss_active = False, ss_closed = False, ss_max_items = max_items, ss_max_bytes = max_bytes, ss_grouped = grouped\<rparr>"

definition standalone_session :: "nat \<Rightarrow> nat \<Rightarrow> session_world \<Rightarrow> session_world" where
  "standalone_session max_items max_bytes w = w\<lparr>w_sessions := w_sessions w @ [session_new False max_items max_bytes]\<rparr>"

definition new_session :: "session_world \<Rightarrow> (session_world, executor_error, session_id) outcome" where
  "new_session w =
     (if gs_closed (w_group w) \<or> length (gs_members (w_group w)) \<ge> w_max_sessions w
      then (w, Inl (InvalidRequest ''response session group is closed or has reached its session limit''))
      else let sid = length (w_sessions w)
           in (w\<lparr>w_sessions := w_sessions w @ [session_new True (w_max_items w) (w_max_bytes w)],
                w_group := (w_group w)\<lparr>gs_members := gs_members (w_group w) @ [sid]\<rparr>\<rparr>, Inr sid))"

definition close_state :: "session_state \<Rightarrow> session_state" where
  "close_state s = s\<lparr>ss_closed := True, ss_latest := None\<rparr>"

definition drop_session :: "session_id \<Rightarrow> session_world \<Rightarrow> session_world" where
  "drop_session sid w = collect (put_session sid (close_state (w_sessions w ! sid)) w)"

definition close_members :: "session_id list \<Rightarrow> session_state list \<Rightarrow> session_state list" where
  "close_members members ss = fold (\<lambda>sid ss. ss[sid := close_state (ss ! sid)]) members ss"

definition drop_group :: "session_world \<Rightarrow> session_world" where
  "drop_group w =
     collect (w\<lparr>w_group := \<lparr>gs_closed = True, gs_members = []\<rparr>,
                w_sessions := close_members (gs_members (w_group w)) (w_sessions w)\<rparr>)"

definition group_refuses :: "session_state \<Rightarrow> session_world \<Rightarrow> bool" where
  "group_refuses s w \<longleftrightarrow> ss_grouped s \<and> gs_closed (w_group w)"

definition pin_response :: "session_id \<Rightarrow> string \<Rightarrow> session_world \<Rightarrow> (session_world, executor_error, nat option) outcome" where
  "pin_response sid response_id w =
     (let s = w_sessions w ! sid in
      if group_refuses s w then (w, Inl (InvalidRequest ''response session group has closed''))
      else if ss_closed s then (w, Inl (InvalidRequest ''response session has closed''))
      else case ss_latest s of
        None \<Rightarrow> (w, Inr None)
      | Some a \<Rightarrow>
          if response_id_of w a = Some response_id
          then (w\<lparr>w_pins := w_pins w @ [(w_next w, \<lparr>pin_owner = sid, pin_checkpoint = a\<rparr>)], w_next := Suc (w_next w)\<rparr>,
                Inr (Some (w_next w)))
          else (w, Inr None))"

definition discard_cached_response :: "session_id \<Rightarrow> string \<Rightarrow> session_world \<Rightarrow> session_world" where
  "discard_cached_response sid response_id w =
     (let s = w_sessions w ! sid in
      case ss_latest s of
        None \<Rightarrow> w
      | Some a \<Rightarrow>
          if response_id_of w a = Some response_id then collect (put_session sid (s\<lparr>ss_latest := None\<rparr>) w) else w)"

text \<open>The cached checkpoint of a session, if it is the one asked for.\<close>

definition matching :: "session_world \<Rightarrow> string option \<Rightarrow> session_state \<Rightarrow> address option" where
  "matching w previous_id s =
     (case ss_latest s of None \<Rightarrow> None | Some a \<Rightarrow> if response_id_of w a = previous_id then Some a else None)"

definition fork_parent :: "session_id \<Rightarrow> string \<Rightarrow> session_world \<Rightarrow> address option" where
  "fork_parent sid previous_id w =
     find_map (\<lambda>m. if m = sid \<or> ss_closed (w_sessions w ! m) then None else matching w (Some previous_id) (w_sessions w ! m))
       (gs_members (w_group w))"

definition begin_session :: "session_id \<Rightarrow> string option \<Rightarrow> session_world \<Rightarrow> (session_world, executor_error, nat) outcome" where
  "begin_session sid previous_id w =
     (let s = w_sessions w ! sid in
      if group_refuses s w then (w, Inl (InvalidRequest ''response session group has closed''))
      else if ss_closed s \<or> ss_active s
      then (w, Inl (InvalidRequest ''response session is closed or already executing a turn''))
      else let own = matching w previous_id s;
               parent = (case (own, previous_id) of
                   (None, Some p) \<Rightarrow> if ss_grouped s then fork_parent sid p w else None
                 | _ \<Rightarrow> own);
               lease = \<lparr>lc_state = sid, lc_parent = parent, lc_budgeted = ss_grouped s, lc_history_replaced = False,
                        lc_compacted_output_count = 0\<rparr>
           in ((put_session sid (s\<lparr>ss_active := True\<rparr>) w)
                 \<lparr>w_leases := w_leases w @ [(w_next w, lease)], w_next := Suc (w_next w)\<rparr>, Inr (w_next w)))"

definition set_parent :: "nat \<Rightarrow> address \<Rightarrow> session_world \<Rightarrow> session_world" where
  "set_parent lid a w = w\<lparr>w_leases := im_modify lid (lc_parent_update (\<lambda>_. Some a)) (w_leases w)\<rparr>"

definition begin_pinned ::
  "session_id \<Rightarrow> string option \<Rightarrow> checkpoint_pin \<Rightarrow> session_world \<Rightarrow> (session_world, executor_error, nat) outcome" where
  "begin_pinned sid previous_id pin w =
     (let pinned = (case response_id_of w (pin_checkpoint pin) of None \<Rightarrow> [] | Some r \<Rightarrow> r) in
      if previous_id \<noteq> Some pinned \<or> pin_owner pin \<noteq> sid
      then (w, Inl (InvalidRequest ''pinned response does not match the request's previous_response_id or owning session''))
      else case begin_session sid None w of
        (w', Inl e) \<Rightarrow> (w', Inl e)
      | (w', Inr lid) \<Rightarrow> (collect (set_parent lid (pin_checkpoint pin) w'), Inr lid))"

definition drop_pin :: "nat \<Rightarrow> session_world \<Rightarrow> session_world" where
  "drop_pin pid w = collect (w\<lparr>w_pins := AList.delete pid (w_pins w)\<rparr>)"

section \<open>Leases\<close>

definition mark_history_replaced :: "nat \<Rightarrow> session_world \<Rightarrow> session_world" where
  "mark_history_replaced lid w = w\<lparr>w_leases := im_modify lid (lc_history_replaced_update (\<lambda>_. True)) (w_leases w)\<rparr>"

definition mark_outputs_compacted :: "nat \<Rightarrow> nat \<Rightarrow> session_world \<Rightarrow> session_world" where
  "mark_outputs_compacted lid output_count w =
     w\<lparr>w_leases := im_modify lid (lc_compacted_output_count_update (\<lambda>_. output_count)) (w_leases w)\<rparr>"

fun output_is_async_call :: "output_item \<Rightarrow> bool" where
  "output_is_async_call (OiFunctionCall call) = ftc_async_execution call"
| "output_is_async_call (OiCustomToolCall call) = ctc_async_execution call"
| "output_is_async_call _ = False"

fun output_is_mcp_listing :: "output_item \<Rightarrow> bool" where
  "output_is_mcp_listing (OiMcpListTools _) = True"
| "output_is_mcp_listing _ = False"

definition retains_output :: "response_continuation \<Rightarrow> nat \<Rightarrow> output_item \<Rightarrow> bool" where
  "retains_output lease index item \<longleftrightarrow>
     index \<ge> lc_compacted_output_count lease \<or> output_is_mcp_listing item \<or> output_is_async_call item"

definition parent_history :: "session_world \<Rightarrow> response_continuation \<Rightarrow> input_item list" where
  "parent_history w lease =
     (case lc_parent lease of
        None \<Rightarrow> []
      | Some a \<Rightarrow> (case map_of (w_heap w) a of None \<Rightarrow> [] | Some r \<Rightarrow> ck_history (rc_checkpoint r)))"

definition parent_items :: "session_world \<Rightarrow> response_continuation \<Rightarrow> input_item list" where
  "parent_items w lease =
     (let history = parent_history w lease;
          records = (if lc_history_replaced lease then async_records history else [])
      in map snd (filter
           (\<lambda>(index, item). \<not> lc_history_replaced lease \<or> is_mcp_list_tools item \<or> records ! index)
           (List.enumerate 0 history)))"

definition built_checkpoint ::
  "session_world \<Rightarrow> response_continuation \<Rightarrow> string \<Rightarrow> response_metadata \<Rightarrow> in_out_item list \<Rightarrow> bool \<Rightarrow> response_checkpoint" where
  "built_checkpoint w lease response_id metadata new_items durable =
     \<lparr>ck_response_id = Some response_id,
      ck_history = canonical_session_history (parent_items w lease @ into_input_items new_items),
      ck_metadata = metadata\<lparr>rm_effective_tools := map_option (map sanitize_for_persistence) (rm_effective_tools metadata)\<rparr>,
      ck_durable = durable, ck_history_item_ids = [], ck_requires_latest = False\<rparr>"

text \<open>Charging a checkpoint and giving it an address.\<close>

definition retain ::
  "response_continuation \<Rightarrow> response_checkpoint \<Rightarrow> nat \<Rightarrow> session_world \<Rightarrow> (session_world, executor_error, address) outcome" where
  "retain lease c bytes w =
     (if lc_budgeted lease
      then case reserve (w_budget w) bytes of
        Inl e \<Rightarrow> (w, Inl e)
      | Inr b \<Rightarrow>
          (w\<lparr>w_budget := b, w_heap := w_heap w @ [(w_next w, \<lparr>rc_checkpoint = c, rc_reservation = Some bytes\<rparr>)],
             w_next := Suc (w_next w)\<rparr>, Inr (w_next w))
      else (w\<lparr>w_heap := w_heap w @ [(w_next w, \<lparr>rc_checkpoint = c, rc_reservation = None\<rparr>)], w_next := Suc (w_next w)\<rparr>,
            Inr (w_next w)))"

definition session_budget_error :: executor_error where
  "session_budget_error = PayloadTooLarge
     ''response continuation exceeds the session checkpoint budget; replay a compacted input window''"

definition checkpoint_lease ::
  "response_checkpoint serializer \<Rightarrow> response_continuation \<Rightarrow> string \<Rightarrow> response_metadata \<Rightarrow> in_out_item list \<Rightarrow> bool \<Rightarrow>
   session_world \<Rightarrow> (session_world, executor_error, address) outcome" where
  "checkpoint_lease ser lease response_id metadata new_items durable w =
     (let c = built_checkpoint w lease response_id metadata new_items durable;
          s = w_sessions w ! lc_state lease
      in case (if length (ck_history c) \<le> ss_max_items s then serialized_size_up_to ser c (ss_max_bytes s) else Inr None) of
           Inl e \<Rightarrow> (w, Inl e)
         | Inr None \<Rightarrow> (w, Inl session_budget_error)
         | Inr (Some bytes) \<Rightarrow>
             (case retain lease c bytes w of
                (w', Inl e) \<Rightarrow> (w', Inl e)
              | (w', Inr a) \<Rightarrow> (w'\<lparr>w_prepared := w_prepared w' @ [(a, lc_state lease)]\<rparr>, Inr a)))"

definition retain_parent ::
  "response_checkpoint serializer \<Rightarrow> response_continuation \<Rightarrow> response_checkpoint \<Rightarrow>
   session_world \<Rightarrow> (session_world, executor_error, address) outcome" where
  "retain_parent ser lease c w =
     (case (if lc_budgeted lease
            then case serialized_size_up_to ser c (cb_limit (w_budget w)) of
                Inl e \<Rightarrow> Inl e
              | Inr None \<Rightarrow> Inl aggregate_budget_error
              | Inr (Some n) \<Rightarrow> Inr n
            else Inr 0) of
        Inl e \<Rightarrow> (w, Inl e)
      | Inr bytes \<Rightarrow>
          (case retain lease c bytes w of
             (w', Inl e) \<Rightarrow> (w', Inl e)
           | (w', Inr a) \<Rightarrow> (w'\<lparr>w_loaded := w_loaded w' @ [a]\<rparr>, Inr a)))"

text \<open>Rehydration stores the loaded parent in the lease (\<open>from_session_response\<close>).\<close>

definition adopt_parent :: "nat \<Rightarrow> address \<Rightarrow> session_world \<Rightarrow> session_world" where
  "adopt_parent lid a w = collect ((set_parent lid a w)\<lparr>w_loaded := removeAll a (w_loaded w)\<rparr>)"

definition drop_retained :: "address \<Rightarrow> session_world \<Rightarrow> session_world" where
  "drop_retained a w = collect (w\<lparr>w_prepared := AList.delete a (w_prepared w), w_loaded := removeAll a (w_loaded w)\<rparr>)"

text \<open>The drop of a lease that has not finished.\<close>

definition same_response :: "session_world \<Rightarrow> address option \<Rightarrow> address option \<Rightarrow> bool" where
  "same_response w parent latest \<longleftrightarrow>
     (case (parent, latest) of (Some p, Some l) \<Rightarrow> response_id_of w l = response_id_of w p | _ \<Rightarrow> False)"

definition drop_lease :: "nat \<Rightarrow> response_continuation \<Rightarrow> session_world \<Rightarrow> session_world" where
  "drop_lease lid lease w =
     (let s = w_sessions w ! lc_state lease;
          latest = (if same_response w (lc_parent lease) (ss_latest s) then None else ss_latest s)
      in collect ((put_session (lc_state lease) (s\<lparr>ss_latest := latest, ss_active := False\<rparr>) w)
           \<lparr>w_leases := AList.delete lid (w_leases w)\<rparr>))"

definition publish :: "nat \<Rightarrow> response_continuation \<Rightarrow> address \<Rightarrow> session_world \<Rightarrow> (session_world, executor_error, unit) outcome" where
  "publish lid lease a w =
     (let s = w_sessions w ! lc_state lease in
      if ss_closed s
      then (drop_lease lid lease (drop_retained a w), Inl (InvalidRequest ''response session has closed''))
      else (collect ((put_session (lc_state lease) (s\<lparr>ss_latest := Some a, ss_active := False\<rparr>) w)
             \<lparr>w_leases := AList.delete lid (w_leases w), w_prepared := AList.delete a (w_prepared w)\<rparr>), Inr ()))"

text \<open>The obligations a pinned parent leaves to the client.\<close>

fun collect_results :: "('e + 'a) list \<Rightarrow> 'e + 'a list" where
  "collect_results [] = Inr []"
| "collect_results (Inl e # rs) = Inl e"
| "collect_results (Inr a # rs) = (case collect_results rs of Inl e \<Rightarrow> Inl e | Inr as \<Rightarrow> Inr (a # as))"

definition required_steering_input :: "response_checkpoint \<Rightarrow> executor_error + steering_required_input list" where
  "required_steering_input c =
     (case scan (ck_history c) of
        Inl e \<Rightarrow> Inl e
      | Inr ledger \<Rightarrow>
          collect_results (map (\<lambda>p.
            (case into_steering_required_input p (case rm_effective_tools (ck_metadata c) of None \<Rightarrow> [] | Some ts \<Rightarrow> ts) of
               Inl _ \<Rightarrow> Inl (InvalidRequest ''pending client tool type does not support steering'')
             | Inr r \<Rightarrow> Inr r))
            (filter (\<lambda>p. \<not> pc_async_execution p) (pending ledger))))"

end
