(* ===== verification/Session_Safety.thy ===== *)
theory Session_Safety
  imports Session
begin

text \<open>
  The sessions of \<open>Session\<close> as a transition system: its steps are the operations on sessions,
  leases, pins and retained checkpoints in any order and any interleaving of turns. The invariant
  has two halves, the memory (\<open>memory_ok\<close>: every live checkpoint is referenced and charged exactly
  once) and the sessions (\<open>sessions_ok\<close>: one lease per active session, closed sessions keep nothing,
  cached checkpoints fit); each operation is shown to keep each half.
\<close>

section \<open>Steps\<close>

inductive session_step :: "response_checkpoint serializer \<Rightarrow> session_world \<Rightarrow> session_world \<Rightarrow> bool"
  for ser :: "response_checkpoint serializer"
where
  StandaloneSession: "session_step ser w (standalone_session max_items max_bytes w)"
| NewSession: "session_step ser w (fst (new_session w))"
| DropSession: "sid < length (w_sessions w) \<Longrightarrow> session_step ser w (drop_session sid w)"
| DropGroup: "session_step ser w (drop_group w)"
| PinResponse: "sid < length (w_sessions w) \<Longrightarrow> session_step ser w (fst (pin_response sid response_id w))"
| DropPin: "session_step ser w (drop_pin pid w)"
| Discard: "sid < length (w_sessions w) \<Longrightarrow> session_step ser w (discard_cached_response sid response_id w)"
| Begin: "sid < length (w_sessions w) \<Longrightarrow> session_step ser w (fst (begin_session sid previous_id w))"
| BeginPinned:
    "sid < length (w_sessions w) \<Longrightarrow> map_of (w_pins w) pid = Some pin \<Longrightarrow>
     session_step ser w (fst (begin_pinned sid previous_id pin w))"
| MarkHistoryReplaced: "session_step ser w (mark_history_replaced lid w)"
| MarkOutputsCompacted: "session_step ser w (mark_outputs_compacted lid output_count w)"
| Checkpoint:
    "map_of (w_leases w) lid = Some lease \<Longrightarrow>
     session_step ser w (fst (checkpoint_lease ser lease response_id metadata new_items durable w))"
| RetainParent: "map_of (w_leases w) lid = Some lease \<Longrightarrow> session_step ser w (fst (retain_parent ser lease c w))"
| AdoptParent: "map_of (w_leases w) lid = Some lease \<Longrightarrow> a \<in> set (w_loaded w) \<Longrightarrow> session_step ser w (adopt_parent lid a w)"
| DropRetained: "session_step ser w (drop_retained a w)"
| DropLease: "map_of (w_leases w) lid = Some lease \<Longrightarrow> session_step ser w (drop_lease lid lease w)"
| Publish:
    "map_of (w_leases w) lid = Some lease \<Longrightarrow> map_of (w_prepared w) a = Some (lc_state lease) \<Longrightarrow>
     session_step ser w (fst (publish lid lease a w))"

inductive_cases session_step_cases [consumes 1]: "session_step ser w w'"

section \<open>Every live checkpoint is charged exactly once\<close>

definition checkpoint_size :: "response_checkpoint serializer \<Rightarrow> response_checkpoint \<Rightarrow> nat" where
  "checkpoint_size ser c = sum_list (fst (ser c))"

definition live :: "session_world \<Rightarrow> address set" where
  "live w = set (map fst (w_heap w))"

definition total_reserved :: "session_world \<Rightarrow> nat" where
  "total_reserved w = sum_list (map (reserved_bytes \<circ> snd) (w_heap w))"

definition heap_ok :: "response_checkpoint serializer \<Rightarrow> session_world \<Rightarrow> bool" where
  "heap_ok ser w \<longleftrightarrow>
     distinct (map fst (w_heap w)) \<and> (\<forall>a\<in>live w. a < w_next w) \<and> cb_used (w_budget w) = total_reserved w \<and>
     total_reserved w \<le> cb_limit (w_budget w) \<and> cb_limit (w_budget w) \<le> USIZE_MAX \<and>
     (\<forall>(a, r)\<in>set (w_heap w). rc_reservation r \<in> {None, Some (checkpoint_size ser (rc_checkpoint r))})"

definition memory_ok :: "response_checkpoint serializer \<Rightarrow> session_world \<Rightarrow> bool" where
  "memory_ok ser w \<longleftrightarrow> heap_ok ser w \<and> references w = live w"

lemma references_collect [simp]: "references (collect w) = references w"
  by (simp add: collect_def references_def)

lemma live_collect [simp]: "live (collect w) = live w \<inter> references w"
  by (auto simp: collect_def live_def)

lemma map_of_filter_fst: "map_of (filter (\<lambda>(a, _). P a) m) a = (if P a then map_of m a else None)"
  by (induction m) auto

lemma heap_collect: "a \<in> references w \<Longrightarrow> map_of (w_heap (collect w)) a = map_of (w_heap w) a"
  by (simp add: collect_def map_of_filter_fst)

lemma sum_list_split: "sum_list (map f xs) = sum_list (map f (filter P xs)) + sum_list (map f (filter (\<lambda>x. \<not> P x) xs))"
  for f :: "'a \<Rightarrow> nat"
  by (induction xs) auto

lemma heap_ok_collect:
  assumes "heap_ok ser w"
  shows "heap_ok ser (collect w)"
proof -
  let ?gone = "map (reserved_bytes \<circ> snd) (filter (\<lambda>(a, _). a \<notin> references w) (w_heap w))"
  have split: "total_reserved w = total_reserved (collect w) + sum_list ?gone"
    using sum_list_split [of "reserved_bytes \<circ> snd" "w_heap w" "\<lambda>(a, _). a \<in> references w"]
    by (simp add: total_reserved_def collect_def case_prod_unfold)
  have "sum_list ?gone \<le> cb_used (w_budget w)" "cb_used (w_budget w) \<le> USIZE_MAX"
    using split assms by (auto simp: heap_ok_def)
  from cbr.refund_all [OF this] split assms
  have "cb_used (w_budget (collect w)) = total_reserved (collect w)" "cb_limit (w_budget (collect w)) = cb_limit (w_budget w)"
    "total_reserved (collect w) \<le> total_reserved w"
    by (auto simp: heap_ok_def collect_def)
  with assms show ?thesis
    by (auto simp: heap_ok_def distinct_map_filter collect_def live_def)
qed

lemma memory_ok_collect: "heap_ok ser w \<Longrightarrow> references w \<subseteq> live w \<Longrightarrow> memory_ok ser (collect w)"
  by (auto simp: memory_ok_def heap_ok_collect)

text \<open>An update that touches neither the heap nor the budget.\<close>

definition same_heap :: "session_world \<Rightarrow> session_world \<Rightarrow> bool" where
  "same_heap w w' \<longleftrightarrow> w_heap w' = w_heap w \<and> w_budget w' = w_budget w \<and> w_next w \<le> w_next w'"

lemma same_heapD: "same_heap w w' \<Longrightarrow> live w' = live w" "same_heap w w' \<Longrightarrow> heap_ok ser w \<Longrightarrow> heap_ok ser w'"
  by (auto simp: same_heap_def live_def heap_ok_def total_reserved_def intro: less_le_trans)

lemma memory_ok_drop:
  assumes "memory_ok ser w" and "same_heap w w'" and "references w' \<subseteq> references w"
  shows "memory_ok ser (collect w')"
  using assms same_heapD [OF assms(2)] by (intro memory_ok_collect) (auto simp: memory_ok_def)

lemma memory_ok_keep:
  assumes "memory_ok ser w" and "same_heap w w'" and "references w' = references w"
  shows "memory_ok ser w'"
  using assms same_heapD [OF assms(2)] by (auto simp: memory_ok_def)

subsection \<open>References of updated worlds\<close>

lemma set_map_filter: "set (List.map_filter f xs) = {y. \<exists>x\<in>set xs. f x = Some y}"
  by (force simp: List.map_filter_def)

lemma put_session_simps [simp]:
  "w_leases (put_session sid s w) = w_leases w" "w_pins (put_session sid s w) = w_pins w"
  "w_prepared (put_session sid s w) = w_prepared w" "w_loaded (put_session sid s w) = w_loaded w"
  "w_heap (put_session sid s w) = w_heap w" "w_budget (put_session sid s w) = w_budget w"
  "w_next (put_session sid s w) = w_next w" "w_group (put_session sid s w) = w_group w"
  "w_sessions (put_session sid s w) = (w_sessions w)[sid := s]"
  "w_max_sessions (put_session sid s w) = w_max_sessions w"
  by (simp_all add: put_session_def)

definition latest_refs :: "session_state list \<Rightarrow> address set" where
  "latest_refs ss = {a. \<exists>s\<in>set ss. ss_latest s = Some a}"

definition parent_refs :: "(nat, response_continuation) index_map \<Rightarrow> address set" where
  "parent_refs m = {a. \<exists>k l. (k, l) \<in> set m \<and> lc_parent l = Some a}"

definition pin_refs :: "(nat, checkpoint_pin) index_map \<Rightarrow> address set" where
  "pin_refs m = (pin_checkpoint \<circ> snd) ` set m"

lemma references_split:
  "references w = latest_refs (w_sessions w) \<union> parent_refs (w_leases w) \<union> pin_refs (w_pins w) \<union>
     fst ` set (w_prepared w) \<union> set (w_loaded w)"
  by (auto simp: references_def latest_refs_def parent_refs_def pin_refs_def set_map_filter Bex_def)

lemma latest_refs_update: "latest_refs (ss[sid := s]) \<subseteq> latest_refs ss \<union> set_option (ss_latest s)"
  using set_update_subset_insert [of ss sid s] by (auto simp: latest_refs_def)

lemma latest_refs_snoc: "latest_refs (ss @ [s]) = latest_refs ss \<union> set_option (ss_latest s)"
  by (auto simp: latest_refs_def)

lemma latest_refs_nth: "sid < length ss \<Longrightarrow> ss_latest (ss ! sid) = Some a \<Longrightarrow> a \<in> latest_refs ss"
  by (auto simp: latest_refs_def)

lemma close_members_refs: "latest_refs (close_members members ss) \<subseteq> latest_refs ss"
proof (induction members arbitrary: ss)
  case (Cons m members)
  have "latest_refs (close_members (m # members) ss) \<subseteq> latest_refs (ss[m := close_state (ss ! m)])"
    using Cons.IH by (simp add: close_members_def)
  also have "\<dots> \<subseteq> latest_refs ss" using latest_refs_update [of ss m "close_state (ss ! m)"] by (simp add: close_state_def)
  finally show ?case .
qed (simp add: close_members_def)

lemma parent_refs_snoc: "parent_refs (m @ [(k, l)]) = parent_refs m \<union> set_option (lc_parent l)"
  by (auto simp: parent_refs_def)

lemma parent_refs_delete: "parent_refs (AList.delete k m) \<subseteq> parent_refs m"
  by (auto simp: parent_refs_def AList.delete_eq)

lemma parent_refs_set: "parent_refs (im_modify lid (lc_parent_update (\<lambda>_. Some a)) m) \<subseteq> insert a (parent_refs m)"
  by (fastforce simp: parent_refs_def im_modify_def split: if_splits)

lemma parent_refs_same: "(\<And>l. lc_parent (f l) = lc_parent l) \<Longrightarrow> parent_refs (im_modify lid f m) = parent_refs m"
proof (induction m)
  case (Cons e m)
  have "parent_refs (e # m) = set_option (lc_parent (snd e)) \<union> parent_refs m" for e m
    by (cases e) (auto simp: parent_refs_def)
  then show ?case using Cons by (cases e) (simp add: im_modify_def)
qed (simp add: im_modify_def)

lemma pin_refs_snoc: "pin_refs (m @ [(k, p)]) = insert (pin_checkpoint p) (pin_refs m)"
  by (simp add: pin_refs_def)

lemma pin_refs_delete: "pin_refs (AList.delete k m) \<subseteq> pin_refs m"
  by (auto simp: pin_refs_def AList.delete_eq)

lemma keys_delete_subset: "fst ` set (AList.delete k m) \<subseteq> fst ` set m"
  by (auto simp: AList.delete_eq)

lemma matching_latest:
  "sid < length (w_sessions w) \<Longrightarrow> matching w p (w_sessions w ! sid) = Some a \<Longrightarrow> a \<in> latest_refs (w_sessions w)"
  by (auto simp: matching_def latest_refs_nth split: option.splits if_splits)

lemmas reference_subsets =
  latest_refs_update parent_refs_delete parent_refs_set pin_refs_delete keys_delete_subset close_members_refs

text \<open>A world that only loses references is the old one after the collection.\<close>

lemma references_subset:
  assumes "latest_refs (w_sessions w') \<subseteq> references w" and "parent_refs (w_leases w') \<subseteq> references w"
    and "pin_refs (w_pins w') \<subseteq> references w" and "fst ` set (w_prepared w') \<subseteq> references w"
    and "set (w_loaded w') \<subseteq> references w"
  shows "references w' \<subseteq> references w"
  using assms by (simp add: references_split)

lemma own_references:
  "latest_refs (w_sessions w) \<subseteq> references w" "parent_refs (w_leases w) \<subseteq> references w" "pin_refs (w_pins w) \<subseteq> references w"
  "fst ` set (w_prepared w) \<subseteq> references w" "set (w_loaded w) \<subseteq> references w"
  by (auto simp: references_split)

subsection \<open>Each operation\<close>

lemma memory_standalone_session: "memory_ok ser w \<Longrightarrow> memory_ok ser (standalone_session m b w)"
  by (rule memory_ok_keep [of _ w])
    (simp_all add: standalone_session_def same_heap_def references_split latest_refs_snoc session_new_def)

lemma memory_new_session: "memory_ok ser w \<Longrightarrow> memory_ok ser (fst (new_session w))"
  by (rule memory_ok_keep [of _ w])
    (simp_all add: new_session_def same_heap_def references_split latest_refs_snoc session_new_def Let_def)

lemma memory_put_session:
  assumes "memory_ok ser w" and "set_option (ss_latest s) \<subseteq> latest_refs (w_sessions w)"
  shows "memory_ok ser (collect (put_session sid s w))"
proof (rule memory_ok_drop [OF assms(1)])
  have "latest_refs (w_sessions (put_session sid s w)) \<subseteq> latest_refs (w_sessions w)"
    using latest_refs_update [of "w_sessions w" sid s] assms(2) by (auto simp: put_session_def)
  then show "references (put_session sid s w) \<subseteq> references w" by (auto simp: references_split)
qed (simp add: same_heap_def)

lemma memory_drop_session: "memory_ok ser w \<Longrightarrow> memory_ok ser (drop_session sid w)"
  unfolding drop_session_def by (rule memory_put_session) (simp_all add: close_state_def)

lemma memory_drop_group: "memory_ok ser w \<Longrightarrow> memory_ok ser (drop_group w)"
  unfolding drop_group_def
  by (rule memory_ok_drop [of _ w]) (auto simp: same_heap_def references_split dest: close_members_refs [THEN subsetD])

lemma memory_drop_pin: "memory_ok ser w \<Longrightarrow> memory_ok ser (drop_pin pid w)"
  unfolding drop_pin_def
  by (rule memory_ok_drop [of _ w]) (auto simp: same_heap_def references_split dest: pin_refs_delete [THEN subsetD])

lemma memory_discard: "memory_ok ser w \<Longrightarrow> memory_ok ser (discard_cached_response sid r w)"
  by (simp add: discard_cached_response_def Let_def memory_put_session split: option.split)

lemma memory_pin_response:
  assumes "memory_ok ser w" and "sid < length (w_sessions w)"
  shows "memory_ok ser (fst (pin_response sid r w))"
proof (cases "\<exists>a. ss_latest (w_sessions w ! sid) = Some a \<and> fst (pin_response sid r w) =
    w\<lparr>w_pins := w_pins w @ [(w_next w, \<lparr>pin_owner = sid, pin_checkpoint = a\<rparr>)], w_next := Suc (w_next w)\<rparr>")
  case True
  then obtain a where a: "ss_latest (w_sessions w ! sid) = Some a" "fst (pin_response sid r w) =
      w\<lparr>w_pins := w_pins w @ [(w_next w, \<lparr>pin_owner = sid, pin_checkpoint = a\<rparr>)], w_next := Suc (w_next w)\<rparr>" by blast
  have "a \<in> latest_refs (w_sessions w)" using a(1) assms(2) by (rule latest_refs_nth [rotated])
  then show ?thesis unfolding a(2)
    by (intro memory_ok_keep [OF assms(1)]) (auto simp: same_heap_def references_split pin_refs_snoc)
next
  case False
  then have "fst (pin_response sid r w) = w" by (auto simp: pin_response_def Let_def split: option.splits)
  then show ?thesis using assms(1) by simp
qed

lemma memory_marks:
  "memory_ok ser w \<Longrightarrow> memory_ok ser (mark_history_replaced lid w)"
  "memory_ok ser w \<Longrightarrow> memory_ok ser (mark_outputs_compacted lid n w)"
  by (rule memory_ok_keep [of _ w];
      simp add: mark_history_replaced_def mark_outputs_compacted_def same_heap_def references_split parent_refs_same)+

lemma memory_adopt_parent:
  assumes "memory_ok ser w" and "a \<in> set (w_loaded w)"
  shows "memory_ok ser (adopt_parent lid a w)"
  unfolding adopt_parent_def
proof (rule memory_ok_drop [OF assms(1)])
  show "references ((set_parent lid a w)\<lparr>w_loaded := removeAll a (w_loaded w)\<rparr>) \<subseteq> references w"
    using parent_refs_set [of lid a "w_leases w"] assms(2) by (auto simp: references_split set_parent_def)
qed (simp add: same_heap_def set_parent_def)

lemma memory_drop_retained: "memory_ok ser w \<Longrightarrow> memory_ok ser (drop_retained a w)"
  unfolding drop_retained_def
  by (rule memory_ok_drop [of _ w]) (use keys_delete_subset [of a "w_prepared w"] in \<open>auto simp: same_heap_def references_split\<close>)

lemma memory_drop_lease:
  assumes "memory_ok ser w" and "lc_state lease < length (w_sessions w)"
  shows "memory_ok ser (drop_lease lid lease w)"
  unfolding drop_lease_def Let_def
proof (rule memory_ok_drop [OF assms(1)])
  let ?s = "w_sessions w ! lc_state lease"
  let ?s' = "?s\<lparr>ss_latest := if same_response w (lc_parent lease) (ss_latest ?s) then None else ss_latest ?s, ss_active := False\<rparr>"
  have "set_option (ss_latest ?s) \<subseteq> latest_refs (w_sessions w)" using latest_refs_nth [OF assms(2)] by auto
  then have "latest_refs ((w_sessions w)[lc_state lease := ?s']) \<subseteq> latest_refs (w_sessions w)"
    using latest_refs_update [of "w_sessions w" "lc_state lease" ?s'] by (auto split: if_splits)
  then show "references ((put_session (lc_state lease) ?s' w)\<lparr>w_leases := AList.delete lid (w_leases w)\<rparr>) \<subseteq> references w"
    using parent_refs_delete [of lid "w_leases w"] by (auto simp: references_split put_session_def)
qed (simp add: same_heap_def)

text \<open>The parent a lease begins with is the cached checkpoint of some open session.\<close>

definition begin_parent :: "session_id \<Rightarrow> string option \<Rightarrow> session_world \<Rightarrow> address option" where
  "begin_parent sid previous_id w =
     (let s = w_sessions w ! sid; own = matching w previous_id s
      in case (own, previous_id) of
           (None, Some p) \<Rightarrow> if ss_grouped s then fork_parent sid p w else None
         | _ \<Rightarrow> own)"

definition new_lease :: "session_id \<Rightarrow> string option \<Rightarrow> session_world \<Rightarrow> response_continuation" where
  "new_lease sid previous_id w =
     \<lparr>lc_state = sid, lc_parent = begin_parent sid previous_id w, lc_budgeted = ss_grouped (w_sessions w ! sid),
      lc_history_replaced = False, lc_compacted_output_count = 0\<rparr>"

definition begun :: "session_id \<Rightarrow> string option \<Rightarrow> session_world \<Rightarrow> session_world" where
  "begun sid previous_id w =
     (put_session sid ((w_sessions w ! sid)\<lparr>ss_active := True\<rparr>) w)
       \<lparr>w_leases := w_leases w @ [(w_next w, new_lease sid previous_id w)], w_next := Suc (w_next w)\<rparr>"

definition may_begin :: "session_id \<Rightarrow> session_world \<Rightarrow> bool" where
  "may_begin sid w \<longleftrightarrow> (let s = w_sessions w ! sid in \<not> group_refuses s w \<and> \<not> ss_closed s \<and> \<not> ss_active s)"

lemma begin_session_ok: "may_begin sid w \<Longrightarrow> begin_session sid p w = (begun sid p w, Inr (w_next w))"
  by (simp add: begin_session_def may_begin_def begun_def new_lease_def begin_parent_def Let_def)

lemma begin_session_refused: "\<not> may_begin sid w \<Longrightarrow> fst (begin_session sid p w) = w \<and> \<not> is_ok (snd (begin_session sid p w))"
  by (auto simp: begin_session_def may_begin_def Let_def)

definition members_ok :: "session_world \<Rightarrow> bool" where
  "members_ok w \<longleftrightarrow> (\<forall>m\<in>set (gs_members (w_group w)). m < length (w_sessions w))"

lemma fork_parent_member:
  assumes "fork_parent sid p w = Some a"
  shows "\<exists>m\<in>set (gs_members (w_group w)). m \<noteq> sid \<and> \<not> ss_closed (w_sessions w ! m) \<and> matching w (Some p) (w_sessions w ! m) = Some a"
  using find_map_Some [OF assms [unfolded fork_parent_def]] by (auto split: if_splits)

lemma begin_parent_latest:
  assumes "begin_parent sid p w = Some a" and "members_ok w" and "sid < length (w_sessions w)"
  shows "a \<in> latest_refs (w_sessions w)"
  using assms fork_parent_member [of sid _ w a] matching_latest
  by (fastforce simp: begin_parent_def members_ok_def Let_def split: option.splits if_splits)

lemma latest_refs_same:
  assumes "sid < length ss" and "ss_latest s = ss_latest (ss ! sid)"
  shows "latest_refs (ss[sid := s]) = latest_refs ss"
proof -
  have set_latest: "latest_refs xs = {a. Some a \<in> set (map ss_latest xs)}" for xs by (force simp: latest_refs_def)
  have "map ss_latest (ss[sid := s]) = map ss_latest ss"
    using assms by (simp add: map_update list_update_same_conv)
  then show ?thesis by (simp add: set_latest)
qed

lemma memory_begun:
  assumes "memory_ok ser w" and "members_ok w" and "sid < length (w_sessions w)"
  shows "memory_ok ser (begun sid p w)"
proof (rule memory_ok_keep [OF assms(1)])
  show "references (begun sid p w) = references w"
    using begin_parent_latest [OF _ assms(2,3), of p]
    by (auto simp: references_split begun_def parent_refs_snoc new_lease_def latest_refs_same [OF assms(3)])
qed (simp add: same_heap_def begun_def)

lemma memory_begin_session:
  assumes "memory_ok ser w" and "members_ok w" and "sid < length (w_sessions w)"
  shows "memory_ok ser (fst (begin_session sid p w))"
  using memory_begun [OF assms, of p] assms(1) begin_session_ok [of sid w p] begin_session_refused [of sid w p]
  by (cases "may_begin sid w") auto

definition may_begin_pinned :: "session_id \<Rightarrow> string option \<Rightarrow> checkpoint_pin \<Rightarrow> session_world \<Rightarrow> bool" where
  "may_begin_pinned sid previous_id pin w \<longleftrightarrow> may_begin sid w \<and> pin_owner pin = sid \<and>
     previous_id = Some (case response_id_of w (pin_checkpoint pin) of None \<Rightarrow> [] | Some r \<Rightarrow> r)"

definition begun_pinned :: "session_id \<Rightarrow> checkpoint_pin \<Rightarrow> session_world \<Rightarrow> session_world" where
  "begun_pinned sid pin w = collect (set_parent (w_next w) (pin_checkpoint pin) (begun sid None w))"

lemma begin_pinned_ok: "may_begin_pinned sid p pin w \<Longrightarrow> begin_pinned sid p pin w = (begun_pinned sid pin w, Inr (w_next w))"
  by (simp add: begin_pinned_def may_begin_pinned_def begun_pinned_def begin_session_ok Let_def)

lemma begin_pinned_refused:
  assumes "\<not> may_begin_pinned sid p pin w"
  shows "fst (begin_pinned sid p pin w) = w \<and> \<not> is_ok (snd (begin_pinned sid p pin w))"
proof (cases "may_begin sid w")
  case True
  with assms show ?thesis by (auto simp: begin_pinned_def may_begin_pinned_def Let_def)
next
  case False
  from begin_session_refused [OF this, of None] show ?thesis
    by (auto simp: begin_pinned_def Let_def is_ok_def split: prod.splits sum.splits)
qed

lemma memory_begin_pinned:
  assumes "memory_ok ser w" and "members_ok w" and "sid < length (w_sessions w)" and "map_of (w_pins w) pid = Some pin"
  shows "memory_ok ser (fst (begin_pinned sid p pin w))"
proof (cases "may_begin_pinned sid p pin w")
  case True
  let ?w = "begun sid None w"
  have "pin_checkpoint pin \<in> pin_refs (w_pins ?w)"
    using map_of_SomeD [OF assms(4)] by (force simp: pin_refs_def begun_def)
  then have "references (set_parent (w_next w) (pin_checkpoint pin) ?w) \<subseteq> references ?w"
    using parent_refs_set [of "w_next w" "pin_checkpoint pin" "w_leases ?w"] by (auto simp: references_split set_parent_def)
  then have "memory_ok ser (begun_pinned sid pin w)" unfolding begun_pinned_def
    by (intro memory_ok_drop [OF memory_begun [OF assms(1-3), of None]]) (simp_all add: same_heap_def set_parent_def)
  with True show ?thesis by (simp add: begin_pinned_ok)
qed (use begin_pinned_refused assms(1) in auto)

text \<open>A checkpoint that is retained gets a fresh address, its charge, and nothing else changes.\<close>

definition retained_entry :: "response_continuation \<Rightarrow> response_checkpoint \<Rightarrow> nat \<Rightarrow> retained_checkpoint" where
  "retained_entry lease c bytes = \<lparr>rc_checkpoint = c, rc_reservation = (if lc_budgeted lease then Some bytes else None)\<rparr>"

definition retained_in :: "session_world \<Rightarrow> checkpoint_budget \<Rightarrow> retained_checkpoint \<Rightarrow> session_world" where
  "retained_in w b r = w\<lparr>w_budget := b, w_heap := w_heap w @ [(w_next w, r)], w_next := Suc (w_next w)\<rparr>"

lemma retained_in_simps [simp]:
  "w_heap (retained_in w b r) = w_heap w @ [(w_next w, r)]" "w_budget (retained_in w b r) = b"
  "w_next (retained_in w b r) = Suc (w_next w)" "w_sessions (retained_in w b r) = w_sessions w"
  "w_leases (retained_in w b r) = w_leases w" "w_pins (retained_in w b r) = w_pins w"
  "w_prepared (retained_in w b r) = w_prepared w" "w_loaded (retained_in w b r) = w_loaded w"
  "w_group (retained_in w b r) = w_group w" "w_max_sessions (retained_in w b r) = w_max_sessions w"
  by (simp_all add: retained_in_def)

lemma retain_ok:
  assumes "retain lease c bytes w = (w', Inr a)"
  obtains b where "a = w_next w" "w' = retained_in w b (retained_entry lease c bytes)"
    "if lc_budgeted lease then try_reserve (w_budget w) bytes = Some b else b = w_budget w"
  using assms by (auto simp: retain_def retained_entry_def reserve_def retained_in_def split: if_splits sum.splits option.splits)

lemma retain_refused: "retain lease c bytes w = (w', Inl e) \<Longrightarrow> w' = w \<and> lc_budgeted lease \<and> e = aggregate_budget_error"
  by (auto simp: retain_def reserve_def split: if_splits sum.splits option.splits)

lemma fresh_address: "heap_ok ser w \<Longrightarrow> w_next w \<notin> live w"
  by (auto simp: heap_ok_def)

lemma heap_ok_retain:
  assumes "heap_ok ser w" and "retain lease c bytes w = (w', Inr a)" and "lc_budgeted lease \<Longrightarrow> bytes = checkpoint_size ser c"
  shows "heap_ok ser w' \<and> live w' = insert a (live w)"
proof -
  obtain b where a: "a = w_next w" and w': "w' = retained_in w b (retained_entry lease c bytes)"
    and b: "if lc_budgeted lease then try_reserve (w_budget w) bytes = Some b else b = w_budget w"
    using assms(2) by (rule retain_ok)
  have total: "total_reserved w' = total_reserved w + (if lc_budgeted lease then bytes else 0)"
    by (simp add: total_reserved_def w' retained_entry_def reserved_bytes_def)
  have budget: "cb_used b = cb_used (w_budget w) + (if lc_budgeted lease then bytes else 0)" "cb_limit b = cb_limit (w_budget w)"
    using b cb.charge_used cb.charge_ceiling by (cases "lc_budgeted lease"; auto)+
  have bounded: "cb_used b \<le> cb_limit (w_budget w)"
    using b cb.charge_bounded assms(1) by (cases "lc_budgeted lease") (auto simp: heap_ok_def)
  have live: "live w' = insert a (live w)" by (simp add: live_def w' a)
  have fresh: "w_next w \<notin> fst ` set (w_heap w)" using fresh_address [OF assms(1)] by (simp add: live_def)
  have "\<forall>x\<in>live w'. x < w_next w'" using assms(1) live a by (auto simp: w' heap_ok_def intro: less_SucI)
  moreover have "\<forall>(x, r)\<in>set (w_heap w'). rc_reservation r \<in> {None, Some (checkpoint_size ser (rc_checkpoint r))}"
    using assms(1,3) by (auto simp: w' retained_entry_def heap_ok_def)
  moreover have "cb_used (w_budget w') = total_reserved w'" "total_reserved w' \<le> cb_limit (w_budget w')"
    "cb_limit (w_budget w') \<le> USIZE_MAX" "distinct (map fst (w_heap w'))"
    using assms(1) budget bounded fresh unfolding total by (auto simp: w' heap_ok_def)
  ultimately show ?thesis using live by (simp add: heap_ok_def)
qed

definition fitting_bytes ::
  "response_checkpoint serializer \<Rightarrow> response_checkpoint \<Rightarrow> session_state \<Rightarrow> executor_error + nat option" where
  "fitting_bytes ser c s = (if length (ck_history c) \<le> ss_max_items s then serialized_size_up_to ser c (ss_max_bytes s) else Inr None)"

lemma fitting_bytes_Some:
  "fitting_bytes ser c s = Inr (Some n) \<Longrightarrow> n = checkpoint_size ser c \<and> length (ck_history c) \<le> ss_max_items s \<and> n \<le> ss_max_bytes s"
  by (auto simp: fitting_bytes_def serialized_size_up_to_eq checkpoint_size_def split: if_splits)

text \<open>Building a checkpoint either refuses and changes nothing, or retains one that fits its session.\<close>

lemma checkpoint_lease_alt:
  "checkpoint_lease ser lease rid md items durable w =
     (let c = built_checkpoint w lease rid md items durable in
      case fitting_bytes ser c (w_sessions w ! lc_state lease) of
        Inl e \<Rightarrow> (w, Inl e)
      | Inr None \<Rightarrow> (w, Inl session_budget_error)
      | Inr (Some bytes) \<Rightarrow>
          (case retain lease c bytes w of
             (w', Inl e) \<Rightarrow> (w', Inl e)
           | (w', Inr a) \<Rightarrow> (w'\<lparr>w_prepared := w_prepared w' @ [(a, lc_state lease)]\<rparr>, Inr a)))"
  by (simp only: checkpoint_lease_def fitting_bytes_def Let_def)

lemma checkpoint_lease_cases:
  obtains (Refused) e where "checkpoint_lease ser lease rid md items durable w = (w, Inl e)"
  | (Built) c w' where "c = built_checkpoint w lease rid md items durable"
      "length (ck_history c) \<le> ss_max_items (w_sessions w ! lc_state lease)"
      "checkpoint_size ser c \<le> ss_max_bytes (w_sessions w ! lc_state lease)"
      "retain lease c (checkpoint_size ser c) w = (w', Inr (w_next w))"
      "checkpoint_lease ser lease rid md items durable w =
         (w'\<lparr>w_prepared := w_prepared w @ [(w_next w, lc_state lease)]\<rparr>, Inr (w_next w))"
proof -
  define c where "c = built_checkpoint w lease rid md items durable"
  let ?s = "w_sessions w ! lc_state lease"
  note alt = checkpoint_lease_alt [of ser lease rid md items durable w, folded c_def, unfolded Let_def]
  show thesis
  proof (cases "\<exists>bytes w' a. fitting_bytes ser c ?s = Inr (Some bytes) \<and> retain lease c bytes w = (w', Inr a)")
    case True
    then obtain bytes w' a where b: "fitting_bytes ser c ?s = Inr (Some bytes)" and r: "retain lease c bytes w = (w', Inr a)" by blast
    obtain bu where "a = w_next w" "w' = retained_in w bu (retained_entry lease c bytes)" using r by (rule retain_ok)
    with b r fitting_bytes_Some [OF b] show thesis by (intro Built [of c w']) (simp_all add: alt c_def [symmetric])
  next
    case False
    have "\<exists>e. checkpoint_lease ser lease rid md items durable w = (w, Inl e)"
    proof (cases "\<exists>bytes. fitting_bytes ser c ?s = Inr (Some bytes)")
      case True
      then obtain bytes where b: "fitting_bytes ser c ?s = Inr (Some bytes)" ..
      then obtain w' e where r: "retain lease c bytes w = (w', Inl e)" using False by (metis old.prod.exhaust obj_sumE)
      with retain_refused [OF r] show ?thesis by (simp add: alt b)
    next
      case False
      then show ?thesis by (auto simp: alt split: sum.split option.split)
    qed
    then show thesis using Refused by blast
  qed
qed

lemma memory_checkpoint_lease:
  assumes "memory_ok ser w"
  shows "memory_ok ser (fst (checkpoint_lease ser lease rid md items durable w))"
proof (cases rule: checkpoint_lease_cases [of ser lease rid md items durable w])
  case (Built c w')
  have h: "heap_ok ser w' \<and> live w' = insert (w_next w) (live w)"
    using heap_ok_retain [OF _ Built(4), of ser] assms by (simp add: memory_ok_def)
  have "references (w'\<lparr>w_prepared := w_prepared w @ [(w_next w, lc_state lease)]\<rparr>) = insert (w_next w) (references w)"
    using Built(4) by (rule retain_ok) (auto simp: references_split)
  moreover have "live (w'\<lparr>w_prepared := p\<rparr>) = live w'" "heap_ok ser (w'\<lparr>w_prepared := p\<rparr>) = heap_ok ser w'" for p
    by (simp_all add: live_def heap_ok_def total_reserved_def)
  ultimately show ?thesis using assms h by (simp add: Built(5) memory_ok_def)
qed (use assms in simp)

text \<open>A loaded parent is measured against the aggregate limit only.\<close>

lemma retain_parent_cases:
  obtains (Refused) e where "retain_parent ser lease c w = (w, Inl e)"
  | (Loaded) bytes w' where "retain lease c bytes w = (w', Inr (w_next w))" "lc_budgeted lease \<Longrightarrow> bytes = checkpoint_size ser c"
      "retain_parent ser lease c w = (w'\<lparr>w_loaded := w_loaded w @ [w_next w]\<rparr>, Inr (w_next w))"
proof -
  define measured where "measured =
    (if lc_budgeted lease
     then case serialized_size_up_to ser c (cb_limit (w_budget w)) of
         Inl e \<Rightarrow> Inl e | Inr None \<Rightarrow> Inl aggregate_budget_error | Inr (Some n) \<Rightarrow> Inr n
     else Inr 0)"
  note def = retain_parent_def [of ser lease c w, folded measured_def]
  show thesis
  proof (cases measured)
    case (Inl e)
    then show thesis using Refused by (simp add: def)
  next
    case (Inr bytes)
    then have exact: "lc_budgeted lease \<Longrightarrow> bytes = checkpoint_size ser c"
      by (auto simp: measured_def serialized_size_up_to_eq checkpoint_size_def split: if_splits)
    obtain w' r where r: "retain lease c bytes w = (w', r)" by fastforce
    show thesis
    proof (cases r)
      case (Inl e)
      with r retain_refused [of lease c bytes w w' e] Refused show thesis by (simp add: def Inr)
    next
      case (Inr a)
      have ok: "retain lease c bytes w = (w', Inr a)" using r Inr by simp
      obtain bu where "a = w_next w" "w' = retained_in w bu (retained_entry lease c bytes)" using ok by (rule retain_ok)
      with exact ok \<open>measured = Inr bytes\<close> show thesis by (intro Loaded [of bytes w']) (simp_all add: def)
    qed
  qed
qed

lemma memory_retain_parent:
  assumes "memory_ok ser w"
  shows "memory_ok ser (fst (retain_parent ser lease c w))"
proof (cases rule: retain_parent_cases [of ser lease c w])
  case (Loaded bytes w')
  have h: "heap_ok ser w' \<and> live w' = insert (w_next w) (live w)"
    using heap_ok_retain [OF _ Loaded(1,2)] assms by (simp add: memory_ok_def)
  have "references (w'\<lparr>w_loaded := w_loaded w @ [w_next w]\<rparr>) = insert (w_next w) (references w)"
    using Loaded(1) by (rule retain_ok) (auto simp: references_split)
  moreover have "live (w'\<lparr>w_loaded := p\<rparr>) = live w'" "heap_ok ser (w'\<lparr>w_loaded := p\<rparr>) = heap_ok ser w'" for p
    by (simp_all add: live_def heap_ok_def total_reserved_def)
  ultimately show ?thesis using assms h by (simp add: Loaded(3) memory_ok_def)
qed (use assms in simp)

definition published :: "nat \<Rightarrow> response_continuation \<Rightarrow> address \<Rightarrow> session_world \<Rightarrow> session_world" where
  "published lid lease a w =
     (put_session (lc_state lease) ((w_sessions w ! lc_state lease)\<lparr>ss_latest := Some a, ss_active := False\<rparr>) w)
       \<lparr>w_leases := AList.delete lid (w_leases w), w_prepared := AList.delete a (w_prepared w)\<rparr>"

lemma publish_open: "\<not> ss_closed (w_sessions w ! lc_state lease) \<Longrightarrow> publish lid lease a w = (collect (published lid lease a w), Inr ())"
  by (simp add: publish_def published_def Let_def)

lemma publish_closed:
  "ss_closed (w_sessions w ! lc_state lease) \<Longrightarrow>
   publish lid lease a w = (drop_lease lid lease (drop_retained a w), Inl (InvalidRequest ''response session has closed''))"
  by (simp add: publish_def Let_def)

lemma sessions_collect [simp]:
  "w_sessions (collect w) = w_sessions w" "w_leases (collect w) = w_leases w" "w_pins (collect w) = w_pins w"
  "w_prepared (collect w) = w_prepared w" "w_loaded (collect w) = w_loaded w" "w_group (collect w) = w_group w"
  "w_next (collect w) = w_next w" "w_max_sessions (collect w) = w_max_sessions w"
  by (simp_all add: collect_def)

lemma memory_publish:
  assumes "memory_ok ser w" and "map_of (w_prepared w) a = Some (lc_state lease)" and "lc_state lease < length (w_sessions w)"
  shows "memory_ok ser (fst (publish lid lease a w))"
proof (cases "ss_closed (w_sessions w ! lc_state lease)")
  case True
  have "lc_state lease < length (w_sessions (drop_retained a w))" using assms(3) by (simp add: drop_retained_def)
  with True memory_drop_lease [OF memory_drop_retained [OF assms(1)]] show ?thesis by (simp add: publish_closed)
next
  case False
  have "a \<in> fst ` set (w_prepared w)" using map_of_SomeD [OF assms(2)] by force
  then have "references (published lid lease a w) \<subseteq> references w"
    using latest_refs_update [of "w_sessions w" "lc_state lease"
        "(w_sessions w ! lc_state lease)\<lparr>ss_latest := Some a, ss_active := False\<rparr>"]
      parent_refs_delete [of lid "w_leases w"] keys_delete_subset [of a "w_prepared w"]
    by (auto simp: references_split published_def)
  with False show ?thesis
    by (auto simp: publish_open same_heap_def published_def intro!: memory_ok_drop [OF assms(1)])
qed

section \<open>One turn at a time, closed sessions keep nothing, caches fit\<close>

definition leases_of :: "(nat, response_continuation) index_map \<Rightarrow> session_id \<Rightarrow> nat" where
  "leases_of ls sid = length (filter (\<lambda>e. lc_state (snd e) = sid) ls)"

definition turns_ok :: "session_state list \<Rightarrow> (nat, response_continuation) index_map \<Rightarrow> nat \<Rightarrow> bool" where
  "turns_ok ss ls n \<longleftrightarrow>
     distinct (map fst ls) \<and> (\<forall>e\<in>set ls. fst e < n \<and> lc_state (snd e) < length ss) \<and>
     (\<forall>sid<length ss. leases_of ls sid = (if ss_active (ss ! sid) then 1 else 0))"

definition group_ok :: "session_group_state \<Rightarrow> nat \<Rightarrow> session_state list \<Rightarrow> bool" where
  "group_ok g max_sessions ss \<longleftrightarrow>
     length (gs_members g) \<le> max_sessions \<and> (\<forall>m\<in>set (gs_members g). m < length ss) \<and>
     (\<forall>sid<length ss. (ss_closed (ss ! sid) \<longrightarrow> ss_latest (ss ! sid) = None) \<and>
        (ss_grouped (ss ! sid) \<longrightarrow> (if gs_closed g then ss_closed (ss ! sid) else sid \<in> set (gs_members g))))"

definition fits_session :: "response_checkpoint serializer \<Rightarrow> (address, retained_checkpoint) index_map \<Rightarrow> session_state \<Rightarrow> address \<Rightarrow> bool" where
  "fits_session ser heap s a \<longleftrightarrow>
     (\<exists>r. map_of heap a = Some r \<and> ck_response_id (rc_checkpoint r) \<noteq> None \<and>
        length (ck_history (rc_checkpoint r)) \<le> ss_max_items s \<and> checkpoint_size ser (rc_checkpoint r) \<le> ss_max_bytes s)"

definition cache_ok ::
  "response_checkpoint serializer \<Rightarrow> (address, retained_checkpoint) index_map \<Rightarrow> session_state list \<Rightarrow> (address, session_id) index_map \<Rightarrow> bool" where
  "cache_ok ser heap ss prepared \<longleftrightarrow>
     (\<forall>sid<length ss. \<forall>a. ss_latest (ss ! sid) = Some a \<longrightarrow> fits_session ser heap (ss ! sid) a) \<and>
     (\<forall>(a, sid)\<in>set prepared. sid < length ss \<and> fits_session ser heap (ss ! sid) a)"

definition sessions_ok :: "response_checkpoint serializer \<Rightarrow> session_world \<Rightarrow> bool" where
  "sessions_ok ser w \<longleftrightarrow>
     turns_ok (w_sessions w) (w_leases w) (w_next w) \<and> group_ok (w_group w) (w_max_sessions w) (w_sessions w) \<and>
     cache_ok ser (w_heap w) (w_sessions w) (w_prepared w)"

subsection \<open>How the parts change\<close>

lemma turns_ok_put:
  assumes "turns_ok ss ls n" and "sid < length ss" and "ss_active s = ss_active (ss ! sid)"
  shows "turns_ok (ss[sid := s]) ls n"
  using assms by (auto simp: turns_ok_def nth_list_update)

lemma turns_ok_modify:
  assumes "turns_ok ss ls n" and "\<And>l. lc_state (f l) = lc_state l"
  shows "turns_ok ss (im_modify lid f ls) n"
proof -
  have "leases_of (im_modify lid f ls) sid = leases_of ls sid" for sid
    using assms(2) by (induction ls) (auto simp: leases_of_def im_modify_def split: if_splits)
  moreover have "\<forall>e\<in>set (im_modify lid f ls). \<exists>e'\<in>set ls. fst e = fst e' \<and> lc_state (snd e) = lc_state (snd e')"
    using assms(2) by (force simp: im_modify_def)
  ultimately show ?thesis using assms(1) by (fastforce simp: turns_ok_def keys_im_modify)
qed

lemma turns_ok_begin:
  assumes "turns_ok ss ls n" and "sid < length ss" and "\<not> ss_active (ss ! sid)" and "ss_active s" and "lc_state l = sid"
  shows "turns_ok (ss[sid := s]) (ls @ [(n, l)]) (Suc n)"
proof -
  have "n \<notin> fst ` set ls" using assms(1) by (auto simp: turns_ok_def)
  moreover have "leases_of (ls @ [(n, l)]) i = leases_of ls i + (if i = sid then 1 else 0)" for i
    using assms(5) by (simp add: leases_of_def)
  ultimately show ?thesis using assms by (auto simp: turns_ok_def nth_list_update intro: less_SucI)
qed

lemma leases_of_delete:
  assumes "distinct (map fst ls)" and "map_of ls lid = Some l"
  shows "leases_of (AList.delete lid ls) sid + (if lc_state l = sid then 1 else 0) = leases_of ls sid"
  using assms
proof (induction ls)
  case (Cons e ls)
  obtain k v where e: "e = (k, v)" by fastforce
  show ?case
  proof (cases "k = lid")
    case True
    with Cons.prems e have "lid \<notin> fst ` set ls" "v = l" by auto
    then have "AList.delete lid ls = ls" by (simp add: AList.delete_eq) (force intro: filter_True)
    with True \<open>v = l\<close> e show ?thesis by (simp add: leases_of_def)
  next
    case False
    with Cons e show ?thesis by (auto simp: leases_of_def)
  qed
qed simp

lemma turns_ok_end:
  assumes "turns_ok ss ls n" and "map_of ls lid = Some l" and "\<not> ss_active s"
  shows "turns_ok (ss[lc_state l := s]) (AList.delete lid ls) n"
proof -
  have d: "distinct (map fst ls)" and bound: "lc_state l < length ss"
    using assms(1) map_of_SomeD [OF assms(2)] by (auto simp: turns_ok_def)
  note count = leases_of_delete [OF d assms(2)]
  have "leases_of ls (lc_state l) \<ge> 1" using count [of "lc_state l"] by simp
  then have "leases_of ls (lc_state l) = 1" using assms(1) bound by (auto simp: turns_ok_def split: if_splits)
  then have "leases_of (AList.delete lid ls) (lc_state l) = 0" using count [of "lc_state l"] by simp
  moreover have "leases_of (AList.delete lid ls) i = leases_of ls i" if "i \<noteq> lc_state l" for i using count [of i] that by simp
  ultimately have "leases_of (AList.delete lid ls) i = (if ss_active (ss[lc_state l := s] ! i) then 1 else 0)" if "i < length ss" for i
    using assms(1,3) that by (cases "i = lc_state l") (auto simp: turns_ok_def)
  moreover have "distinct (map fst (AList.delete lid ls))" using d by (rule distinct_delete)
  moreover have "fst e < n \<and> lc_state (snd e) < length ss" if "e \<in> set (AList.delete lid ls)" for e
    using assms(1) that by (auto simp: turns_ok_def AList.delete_eq)
  ultimately show ?thesis by (simp add: turns_ok_def)
qed

lemma group_ok_put:
  assumes "group_ok g n ss" and "sid < length ss" and "ss_grouped s = ss_grouped (ss ! sid)"
    and "ss_closed (ss ! sid) \<Longrightarrow> ss_closed s" and "ss_closed s \<Longrightarrow> ss_latest s = None"
  shows "group_ok g n (ss[sid := s])"
  using assms by (auto simp: group_ok_def nth_list_update)

definition same_limits :: "session_state \<Rightarrow> session_state \<Rightarrow> bool" where
  "same_limits s s' \<longleftrightarrow> ss_max_items s' = ss_max_items s \<and> ss_max_bytes s' = ss_max_bytes s"

lemma fits_same_limits: "same_limits s s' \<Longrightarrow> fits_session ser heap s' a = fits_session ser heap s a"
  by (simp add: fits_session_def same_limits_def)

lemma cache_ok_put:
  assumes "cache_ok ser heap ss prepared" and "sid < length ss" and "same_limits (ss ! sid) s"
    and "\<And>a. ss_latest s = Some a \<Longrightarrow> ss_latest (ss ! sid) = Some a \<or> fits_session ser heap (ss ! sid) a"
  shows "cache_ok ser heap (ss[sid := s]) prepared"
  using assms fits_same_limits [OF assms(3)] by (fastforce simp: cache_ok_def nth_list_update)

lemma cache_ok_prepared: "cache_ok ser heap ss prepared \<Longrightarrow> set p \<subseteq> set prepared \<Longrightarrow> cache_ok ser heap ss p"
  by (auto simp: cache_ok_def)

lemma cache_ok_heap:
  assumes "cache_ok ser heap ss prepared" and "\<And>a. a \<in> latest_refs ss \<union> fst ` set prepared \<Longrightarrow> map_of heap' a = map_of heap a"
  shows "cache_ok ser heap' ss prepared"
proof -
  have "fits_session ser heap' s a = fits_session ser heap s a" if "a \<in> latest_refs ss \<union> fst ` set prepared" for s a
    using assms(2) [OF that] by (simp add: fits_session_def)
  note same = this
  have "fits_session ser heap' (ss ! sid) a" if "sid < length ss" "ss_latest (ss ! sid) = Some a" for sid a
    using same [of a] latest_refs_nth [OF that] assms(1) that by (simp add: cache_ok_def)
  moreover have "sid < length ss \<and> fits_session ser heap' (ss ! sid) a" if "(a, sid) \<in> set prepared" for a sid
  proof -
    have "a \<in> latest_refs ss \<union> fst ` set prepared" using that by force
    with same [of a "ss ! sid"] assms(1) that show ?thesis by (auto simp: cache_ok_def)
  qed
  ultimately show ?thesis by (auto simp: cache_ok_def)
qed

lemma sessions_ok_collect: "sessions_ok ser w \<Longrightarrow> sessions_ok ser (collect w)"
  using heap_collect [of _ w] own_references [of w]
  by (auto simp: sessions_ok_def intro!: cache_ok_heap [of ser "w_heap w"])

subsection \<open>Each operation\<close>

lemma sessions_standalone_session: "sessions_ok ser w \<Longrightarrow> sessions_ok ser (standalone_session m b w)"
  by (auto simp: sessions_ok_def standalone_session_def turns_ok_def group_ok_def cache_ok_def nth_append session_new_def less_Suc_eq
      leases_of_def filter_empty_conv)

lemma sessions_new_session: "sessions_ok ser w \<Longrightarrow> sessions_ok ser (fst (new_session w))"
  by (auto simp: sessions_ok_def new_session_def turns_ok_def group_ok_def cache_ok_def nth_append session_new_def less_Suc_eq Let_def
      leases_of_def filter_empty_conv)

lemma sessions_put_session:
  assumes "sessions_ok ser w" and "sid < length (w_sessions w)" and "same_limits (w_sessions w ! sid) s"
    and "ss_active s = ss_active (w_sessions w ! sid)" and "ss_grouped s = ss_grouped (w_sessions w ! sid)"
    and "ss_closed (w_sessions w ! sid) \<Longrightarrow> ss_closed s" and "ss_latest s = None"
  shows "sessions_ok ser (collect (put_session sid s w))"
  using assms by (intro sessions_ok_collect) (auto simp: sessions_ok_def intro!: turns_ok_put group_ok_put cache_ok_put)

lemma sessions_drop_session: "sessions_ok ser w \<Longrightarrow> sid < length (w_sessions w) \<Longrightarrow> sessions_ok ser (drop_session sid w)"
  unfolding drop_session_def by (rule sessions_put_session) (simp_all add: close_state_def same_limits_def)

lemma sessions_discard: "sessions_ok ser w \<Longrightarrow> sid < length (w_sessions w) \<Longrightarrow> sessions_ok ser (discard_cached_response sid r w)"
  by (simp add: discard_cached_response_def Let_def sessions_put_session same_limits_def split: option.split)

text \<open>Dropping the group closes every member.\<close>

lemma close_members_nth:
  "sid < length ss \<Longrightarrow> close_members members ss ! sid = (if sid \<in> set members then close_state (ss ! sid) else ss ! sid)"
proof (induction members arbitrary: ss)
  case (Cons m members)
  have "close_members (m # members) ss ! sid = close_members members (ss[m := close_state (ss ! m)]) ! sid"
    by (simp add: close_members_def)
  with Cons show ?case by (cases "m = sid") (auto simp: close_state_def)
qed (simp add: close_members_def)

lemma close_members_length [simp]: "length (close_members members ss) = length ss"
proof (induction members arbitrary: ss)
  case (Cons m members)
  then show ?case by (simp add: close_members_def)
qed (simp add: close_members_def)

lemma sessions_drop_group:
  assumes "sessions_ok ser w"
  shows "sessions_ok ser (drop_group w)"
proof -
  let ?ms = "gs_members (w_group w)" and ?ss = "w_sessions w"
  note nth = close_members_nth [of _ ?ss ?ms]
  have "turns_ok (close_members ?ms ?ss) (w_leases w) (w_next w)"
    using assms by (auto simp: sessions_ok_def turns_ok_def nth close_state_def)
  moreover have "group_ok \<lparr>gs_closed = True, gs_members = []\<rparr> (w_max_sessions w) (close_members ?ms ?ss)"
    using assms by (auto simp: sessions_ok_def group_ok_def nth close_state_def split: if_splits)
  moreover have "cache_ok ser (w_heap w) (close_members ?ms ?ss) (w_prepared w)"
    using assms by (auto simp: sessions_ok_def cache_ok_def nth close_state_def fits_session_def)
  ultimately show ?thesis unfolding drop_group_def by (intro sessions_ok_collect) (simp add: sessions_ok_def)
qed

lemma turns_ok_next: "turns_ok ss ls n \<Longrightarrow> turns_ok ss ls (Suc n)"
  by (auto simp: turns_ok_def intro: less_SucI)

lemma sessions_pin_response: "sessions_ok ser w \<Longrightarrow> sessions_ok ser (fst (pin_response sid r w))"
  by (simp add: pin_response_def Let_def sessions_ok_def turns_ok_next split: option.split)

lemma sessions_drop_pin: "sessions_ok ser w \<Longrightarrow> sessions_ok ser (drop_pin pid w)"
  unfolding drop_pin_def by (rule sessions_ok_collect) (simp add: sessions_ok_def)

lemma sessions_marks:
  "sessions_ok ser w \<Longrightarrow> sessions_ok ser (mark_history_replaced lid w)"
  "sessions_ok ser w \<Longrightarrow> sessions_ok ser (mark_outputs_compacted lid n w)"
  by (simp_all add: sessions_ok_def mark_history_replaced_def mark_outputs_compacted_def turns_ok_modify)

lemma sessions_set_parent: "sessions_ok ser w \<Longrightarrow> sessions_ok ser (set_parent lid a w)"
  by (simp add: sessions_ok_def set_parent_def turns_ok_modify)

lemma sessions_adopt_parent: "sessions_ok ser w \<Longrightarrow> sessions_ok ser (adopt_parent lid a w)"
  unfolding adopt_parent_def using sessions_set_parent [of ser w lid a]
  by (intro sessions_ok_collect) (simp add: sessions_ok_def)

lemma sessions_drop_retained: "sessions_ok ser w \<Longrightarrow> sessions_ok ser (drop_retained a w)"
  unfolding drop_retained_def
  by (rule sessions_ok_collect) (auto simp: sessions_ok_def AList.delete_eq intro: cache_ok_prepared)

lemma sessions_begun:
  assumes "sessions_ok ser w" and "sid < length (w_sessions w)" and "may_begin sid w"
  shows "sessions_ok ser (begun sid p w)"
  using assms
  by (auto simp: sessions_ok_def begun_def new_lease_def may_begin_def Let_def same_limits_def
      intro!: turns_ok_begin group_ok_put cache_ok_put)

lemma sessions_begin:
  assumes "sessions_ok ser w" and "sid < length (w_sessions w)"
  shows "sessions_ok ser (fst (begin_session sid p w))" "sessions_ok ser (fst (begin_pinned sid p pin w))"
proof -
  show "sessions_ok ser (fst (begin_session sid p w))"
    using assms sessions_begun begin_session_refused [of sid w p] by (cases "may_begin sid w") (auto simp: begin_session_ok)
  show "sessions_ok ser (fst (begin_pinned sid p pin w))"
  proof (cases "may_begin_pinned sid p pin w")
    case True
    then have "sessions_ok ser (begun sid None w)" using assms by (auto simp: may_begin_pinned_def sessions_begun)
    then have "sessions_ok ser (begun_pinned sid pin w)"
      unfolding begun_pinned_def by (intro sessions_ok_collect sessions_set_parent)
    with True show ?thesis by (simp add: begin_pinned_ok)
  qed (use begin_pinned_refused assms(1) in auto)
qed


lemma cache_ok_retain:
  assumes "cache_ok ser (w_heap w) ss prepared" and "heap_ok ser w"
  shows "cache_ok ser (w_heap w @ [(w_next w, r)]) ss prepared"
proof (rule cache_ok_heap [OF assms(1)])
  fix a assume "a \<in> latest_refs ss \<union> fst ` set prepared"
  then have "map_of (w_heap w) a \<noteq> None" using assms(1)
    by (force simp: cache_ok_def fits_session_def latest_refs_def in_set_conv_nth)
  then show "map_of (w_heap w @ [(w_next w, r)]) a = map_of (w_heap w) a" by (auto simp: map_add_def)
qed

lemma fits_fresh:
  assumes "heap_ok ser w" and "ck_response_id (rc_checkpoint r) \<noteq> None"
    and "length (ck_history (rc_checkpoint r)) \<le> ss_max_items s" and "checkpoint_size ser (rc_checkpoint r) \<le> ss_max_bytes s"
  shows "fits_session ser (w_heap w @ [(w_next w, r)]) s (w_next w)"
proof -
  have "map_of (w_heap w) (w_next w) = None" using fresh_address [OF assms(1)] by (simp add: live_def map_of_eq_None_iff)
  then show ?thesis using assms by (simp add: fits_session_def map_add_def)
qed

lemma sessions_checkpoint_lease:
  assumes "sessions_ok ser w" and "heap_ok ser w" and "lc_state lease < length (w_sessions w)"
  shows "sessions_ok ser (fst (checkpoint_lease ser lease rid md items durable w))"
proof (cases rule: checkpoint_lease_cases [of ser lease rid md items durable w])
  case (Built c w')
  obtain b where w': "w' = retained_in w b (retained_entry lease c (checkpoint_size ser c))" using Built(4) by (rule retain_ok)
  have "fits_session ser (w_heap w') (w_sessions w ! lc_state lease) (w_next w)"
    unfolding w' retained_in_simps
    by (rule fits_fresh [OF assms(2)]) (use Built in \<open>simp_all add: retained_entry_def built_checkpoint_def\<close>)
  moreover have "cache_ok ser (w_heap w') (w_sessions w) (w_prepared w)"
    using assms(1,2) by (simp add: w' sessions_ok_def cache_ok_retain)
  ultimately have "cache_ok ser (w_heap w') (w_sessions w) (w_prepared w @ [(w_next w, lc_state lease)])"
    using assms(3) by (auto simp: cache_ok_def)
  then show ?thesis using assms(1) by (simp add: Built(5) sessions_ok_def w' turns_ok_next)
qed (use assms in simp)

lemma sessions_retain_parent:
  assumes "sessions_ok ser w" and "heap_ok ser w"
  shows "sessions_ok ser (fst (retain_parent ser lease c w))"
proof (cases rule: retain_parent_cases [of ser lease c w])
  case (Loaded bytes w')
  obtain b where w': "w' = retained_in w b (retained_entry lease c bytes)" using Loaded(1) by (rule retain_ok)
  show ?thesis using assms by (simp add: Loaded(3) sessions_ok_def w' turns_ok_next cache_ok_retain)
qed (use assms in simp)

lemma lease_session: "sessions_ok ser w \<Longrightarrow> map_of (w_leases w) lid = Some lease \<Longrightarrow> lc_state lease < length (w_sessions w)"
  by (force simp: sessions_ok_def turns_ok_def dest: map_of_SomeD)

text \<open>The end of a turn, however it ends.\<close>

lemma sessions_end_turn:
  assumes "sessions_ok ser w" and "map_of (w_leases w) lid = Some lease" and "same_limits (w_sessions w ! lc_state lease) s"
    and "\<not> ss_active s" and "ss_grouped s = ss_grouped (w_sessions w ! lc_state lease)"
    and "ss_closed s = ss_closed (w_sessions w ! lc_state lease)" and "ss_closed s \<Longrightarrow> ss_latest s = None"
    and "\<And>a. ss_latest s = Some a \<Longrightarrow> ss_latest (w_sessions w ! lc_state lease) = Some a \<or>
           fits_session ser (w_heap w) (w_sessions w ! lc_state lease) a"
    and "set prepared \<subseteq> set (w_prepared w)"
  shows "sessions_ok ser (collect ((put_session (lc_state lease) s w)
    \<lparr>w_leases := AList.delete lid (w_leases w), w_prepared := prepared\<rparr>))"
proof (rule sessions_ok_collect)
  note bound = lease_session [OF assms(1,2)]
  have "turns_ok ((w_sessions w)[lc_state lease := s]) (AList.delete lid (w_leases w)) (w_next w)"
    using assms(1,2,4) by (simp add: sessions_ok_def turns_ok_end)
  moreover have "group_ok (w_group w) (w_max_sessions w) ((w_sessions w)[lc_state lease := s])"
    using assms bound by (auto simp: sessions_ok_def intro!: group_ok_put)
  moreover have "cache_ok ser (w_heap w) ((w_sessions w)[lc_state lease := s]) prepared"
    using assms bound by (auto simp: sessions_ok_def intro!: cache_ok_put intro: cache_ok_prepared)
  ultimately show "sessions_ok ser ((put_session (lc_state lease) s w)
    \<lparr>w_leases := AList.delete lid (w_leases w), w_prepared := prepared\<rparr>)"
    by (simp add: sessions_ok_def)
qed

lemma sessions_drop_lease:
  assumes "sessions_ok ser w" and "map_of (w_leases w) lid = Some lease"
  shows "sessions_ok ser (drop_lease lid lease w)"
proof -
  have closed: "ss_closed (w_sessions w ! lc_state lease) \<Longrightarrow> ss_latest (w_sessions w ! lc_state lease) = None"
    using assms(1) lease_session [OF assms] by (simp add: sessions_ok_def group_ok_def)
  let ?s = "w_sessions w ! lc_state lease"
  let ?s' = "?s\<lparr>ss_latest := if same_response w (lc_parent lease) (ss_latest ?s) then None else ss_latest ?s, ss_active := False\<rparr>"
  have "sessions_ok ser (collect ((put_session (lc_state lease) ?s' w)
      \<lparr>w_leases := AList.delete lid (w_leases w), w_prepared := w_prepared w\<rparr>))"
    by (rule sessions_end_turn [OF assms]) (use closed in \<open>auto simp: same_limits_def split: if_splits\<close>)
  moreover have "(put_session (lc_state lease) ?s' w)\<lparr>w_leases := AList.delete lid (w_leases w), w_prepared := w_prepared w\<rparr> =
      (put_session (lc_state lease) ?s' w)\<lparr>w_leases := AList.delete lid (w_leases w)\<rparr>"
    by (simp add: put_session_def)
  ultimately show ?thesis by (simp add: drop_lease_def Let_def)
qed

lemma sessions_publish:
  assumes "sessions_ok ser w" and "map_of (w_leases w) lid = Some lease" and "map_of (w_prepared w) a = Some (lc_state lease)"
  shows "sessions_ok ser (fst (publish lid lease a w))"
proof (cases "ss_closed (w_sessions w ! lc_state lease)")
  case True
  have "map_of (w_leases (drop_retained a w)) lid = Some lease" using assms(2) by (simp add: drop_retained_def)
  with True sessions_drop_lease [OF sessions_drop_retained [OF assms(1)]] show ?thesis by (simp add: publish_closed)
next
  case False
  have "fits_session ser (w_heap w) (w_sessions w ! lc_state lease) a"
    using assms(1) map_of_SomeD [OF assms(3)] by (auto simp: sessions_ok_def cache_ok_def)
  then have "sessions_ok ser (collect (published lid lease a w))"
    unfolding published_def
    by (intro sessions_end_turn [OF assms(1,2)]) (use False in \<open>auto simp: same_limits_def AList.delete_eq\<close>)
  with False show ?thesis by (simp add: publish_open)
qed

section \<open>The invariant\<close>

definition session_inv :: "response_checkpoint serializer \<Rightarrow> session_world \<Rightarrow> bool" where
  "session_inv ser w \<longleftrightarrow> memory_ok ser w \<and> sessions_ok ser w"

lemma sessions_members: "sessions_ok ser w \<Longrightarrow> members_ok w"
  by (simp add: sessions_ok_def group_ok_def members_ok_def)

lemma memory_heap: "memory_ok ser w \<Longrightarrow> heap_ok ser w"
  by (simp add: memory_ok_def)

lemmas memory_steps =
  memory_standalone_session memory_new_session memory_drop_session memory_drop_group memory_pin_response memory_drop_pin
  memory_discard memory_begin_session memory_begin_pinned memory_marks memory_checkpoint_lease memory_retain_parent
  memory_adopt_parent memory_drop_retained memory_drop_lease memory_publish

lemmas sessions_steps =
  sessions_standalone_session sessions_new_session sessions_drop_session sessions_drop_group sessions_pin_response
  sessions_drop_pin sessions_discard sessions_begin sessions_marks sessions_checkpoint_lease sessions_retain_parent
  sessions_adopt_parent sessions_drop_retained sessions_drop_lease sessions_publish

lemma session_inv_step:
  assumes "session_inv ser w" and "session_step ser w w'"
  shows "session_inv ser w'"
proof -
  have m: "memory_ok ser w" and s: "sessions_ok ser w" using assms(1) by (simp_all add: session_inv_def)
  note lease = lease_session [OF s] and members = sessions_members [OF s] and heap = memory_heap [OF m]
  from assms(2) have "memory_ok ser w'"
    by (cases rule: session_step_cases) (simp_all add: memory_steps m members lease)
  moreover from assms(2) have "sessions_ok ser w'"
    by (cases rule: session_step_cases) (simp_all add: sessions_steps s heap lease)
  ultimately show ?thesis by (simp add: session_inv_def)
qed

definition session_start :: "session_world \<Rightarrow> bool" where
  "session_start w \<longleftrightarrow>
     (\<exists>max_sessions max_items max_bytes max_retained. max_retained \<le> USIZE_MAX \<and>
        w = group_new max_sessions max_items max_bytes max_retained)"

lemma session_inv_start: "session_start w \<Longrightarrow> session_inv ser w"
  by (auto simp: session_start_def session_inv_def group_new_def memory_ok_def heap_ok_def live_def total_reserved_def
      references_split latest_refs_def parent_refs_def pin_refs_def sessions_ok_def turns_ok_def group_ok_def cache_ok_def)

interpretation si: invariant_system session_start "session_step ser" "session_inv ser" for ser
  by unfold_locales (auto intro: session_inv_start session_inv_step)

abbreviation session_reachable :: "response_checkpoint serializer \<Rightarrow> session_world \<Rightarrow> bool" where
  "session_reachable ser \<equiv> reachable_from session_start (session_step ser)"

lemma reachable_memory: "session_reachable ser w \<Longrightarrow> memory_ok ser w"
  using si.inv_reachable by (auto simp: session_inv_def)

lemma reachable_sessions: "session_reachable ser w \<Longrightarrow> sessions_ok ser w"
  using si.inv_reachable by (auto simp: session_inv_def)

subsection \<open>What a step never changes\<close>

definition advances :: "session_world \<Rightarrow> session_world \<Rightarrow> bool" where
  "advances w w' \<longleftrightarrow>
     w_next w \<le> w_next w' \<and> (\<forall>a<w_next w. map_of (w_heap w') a \<in> {None, map_of (w_heap w) a}) \<and>
     length (w_sessions w) \<le> length (w_sessions w') \<and>
     (\<forall>sid<length (w_sessions w). ss_closed (w_sessions w ! sid) \<longrightarrow> ss_closed (w_sessions w' ! sid))"

lemma advances_refl: "advances w w"
  by (simp add: advances_def)

lemma advances_trans: "advances w w' \<Longrightarrow> advances w' w'' \<Longrightarrow> advances w w''"
  unfolding advances_def
proof (intro conjI allI impI; elim conjE)
  fix a
  assume "\<forall>a<w_next w. map_of (w_heap w') a \<in> {None, map_of (w_heap w) a}" "a < w_next w" "w_next w \<le> w_next w'"
    "\<forall>a<w_next w'. map_of (w_heap w'') a \<in> {None, map_of (w_heap w') a}"
  then have "map_of (w_heap w') a \<in> {None, map_of (w_heap w) a}" "map_of (w_heap w'') a \<in> {None, map_of (w_heap w') a}" by auto
  then show "map_of (w_heap w'') a \<in> {None, map_of (w_heap w) a}" by auto
qed auto

lemma closed_update:
  "(ss_closed (ss ! sid) \<Longrightarrow> ss_closed s) \<Longrightarrow> ss_closed (ss ! i) \<Longrightarrow> i < length ss \<Longrightarrow> ss_closed (ss[sid := s] ! i)"
  by (cases "i = sid") auto

lemma advances_same_heap:
  assumes "same_heap w w'" and "length (w_sessions w) \<le> length (w_sessions w')"
    and "\<And>sid. sid < length (w_sessions w) \<Longrightarrow> ss_closed (w_sessions w ! sid) \<Longrightarrow> ss_closed (w_sessions w' ! sid)"
  shows "advances w w'"
  using assms by (simp add: advances_def same_heap_def)

lemma advances_collect: "advances w w' \<Longrightarrow> advances w (collect w')"
  by (auto simp: advances_def collect_def map_of_filter_fst)

lemma advances_retain:
  assumes "retain lease c bytes w = (w', Inr a)"
  shows "advances w (w'\<lparr>w_prepared := ps\<rparr>)" "advances w (w'\<lparr>w_loaded := as\<rparr>)"
  using assms by (rule retain_ok; auto simp: advances_def map_add_def split: option.splits)+

lemma advances_put_session:
  "(ss_closed (w_sessions w ! sid) \<Longrightarrow> ss_closed s) \<Longrightarrow> advances w (put_session sid s w)"
  by (rule advances_same_heap) (auto simp: same_heap_def intro: closed_update)

lemma advances_drop_lease: "advances w (drop_lease lid lease w)"
  unfolding drop_lease_def Let_def
  by (rule advances_collect, rule advances_same_heap) (auto simp: same_heap_def intro: closed_update)

lemma advances_drop_retained: "advances w (drop_retained a w)"
  unfolding drop_retained_def by (rule advances_collect, rule advances_same_heap) (simp_all add: same_heap_def)

lemma advances_publish: "advances w (fst (publish lid lease a w))"
proof (cases "ss_closed (w_sessions w ! lc_state lease)")
  case True
  then show ?thesis using advances_trans [OF advances_drop_retained advances_drop_lease] by (simp add: publish_closed)
next
  case False
  have "advances w (published lid lease a w)" unfolding published_def
    by (rule advances_same_heap) (auto simp: same_heap_def intro: closed_update)
  with False show ?thesis by (simp add: publish_open advances_collect)
qed

lemma advances_begun: "advances w (begun sid p w)"
  unfolding begun_def by (rule advances_same_heap) (auto simp: same_heap_def intro: closed_update)

lemma advances_set_parent: "advances w w' \<Longrightarrow> advances w (set_parent lid a w')"
  by (simp add: set_parent_def advances_def)

lemma advances_begin: "advances w (fst (begin_session sid p w))" "advances w (fst (begin_pinned sid p pin w))"
proof -
  show "advances w (fst (begin_session sid p w))"
    using begin_session_refused [of sid w p] by (cases "may_begin sid w") (auto simp: begin_session_ok advances_begun advances_refl)
  show "advances w (fst (begin_pinned sid p pin w))"
    using begin_pinned_refused [of sid p pin w]
    by (cases "may_begin_pinned sid p pin w")
      (auto simp: begin_pinned_ok begun_pinned_def advances_refl intro: advances_collect advances_set_parent advances_begun)
qed

lemma advances_drop_group: "advances w (drop_group w)"
  unfolding drop_group_def
  by (rule advances_collect, rule advances_same_heap) (auto simp: same_heap_def close_members_nth close_state_def)

lemma advances_checkpoint: "advances w (fst (checkpoint_lease ser lease rid md items durable w))"
  by (cases rule: checkpoint_lease_cases [of ser lease rid md items durable w]) (auto simp: advances_refl advances_retain)

lemma advances_retain_parent: "advances w (fst (retain_parent ser lease c w))"
  by (cases rule: retain_parent_cases [of ser lease c w]) (auto simp: advances_refl advances_retain)

lemma advances_small:
  "advances w (standalone_session m b w)" "advances w (fst (new_session w))" "advances w (drop_session sid w)"
  "advances w (fst (pin_response sid r w))" "advances w (drop_pin pid w)" "advances w (discard_cached_response sid r w)"
  "advances w (mark_history_replaced lid w)" "advances w (mark_outputs_compacted lid n w)" "advances w (adopt_parent lid a w)"
proof -
  show "advances w (standalone_session m b w)" "advances w (fst (new_session w))"
    by (auto simp: standalone_session_def new_session_def same_heap_def nth_append Let_def intro!: advances_same_heap)
  show "advances w (drop_session sid w)"
    unfolding drop_session_def by (rule advances_collect, rule advances_put_session) (simp add: close_state_def)
  show "advances w (fst (pin_response sid r w))"
    by (auto simp: pin_response_def Let_def advances_refl same_heap_def split: option.split intro: advances_same_heap)
  show "advances w (drop_pin pid w)"
    unfolding drop_pin_def by (rule advances_collect, rule advances_same_heap) (simp_all add: same_heap_def)
  show "advances w (discard_cached_response sid r w)"
    by (auto simp: discard_cached_response_def Let_def advances_refl split: option.split intro!: advances_collect advances_put_session)
  show "advances w (mark_history_replaced lid w)" "advances w (mark_outputs_compacted lid n w)"
    by (simp_all add: mark_history_replaced_def mark_outputs_compacted_def advances_def)
  show "advances w (adopt_parent lid a w)"
    unfolding adopt_parent_def by (rule advances_collect, rule advances_same_heap) (simp_all add: same_heap_def set_parent_def)
qed

lemmas advances_steps = advances_small advances_begin advances_drop_group advances_checkpoint advances_retain_parent
  advances_drop_retained advances_drop_lease advances_publish

lemma session_step_advances: "session_step ser w w' \<Longrightarrow> advances w w'"
  by (erule session_step_cases) (simp_all add: advances_steps)

lemma session_run_advances: "(session_step ser)\<^sup>*\<^sup>* w w' \<Longrightarrow> advances w w'"
  by (induction rule: rtranclp_induct) (auto intro: advances_refl advances_trans session_step_advances)

lemma session_run_reachable: "(session_step ser)\<^sup>*\<^sup>* w w' \<Longrightarrow> session_reachable ser w \<Longrightarrow> session_reachable ser w'"
  by (induction rule: rtranclp_induct) (auto intro: reachable_from.step)

section \<open>Properties\<close>


text \<open>C33. A session runs one turn at a time: in every reachable state an active session has exactly one
  lease and an idle one has none, so \<open>begin\<close> succeeds exactly when the session is open and no lease
  on it is out, and otherwise changes nothing.\<close>

theorem one_turn_per_session:
  assumes "session_reachable ser w" and "sid < length (w_sessions w)"
  shows "leases_of (w_leases w) sid = (if ss_active (w_sessions w ! sid) then 1 else 0) \<and>
    (is_ok (snd (begin_session sid previous_id w)) \<longleftrightarrow> \<not> ss_closed (w_sessions w ! sid) \<and> leases_of (w_leases w) sid = 0) \<and>
    (\<not> is_ok (snd (begin_session sid previous_id w)) \<longrightarrow> fst (begin_session sid previous_id w) = w)"
proof -
  note s = reachable_sessions [OF assms(1)]
  have turns: "leases_of (w_leases w) sid = (if ss_active (w_sessions w ! sid) then 1 else 0)"
    using s assms(2) by (simp add: sessions_ok_def turns_ok_def)
  have "group_refuses (w_sessions w ! sid) w \<Longrightarrow> ss_closed (w_sessions w ! sid)"
    using s assms(2) by (auto simp: group_refuses_def sessions_ok_def group_ok_def)
  then have may: "may_begin sid w \<longleftrightarrow> \<not> ss_closed (w_sessions w ! sid) \<and> leases_of (w_leases w) sid = 0"
    using turns by (auto simp: may_begin_def Let_def)
  show ?thesis
    using turns may begin_session_ok [of sid w previous_id] begin_session_refused [of sid w previous_id]
    by (cases "may_begin sid w") auto
qed

text \<open>C35. A closed session keeps nothing and never publishes again: once closed it stays closed with an
  empty cache in every later state, it admits no turn, and a turn that was still running when it
  closed is refused publication, loses its lease and leaves the session idle.\<close>

theorem closed_session_never_publishes:
  assumes "session_reachable ser w" and "sid < length (w_sessions w)" and "ss_closed (w_sessions w ! sid)"
    and "(session_step ser)\<^sup>*\<^sup>* w w'"
  shows "ss_closed (w_sessions w' ! sid) \<and> ss_latest (w_sessions w' ! sid) = None \<and>
    \<not> is_ok (snd (begin_session sid previous_id w')) \<and>
    (\<forall>lid lease a. map_of (w_leases w') lid = Some lease \<and> lc_state lease = sid \<longrightarrow>
       \<not> is_ok (snd (publish lid lease a w')) \<and> ss_latest (w_sessions (fst (publish lid lease a w')) ! sid) = None \<and>
       \<not> ss_active (w_sessions (fst (publish lid lease a w')) ! sid) \<and>
       map_of (w_leases (fst (publish lid lease a w'))) lid = None)"
proof -
  note r' = session_run_reachable [OF assms(4,1)] and adv = session_run_advances [OF assms(4)]
  have closed: "ss_closed (w_sessions w' ! sid)" and bound: "sid < length (w_sessions w')"
    using adv assms(2,3) by (auto simp: advances_def)
  have latest: "ss_latest (w_sessions w' ! sid) = None"
    using reachable_sessions [OF r'] bound closed by (simp add: sessions_ok_def group_ok_def)
  have "\<not> is_ok (snd (begin_session sid previous_id w'))"
    using begin_session_refused [of sid w' previous_id] closed by (simp add: may_begin_def Let_def)
  then show ?thesis using closed latest bound
    by (auto simp: publish_closed drop_lease_def drop_retained_def Let_def same_response_def delete_conv')
qed

text \<open>C32. A pin keeps its exact parent: for any run of the group after a checkpoint was pinned, however
  the pinned response was replaced, evicted or discarded meanwhile, as long as the pin is held the
  checkpoint is live with unchanged content, and a turn begun from the pin has that checkpoint as its
  parent.\<close>

theorem pin_keeps_parent:
  assumes "session_reachable ser w" and "map_of (w_pins w) pid = Some pin" and "map_of (w_heap w) (pin_checkpoint pin) = Some r"
    and "(session_step ser)\<^sup>*\<^sup>* w w'" and "map_of (w_pins w') pid = Some pin"
  shows "map_of (w_heap w') (pin_checkpoint pin) = Some r \<and>
    (\<forall>previous_id w'' lid. begin_pinned (pin_owner pin) previous_id pin w' = (w'', Inr lid) \<longrightarrow>
       (\<exists>lease. map_of (w_leases w'') lid = Some lease \<and> lc_parent lease = Some (pin_checkpoint pin) \<and>
          parent_history w'' lease = ck_history (rc_checkpoint r)))"
proof -
  note r' = session_run_reachable [OF assms(4,1)]
  have "pin_checkpoint pin \<in> live w" using map_of_SomeD [OF assms(3)] by (force simp: live_def)
  then have "pin_checkpoint pin < w_next w" using reachable_memory [OF assms(1)] by (simp add: memory_ok_def heap_ok_def)
  moreover have pinned: "pin_checkpoint pin \<in> pin_refs (w_pins w')" using map_of_SomeD [OF assms(5)] by (force simp: pin_refs_def)
  then have "map_of (w_heap w') (pin_checkpoint pin) \<noteq> None"
    using reachable_memory [OF r'] own_references(3) [of w'] by (auto simp: memory_ok_def live_def map_of_eq_None_iff)
  ultimately have same: "map_of (w_heap w') (pin_checkpoint pin) = Some r"
    using session_run_advances [OF assms(4)] assms(3) by (auto simp: advances_def)
  have "\<exists>lease. map_of (w_leases w'') lid = Some lease \<and> lc_parent lease = Some (pin_checkpoint pin) \<and>
      parent_history w'' lease = ck_history (rc_checkpoint r)"
    if "begin_pinned (pin_owner pin) previous_id pin w' = (w'', Inr lid)" for previous_id w'' lid
  proof -
    have "may_begin_pinned (pin_owner pin) previous_id pin w'"
      using that begin_pinned_refused [of "pin_owner pin" previous_id pin w'] by force
    from begin_pinned_ok [OF this] that have w'': "w'' = begun_pinned (pin_owner pin) pin w'" and lid: "lid = w_next w'" by auto
    let ?l = "(new_lease (pin_owner pin) None w')\<lparr>lc_parent := Some (pin_checkpoint pin)\<rparr>"
    have "map_of (w_leases w') lid = None"
      using reachable_sessions [OF r'] by (force simp: sessions_ok_def turns_ok_def lid map_of_eq_None_iff)
    then have lease: "map_of (w_leases w'') lid = Some ?l"
      by (simp add: w'' begun_pinned_def set_parent_def begun_def lid map_of_im_modify map_add_def)
    have "pin_checkpoint pin \<in> references (set_parent (w_next w') (pin_checkpoint pin) (begun (pin_owner pin) None w'))"
      using pinned by (simp add: references_split set_parent_def begun_def)
    then have "map_of (w_heap w'') (pin_checkpoint pin) = Some r"
      using same by (simp add: w'' begun_pinned_def heap_collect) (simp add: set_parent_def begun_def)
    then show ?thesis using lease by (simp add: parent_history_def)
  qed
  with same show ?thesis by blast
qed


text \<open>A turn that ends without publishing frees its session and evicts the parent it continued: the
  session is idle with no lease, its cache does not hold a checkpoint of the parent's response, and no
  other session changes.\<close>

lemma failed_turn_evicts_parent:
  assumes "session_reachable ser w" and "map_of (w_leases w) lid = Some lease"
  shows "\<not> ss_active (w_sessions (drop_lease lid lease w) ! lc_state lease) \<and>
    leases_of (w_leases (drop_lease lid lease w)) (lc_state lease) = 0 \<and>
    (\<forall>p a. lc_parent lease = Some p \<longrightarrow> ss_latest (w_sessions (drop_lease lid lease w) ! lc_state lease) = Some a \<longrightarrow>
       response_id_of (drop_lease lid lease w) a \<noteq> response_id_of w p) \<and>
    (\<forall>other. other \<noteq> lc_state lease \<longrightarrow> w_sessions (drop_lease lid lease w) ! other = w_sessions w ! other)"
proof -
  let ?w = "drop_lease lid lease w" and ?sid = "lc_state lease"
  have bound: "?sid < length (w_sessions w)" using lease_session [OF reachable_sessions [OF assms(1)] assms(2)] .
  have step: "session_reachable ser ?w" using assms by (blast intro: reachable_from.step DropLease)
  have idle: "\<not> ss_active (w_sessions ?w ! ?sid)" using bound by (simp add: drop_lease_def Let_def)
  have "leases_of (w_leases ?w) ?sid = 0"
    using reachable_sessions [OF step] idle bound by (simp add: sessions_ok_def turns_ok_def drop_lease_def Let_def)
  moreover have "response_id_of ?w a \<noteq> response_id_of w p"
    if p: "lc_parent lease = Some p" and a: "ss_latest (w_sessions ?w ! ?sid) = Some a" for p a
  proof -
    have "\<not> same_response w (lc_parent lease) (ss_latest (w_sessions w ! ?sid))" and "ss_latest (w_sessions w ! ?sid) = Some a"
      using a bound by (auto simp: drop_lease_def Let_def split: if_splits)
    then have "response_id_of w a \<noteq> response_id_of w p" using p by (simp add: same_response_def)
    moreover have "length (w_sessions ?w) = length (w_sessions w)" by (simp add: drop_lease_def Let_def)
    then have "a \<in> live ?w"
      using reachable_memory [OF step] latest_refs_nth [OF _ a] own_references(1) [of ?w] bound by (auto simp: memory_ok_def)
    then have "map_of (w_heap ?w) a \<noteq> None" by (simp add: live_def map_of_eq_None_iff)
    then have "map_of (w_heap ?w) a = map_of (w_heap w) a"
      by (auto simp: drop_lease_def Let_def collect_def map_of_filter_fst split: if_splits)
    ultimately show ?thesis by (simp add: response_id_of_def)
  qed
  moreover have "w_sessions ?w ! other = w_sessions w ! other" if "other \<noteq> ?sid" for other
    using that by (simp add: drop_lease_def Let_def)
  ultimately show ?thesis using idle by blast
qed

fun carries_credentials :: "responses_tool \<Rightarrow> bool" where
  "carries_credentials (RtMcp param) \<longleftrightarrow>
     mtp_headers param \<noteq> None \<or> mtp_authorization param \<noteq> None \<or> mtp_discovered_tools param \<noteq> []"
| "carries_credentials _ \<longleftrightarrow> False"

lemma sanitized_no_credentials: "\<not> carries_credentials (sanitize_for_persistence tool)"
  by (cases tool) auto

lemma parent_items_all:
  assumes "\<not> lc_history_replaced lease"
  shows "parent_items w lease = parent_history w lease"
proof -
  have "filter (\<lambda>(i, x). \<not> lc_history_replaced lease \<or> is_mcp_list_tools x \<or> rs ! i) es = es" for rs and es :: "(nat \<times> input_item) list"
    using assms by (auto intro: filter_True)
  then show ?thesis by (simp add: parent_items_def Let_def)
qed


section \<open>A run\<close>

text \<open>One session of a group takes a turn, publishes it, and the published response is pinned.\<close>

definition sample_ser :: "response_checkpoint serializer" where
  "sample_ser c = ([10, length (ck_history c)], True)"

definition sample_metadata :: response_metadata where
  "sample_metadata = \<lparr>rm_multi_agent_tree = None, rm_model = ''m'', rm_previous_response_id = None, rm_effective_tools = None,
     rm_tool_search_loaded_tools = None, rm_effective_tool_choice = TchAuto, rm_effective_instructions = None\<rparr>"

definition sample_lease :: response_continuation where
  "sample_lease = \<lparr>lc_state = 0, lc_parent = None, lc_budgeted = True, lc_history_replaced = False, lc_compacted_output_count = 0\<rparr>"

definition sample_idle :: session_world where
  "sample_idle = fst (new_session (group_new 2 5 20 30))"

definition sample_turn :: session_world where
  "sample_turn = fst (begin_session 0 None sample_idle)"

definition sample_built :: session_world where
  "sample_built = fst (checkpoint_lease sample_ser sample_lease ''resp_1'' sample_metadata [IoInput (sample_user_message ''hi'')] True sample_turn)"

definition sample_published :: session_world where
  "sample_published = fst (publish 0 sample_lease 1 sample_built)"

definition sample_pinned :: session_world where
  "sample_pinned = fst (pin_response 0 ''resp_1'' sample_published)"

definition sample_closed :: session_world where
  "sample_closed = drop_session 0 sample_pinned"

definition sample_checkpoint :: response_checkpoint where
  "sample_checkpoint = \<lparr>ck_response_id = Some ''resp_1'', ck_history = [sample_user_message ''hi''], ck_metadata = sample_metadata,
     ck_durable = True, ck_history_item_ids = [], ck_requires_latest = False\<rparr>"

definition sample_world :: session_world where
  "sample_world = \<lparr>w_group = \<lparr>gs_closed = False, gs_members = [0]\<rparr>, w_max_sessions = 2, w_max_items = 5, w_max_bytes = 20,
     w_budget = \<lparr>cb_used = 11, cb_limit = 30\<rparr>,
     w_sessions = [\<lparr>ss_latest = Some 1, ss_active = False, ss_closed = False, ss_max_items = 5, ss_max_bytes = 20, ss_grouped = True\<rparr>],
     w_leases = [], w_pins = [], w_prepared = [], w_loaded = [],
     w_heap = [(1, \<lparr>rc_checkpoint = sample_checkpoint, rc_reservation = Some 11\<rparr>)], w_next = 2\<rparr>"

lemmas sample_op_defs = new_session_def begin_session_def group_new_def session_new_def group_refuses_def matching_def put_session_def
  sample_lease_def

lemma sample_idle_eq:
  "sample_idle = sample_world\<lparr>w_budget := \<lparr>cb_used = 0, cb_limit = 30\<rparr>, w_sessions := [session_new True 5 20], w_heap := [], w_next := 0\<rparr>"
  by (simp add: sample_idle_def sample_world_def sample_op_defs)

lemma sample_turn_eq:
  "sample_turn = sample_idle\<lparr>w_sessions := [(session_new True 5 20)\<lparr>ss_active := True\<rparr>], w_leases := [(0, sample_lease)], w_next := 1\<rparr>"
  by (simp add: sample_turn_def sample_idle_eq sample_world_def sample_op_defs)

lemma sample_checkpoint_built:
  "built_checkpoint sample_turn sample_lease ''resp_1'' sample_metadata [IoInput (sample_user_message ''hi'')] True = sample_checkpoint"
  by code_simp

lemma sample_built_eq:
  "sample_built = sample_turn\<lparr>w_budget := \<lparr>cb_used = 11, cb_limit = 30\<rparr>, w_prepared := [(1, 0)], w_heap := w_heap sample_world, w_next := 2\<rparr>"
  unfolding sample_built_def checkpoint_lease_def sample_checkpoint_built
  by (simp add: sample_turn_eq sample_idle_eq sample_world_def sample_op_defs sample_checkpoint_def serialized_size_up_to_eq
      sample_ser_def retain_def reserve_def budget_simps USIZE_MAX_def)

lemma sample_published_eq: "sample_published = sample_world"
  by (simp add: sample_published_def publish_def sample_built_eq sample_turn_eq sample_idle_eq sample_world_def sample_op_defs
      collect_def references_def List.map_filter_def)

lemma sample_pinned_eq: "sample_pinned = sample_world\<lparr>w_pins := [(2, \<lparr>pin_owner = 0, pin_checkpoint = 1\<rparr>)], w_next := 3\<rparr>"
  by (simp add: sample_pinned_def sample_published_eq sample_world_def pin_response_def group_refuses_def response_id_of_def
      sample_checkpoint_def)

lemma sample_closed_eq:
  "sample_closed = sample_pinned\<lparr>w_sessions := [\<lparr>ss_latest = None, ss_active = False, ss_closed = True, ss_max_items = 5, ss_max_bytes = 20,
     ss_grouped = True\<rparr>]\<rparr>"
  by (simp add: sample_closed_def drop_session_def sample_pinned_eq sample_world_def put_session_def close_state_def collect_def
      references_def List.map_filter_def)

lemmas sample_eqs = sample_idle_eq sample_turn_eq sample_built_eq sample_pinned_eq sample_closed_eq sample_world_def

lemma sample_facts:
  "map_of (w_leases sample_turn) 0 = Some sample_lease" "map_of (w_leases sample_built) 0 = Some sample_lease"
  "map_of (w_prepared sample_built) 1 = Some 0" "length (w_sessions sample_idle) = 1" "length (w_sessions sample_published) = 1"
  "length (w_sessions sample_pinned) = 1"
  by (simp_all add: sample_published_eq) (simp_all add: sample_eqs)

lemma sample_idle_reachable: "session_reachable sample_ser sample_idle"
proof -
  have "session_start (group_new 2 5 20 30)" unfolding session_start_def
    by (intro exI [of _ 2] exI [of _ 5] exI [of _ 20] exI [of _ 30]) (simp add: USIZE_MAX_def)
  then show ?thesis unfolding sample_idle_def by (blast intro: reachable_from.start reachable_from.step NewSession)
qed

lemma sample_turn_reachable: "session_reachable sample_ser sample_turn"
  unfolding sample_turn_def
  by (rule reachable_from.step [OF sample_idle_reachable]) (rule Begin, simp add: sample_facts)

lemma sample_built_reachable: "session_reachable sample_ser sample_built"
  unfolding sample_built_def
  by (rule reachable_from.step [OF sample_turn_reachable]) (rule Checkpoint, rule sample_facts)

lemma sample_published_reachable: "session_reachable sample_ser sample_published"
  unfolding sample_published_def
  by (rule reachable_from.step [OF sample_built_reachable]) (rule Publish, rule sample_facts, unfold sample_facts, simp add: sample_lease_def)

lemma sample_pinned_reachable: "session_reachable sample_ser sample_pinned"
  unfolding sample_pinned_def
  by (rule reachable_from.step [OF sample_published_reachable]) (rule PinResponse, simp add: sample_facts)

lemma sample_close_step: "session_step sample_ser sample_pinned sample_closed"
  unfolding sample_closed_def by (rule DropSession) (simp add: sample_facts)


theorem one_turn_per_session_witness:
  "\<not> is_ok (snd (begin_session 0 (Some ''resp_1'') sample_turn)) \<and> fst (begin_session 0 (Some ''resp_1'') sample_turn) = sample_turn \<and>
   is_ok (snd (begin_session 0 (Some ''resp_1'') sample_pinned))"
proof -
  have "0 < length (w_sessions sample_turn)" "ss_active (w_sessions sample_turn ! 0)" "0 < length (w_sessions sample_pinned)"
    "\<not> ss_active (w_sessions sample_pinned ! 0)" "\<not> ss_closed (w_sessions sample_pinned ! 0)"
    by (simp_all add: sample_eqs)
  then show ?thesis
    using one_turn_per_session [OF sample_turn_reachable, of 0 "Some ''resp_1''"]
      one_turn_per_session [OF sample_pinned_reachable, of 0 "Some ''resp_1''"]
    by simp
qed

theorem closed_session_never_publishes_witness:
  "ss_closed (w_sessions sample_closed ! 0) \<and> ss_latest (w_sessions sample_closed ! 0) = None \<and>
   \<not> is_ok (snd (begin_session 0 None sample_closed))"
  using closed_session_never_publishes [of sample_ser sample_closed 0 sample_closed None]
    reachable_from.step [OF sample_pinned_reachable sample_close_step]
  by (simp add: sample_closed_eq)

theorem pin_keeps_parent_witness:
  "map_of (w_heap sample_closed) 1 = Some \<lparr>rc_checkpoint = sample_checkpoint, rc_reservation = Some 11\<rparr>"
  using pin_keeps_parent [OF sample_pinned_reachable, of 2 "\<lparr>pin_owner = 0, pin_checkpoint = 1\<rparr>"
      "\<lparr>rc_checkpoint = sample_checkpoint, rc_reservation = Some 11\<rparr>" sample_closed] sample_close_step
  by (simp add: r_into_rtranclp) (simp add: sample_eqs)



end
