(* ===== verification/Stream_Events.thy ===== *)
theory Stream_Events
  imports Items Text_Utils
begin

text \<open>
  Ingestion of one server-sent event (\<open>events/sse.rs\<close>, \<open>events/types.rs\<close>,
  \<open>events/types/item.rs\<close>, \<open>events/normalize.rs\<close>, \<open>events/validate.rs\<close>) and the usage counters a
  response carries (\<open>types/io/usage.rs\<close>): a framed line is classified, its JSON is normalized into a
  typed frame, and the frame is validated before the accumulator or the relay sees it.

  \<^item> A \<open>u32\<close> or \<open>u64\<close> is \<open>nat\<close>; \<open>u32::try_from\<close> is \<open>u32_of\<close>, and
    \<open>frame_typed\<close> says that every stored integer fits its width.
  \<^item> A JSON object is the list of its entries in insertion order (\<open>serde_json\<close> is built with
    \<open>preserve_order\<close>), with distinct keys.
  \<^item> The JSON reader and the derived \<open>serde\<close> readers of the payload types are the fields of an
    \<open>event_codec\<close>; \<open>WireEvent\<close>, whose reader the source customizes, is modelled itself.
\<close>

section \<open>Classification of lines\<close>

datatype classified_sse_line = SlData string | SlDone | SlIgnore

definition parse_sse_line :: "string \<Rightarrow> classified_sse_line" where
  "parse_sse_line raw =
     (case strip_prefix raw ''data:'' of
        None \<Rightarrow> SlIgnore
      | Some rest \<Rightarrow>
          let payload = (case strip_prefix rest '' '' of Some p \<Rightarrow> p | None \<Rightarrow> rest) in
          if trim payload = [] then SlIgnore
          else if trim payload = ''[DONE]'' then SlDone
          else SlData payload)"

section \<open>Event and item types\<close>

datatype sse_event_type =
    EvResponseCreated | EvResponseInProgress | EvResponseCompleted | EvResponseFailed
  | EvResponseIncomplete | EvKeepalive | EvResponseSteerAccepted | EvResponseSteerPending
  | EvResponseSteerFailed | EvOutputItemAdded | EvOutputItemDone | EvOutputTextDelta
  | EvOutputTextDone | EvContentPartAdded | EvContentPartDone | EvFunctionCallArgumentsDelta
  | EvFunctionCallArgumentsDone | EvCustomToolCallInputDelta | EvCustomToolCallInputDone
  | EvShellCallCommandAdded | EvShellCallCommandDelta | EvShellCallCommandDone
  | EvReasoningTextDelta | EvReasoningTextDone | EvReasoningPartAdded | EvReasoningPartDone
  | EvReasoningSummaryTextDelta | EvReasoningSummaryTextDone | EvFileSearchCallSearching
  | EvFileSearchCallCompleted | EvWebSearchCallInProgress | EvWebSearchCallSearching
  | EvWebSearchCallCompleted | EvCodeInterpreterCallInProgress | EvCodeInterpreterCallCodeDelta
  | EvCodeInterpreterCallCodeDone | EvCodeInterpreterCallInterpreting
  | EvCodeInterpreterCallCompleted | EvMcpCallInProgress | EvMcpCallArgumentsDelta
  | EvMcpCallArgumentsDone | EvMcpCallCompleted | EvMcpCallFailed | EvMcpListToolsInProgress
  | EvMcpListToolsCompleted | EvMcpListToolsFailed | EvOther

text \<open>\<open>From<&str>\<close> reads every wire name, and calls any other name \<open>Other\<close>.\<close>

definition event_types :: "(string \<times> sse_event_type) list" where
  "event_types =
    [(''response.created'', EvResponseCreated),
     (''response.in_progress'', EvResponseInProgress),
     (''response.completed'', EvResponseCompleted),
     (''response.done'', EvResponseCompleted),
     (''response.failed'', EvResponseFailed),
     (''response.incomplete'', EvResponseIncomplete),
     (''keepalive'', EvKeepalive),
     (''response.steer.accepted'', EvResponseSteerAccepted),
     (''response.steer.pending'', EvResponseSteerPending),
     (''response.steer.failed'', EvResponseSteerFailed),
     (''response.output_item.added'', EvOutputItemAdded),
     (''response.output_item.done'', EvOutputItemDone),
     (''response.output_text.delta'', EvOutputTextDelta),
     (''response.output_text.done'', EvOutputTextDone),
     (''response.content_part.added'', EvContentPartAdded),
     (''response.content_part.done'', EvContentPartDone),
     (''response.function_call_arguments.delta'', EvFunctionCallArgumentsDelta),
     (''response.function_call_arguments.done'', EvFunctionCallArgumentsDone),
     (''response.custom_tool_call_input.delta'', EvCustomToolCallInputDelta),
     (''response.custom_tool_call_input.done'', EvCustomToolCallInputDone),
     (''response.shell_call_command.added'', EvShellCallCommandAdded),
     (''response.shell_call_command.delta'', EvShellCallCommandDelta),
     (''response.shell_call_command.done'', EvShellCallCommandDone),
     (''response.reasoning_text.delta'', EvReasoningTextDelta),
     (''response.reasoning_text.done'', EvReasoningTextDone),
     (''response.reasoning_part.added'', EvReasoningPartAdded),
     (''response.reasoning_part.done'', EvReasoningPartDone),
     (''response.reasoning_summary_text.delta'', EvReasoningSummaryTextDelta),
     (''response.reasoning_summary_text.done'', EvReasoningSummaryTextDone),
     (''response.file_search_call.searching'', EvFileSearchCallSearching),
     (''response.file_search_call.completed'', EvFileSearchCallCompleted),
     (''response.web_search_call.in_progress'', EvWebSearchCallInProgress),
     (''response.web_search_call.searching'', EvWebSearchCallSearching),
     (''response.web_search_call.completed'', EvWebSearchCallCompleted),
     (''response.code_interpreter_call.in_progress'', EvCodeInterpreterCallInProgress),
     (''response.code_interpreter_call_code.delta'', EvCodeInterpreterCallCodeDelta),
     (''response.code_interpreter_call_code.done'', EvCodeInterpreterCallCodeDone),
     (''response.code_interpreter_call.interpreting'', EvCodeInterpreterCallInterpreting),
     (''response.code_interpreter_call.completed'', EvCodeInterpreterCallCompleted),
     (''response.mcp_call.in_progress'', EvMcpCallInProgress),
     (''response.mcp_call_arguments.delta'', EvMcpCallArgumentsDelta),
     (''response.mcp_call_arguments.done'', EvMcpCallArgumentsDone),
     (''response.mcp_call.completed'', EvMcpCallCompleted),
     (''response.mcp_call.failed'', EvMcpCallFailed),
     (''response.mcp_list_tools.in_progress'', EvMcpListToolsInProgress),
     (''response.mcp_list_tools.completed'', EvMcpListToolsCompleted),
     (''response.mcp_list_tools.failed'', EvMcpListToolsFailed)]"

definition event_type_of :: "string \<Rightarrow> sse_event_type" where
  "event_type_of name = (case map_of event_types name of Some t \<Rightarrow> t | None \<Rightarrow> EvOther)"

fun event_name :: "sse_event_type \<Rightarrow> string option" where
  "event_name EvResponseCreated = Some ''response.created''"
| "event_name EvResponseInProgress = Some ''response.in_progress''"
| "event_name EvResponseCompleted = Some ''response.completed''"
| "event_name EvResponseFailed = Some ''response.failed''"
| "event_name EvResponseIncomplete = Some ''response.incomplete''"
| "event_name EvKeepalive = Some ''keepalive''"
| "event_name EvResponseSteerAccepted = Some ''response.steer.accepted''"
| "event_name EvResponseSteerPending = Some ''response.steer.pending''"
| "event_name EvResponseSteerFailed = Some ''response.steer.failed''"
| "event_name EvOutputItemAdded = Some ''response.output_item.added''"
| "event_name EvOutputItemDone = Some ''response.output_item.done''"
| "event_name EvOutputTextDelta = Some ''response.output_text.delta''"
| "event_name EvOutputTextDone = Some ''response.output_text.done''"
| "event_name EvContentPartAdded = Some ''response.content_part.added''"
| "event_name EvContentPartDone = Some ''response.content_part.done''"
| "event_name EvFunctionCallArgumentsDelta = Some ''response.function_call_arguments.delta''"
| "event_name EvFunctionCallArgumentsDone = Some ''response.function_call_arguments.done''"
| "event_name EvCustomToolCallInputDelta = Some ''response.custom_tool_call_input.delta''"
| "event_name EvCustomToolCallInputDone = Some ''response.custom_tool_call_input.done''"
| "event_name EvShellCallCommandAdded = Some ''response.shell_call_command.added''"
| "event_name EvShellCallCommandDelta = Some ''response.shell_call_command.delta''"
| "event_name EvShellCallCommandDone = Some ''response.shell_call_command.done''"
| "event_name EvReasoningTextDelta = Some ''response.reasoning_text.delta''"
| "event_name EvReasoningTextDone = Some ''response.reasoning_text.done''"
| "event_name EvReasoningPartAdded = Some ''response.reasoning_part.added''"
| "event_name EvReasoningPartDone = Some ''response.reasoning_part.done''"
| "event_name EvReasoningSummaryTextDelta = Some ''response.reasoning_summary_text.delta''"
| "event_name EvReasoningSummaryTextDone = Some ''response.reasoning_summary_text.done''"
| "event_name EvFileSearchCallSearching = Some ''response.file_search_call.searching''"
| "event_name EvFileSearchCallCompleted = Some ''response.file_search_call.completed''"
| "event_name EvWebSearchCallInProgress = Some ''response.web_search_call.in_progress''"
| "event_name EvWebSearchCallSearching = Some ''response.web_search_call.searching''"
| "event_name EvWebSearchCallCompleted = Some ''response.web_search_call.completed''"
| "event_name EvCodeInterpreterCallInProgress = Some ''response.code_interpreter_call.in_progress''"
| "event_name EvCodeInterpreterCallCodeDelta = Some ''response.code_interpreter_call_code.delta''"
| "event_name EvCodeInterpreterCallCodeDone = Some ''response.code_interpreter_call_code.done''"
| "event_name EvCodeInterpreterCallInterpreting = Some ''response.code_interpreter_call.interpreting''"
| "event_name EvCodeInterpreterCallCompleted = Some ''response.code_interpreter_call.completed''"
| "event_name EvMcpCallInProgress = Some ''response.mcp_call.in_progress''"
| "event_name EvMcpCallArgumentsDelta = Some ''response.mcp_call_arguments.delta''"
| "event_name EvMcpCallArgumentsDone = Some ''response.mcp_call_arguments.done''"
| "event_name EvMcpCallCompleted = Some ''response.mcp_call.completed''"
| "event_name EvMcpCallFailed = Some ''response.mcp_call.failed''"
| "event_name EvMcpListToolsInProgress = Some ''response.mcp_list_tools.in_progress''"
| "event_name EvMcpListToolsCompleted = Some ''response.mcp_list_tools.completed''"
| "event_name EvMcpListToolsFailed = Some ''response.mcp_list_tools.failed''"
| "event_name EvOther = None"

datatype steering_event_kind = SteerAccepted | SteerPending | SteerFailed

fun steering_event_type :: "steering_event_kind \<Rightarrow> sse_event_type" where
  "steering_event_type SteerAccepted = EvResponseSteerAccepted"
| "steering_event_type SteerPending = EvResponseSteerPending"
| "steering_event_type SteerFailed = EvResponseSteerFailed"

datatype sse_item_type =
    SiMultiAgentCall | SiMultiAgentCallOutput | SiAgentMessage | SiReasoning | SiFunctionCall
  | SiCodeInterpreterCall | SiToolSearchCall | SiToolSearchOutput | SiCustomToolCall | SiWebSearchCall
  | SiMcpCall | SiMcpListTools | SiShellCall | SiCompaction | SiMessage

definition is_collaboration :: "sse_item_type \<Rightarrow> bool" where
  "is_collaboration t \<longleftrightarrow> t \<in> {SiMultiAgentCall, SiMultiAgentCallOutput, SiAgentMessage}"

fun item_type_name :: "sse_item_type \<Rightarrow> string" where
  "item_type_name SiMultiAgentCall = ''multi_agent_call''"
| "item_type_name SiMultiAgentCallOutput = ''multi_agent_call_output''"
| "item_type_name SiAgentMessage = ''agent_message''"
| "item_type_name SiReasoning = ''reasoning''"
| "item_type_name SiFunctionCall = ''function_call''"
| "item_type_name SiCodeInterpreterCall = ''code_interpreter_call''"
| "item_type_name SiToolSearchCall = ''tool_search_call''"
| "item_type_name SiToolSearchOutput = ''tool_search_output''"
| "item_type_name SiCustomToolCall = ''custom_tool_call''"
| "item_type_name SiWebSearchCall = ''web_search_call''"
| "item_type_name SiMcpCall = ''mcp_call''"
| "item_type_name SiMcpListTools = ''mcp_list_tools''"
| "item_type_name SiShellCall = ''shell_call''"
| "item_type_name SiCompaction = ''compaction''"
| "item_type_name SiMessage = ''message''"

definition item_types :: "(string \<times> sse_item_type) list" where
  "item_types =
    [(''multi_agent_call'', SiMultiAgentCall),
     (''multi_agent_call_output'', SiMultiAgentCallOutput),
     (''agent_message'', SiAgentMessage),
     (''reasoning'', SiReasoning),
     (''function_call'', SiFunctionCall),
     (''code_interpreter_call'', SiCodeInterpreterCall),
     (''tool_search_call'', SiToolSearchCall),
     (''tool_search_output'', SiToolSearchOutput),
     (''custom_tool_call'', SiCustomToolCall),
     (''web_search_call'', SiWebSearchCall),
     (''mcp_call'', SiMcpCall),
     (''mcp_list_tools'', SiMcpListTools),
     (''shell_call'', SiShellCall),
     (''compaction'', SiCompaction),
     (''message'', SiMessage)]"

definition parse_item_type :: "string \<Rightarrow> sse_item_type option" where
  "parse_item_type name = map_of item_types name"

definition item_type_of :: "string \<Rightarrow> sse_item_type" where
  "item_type_of name = (case parse_item_type name of Some t \<Rightarrow> t | None \<Rightarrow> SiMessage)"

fun type_of_item :: "output_item \<Rightarrow> sse_item_type option" where
  "type_of_item (OiMessage _) = Some SiMessage"
| "type_of_item (OiFunctionCall _) = Some SiFunctionCall"
| "type_of_item (OiCodeInterpreterCall _) = Some SiCodeInterpreterCall"
| "type_of_item (OiToolSearchCall _) = Some SiToolSearchCall"
| "type_of_item (OiToolSearchOutput _) = Some SiToolSearchOutput"
| "type_of_item (OiCustomToolCall _) = Some SiCustomToolCall"
| "type_of_item (OiWebSearchCall _) = Some SiWebSearchCall"
| "type_of_item (OiMcpCall _) = Some SiMcpCall"
| "type_of_item (OiMcpListTools _) = Some SiMcpListTools"
| "type_of_item (OiShellCall _) = Some SiShellCall"
| "type_of_item (OiReasoning _) = Some SiReasoning"
| "type_of_item (OiCompaction _) = Some SiCompaction"
| "type_of_item (OiMultiAgentCall _) = Some SiMultiAgentCall"
| "type_of_item (OiMultiAgentCallOutput _) = Some SiMultiAgentCallOutput"
| "type_of_item (OiAgentMessage _) = Some SiAgentMessage"
| "type_of_item OiUnknown = None"

lemma distinct_event_types: "distinct (map fst event_types)"
  by code_simp

lemma event_types_name:
  assumes "(name, t) \<in> set event_types"
  shows "event_name t = Some name \<or> t = EvResponseCompleted"
proof -
  have "list_all (\<lambda>(name, t). event_name t = Some name \<or> t = EvResponseCompleted) event_types"
    by (simp add: event_types_def)
  with assms show ?thesis by (auto simp: list_all_iff)
qed

lemma event_types_all: "t \<noteq> EvOther \<Longrightarrow> t \<in> set (map snd event_types)"
  by (cases t) (simp_all add: event_types_def)

lemma completed_listed: "(''response.completed'', EvResponseCompleted) \<in> set event_types"
  by (simp add: event_types_def)

lemma event_name_listed: "event_name t = Some name \<Longrightarrow> (name, t) \<in> set event_types"
  using event_types_all [of t] event_types_name completed_listed
  by (cases "t = EvResponseCompleted"; cases "t = EvOther") force+

lemma event_name_parses: "event_name t = Some name \<Longrightarrow> event_type_of name = t"
  using map_of_is_SomeI [OF distinct_event_types event_name_listed] by (simp add: event_type_of_def)

lemma item_type_name_parses [simp]: "parse_item_type (item_type_name t) = Some t"
  by (cases t) (simp_all add: parse_item_type_def item_types_def)

lemma item_type_name_nonempty [simp]: "item_type_name t \<noteq> []"
  by (cases t) simp_all

lemma item_type_of_name [simp]: "item_type_of (item_type_name t) = t"
  by (simp add: item_type_of_def)

lemma parse_item_type_of: "parse_item_type name = Some t \<Longrightarrow> item_type_of name = t"
  by (simp add: item_type_of_def)

lemma event_name_nonempty: "event_name t = Some name \<Longrightarrow> name \<noteq> []"
  by (cases t) auto

section \<open>Usage counters\<close>

text \<open>The counters are \<open>i64\<close>, added with saturation at both ends.\<close>

definition I64_MIN :: int where "I64_MIN = - (2 ^ 63)"
definition I64_MAX :: int where "I64_MAX = 2 ^ 63 - 1"

definition sat_i64 :: "int \<Rightarrow> int \<Rightarrow> int" where
  "sat_i64 a b = max I64_MIN (min I64_MAX (a + b))"

record input_token_details =
  itd_cached_tokens :: int
  itd_cache_write_tokens :: "int option"

record output_token_details =
  otd_reasoning_tokens :: int

record response_usage =
  ru_input_tokens :: int
  ru_output_tokens :: int
  ru_total_tokens :: int
  ru_input_tokens_details :: input_token_details
  ru_output_tokens_details :: output_token_details

fun merge_cache_writes :: "int option \<Rightarrow> int option \<Rightarrow> int option" where
  "merge_cache_writes (Some l) (Some r) = Some (sat_i64 l r)"
| "merge_cache_writes (Some v) None = Some v"
| "merge_cache_writes None (Some v) = Some v"
| "merge_cache_writes None None = None"

definition usage_add :: "response_usage \<Rightarrow> response_usage \<Rightarrow> response_usage" where
  "usage_add u v =
     \<lparr>ru_input_tokens = sat_i64 (ru_input_tokens u) (ru_input_tokens v),
      ru_output_tokens = sat_i64 (ru_output_tokens u) (ru_output_tokens v),
      ru_total_tokens = sat_i64 (ru_total_tokens u) (ru_total_tokens v),
      ru_input_tokens_details =
        \<lparr>itd_cached_tokens = sat_i64 (itd_cached_tokens (ru_input_tokens_details u)) (itd_cached_tokens (ru_input_tokens_details v)),
         itd_cache_write_tokens = merge_cache_writes
           (itd_cache_write_tokens (ru_input_tokens_details u)) (itd_cache_write_tokens (ru_input_tokens_details v))\<rparr>,
      ru_output_tokens_details =
        \<lparr>otd_reasoning_tokens =
           sat_i64 (otd_reasoning_tokens (ru_output_tokens_details u)) (otd_reasoning_tokens (ru_output_tokens_details v))\<rparr>\<rparr>"

section \<open>JSON access\<close>

text \<open>\<open>Value::get\<close>, \<open>Index\<close> (an absent key reads as \<open>null\<close>), the scalar views and
  \<open>Map::insert\<close>, which replaces a value in place and appends a new key.\<close>

fun json_get :: "json \<Rightarrow> string \<Rightarrow> json option" where
  "json_get (JObject entries) key = map_of entries key"
| "json_get _ key = None"

definition json_at :: "json \<Rightarrow> string \<Rightarrow> json" where
  "json_at value key = (case json_get value key of Some v \<Rightarrow> v | None \<Rightarrow> JNull)"

fun as_str :: "json \<Rightarrow> string option" where
  "as_str (JString s) = Some s"
| "as_str _ = None"

fun as_u64 :: "json \<Rightarrow> nat option" where
  "as_u64 (JNumber (PosInt n)) = Some n"
| "as_u64 _ = None"

fun as_object :: "json \<Rightarrow> (string \<times> json) list option" where
  "as_object (JObject entries) = Some entries"
| "as_object _ = None"

fun json_insert :: "string \<Rightarrow> json \<Rightarrow> json \<Rightarrow> json" where
  "json_insert key v (JObject entries) = JObject (AList.update key v entries)"
| "json_insert key v other = other"

definition U32_MAX :: nat where "U32_MAX = 2 ^ 32 - 1"

definition u32_of :: "nat \<Rightarrow> nat option" where
  "u32_of n = (if n \<le> U32_MAX then Some n else None)"

lemma u32_of_Some [simp]: "u32_of n = Some m \<longleftrightarrow> m = n \<and> n \<le> U32_MAX"
  by (auto simp: u32_of_def)

lemma u32_of_None [simp]: "u32_of n = None \<longleftrightarrow> U32_MAX < n"
  by (auto simp: u32_of_def)

lemma as_u64_Some [simp]: "as_u64 v = Some n \<longleftrightarrow> v = JNumber (PosInt n)"
  by (cases v rule: as_u64.cases) auto

lemma as_str_Some [simp]: "as_str v = Some s \<longleftrightarrow> v = JString s"
  by (cases v) auto

lemma as_object_Some [simp]: "as_object v = Some m \<longleftrightarrow> v = JObject m"
  by (cases v) auto

lemma json_get_object: "json_get v key = Some x \<Longrightarrow> \<exists>m. v = JObject m \<and> map_of m key = Some x"
  by (cases v) auto

section \<open>Wire events\<close>

record wire_event =
  we_type :: "string option"
  we_sequence_number :: "nat option"
  we_output_index :: "nat option"
  we_agent :: "agent_attribution option"
  we_rest :: "(string \<times> json) list"

definition wire_keys :: "string list" where
  "wire_keys = [''type'', ''sequence_number'', ''output_index'', ''agent'']"

definition new_wire :: "string \<Rightarrow> wire_event" where
  "new_wire t = \<lparr>we_type = Some t, we_sequence_number = None, we_output_index = None, we_agent = None, we_rest = []\<rparr>"

text \<open>
  The derived readers of the four named members. An absent or \<open>null\<close> member is \<open>None\<close>, a member of
  the wrong shape is an error (here the outer \<open>None\<close>). \<open>deserialize_sequence_number\<close> reads an
  \<open>i128\<close> and keeps it when it fits \<open>u64\<close>; \<open>AgentAttribution\<close> is a derived struct, which \<open>serde\<close>
  also reads from a sequence.
\<close>

fun read_string :: "json \<Rightarrow> string option option" where
  "read_string JNull = Some None"
| "read_string (JString s) = Some (Some s)"
| "read_string _ = None"

fun read_sequence :: "json \<Rightarrow> nat option option" where
  "read_sequence JNull = Some None"
| "read_sequence (JNumber (PosInt n)) = Some (Some n)"
| "read_sequence (JNumber (NegInt i)) = Some None"
| "read_sequence _ = None"

fun read_u64 :: "json \<Rightarrow> nat option option" where
  "read_u64 JNull = Some None"
| "read_u64 (JNumber (PosInt n)) = Some (Some n)"
| "read_u64 _ = None"

fun attribution_of_json :: "json \<Rightarrow> agent_attribution option" where
  "attribution_of_json (JObject entries) =
     (case map_of entries ''agent_name'' of Some (JString s) \<Rightarrow> Some \<lparr>agent_name = s\<rparr> | _ \<Rightarrow> None)"
| "attribution_of_json (JArray [JString s]) = Some \<lparr>agent_name = s\<rparr>"
| "attribution_of_json _ = None"

definition attribution_json :: "agent_attribution \<Rightarrow> json" where
  "attribution_json a = JObject [(''agent_name'', JString (agent_name a))]"

definition read_agent :: "json \<Rightarrow> agent_attribution option option" where
  "read_agent v = (if v = JNull then Some None else map_option Some (attribution_of_json v))"

definition read_member :: "(json \<Rightarrow> 'a option option) \<Rightarrow> string \<Rightarrow> (string \<times> json) list \<Rightarrow> 'a option option" where
  "read_member rd key entries = (case map_of entries key of None \<Rightarrow> Some None | Some v \<Rightarrow> rd v)"

fun wire_of_json :: "json \<Rightarrow> wire_event option" where
  "wire_of_json (JObject entries) =
     (case (read_member read_string ''type'' entries, read_member read_sequence ''sequence_number'' entries,
            read_member read_u64 ''output_index'' entries, read_member read_agent ''agent'' entries) of
        (Some t, Some n, Some i, Some a) \<Rightarrow>
          Some \<lparr>we_type = t, we_sequence_number = n, we_output_index = i, we_agent = a,
                we_rest = filter (\<lambda>(key, _). key \<notin> set wire_keys) entries\<rparr>
      | _ \<Rightarrow> None)"
| "wire_of_json _ = None"

definition wire_member :: "string \<Rightarrow> ('a \<Rightarrow> json) \<Rightarrow> 'a option \<Rightarrow> (string \<times> json) list" where
  "wire_member key write v = (case v of None \<Rightarrow> [] | Some x \<Rightarrow> [(key, write x)])"

definition wire_json :: "wire_event \<Rightarrow> json" where
  "wire_json w = JObject
     (wire_member ''type'' JString (we_type w) @
      wire_member ''sequence_number'' (\<lambda>n. JNumber (PosInt n)) (we_sequence_number w) @
      wire_member ''output_index'' (\<lambda>n. JNumber (PosInt n)) (we_output_index w) @
      wire_member ''agent'' attribution_json (we_agent w) @
      we_rest w)"

text \<open>The extension members never hide a named one: the reader puts those in their own fields.\<close>

definition wire_ok :: "wire_event \<Rightarrow> bool" where
  "wire_ok w \<longleftrightarrow> (\<forall>(key, _) \<in> set (we_rest w). key \<notin> set wire_keys)"

section \<open>Frames\<close>

datatype shell_command_update = ScuAdded string | ScuDelta string | ScuDone string

text \<open>The members of each payload are in the source's order.\<close>

datatype event_payload =
    PlResponse string string "response_usage option" "string option"
  | PlOutputItemAdded string sse_item_type "nat option" "string option" "string option" "string option" "output_item option"
  | PlOutputItemDone string sse_item_type "nat option" json
  | PlContentPartDone string "nat option" nat agent_message_content
  | PlTextDelta string string "nat option" nat
  | PlTextDone string string "nat option" nat
  | PlFunctionCallArgsDelta string "string option" string "nat option"
  | PlFunctionCallArgsDone string "string option" string string "nat option"
  | PlShellCallCommand string nat nat shell_command_update
  | PlCustomToolCallInputDelta string string "nat option"
  | PlCustomToolCallInputDone string string "nat option"
  | PlReasoningTextDelta string string "nat option" nat
  | PlReasoningTextDone string string "nat option" nat
  | PlReasoningSummaryTextDelta string string "nat option" nat
  | PlReasoningSummaryTextDone string string "nat option" nat
  | PlRaw json
  | PlNone

record event_frame =
  ef_event_type :: sse_event_type
  ef_payload :: event_payload
  ef_wire :: wire_event

definition wire_index :: "event_frame \<Rightarrow> nat option" where
  "wire_index frame = Option.bind (we_output_index (ef_wire frame)) u32_of"

definition output_index :: "event_frame \<Rightarrow> nat option" where
  "output_index frame =
     (case ef_payload frame of
        PlOutputItemAdded _ _ i _ _ _ _ \<Rightarrow> i
      | PlOutputItemDone _ _ i _ \<Rightarrow> i
      | PlContentPartDone _ i _ _ \<Rightarrow> i
      | PlTextDelta _ _ i _ \<Rightarrow> i
      | PlTextDone _ _ i _ \<Rightarrow> i
      | PlFunctionCallArgsDelta _ _ _ i \<Rightarrow> i
      | PlFunctionCallArgsDone _ _ _ _ i \<Rightarrow> i
      | PlCustomToolCallInputDelta _ _ i \<Rightarrow> i
      | PlCustomToolCallInputDone _ _ i \<Rightarrow> i
      | PlReasoningTextDelta _ _ i _ \<Rightarrow> i
      | PlReasoningTextDone _ _ i _ \<Rightarrow> i
      | PlReasoningSummaryTextDelta _ _ i _ \<Rightarrow> i
      | PlReasoningSummaryTextDone _ _ i _ \<Rightarrow> i
      | _ \<Rightarrow> wire_index frame)"

fun payload_with_index :: "nat \<Rightarrow> event_payload \<Rightarrow> event_payload" where
  "payload_with_index n (PlOutputItemAdded item_id t _ nm ns c it) = PlOutputItemAdded item_id t (Some n) nm ns c it"
| "payload_with_index n (PlOutputItemDone item_id t _ it) = PlOutputItemDone item_id t (Some n) it"
| "payload_with_index n (PlContentPartDone item_id _ c p) = PlContentPartDone item_id (Some n) c p"
| "payload_with_index n (PlTextDelta d item_id _ c) = PlTextDelta d item_id (Some n) c"
| "payload_with_index n (PlTextDone t item_id _ c) = PlTextDone t item_id (Some n) c"
| "payload_with_index n (PlFunctionCallArgsDelta d c item_id _) = PlFunctionCallArgsDelta d c item_id (Some n)"
| "payload_with_index n (PlFunctionCallArgsDone a c item_id nm _) = PlFunctionCallArgsDone a c item_id nm (Some n)"
| "payload_with_index n (PlCustomToolCallInputDelta d item_id _) = PlCustomToolCallInputDelta d item_id (Some n)"
| "payload_with_index n (PlCustomToolCallInputDone t item_id _) = PlCustomToolCallInputDone t item_id (Some n)"
| "payload_with_index n (PlReasoningTextDelta d item_id _ c) = PlReasoningTextDelta d item_id (Some n) c"
| "payload_with_index n (PlReasoningTextDone t item_id _ c) = PlReasoningTextDone t item_id (Some n) c"
| "payload_with_index n (PlReasoningSummaryTextDelta d item_id _ c) = PlReasoningSummaryTextDelta d item_id (Some n) c"
| "payload_with_index n (PlReasoningSummaryTextDone t item_id _ c) = PlReasoningSummaryTextDone t item_id (Some n) c"
| "payload_with_index n (PlRaw v) = PlRaw (json_insert ''output_index'' (JNumber (PosInt n)) v)"
| "payload_with_index n other = other"

definition set_output_index :: "nat \<Rightarrow> event_frame \<Rightarrow> event_frame" where
  "set_output_index n frame = frame
     \<lparr>ef_wire := (ef_wire frame)\<lparr>we_output_index := Some n\<rparr>,
      ef_payload := payload_with_index n (ef_payload frame)\<rparr>"

definition set_done_item_id :: "string \<Rightarrow> event_frame \<Rightarrow> event_frame" where
  "set_done_item_id item_id frame =
     (case (ef_payload frame, map_of (we_rest (ef_wire frame)) ''item'') of
        (PlOutputItemDone old t i (JObject entries), Some (JObject wire_entries)) \<Rightarrow>
          frame\<lparr>ef_payload := PlOutputItemDone item_id t i (JObject (AList.update ''id'' (JString item_id) entries)),
                ef_wire := (ef_wire frame)
                  \<lparr>we_rest := AList.update ''item'' (JObject (AList.update ''id'' (JString item_id) wire_entries))
                    (we_rest (ef_wire frame))\<rparr>\<rparr>
      | _ \<Rightarrow> frame)"

text \<open>\<open>Map::remove\<close> of \<open>serde_json\<close> with \<open>preserve_order\<close> is \<open>IndexMap::swap_remove\<close>: the last
  entry takes the place of the removed one.\<close>

definition swap_remove :: "string \<Rightarrow> (string \<times> 'v) list \<Rightarrow> (string \<times> 'v) list" where
  "swap_remove key m =
     (case map_of m key of
        None \<Rightarrow> m
      | Some _ \<Rightarrow>
          (if fst (last m) = key then butlast m
           else map (\<lambda>(k, v). if k = key then last m else (k, v)) (butlast m)))"

fun optional_u64 :: "json option \<Rightarrow> nat option option" where
  "optional_u64 None = Some None"
| "optional_u64 (Some JNull) = Some None"
| "optional_u64 (Some v) = map_option Some (as_u64 v)"

definition synthetic :: "sse_event_type \<Rightarrow> (string \<times> json) list \<Rightarrow> event_frame option" where
  "synthetic t rest =
     (case event_name t of
        None \<Rightarrow> None
      | Some name \<Rightarrow>
          (case read_member read_agent ''agent'' rest of
             None \<Rightarrow> None
           | Some agent \<Rightarrow>
               let rest' = swap_remove ''agent'' rest in
               (case optional_u64 (map_of rest' ''output_index'') of
                  None \<Rightarrow> None
                | Some i \<Rightarrow> Some
                    \<lparr>ef_event_type = t, ef_payload = PlNone,
                     ef_wire = \<lparr>we_type = Some name, we_sequence_number = None, we_output_index = i,
                       we_agent = agent, we_rest = swap_remove ''output_index'' rest'\<rparr>\<rparr>)))"

section \<open>Normalization\<close>

text \<open>The reader and the writer of JSON text, and the derived readers and writers of the payload types;
  a writer that fails is \<open>None\<close>.\<close>

record event_codec =
  parse_json :: "string \<Rightarrow> json option"
  item_of_json :: "json \<Rightarrow> string + output_item"
  part_of_json :: "json \<Rightarrow> agent_message_content option"
  usage_of_json :: "json \<Rightarrow> response_usage option"
  item_json :: "output_item \<Rightarrow> json option"
  part_json :: "output_message_content \<Rightarrow> json option"
  render_json :: "json \<Rightarrow> string option"

definition option_of_result :: "'e + 'a \<Rightarrow> 'a option" where
  "option_of_result r = (case r of Inl _ \<Rightarrow> None | Inr a \<Rightarrow> Some a)"

definition json_str_opt :: "json \<Rightarrow> string \<Rightarrow> string option" where
  "json_str_opt v key = as_str (json_at v key)"

definition json_str :: "json \<Rightarrow> string \<Rightarrow> string" where
  "json_str v key = (case json_str_opt v key of Some s \<Rightarrow> s | None \<Rightarrow> [])"

definition nonempty_str :: "json \<Rightarrow> string \<Rightarrow> string option" where
  "nonempty_str v key = (case json_str_opt v key of Some s \<Rightarrow> if s = [] then None else Some s | None \<Rightarrow> None)"

definition output_item_id :: "json \<Rightarrow> string" where
  "output_item_id item =
     (case nonempty_str item ''id'' of
        Some s \<Rightarrow> s
      | None \<Rightarrow> (case nonempty_str item ''item_id'' of Some s \<Rightarrow> s | None \<Rightarrow> []))"

definition json_output_index :: "json \<Rightarrow> nat option" where
  "json_output_index v = Option.bind (Option.bind (json_get v ''output_index'') as_u64) u32_of"

definition json_u32 :: "json \<Rightarrow> string \<Rightarrow> nat" where
  "json_u32 v key = (let n = (case as_u64 (json_at v key) of Some n \<Rightarrow> n | None \<Rightarrow> 0) in
     case u32_of n of Some m \<Rightarrow> m | None \<Rightarrow> U32_MAX)"

definition extract_response_payload :: "event_codec \<Rightarrow> json \<Rightarrow> event_payload" where
  "extract_response_payload codec v =
     (let response = json_at v ''response'' in
      PlResponse (json_str response ''id'') (json_str response ''status'')
        (case json_get response ''usage'' of
           None \<Rightarrow> None
         | Some u \<Rightarrow> if u = JNull then None else usage_of_json codec u)
        (json_str_opt response ''service_tier''))"

definition opening_item_types :: "string list" where
  "opening_item_types =
    [''message'', ''function_call'', ''shell_call'', ''multi_agent_call'', ''multi_agent_call_output'', ''agent_message'']"

definition extract_output_item_added :: "event_codec \<Rightarrow> json \<Rightarrow> event_payload" where
  "extract_output_item_added codec v =
     (let item = json_at v ''item'' in
      PlOutputItemAdded (output_item_id item) (item_type_of (json_str item ''type'')) (json_output_index v)
        (json_str_opt item ''name'') (json_str_opt item ''namespace'') (json_str_opt item ''call_id'')
        (case json_str_opt item ''type'' of
           Some t \<Rightarrow> if t \<in> set opening_item_types then option_of_result (item_of_json codec item) else None
         | None \<Rightarrow> None))"

definition extract_output_item_done :: "json \<Rightarrow> event_payload" where
  "extract_output_item_done v =
     (let item = json_at v ''item'';
          item_id = output_item_id item;
          item' = (if item_id \<noteq> [] \<and> nonempty_str item ''id'' = None
                   then json_insert ''id'' (JString item_id) item else item)
      in PlOutputItemDone item_id (item_type_of (json_str item' ''type'')) (json_output_index v) item')"

definition extract_content_part_done :: "event_codec \<Rightarrow> json \<Rightarrow> event_payload" where
  "extract_content_part_done codec v =
     (case Option.bind (as_u64 (json_at v ''content_index'')) u32_of of
        None \<Rightarrow> PlRaw v
      | Some content_index \<Rightarrow>
          (case part_of_json codec (json_at v ''part'') of
             Some part \<Rightarrow> PlContentPartDone (json_str v ''item_id'') (json_output_index v) content_index part
           | None \<Rightarrow> PlRaw v))"

definition extract_shell_command :: "json \<Rightarrow> shell_command_update \<Rightarrow> event_payload" where
  "extract_shell_command v update =
     PlShellCallCommand (json_str v ''item_id'') (json_u32 v ''output_index'') (json_u32 v ''command_index'') update"

definition extract_payload :: "event_codec \<Rightarrow> sse_event_type \<Rightarrow> json \<Rightarrow> event_payload" where
  "extract_payload codec t v =
     (case t of
        EvResponseCreated \<Rightarrow> extract_response_payload codec v
      | EvResponseInProgress \<Rightarrow> extract_response_payload codec v
      | EvResponseCompleted \<Rightarrow> extract_response_payload codec v
      | EvResponseFailed \<Rightarrow> extract_response_payload codec v
      | EvResponseIncomplete \<Rightarrow> extract_response_payload codec v
      | EvKeepalive \<Rightarrow> PlNone
      | EvResponseSteerAccepted \<Rightarrow> PlNone
      | EvResponseSteerPending \<Rightarrow> PlNone
      | EvResponseSteerFailed \<Rightarrow> PlNone
      | EvOutputItemAdded \<Rightarrow> extract_output_item_added codec v
      | EvOutputItemDone \<Rightarrow> extract_output_item_done v
      | EvOutputTextDelta \<Rightarrow>
          PlTextDelta (json_str v ''delta'') (json_str v ''item_id'') (json_output_index v) (json_u32 v ''content_index'')
      | EvOutputTextDone \<Rightarrow>
          PlTextDone (json_str v ''text'') (json_str v ''item_id'') (json_output_index v) (json_u32 v ''content_index'')
      | EvFunctionCallArgumentsDelta \<Rightarrow>
          PlFunctionCallArgsDelta (json_str v ''delta'') (json_str_opt v ''call_id'') (json_str v ''item_id'') (json_output_index v)
      | EvFunctionCallArgumentsDone \<Rightarrow>
          PlFunctionCallArgsDone (json_str v ''arguments'') (json_str_opt v ''call_id'') (json_str v ''item_id'')
            (json_str v ''name'') (json_output_index v)
      | EvCustomToolCallInputDelta \<Rightarrow>
          PlCustomToolCallInputDelta (json_str v ''delta'') (json_str v ''item_id'') (json_output_index v)
      | EvCustomToolCallInputDone \<Rightarrow>
          PlCustomToolCallInputDone (json_str v ''input'') (json_str v ''item_id'') (json_output_index v)
      | EvShellCallCommandAdded \<Rightarrow> extract_shell_command v (ScuAdded (json_str v ''command''))
      | EvShellCallCommandDelta \<Rightarrow> extract_shell_command v (ScuDelta (json_str v ''delta''))
      | EvShellCallCommandDone \<Rightarrow> extract_shell_command v (ScuDone (json_str v ''command''))
      | EvReasoningTextDelta \<Rightarrow>
          PlReasoningTextDelta (json_str v ''delta'') (json_str v ''item_id'') (json_output_index v) (json_u32 v ''content_index'')
      | EvReasoningTextDone \<Rightarrow>
          PlReasoningTextDone (json_str v ''text'') (json_str v ''item_id'') (json_output_index v) (json_u32 v ''content_index'')
      | EvReasoningSummaryTextDelta \<Rightarrow>
          PlReasoningSummaryTextDelta (json_str v ''delta'') (json_str v ''item_id'') (json_output_index v)
            (json_u32 v ''summary_index'')
      | EvReasoningSummaryTextDone \<Rightarrow>
          PlReasoningSummaryTextDone (json_str v ''text'') (json_str v ''item_id'') (json_output_index v)
            (json_u32 v ''summary_index'')
      | EvContentPartDone \<Rightarrow> extract_content_part_done codec v
      | _ \<Rightarrow> PlRaw v)"

datatype normalize_error = InvalidOutputIndex

text \<open>A completion event whose response ran out of tokens is reclassified as incomplete, in the
  frame's type and in its wire data.\<close>

definition reconcile_status :: "json \<Rightarrow> sse_event_type \<times> json" where
  "reconcile_status v =
     (let t = (case Option.bind (json_get v ''type'') as_str of Some s \<Rightarrow> event_type_of s | None \<Rightarrow> EvOther) in
      if t = EvResponseCompleted \<and> as_str (json_at (json_at v ''response'') ''status'') = Some ''incomplete''
      then (EvResponseIncomplete, json_insert ''type'' (JString ''response.incomplete'') v)
      else (t, v))"

definition normalize_sse_value :: "event_codec \<Rightarrow> json \<Rightarrow> normalize_error + event_frame option" where
  "normalize_sse_value codec v =
     (if json_get v ''output_index'' \<noteq> None \<and> json_output_index v = None then Inl InvalidOutputIndex
      else
        (case reconcile_status v of
           (t, v') \<Rightarrow>
             Inr (map_option (\<lambda>w. \<lparr>ef_event_type = t, ef_payload = extract_payload codec t v', ef_wire = w\<rparr>)
               (wire_of_json v'))))"

definition normalize_sse_data_checked :: "event_codec \<Rightarrow> string \<Rightarrow> normalize_error + event_frame option" where
  "normalize_sse_data_checked codec data =
     (case parse_json codec data of None \<Rightarrow> Inr None | Some v \<Rightarrow> normalize_sse_value codec v)"

definition normalize_sse_line :: "event_codec \<Rightarrow> string \<Rightarrow> event_frame option" where
  "normalize_sse_line codec line =
     (case parse_sse_line line of
        SlData data \<Rightarrow> (case normalize_sse_data_checked codec data of Inl _ \<Rightarrow> None | Inr r \<Rightarrow> r)
      | _ \<Rightarrow> None)"

end
