(* ===== verification/Frame_Validation.thy ===== *)
theory Frame_Validation
  imports Stream_Events
begin

text \<open>
  The stateless validation of a normalized frame (\<open>events/validate.rs\<close>) and what ingestion can rely
  on afterwards: the wire round trip, the widths of all stored integers, and the agreement of the
  typed payload with what was validated on the wire.
\<close>

section \<open>Required members\<close>

definition missing_field :: "string \<Rightarrow> string \<Rightarrow> string" where
  "missing_field owner field = owner @ '' has no valid '' @ [CHR 0x27] @ field @ [CHR 0x27]"

definition required_str :: "(string \<times> json) list \<Rightarrow> string \<Rightarrow> string \<Rightarrow> string + string" where
  "required_str m field owner =
     (case nonempty_str (JObject m) field of Some s \<Rightarrow> Inr s | None \<Rightarrow> Inl (missing_field owner field))"

definition required_string :: "(string \<times> json) list \<Rightarrow> string \<Rightarrow> string \<Rightarrow> string + string" where
  "required_string m field owner =
     (case Option.bind (map_of m field) as_str of Some s \<Rightarrow> Inr s | None \<Rightarrow> Inl (missing_field owner field))"

definition required_object :: "(string \<times> json) list \<Rightarrow> string \<Rightarrow> string \<Rightarrow> string + (string \<times> json) list" where
  "required_object m field owner =
     (case Option.bind (map_of m field) as_object of Some s \<Rightarrow> Inr s | None \<Rightarrow> Inl (missing_field owner field))"

definition required_u32 :: "(string \<times> json) list \<Rightarrow> string \<Rightarrow> string \<Rightarrow> string + nat" where
  "required_u32 m field owner =
     (case Option.bind (Option.bind (map_of m field) as_u64) u32_of of
        Some n \<Rightarrow> Inr n
      | None \<Rightarrow> Inl (missing_field owner field))"

definition required_output_index :: "event_frame \<Rightarrow> string \<Rightarrow> string + nat" where
  "required_output_index frame owner =
     (case wire_index frame of Some n \<Rightarrow> Inr n | None \<Rightarrow> Inl (missing_field owner ''output_index''))"

definition and_then :: "'e + 'a \<Rightarrow> ('a \<Rightarrow> 'e + 'b) \<Rightarrow> 'e + 'b" where
  "and_then r f = (case r of Inl e \<Rightarrow> Inl e | Inr a \<Rightarrow> f a)"

lemma and_then_Inr [simp]: "and_then r f = Inr b \<longleftrightarrow> (\<exists>a. r = Inr a \<and> f a = Inr b)"
  by (auto simp: and_then_def split: sum.splits)

lemma and_then_simps [simp]: "and_then (Inr a) f = f a" "and_then (Inl e) f = Inl e"
  by (simp_all add: and_then_def)

lemma map_error_Inr: "(case r of Inl e \<Rightarrow> Inl (f e) | Inr x \<Rightarrow> g x) = Inr b \<longleftrightarrow> (\<exists>x. r = Inr x \<and> g x = Inr b)"
  by (cases r) auto

section \<open>Validation of one frame\<close>

record validated_item =
  vi_item_id :: string
  vi_output_index :: nat
  vi_item_type :: "sse_item_type option"
  vi_done_item :: "output_item option"

definition unsupported_item :: "string \<Rightarrow> string" where
  "unsupported_item name = ''upstream output item type '' @ [CHR 0x27] @ name @ [CHR 0x27] @ '' is unsupported''"

definition expected_item_type :: "sse_event_type \<Rightarrow> sse_item_type option" where
  "expected_item_type t =
     (if t \<in> {EvOutputTextDelta, EvOutputTextDone} then Some SiMessage
      else if t \<in> {EvFunctionCallArgumentsDelta, EvFunctionCallArgumentsDone} then Some SiFunctionCall
      else if t \<in> {EvCustomToolCallInputDelta, EvCustomToolCallInputDone} then Some SiCustomToolCall
      else if t \<in> {EvShellCallCommandAdded, EvShellCallCommandDelta, EvShellCallCommandDone} then Some SiShellCall
      else if t \<in> {EvReasoningTextDelta, EvReasoningTextDone, EvReasoningPartAdded, EvReasoningPartDone,
                   EvReasoningSummaryTextDelta, EvReasoningSummaryTextDone} then Some SiReasoning
      else if t \<in> {EvWebSearchCallInProgress, EvWebSearchCallSearching, EvWebSearchCallCompleted} then Some SiWebSearchCall
      else if t \<in> {EvCodeInterpreterCallInProgress, EvCodeInterpreterCallCodeDelta, EvCodeInterpreterCallCodeDone,
                   EvCodeInterpreterCallInterpreting, EvCodeInterpreterCallCompleted} then Some SiCodeInterpreterCall
      else if t \<in> {EvMcpCallInProgress, EvMcpCallArgumentsDelta, EvMcpCallArgumentsDone, EvMcpCallCompleted,
                   EvMcpCallFailed} then Some SiMcpCall
      else if t \<in> {EvMcpListToolsInProgress, EvMcpListToolsCompleted, EvMcpListToolsFailed} then Some SiMcpListTools
      else None)"

definition output_item_identity :: "(string \<times> json) list \<Rightarrow> string \<Rightarrow> string + string \<times> sse_item_type" where
  "output_item_identity item owner =
     and_then
       (case nonempty_str (JObject item) ''id'' of
          Some s \<Rightarrow> Inr s
        | None \<Rightarrow>
            (case nonempty_str (JObject item) ''item_id'' of
               Some s \<Rightarrow> Inr s
             | None \<Rightarrow> Inl (missing_field owner ''id'')))
       (\<lambda>item_id. and_then (required_str item ''type'' owner)
         (\<lambda>name. case parse_item_type name of
            None \<Rightarrow> Inl (unsupported_item name)
          | Some t \<Rightarrow> Inr (item_id, t)))"

definition ensure_supported_output_item_type :: "string \<Rightarrow> string + unit" where
  "ensure_supported_output_item_type name =
     (if parse_item_type name \<noteq> None then Inr () else Inl (unsupported_item name))"

definition expected_status :: "sse_event_type \<Rightarrow> string option" where
  "expected_status t =
     (if t \<in> {EvResponseCreated, EvResponseInProgress} then Some ''in_progress''
      else if t = EvResponseCompleted then Some ''completed''
      else if t = EvResponseFailed then Some ''failed''
      else if t = EvResponseIncomplete then Some ''incomplete''
      else None)"

definition validate_response_event :: "event_frame \<Rightarrow> string \<Rightarrow> string + unit" where
  "validate_response_event frame name =
     and_then (required_object (we_rest (ef_wire frame)) ''response'' name) (\<lambda>response.
     and_then (required_str response ''id'' ''upstream response'') (\<lambda>_.
       if (case map_of response ''service_tier'' of
             Some tier \<Rightarrow> tier \<noteq> JNull \<and> as_str tier = None
           | None \<Rightarrow> False)
       then Inl (missing_field ''upstream response'' ''service_tier'')
       else and_then (required_str response ''status'' ''upstream response'') (\<lambda>status.
         (case expected_status (ef_event_type frame) of
            None \<Rightarrow> Inr ()
          | Some expected \<Rightarrow>
              if status = expected then Inr ()
              else Inl (''upstream stream event '' @ [CHR 0x27] @ name @ [CHR 0x27] @ '' has status '' @ [CHR 0x27] @
                status @ [CHR 0x27] @ '', expected '' @ [CHR 0x27] @ expected @ [CHR 0x27])))))"

definition opening_snapshot :: "event_payload \<Rightarrow> bool" where
  "opening_snapshot p \<longleftrightarrow> (case p of PlOutputItemAdded _ _ _ _ _ _ (Some _) \<Rightarrow> True | _ \<Rightarrow> False)"

text \<open>The completed item under its \<open>id\<close>: an upstream that names it \<open>item_id\<close> has it copied.\<close>

definition canonical_item :: "(string \<times> json) list \<Rightarrow> string + json" where
  "canonical_item item =
     (if nonempty_str (JObject item) ''id'' = None
      then and_then (required_str item ''item_id'' ''output item'')
        (\<lambda>s. Inr (json_insert ''id'' (JString s) (JObject item)))
      else Inr (JObject item))"

definition validate_output_item :: "event_codec \<Rightarrow> event_frame \<Rightarrow> string \<Rightarrow> bool \<Rightarrow> string + validated_item" where
  "validate_output_item codec frame name complete =
     and_then (required_output_index frame name) (\<lambda>n.
     and_then (required_object (we_rest (ef_wire frame)) ''item'' name) (\<lambda>item.
     and_then (output_item_identity item ''output item'') (\<lambda>(item_id, t).
       if \<not> complete then
         (if is_collaboration t \<and> \<not> opening_snapshot (ef_payload frame)
          then Inl ''collaboration item has an invalid opening snapshot''
          else Inr \<lparr>vi_item_id = item_id, vi_output_index = n, vi_item_type = Some t, vi_done_item = None\<rparr>)
       else
         and_then (canonical_item item) (\<lambda>canonical.
         case item_of_json codec canonical of
           Inl err \<Rightarrow> Inl (''upstream stream output item is invalid: '' @ err)
         | Inr output \<Rightarrow>
             if type_of_item output \<noteq> Some t then Inl (unsupported_item (item_type_name t))
             else Inr \<lparr>vi_item_id = item_id, vi_output_index = n, vi_item_type = Some t,
               vi_done_item = Some output\<rparr>))))"

definition is_shell_command_event :: "sse_event_type \<Rightarrow> bool" where
  "is_shell_command_event t \<longleftrightarrow> t \<in> {EvShellCallCommandAdded, EvShellCallCommandDelta, EvShellCallCommandDone}"

definition validate_event_item_id :: "event_frame \<Rightarrow> string \<Rightarrow> string + string" where
  "validate_event_item_id frame name =
     (if is_shell_command_event (ef_event_type frame) \<and> map_of (we_rest (ef_wire frame)) ''item_id'' = None
      then Inr []
      else required_str (we_rest (ef_wire frame)) ''item_id'' name)"

definition required_index_field :: "sse_event_type \<Rightarrow> string option" where
  "required_index_field t =
     (if is_shell_command_event t then Some ''command_index''
      else if t \<in> {EvOutputTextDelta, EvOutputTextDone, EvContentPartAdded, EvContentPartDone, EvReasoningTextDelta,
                   EvReasoningTextDone, EvReasoningPartAdded, EvReasoningPartDone} then Some ''content_index''
      else if t \<in> {EvReasoningSummaryTextDelta, EvReasoningSummaryTextDone} then Some ''summary_index''
      else None)"

definition required_text_field :: "sse_event_type \<Rightarrow> string option" where
  "required_text_field t =
     (if t \<in> {EvOutputTextDelta, EvFunctionCallArgumentsDelta, EvCustomToolCallInputDelta, EvShellCallCommandDelta,
              EvReasoningTextDelta, EvReasoningSummaryTextDelta, EvMcpCallArgumentsDelta, EvCodeInterpreterCallCodeDelta}
      then Some ''delta''
      else if t \<in> {EvOutputTextDone, EvReasoningTextDone, EvReasoningSummaryTextDone} then Some ''text''
      else if t \<in> {EvFunctionCallArgumentsDone, EvMcpCallArgumentsDone} then Some ''arguments''
      else if t = EvCodeInterpreterCallCodeDone then Some ''code''
      else if t = EvCustomToolCallInputDone then Some ''input''
      else if t \<in> {EvShellCallCommandAdded, EvShellCallCommandDone} then Some ''command''
      else None)"

definition has_part :: "sse_event_type \<Rightarrow> bool" where
  "has_part t \<longleftrightarrow> t \<in> {EvContentPartAdded, EvContentPartDone, EvReasoningPartAdded, EvReasoningPartDone}"

definition validate_event_fields :: "(string \<times> json) list \<Rightarrow> sse_event_type \<Rightarrow> string \<Rightarrow> string + unit" where
  "validate_event_fields event t name =
     and_then (case required_index_field t of None \<Rightarrow> Inr 0 | Some field \<Rightarrow> required_u32 event field name) (\<lambda>_.
     and_then (if has_part t then required_object event ''part'' name else Inr []) (\<lambda>_.
     and_then (case required_text_field t of None \<Rightarrow> Inr [] | Some field \<Rightarrow> required_string event field name) (\<lambda>_.
     Inr ())))"

definition validate_item_event :: "event_frame \<Rightarrow> string \<Rightarrow> string + validated_item" where
  "validate_item_event frame name =
     and_then (required_output_index frame name) (\<lambda>n.
     and_then (validate_event_item_id frame name) (\<lambda>item_id.
     and_then (validate_event_fields (we_rest (ef_wire frame)) (ef_event_type frame) name) (\<lambda>_.
       if ef_event_type frame = EvContentPartDone \<and>
          \<not> (case ef_payload frame of PlContentPartDone _ _ _ _ \<Rightarrow> True | _ \<Rightarrow> False)
       then Inl ''invalid completed content part''
       else if expected_item_type (ef_event_type frame) = None \<and>
          ef_event_type frame \<notin> {EvContentPartAdded, EvContentPartDone}
       then Inl (''upstream output item type for event '' @ [CHR 0x27] @ name @ [CHR 0x27] @ '' is unsupported'')
       else Inr \<lparr>vi_item_id = item_id, vi_output_index = n,
              vi_item_type = expected_item_type (ef_event_type frame), vi_done_item = None\<rparr>)))"

definition is_response_event :: "sse_event_type \<Rightarrow> bool" where
  "is_response_event t \<longleftrightarrow>
     t \<in> {EvResponseCreated, EvResponseInProgress, EvResponseCompleted, EvResponseFailed, EvResponseIncomplete}"

definition itemless_event :: "sse_event_type \<Rightarrow> bool" where
  "itemless_event t \<longleftrightarrow>
     t \<in> {EvKeepalive, EvResponseSteerAccepted, EvResponseSteerPending, EvResponseSteerFailed, EvOther}"

definition validate_frame :: "event_codec \<Rightarrow> event_frame \<Rightarrow> string + validated_item option" where
  "validate_frame codec frame =
     and_then
       (case we_type (ef_wire frame) of
          Some name \<Rightarrow> if name = [] then Inl (missing_field ''streaming event'' ''type'') else Inr name
        | None \<Rightarrow> Inl (missing_field ''streaming event'' ''type''))
       (\<lambda>name.
         let t = ef_event_type frame in
         if is_response_event t then and_then (validate_response_event frame name) (\<lambda>_. Inr None)
         else if t = EvOutputItemAdded then and_then (validate_output_item codec frame name False) (\<lambda>item. Inr (Some item))
         else if t = EvOutputItemDone then and_then (validate_output_item codec frame name True) (\<lambda>item. Inr (Some item))
         else if itemless_event t then Inr None
         else and_then (validate_item_event frame name) (\<lambda>item. Inr (Some item)))"

section \<open>Reading the wire data\<close>

named_theorems required_simps \<open>the required members, in terms of the object's entries\<close>

lemma map_of_filter_keys: "map_of (filter (\<lambda>(key, _). P key) m) k = (if P k then map_of m k else None)"
  by (induction m) auto

lemma wire_of_json_object: "wire_of_json v = Some w \<Longrightarrow> \<exists>m. v = JObject m"
  by (cases v) auto

lemma wire_of_json_members:
  assumes "wire_of_json (JObject m) = Some w"
  shows "read_member read_string ''type'' m = Some (we_type w)"
    and "read_member read_sequence ''sequence_number'' m = Some (we_sequence_number w)"
    and "read_member read_u64 ''output_index'' m = Some (we_output_index w)"
    and "read_member read_agent ''agent'' m = Some (we_agent w)"
    and "we_rest w = filter (\<lambda>(key, _). key \<notin> set wire_keys) m"
  using assms by (auto split: option.splits)

lemma wire_rest_get:
  assumes "wire_of_json v = Some w" and "key \<notin> set wire_keys"
  shows "map_of (we_rest w) key = json_get v key"
proof -
  obtain m where v: "v = JObject m" using assms wire_of_json_object by blast
  with assms show ?thesis by (simp add: wire_of_json_members(5) map_of_filter_keys del: wire_of_json.simps)
qed

lemma read_u64_Some: "read_u64 v = Some x \<longleftrightarrow> (v = JNull \<and> x = None) \<or> (\<exists>n. v = JNumber (PosInt n) \<and> x = Some n)"
  by (cases v rule: read_u64.cases) auto

lemma wire_index_json:
  assumes "wire_of_json v = Some w"
  shows "Option.bind (we_output_index w) u32_of = json_output_index v"
proof -
  obtain m where v: "v = JObject m" using assms wire_of_json_object by blast
  have "read_member read_u64 ''output_index'' m = Some (we_output_index w)"
    using assms unfolding v by (rule wire_of_json_members(3))
  then show ?thesis unfolding v
    by (auto simp: read_member_def json_output_index_def read_u64_Some split: option.splits)
qed

lemma nonempty_str_rest:
  "wire_of_json v = Some w \<Longrightarrow> key \<notin> set wire_keys \<Longrightarrow> nonempty_str (JObject (we_rest w)) key = nonempty_str v key"
  by (simp add: nonempty_str_def json_str_opt_def json_at_def wire_rest_get)

lemma nonempty_str_Some: "nonempty_str v key = Some s \<longleftrightarrow> json_at v key = JString s \<and> s \<noteq> []"
  by (auto simp: nonempty_str_def json_str_opt_def split: option.splits)

lemma nonempty_str_json_str: "nonempty_str v key = Some s \<Longrightarrow> json_str v key = s \<and> s \<noteq> []"
  by (auto simp: nonempty_str_Some json_str_def json_str_opt_def split: option.splits)

lemma required_str_Inr [required_simps]: "required_str m field owner = Inr s \<longleftrightarrow> nonempty_str (JObject m) field = Some s"
  by (auto simp: required_str_def split: option.splits)

lemma required_string_Inr [required_simps]: "required_string m field owner = Inr s \<longleftrightarrow> map_of m field = Some (JString s)"
  by (auto simp: required_string_def bind_eq_Some_conv split: option.splits)

lemma required_object_Inr [required_simps]: "required_object m field owner = Inr x \<longleftrightarrow> map_of m field = Some (JObject x)"
  by (auto simp: required_object_def bind_eq_Some_conv split: option.splits)

lemma required_u32_Inr [required_simps]:
  "required_u32 m field owner = Inr n \<longleftrightarrow> map_of m field = Some (JNumber (PosInt n)) \<and> n \<le> U32_MAX"
  by (auto simp: required_u32_def bind_eq_Some_conv split: option.splits)

lemma required_output_index_Inr [required_simps]: "required_output_index frame owner = Inr n \<longleftrightarrow> wire_index frame = Some n"
  by (auto simp: required_output_index_def split: option.splits)

lemma output_item_identity_Inr:
  "output_item_identity item owner = Inr (item_id, t) \<longleftrightarrow>
     output_item_id (JObject item) = item_id \<and> item_id \<noteq> [] \<and>
     nonempty_str (JObject item) ''type'' \<noteq> None \<and> parse_item_type (json_str (JObject item) ''type'') = Some t"
proof (cases "nonempty_str (JObject item) ''type''")
  case None
  then show ?thesis by (simp add: output_item_identity_def required_str_def and_then_def split: sum.splits)
next
  case (Some name)
  then have "required_str item ''type'' owner = Inr name" and "json_str (JObject item) ''type'' = name"
    by (simp_all add: required_simps nonempty_str_json_str)
  then show ?thesis using Some
    by (auto simp: output_item_identity_def output_item_id_def dest: nonempty_str_json_str split: option.splits)
qed

section \<open>Round trip of the wire event\<close>

lemma wire_json_inverse:
  assumes "wire_ok w"
  shows "wire_of_json (wire_json w) = Some w"
proof -
  have none: "map_of (we_rest w) key = None" if "key \<in> set wire_keys" for key
    using assms that by (auto simp: wire_ok_def map_of_eq_None_iff)
  have rest: "filter (\<lambda>(key, _). key \<notin> set wire_keys) (we_rest w) = we_rest w"
    using assms by (auto simp: wire_ok_def filter_id_conv)
  show ?thesis
    by (cases w, cases "we_type w"; cases "we_sequence_number w"; cases "we_output_index w"; cases "we_agent w")
      (insert none rest, auto simp: wire_json_def wire_member_def read_member_def read_agent_def attribution_json_def wire_keys_def)
qed

section \<open>Widths\<close>

fun index_ok :: "nat option \<Rightarrow> bool" where
  "index_ok None = True"
| "index_ok (Some n) = (n \<le> U32_MAX)"

fun payload_typed :: "event_payload \<Rightarrow> bool" where
  "payload_typed (PlOutputItemAdded _ _ i _ _ _ _) = index_ok i"
| "payload_typed (PlOutputItemDone _ _ i _) = index_ok i"
| "payload_typed (PlContentPartDone _ i c _) = (index_ok i \<and> c \<le> U32_MAX)"
| "payload_typed (PlTextDelta _ _ i c) = (index_ok i \<and> c \<le> U32_MAX)"
| "payload_typed (PlTextDone _ _ i c) = (index_ok i \<and> c \<le> U32_MAX)"
| "payload_typed (PlFunctionCallArgsDelta _ _ _ i) = index_ok i"
| "payload_typed (PlFunctionCallArgsDone _ _ _ _ i) = index_ok i"
| "payload_typed (PlShellCallCommand _ i c _) = (i \<le> U32_MAX \<and> c \<le> U32_MAX)"
| "payload_typed (PlCustomToolCallInputDelta _ _ i) = index_ok i"
| "payload_typed (PlCustomToolCallInputDone _ _ i) = index_ok i"
| "payload_typed (PlReasoningTextDelta _ _ i c) = (index_ok i \<and> c \<le> U32_MAX)"
| "payload_typed (PlReasoningTextDone _ _ i c) = (index_ok i \<and> c \<le> U32_MAX)"
| "payload_typed (PlReasoningSummaryTextDelta _ _ i c) = (index_ok i \<and> c \<le> U32_MAX)"
| "payload_typed (PlReasoningSummaryTextDone _ _ i c) = (index_ok i \<and> c \<le> U32_MAX)"
| "payload_typed _ = True"

definition frame_typed :: "event_frame \<Rightarrow> bool" where
  "frame_typed frame \<longleftrightarrow>
     payload_typed (ef_payload frame) \<and> index_ok (we_output_index (ef_wire frame)) \<and>
     (case we_sequence_number (ef_wire frame) of None \<Rightarrow> True | Some n \<Rightarrow> n \<le> USIZE_MAX)"

text \<open>\<open>serde_json\<close> holds a non-negative integer as \<open>u64\<close>.\<close>

definition sequence_in_range :: "json \<Rightarrow> bool" where
  "sequence_in_range v \<longleftrightarrow> (\<forall>n. json_get v ''sequence_number'' = Some (JNumber (PosInt n)) \<longrightarrow> n \<le> USIZE_MAX)"

lemma index_ok_bind [simp]: "index_ok (Option.bind x u32_of)"
  by (cases x) (simp_all add: u32_of_def)

lemma index_ok_json [simp]: "index_ok (json_output_index v)"
  unfolding json_output_index_def by (rule index_ok_bind)

lemma json_u32_le [simp]: "json_u32 v key \<le> U32_MAX"
  by (auto simp: json_u32_def Let_def split: option.splits)

lemma extracted_payload_typed: "payload_typed (extract_payload codec t v)"
  by (cases t)
    (auto simp: extract_payload_def extract_response_payload_def extract_output_item_added_def extract_output_item_done_def
      extract_content_part_done_def extract_shell_command_def Let_def bind_eq_Some_conv split: option.splits)

lemma json_get_insert: "json_get (json_insert k x v) key = (if key = k \<and> as_object v \<noteq> None then Some x else json_get v key)"
  by (cases v) (auto simp: update_conv')

lemma json_at_insert: "key \<noteq> k \<Longrightarrow> json_at (json_insert k x v) key = json_at v key"
  by (simp add: json_at_def json_get_insert)

lemma reconcile_get: "reconcile_status v = (t, v') \<Longrightarrow> key \<noteq> ''type'' \<Longrightarrow> json_get v' key = json_get v key"
  by (auto simp: reconcile_status_def Let_def json_get_insert split: if_splits)

lemma normalize_cases:
  assumes "normalize_sse_value codec v = Inr (Some frame)"
  obtains t v' w where "reconcile_status v = (t, v')" and "wire_of_json v' = Some w"
    and "frame = \<lparr>ef_event_type = t, ef_payload = extract_payload codec t v', ef_wire = w\<rparr>"
    and "json_get v ''output_index'' \<noteq> None \<longrightarrow> json_output_index v \<noteq> None"
  using assms by (auto simp: normalize_sse_value_def split: if_splits prod.splits)

lemma json_output_index_reconcile: "reconcile_status v = (t, v') \<Longrightarrow> json_output_index v' = json_output_index v"
  by (simp add: json_output_index_def reconcile_get)

lemma normalized_index:
  assumes "normalize_sse_value codec v = Inr (Some frame)"
  shows "we_output_index (ef_wire frame) = json_output_index v"
proof -
  from assms obtain t v' w where *: "reconcile_status v = (t, v')" "wire_of_json v' = Some w" "ef_wire frame = w"
    and present: "json_get v ''output_index'' \<noteq> None \<longrightarrow> json_output_index v \<noteq> None"
    by (elim normalize_cases) auto
  then obtain m where m: "v' = JObject m" using wire_of_json_object by blast
  have rd: "read_member read_u64 ''output_index'' m = Some (we_output_index w)"
    using * unfolding m by (intro wire_of_json_members(3)) simp
  have get: "map_of m ''output_index'' = json_get v ''output_index''"
    using reconcile_get [OF *(1), of "''output_index''"] m by simp
  show ?thesis using rd present *(3) unfolding get read_member_def
    by (auto simp: json_output_index_def read_u64_Some bind_eq_Some_conv u32_of_def split: option.splits if_splits)
qed

lemma normalized_frame_typed:
  assumes "normalize_sse_value codec v = Inr (Some frame)" and "sequence_in_range v"
  shows "frame_typed frame"
proof -
  from assms(1) obtain t v' w where *: "reconcile_status v = (t, v')" "wire_of_json v' = Some w"
    "frame = \<lparr>ef_event_type = t, ef_payload = extract_payload codec t v', ef_wire = w\<rparr>"
    by (elim normalize_cases) auto
  then obtain m where m: "v' = JObject m" using wire_of_json_object by blast
  have rd: "read_member read_sequence ''sequence_number'' m = Some (we_sequence_number w)"
    using * unfolding m by (intro wire_of_json_members(2)) simp
  have get: "map_of m ''sequence_number'' = json_get v ''sequence_number''"
    using reconcile_get [OF *(1), of "''sequence_number''"] m by simp
  have "(case we_sequence_number w of None \<Rightarrow> True | Some n \<Rightarrow> n \<le> USIZE_MAX)"
    using rd assms(2) unfolding get read_member_def sequence_in_range_def
    by (auto split: option.splits json.splits elim!: read_sequence.elims)
  then show ?thesis using normalized_index [OF assms(1)] *(3)
    by (simp add: frame_typed_def extracted_payload_typed)
qed

lemma set_output_index_typed: "frame_typed frame \<Longrightarrow> n \<le> U32_MAX \<Longrightarrow> frame_typed (set_output_index n frame)"
  by (cases "ef_payload frame") (auto simp: frame_typed_def set_output_index_def)

lemma set_done_item_id_typed: "frame_typed frame \<Longrightarrow> frame_typed (set_done_item_id item_id frame)"
  by (auto simp: frame_typed_def set_done_item_id_def split: event_payload.splits option.splits json.splits)

lemma set_output_index_reads: "n \<le> U32_MAX \<Longrightarrow> output_index (set_output_index n frame) = Some n"
  by (cases "ef_payload frame") (simp_all add: output_index_def set_output_index_def wire_index_def)

section \<open>Agreement of the payload with the validated wire data\<close>

fun payload_item_id :: "event_payload \<Rightarrow> string option" where
  "payload_item_id (PlOutputItemAdded item_id _ _ _ _ _ _) = Some item_id"
| "payload_item_id (PlOutputItemDone item_id _ _ _) = Some item_id"
| "payload_item_id (PlContentPartDone item_id _ _ _) = Some item_id"
| "payload_item_id (PlTextDelta _ item_id _ _) = Some item_id"
| "payload_item_id (PlTextDone _ item_id _ _) = Some item_id"
| "payload_item_id (PlFunctionCallArgsDelta _ _ item_id _) = Some item_id"
| "payload_item_id (PlFunctionCallArgsDone _ _ item_id _ _) = Some item_id"
| "payload_item_id (PlShellCallCommand item_id _ _ _) = Some item_id"
| "payload_item_id (PlCustomToolCallInputDelta _ item_id _) = Some item_id"
| "payload_item_id (PlCustomToolCallInputDone _ item_id _) = Some item_id"
| "payload_item_id (PlReasoningTextDelta _ item_id _ _) = Some item_id"
| "payload_item_id (PlReasoningTextDone _ item_id _ _) = Some item_id"
| "payload_item_id (PlReasoningSummaryTextDelta _ item_id _ _) = Some item_id"
| "payload_item_id (PlReasoningSummaryTextDone _ item_id _ _) = Some item_id"
| "payload_item_id _ = None"

fun payload_item_type :: "event_payload \<Rightarrow> sse_item_type option" where
  "payload_item_type (PlOutputItemAdded _ t _ _ _ _ _) = Some t"
| "payload_item_type (PlOutputItemDone _ t _ _) = Some t"
| "payload_item_type _ = None"

definition payload_agrees :: "event_codec \<Rightarrow> event_payload \<Rightarrow> validated_item \<Rightarrow> bool" where
  "payload_agrees codec p item \<longleftrightarrow>
     (payload_item_id p = None \<or> payload_item_id p = Some (vi_item_id item)) \<and>
     (payload_item_type p = None \<or> payload_item_type p = vi_item_type item) \<and>
     (case p of
        PlOutputItemDone _ _ _ v \<Rightarrow>
          (\<exists>done. vi_done_item item = Some done \<and> item_of_json codec v = Inr done \<and> type_of_item done = vi_item_type item)
      | _ \<Rightarrow> vi_done_item item = None)"

lemma normalized_output_index:
  assumes "normalize_sse_value codec v = Inr (Some frame)"
  shows "output_index frame = wire_index frame"
proof -
  from assms obtain t v' w where *: "wire_of_json v' = Some w"
    "frame = \<lparr>ef_event_type = t, ef_payload = extract_payload codec t v', ef_wire = w\<rparr>"
    by (elim normalize_cases) auto
  have "wire_index frame = json_output_index v'"
    using wire_index_json [OF *(1)] *(2) by (simp add: wire_index_def)
  then show ?thesis using *(2)
    by (cases t) (auto simp: output_index_def extract_payload_def extract_response_payload_def extract_output_item_added_def
      extract_output_item_done_def extract_content_part_done_def extract_shell_command_def Let_def split: option.splits)
qed

lemma added_item_agrees:
  assumes "validate_output_item codec frame name False = Inr item" and "wire_of_json v = Some (ef_wire frame)"
    and "ef_payload frame = extract_output_item_added codec v"
  shows "payload_agrees codec (ef_payload frame) item"
proof -
  from assms(1) obtain m where m: "map_of (we_rest (ef_wire frame)) ''item'' = Some (JObject m)"
    and ident: "output_item_identity m ''output item'' = Inr (vi_item_id item, the (vi_item_type item))"
      "vi_item_type item \<noteq> None" "vi_done_item item = None"
    by (auto simp: validate_output_item_def required_simps split: if_splits)
  have "json_at v ''item'' = JObject m"
    using m wire_rest_get [OF assms(2), of "''item''"] by (simp add: json_at_def wire_keys_def)
  with ident assms(3) show ?thesis
    by (auto simp: payload_agrees_def extract_output_item_added_def Let_def output_item_identity_Inr parse_item_type_of)
qed

lemma canonical_item_Inr:
  "canonical_item m = Inr v \<Longrightarrow>
     v = (if nonempty_str (JObject m) ''id'' = None
       then json_insert ''id'' (JString (output_item_id (JObject m))) (JObject m) else JObject m)"
  by (auto simp: canonical_item_def required_simps output_item_id_def split: if_splits)

lemma validate_done_Inr:
  assumes "validate_output_item codec frame name True = Inr item"
  obtains m canonical t out where "map_of (we_rest (ef_wire frame)) ''item'' = Some (JObject m)"
    and "output_item_identity m ''output item'' = Inr (vi_item_id item, t)"
    and "canonical_item m = Inr canonical" and "item_of_json codec canonical = Inr out" and "type_of_item out = Some t"
    and "vi_item_type item = Some t" and "vi_done_item item = Some out"
proof -
  from assms obtain n m item_id t canonical out
    where "map_of (we_rest (ef_wire frame)) ''item'' = Some (JObject m)"
      and "output_item_identity m ''output item'' = Inr (item_id, t)"
      and "canonical_item m = Inr canonical" and "item_of_json codec canonical = Inr out" and "type_of_item out = Some t"
      and "item = \<lparr>vi_item_id = item_id, vi_output_index = n, vi_item_type = Some t, vi_done_item = Some out\<rparr>"
    by (auto simp: validate_output_item_def required_simps map_error_Inr split: if_splits)
  then show ?thesis by (intro that) auto
qed

lemma done_item_agrees:
  assumes "validate_output_item codec frame name True = Inr item" and "wire_of_json v = Some (ef_wire frame)"
    and "ef_payload frame = extract_output_item_done v"
  shows "payload_agrees codec (ef_payload frame) item"
proof -
  from assms(1) obtain m canonical t out where m: "map_of (we_rest (ef_wire frame)) ''item'' = Some (JObject m)"
    and ident: "output_item_identity m ''output item'' = Inr (vi_item_id item, t)"
    and canonical: "canonical_item m = Inr canonical" and "item_of_json codec canonical = Inr out" "type_of_item out = Some t"
    and "vi_item_type item = Some t" "vi_done_item item = Some out"
    by (rule validate_done_Inr)
  moreover have "json_at v ''item'' = JObject m"
    using m wire_rest_get [OF assms(2), of "''item''"] by (simp add: json_at_def wire_keys_def)
  moreover have "json_str canonical ''type'' = json_str (JObject m) ''type''"
    using canonical_item_Inr [OF canonical]
    by (auto simp add: json_str_def json_str_opt_def json_at_insert simp del: json_insert.simps)
  moreover have "ef_payload frame = PlOutputItemDone (vi_item_id item) (item_type_of (json_str canonical ''type''))
      (json_output_index v) canonical"
    using assms(3) canonical_item_Inr [OF canonical] ident \<open>json_at v ''item'' = JObject m\<close>
    by (simp add: extract_output_item_done_def Let_def output_item_identity_Inr del: json_insert.simps)
  ultimately show ?thesis
    by (auto simp: payload_agrees_def output_item_identity_Inr parse_item_type_of)
qed

lemma item_event_agrees:
  assumes "validate_item_event frame name = Inr item" and "wire_of_json v = Some (ef_wire frame)"
    and "ef_payload frame = extract_payload codec (ef_event_type frame) v"
    and "ef_event_type frame \<notin> {EvOutputItemAdded, EvOutputItemDone}"
  shows "payload_agrees codec (ef_payload frame) item"
proof -
  have rest: "map_of (we_rest (ef_wire frame)) ''item_id'' = json_get v ''item_id''"
    using wire_rest_get [OF assms(2)] by (simp add: wire_keys_def)
  have id: "json_str v ''item_id'' = vi_item_id item" "vi_done_item item = None"
    using assms(1) rest nonempty_str_rest [OF assms(2), of "''item_id''"]
    by (auto simp: validate_item_event_def validate_event_item_id_def required_simps json_str_def json_str_opt_def json_at_def
        wire_keys_def dest!: nonempty_str_json_str split: if_splits)
  show ?thesis using assms(3,4) id
    by (cases "ef_event_type frame")
      (auto simp: payload_agrees_def extract_payload_def extract_response_payload_def extract_content_part_done_def
        extract_shell_command_def Let_def split: option.splits)
qed

section \<open>Relaying a normalized frame\<close>

lemma wire_of_json_ok: "wire_of_json v = Some w \<Longrightarrow> wire_ok w"
  by (cases v) (auto simp: wire_ok_def split: option.splits)

lemma wire_json_get:
  assumes "wire_of_json v = Some w" and "key \<notin> set wire_keys"
  shows "json_get (wire_json w) key = json_get v key"
  using wire_rest_get [OF wire_json_inverse [OF wire_of_json_ok [OF assms(1)]] assms(2)] wire_rest_get [OF assms] by simp

lemma wire_json_at: "wire_of_json v = Some w \<Longrightarrow> key \<notin> set wire_keys \<Longrightarrow> json_at (wire_json w) key = json_at v key"
  by (simp add: json_at_def wire_json_get)

lemma wire_json_output_index:
  assumes "wire_of_json v = Some w"
  shows "json_output_index (wire_json w) = json_output_index v"
  using wire_index_json [OF wire_json_inverse [OF wire_of_json_ok [OF assms]]] wire_index_json [OF assms] by simp

lemma json_u32_cong: "json_at v key = json_at u key \<Longrightarrow> json_u32 v key = json_u32 u key"
  by (simp add: json_u32_def)

lemma json_str_cong: "json_at v key = json_at u key \<Longrightarrow> json_str v key = json_str u key \<and> json_str_opt v key = json_str_opt u key"
  by (simp add: json_str_def json_str_opt_def)

lemma wire_type_json:
  assumes "wire_of_json v = Some w"
  shows "Option.bind (json_get v ''type'') as_str = we_type w"
proof -
  obtain m where v: "v = JObject m" using assms wire_of_json_object by blast
  have "read_member read_string ''type'' m = Some (we_type w)" using assms unfolding v by (rule wire_of_json_members(1))
  then show ?thesis unfolding v by (auto simp: read_member_def split: option.splits elim!: read_string.elims)
qed

lemma extract_payload_relayed:
  assumes w: "wire_of_json v = Some w" and index: "t \<in> {EvShellCallCommandAdded, EvShellCallCommandDelta, EvShellCallCommandDone}
      \<Longrightarrow> json_u32 (wire_json w) ''output_index'' = json_u32 v ''output_index''"
  shows "extract_payload codec t (wire_json w) = extract_payload codec t v \<or>
    (\<exists>u u'. extract_payload codec t v = PlRaw u \<and> extract_payload codec t (wire_json w) = PlRaw u')"
proof -
  have keys: "json_at (wire_json w) key = json_at v key" "json_str (wire_json w) key = json_str v key"
      "json_str_opt (wire_json w) key = json_str_opt v key" "json_u32 (wire_json w) key = json_u32 v key"
    if "key \<notin> set wire_keys" for key
    using wire_json_at [OF w that] json_u32_cong json_str_cong by blast+
  show ?thesis using index
    by (cases t) (simp_all add: extract_payload_def extract_response_payload_def extract_output_item_added_def
      extract_output_item_done_def extract_content_part_done_def extract_shell_command_def Let_def keys wire_keys_def
      wire_json_output_index [OF w] split: option.splits)
qed

lemma json_u32_output_index:
  assumes "json_get v ''output_index'' \<noteq> None \<longrightarrow> json_output_index v \<noteq> None"
  shows "json_u32 v ''output_index'' = (case json_output_index v of Some n \<Rightarrow> n | None \<Rightarrow> 0)"
  using assms
  by (cases "json_get v ''output_index''")
    (auto simp: json_u32_def json_at_def json_output_index_def bind_eq_Some_conv u32_of_def)

lemma output_index_present:
  assumes "wire_of_json v = Some w" and "json_get v ''output_index'' \<noteq> None \<longrightarrow> json_output_index v \<noteq> None"
  shows "json_get (wire_json w) ''output_index'' \<noteq> None \<longrightarrow> json_output_index (wire_json w) \<noteq> None"
proof -
  obtain m where v: "v = JObject m" using assms wire_of_json_object by blast
  have rd: "read_member read_u64 ''output_index'' m = Some (we_output_index w)"
    using assms(1) unfolding v by (rule wire_of_json_members(3))
  have rest_none: "map_of (we_rest w) ''output_index'' = None"
    using wire_of_json_ok [OF assms(1)] by (auto simp: wire_ok_def wire_keys_def map_of_eq_None_iff)
  have "json_get (wire_json w) ''output_index'' = map_option (\<lambda>n. JNumber (PosInt n)) (we_output_index w)"
    using rest_none by (cases "we_type w"; cases "we_sequence_number w"; cases "we_output_index w"; cases "we_agent w")
      (simp_all add: wire_json_def wire_member_def)
  moreover have "we_output_index w \<noteq> None \<Longrightarrow> json_output_index v \<noteq> None"
    using rd assms(2) unfolding v by (auto simp: read_member_def split: option.splits)
  ultimately show ?thesis using wire_json_output_index [OF assms(1)] by auto
qed

lemma reconcile_again:
  assumes "reconcile_status v = (t, v')" and "wire_of_json v' = Some w"
  shows "reconcile_status (wire_json w) = (t, wire_json w)"
proof -
  have response: "json_at (wire_json w) ''response'' = json_at v' ''response''"
    using wire_json_at [OF assms(2)] by (simp add: wire_keys_def)
  have same_type: "Option.bind (json_get (wire_json w) ''type'') as_str = Option.bind (json_get v' ''type'') as_str"
    using wire_type_json [OF wire_json_inverse [OF wire_of_json_ok [OF assms(2)]]] wire_type_json [OF assms(2)] by simp
  have incomplete: "event_type_of ''response.incomplete'' = EvResponseIncomplete"
    by (rule event_name_parses) simp
  have stays: "(case Option.bind (json_get v' ''type'') as_str of Some s \<Rightarrow> event_type_of s | None \<Rightarrow> EvOther) = t"
    and not_again: "\<not> (t = EvResponseCompleted \<and> as_str (json_at (json_at v' ''response'') ''status'') = Some ''incomplete'')"
    using assms(1) wire_of_json_object [OF assms(2)]
    by (cases v; auto simp: reconcile_status_def Let_def incomplete update_conv' json_at_def split: if_splits)+
  show ?thesis using not_again by (simp add: reconcile_status_def Let_def same_type stays response)
qed

section \<open>Properties\<close>

text \<open>C29. A frame read from the wire and emitted again is read back unchanged: the same event type and
  wire data, and the same typed payload (an event that is not parsed deeply keeps only its wire data).
  So relaying a frame through the gateway loses nothing a client could read.\<close>

theorem relayed_frame_reads_back:
  assumes "normalize_sse_value codec v = Inr (Some frame)"
  shows "\<exists>again. normalize_sse_value codec (wire_json (ef_wire frame)) = Inr (Some again) \<and>
    ef_event_type again = ef_event_type frame \<and> ef_wire again = ef_wire frame \<and>
    (ef_payload again = ef_payload frame \<or> (\<exists>u u'. ef_payload frame = PlRaw u \<and> ef_payload again = PlRaw u'))"
proof -
  from assms obtain t v' w where *: "reconcile_status v = (t, v')" "wire_of_json v' = Some w"
    "frame = \<lparr>ef_event_type = t, ef_payload = extract_payload codec t v', ef_wire = w\<rparr>"
    and present: "json_get v' ''output_index'' \<noteq> None \<longrightarrow> json_output_index v' \<noteq> None"
    by (elim normalize_cases) (simp_all add: reconcile_get json_output_index_reconcile)
  have reads: "wire_of_json (wire_json w) = Some w" using wire_json_inverse [OF wire_of_json_ok [OF *(2)]] .
  have shell: "json_u32 (wire_json w) ''output_index'' = json_u32 v' ''output_index''"
    by (simp only: json_u32_output_index [OF present] json_u32_output_index [OF output_index_present [OF *(2) present]]
      wire_json_output_index [OF *(2)])
  have "normalize_sse_value codec (wire_json w) =
      Inr (Some \<lparr>ef_event_type = t, ef_payload = extract_payload codec t (wire_json w), ef_wire = w\<rparr>)"
    using output_index_present [OF *(2) present] by (auto simp: normalize_sse_value_def reconcile_again [OF *(1,2)] reads)
  then show ?thesis using extract_payload_relayed [OF *(2) shell, where t = t] *(3) by auto
qed

definition sample_codec :: event_codec where
  "sample_codec =
     \<lparr>parse_json = (\<lambda>_. None),
      item_of_json = (\<lambda>v. case v of
         JObject _ \<Rightarrow> Inr (OiMcpListTools \<lparr>mls_agent = None, mls_id = json_str v ''id'', mls_server_label = json_str v ''server_label'',
           mls_tools = [], mls_error = None\<rparr>)
       | _ \<Rightarrow> Inl ''expected an object''),
      part_of_json = (\<lambda>_. None), usage_of_json = (\<lambda>_. None),
      item_json = (\<lambda>_. None), part_json = (\<lambda>_. None), render_json = (\<lambda>_. None)\<rparr>"

definition sample_done_event :: json where
  "sample_done_event = JObject
     [(''type'', JString ''response.output_item.done''), (''sequence_number'', JNumber (NegInt (- 1))),
      (''output_index'', JNumber (PosInt 2)),
      (''item'', JObject [(''item_id'', JString ''mcpl_1''), (''type'', JString ''mcp_list_tools''),
         (''server_label'', JString ''docs'')])]"

lemma sample_done_type: "event_type_of ''response.output_item.done'' = EvOutputItemDone"
  by (rule event_name_parses) simp

definition sample_item :: json where
  "sample_item = JObject [(''item_id'', JString ''mcpl_1''), (''type'', JString ''mcp_list_tools''),
     (''server_label'', JString ''docs''), (''id'', JString ''mcpl_1'')]"

definition sample_frame :: event_frame where
  "sample_frame =
     \<lparr>ef_event_type = EvOutputItemDone, ef_payload = PlOutputItemDone ''mcpl_1'' SiMcpListTools (Some 2) sample_item,
      ef_wire = \<lparr>we_type = Some ''response.output_item.done'', we_sequence_number = None, we_output_index = Some 2,
        we_agent = None,
        we_rest = [(''item'', JObject [(''item_id'', JString ''mcpl_1''), (''type'', JString ''mcp_list_tools''),
          (''server_label'', JString ''docs'')])]\<rparr>\<rparr>"

lemma sample_done_normalizes: "normalize_sse_value sample_codec sample_done_event = Inr (Some sample_frame)"
  by (simp add: normalize_sse_value_def sample_done_event_def json_output_index_def u32_of_def U32_MAX_def reconcile_status_def
    sample_done_type extract_payload_def extract_output_item_done_def json_at_def output_item_id_def nonempty_str_def
    json_str_opt_def json_str_def item_type_of_def parse_item_type_def item_types_def sample_frame_def sample_item_def
    read_member_def wire_keys_def Let_def)

theorem relayed_frame_reads_back_witness:
  "\<exists>again. normalize_sse_value sample_codec (wire_json (ef_wire sample_frame)) = Inr (Some again) \<and>
    ef_event_type again = EvOutputItemDone \<and> ef_wire again = ef_wire sample_frame"
  using relayed_frame_reads_back [OF sample_done_normalizes] by (auto simp: sample_frame_def)

text \<open>C28. Every integer of a normalized frame fits the width the code declares for it (\<open>u32\<close> indexes,
  a \<open>u64\<close> sequence number), and the two operations that rewrite a frame during ingestion keep it so.\<close>

theorem normalized_frames_well_typed:
  assumes "normalize_sse_value codec v = Inr (Some frame)" and "sequence_in_range v"
  shows "frame_typed frame \<and> frame_typed (set_done_item_id item_id frame) \<and>
    (n \<le> U32_MAX \<longrightarrow> frame_typed (set_output_index n frame) \<and> output_index (set_output_index n frame) = Some n)"
  using normalized_frame_typed [OF assms]
  by (simp add: set_done_item_id_typed set_output_index_typed set_output_index_reads)

theorem normalized_frames_well_typed_witness:
  "frame_typed sample_frame \<and> output_index (set_output_index 7 sample_frame) = Some 7"
  using normalized_frames_well_typed [OF sample_done_normalizes, where n = 7 and item_id = "''x''"]
  by (simp add: sequence_in_range_def sample_done_event_def U32_MAX_def)

lemma frame_payload_agrees:
  assumes "normalize_sse_value codec v = Inr (Some frame)" and "validate_frame codec frame = Inr (Some item)"
  shows "payload_agrees codec (ef_payload frame) item"
proof -
  from assms(1) obtain t v' w where *: "wire_of_json v' = Some w"
    "frame = \<lparr>ef_event_type = t, ef_payload = extract_payload codec t v', ef_wire = w\<rparr>"
    by (elim normalize_cases) auto
  show ?thesis
  proof (cases "t = EvOutputItemAdded \<or> t = EvOutputItemDone")
    case True
    with assms(2) *(2) obtain name where "validate_output_item codec frame name (t = EvOutputItemDone) = Inr item"
      by (auto simp: validate_frame_def Let_def is_response_event_def)
    with True * show ?thesis
      using added_item_agrees [of codec frame name item v'] done_item_agrees [of codec frame name item v']
      by (auto simp: extract_payload_def)
  next
    case False
    with assms(2) *(2) obtain name where "validate_item_event frame name = Inr item"
      by (auto simp: validate_frame_def Let_def split: if_splits)
    with False * show ?thesis by (intro item_event_agrees [where v = v']) auto
  qed
qed

text \<open>C23. When a normalized frame passes validation and concerns an output item, everything the accumulator
  later reads from its typed payload is what was validated on the wire: the output index, the item id, the
  item type, and, for a completed item, the item itself, also when its id came under \<open>item_id\<close>.\<close>

theorem validated_payload_agrees:
  assumes "normalize_sse_value codec v = Inr (Some frame)" and "validate_frame codec frame = Inr (Some item)"
  shows "output_index frame = Some (vi_output_index item) \<and> vi_output_index item \<le> U32_MAX \<and>
    payload_agrees codec (ef_payload frame) item"
proof -
  have "wire_index frame = Some (vi_output_index item)"
    using assms(2) by (auto simp: validate_frame_def validate_output_item_def validate_item_event_def Let_def required_simps
      map_error_Inr split: if_splits)
  moreover have "n \<le> U32_MAX" if "wire_index frame = Some n" for n
    using that by (auto simp: wire_index_def bind_eq_Some_conv)
  ultimately show ?thesis using normalized_output_index [OF assms(1)] frame_payload_agrees [OF assms] by simp
qed

theorem validated_payload_agrees_witness:
  "\<exists>item. validate_frame sample_codec sample_frame = Inr (Some item) \<and> vi_item_id item = ''mcpl_1'' \<and>
    payload_agrees sample_codec (ef_payload sample_frame) item"
proof -
  have "validate_frame sample_codec sample_frame = Inr (Some \<lparr>vi_item_id = ''mcpl_1'', vi_output_index = 2,
      vi_item_type = Some SiMcpListTools, vi_done_item = Some (OiMcpListTools \<lparr>mls_agent = None, mls_id = ''mcpl_1'',
        mls_server_label = ''docs'', mls_tools = [], mls_error = None\<rparr>)\<rparr>)"
    by (simp add: validate_frame_def sample_frame_def is_response_event_def validate_output_item_def required_simps
      required_output_index_def wire_index_def u32_of_def U32_MAX_def required_object_def output_item_identity_def
      nonempty_str_def json_str_opt_def json_str_def json_at_def required_str_def parse_item_type_def item_types_def
      canonical_item_def sample_codec_def)
  from validated_payload_agrees [OF sample_done_normalizes this] this show ?thesis by auto
qed

end
