(* ===== verification/Item_Lifecycle.thy ===== *)
theory Item_Lifecycle
  imports Frame_Validation Item_History Json_Values
begin

text \<open>
  The public stream of a completed output item (\<open>executor/item_lifecycle.rs\<close>): the frames from
  \<open>output_item.added\<close> to \<open>output_item.done\<close> that the gateway synthesizes for an item no upstream
  frame presented. The main property reads every frame back as a client does and validates it.
\<close>

section \<open>Synthetic events\<close>

text \<open>\<open>collect\<close> into a JSON map inserts the entries one after another.\<close>

definition synthetic_event :: "sse_event_type \<Rightarrow> (string \<times> json) list \<Rightarrow> executor_error + event_frame" where
  "synthetic_event t rest =
     (case synthetic t (collect_map rest) of
        None \<Rightarrow> Inl (StreamError ''synthetic event has no wire representation'')
      | Some frame \<Rightarrow> Inr frame)"

definition to_value :: "('a \<Rightarrow> json option) \<Rightarrow> 'a \<Rightarrow> executor_error + json" where
  "to_value write x = (case write x of None \<Rightarrow> Inl JsonError | Some v \<Rightarrow> Inr v)"

definition output_index_field :: "nat \<Rightarrow> string \<times> json" where
  "output_index_field n = (''output_index'', JNumber (PosInt n))"

definition string_field :: "string \<Rightarrow> string \<Rightarrow> string \<times> json" where
  "string_field name v = (name, JString v)"

section \<open>The steps of a lifecycle\<close>

datatype lifecycle =
    LcAddedDone
  | LcMessage output_message
  | LcFunctionCall function_tool_call
  | LcListTools mcp_list_tools

fun lifecycle_of :: "output_item \<Rightarrow> lifecycle" where
  "lifecycle_of (OiMessage message) = LcMessage message"
| "lifecycle_of (OiFunctionCall call) = LcFunctionCall call"
| "lifecycle_of (OiMcpListTools tools) = LcListTools tools"
| "lifecycle_of _ = LcAddedDone"

record message_part =
  mp_item_id :: string
  mp_content_index :: nat
  mp_part :: output_message_content

datatype lifecycle_step =
    LsAdded
  | LsListToolsInProgress string
  | LsListToolsCompleted string
  | LsPartAdded message_part
  | LsTextDelta message_part string
  | LsTextDone message_part string
  | LsPartDone message_part
  | LsArgumentsDelta function_tool_call
  | LsArgumentsDone function_tool_call
  | LsDone

fun part_text :: "output_message_content \<Rightarrow> string option" where
  "part_text (OmcOutputText content) = Some (otc_text content)"
| "part_text (OmcInputText _) = None"

definition part_steps :: "output_message \<Rightarrow> nat \<times> output_message_content \<Rightarrow> lifecycle_step list" where
  "part_steps message indexed = (case indexed of (content_index, part) \<Rightarrow>
     let at = \<lparr>mp_item_id = om_id message, mp_content_index = content_index, mp_part = part\<rparr> in
     LsPartAdded at #
     (case part_text part of None \<Rightarrow> [] | Some text \<Rightarrow> [LsTextDelta at text, LsTextDone at text]) @
     [LsPartDone at])"

definition message_steps :: "output_message \<Rightarrow> lifecycle_step list" where
  "message_steps message = concat (map (part_steps message) (enumerate 0 (om_content message)))"

fun inner_steps :: "lifecycle \<Rightarrow> lifecycle_step list" where
  "inner_steps LcAddedDone = []"
| "inner_steps (LcMessage message) = message_steps message"
| "inner_steps (LcFunctionCall call) = [LsArgumentsDelta call, LsArgumentsDone call]"
| "inner_steps (LcListTools tools) = [LsListToolsInProgress (mls_id tools), LsListToolsCompleted (mls_id tools)]"

definition lifecycle_steps :: "lifecycle \<Rightarrow> lifecycle_step list" where
  "lifecycle_steps lc = LsAdded # inner_steps lc @ [LsDone]"

definition new_list_tools :: "string \<Rightarrow> string \<Rightarrow> mcp_list_tool list \<Rightarrow> mcp_list_tools" where
  "new_list_tools iid label tools =
     \<lparr>mls_agent = None, mls_id = iid, mls_server_label = label, mls_tools = tools, mls_error = None\<rparr>"

definition started_list_tools_output_item :: "mcp_list_tools \<Rightarrow> output_item" where
  "started_list_tools_output_item tools = OiMcpListTools (new_list_tools (mls_id tools) (mls_server_label tools) [])"

text \<open>The item as \<open>output_item.added\<close> presents it.\<close>

fun started_item :: "lifecycle \<Rightarrow> output_item \<Rightarrow> output_item" where
  "started_item LcAddedDone item = item"
| "started_item (LcMessage message) item = OiMessage
     \<lparr>om_agent = om_agent message, om_id = om_id message, om_role = om_role message, om_phase = om_phase message,
      om_status = MsInProgress, om_content = []\<rparr>"
| "started_item (LcFunctionCall call) item = OiFunctionCall
     \<lparr>ftc_agent = ftc_agent call, ftc_id = ftc_id call, ftc_call_id = ftc_call_id call, ftc_name = ftc_name call,
      ftc_namespace = ftc_namespace call, ftc_arguments = [], ftc_status = MsInProgress,
      ftc_async_execution = ftc_async_execution call\<rparr>"
| "started_item (LcListTools tools) item = started_list_tools_output_item tools"

fun started_part :: "output_message_content \<Rightarrow> output_message_content" where
  "started_part (OmcInputText content) = OmcInputText \<lparr>itc_text = [], itc_extra = itc_extra content\<rparr>"
| "started_part (OmcOutputText content) = OmcOutputText
     \<lparr>otc_text = [], otc_annotations = otc_annotations content, otc_logprobs = otc_logprobs content\<rparr>"

definition part_fields :: "message_part \<Rightarrow> string \<times> json \<Rightarrow> string \<times> json \<Rightarrow> (string \<times> json) list" where
  "part_fields at index v =
     [index, string_field ''item_id'' (mp_item_id at), (''content_index'', JNumber (PosInt (mp_content_index at))), v]"

definition item_done_frame :: "event_codec \<Rightarrow> output_item \<Rightarrow> nat \<Rightarrow> executor_error + event_frame" where
  "item_done_frame codec item n =
     and_then (to_value (item_json codec) item)
       (\<lambda>v. synthetic_event EvOutputItemDone [output_index_field n, (''item'', v)])"

fun step_frame :: "event_codec \<Rightarrow> output_item \<Rightarrow> lifecycle \<Rightarrow> nat \<Rightarrow> lifecycle_step \<Rightarrow> executor_error + event_frame" where
  "step_frame codec item lc n LsAdded =
     and_then (to_value (item_json codec) (started_item lc item))
       (\<lambda>v. synthetic_event EvOutputItemAdded [output_index_field n, (''item'', v)])"
| "step_frame codec item lc n (LsListToolsInProgress iid) =
     synthetic_event EvMcpListToolsInProgress [output_index_field n, string_field ''item_id'' iid]"
| "step_frame codec item lc n (LsListToolsCompleted iid) =
     synthetic_event EvMcpListToolsCompleted [output_index_field n, string_field ''item_id'' iid]"
| "step_frame codec item lc n (LsPartAdded at) =
     and_then (to_value (part_json codec) (started_part (mp_part at)))
       (\<lambda>v. synthetic_event EvContentPartAdded (part_fields at (output_index_field n) (''part'', v)))"
| "step_frame codec item lc n (LsTextDelta at text) =
     synthetic_event EvOutputTextDelta (part_fields at (output_index_field n) (string_field ''delta'' text))"
| "step_frame codec item lc n (LsTextDone at text) =
     synthetic_event EvOutputTextDone (part_fields at (output_index_field n) (string_field ''text'' text))"
| "step_frame codec item lc n (LsPartDone at) =
     and_then (to_value (part_json codec) (mp_part at))
       (\<lambda>v. synthetic_event EvContentPartDone (part_fields at (output_index_field n) (''part'', v)))"
| "step_frame codec item lc n (LsArgumentsDelta call) =
     synthetic_event EvFunctionCallArgumentsDelta
       [output_index_field n, string_field ''item_id'' (ftc_id call), string_field ''delta'' (ftc_arguments call)]"
| "step_frame codec item lc n (LsArgumentsDone call) =
     synthetic_event EvFunctionCallArgumentsDone
       [output_index_field n, string_field ''item_id'' (ftc_id call), string_field ''name'' (ftc_name call),
        string_field ''arguments'' (ftc_arguments call)]"
| "step_frame codec item lc n LsDone = item_done_frame codec item n"

definition materialized_item_frames :: "event_codec \<Rightarrow> output_item \<Rightarrow> nat \<Rightarrow> (executor_error + event_frame) list" where
  "materialized_item_frames codec item n =
     map (step_frame codec item (lifecycle_of item) n) (lifecycle_steps (lifecycle_of item))"

section \<open>Reading a synthesized frame back\<close>

definition frame_fields :: "sse_event_type \<Rightarrow> nat \<Rightarrow> (string \<times> json) list \<Rightarrow> event_frame \<Rightarrow> bool" where
  "frame_fields t n members frame \<longleftrightarrow>
     ef_event_type frame = t \<and> we_type (ef_wire frame) = event_name t \<and> we_sequence_number (ef_wire frame) = None \<and>
     we_output_index (ef_wire frame) = Some n \<and> wire_ok (ef_wire frame) \<and>
     (\<forall>key. map_of (we_rest (ef_wire frame)) key = map_of members key)"

lemma swap_remove_first:
  assumes "distinct (k # map fst members)"
  shows "map_of (swap_remove k ((k, v) # members)) key = map_of members key"
    and "set (swap_remove k ((k, v) # members)) = set members"
proof -
  have "swap_remove k ((k, v) # members) = (if members = [] then [] else last members # butlast members)"
    using assms by (cases members rule: rev_cases) (auto simp: swap_remove_def rev_image_eqI intro!: map_idI)
  moreover have "map_of (last members # butlast members) key = map_of members key" if ne: "members \<noteq> []"
  proof -
    obtain ys y where f: "members = ys @ [y]" using append_butlast_last_id [OF ne] by metis
    have "distinct (map fst (y # ys))" using assms f by auto
    moreover have "set (y # ys) = set (ys @ [y])" by auto
    ultimately have "map_of (y # ys) = map_of (ys @ [y])" using assms f by (intro map_of_inject_set [THEN iffD2]) auto
    then show ?thesis using f by simp
  qed
  ultimately show "map_of (swap_remove k ((k, v) # members)) key = map_of members key"
    and "set (swap_remove k ((k, v) # members)) = set members"
    by (cases members rule: rev_cases; auto)+
qed

lemma synthetic_event_fields:
  assumes "event_name t \<noteq> None" and "distinct (map fst members)" and "fst ` set members \<inter> set wire_keys = {}"
  obtains frame where "synthetic_event t (output_index_field n # members) = Inr frame" and "frame_fields t n members frame"
proof -
  obtain rest where R: "rest = output_index_field n # members" by blast
  have dist: "distinct (''output_index'' # map fst members)" and no_agent: "map_of rest ''agent'' = None"
    using assms unfolding R by (auto simp: wire_keys_def output_index_field_def map_of_eq_None_iff)
  then have collected: "collect_map rest = rest"
    unfolding R by (intro collect_map_distinct) (simp add: output_index_field_def)
  have index: "map_of rest ''output_index'' = Some (JNumber (PosInt n))" by (simp add: R output_index_field_def)
  have removed: "swap_remove ''agent'' rest = rest" using no_agent by (simp add: swap_remove_def)
  obtain name where name: "event_name t = Some name" using assms(1) by auto
  let ?frame = "\<lparr>ef_event_type = t, ef_payload = PlNone, ef_wire = \<lparr>we_type = Some name, we_sequence_number = None,
    we_output_index = Some n, we_agent = None, we_rest = swap_remove ''output_index'' rest\<rparr>\<rparr>"
  have "synthetic_event t rest = Inr ?frame"
    by (simp add: synthetic_event_def synthetic_def collected read_member_def name no_agent removed index)
  moreover have "frame_fields t n members ?frame"
    using name swap_remove_first [OF dist, where v = "JNumber (PosInt n)"] assms(3)
    by (auto simp: frame_fields_def wire_ok_def output_index_field_def R)
  ultimately show ?thesis using that R by blast
qed

text \<open>What a client reads from a frame whose wire data holds the given members.\<close>

definition client_reads :: "event_codec \<Rightarrow> event_frame \<Rightarrow> event_frame" where
  "client_reads codec frame =
     \<lparr>ef_event_type = ef_event_type frame,
      ef_payload = extract_payload codec (ef_event_type frame) (wire_json (ef_wire frame)), ef_wire = ef_wire frame\<rparr>"

lemma frame_fields_normalize:
  assumes f: "frame_fields t n members frame" and t: "event_name t \<noteq> None" "t \<noteq> EvResponseCompleted" and n: "n \<le> U32_MAX"
  shows "normalize_sse_value codec (wire_json (ef_wire frame)) = Inr (Some (client_reads codec frame))"
proof -
  have ok: "wire_ok (ef_wire frame)" using f by (simp add: frame_fields_def)
  have "Option.bind (json_get (wire_json (ef_wire frame)) ''type'') as_str = event_name t"
    using wire_type_json [OF wire_json_inverse [OF ok]] f by (simp add: frame_fields_def)
  moreover obtain name where "event_name t = Some name" using t by auto
  ultimately have "reconcile_status (wire_json (ef_wire frame)) = (t, wire_json (ef_wire frame))"
    using t by (simp add: reconcile_status_def Let_def event_name_parses)
  moreover have "json_output_index (wire_json (ef_wire frame)) = Some n"
    using wire_index_json [OF wire_json_inverse [OF ok]] f n by (simp add: frame_fields_def u32_of_def)
  ultimately show ?thesis using f wire_json_inverse [OF ok]
    by (simp add: normalize_sse_value_def client_reads_def frame_fields_def)
qed

lemma frame_fields_json:
  assumes "frame_fields t n members frame" and "key \<notin> set wire_keys"
  shows "json_get (wire_json (ef_wire frame)) key = map_of members key"
  using wire_rest_get [OF wire_json_inverse assms(2), of "ef_wire frame", symmetric] assms(1)
  by (simp add: frame_fields_def)

lemma frame_fields_index: "frame_fields t n members frame \<Longrightarrow> n \<le> U32_MAX \<Longrightarrow> wire_index (client_reads codec frame) = Some n"
  by (simp add: wire_index_def client_reads_def frame_fields_def)

lemma map_of_nonempty_str: "map_of m key = Some (JString s) \<Longrightarrow> s \<noteq> [] \<Longrightarrow> nonempty_str (JObject m) key = Some s"
  by (simp add: nonempty_str_Some json_at_def)

section \<open>What a client receives\<close>

text \<open>A client runs the same reader and validation on the wire data of each frame.\<close>

definition client_receive :: "event_codec \<Rightarrow> event_frame \<Rightarrow> (event_frame \<times> validated_item) option" where
  "client_receive codec frame =
     (case normalize_sse_value codec (wire_json (ef_wire frame)) of
        Inr (Some read) \<Rightarrow> (case validate_frame codec read of Inr (Some item) \<Rightarrow> Some (read, item) | _ \<Rightarrow> None)
      | _ \<Rightarrow> None)"

definition client_stream :: "event_codec \<Rightarrow> ('e + event_frame) list \<Rightarrow> (event_frame \<times> validated_item) list option" where
  "client_stream codec frames =
     those (map (\<lambda>r. case r of Inl _ \<Rightarrow> None | Inr frame \<Rightarrow> client_receive codec frame) frames)"

lemma client_receiveI:
  assumes "frame_fields t n members frame" and "event_name t \<noteq> None" and "t \<noteq> EvResponseCompleted" and "n \<le> U32_MAX"
    and "validate_frame codec (client_reads codec frame) = Inr (Some item)"
  shows "client_receive codec frame = Some (client_reads codec frame, item)"
  using frame_fields_normalize [OF assms(1-4)] assms(5) by (simp add: client_receive_def)

lemma those_map:
  assumes "\<And>x. x \<in> set xs \<Longrightarrow> \<exists>y. f x = Some y \<and> P x y"
  obtains ys where "those (map f xs) = Some ys" and "list_all2 P xs ys"
proof -
  have "\<exists>ys. those (map f xs) = Some ys \<and> list_all2 P xs ys" using assms
  proof (induction xs)
    case (Cons x xs)
    then obtain y ys where "f x = Some y" "P x y" "those (map f xs) = Some ys" "list_all2 P xs ys"
      by (metis list.set_intros)
    then show ?case by simp
  qed simp
  with that show ?thesis by blast
qed

definition members_ok :: "event_codec \<Rightarrow> sse_event_type \<Rightarrow> (string \<times> json) list \<Rightarrow> bool" where
  "members_ok codec t members \<longleftrightarrow>
     (\<forall>field. required_index_field t = Some field \<longrightarrow>
        (\<exists>c \<le> U32_MAX. map_of members field = Some (JNumber (PosInt c)))) \<and>
     (has_part t \<longrightarrow> (\<exists>m. map_of members ''part'' = Some (JObject m) \<and>
        (t = EvContentPartDone \<longrightarrow> part_of_json codec (JObject m) \<noteq> None))) \<and>
     (\<forall>field. required_text_field t = Some field \<longrightarrow> (\<exists>s. map_of members field = Some (JString s)))"

lemma validate_event_fields_ok:
  assumes "members_ok codec t members" and "\<And>key. map_of rest key = map_of members key"
  shows "validate_event_fields rest t name = Inr ()"
  using assms by (cases "required_index_field t"; cases "has_part t"; cases "required_text_field t")
    (auto simp: members_ok_def validate_event_fields_def required_simps)

lemma item_event_received:
  assumes f: "frame_fields t n members frame" and t: "event_name t \<noteq> None" and n: "n \<le> U32_MAX"
    and owner: "expected_item_type t \<noteq> None \<or> t \<in> {EvContentPartAdded, EvContentPartDone}"
    and iid: "map_of members ''item_id'' = Some (JString iid)" "iid \<noteq> []" and ok: "members_ok codec t members"
  shows "client_receive codec frame = Some (client_reads codec frame,
    \<lparr>vi_item_id = iid, vi_output_index = n, vi_item_type = expected_item_type t, vi_done_item = None\<rparr>)"
proof (rule client_receiveI [OF f t _ n])
  obtain name where name: "event_name t = Some name" "name \<noteq> []" using t event_name_nonempty by auto
  have rest: "\<And>key. map_of (we_rest (ef_wire frame)) key = map_of members key" using f by (simp add: frame_fields_def)
  have kind: "t \<noteq> EvResponseCompleted" "\<not> is_response_event t" "t \<noteq> EvOutputItemAdded" "t \<noteq> EvOutputItemDone" "\<not> itemless_event t"
    using owner by (auto simp: expected_item_type_def is_response_event_def itemless_event_def)
  then show "t \<noteq> EvResponseCompleted" by simp
  let ?read = "client_reads codec frame"
  have read: "ef_event_type ?read = t" "ef_wire ?read = ef_wire frame" "we_type (ef_wire frame) = Some name"
    using f name by (simp_all add: client_reads_def frame_fields_def)
  have "nonempty_str (JObject (we_rest (ef_wire frame))) ''item_id'' = Some iid"
    using iid by (intro map_of_nonempty_str) (simp_all add: rest)
  then have id: "validate_event_item_id ?read name = Inr iid"
    by (simp add: validate_event_item_id_def read rest iid required_simps)
  have part: "\<exists>i j k p. ef_payload ?read = PlContentPartDone i j k p" if "t = EvContentPartDone"
  proof -
    from ok that obtain m c where "map_of members ''part'' = Some (JObject m)" "part_of_json codec (JObject m) \<noteq> None"
        "map_of members ''content_index'' = Some (JNumber (PosInt c))" "c \<le> U32_MAX"
      by (auto simp: members_ok_def has_part_def required_index_field_def is_shell_command_event_def)
    then show ?thesis using that frame_fields_json [OF f] f
      by (auto simp: client_reads_def extract_payload_def extract_content_part_done_def json_at_def wire_keys_def
        frame_fields_def u32_of_def)
  qed
  have "validate_item_event ?read name = Inr \<lparr>vi_item_id = iid, vi_output_index = n,
      vi_item_type = expected_item_type t, vi_done_item = None\<rparr>"
    using frame_fields_index [OF f n] validate_event_fields_ok [OF ok rest] owner part
    by (auto simp: validate_item_event_def required_output_index_def id read)
  then show "validate_frame codec ?read = Inr (Some \<lparr>vi_item_id = iid, vi_output_index = n,
      vi_item_type = expected_item_type t, vi_done_item = None\<rparr>)"
    using kind name by (simp add: validate_frame_def read)
qed

text \<open>The codec carries an item or a part when it writes it as an object that it reads back; the
  object has the item's id and type.\<close>

definition carries_item :: "event_codec \<Rightarrow> output_item \<Rightarrow> bool" where
  "carries_item codec item \<longleftrightarrow>
     (case (item_json codec item, type_of_item item, output_id item) of
        (Some (JObject m), Some t, Some iid) \<Rightarrow>
          item_of_json codec (JObject m) = Inr item \<and> map_of m ''type'' = Some (JString (item_type_name t)) \<and>
          map_of m ''id'' = Some (JString iid) \<and> iid \<noteq> []
      | _ \<Rightarrow> False)"

definition carries_part :: "event_codec \<Rightarrow> output_message_content \<Rightarrow> bool" where
  "carries_part codec part \<longleftrightarrow>
     (case part_json codec part of Some (JObject m) \<Rightarrow> part_of_json codec (JObject m) \<noteq> None | _ \<Rightarrow> False)"

lemma carries_itemE:
  assumes "carries_item codec item"
  obtains m t iid where "item_json codec item = Some (JObject m)" and "type_of_item item = Some t"
    and "output_id item = Some iid" and "iid \<noteq> []" and "item_of_json codec (JObject m) = Inr item"
    and "map_of m ''type'' = Some (JString (item_type_name t))" and "map_of m ''id'' = Some (JString iid)"
  using assms by (auto simp: carries_item_def split: option.splits json.splits)

lemma item_frame_received:
  assumes "carries_item codec item" and "t = EvOutputItemAdded \<or> t = EvOutputItemDone" and n: "n \<le> U32_MAX"
  obtains frame read valid where
    "and_then (to_value (item_json codec) item) (\<lambda>v. synthetic_event t [output_index_field n, (''item'', v)]) = Inr frame"
    and "client_receive codec frame = Some (read, valid)" and "ef_event_type read = t"
    and "vi_output_index valid = n" and "Some (vi_item_id valid) = output_id item" and "vi_item_type valid = type_of_item item"
    and "vi_done_item valid = (if t = EvOutputItemDone then Some item else None)"
    and "ef_payload read = (if t = EvOutputItemAdded then extract_output_item_added codec (wire_json (ef_wire frame))
         else extract_output_item_done (wire_json (ef_wire frame)))"
proof -
  from assms(1) obtain m it iid where m: "item_json codec item = Some (JObject m)" "type_of_item item = Some it"
    "output_id item = Some iid" "iid \<noteq> []" "item_of_json codec (JObject m) = Inr item"
    "map_of m ''type'' = Some (JString (item_type_name it))" "map_of m ''id'' = Some (JString iid)"
    by (rule carries_itemE)
  have "\<exists>name. event_name t = Some name \<and> name \<noteq> []" using assms(2) by auto
  then obtain name where name: "event_name t = Some name" "name \<noteq> []" by blast
  obtain frame where sf: "synthetic_event t (output_index_field n # [(''item'', JObject m)]) = Inr frame"
    and f: "frame_fields t n [(''item'', JObject m)] frame"
    by (rule synthetic_event_fields [of t "[(''item'', JObject m)]" n]) (auto simp: name wire_keys_def)
  let ?read = "client_reads codec frame"
  have read: "ef_event_type ?read = t" "ef_wire ?read = ef_wire frame" "we_type (ef_wire frame) = Some name"
    using f name by (simp_all add: client_reads_def frame_fields_def)
  have item: "map_of (we_rest (ef_wire frame)) ''item'' = Some (JObject m)" using f by (simp add: frame_fields_def)
  have str: "nonempty_str (JObject m) ''id'' = Some iid" "nonempty_str (JObject m) ''type'' = Some (item_type_name it)"
    using m by (simp_all add: map_of_nonempty_str)
  have ident: "output_item_identity m ''output item'' = Inr (iid, it)"
    by (simp add: output_item_identity_def required_str_def str)
  have payload: "ef_payload ?read = (if t = EvOutputItemAdded then extract_output_item_added codec (wire_json (ef_wire frame))
         else extract_output_item_done (wire_json (ef_wire frame)))"
    using assms(2) read by (auto simp: client_reads_def extract_payload_def)
  have at: "json_at (wire_json (ef_wire frame)) ''item'' = JObject m"
    using frame_fields_json [OF f, of "''item''"] by (simp add: json_at_def wire_keys_def)
  have snapshot: "opening_snapshot (ef_payload ?read)" if "t = EvOutputItemAdded" "is_collaboration it"
  proof -
    have "item_type_name it \<in> set opening_item_types"
      using that(2) by (auto simp: is_collaboration_def opening_item_types_def)
    moreover have "json_str_opt (JObject m) ''type'' = Some (item_type_name it)"
      using m by (simp add: json_str_opt_def json_at_def)
    ultimately show ?thesis using that(1) m(5)
      by (simp add: payload extract_output_item_added_def at Let_def option_of_result_def opening_snapshot_def)
  qed
  let ?valid = "\<lparr>vi_item_id = iid, vi_output_index = n, vi_item_type = Some it,
    vi_done_item = (if t = EvOutputItemDone then Some item else None)\<rparr>"
  have "validate_frame codec ?read = Inr (Some ?valid)"
    using assms(2) name snapshot frame_fields_index [OF f n] m
    by (auto simp: validate_frame_def read is_response_event_def validate_output_item_def required_output_index_def
      required_object_def item ident canonical_item_def str)
  then have "client_receive codec frame = Some (?read, ?valid)"
    using f name n assms(2) by (intro client_receiveI) auto
  then show ?thesis using that [of frame ?read ?valid] sf m payload read by (simp add: to_value_def)
qed

section \<open>Each step is presented\<close>

fun step_event :: "lifecycle_step \<Rightarrow> sse_event_type" where
  "step_event LsAdded = EvOutputItemAdded"
| "step_event (LsListToolsInProgress _) = EvMcpListToolsInProgress"
| "step_event (LsListToolsCompleted _) = EvMcpListToolsCompleted"
| "step_event (LsPartAdded _) = EvContentPartAdded"
| "step_event (LsTextDelta _ _) = EvOutputTextDelta"
| "step_event (LsTextDone _ _) = EvOutputTextDone"
| "step_event (LsPartDone _) = EvContentPartDone"
| "step_event (LsArgumentsDelta _) = EvFunctionCallArgumentsDelta"
| "step_event (LsArgumentsDone _) = EvFunctionCallArgumentsDone"
| "step_event LsDone = EvOutputItemDone"

text \<open>The text a frame, or a step, streams into a content part, and into the call's arguments.\<close>

fun text_delta :: "nat \<Rightarrow> event_payload \<Rightarrow> string" where
  "text_delta k (PlTextDelta delta _ _ c) = (if c = k then delta else [])"
| "text_delta k _ = []"

fun arguments_delta :: "event_payload \<Rightarrow> string" where
  "arguments_delta (PlFunctionCallArgsDelta delta _ _ _) = delta"
| "arguments_delta _ = []"

fun step_text :: "nat \<Rightarrow> lifecycle_step \<Rightarrow> string" where
  "step_text k (LsTextDelta at text) = (if mp_content_index at = k then text else [])"
| "step_text k _ = []"

fun step_arguments :: "lifecycle_step \<Rightarrow> string" where
  "step_arguments (LsArgumentsDelta call) = ftc_arguments call"
| "step_arguments _ = []"

definition presents :: "output_item \<Rightarrow> nat \<Rightarrow> lifecycle_step \<Rightarrow> event_frame \<times> validated_item \<Rightarrow> bool" where
  "presents item n s r \<longleftrightarrow>
     vi_output_index (snd r) = n \<and> Some (vi_item_id (snd r)) = output_id item \<and> ef_event_type (fst r) = step_event s \<and>
     (\<forall>k. text_delta k (ef_payload (fst r)) = step_text k s) \<and> arguments_delta (ef_payload (fst r)) = step_arguments s \<and>
     (s = LsDone \<longrightarrow> vi_done_item (snd r) = Some item)"

definition step_ok :: "event_codec \<Rightarrow> output_item \<Rightarrow> nat \<Rightarrow> lifecycle_step \<Rightarrow> bool" where
  "step_ok codec item n s \<longleftrightarrow>
     (\<exists>frame received. step_frame codec item (lifecycle_of item) n s = Inr frame \<and>
       client_receive codec frame = Some received \<and> presents item n s received)"

lemma event_step_ok:
  assumes sf: "step_frame codec item (lifecycle_of item) n s = synthetic_event t (output_index_field n # members)"
    and dist: "distinct (map fst members)" "fst ` set members \<inter> set wire_keys = {}" and t: "event_name t \<noteq> None" "t = step_event s"
    and n: "n \<le> U32_MAX" and owner: "expected_item_type t \<noteq> None \<or> t \<in> {EvContentPartAdded, EvContentPartDone}"
    and iid: "map_of members ''item_id'' = Some (JString iid)" "iid \<noteq> []" "output_id item = Some iid"
    and ok: "members_ok codec t members" and s: "s \<noteq> LsDone"
    and deltas: "\<And>frame. frame_fields t n members frame \<Longrightarrow>
      (\<forall>k. text_delta k (extract_payload codec t (wire_json (ef_wire frame))) = step_text k s) \<and>
      arguments_delta (extract_payload codec t (wire_json (ef_wire frame))) = step_arguments s"
  shows "step_ok codec item n s"
proof -
  obtain frame where "synthetic_event t (output_index_field n # members) = Inr frame" and f: "frame_fields t n members frame"
    by (rule synthetic_event_fields [OF t(1) dist])
  moreover have "ef_event_type (client_reads codec frame) = t"
    "ef_payload (client_reads codec frame) = extract_payload codec t (wire_json (ef_wire frame))"
    using f by (simp_all add: client_reads_def frame_fields_def)
  ultimately show ?thesis
    using item_event_received [OF f t(1) n owner iid(1,2) ok] deltas [OF f] iid(3) s t(2)
    by (auto simp: step_ok_def presents_def sf)
qed

lemma item_steps_ok:
  assumes "carries_item codec (started_item (lifecycle_of item) item)" and "carries_item codec item" and "n \<le> U32_MAX"
    and "output_id (started_item (lifecycle_of item) item) = output_id item"
  shows "step_ok codec item n LsAdded" and "step_ok codec item n LsDone"
proof -
  obtain frame read valid where
    "step_frame codec item (lifecycle_of item) n LsAdded = Inr frame" "client_receive codec frame = Some (read, valid)"
    "ef_event_type read = EvOutputItemAdded" "vi_output_index valid = n" "Some (vi_item_id valid) = output_id item"
    "ef_payload read = extract_output_item_added codec (wire_json (ef_wire frame))"
    by (rule item_frame_received [OF assms(1) _ assms(3), of EvOutputItemAdded]) (auto simp: assms(4))
  then show "step_ok codec item n LsAdded"
    by (auto simp: step_ok_def presents_def extract_output_item_added_def Let_def)
next
  obtain frame read valid where
    "step_frame codec item (lifecycle_of item) n LsDone = Inr frame" "client_receive codec frame = Some (read, valid)"
    "ef_event_type read = EvOutputItemDone" "vi_output_index valid = n" "Some (vi_item_id valid) = output_id item"
    "vi_done_item valid = Some item" "ef_payload read = extract_output_item_done (wire_json (ef_wire frame))"
    by (rule item_frame_received [OF assms(2) _ assms(3), of EvOutputItemDone]) (auto simp: item_done_frame_def)
  then show "step_ok codec item n LsDone"
    by (auto simp: step_ok_def presents_def extract_output_item_done_def Let_def)
qed

lemma output_id_started: "output_id (started_item (lifecycle_of item) item) = output_id item"
  by (cases item) (simp_all add: started_list_tools_output_item_def new_list_tools_def)

lemmas step_simps = members_ok_def required_index_field_def required_text_field_def has_part_def is_shell_command_event_def
  expected_item_type_def wire_keys_def string_field_def part_fields_def

lemma frame_member: "frame_fields t n members frame \<Longrightarrow> key \<notin> set wire_keys \<Longrightarrow>
    json_at (wire_json (ef_wire frame)) key = (case map_of members key of Some v \<Rightarrow> v | None \<Rightarrow> JNull)"
  by (simp add: json_at_def frame_fields_json)

lemma part_steps_ok:
  assumes "output_id item = Some (mp_item_id at)" and "mp_item_id at \<noteq> []" and "mp_content_index at \<le> U32_MAX" and "n \<le> U32_MAX"
    and "carries_part codec (mp_part at)" and "carries_part codec (started_part (mp_part at))"
  shows "step_ok codec item n (LsPartAdded at)" and "step_ok codec item n (LsTextDelta at text)"
    and "step_ok codec item n (LsTextDone at text)" and "step_ok codec item n (LsPartDone at)"
proof -
  have "\<exists>v. part_json codec (started_part (mp_part at)) = Some (JObject v)"
    using assms(6) by (auto simp: carries_part_def split: option.splits json.splits)
  then obtain m where m: "part_json codec (started_part (mp_part at)) = Some (JObject m)" by blast
  show "step_ok codec item n (LsPartAdded at)"
    using assms m by (intro event_step_ok [where t = EvContentPartAdded and iid = "mp_item_id at"
        and members = "[string_field ''item_id'' (mp_item_id at), (''content_index'', JNumber (PosInt (mp_content_index at))),
          (''part'', JObject m)]"]) (auto simp: step_simps to_value_def extract_payload_def)
  have "\<exists>v. part_json codec (mp_part at) = Some (JObject v) \<and> part_of_json codec (JObject v) \<noteq> None"
    using assms(5) by (auto simp: carries_part_def split: option.splits json.splits)
  then obtain m where m: "part_json codec (mp_part at) = Some (JObject m)" "part_of_json codec (JObject m) \<noteq> None" by blast
  show "step_ok codec item n (LsPartDone at)"
    using assms m by (intro event_step_ok [where t = EvContentPartDone and iid = "mp_item_id at"
        and members = "[string_field ''item_id'' (mp_item_id at), (''content_index'', JNumber (PosInt (mp_content_index at))),
          (''part'', JObject m)]"])
      (auto simp: step_simps to_value_def extract_payload_def extract_content_part_done_def split: option.splits)
  show "step_ok codec item n (LsTextDelta at text)"
    using assms by (intro event_step_ok [where t = EvOutputTextDelta and iid = "mp_item_id at"
        and members = "[string_field ''item_id'' (mp_item_id at), (''content_index'', JNumber (PosInt (mp_content_index at))),
          string_field ''delta'' text]"])
      (auto simp: step_simps extract_payload_def json_str_def json_str_opt_def json_u32_def frame_member u32_of_def)
  show "step_ok codec item n (LsTextDone at text)"
    using assms by (intro event_step_ok [where t = EvOutputTextDone and iid = "mp_item_id at"
        and members = "[string_field ''item_id'' (mp_item_id at), (''content_index'', JNumber (PosInt (mp_content_index at))),
          string_field ''text'' text]"]) (auto simp: step_simps extract_payload_def)
qed

lemma call_steps_ok:
  assumes "output_id item = Some (ftc_id call)" and "ftc_id call \<noteq> []" and "n \<le> U32_MAX"
  shows "step_ok codec item n (LsArgumentsDelta call)" and "step_ok codec item n (LsArgumentsDone call)"
proof -
  show "step_ok codec item n (LsArgumentsDelta call)"
    using assms by (intro event_step_ok [where t = EvFunctionCallArgumentsDelta and iid = "ftc_id call"
        and members = "[string_field ''item_id'' (ftc_id call), string_field ''delta'' (ftc_arguments call)]"])
      (auto simp: step_simps extract_payload_def json_str_def json_str_opt_def frame_member)
  show "step_ok codec item n (LsArgumentsDone call)"
    using assms by (intro event_step_ok [where t = EvFunctionCallArgumentsDone and iid = "ftc_id call"
        and members = "[string_field ''item_id'' (ftc_id call), string_field ''name'' (ftc_name call),
          string_field ''arguments'' (ftc_arguments call)]"]) (auto simp: step_simps extract_payload_def)
qed

lemma list_tools_steps_ok:
  assumes "output_id item = Some iid" and "iid \<noteq> []" and "n \<le> U32_MAX"
  shows "step_ok codec item n (LsListToolsInProgress iid)" and "step_ok codec item n (LsListToolsCompleted iid)"
proof -
  show "step_ok codec item n (LsListToolsInProgress iid)"
    using assms by (intro event_step_ok [where t = EvMcpListToolsInProgress and iid = iid
        and members = "[string_field ''item_id'' iid]"]) (auto simp: step_simps extract_payload_def)
  show "step_ok codec item n (LsListToolsCompleted iid)"
    using assms by (intro event_step_ok [where t = EvMcpListToolsCompleted and iid = iid
        and members = "[string_field ''item_id'' iid]"]) (auto simp: step_simps extract_payload_def)
qed

section \<open>The whole lifecycle\<close>

definition option_text :: "string option \<Rightarrow> string" where
  "option_text t = (case t of None \<Rightarrow> [] | Some s \<Rightarrow> s)"

fun message_text :: "nat \<Rightarrow> output_item \<Rightarrow> string" where
  "message_text k (OiMessage message) =
     (if k < length (om_content message) then option_text (part_text (om_content message ! k)) else [])"
| "message_text k _ = []"

fun call_arguments :: "output_item \<Rightarrow> string" where
  "call_arguments (OiFunctionCall call) = ftc_arguments call"
| "call_arguments _ = []"

lemma part_steps_text:
  "concat (map (step_text k) (part_steps message (c, part))) = (if c = k then option_text (part_text part) else [])"
  by (simp add: part_steps_def Let_def option_text_def split: option.splits)

lemma parts_text:
  "concat (map (step_text k) (concat (map (part_steps message) (enumerate i parts)))) =
     (if i \<le> k \<and> k < i + length parts then option_text (part_text (parts ! (k - i))) else [])"
proof (induction parts arbitrary: i)
  case (Cons part parts)
  have "concat (map (step_text k) (concat (map (part_steps message) (enumerate i (part # parts))))) =
      (if i = k then option_text (part_text part) else []) @
      concat (map (step_text k) (concat (map (part_steps message) (enumerate (Suc i) parts))))"
    using part_steps_text [of k message i part] by simp
  also have "\<dots> = (if i = k then option_text (part_text part) else []) @
      (if Suc i \<le> k \<and> k < Suc i + length parts then option_text (part_text (parts ! (k - Suc i))) else [])"
    by (simp only: Cons.IH)
  also have "\<dots> = (if i \<le> k \<and> k < i + length (part # parts) then option_text (part_text ((part # parts) ! (k - i))) else [])"
    by (auto simp: nth_Cons')
  finally show ?case .
qed auto

lemma message_steps_arguments: "concat (map step_arguments (message_steps message)) = []"
  by (auto simp: message_steps_def part_steps_def Let_def split: option.splits)

lemma lifecycle_text: "concat (map (step_text k) (lifecycle_steps (lifecycle_of item))) = message_text k item"
  by (cases item) (simp_all add: lifecycle_steps_def message_steps_def parts_text [where i = 0, simplified])

lemma lifecycle_arguments: "concat (map step_arguments (lifecycle_steps (lifecycle_of item))) = call_arguments item"
  by (cases item) (simp_all add: lifecycle_steps_def message_steps_arguments)

fun parts_carried :: "event_codec \<Rightarrow> output_item \<Rightarrow> bool" where
  "parts_carried codec (OiMessage message) \<longleftrightarrow>
     list_all (\<lambda>part. carries_part codec part \<and> carries_part codec (started_part part)) (om_content message) \<and>
     length (om_content message) \<le> U32_MAX"
| "parts_carried codec _ \<longleftrightarrow> True"

lemma lifecycle_steps_ok:
  assumes "carries_item codec item" and "carries_item codec (started_item (lifecycle_of item) item)"
    and "parts_carried codec item" and "n \<le> U32_MAX" and "s \<in> set (lifecycle_steps (lifecycle_of item))"
  shows "step_ok codec item n s"
proof -
  have ends: "step_ok codec item n LsAdded" "step_ok codec item n LsDone"
    using item_steps_ok [OF assms(2,1,4) output_id_started] by simp_all
  have iid: "output_id item = Some iid \<Longrightarrow> iid \<noteq> []" for iid using assms(1) by (auto elim: carries_itemE)
  have "step_ok codec item n s" if "s \<in> set (inner_steps (lifecycle_of item))"
  proof (cases item)
    case (OiMessage message)
    with that obtain c part where at: "(c, part) \<in> set (enumerate 0 (om_content message))" "s \<in> set (part_steps message (c, part))"
      by (auto simp: message_steps_def)
    then have "c < length (om_content message)" "part \<in> set (om_content message)"
      by (auto simp: in_set_enumerate_eq)
    then show ?thesis using at(2) OiMessage assms(3,4) iid
        part_steps_ok [of item "\<lparr>mp_item_id = om_id message, mp_content_index = c, mp_part = part\<rparr>" n codec]
      by (auto simp: part_steps_def Let_def list_all_iff split: option.splits)
  next
    case (OiFunctionCall call)
    then show ?thesis using that call_steps_ok [of item call n codec] iid assms(4) by auto
  next
    case (OiMcpListTools tools)
    then show ?thesis using that list_tools_steps_ok [of item "mls_id tools" n codec] iid assms(4) by auto
  qed (use that in simp_all)
  then show ?thesis using assms(5) ends by (auto simp: lifecycle_steps_def)
qed

lemma list_all2_concat: "list_all2 (\<lambda>x y. f x = g y) xs ys \<Longrightarrow> concat (map f xs) = concat (map g ys)"
  by (induction rule: list_all2_induct) simp_all


definition sample_message :: output_item where
  "sample_message = OiMessage
     \<lparr>om_agent = None, om_id = ''msg_1'', om_role = ''assistant'', om_phase = None, om_status = MsCompleted,
      om_content = [OmcOutputText \<lparr>otc_text = ''hello'', otc_annotations = None, otc_logprobs = []\<rparr>]\<rparr>"

definition lifecycle_codec :: event_codec where
  "lifecycle_codec =
     \<lparr>parse_json = (\<lambda>_. None),
      item_of_json = (\<lambda>v. if json_str v ''status'' = ''completed'' then Inr sample_message
         else Inr (started_item (lifecycle_of sample_message) sample_message)),
      part_of_json = (\<lambda>v. Some (AmcEncryptedContent [])), usage_of_json = (\<lambda>_. None),
      item_json = (\<lambda>item. Some (JObject [(''id'', JString ''msg_1''), (''type'', JString ''message''),
         (''status'', JString (if item = sample_message then ''completed'' else ''in_progress''))])),
      part_json = (\<lambda>part. Some (JObject [(''text'', JString (option_text (part_text part)))])),
      render_json = (\<lambda>_. None)\<rparr>"


end
