(* ===== verification/Stream_Relay.thy ===== *)
theory Stream_Relay
  imports Item_Lifecycle Agent_Identity
begin

text \<open>
  Ordered delivery of one public response (\<open>executor/gateway_accumulator.rs\<close>,
  \<open>executor/response_events.rs\<close>, \<open>executor/relay.rs\<close> and \<open>executor/relay/\<close>): cross-round
  presentation state, serialization, the sinks, the buffer of frames withheld behind a hidden
  gateway call, and the projection of agent rounds onto public output indexes.

  \<^item> A bounded channel is its log of accepted messages and whether its receiver is still there;
    waiting for capacity is not modelled. A send fails when the receiver is gone.
  \<^item> A \<open>HashMap\<close> is an association list with distinct keys; nothing reads its order.
  \<^item> A method that mutates a frame in place and drops it afterwards returns only the state.
\<close>

section \<open>Presentation state\<close>

record presentation =
  ps_next_sequence_number :: nat
  ps_emitted_created :: bool
  ps_emitted_in_progress :: bool
  ps_max_stream_event_bytes :: nat

definition with_max_stream_event_bytes :: "nat \<Rightarrow> presentation" where
  "with_max_stream_event_bytes n =
     \<lparr>ps_next_sequence_number = 0, ps_emitted_created = False, ps_emitted_in_progress = False,
      ps_max_stream_event_bytes = n\<rparr>"

definition take_sequence_number :: "presentation \<Rightarrow> presentation \<times> nat" where
  "take_sequence_number p =
     (p\<lparr>ps_next_sequence_number := saturating_add (ps_next_sequence_number p) 1\<rparr>, ps_next_sequence_number p)"

definition rebase_output_index :: "nat \<Rightarrow> wire_event \<Rightarrow> wire_event" where
  "rebase_output_index offset w =
     (if offset = 0 then w
      else w\<lparr>we_output_index := map_option (\<lambda>n. saturating_add n offset) (we_output_index w)\<rparr>)"

definition stamp_event :: "presentation \<Rightarrow> event_frame \<Rightarrow> nat \<Rightarrow> presentation \<times> event_frame" where
  "stamp_event p frame offset =
     (case take_sequence_number p of
        (p', n) \<Rightarrow> (p', frame\<lparr>ef_wire := rebase_output_index offset ((ef_wire frame)\<lparr>we_sequence_number := Some n\<rparr>)\<rparr>))"

definition should_emit_lifecycle :: "presentation \<Rightarrow> sse_event_type \<Rightarrow> presentation \<times> bool" where
  "should_emit_lifecycle p t =
     (if t = EvResponseCreated then (p\<lparr>ps_emitted_created := True\<rparr>, \<not> ps_emitted_created p)
      else if t = EvResponseInProgress then (p\<lparr>ps_emitted_in_progress := True\<rparr>, \<not> ps_emitted_in_progress p)
      else (p, True))"

definition process_event :: "presentation \<Rightarrow> event_frame \<Rightarrow> nat \<Rightarrow> presentation \<times> event_frame option" where
  "process_event p frame offset =
     (case should_emit_lifecycle p (ef_event_type frame) of
        (p', False) \<Rightarrow> (p', None)
      | (p', True) \<Rightarrow> (case stamp_event p' frame offset of (p'', frame') \<Rightarrow> (p'', Some frame')))"

definition process_sse_line :: "event_codec \<Rightarrow> presentation \<Rightarrow> string \<Rightarrow> nat \<Rightarrow> presentation \<times> event_frame option" where
  "process_sse_line codec p line offset =
     (case normalize_sse_line codec line of None \<Rightarrow> (p, None) | Some frame \<Rightarrow> process_event p frame offset)"

section \<open>Serialization\<close>

definition newline :: char where "newline = CHR 0x0A"
definition carriage_return :: char where "carriage_return = CHR 0x0D"

definition wire_event_name :: "wire_event \<Rightarrow> string option" where
  "wire_event_name w =
     (case we_type w of
        None \<Rightarrow> None
      | Some name \<Rightarrow> if name \<noteq> [] \<and> newline \<notin> set name \<and> carriage_return \<notin> set name then Some name else None)"

definition serialize_wire :: "event_codec \<Rightarrow> wire_event \<Rightarrow> executor_error + string" where
  "serialize_wire codec w = (case render_json codec (wire_json w) of None \<Rightarrow> Inl JsonError | Some s \<Rightarrow> Inr s)"

definition serialize_sse_frame :: "event_codec \<Rightarrow> event_frame \<Rightarrow> executor_error + string" where
  "serialize_sse_frame codec frame =
     and_then (serialize_wire codec (ef_wire frame)) (\<lambda>event_json.
       Inr ((case wire_event_name (ef_wire frame) of None \<Rightarrow> [] | Some name \<Rightarrow> ''event: '' @ name @ [newline]) @
         ''data: '' @ event_json @ [newline, newline]))"

definition checked_stream_event_limited :: "event_codec \<Rightarrow> event_frame \<Rightarrow> nat \<Rightarrow> executor_error + string" where
  "checked_stream_event_limited codec frame max_bytes =
     and_then (serialize_sse_frame codec frame) (\<lambda>content.
       if length content > max_bytes then Inl (ResourceLimitExceeded LimitStreamEvent max_bytes) else Inr content)"

fun frames_chunk :: "event_codec \<Rightarrow> presentation \<Rightarrow> event_frame list \<Rightarrow> presentation \<times> (executor_error + string)" where
  "frames_chunk codec p [] = (p, Inr [])"
| "frames_chunk codec p (frame # frames) =
     (case process_event p frame 0 of
        (p', None) \<Rightarrow> frames_chunk codec p' frames
      | (p', Some frame') \<Rightarrow>
          (case checked_stream_event_limited codec frame' (ps_max_stream_event_bytes p') of
             Inl err \<Rightarrow> (p', Inl err)
           | Inr content \<Rightarrow>
               (case frames_chunk codec p' frames of
                  (p'', Inl err) \<Rightarrow> (p'', Inl err)
                | (p'', Inr rest) \<Rightarrow> (p'', Inr (content @ rest)))))"

text \<open>The terminal frame of a response payload, which is given by its status and its JSON.\<close>

definition terminal_event_type :: "string \<Rightarrow> sse_event_type" where
  "terminal_event_type status =
     (if status = ''incomplete'' then EvResponseIncomplete
      else if status = ''failed'' \<or> status = ''error'' then EvResponseFailed
      else if status = ''in_progress'' then EvResponseInProgress
      else EvResponseCompleted)"

record response_payload_view =
  rpv_status :: string
  rpv_json :: "json option"

definition terminal_response_frame :: "response_payload_view \<Rightarrow> executor_error + event_frame" where
  "terminal_response_frame payload =
     and_then (case rpv_json payload of None \<Rightarrow> Inl JsonError | Some v \<Rightarrow> Inr v) (\<lambda>v.
       case synthetic (terminal_event_type (rpv_status payload)) [(''response'', v)] of
         None \<Rightarrow> Inl (StreamError ''terminal response event has no wire representation'')
       | Some frame \<Rightarrow> Inr frame)"

definition terminal_response_chunk ::
    "event_codec \<Rightarrow> presentation \<Rightarrow> response_payload_view \<Rightarrow> presentation \<times> (executor_error + string)" where
  "terminal_response_chunk codec p payload =
     (case terminal_response_frame payload of
        Inl err \<Rightarrow> (p, Inl err)
      | Inr frame \<Rightarrow>
          (case stamp_event p frame 0 of
             (p', frame') \<Rightarrow> (p', checked_stream_event_limited codec frame' (ps_max_stream_event_bytes p'))))"

definition error_frame :: "nat \<Rightarrow> json \<Rightarrow> event_frame" where
  "error_frame status error =
     \<lparr>ef_event_type = EvOther, ef_payload = PlNone,
      ef_wire = (new_wire ''error'')\<lparr>we_rest := [(''status'', JNumber (PosInt status)), (''error'', error)]\<rparr>\<rparr>"

definition error_sse_chunk :: "event_codec \<Rightarrow> string \<Rightarrow> nat \<Rightarrow> string" where
  "error_sse_chunk codec message n =
     (let error = JObject [(''message'', JString message), (''type'', JString ''server_error''), (''code'', JString ''server_error'')];
          frame = error_frame 500 error
      in case serialize_sse_frame codec (frame\<lparr>ef_wire := (ef_wire frame)\<lparr>we_sequence_number := Some n\<rparr>\<rparr>) of
           Inr content \<Rightarrow> content
         | Inl _ \<Rightarrow>
             ''event: error'' @ [newline] @ ''data: {'' @ [CHR 0x22] @ ''type'' @ [CHR 0x22, CHR 0x3A, CHR 0x22] @ ''error'' @
             [CHR 0x22, CHR 0x2C, CHR 0x22] @ ''status'' @ [CHR 0x22] @ '':500,'' @ [CHR 0x22] @ ''sequence_number'' @
             [CHR 0x22, CHR 0x3A] @ decimal n @ ''}'' @ [newline, newline])"

definition DEFAULT_MAX_STREAM_EVENT_BYTES :: nat where
  "DEFAULT_MAX_STREAM_EVENT_BYTES = 16 * 1024 * 1024"

definition executor_error_chunk_at :: "event_codec \<Rightarrow> nat \<Rightarrow> json \<Rightarrow> nat \<Rightarrow> string" where
  "executor_error_chunk_at codec status error n =
     (let frame = error_frame status error in
      case checked_stream_event_limited codec (frame\<lparr>ef_wire := (ef_wire frame)\<lparr>we_sequence_number := Some n\<rparr>\<rparr>)
             DEFAULT_MAX_STREAM_EVENT_BYTES of
        Inr content \<Rightarrow> content
      | Inl _ \<Rightarrow> error_sse_chunk codec ''executor error event exceeded the response size limit'' n)"

section \<open>Channels and sinks\<close>

record 'm channel =
  ch_sent :: "'m list"
  ch_open :: bool

definition channel_send :: "'m \<Rightarrow> 'm channel \<Rightarrow> 'm channel option" where
  "channel_send m c = (if ch_open c then Some (c\<lparr>ch_sent := ch_sent c @ [m]\<rparr>) else None)"

record stream_frame =
  sf_content :: string
  sf_sequence_number :: nat
  sf_text :: bool

definition emit_sse_frame_limited ::
    "event_codec \<Rightarrow> stream_frame channel \<Rightarrow> event_frame \<Rightarrow> nat \<Rightarrow> stream_frame channel \<times> (executor_error + unit)" where
  "emit_sse_frame_limited codec sender frame max_bytes =
     (case we_sequence_number (ef_wire frame) of
        None \<Rightarrow> (sender, Inl (StreamError ''stream event has no sequence number''))
      | Some n \<Rightarrow>
          (case checked_stream_event_limited codec frame max_bytes of
             Inl err \<Rightarrow> (sender, Inl err)
           | Inr content \<Rightarrow>
               (case channel_send \<lparr>sf_content = content, sf_sequence_number = n,
                       sf_text = (ef_event_type frame = EvOutputTextDelta)\<rparr> sender of
                  None \<Rightarrow> (sender, Inl (StreamError ''stream receiver closed while emitting gateway event''))
                | Some sender' \<Rightarrow> (sender', Inr ()))))"

datatype response_commit_state = CommitRunning | CommitCommitted | CommitFailed | CommitAborted

text \<open>A receipt names the sink that issued it; \<open>Weak::ptr_eq\<close> compares the sinks' identities.\<close>

record created_receipt =
  rc_response_id :: string
  rc_previous_response_id :: "string option"
  rc_sequence_number :: nat
  rc_source :: nat

record response_sink =
  rs_identity :: nat
  rs_state :: presentation
  rs_sender :: "stream_frame channel"
  rs_commit :: response_commit_state
  rs_created :: "created_receipt option"
  rs_steering_requested :: bool
  rs_execution_joined :: bool
  rs_max_bytes :: nat

definition belongs_to :: "created_receipt \<Rightarrow> response_sink \<Rightarrow> bool" where
  "belongs_to receipt sink \<longleftrightarrow> rc_source receipt = rs_identity sink"

definition new_response_sink :: "nat \<Rightarrow> stream_frame channel \<Rightarrow> nat \<Rightarrow> response_sink" where
  "new_response_sink identity sender max_bytes =
     \<lparr>rs_identity = identity, rs_state = with_max_stream_event_bytes max_bytes, rs_sender = sender,
      rs_commit = CommitRunning, rs_created = None, rs_steering_requested = False, rs_execution_joined = False,
      rs_max_bytes = max_bytes\<rparr>"

definition request_steering_boundary :: "response_sink \<Rightarrow> response_sink" where
  "request_steering_boundary sink = sink\<lparr>rs_steering_requested := True\<rparr>"

definition mark_joined :: "response_sink \<Rightarrow> response_sink" where
  "mark_joined sink = sink\<lparr>rs_execution_joined := True\<rparr>"

definition mark_aborted :: "response_sink \<Rightarrow> response_sink" where
  "mark_aborted sink = sink\<lparr>rs_commit := CommitAborted\<rparr>"

definition mark_failed :: "response_sink \<Rightarrow> response_sink" where
  "mark_failed sink = sink\<lparr>rs_commit := CommitFailed\<rparr>"

definition delivery_closed :: executor_error where
  "delivery_closed = StreamError ''response delivery failed or closed''"

text \<open>The receipt is made from the final wire data, not from the normalized payload.\<close>

definition receipt_of :: "nat \<Rightarrow> event_frame \<Rightarrow> nat \<Rightarrow> executor_error + created_receipt" where
  "receipt_of identity frame n =
     (let response = map_of (we_rest (ef_wire frame)) ''response'' in
      case Option.bind response (\<lambda>v. case json_get v ''id'' of Some (JString s) \<Rightarrow> if s = [] then None else Some s | _ \<Rightarrow> None) of
        None \<Rightarrow> Inl (StreamError ''response.created has no response ID'')
      | Some response_id \<Rightarrow>
          (case Option.bind response (\<lambda>v. json_get v ''previous_response_id'') of
             None \<Rightarrow> Inr \<lparr>rc_response_id = response_id, rc_previous_response_id = None, rc_sequence_number = n, rc_source = identity\<rparr>
           | Some JNull \<Rightarrow>
               Inr \<lparr>rc_response_id = response_id, rc_previous_response_id = None, rc_sequence_number = n, rc_source = identity\<rparr>
           | Some (JString s) \<Rightarrow>
               if s = [] then Inl (StreamError ''response.created has an invalid parent ID'')
               else Inr \<lparr>rc_response_id = response_id, rc_previous_response_id = Some s, rc_sequence_number = n, rc_source = identity\<rparr>
           | Some _ \<Rightarrow> Inl (StreamError ''response.created has an invalid parent ID'')))"

definition emit_frame :: "event_codec \<Rightarrow> event_frame \<Rightarrow> nat \<Rightarrow> response_sink \<Rightarrow> response_sink \<times> (executor_error + bool)" where
  "emit_frame codec frame offset sink =
     (if \<not> ch_open (rs_sender sink) then (sink, Inl delivery_closed)
      else (case process_event (rs_state sink) frame offset of
        (published, None) \<Rightarrow> (sink, Inr False)
      | (published, Some stamped) \<Rightarrow>
          (case checked_stream_event_limited codec stamped (rs_max_bytes sink) of
             Inl err \<Rightarrow> (sink, Inl err)
           | Inr content \<Rightarrow>
               let n = (case we_sequence_number (ef_wire stamped) of Some n \<Rightarrow> n | None \<Rightarrow> 0) in
               (case (if ef_event_type stamped = EvResponseCreated
                      then map_sum id Some (receipt_of (rs_identity sink) stamped n) else Inr None) of
                  Inl err \<Rightarrow> (sink, Inl err)
                | Inr created \<Rightarrow>
                    (sink\<lparr>rs_sender := (rs_sender sink)\<lparr>ch_sent := ch_sent (rs_sender sink) @
                       [\<lparr>sf_content = content, sf_sequence_number = n,
                         sf_text = (ef_event_type stamped = EvOutputTextDelta)\<rparr>]\<rparr>,
                       rs_state := published,
                       rs_created := (case created of Some r \<Rightarrow> Some r | None \<Rightarrow> rs_created sink)\<rparr>,
                     Inr True)))))"

definition emit_terminal :: "event_codec \<Rightarrow> response_payload_view \<Rightarrow> response_sink \<Rightarrow> response_sink \<times> (executor_error + unit)" where
  "emit_terminal codec payload sink =
     (case terminal_response_frame payload of
        Inl err \<Rightarrow> (sink, Inl err)
      | Inr frame \<Rightarrow>
          (case emit_frame codec frame 0 sink of
             (sink', Inl err) \<Rightarrow> (sink', Inl err)
           | (sink', Inr _) \<Rightarrow>
               (sink'\<lparr>rs_commit := (if ef_event_type frame = EvResponseFailed then CommitFailed else CommitCommitted)\<rparr>, Inr ())))"

definition validate_terminal :: "event_codec \<Rightarrow> response_payload_view \<Rightarrow> response_sink \<Rightarrow> executor_error + unit" where
  "validate_terminal codec payload sink =
     and_then (terminal_response_frame payload) (\<lambda>frame.
     and_then (checked_stream_event_limited codec (frame\<lparr>ef_wire := (ef_wire frame)\<lparr>we_sequence_number := Some USIZE_MAX\<rparr>\<rparr>)
       (rs_max_bytes sink)) (\<lambda>_. Inr ()))"

definition emit_error :: "event_codec \<Rightarrow> nat \<Rightarrow> json \<Rightarrow> response_sink \<Rightarrow> response_sink \<times> (executor_error + unit)" where
  "emit_error codec status error sink =
     (case emit_frame codec (error_frame status error) 0 sink of
        (sink', Inl err) \<Rightarrow> (sink', Inl err)
      | (sink', Inr _) \<Rightarrow> (sink', Inr ()))"

text \<open>An agent's frames are handed to the response owner, which acknowledges each. Whether the owner
  still acknowledges is part of the sink's state.\<close>

record agent_round_id =
  ar_agent :: agent_identity
  ar_round :: nat

record agent_frame =
  af_source :: agent_round_id
  af_frame :: event_frame

record agent_sink =
  as_source :: agent_round_id
  as_sender :: "agent_frame channel"
  as_acknowledges :: bool

definition agent_closed :: executor_error where
  "agent_closed = StreamError ''agent delivery owner closed''"

definition wire_size_up_to :: "event_codec \<Rightarrow> wire_event \<Rightarrow> nat \<Rightarrow> executor_error + nat option" where
  "wire_size_up_to codec w limit =
     and_then (serialize_wire codec w) (\<lambda>s. Inr (if length s \<le> limit then Some (length s) else None))"

definition agent_sink_send :: "event_codec \<Rightarrow> event_frame \<Rightarrow> nat \<Rightarrow> agent_sink \<Rightarrow> agent_sink \<times> (executor_error + unit)" where
  "agent_sink_send codec frame max_bytes sink =
     (case wire_size_up_to codec (ef_wire frame) max_bytes of
        Inl err \<Rightarrow> (sink, Inl err)
      | Inr None \<Rightarrow> (sink, Inl (StreamError ''agent event exceeds stream byte limit''))
      | Inr (Some _) \<Rightarrow>
          (case channel_send \<lparr>af_source = as_source sink, af_frame = frame\<rparr> (as_sender sink) of
             None \<Rightarrow> (sink, Inl agent_closed)
           | Some sender' \<Rightarrow>
               (sink\<lparr>as_sender := sender'\<rparr>, if as_acknowledges sink then Inr () else Inl agent_closed)))"

section \<open>Deferred frames\<close>

record relay_limits =
  rl_deferred_frames :: nat
  rl_deferred_bytes :: nat
  rl_event_bytes :: nat

definition with_event_bytes :: "nat \<Rightarrow> relay_limits" where
  "with_event_bytes n = \<lparr>rl_deferred_frames = 1024, rl_deferred_bytes = 256 * 1024, rl_event_bytes = n\<rparr>"

datatype release = RelBelow nat | RelItem nat nat | RelAll

fun release_admits :: "release \<Rightarrow> event_frame \<Rightarrow> bool" where
  "release_admits (RelBelow bound) frame =
     (case we_output_index (ef_wire frame) of Some n \<Rightarrow> n < bound | None \<Rightarrow> False)"
| "release_admits (RelItem n public_index) frame =
     (case we_output_index (ef_wire frame) of Some m \<Rightarrow> m \<le> n | None \<Rightarrow> False)"
| "release_admits RelAll frame = True"

fun release_position :: "release \<Rightarrow> nat option \<Rightarrow> nat option" where
  "release_position (RelItem n public_index) i = (if i = Some n then Some public_index else i)"
| "release_position _ i = i"

record deferred_frame =
  df_frame :: event_frame
  df_bytes :: nat

record deferred_frames =
  dq_window :: "nat option"
  dq_frames :: "deferred_frame list"
  dq_bytes :: nat

definition no_deferred :: deferred_frames where
  "no_deferred = \<lparr>dq_window = None, dq_frames = [], dq_bytes = 0\<rparr>"

definition deferred_begin_round :: "deferred_frames \<Rightarrow> deferred_frames \<times> (executor_error + unit)" where
  "deferred_begin_round d =
     (if dq_frames d \<noteq> [] then
        (d, Inl (StreamError (''previous inference round left '' @ decimal (length (dq_frames d)) @
          '' deferred stream events unreleased'')))
      else (d\<lparr>dq_window := None\<rparr>, Inr ()))"

definition move_window :: "nat option \<Rightarrow> deferred_frames \<Rightarrow> deferred_frames \<times> release option" where
  "move_window window d =
     (if dq_window d = window then (d, None)
      else (d\<lparr>dq_window := window\<rparr>, Some (case window of None \<Rightarrow> RelAll | Some n \<Rightarrow> RelBelow n)))"

definition withholds :: "deferred_frames \<Rightarrow> event_frame \<Rightarrow> bool" where
  "withholds d frame =
     (case dq_window d of
        None \<Rightarrow> False
      | Some first_hidden \<Rightarrow>
          (case we_output_index (ef_wire frame) of None \<Rightarrow> True | Some n \<Rightarrow> first_hidden \<le> n))"

text \<open>The release key orders \<open>(bool, u64)\<close> lexicographically: indexed frames first.\<close>

definition release_key :: "event_frame \<Rightarrow> bool \<times> nat" where
  "release_key frame = (case we_output_index (ef_wire frame) of None \<Rightarrow> (True, 0) | Some n \<Rightarrow> (False, n))"

definition key_le :: "bool \<times> nat \<Rightarrow> bool \<times> nat \<Rightarrow> bool" where
  "key_le a b \<longleftrightarrow> (fst a < fst b) \<or> (fst a = fst b \<and> snd a \<le> snd b)"

definition push_deferred ::
    "event_codec \<Rightarrow> event_frame \<Rightarrow> relay_limits \<Rightarrow> deferred_frames \<Rightarrow> deferred_frames \<times> (executor_error + unit)" where
  "push_deferred codec frame limits d =
     (if length (dq_frames d) \<ge> rl_deferred_frames limits then
        (d, Inl (StreamError (''deferred stream exceeded '' @ decimal (rl_deferred_frames limits) @ '' buffered events'')))
      else (case serialize_wire codec (ef_wire frame) of
        Inl err \<Rightarrow> (d, Inl err)
      | Inr content \<Rightarrow>
          let bytes = length content in
          if bytes > rl_deferred_bytes limits then
            (d, Inl (StreamError (''deferred stream event of '' @ decimal bytes @ '' bytes exceeds the '' @
              decimal (rl_deferred_bytes limits) @ '' buffered-byte limit'')))
          else
            let total_bytes = saturating_add (dq_bytes d) bytes in
            if total_bytes > rl_deferred_bytes limits then
              (d, Inl (StreamError (''deferred stream exceeded '' @ decimal (rl_deferred_bytes limits) @ '' buffered bytes'')))
            else
              let before = takeWhile (\<lambda>q. key_le (release_key (df_frame q)) (release_key frame)) (dq_frames d);
                  after = drop (length before) (dq_frames d)
              in (d\<lparr>dq_frames := before @ [\<lparr>df_frame = frame, df_bytes = bytes\<rparr>] @ after, dq_bytes := total_bytes\<rparr>, Inr ())))"

definition deferred_next :: "release \<Rightarrow> deferred_frames \<Rightarrow> event_frame option" where
  "deferred_next rel d =
     (case dq_frames d of [] \<Rightarrow> None | q # _ \<Rightarrow> if release_admits rel (df_frame q) then Some (df_frame q) else None)"

definition pop_front :: "deferred_frames \<Rightarrow> deferred_frames" where
  "pop_front d =
     (case dq_frames d of
        [] \<Rightarrow> d
      | q # rest \<Rightarrow> d\<lparr>dq_frames := rest, dq_bytes := saturating_sub (dq_bytes d) (df_bytes q)\<rparr>)"

section \<open>Projection of agent rounds\<close>

record source_projection =
  sp_indexes :: "(agent_round_id \<times> (nat \<times> nat) list) list"
  sp_items :: "(string \<times> (string \<times> nat) list) list"
  sp_next_index :: nat

definition no_projection :: source_projection where
  "no_projection = \<lparr>sp_indexes = [], sp_items = [], sp_next_index = 0\<rparr>"

definition entries_of :: "'k \<Rightarrow> ('k \<times> ('a \<times> 'b) list) list \<Rightarrow> ('a \<times> 'b) list" where
  "entries_of k m = (case map_of m k of Some es \<Rightarrow> es | None \<Rightarrow> [])"

definition projection_reserve :: "source_projection \<Rightarrow> source_projection \<times> (executor_error + nat)" where
  "projection_reserve p =
     (case checked_add (sp_next_index p) 1 of
        None \<Rightarrow> (p, Inl (StreamError ''public output index overflow''))
      | Some n \<Rightarrow> (p\<lparr>sp_next_index := n\<rparr>, Inr (sp_next_index p)))"

definition projection_added ::
    "agent_round_id \<Rightarrow> nat \<Rightarrow> string \<Rightarrow> source_projection \<Rightarrow> source_projection \<times> (executor_error + nat)" where
  "projection_added source local_index iid p =
     (if map_of (entries_of source (sp_indexes p)) local_index \<noteq> None \<or>
         map_of (entries_of (ar_agent source) (sp_items p)) iid \<noteq> None
      then (p, Inl (StreamError ''duplicate source presentation address''))
      else (case projection_reserve p of
        (p', Inl err) \<Rightarrow> (p', Inl err)
      | (p', Inr n) \<Rightarrow>
          (p'\<lparr>sp_indexes := AList.update source (AList.update local_index n (entries_of source (sp_indexes p'))) (sp_indexes p'),
              sp_items := AList.update (ar_agent source)
                (AList.update iid n (entries_of (ar_agent source) (sp_items p'))) (sp_items p')\<rparr>, Inr n)))"

definition projection_index :: "agent_round_id \<Rightarrow> nat \<Rightarrow> source_projection \<Rightarrow> executor_error + nat" where
  "projection_index source local_index p =
     (case map_of (entries_of source (sp_indexes p)) local_index of
        None \<Rightarrow> Inl (StreamError ''source event has no public index'')
      | Some n \<Rightarrow> Inr n)"

definition projection_take_item :: "string \<Rightarrow> string \<Rightarrow> source_projection \<Rightarrow> source_projection \<times> nat option" where
  "projection_take_item agent iid p =
     (case map_of (sp_items p) agent of
        None \<Rightarrow> (p, None)
      | Some es \<Rightarrow> (p\<lparr>sp_items := AList.update agent (AList.delete iid es) (sp_items p)\<rparr>, map_of es iid))"

definition projection_finish_source :: "agent_round_id \<Rightarrow> source_projection \<Rightarrow> source_projection" where
  "projection_finish_source source p =
     p\<lparr>sp_indexes := AList.delete source (sp_indexes p),
       sp_items := (if map_of (sp_items p) (ar_agent source) = Some [] then AList.delete (ar_agent source) (sp_items p)
         else sp_items p)\<rparr>"

definition has_live_items :: "agent_identity \<Rightarrow> source_projection \<Rightarrow> bool" where
  "has_live_items agent p \<longleftrightarrow> entries_of agent (sp_items p) \<noteq> []"

section \<open>The relay\<close>

datatype relay_sink =
    SkDetached
  | SkClient "stream_frame channel"
  | SkResponse response_sink
  | SkAgent agent_sink

record stream_relay =
  sr_sink :: relay_sink
  sr_presentation :: presentation
  sr_projection :: source_projection
  sr_output_offset :: nat
  sr_deferred :: deferred_frames
  sr_limits :: relay_limits

definition with_sink :: "relay_sink \<Rightarrow> relay_limits \<Rightarrow> stream_relay" where
  "with_sink sink limits =
     \<lparr>sr_sink = sink, sr_presentation = with_max_stream_event_bytes (rl_event_bytes limits), sr_projection = no_projection,
      sr_output_offset = 0, sr_deferred = no_deferred, sr_limits = limits\<rparr>"

definition is_live :: "stream_relay \<Rightarrow> bool" where
  "is_live relay \<longleftrightarrow> sr_sink relay \<noteq> SkDetached"

definition begin_round :: "nat \<Rightarrow> stream_relay \<Rightarrow> stream_relay \<times> (executor_error + unit)" where
  "begin_round offset relay =
     (case deferred_begin_round (sr_deferred relay) of
        (d, Inl err) \<Rightarrow> (relay\<lparr>sr_deferred := d\<rparr>, Inl err)
      | (d, Inr _) \<Rightarrow> (relay\<lparr>sr_deferred := d, sr_output_offset := offset\<rparr>, Inr ()))"

text \<open>\<open>send\<close>: presentation state is committed only after the sink accepted the frame. The index of an
  agent's frame is rebased with a plain addition on \<open>u64\<close>, which is exact on indexes of frames.\<close>

definition client_emit ::
    "event_codec \<Rightarrow> nat \<Rightarrow> event_frame \<Rightarrow> nat \<Rightarrow> presentation \<times> stream_frame channel \<Rightarrow>
      (presentation \<times> stream_frame channel) \<times> (executor_error + bool)" where
  "client_emit codec max_bytes frame offset client =
     (case client of (presentation, sender) \<Rightarrow>
       (case process_event presentation frame offset of
          (published, None) \<Rightarrow> (client, Inr False)
        | (published, Some stamped) \<Rightarrow>
            (case emit_sse_frame_limited codec sender stamped max_bytes of
               (sender', Inl err) \<Rightarrow> ((presentation, sender'), Inl err)
             | (sender', Inr _) \<Rightarrow> ((published, sender'), Inr True))))"

definition send_frame :: "event_codec \<Rightarrow> event_frame \<Rightarrow> nat \<Rightarrow> stream_relay \<Rightarrow> stream_relay \<times> (executor_error + bool)" where
  "send_frame codec frame offset relay =
     (case sr_sink relay of
        SkDetached \<Rightarrow> (relay, Inr False)
      | SkAgent sink \<Rightarrow>
          (let w = ef_wire frame;
               frame' = frame\<lparr>ef_wire := w\<lparr>we_output_index := map_option (\<lambda>n. n + offset) (we_output_index w)\<rparr>\<rparr>
           in case agent_sink_send codec frame' (rl_event_bytes (sr_limits relay)) sink of
             (sink', Inl err) \<Rightarrow> (relay\<lparr>sr_sink := SkAgent sink'\<rparr>, Inl err)
           | (sink', Inr _) \<Rightarrow> (relay\<lparr>sr_sink := SkAgent sink'\<rparr>, Inr True))
      | SkResponse sink \<Rightarrow>
          (case emit_frame codec frame offset sink of (sink', r) \<Rightarrow> (relay\<lparr>sr_sink := SkResponse sink'\<rparr>, r))
      | SkClient sender \<Rightarrow>
          (case client_emit codec (rl_event_bytes (sr_limits relay)) frame offset (sr_presentation relay, sender) of
             ((published, sender'), r) \<Rightarrow> (relay\<lparr>sr_sink := SkClient sender', sr_presentation := published\<rparr>, r)))"

definition emit_local :: "event_codec \<Rightarrow> event_frame \<Rightarrow> stream_relay \<Rightarrow> stream_relay \<times> (executor_error + bool)" where
  "emit_local codec frame relay = send_frame codec frame 0 relay"

text \<open>The members of a request's context that the relay reads.\<close>

record relay_context =
  rx_response_id :: string
  rx_previous_response_id :: "string option"
  rx_conversation_id :: "string option"
  rx_max_tool_calls :: "nat option"

definition insert_optional :: "string \<Rightarrow> json option \<Rightarrow> (string \<times> json) list \<Rightarrow> (string \<times> json) list" where
  "insert_optional key v m = (case v of None \<Rightarrow> m | Some x \<Rightarrow> AList.update key x m)"

definition apply_context_response_ids :: "relay_context \<Rightarrow> wire_event \<Rightarrow> wire_event" where
  "apply_context_response_ids ctx w =
     (case map_of (we_rest w) ''response'' of
        Some (JObject response) \<Rightarrow>
          let response = AList.update ''id'' (JString (rx_response_id ctx)) response;
              response = insert_optional ''previous_response_id'' (map_option JString (rx_previous_response_id ctx)) response;
              response = insert_optional ''conversation''
                (map_option (\<lambda>c. JObject [(''id'', JString c)]) (rx_conversation_id ctx)) response;
              response = AList.update ''max_tool_calls''
                (case rx_max_tool_calls ctx of None \<Rightarrow> JNull | Some n \<Rightarrow> JNumber (PosInt n)) response
          in w\<lparr>we_rest := AList.update ''response'' (JObject response) (we_rest w)\<rparr>
      | _ \<Rightarrow> w)"

definition emit_upstream ::
    "event_codec \<Rightarrow> relay_context \<Rightarrow> event_frame \<Rightarrow> stream_relay \<Rightarrow> stream_relay \<times> (executor_error + bool)" where
  "emit_upstream codec ctx frame relay =
     send_frame codec (frame\<lparr>ef_wire := apply_context_response_ids ctx (ef_wire frame)\<rparr>) (sr_output_offset relay) relay"

definition is_terminal_response_event :: "sse_event_type \<Rightarrow> bool" where
  "is_terminal_response_event t \<longleftrightarrow> t \<in> {EvResponseCompleted, EvResponseFailed, EvResponseIncomplete}"

definition positioned :: "release \<Rightarrow> event_frame \<Rightarrow> event_frame" where
  "positioned rel frame =
     frame\<lparr>ef_wire := (ef_wire frame)\<lparr>we_output_index := release_position rel (we_output_index (ef_wire frame))\<rparr>\<rparr>"

text \<open>The release loop runs until the front frame is not admitted; that it stops is a theorem.\<close>

partial_function (option) release_deferred ::
    "event_codec \<Rightarrow> release \<Rightarrow> relay_context \<Rightarrow> stream_relay \<Rightarrow> (stream_relay \<times> (executor_error + unit)) option" where
  "release_deferred codec rel ctx relay =
     (case deferred_next rel (sr_deferred relay) of
        None \<Rightarrow> Some (relay, Inr ())
      | Some frame \<Rightarrow>
          (case emit_upstream codec ctx (positioned rel frame) relay of
             (relay', Inl err) \<Rightarrow> Some (relay', Inl err)
           | (relay', Inr _) \<Rightarrow>
               release_deferred codec rel ctx (relay'\<lparr>sr_deferred := pop_front (sr_deferred relay')\<rparr>)))"

text \<open>Gateway-synthesized frames, built one after another from the relay's state.\<close>

fun emit_locals ::
    "event_codec \<Rightarrow> (stream_relay \<Rightarrow> executor_error + event_frame) list \<Rightarrow> stream_relay \<Rightarrow> stream_relay \<times> (executor_error + unit)" where
  "emit_locals codec [] relay = (relay, Inr ())"
| "emit_locals codec (build # builds) relay =
     (case build relay of
        Inl err \<Rightarrow> (relay, Inl err)
      | Inr frame \<Rightarrow>
          (case emit_local codec frame relay of
             (relay', Inl err) \<Rightarrow> (relay', Inl err)
           | (relay', Inr _) \<Rightarrow> emit_locals codec builds relay'))"

record translation =
  tr_frames :: "event_frame list"
  tr_defer_from_output_index :: "nat option"

text \<open>The frames of one translation. \<open>discovery\<close> is the lifecycle of the discovered MCP tool lists,
  presented after \<open>response.in_progress\<close>.\<close>

type_synonym discovery = "stream_relay \<Rightarrow> stream_relay \<times> (executor_error + unit)"

fun accept_frames ::
    "event_codec \<Rightarrow> relay_context \<Rightarrow> discovery \<Rightarrow> event_frame list \<Rightarrow> stream_relay \<Rightarrow> stream_relay \<times> (executor_error + unit)" where
  "accept_frames codec ctx discovery [] relay = (relay, Inr ())"
| "accept_frames codec ctx discovery (frame # frames) relay =
     (if is_terminal_response_event (ef_event_type frame) then accept_frames codec ctx discovery frames relay
      else if withholds (sr_deferred relay) frame then
        (case push_deferred codec frame (sr_limits relay) (sr_deferred relay) of
           (d, Inl err) \<Rightarrow> (relay\<lparr>sr_deferred := d\<rparr>, Inl err)
         | (d, Inr _) \<Rightarrow> accept_frames codec ctx discovery frames (relay\<lparr>sr_deferred := d\<rparr>))
      else
        (case emit_upstream codec ctx frame relay of
           (relay', Inl err) \<Rightarrow> (relay', Inl err)
         | (relay', Inr presented) \<Rightarrow>
             if presented \<and> ef_event_type frame = EvResponseInProgress then
               (case discovery relay' of
                  (relay'', Inl err) \<Rightarrow> (relay'', Inl err)
                | (relay'', Inr _) \<Rightarrow> accept_frames codec ctx discovery frames relay'')
             else accept_frames codec ctx discovery frames relay'))"

definition accept ::
    "event_codec \<Rightarrow> relay_context \<Rightarrow> discovery \<Rightarrow> translation \<Rightarrow> stream_relay \<Rightarrow> (stream_relay \<times> (executor_error + unit)) option" where
  "accept codec ctx discovery tr relay =
     (if \<not> is_live relay then Some (relay, Inr ())
      else
        (case move_window (tr_defer_from_output_index tr) (sr_deferred relay) of
           (d, moved) \<Rightarrow>
             (case accept_frames codec ctx discovery (tr_frames tr) (relay\<lparr>sr_deferred := d\<rparr>) of
                (relay', Inl err) \<Rightarrow> Some (relay', Inl err)
              | (relay', Inr _) \<Rightarrow>
                  (case moved of
                     None \<Rightarrow> Some (relay', Inr ())
                   | Some rel \<Rightarrow> release_deferred codec rel ctx relay'))))"

section \<open>Multi-agent presentation\<close>

definition attribution :: "agent_identity \<Rightarrow> agent_attribution" where
  "attribution agent = \<lparr>agent_name = agent\<rparr>"

text \<open>Projects a round's local index onto its public index; \<open>output_item.added\<close> reserves it.\<close>

definition project_agent_frame ::
    "agent_round_id \<Rightarrow> event_frame \<Rightarrow> source_projection \<Rightarrow> source_projection \<times> (executor_error + event_frame)" where
  "project_agent_frame source frame p =
     (let w = ef_wire frame;
          attributed = (\<lambda>w. frame\<lparr>ef_wire := w\<lparr>we_agent := Some (attribution (ar_agent source))\<rparr>\<rparr>)
      in case we_output_index w of
        None \<Rightarrow> (p, Inr (attributed w))
      | Some local_index \<Rightarrow>
          if ef_event_type frame = EvOutputItemAdded then
            (case map_of (we_rest w) ''item'' of
               Some (JObject item) \<Rightarrow>
                 (case map_of item ''id'' of
                    Some (JString iid) \<Rightarrow>
                      (case projection_added source local_index iid p of
                         (p', Inl err) \<Rightarrow> (p', Inl err)
                       | (p', Inr n) \<Rightarrow>
                           (p', Inr (attributed (w\<lparr>we_output_index := Some n,
                              we_rest := AList.update ''item''
                                (JObject (AList.update ''agent'' (attribution_json (attribution (ar_agent source))) item))
                                (we_rest w)\<rparr>))))
                  | _ \<Rightarrow> (p, Inl (StreamError ''missing translated item ID'')))
             | _ \<Rightarrow> (p, Inl (StreamError ''missing translated output item'')))
          else
            (case projection_index source local_index p of
               Inl err \<Rightarrow> (p, Inl err)
             | Inr n \<Rightarrow> (p, Inr (attributed (w\<lparr>we_output_index := Some n\<rparr>)))))"

definition accept_agent_frame ::
    "event_codec \<Rightarrow> agent_round_id \<Rightarrow> event_frame \<Rightarrow> stream_relay \<Rightarrow> stream_relay \<times> (executor_error + unit)" where
  "accept_agent_frame codec source frame relay =
     (case project_agent_frame source frame (sr_projection relay) of
        (p, Inl err) \<Rightarrow> (relay\<lparr>sr_projection := p\<rparr>, Inl err)
      | (p, Inr frame') \<Rightarrow>
          (case emit_local codec frame' (relay\<lparr>sr_projection := p\<rparr>) of
             (relay', Inl err) \<Rightarrow> (relay', Inl err)
           | (relay', Inr _) \<Rightarrow> (relay', Inr ())))"

fun output_agent :: "output_item \<Rightarrow> agent_attribution option" where
  "output_agent (OiMultiAgentCall i) = mac_agent i"
| "output_agent (OiMultiAgentCallOutput i) = mao_agent i"
| "output_agent (OiAgentMessage i) = am_agent i"
| "output_agent (OiMessage i) = om_agent i"
| "output_agent (OiFunctionCall i) = ftc_agent i"
| "output_agent (OiCodeInterpreterCall i) = cic_agent i"
| "output_agent (OiToolSearchCall i) = tsc_agent i"
| "output_agent (OiToolSearchOutput i) = tso_agent i"
| "output_agent (OiCustomToolCall i) = ctc_agent i"
| "output_agent (OiShellCall i) = sc_agent i"
| "output_agent (OiWebSearchCall i) = wsc_agent i"
| "output_agent (OiMcpCall i) = mc_agent i"
| "output_agent (OiMcpListTools i) = mls_agent i"
| "output_agent (OiReasoning i) = ro_agent i"
| "output_agent (OiCompaction i) = cmp_agent i"
| "output_agent OiUnknown = None"

definition attributed_frame :: "output_item \<Rightarrow> executor_error + event_frame \<Rightarrow> executor_error + event_frame" where
  "attributed_frame item r =
     map_sum id (\<lambda>frame. frame\<lparr>ef_wire := (ef_wire frame)\<lparr>we_agent := output_agent item\<rparr>\<rparr>) r"

definition emit_agent_item ::
    "event_codec \<Rightarrow> output_item \<Rightarrow> stream_relay \<Rightarrow> stream_relay \<times> (executor_error + nat)" where
  "emit_agent_item codec item relay =
     (case (case (output_agent item, output_id item) of
              (Some agent, Some iid) \<Rightarrow> projection_take_item (agent_name agent) iid (sr_projection relay)
            | _ \<Rightarrow> (sr_projection relay, None)) of
        (p, Some n) \<Rightarrow>
          let relay = relay\<lparr>sr_projection := p\<rparr> in
          if is_live relay then
            (case emit_locals codec [\<lambda>_. attributed_frame item (item_done_frame codec item n)] relay of
               (relay', Inl err) \<Rightarrow> (relay', Inl err)
             | (relay', Inr _) \<Rightarrow> (relay', Inr n))
          else (relay, Inr n)
      | (p, None) \<Rightarrow>
          (case projection_reserve p of
             (p', Inl err) \<Rightarrow> (relay\<lparr>sr_projection := p'\<rparr>, Inl err)
           | (p', Inr n) \<Rightarrow>
               let relay = relay\<lparr>sr_projection := p'\<rparr> in
               if is_live relay then
                 (case emit_locals codec (map (\<lambda>r _. attributed_frame item r) (materialized_item_frames codec item n)) relay of
                    (relay', Inl err) \<Rightarrow> (relay', Inl err)
                  | (relay', Inr _) \<Rightarrow> (relay', Inr n))
               else (relay, Inr n)))"

definition finish_agent_source :: "agent_round_id \<Rightarrow> stream_relay \<Rightarrow> stream_relay" where
  "finish_agent_source source relay =
     relay\<lparr>sr_projection := projection_finish_source source (sr_projection relay)\<rparr>"

end
