(* ===== verification/Relay_Safety.thy ===== *)
theory Relay_Safety
  imports Stream_Relay "HOL-Library.Multiset"
begin

text \<open>
  What the delivery of one response guarantees: the messages of a sink are numbered without gaps,
  bounded, and announce the response at most once; a created receipt is evidence of an enqueued
  message; the buffer of withheld frames is sorted, within its limits and loses nothing; releasing it
  terminates; public output indexes are never given twice.
\<close>

section \<open>Sinks\<close>

text \<open>A frame is consistent when its type is the one its wire name stands for; normalization and every
  synthesized frame give consistent frames.\<close>

definition frame_consistent :: "event_frame \<Rightarrow> bool" where
  "frame_consistent frame \<longleftrightarrow>
     ef_event_type frame = (case we_type (ef_wire frame) of Some name \<Rightarrow> event_type_of name | None \<Rightarrow> EvOther)"

definition announces :: "string \<Rightarrow> stream_frame \<Rightarrow> bool" where
  "announces name m \<longleftrightarrow> starts_with (sf_content m) (''event: '' @ name @ [newline])"

definition announced :: "string \<Rightarrow> stream_frame list \<Rightarrow> nat" where
  "announced name sent = length (filter (announces name) sent)"

definition log_ok :: "presentation \<Rightarrow> stream_frame list \<Rightarrow> nat \<Rightarrow> bool" where
  "log_ok p sent max_bytes \<longleftrightarrow>
     map sf_sequence_number sent = map (\<lambda>i. min i USIZE_MAX) [0..<length sent] \<and>
     ps_next_sequence_number p = min (length sent) USIZE_MAX \<and>
     (\<forall>m \<in> set sent. length (sf_content m) \<le> max_bytes) \<and>
     announced ''response.created'' sent = of_bool (ps_emitted_created p) \<and>
     announced ''response.in_progress'' sent = of_bool (ps_emitted_in_progress p)"

lemma event_type_of_created: "event_type_of name = EvResponseCreated \<longleftrightarrow> name = ''response.created''"
proof
  assume "event_type_of name = EvResponseCreated"
  then have "(name, EvResponseCreated) \<in> set event_types"
    by (auto simp: event_type_of_def dest: map_of_SomeD split: option.splits)
  then show "name = ''response.created''" using event_types_name by fastforce
qed (simp add: event_name_parses)

lemma event_type_of_in_progress: "event_type_of name = EvResponseInProgress \<longleftrightarrow> name = ''response.in_progress''"
proof
  assume "event_type_of name = EvResponseInProgress"
  then have "(name, EvResponseInProgress) \<in> set event_types"
    by (auto simp: event_type_of_def dest: map_of_SomeD split: option.splits)
  then show "name = ''response.in_progress''" using event_types_name by fastforce
qed (simp add: event_name_parses)

lemma process_event_stamped:
  assumes "process_event p frame offset = (p', Some stamped)"
  shows "ef_event_type stamped = ef_event_type frame" and "we_type (ef_wire stamped) = we_type (ef_wire frame)"
    and "we_sequence_number (ef_wire stamped) = Some (ps_next_sequence_number p)"
    and "ps_next_sequence_number p' = saturating_add (ps_next_sequence_number p) 1"
    and "ps_emitted_created p' \<longleftrightarrow> ps_emitted_created p \<or> ef_event_type frame = EvResponseCreated"
    and "ps_emitted_in_progress p' \<longleftrightarrow> ps_emitted_in_progress p \<or> ef_event_type frame = EvResponseInProgress"
    and "ef_event_type frame = EvResponseCreated \<Longrightarrow> \<not> ps_emitted_created p"
    and "ef_event_type frame = EvResponseInProgress \<Longrightarrow> \<not> ps_emitted_in_progress p"
  using assms
  by (auto simp: process_event_def should_emit_lifecycle_def stamp_event_def take_sequence_number_def rebase_output_index_def
    split: if_splits prod.splits bool.splits)

lemma serialized_content:
  assumes "checked_stream_event_limited codec frame max_bytes = Inr content"
  obtains body where "content = (case wire_event_name (ef_wire frame) of None \<Rightarrow> [] | Some name \<Rightarrow> ''event: '' @ name @ [newline]) @
      ''data: '' @ body" and "length content \<le> max_bytes"
  using assms by (auto simp: checked_stream_event_limited_def serialize_sse_frame_def split: if_splits)

lemma separator_unique:
  fixes sep :: char
  assumes "sep \<notin> set a" and "sep \<notin> set b"
  shows "a @ sep # s = b @ sep # t \<longleftrightarrow> a = b \<and> s = t"
proof
  assume eq: "a @ sep # s = b @ sep # t"
  have "split_once sep (a @ sep # s) = Some (a, s)" and b: "split_once sep (b @ sep # t) = Some (b, t)"
    using assms by (simp_all add: split_once_Some)
  then have "split_once sep (b @ sep # t) = Some (a, s)" by (simp only: eq)
  from this [symmetric] b have "Some (a, s) = Some (b, t)" by (rule trans)
  then show "a = b \<and> s = t" by simp
qed simp

lemma announces_content:
  assumes "checked_stream_event_limited codec frame max_bytes = Inr content" and "newline \<notin> set name"
    and "sf_content m = content"
  shows "announces name m \<longleftrightarrow> wire_event_name (ef_wire frame) = Some name"
proof -
  from assms(1) obtain body where c: "content = (case wire_event_name (ef_wire frame) of None \<Rightarrow> []
      | Some n \<Rightarrow> ''event: '' @ n @ [newline]) @ ''data: '' @ body" by (rule serialized_content)
  show ?thesis
  proof (cases "wire_event_name (ef_wire frame)")
    case None
    then show ?thesis by (auto simp: announces_def assms(3) c starts_with_iff)
  next
    case (Some n)
    then have n: "newline \<notin> set n" by (auto simp: wire_event_name_def split: option.splits if_splits)
    have "announces name m \<longleftrightarrow> (\<exists>t. n @ newline # ''data: '' @ body = name @ newline # t)"
      by (simp add: announces_def assms(3) c Some starts_with_iff)
    then show ?thesis using separator_unique [OF n assms(2)] Some by simp
  qed
qed

lemma log_ok_snoc:
  assumes ok: "log_ok p sent max_bytes" and "frame_consistent frame"
    and p: "process_event p frame offset = (p', Some stamped)"
    and c: "checked_stream_event_limited codec stamped max_bytes = Inr content"
    and m: "sf_content m = content" "Some (sf_sequence_number m) = we_sequence_number (ef_wire stamped)"
  shows "log_ok p' (sent @ [m]) max_bytes"
proof -
  note s = process_event_stamped [OF p]
  have valid: "wire_event_name (ef_wire stamped) = Some name \<longleftrightarrow> we_type (ef_wire frame) = Some name"
    if "name \<in> {''response.created'', ''response.in_progress''}" for name
    using that s(2) by (auto simp: wire_event_name_def newline_def carriage_return_def split: if_splits option.splits)
  have created: "announces ''response.created'' m \<longleftrightarrow> ef_event_type frame = EvResponseCreated"
    using announces_content [OF c _ m(1), of "''response.created''"] valid assms(2)
    by (auto simp: newline_def frame_consistent_def event_type_of_created split: option.splits)
  have in_progress: "announces ''response.in_progress'' m \<longleftrightarrow> ef_event_type frame = EvResponseInProgress"
    using announces_content [OF c _ m(1), of "''response.in_progress''"] valid assms(2)
    by (auto simp: newline_def frame_consistent_def event_type_of_in_progress split: option.splits)
  have "length content \<le> max_bytes" using c by (rule serialized_content)
  then show ?thesis using ok m s created in_progress
    by (auto simp: log_ok_def announced_def saturating_add_def)
qed

locale event_sink =
  fixes emit :: "event_frame \<Rightarrow> nat \<Rightarrow> 's \<Rightarrow> 's \<times> (executor_error + bool)"
    and codec :: event_codec
    and state :: "'s \<Rightarrow> presentation"
    and sent :: "'s \<Rightarrow> stream_frame list"
    and limit :: "'s \<Rightarrow> nat"
  assumes emit_rejected: "emit frame offset s = (s', r) \<Longrightarrow> r \<noteq> Inr True \<Longrightarrow>
      state s' = state s \<and> sent s' = sent s \<and> limit s' = limit s"
    and emit_accepted: "emit frame offset s = (s', Inr True) \<Longrightarrow>
      \<exists>stamped content n. process_event (state s) frame offset = (state s', Some stamped) \<and>
        checked_stream_event_limited codec stamped (limit s) = Inr content \<and>
        we_sequence_number (ef_wire stamped) = Some n \<and>
        sent s' = sent s @ [\<lparr>sf_content = content, sf_sequence_number = n, sf_text = (ef_event_type stamped = EvOutputTextDelta)\<rparr>] \<and>
        limit s' = limit s"
begin

definition sink_ok :: "'s \<Rightarrow> bool" where
  "sink_ok s \<longleftrightarrow> log_ok (state s) (sent s) (limit s)"

lemma emit_ok:
  assumes "sink_ok s" and "frame_consistent frame" and "emit frame offset s = (s', r)"
  shows "sink_ok s'"
proof (cases "r = Inr True")
  case True
  then obtain stamped content n where *: "process_event (state s) frame offset = (state s', Some stamped)"
    "checked_stream_event_limited codec stamped (limit s) = Inr content" "we_sequence_number (ef_wire stamped) = Some n"
    "sent s' = sent s @ [\<lparr>sf_content = content, sf_sequence_number = n, sf_text = (ef_event_type stamped = EvOutputTextDelta)\<rparr>]"
    "limit s' = limit s"
    using emit_accepted assms(3) by blast
  have "log_ok (state s) (sent s) (limit s)" using assms(1) by (simp add: sink_ok_def)
  from log_ok_snoc [OF this assms(2) *(1,2)] show ?thesis using *(3-5) by (simp add: sink_ok_def)
next
  case False
  then show ?thesis using emit_rejected [OF assms(3)] assms(1) by (simp add: sink_ok_def)
qed

lemma emit_prefix: "emit frame offset s = (s', r) \<Longrightarrow> \<exists>new. sent s' = sent s @ new \<and> length new = of_bool (r = Inr True)"
  by (cases "r = Inr True") (auto dest: emit_rejected emit_accepted)

end

interpretation client: event_sink "client_emit codec max_bytes" codec fst "\<lambda>s. ch_sent (snd s)" "\<lambda>_. max_bytes"
  for codec max_bytes
proof unfold_locales
  fix frame offset s s' r
  assume "client_emit codec max_bytes frame offset s = (s', r)" and "r \<noteq> Inr True"
  then show "fst s' = fst s \<and> ch_sent (snd s') = ch_sent (snd s) \<and> max_bytes = max_bytes"
    by (auto simp: client_emit_def emit_sse_frame_limited_def channel_send_def split: prod.splits option.splits sum.splits if_splits)
next
  fix frame offset s s'
  assume *: "client_emit codec max_bytes frame offset s = (s', Inr True)"
  then show "\<exists>stamped content n. process_event (fst s) frame offset = (fst s', Some stamped) \<and>
      checked_stream_event_limited codec stamped max_bytes = Inr content \<and> we_sequence_number (ef_wire stamped) = Some n \<and>
      ch_sent (snd s') = ch_sent (snd s) @ [\<lparr>sf_content = content, sf_sequence_number = n,
        sf_text = (ef_event_type stamped = EvOutputTextDelta)\<rparr>] \<and> max_bytes = max_bytes"
    by (auto simp: client_emit_def emit_sse_frame_limited_def channel_send_def split: prod.splits option.splits sum.splits if_splits)
qed

interpretation response: event_sink "emit_frame codec" codec rs_state "\<lambda>s. ch_sent (rs_sender s)" rs_max_bytes
  for codec
proof unfold_locales
  fix frame offset s s' r
  assume "emit_frame codec frame offset s = (s', r)" and "r \<noteq> Inr True"
  then show "rs_state s' = rs_state s \<and> ch_sent (rs_sender s') = ch_sent (rs_sender s) \<and> rs_max_bytes s' = rs_max_bytes s"
    by (auto simp: emit_frame_def Let_def split: prod.splits option.splits sum.splits if_splits)
next
  fix frame offset s s'
  assume *: "emit_frame codec frame offset s = (s', Inr True)"
  then obtain stamped p' where p: "process_event (rs_state s) frame offset = (p', Some stamped)"
    by (auto simp: emit_frame_def split: prod.splits option.splits if_splits)
  with * process_event_stamped(3) [OF p] show "\<exists>stamped content n.
      process_event (rs_state s) frame offset = (rs_state s', Some stamped) \<and>
      checked_stream_event_limited codec stamped (rs_max_bytes s) = Inr content \<and> we_sequence_number (ef_wire stamped) = Some n \<and>
      ch_sent (rs_sender s') = ch_sent (rs_sender s) @ [\<lparr>sf_content = content, sf_sequence_number = n,
        sf_text = (ef_event_type stamped = EvOutputTextDelta)\<rparr>] \<and> rs_max_bytes s' = rs_max_bytes s"
    by (auto simp: emit_frame_def Let_def split: prod.splits option.splits sum.splits if_splits)
qed

section \<open>The buffer of withheld frames\<close>

lemma key_le_trans: "key_le a b \<Longrightarrow> key_le b c \<Longrightarrow> key_le a c"
  by (auto simp: key_le_def)

lemma key_le_total: "\<not> key_le a b \<Longrightarrow> key_le b a"
  by (auto simp: key_le_def)

definition in_order :: "deferred_frame list \<Rightarrow> bool" where
  "in_order qs \<longleftrightarrow> sorted_wrt (\<lambda>a b. key_le (release_key (df_frame a)) (release_key (df_frame b))) qs"

definition deferred_ok :: "event_codec \<Rightarrow> relay_limits \<Rightarrow> deferred_frames \<Rightarrow> bool" where
  "deferred_ok codec limits d \<longleftrightarrow>
     in_order (dq_frames d) \<and> dq_bytes d = sum_list (map df_bytes (dq_frames d)) \<and>
     dq_bytes d \<le> rl_deferred_bytes limits \<and> length (dq_frames d) \<le> rl_deferred_frames limits \<and>
     (\<forall>q \<in> set (dq_frames d). frame_consistent (df_frame q) \<and>
        (\<exists>content. serialize_wire codec (ef_wire (df_frame q)) = Inr content \<and> df_bytes q = length content))"

lemma no_deferred_ok: "deferred_ok codec limits no_deferred"
  by (simp add: deferred_ok_def no_deferred_def in_order_def)

lemma takeWhile_insert_in_order:
  assumes "in_order qs"
  shows "in_order (takeWhile (\<lambda>q. key_le (release_key (df_frame q)) (release_key (df_frame x))) qs @ x #
    dropWhile (\<lambda>q. key_le (release_key (df_frame q)) (release_key (df_frame x))) qs)"
  using assms
proof (induction qs)
  case (Cons q qs)
  show ?case
  proof (cases "key_le (release_key (df_frame q)) (release_key (df_frame x))")
    case True
    then show ?thesis using Cons by (auto simp: in_order_def dest: set_takeWhileD set_dropWhileD)
  next
    case False
    then have "key_le (release_key (df_frame x)) (release_key (df_frame q))" by (rule key_le_total)
    then show ?thesis using Cons.prems False by (auto simp: in_order_def intro: key_le_trans)
  qed
qed (simp add: in_order_def)

lemma push_deferred_cases:
  assumes "push_deferred codec frame limits d = (d', Inr u)" and "rl_deferred_bytes limits < USIZE_MAX"
  obtains content before after where "serialize_wire codec (ef_wire frame) = Inr content"
    and "dq_frames d = before @ after" and "dq_frames d' = before @ \<lparr>df_frame = frame, df_bytes = length content\<rparr> # after"
    and "before = takeWhile (\<lambda>q. key_le (release_key (df_frame q)) (release_key frame)) (dq_frames d)"
    and "dq_bytes d' = dq_bytes d + length content" and "dq_bytes d' \<le> rl_deferred_bytes limits"
    and "length (dq_frames d) < rl_deferred_frames limits" and "dq_window d' = dq_window d"
proof -
  let ?before = "takeWhile (\<lambda>q. key_le (release_key (df_frame q)) (release_key frame)) (dq_frames d)"
  from assms obtain content where content: "serialize_wire codec (ef_wire frame) = Inr content"
    and small: "length (dq_frames d) < rl_deferred_frames limits"
    and bytes: "saturating_add (dq_bytes d) (length content) \<le> rl_deferred_bytes limits"
    and d': "d' = d\<lparr>dq_frames := ?before @ [\<lparr>df_frame = frame, df_bytes = length content\<rparr>] @ drop (length ?before) (dq_frames d),
        dq_bytes := saturating_add (dq_bytes d) (length content)\<rparr>"
    by (auto simp: push_deferred_def Let_def split: if_splits sum.splits)
  have "saturating_add (dq_bytes d) (length content) = dq_bytes d + length content"
    using bytes assms(2) by (auto simp: saturating_add_def)
  moreover have "?before @ drop (length ?before) (dq_frames d) = dq_frames d"
    by (metis append_take_drop_id takeWhile_eq_take)
  ultimately show ?thesis using that [of content ?before "drop (length ?before) (dq_frames d)"] content small bytes d' by simp
qed

lemma push_deferred_ok:
  assumes "deferred_ok codec limits d" and "frame_consistent frame" and "rl_deferred_bytes limits < USIZE_MAX"
    and "push_deferred codec frame limits d = (d', Inr u)"
  shows "deferred_ok codec limits d'"
proof -
  from assms(4,3) obtain content before after where *: "serialize_wire codec (ef_wire frame) = Inr content"
    "dq_frames d = before @ after" "dq_frames d' = before @ \<lparr>df_frame = frame, df_bytes = length content\<rparr> # after"
    "before = takeWhile (\<lambda>q. key_le (release_key (df_frame q)) (release_key frame)) (dq_frames d)"
    "dq_bytes d' = dq_bytes d + length content" "dq_bytes d' \<le> rl_deferred_bytes limits"
    "length (dq_frames d) < rl_deferred_frames limits" "dq_window d' = dq_window d"
    by (rule push_deferred_cases)
  have "after = dropWhile (\<lambda>q. key_le (release_key (df_frame q)) (release_key frame)) (dq_frames d)"
    using *(2,4) by (metis append_same_eq same_append_eq takeWhile_dropWhile_id)
  then have "in_order (dq_frames d')"
    using takeWhile_insert_in_order [of "dq_frames d" "\<lparr>df_frame = frame, df_bytes = length content\<rparr>"] assms(1) *(3,4)
    by (simp add: deferred_ok_def)
  moreover have "set (dq_frames d') = insert \<lparr>df_frame = frame, df_bytes = length content\<rparr> (set (dq_frames d))"
    unfolding *(2,3) by auto
  moreover have "sum_list (map df_bytes (dq_frames d')) = sum_list (map df_bytes (dq_frames d)) + length content"
    and "length (dq_frames d') = Suc (length (dq_frames d))" unfolding *(2,3) by simp_all
  ultimately show ?thesis using assms(1,2) *(1,5-7) by (simp add: deferred_ok_def)
qed

lemma push_deferred_failed: "push_deferred codec frame limits d = (d', Inl err) \<Longrightarrow> d' = d"
  by (auto simp: push_deferred_def Let_def split: if_splits sum.splits)

lemma pop_front_ok:
  assumes "deferred_ok codec limits d"
  shows "deferred_ok codec limits (pop_front d)"
  using assms by (cases "dq_frames d") (auto simp: deferred_ok_def pop_front_def in_order_def saturating_sub_def)

text \<open>A release admits a prefix of the release order.\<close>

lemma admits_prefix:
  assumes "key_le (release_key f) (release_key g)" and "release_admits rel g"
  shows "release_admits rel f"
  using assms by (cases rel) (auto simp: key_le_def release_key_def split: option.splits)

lemma admitted_takeWhile:
  assumes "in_order qs"
  shows "takeWhile (\<lambda>q. release_admits rel (df_frame q)) qs = filter (\<lambda>q. release_admits rel (df_frame q)) qs"
    and "dropWhile (\<lambda>q. release_admits rel (df_frame q)) qs = filter (\<lambda>q. \<not> release_admits rel (df_frame q)) qs"
proof -
  have "takeWhile (\<lambda>q. release_admits rel (df_frame q)) qs = filter (\<lambda>q. release_admits rel (df_frame q)) qs \<and>
    dropWhile (\<lambda>q. release_admits rel (df_frame q)) qs = filter (\<lambda>q. \<not> release_admits rel (df_frame q)) qs"
    using assms
  proof (induction qs)
    case (Cons q qs)
    then show ?case
    proof (cases "release_admits rel (df_frame q)")
      case False
      then have "\<forall>r \<in> set qs. \<not> release_admits rel (df_frame r)"
        using Cons.prems admits_prefix by (auto simp: in_order_def)
      then show ?thesis using False by (auto simp: filter_empty_conv filter_id_conv)
    qed (auto simp: in_order_def)
  qed simp
  then show "takeWhile (\<lambda>q. release_admits rel (df_frame q)) qs = filter (\<lambda>q. release_admits rel (df_frame q)) qs"
    and "dropWhile (\<lambda>q. release_admits rel (df_frame q)) qs = filter (\<lambda>q. \<not> release_admits rel (df_frame q)) qs"
    by simp_all
qed

section \<open>Sending and releasing\<close>

lemma send_frame_keeps:
  assumes "send_frame codec frame offset relay = (relay', r)"
  shows "sr_deferred relay' = sr_deferred relay" and "sr_projection relay' = sr_projection relay"
    and "sr_limits relay' = sr_limits relay" and "sr_output_offset relay' = sr_output_offset relay"
  using assms by (auto simp: send_frame_def Let_def split: relay_sink.splits prod.splits sum.splits)

lemma send_frame_deferred:
  "send_frame codec frame offset (relay\<lparr>sr_deferred := d\<rparr>) =
     (case send_frame codec frame offset relay of (relay', r) \<Rightarrow> (relay'\<lparr>sr_deferred := d\<rparr>, r))"
  by (cases "sr_sink relay") (simp_all add: send_frame_def Let_def split: prod.splits sum.splits)

lemma emit_upstream_keeps:
  assumes "emit_upstream codec ctx frame relay = (relay', r)"
  shows "sr_deferred relay' = sr_deferred relay" and "sr_projection relay' = sr_projection relay"
    and "sr_limits relay' = sr_limits relay" and "sr_output_offset relay' = sr_output_offset relay"
  using send_frame_keeps [OF assms [unfolded emit_upstream_def]] by simp_all

lemma emit_upstream_deferred:
  "emit_upstream codec ctx frame (relay\<lparr>sr_deferred := d\<rparr>) =
     (case emit_upstream codec ctx frame relay of (relay', r) \<Rightarrow> (relay'\<lparr>sr_deferred := d\<rparr>, r))"
  by (simp add: emit_upstream_def send_frame_deferred)

fun emit_upstreams :: "event_codec \<Rightarrow> relay_context \<Rightarrow> event_frame list \<Rightarrow> stream_relay \<Rightarrow> stream_relay \<times> (executor_error + unit)" where
  "emit_upstreams codec ctx [] relay = (relay, Inr ())"
| "emit_upstreams codec ctx (frame # frames) relay =
     (case emit_upstream codec ctx frame relay of
        (relay', Inl err) \<Rightarrow> (relay', Inl err)
      | (relay', Inr _) \<Rightarrow> emit_upstreams codec ctx frames relay')"

lemma emit_upstreams_deferred:
  "emit_upstreams codec ctx fs (relay\<lparr>sr_deferred := d\<rparr>) =
     (case emit_upstreams codec ctx fs relay of (relay', x) \<Rightarrow> (relay'\<lparr>sr_deferred := d\<rparr>, x))"
  by (induction fs arbitrary: relay) (auto simp: emit_upstream_deferred split: prod.splits sum.splits)

lemma emit_upstreams_keeps: "emit_upstreams codec ctx fs relay = (relay', r) \<Longrightarrow> sr_deferred relay' = sr_deferred relay"
  by (induction fs arbitrary: relay) (auto dest: emit_upstream_keeps(1) split: prod.splits sum.splits)

text \<open>The loop, as a recursion over the buffer.\<close>

fun release_run ::
    "event_codec \<Rightarrow> release \<Rightarrow> relay_context \<Rightarrow> deferred_frame list \<Rightarrow> stream_relay \<Rightarrow> stream_relay \<times> (executor_error + unit)" where
  "release_run codec rel ctx [] relay = (relay, Inr ())"
| "release_run codec rel ctx (q # qs) relay =
     (if release_admits rel (df_frame q) then
        (case emit_upstream codec ctx (positioned rel (df_frame q)) relay of
           (relay', Inl err) \<Rightarrow> (relay', Inl err)
         | (relay', Inr _) \<Rightarrow> release_run codec rel ctx qs (relay'\<lparr>sr_deferred := pop_front (sr_deferred relay')\<rparr>))
      else (relay, Inr ()))"

lemma release_deferred_run:
  "dq_frames (sr_deferred relay) = qs \<Longrightarrow> release_deferred codec rel ctx relay = Some (release_run codec rel ctx qs relay)"
proof (induction qs arbitrary: relay)
  case Nil
  then show ?case by (subst release_deferred.simps) (simp add: deferred_next_def)
next
  case (Cons q qs)
  show ?case
  proof (cases "release_admits rel (df_frame q)")
    case True
    obtain relay' r where e: "emit_upstream codec ctx (positioned rel (df_frame q)) relay = (relay', r)" by fastforce
    have "dq_frames (pop_front (sr_deferred relay')) = qs"
      using emit_upstream_keeps(1) [OF e] Cons.prems by (simp add: pop_front_def)
    then have "release_deferred codec rel ctx (relay'\<lparr>sr_deferred := pop_front (sr_deferred relay')\<rparr>) =
        Some (release_run codec rel ctx qs (relay'\<lparr>sr_deferred := pop_front (sr_deferred relay')\<rparr>))"
      by (intro Cons.IH) simp
    then show ?thesis using True e Cons.prems
      by (subst release_deferred.simps) (auto simp: deferred_next_def split: sum.splits)
  next
    case False
    then show ?thesis using Cons.prems by (subst release_deferred.simps) (simp add: deferred_next_def)
  qed
qed

lemma release_run_emits:
  assumes "release_run codec rel ctx qs relay = (relay', Inr u)" and "dq_frames (sr_deferred relay) = qs"
  shows "emit_upstreams codec ctx (map (\<lambda>q. positioned rel (df_frame q)) (takeWhile (\<lambda>q. release_admits rel (df_frame q)) qs)) relay =
      (relay'\<lparr>sr_deferred := sr_deferred relay\<rparr>, Inr ())"
    and "dq_frames (sr_deferred relay') = dropWhile (\<lambda>q. release_admits rel (df_frame q)) qs"
  using assms
proof (induction qs arbitrary: relay)
  case (Cons q qs)
  {
    case 1
    show ?case
    proof (cases "release_admits rel (df_frame q)")
      case True
      with 1 obtain relay1 b where e: "emit_upstream codec ctx (positioned rel (df_frame q)) relay = (relay1, Inr b)"
        and run: "release_run codec rel ctx qs (relay1\<lparr>sr_deferred := pop_front (sr_deferred relay1)\<rparr>) = (relay', Inr u)"
        by (auto split: prod.splits sum.splits)
      let ?relay2 = "relay1\<lparr>sr_deferred := pop_front (sr_deferred relay1)\<rparr>"
      let ?rest = "map (\<lambda>q. positioned rel (df_frame q)) (takeWhile (\<lambda>q. release_admits rel (df_frame q)) qs)"
      have q: "dq_frames (sr_deferred ?relay2) = qs"
        using emit_upstream_keeps(1) [OF e] 1(2) by (simp add: pop_front_def)
      obtain r x where rx: "emit_upstreams codec ctx ?rest relay1 = (r, x)" by fastforce
      have "emit_upstreams codec ctx ?rest ?relay2 = (relay'\<lparr>sr_deferred := sr_deferred ?relay2\<rparr>, Inr ())"
        using Cons.IH(1) [OF run q] .
      then have same: "r\<lparr>sr_deferred := sr_deferred ?relay2\<rparr> = relay'\<lparr>sr_deferred := sr_deferred ?relay2\<rparr>" and "x = Inr ()"
        by (simp_all add: emit_upstreams_deferred rx)
      have "r = r\<lparr>sr_deferred := sr_deferred relay1\<rparr>" using emit_upstreams_keeps [OF rx] by (cases r) simp
      also have "\<dots> = relay'\<lparr>sr_deferred := sr_deferred relay1\<rparr>"
        using arg_cong [OF same, of "\<lambda>r. r\<lparr>sr_deferred := sr_deferred relay1\<rparr>"] by simp
      finally have "emit_upstreams codec ctx ?rest relay1 = (relay'\<lparr>sr_deferred := sr_deferred relay1\<rparr>, Inr ())"
        using rx \<open>x = Inr ()\<close> by simp
      then show ?thesis using True e emit_upstream_keeps(1) [OF e] by simp
    qed (use 1 in simp)
  next
    case 2
    show ?case
    proof (cases "release_admits rel (df_frame q)")
      case True
      with 2 obtain relay1 b where e: "emit_upstream codec ctx (positioned rel (df_frame q)) relay = (relay1, Inr b)"
        and run: "release_run codec rel ctx qs (relay1\<lparr>sr_deferred := pop_front (sr_deferred relay1)\<rparr>) = (relay', Inr u)"
        by (auto split: prod.splits sum.splits)
      have "dq_frames (sr_deferred (relay1\<lparr>sr_deferred := pop_front (sr_deferred relay1)\<rparr>)) = qs"
        using emit_upstream_keeps(1) [OF e] 2(2) by (simp add: pop_front_def)
      then show ?thesis using Cons.IH(2) [OF run] True by simp
    qed (use 2 in auto)
  }
qed simp_all

section \<open>Public output indexes\<close>

definition lookup2 :: "('k \<times> ('a \<times> 'b) list) list \<Rightarrow> 'k \<Rightarrow> 'a \<Rightarrow> 'b option" where
  "lookup2 m k a = map_of (entries_of k m) a"

text \<open>Every stored public index was reserved, and no two addresses share one.\<close>

definition unique_below :: "nat \<Rightarrow> ('k \<times> ('a \<times> nat) list) list \<Rightarrow> bool" where
  "unique_below next m \<longleftrightarrow>
     (\<forall>k a n. lookup2 m k a = Some n \<longrightarrow> n < next) \<and>
     (\<forall>k a j b n. lookup2 m k a = Some n \<longrightarrow> lookup2 m j b = Some n \<longrightarrow> k = j \<and> a = b)"

definition projection_ok :: "source_projection \<Rightarrow> bool" where
  "projection_ok p \<longleftrightarrow> unique_below (sp_next_index p) (sp_indexes p) \<and> unique_below (sp_next_index p) (sp_items p)"

lemma lookup2_update:
  "lookup2 (AList.update k (AList.update a n (entries_of k m)) m) j b =
     (if j = k \<and> b = a then Some n else lookup2 m j b)"
  by (auto simp: lookup2_def entries_of_def update_conv' split: option.splits)

lemma lookup2_delete: "lookup2 (AList.delete k m) j b = (if j = k then None else lookup2 m j b)"
  by (auto simp: lookup2_def entries_of_def delete_conv')

lemma lookup2_take:
  "lookup2 (AList.update k (AList.delete a (entries_of k m)) m) j b = (if j = k \<and> b = a then None else lookup2 m j b)"
  by (auto simp: lookup2_def entries_of_def update_conv' delete_conv' split: option.splits)

lemma unique_below_subset:
  assumes "unique_below next m" and "\<And>k a n. lookup2 m' k a = Some n \<Longrightarrow> lookup2 m k a = Some n"
  shows "unique_below next m'"
  unfolding unique_below_def using assms unfolding unique_below_def by blast

lemma unique_below_add:
  assumes "unique_below next m"
  shows "unique_below (Suc next) (AList.update k (AList.update a next (entries_of k m)) m)"
  using assms unfolding unique_below_def lookup2_update by (auto split: if_splits dest: less_SucI)

lemma unique_below_delete: "unique_below next m \<Longrightarrow> unique_below next (AList.delete k m)"
  by (erule unique_below_subset) (simp add: lookup2_delete split: if_splits)

lemma unique_below_take: "unique_below next m \<Longrightarrow> unique_below next (AList.update k (AList.delete a (entries_of k m)) m)"
  by (erule unique_below_subset) (simp add: lookup2_take split: if_splits)

lemma unique_below_Suc: "unique_below next m \<Longrightarrow> unique_below (Suc next) m"
  unfolding unique_below_def by (auto dest: less_SucI)

lemma projection_reserve_ok:
  assumes "projection_ok p" and "projection_reserve p = (p', r)"
  shows "projection_ok p'" and "r = Inr n \<Longrightarrow> n = sp_next_index p \<and> sp_next_index p' = Suc n"
  using assms by (auto simp: projection_reserve_def projection_ok_def unique_below_Suc split: option.splits)

lemma projection_added_ok:
  assumes "projection_ok p" and "projection_added source local_index iid p = (p', r)"
  shows "projection_ok p'"
    and "r = Inr n \<Longrightarrow> lookup2 (sp_indexes p') source local_index = Some n \<and> n = sp_next_index p \<and>
      (\<forall>s l. lookup2 (sp_indexes p) s l \<noteq> None \<longrightarrow> lookup2 (sp_indexes p') s l = lookup2 (sp_indexes p) s l)"
  using assms
  by (auto simp: projection_added_def projection_reserve_def projection_ok_def unique_below_add lookup2_update
    lookup2_def [symmetric] split: if_splits option.splits)

lemma projection_take_item_ok:
  assumes "projection_ok p" and "projection_take_item agent iid p = (p', r)"
  shows "projection_ok p'"
proof (cases "map_of (sp_items p) agent")
  case None
  then show ?thesis using assms by (simp add: projection_take_item_def)
next
  case (Some es)
  then have "entries_of agent (sp_items p) = es" by (simp add: entries_of_def)
  then have "unique_below (sp_next_index p) (AList.update agent (AList.delete iid es) (sp_items p))"
    using unique_below_take [of "sp_next_index p" "sp_items p" agent iid] assms(1) by (simp add: projection_ok_def)
  then show ?thesis using assms Some by (auto simp: projection_take_item_def projection_ok_def)
qed

lemma projection_finish_source_ok:
  assumes "projection_ok p"
  shows "projection_ok (projection_finish_source source p)"
  using assms by (simp add: projection_ok_def projection_finish_source_def unique_below_delete)

lemma project_agent_frame_ok:
  assumes "projection_ok p" and "project_agent_frame source frame p = (p', r)"
  shows "projection_ok p'"
  using assms by (auto simp: project_agent_frame_def Let_def dest: projection_added_ok(1)
    split: option.splits if_splits json.splits prod.splits sum.splits)

section \<open>Reachable relays\<close>

definition receipt_ok :: "response_sink \<Rightarrow> bool" where
  "receipt_ok sink \<longleftrightarrow>
     (case rs_created sink of
        None \<Rightarrow> \<not> ps_emitted_created (rs_state sink)
      | Some receipt \<Rightarrow> belongs_to receipt sink \<and>
          (\<exists>m \<in> set (ch_sent (rs_sender sink)). sf_sequence_number m = rc_sequence_number receipt \<and>
             announces ''response.created'' m))"

definition sink_log_ok :: "stream_relay \<Rightarrow> bool" where
  "sink_log_ok relay \<longleftrightarrow>
     (case sr_sink relay of
        SkClient sender \<Rightarrow> log_ok (sr_presentation relay) (ch_sent sender) (rl_event_bytes (sr_limits relay))
      | SkResponse sink \<Rightarrow> log_ok (rs_state sink) (ch_sent (rs_sender sink)) (rs_max_bytes sink) \<and> receipt_ok sink
      | _ \<Rightarrow> True)"

definition relay_ok :: "event_codec \<Rightarrow> stream_relay \<Rightarrow> bool" where
  "relay_ok codec relay \<longleftrightarrow>
     sink_log_ok relay \<and> deferred_ok codec (sr_limits relay) (sr_deferred relay) \<and> projection_ok (sr_projection relay) \<and>
     rl_deferred_bytes (sr_limits relay) < USIZE_MAX"

lemma emit_frame_accepted:
  assumes "emit_frame codec frame offset sink = (sink', Inr True)"
  obtains published stamped content n created where "process_event (rs_state sink) frame offset = (published, Some stamped)"
    and "checked_stream_event_limited codec stamped (rs_max_bytes sink) = Inr content"
    and "we_sequence_number (ef_wire stamped) = Some n"
    and "if ef_event_type stamped = EvResponseCreated then (\<exists>receipt. created = Some receipt \<and>
      receipt_of (rs_identity sink) stamped n = Inr receipt) else created = None"
    and "sink' = sink\<lparr>rs_sender := (rs_sender sink)\<lparr>ch_sent := ch_sent (rs_sender sink) @
         [\<lparr>sf_content = content, sf_sequence_number = n, sf_text = (ef_event_type stamped = EvOutputTextDelta)\<rparr>]\<rparr>,
       rs_state := published, rs_created := (case created of Some r \<Rightarrow> Some r | None \<Rightarrow> rs_created sink)\<rparr>"
proof -
  from assms obtain published stamped where p: "process_event (rs_state sink) frame offset = (published, Some stamped)"
    by (auto simp: emit_frame_def split: prod.splits option.splits if_splits)
  note s = process_event_stamped(3) [OF p]
  from assms p s obtain content where c: "checked_stream_event_limited codec stamped (rs_max_bytes sink) = Inr content"
    by (auto simp: emit_frame_def split: sum.splits if_splits)
  let ?created = "if ef_event_type stamped = EvResponseCreated
    then map_sum id Some (receipt_of (rs_identity sink) stamped (ps_next_sequence_number (rs_state sink))) else Inr None"
  from assms p s c obtain created where "?created = Inr created"
    and "sink' = sink\<lparr>rs_sender := (rs_sender sink)\<lparr>ch_sent := ch_sent (rs_sender sink) @
         [\<lparr>sf_content = content, sf_sequence_number = ps_next_sequence_number (rs_state sink),
           sf_text = (ef_event_type stamped = EvOutputTextDelta)\<rparr>]\<rparr>,
       rs_state := published, rs_created := (case created of Some r \<Rightarrow> Some r | None \<Rightarrow> rs_created sink)\<rparr>"
    by (cases ?created) (auto simp: emit_frame_def split: if_splits)
  moreover from this(1) have "if ef_event_type stamped = EvResponseCreated then (\<exists>receipt. created = Some receipt \<and>
      receipt_of (rs_identity sink) stamped (ps_next_sequence_number (rs_state sink)) = Inr receipt) else created = None"
    by (cases "receipt_of (rs_identity sink) stamped (ps_next_sequence_number (rs_state sink))") (auto split: if_splits)
  ultimately show ?thesis using that p c s by blast
qed

lemma receipt_of_source: "receipt_of identity frame n = Inr receipt \<Longrightarrow> rc_source receipt = identity \<and> rc_sequence_number receipt = n"
  by (auto simp: receipt_of_def Let_def split: option.splits json.splits if_splits)

lemma emit_frame_receipt:
  assumes "receipt_ok sink" and "frame_consistent frame" and "emit_frame codec frame offset sink = (sink', r)"
    and "log_ok (rs_state sink) (ch_sent (rs_sender sink)) (rs_max_bytes sink)"
  shows "receipt_ok sink'"
proof (cases "r = Inr True")
  case False
  then have "sink' = sink"
    using assms(3) by (auto simp: emit_frame_def Let_def split: prod.splits option.splits sum.splits if_splits)
  then show ?thesis using assms(1) by simp
next
  case True
  with assms(3) obtain published stamped content n created where
    p: "process_event (rs_state sink) frame offset = (published, Some stamped)"
    and c: "checked_stream_event_limited codec stamped (rs_max_bytes sink) = Inr content"
    and n: "we_sequence_number (ef_wire stamped) = Some n"
    and created: "if ef_event_type stamped = EvResponseCreated then (\<exists>receipt. created = Some receipt \<and>
      receipt_of (rs_identity sink) stamped n = Inr receipt) else created = None"
    and sink': "sink' = sink\<lparr>rs_sender := (rs_sender sink)\<lparr>ch_sent := ch_sent (rs_sender sink) @
         [\<lparr>sf_content = content, sf_sequence_number = n, sf_text = (ef_event_type stamped = EvOutputTextDelta)\<rparr>]\<rparr>,
       rs_state := published, rs_created := (case created of Some r \<Rightarrow> Some r | None \<Rightarrow> rs_created sink)\<rparr>"
    by (auto elim: emit_frame_accepted)
  note s = process_event_stamped [OF p]
  show ?thesis
  proof (cases "ef_event_type frame = EvResponseCreated")
    case True
    have "we_type (ef_wire stamped) = Some ''response.created''"
      using assms(2) [unfolded frame_consistent_def True, symmetric] s(2)
      by (auto simp: event_type_of_created split: option.splits)
    then have "wire_event_name (ef_wire stamped) = Some ''response.created''"
      by (simp add: wire_event_name_def newline_def carriage_return_def)
    then have "announces ''response.created'' \<lparr>sf_content = content, sf_sequence_number = n,
        sf_text = (ef_event_type stamped = EvOutputTextDelta)\<rparr>"
      using announces_content [OF c] by (simp add: newline_def)
    then show ?thesis using created s(1) True by (auto simp: sink' receipt_ok_def belongs_to_def dest: receipt_of_source)
  next
    case False
    then have "created = None" using created s(1) by simp
    then show ?thesis using assms(1) s(5) False by (auto simp: sink' receipt_ok_def belongs_to_def split: option.splits)
  qed
qed

lemma send_frame_ok:
  assumes "relay_ok codec relay" and "frame_consistent frame" and "send_frame codec frame offset relay = (relay', r)"
  shows "relay_ok codec relay'"
proof -
  have "sink_log_ok relay'"
  proof (cases "sr_sink relay")
    case (SkClient sender)
    then obtain p' sender' where "client_emit codec (rl_event_bytes (sr_limits relay)) frame offset (sr_presentation relay, sender) =
        ((p', sender'), r)" and "relay' = relay\<lparr>sr_sink := SkClient sender', sr_presentation := p'\<rparr>"
      using assms(3) by (auto simp: send_frame_def split: prod.splits)
    then show ?thesis using client.emit_ok assms(1,2) SkClient
      by (fastforce simp: client.sink_ok_def sink_log_ok_def relay_ok_def)
  next
    case (SkResponse sink)
    then obtain sink' where e: "emit_frame codec frame offset sink = (sink', r)" and "relay' = relay\<lparr>sr_sink := SkResponse sink'\<rparr>"
      using assms(3) by (auto simp: send_frame_def split: prod.splits)
    then show ?thesis using response.emit_ok [OF _ assms(2) e] emit_frame_receipt [OF _ assms(2) e] assms(1) SkResponse
      by (simp add: response.sink_ok_def sink_log_ok_def relay_ok_def)
  qed (use assms in \<open>auto simp: send_frame_def sink_log_ok_def Let_def split: prod.splits sum.splits\<close>)
  then show ?thesis using send_frame_keeps [OF assms(3)] assms(1) by (simp add: relay_ok_def)
qed

lemma relay_ok_deferred:
  "relay_ok codec (relay\<lparr>sr_deferred := d\<rparr>) \<longleftrightarrow>
     sink_log_ok relay \<and> deferred_ok codec (sr_limits relay) d \<and> projection_ok (sr_projection relay) \<and>
     rl_deferred_bytes (sr_limits relay) < USIZE_MAX"
  by (cases "sr_sink relay") (simp_all add: relay_ok_def sink_log_ok_def)

lemma relay_ok_projection:
  "relay_ok codec (relay\<lparr>sr_projection := p\<rparr>) \<longleftrightarrow>
     sink_log_ok relay \<and> deferred_ok codec (sr_limits relay) (sr_deferred relay) \<and> projection_ok p \<and>
     rl_deferred_bytes (sr_limits relay) < USIZE_MAX"
  by (cases "sr_sink relay") (simp_all add: relay_ok_def sink_log_ok_def)

lemma apply_context_type [simp]: "we_type (apply_context_response_ids ctx w) = we_type w"
  by (auto simp: apply_context_response_ids_def Let_def split: option.splits json.splits)

lemma emit_upstream_ok:
  assumes "relay_ok codec relay" and "frame_consistent frame" and "emit_upstream codec ctx frame relay = (relay', r)"
  shows "relay_ok codec relay'"
proof -
  have "frame_consistent (frame\<lparr>ef_wire := apply_context_response_ids ctx (ef_wire frame)\<rparr>)"
    using assms(2) by (simp add: frame_consistent_def)
  then show ?thesis using send_frame_ok assms(1,3) unfolding emit_upstream_def by blast
qed

lemma positioned_consistent: "frame_consistent frame \<Longrightarrow> frame_consistent (positioned rel frame)"
  by (simp add: frame_consistent_def positioned_def)

lemma release_run_ok:
  "relay_ok codec relay \<Longrightarrow> dq_frames (sr_deferred relay) = qs \<Longrightarrow> release_run codec rel ctx qs relay = (relay', r) \<Longrightarrow>
   relay_ok codec relay'"
proof (induction qs arbitrary: relay)
  case (Cons q qs)
  show ?case
  proof (cases "release_admits rel (df_frame q)")
    case True
    obtain relay1 x where e: "emit_upstream codec ctx (positioned rel (df_frame q)) relay = (relay1, x)" by fastforce
    have "frame_consistent (df_frame q)" using Cons.prems(1,2) by (auto simp: relay_ok_def deferred_ok_def)
    then have ok: "relay_ok codec relay1"
      using emit_upstream_ok [OF Cons.prems(1) _ e] positioned_consistent by blast
    then have "relay_ok codec (relay1\<lparr>sr_deferred := pop_front (sr_deferred relay1)\<rparr>)"
      using pop_front_ok ok unfolding relay_ok_deferred by (simp add: relay_ok_def)
    moreover have "dq_frames (sr_deferred (relay1\<lparr>sr_deferred := pop_front (sr_deferred relay1)\<rparr>)) = qs"
      using emit_upstream_keeps(1) [OF e] Cons.prems(2) by (simp add: pop_front_def)
    ultimately show ?thesis using Cons.IH Cons.prems(3) True e ok by (auto split: sum.splits)
  qed (use Cons.prems in auto)
qed auto

definition builds_consistent :: "(stream_relay \<Rightarrow> executor_error + event_frame) list \<Rightarrow> bool" where
  "builds_consistent builds \<longleftrightarrow> (\<forall>build \<in> set builds. \<forall>relay frame. build relay = Inr frame \<longrightarrow> frame_consistent frame)"

lemma emit_locals_ok:
  "relay_ok codec relay \<Longrightarrow> builds_consistent builds \<Longrightarrow> emit_locals codec builds relay = (relay', r) \<Longrightarrow> relay_ok codec relay'"
proof (induction builds arbitrary: relay)
  case (Cons build builds)
  show ?case
  proof (cases "build relay")
    case (Inr frame)
    obtain relay1 x where e: "emit_local codec frame relay = (relay1, x)" by fastforce
    have "frame_consistent frame" using Cons.prems(2) Inr by (auto simp: builds_consistent_def)
    then have "relay_ok codec relay1" using send_frame_ok [OF Cons.prems(1)] e by (simp add: emit_local_def)
    then show ?thesis using Cons.IH Cons.prems(2,3) Inr e by (auto simp: builds_consistent_def split: sum.splits)
  qed (use Cons.prems in simp)
qed simp

lemma emit_locals_keeps: "emit_locals codec builds relay = (relay', r) \<Longrightarrow> sr_deferred relay' = sr_deferred relay"
  by (induction builds arbitrary: relay)
    (auto simp: emit_local_def dest: send_frame_keeps(1) split: sum.splits prod.splits)

lemma accept_frames_ok:
  "relay_ok codec relay \<Longrightarrow> \<forall>f \<in> set frames. frame_consistent f \<Longrightarrow> builds_consistent builds \<Longrightarrow>
   accept_frames codec ctx (emit_locals codec builds) frames relay = (relay', r) \<Longrightarrow> relay_ok codec relay'"
proof (induction frames arbitrary: relay)
  case (Cons frame frames)
  have con: "frame_consistent frame" using Cons.prems(2) by simp
  note IH = Cons.IH [OF _ _ Cons.prems(3)]
  consider "is_terminal_response_event (ef_event_type frame)"
    | "\<not> is_terminal_response_event (ef_event_type frame)" "withholds (sr_deferred relay) frame"
    | "\<not> is_terminal_response_event (ef_event_type frame)" "\<not> withholds (sr_deferred relay) frame" by blast
  then show ?case
  proof cases
    case 1
    then show ?thesis using IH Cons.prems by simp
  next
    case 2
    obtain d x where p: "push_deferred codec frame (sr_limits relay) (sr_deferred relay) = (d, x)" by fastforce
    have "deferred_ok codec (sr_limits relay) d"
      using Cons.prems(1) con push_deferred_ok p by (cases x) (auto simp: relay_ok_def dest: push_deferred_failed)
    then have "relay_ok codec (relay\<lparr>sr_deferred := d\<rparr>)" using Cons.prems(1) unfolding relay_ok_deferred by (simp add: relay_ok_def)
    then show ?thesis using IH Cons.prems(2,4) 2 p by (auto split: sum.splits)
  next
    case 3
    obtain relay1 x where e: "emit_upstream codec ctx frame relay = (relay1, x)" by fastforce
    then have ok: "relay_ok codec relay1" using emit_upstream_ok Cons.prems(1) con by blast
    obtain relay2 y where d: "emit_locals codec builds relay1 = (relay2, y)" by fastforce
    then have "relay_ok codec relay2" using emit_locals_ok ok Cons.prems(3) by blast
    then show ?thesis using IH Cons.prems(2,4) 3 e d ok by (auto split: sum.splits if_splits)
  qed
qed simp

lemma accept_run:
  "accept codec ctx discovery tr relay =
     (if \<not> is_live relay then Some (relay, Inr ())
      else
        (case move_window (tr_defer_from_output_index tr) (sr_deferred relay) of
           (d, moved) \<Rightarrow>
             (case accept_frames codec ctx discovery (tr_frames tr) (relay\<lparr>sr_deferred := d\<rparr>) of
                (relay', Inl err) \<Rightarrow> Some (relay', Inl err)
              | (relay', Inr _) \<Rightarrow>
                  (case moved of
                     None \<Rightarrow> Some (relay', Inr ())
                   | Some rel \<Rightarrow> Some (release_run codec rel ctx (dq_frames (sr_deferred relay')) relay')))))"
  by (simp add: accept_def release_deferred_run [OF refl] split: prod.splits sum.splits option.splits)

lemma accept_ok:
  assumes "relay_ok codec relay" and "\<forall>f \<in> set (tr_frames tr). frame_consistent f" and "builds_consistent builds"
    and "accept codec ctx (emit_locals codec builds) tr relay = Some (relay', r)"
  shows "relay_ok codec relay'"
proof (cases "is_live relay")
  case True
  obtain d moved where m: "move_window (tr_defer_from_output_index tr) (sr_deferred relay) = (d, moved)" by fastforce
  then have "relay_ok codec (relay\<lparr>sr_deferred := d\<rparr>)"
    using assms(1) unfolding relay_ok_deferred by (auto simp: move_window_def relay_ok_def deferred_ok_def split: if_splits)
  moreover obtain relay1 x where a: "accept_frames codec ctx (emit_locals codec builds) (tr_frames tr) (relay\<lparr>sr_deferred := d\<rparr>) =
      (relay1, x)" by fastforce
  ultimately have "relay_ok codec relay1" using accept_frames_ok assms(2,3) by blast
  then show ?thesis using assms(4) True m a release_run_ok
    by (auto simp: accept_run split: sum.splits option.splits)
qed (use assms in \<open>simp add: accept_def\<close>)

lemma accept_agent_frame_ok:
  assumes "relay_ok codec relay" and "frame_consistent frame" and "accept_agent_frame codec source frame relay = (relay', r)"
  shows "relay_ok codec relay'"
proof -
  obtain p x where proj: "project_agent_frame source frame (sr_projection relay) = (p, x)" by fastforce
  then have ok: "relay_ok codec (relay\<lparr>sr_projection := p\<rparr>)"
    using assms(1) project_agent_frame_ok unfolding relay_ok_projection by (auto simp: relay_ok_def)
  show ?thesis
  proof (cases x)
    case (Inr frame')
    then have "frame_consistent frame'" using proj assms(2)
      by (auto simp: project_agent_frame_def Let_def frame_consistent_def
        split: option.splits if_splits json.splits prod.splits sum.splits)
    moreover obtain relay1 y where "emit_local codec frame' (relay\<lparr>sr_projection := p\<rparr>) = (relay1, y)" by fastforce
    ultimately show ?thesis using assms(3) proj Inr send_frame_ok [OF ok]
      by (auto simp: accept_agent_frame_def emit_local_def split: sum.splits)
  qed (use assms(3) proj ok in \<open>simp add: accept_agent_frame_def\<close>)
qed

lemma synthetic_event_consistent: "synthetic_event t rest = Inr frame \<Longrightarrow> frame_consistent frame"
  by (auto simp: synthetic_event_def synthetic_def Let_def frame_consistent_def event_name_parses split: option.splits)

lemma step_frame_consistent: "step_frame codec item lc n s = Inr frame \<Longrightarrow> frame_consistent frame"
  by (cases s) (auto simp: item_done_frame_def dest: synthetic_event_consistent)

lemma attributed_consistent: "attributed_frame item r = Inr frame \<Longrightarrow> (\<And>f. r = Inr f \<Longrightarrow> frame_consistent f) \<Longrightarrow> frame_consistent frame"
  by (cases r) (auto simp: attributed_frame_def frame_consistent_def)

lemma agent_item_builds:
  "builds_consistent (map (\<lambda>r _. attributed_frame item r) (materialized_item_frames codec item n))"
  "builds_consistent [\<lambda>_. attributed_frame item (item_done_frame codec item n)]"
  by (auto simp: builds_consistent_def materialized_item_frames_def item_done_frame_def
    elim!: attributed_consistent dest: step_frame_consistent synthetic_event_consistent)

lemma emit_agent_item_ok:
  assumes "relay_ok codec relay" and "emit_agent_item codec item relay = (relay', r)"
  shows "relay_ok codec relay'"
proof -
  obtain p found where taken: "(case (output_agent item, output_id item) of
      (Some agent, Some iid) \<Rightarrow> projection_take_item (agent_name agent) iid (sr_projection relay)
    | _ \<Rightarrow> (sr_projection relay, None)) = (p, found)" by fastforce
  then have p: "projection_ok p"
    using assms(1) projection_take_item_ok by (auto simp: relay_ok_def split: option.splits)
  have keep: "relay_ok codec (relay\<lparr>sr_projection := q\<rparr>)" if "projection_ok q" for q
    using assms(1) that unfolding relay_ok_projection by (simp add: relay_ok_def)
  show ?thesis
  proof (cases found)
    case (Some n)
    obtain relay1 y where "emit_locals codec [\<lambda>_. attributed_frame item (item_done_frame codec item n)]
        (relay\<lparr>sr_projection := p\<rparr>) = (relay1, y)" by fastforce
    then show ?thesis using assms(2) taken Some keep [OF p] emit_locals_ok [OF keep [OF p] agent_item_builds(2)]
      by (auto simp: emit_agent_item_def Let_def simp del: emit_locals.simps split: if_splits sum.splits)
  next
    case None
    obtain q x where q: "projection_reserve p = (q, x)" by fastforce
    then have ok: "relay_ok codec (relay\<lparr>sr_projection := q\<rparr>)" using keep projection_reserve_ok(1) [OF p] by blast
    show ?thesis
    proof (cases x)
      case (Inr n)
      obtain relay1 y where "emit_locals codec (map (\<lambda>r _. attributed_frame item r) (materialized_item_frames codec item n))
          (relay\<lparr>sr_projection := q\<rparr>) = (relay1, y)" by fastforce
      then show ?thesis using assms(2) taken None q Inr ok emit_locals_ok [OF ok agent_item_builds(1)]
        by (auto simp: emit_agent_item_def Let_def split: if_splits sum.splits)
    qed (use assms(2) taken None q ok in \<open>simp add: emit_agent_item_def\<close>)
  qed
qed

text \<open>
  What can happen to a relay: the operations the engine calls, the receiver of a client queue that
  goes away, and another producer of a retained response (an acknowledgement) writing through the
  shared sink.
\<close>

inductive relay_step :: "event_codec \<Rightarrow> stream_relay \<Rightarrow> stream_relay \<Rightarrow> bool" for codec where
  round: "begin_round offset relay = (relay', r) \<Longrightarrow> relay_step codec relay relay'"
| accept: "\<forall>f \<in> set (tr_frames tr). frame_consistent f \<Longrightarrow> builds_consistent builds \<Longrightarrow>
    accept codec ctx (emit_locals codec builds) tr relay = Some (relay', r) \<Longrightarrow> relay_step codec relay relay'"
| release: "release_deferred codec rel ctx relay = Some (relay', r) \<Longrightarrow> relay_step codec relay relay'"
| local: "builds_consistent builds \<Longrightarrow> emit_locals codec builds relay = (relay', r) \<Longrightarrow> relay_step codec relay relay'"
| agent_frame: "frame_consistent frame \<Longrightarrow> accept_agent_frame codec source frame relay = (relay', r) \<Longrightarrow>
    relay_step codec relay relay'"
| agent_item: "emit_agent_item codec item relay = (relay', n) \<Longrightarrow> relay_step codec relay relay'"
| finish_source: "relay_step codec relay (finish_agent_source source relay)"
| receiver_dropped: "sr_sink relay = SkClient sender \<Longrightarrow>
    relay_step codec relay (relay\<lparr>sr_sink := SkClient (sender\<lparr>ch_open := False\<rparr>)\<rparr>)"
| shared_sink: "sr_sink relay = SkResponse sink \<Longrightarrow> frame_consistent frame \<Longrightarrow> emit_frame codec frame 0 sink = (sink', r) \<Longrightarrow>
    relay_step codec relay (relay\<lparr>sr_sink := SkResponse sink'\<rparr>)"

definition fresh_relay :: "relay_limits \<Rightarrow> stream_relay \<Rightarrow> bool" where
  "fresh_relay limits relay \<longleftrightarrow>
     (\<exists>sink. relay = with_sink sink limits \<and>
       (case sink of
          SkClient sender \<Rightarrow> ch_sent sender = []
        | SkResponse s \<Rightarrow> \<exists>identity sender. ch_sent sender = [] \<and> s = new_response_sink identity sender (rl_event_bytes limits)
        | _ \<Rightarrow> True))"

lemma no_projection_ok: "projection_ok no_projection"
  by (simp add: projection_ok_def no_projection_def unique_below_def lookup2_def entries_of_def)

lemma log_ok_start: "log_ok (with_max_stream_event_bytes n) [] limit"
  by (simp add: log_ok_def announced_def with_max_stream_event_bytes_def)

lemma emitted_created_start: "\<not> ps_emitted_created (with_max_stream_event_bytes n)"
  by (simp add: with_max_stream_event_bytes_def)

lemma fresh_relay_ok:
  assumes "fresh_relay limits relay" and "rl_deferred_bytes limits < USIZE_MAX"
  shows "relay_ok codec relay \<and> sr_limits relay = limits"
proof -
  from assms(1) obtain sink where relay: "relay = with_sink sink limits"
    and sink: "case sink of SkClient sender \<Rightarrow> ch_sent sender = []
        | SkResponse s \<Rightarrow> \<exists>identity sender. ch_sent sender = [] \<and> s = new_response_sink identity sender (rl_event_bytes limits)
        | _ \<Rightarrow> True"
    unfolding fresh_relay_def by blast
  have "sink_log_ok relay" unfolding relay
    by (cases sink)
      (use sink log_ok_start in \<open>auto simp: sink_log_ok_def with_sink_def new_response_sink_def receipt_ok_def
        emitted_created_start\<close>)
  then show ?thesis using assms(2) by (simp add: relay relay_ok_def with_sink_def no_deferred_ok no_projection_ok)
qed

lemma relay_step_ok:
  assumes "relay_ok codec relay" and "relay_step codec relay relay'"
  shows "relay_ok codec relay'"
  using assms(2,1)
proof cases
  case (round offset r)
  then show ?thesis using assms(1)
    by (cases "sr_sink relay")
      (auto simp: begin_round_def deferred_begin_round_def relay_ok_def sink_log_ok_def deferred_ok_def split: if_splits)
next
  case (accept tr builds ctx r)
  then show ?thesis using accept_ok assms(1) by blast
next
  case (release rel ctx r)
  then show ?thesis using release_run_ok [OF assms(1) refl] by (simp add: release_deferred_run [OF refl])
next
  case (local builds r)
  then show ?thesis using emit_locals_ok assms(1) by blast
next
  case (agent_frame frame source r)
  then show ?thesis using accept_agent_frame_ok assms(1) by blast
next
  case (agent_item item n)
  then show ?thesis using emit_agent_item_ok assms(1) by blast
next
  case (finish_source source)
  then show ?thesis using assms(1) projection_finish_source_ok
    unfolding finish_source finish_agent_source_def relay_ok_projection by (simp add: relay_ok_def)
next
  case (receiver_dropped sender)
  then show ?thesis using assms(1) by (simp add: relay_ok_def sink_log_ok_def)
next
  case (shared_sink sink frame sink' r)
  then show ?thesis using assms(1) response.emit_ok [OF _ shared_sink(3,4)] emit_frame_receipt [OF _ shared_sink(3,4)]
    by (simp add: relay_ok_def sink_log_ok_def response.sink_ok_def)
qed

lemma release_run_limits: "release_run codec rel ctx qs relay = (relay', r) \<Longrightarrow> sr_limits relay' = sr_limits relay"
  by (induction qs arbitrary: relay) (auto dest: emit_upstream_keeps(3) split: if_splits prod.splits sum.splits)

lemma emit_locals_limits: "emit_locals codec builds relay = (relay', r) \<Longrightarrow> sr_limits relay' = sr_limits relay"
  by (induction builds arbitrary: relay) (auto simp: emit_local_def dest: send_frame_keeps(3) split: sum.splits prod.splits)

lemma accept_frames_limits:
  "accept_frames codec ctx (emit_locals codec builds) frames relay = (relay', r) \<Longrightarrow> sr_limits relay' = sr_limits relay"
  by (induction frames arbitrary: relay)
    (auto dest!: emit_upstream_keeps(3) emit_locals_limits split: if_splits prod.splits sum.splits)

lemma accept_limits:
  "accept codec ctx (emit_locals codec builds) tr relay = Some (relay', r) \<Longrightarrow> sr_limits relay' = sr_limits relay"
  by (auto simp: accept_run dest!: accept_frames_limits release_run_limits split: if_splits prod.splits sum.splits option.splits)

lemma emit_agent_item_limits: "emit_agent_item codec item relay = (relay', r) \<Longrightarrow> sr_limits relay' = sr_limits relay"
  by (auto simp: emit_agent_item_def Let_def simp del: emit_locals.simps dest: emit_locals_limits
    split: if_splits prod.splits sum.splits option.splits)

lemma release_deferred_limits: "release_deferred codec rel ctx relay = Some (relay', r) \<Longrightarrow> sr_limits relay' = sr_limits relay"
  by (simp add: release_deferred_run [OF refl] release_run_limits)

lemma relay_step_limits: "relay_step codec relay relay' \<Longrightarrow> sr_limits relay' = sr_limits relay"
  by (erule relay_step.cases)
    (auto simp: begin_round_def accept_agent_frame_def emit_local_def finish_agent_source_def
      dest: accept_limits release_deferred_limits emit_locals_limits emit_agent_item_limits send_frame_keeps(3)
      split: prod.splits sum.splits)

interpretation relay_runs: invariant_system
  "\<lambda>relay. fresh_relay limits relay \<and> rl_deferred_bytes limits < USIZE_MAX" "relay_step codec"
  "\<lambda>relay. relay_ok codec relay \<and> sr_limits relay = limits" for limits codec
  by unfold_locales (auto simp: fresh_relay_ok relay_step_ok relay_step_limits)

abbreviation relay_reachable :: "event_codec \<Rightarrow> relay_limits \<Rightarrow> stream_relay \<Rightarrow> bool" where
  "relay_reachable codec limits \<equiv>
     reachable_from (\<lambda>relay. fresh_relay limits relay \<and> rl_deferred_bytes limits < USIZE_MAX) (relay_step codec)"

section \<open>Conservation\<close>

lemma push_deferred_frames:
  assumes "push_deferred codec frame limits d = (d', Inr u)" and "rl_deferred_bytes limits < USIZE_MAX"
  shows "mset (map df_frame (dq_frames d')) = add_mset frame (mset (map df_frame (dq_frames d))) \<and> dq_window d' = dq_window d"
  using assms
proof (rule push_deferred_cases)
  fix before after content
  assume old: "dq_frames d = before @ after" and new: "dq_frames d' = before @ \<lparr>df_frame = frame, df_bytes = length content\<rparr> # after"
    and "dq_window d' = dq_window d"
  then show ?thesis unfolding old new by simp
qed

lemma accept_frames_conserves:
  assumes "accept_frames codec ctx (emit_locals codec builds) frames relay = (relay', Inr u)"
    and "rl_deferred_bytes (sr_limits relay) < USIZE_MAX"
  shows "mset (map df_frame (dq_frames (sr_deferred relay'))) = mset (map df_frame (dq_frames (sr_deferred relay))) +
      mset (filter (\<lambda>f. \<not> is_terminal_response_event (ef_event_type f) \<and> withholds (sr_deferred relay) f) frames) \<and>
    dq_window (sr_deferred relay') = dq_window (sr_deferred relay)"
  using assms
proof (induction frames arbitrary: relay)
  case (Cons frame frames)
  consider "is_terminal_response_event (ef_event_type frame)"
    | "\<not> is_terminal_response_event (ef_event_type frame)" "withholds (sr_deferred relay) frame"
    | "\<not> is_terminal_response_event (ef_event_type frame)" "\<not> withholds (sr_deferred relay) frame" by blast
  then show ?case
  proof cases
    case 1
    then show ?thesis using Cons by simp
  next
    case 2
    with Cons.prems(1) obtain d v where p: "push_deferred codec frame (sr_limits relay) (sr_deferred relay) = (d, Inr v)"
      and rest: "accept_frames codec ctx (emit_locals codec builds) frames (relay\<lparr>sr_deferred := d\<rparr>) = (relay', Inr u)"
      by (auto split: prod.splits sum.splits)
    have "mset (map df_frame (dq_frames d)) = add_mset frame (mset (map df_frame (dq_frames (sr_deferred relay))))"
      and "dq_window d = dq_window (sr_deferred relay)"
      using push_deferred_frames [OF p Cons.prems(2)] by simp_all
    moreover from this(2) have "withholds d f \<longleftrightarrow> withholds (sr_deferred relay) f" for f by (simp add: withholds_def)
    ultimately show ?thesis using Cons.IH [OF rest] Cons.prems(2) 2 by simp
  next
    case 3
    with Cons.prems(1) obtain relay1 b where e: "emit_upstream codec ctx frame relay = (relay1, Inr b)"
      and rest: "(case emit_locals codec builds relay1 of (relay2, y) \<Rightarrow>
          if b \<and> ef_event_type frame = EvResponseInProgress then
            (case y of Inl err \<Rightarrow> (relay2, Inl err) | Inr _ \<Rightarrow> accept_frames codec ctx (emit_locals codec builds) frames relay2)
          else accept_frames codec ctx (emit_locals codec builds) frames relay1) = (relay', Inr u)"
      by (auto split: prod.splits sum.splits if_splits)
    obtain relay2 y where l: "emit_locals codec builds relay1 = (relay2, y)" by fastforce
    note same = emit_upstream_keeps(1,3) [OF e] emit_locals_keeps [OF l] emit_locals_limits [OF l]
    have "\<exists>r. accept_frames codec ctx (emit_locals codec builds) frames r = (relay', Inr u) \<and>
        sr_deferred r = sr_deferred relay \<and> sr_limits r = sr_limits relay"
      using rest l same by (auto split: if_splits sum.splits)
    then show ?thesis using Cons.IH Cons.prems(2) 3 by auto
  qed
qed simp

lemma release_run_remainder:
  "release_run codec rel ctx qs relay = (relay', Inl err) \<Longrightarrow> dq_frames (sr_deferred relay) = qs \<Longrightarrow>
   \<exists>k < length qs. dq_frames (sr_deferred relay') = drop k qs"
proof (induction qs arbitrary: relay)
  case (Cons q qs)
  then have "release_admits rel (df_frame q)" by (auto split: if_splits)
  then obtain relay1 x where e: "emit_upstream codec ctx (positioned rel (df_frame q)) relay = (relay1, x)" by fastforce
  note same = emit_upstream_keeps(1) [OF e]
  show ?case
  proof (cases x)
    case (Inl e')
    then show ?thesis using Cons.prems e same \<open>release_admits rel (df_frame q)\<close> by (intro exI [of _ 0]) auto
  next
    case (Inr b)
    have "dq_frames (sr_deferred (relay1\<lparr>sr_deferred := pop_front (sr_deferred relay1)\<rparr>)) = qs"
      using same Cons.prems(2) by (simp add: pop_front_def)
    then obtain k where "k < length qs" "dq_frames (sr_deferred relay') = drop k qs"
      using Cons.IH Cons.prems(1) e Inr \<open>release_admits rel (df_frame q)\<close> by fastforce
    then show ?thesis by (intro exI [of _ "Suc k"]) auto
  qed
qed simp

section \<open>Properties\<close>

text \<open>C16. The client's view of a streamed response: after any sequence of relay operations, failed sends and
  a dropped receiver included, the enqueued events carry the sequence numbers 0, 1, 2, \<dots> without a gap
  or a repetition, each event fits the configured size, and \<open>response.created\<close> and
  \<open>response.in_progress\<close> are announced at most once.\<close>

theorem client_stream_numbered:
  assumes "relay_reachable codec limits relay" and "sr_sink relay = SkClient sender"
    and "length (ch_sent sender) \<le> USIZE_MAX"
  shows "map sf_sequence_number (ch_sent sender) = [0..<length (ch_sent sender)] \<and>
    (\<forall>m \<in> set (ch_sent sender). length (sf_content m) \<le> rl_event_bytes limits) \<and>
    announced ''response.created'' (ch_sent sender) \<le> 1 \<and> announced ''response.in_progress'' (ch_sent sender) \<le> 1"
proof -
  have "relay_ok codec relay \<and> sr_limits relay = limits" using relay_runs.inv_reachable [OF assms(1)] .
  then have "log_ok (sr_presentation relay) (ch_sent sender) (rl_event_bytes limits)"
    using assms(2) by (auto simp: relay_ok_def sink_log_ok_def)
  moreover have "map (\<lambda>i. min i USIZE_MAX) [0..<length (ch_sent sender)] = [0..<length (ch_sent sender)]"
    using assms(3) by (intro map_idI) auto
  ultimately show ?thesis by (auto simp: log_ok_def)
qed

text \<open>A created receipt is evidence: in every reachable state of a retained response, a receipt names the
  sink that issued it and a message of its queue that announces \<open>response.created\<close> under the receipt's
  sequence number; and once that event was presented the receipt exists.\<close>

lemma created_receipt_is_evidence:
  assumes "relay_reachable codec limits relay" and "sr_sink relay = SkResponse sink"
  shows "(\<forall>receipt. rs_created sink = Some receipt \<longrightarrow> belongs_to receipt sink \<and>
      (\<exists>m \<in> set (ch_sent (rs_sender sink)). sf_sequence_number m = rc_sequence_number receipt \<and>
        announces ''response.created'' m)) \<and>
    (announced ''response.created'' (ch_sent (rs_sender sink)) \<noteq> 0 \<longrightarrow> rs_created sink \<noteq> None)"
proof -
  have "log_ok (rs_state sink) (ch_sent (rs_sender sink)) (rs_max_bytes sink) \<and> receipt_ok sink"
    using relay_runs.inv_reachable [OF assms(1)] assms(2) by (simp add: relay_ok_def sink_log_ok_def)
  then show ?thesis by (auto simp: log_ok_def receipt_ok_def split: option.splits)
qed

text \<open>C22. The buffer of frames withheld behind a hidden gateway call stays within its limits: in every reachable
  state the byte account is exactly the serialized size of the held frames and at most the limit, the frame
  count is at most its limit, and the frames stand in release order. Public output indexes given to agent
  rounds are never shared by two live addresses.\<close>

theorem relay_buffer_bounded:
  assumes "relay_reachable codec limits relay"
  shows "deferred_ok codec limits (sr_deferred relay) \<and> projection_ok (sr_projection relay)"
  using relay_runs.inv_reachable [OF assms] by (auto simp: relay_ok_def)



section \<open>Concrete runs\<close>

definition relay_codec :: event_codec where
  "relay_codec = sample_codec\<lparr>render_json := (\<lambda>_. Some ''{}'')\<rparr>"

definition sample_limits :: relay_limits where
  "sample_limits = \<lparr>rl_deferred_frames = 8, rl_deferred_bytes = 64, rl_event_bytes = 1000\<rparr>"

definition created_frame :: event_frame where
  "created_frame =
     \<lparr>ef_event_type = EvResponseCreated, ef_payload = PlNone,
      ef_wire = (new_wire ''response.created'')\<lparr>we_rest := [(''response'', JObject [(''id'', JString ''resp_1'')])]\<rparr>\<rparr>"

definition delta_frame :: event_frame where
  "delta_frame =
     \<lparr>ef_event_type = EvOutputTextDelta, ef_payload = PlNone,
      ef_wire = (new_wire ''response.output_text.delta'')\<lparr>we_output_index := Some 2\<rparr>\<rparr>"

definition sample_ctx :: relay_context where
  "sample_ctx = \<lparr>rx_response_id = ''resp_9'', rx_previous_response_id = None, rx_conversation_id = None, rx_max_tool_calls = None\<rparr>"

definition client_relay :: stream_relay where
  "client_relay = with_sink (SkClient \<lparr>ch_sent = [], ch_open = True\<rparr>) sample_limits"

definition response_relay :: stream_relay where
  "response_relay = with_sink (SkResponse (new_response_sink 7 \<lparr>ch_sent = [], ch_open = True\<rparr> 1000)) sample_limits"

lemma sample_frames_consistent: "frame_consistent created_frame" "frame_consistent delta_frame"
  using event_name_parses [of EvResponseCreated "''response.created''"]
    event_name_parses [of EvOutputTextDelta "''response.output_text.delta''"]
  by (simp_all add: frame_consistent_def created_frame_def delta_frame_def new_wire_def)

lemma sample_limits_small: "rl_deferred_bytes sample_limits < USIZE_MAX"
  by (simp add: sample_limits_def USIZE_MAX_def)

lemma sample_relays_reachable:
  "relay_reachable codec sample_limits client_relay" "relay_reachable codec sample_limits response_relay"
proof -
  have "fresh_relay sample_limits client_relay"
    unfolding fresh_relay_def client_relay_def by (intro exI conjI, rule refl) simp
  then show "relay_reachable codec sample_limits client_relay" by (intro reachable_from.start) (simp add: sample_limits_small)
  have "fresh_relay sample_limits response_relay"
    unfolding fresh_relay_def response_relay_def
    by (intro exI conjI, rule refl)
      (auto simp: sample_limits_def intro!: exI [of _ 7] exI [of _ "\<lparr>ch_sent = [], ch_open = True\<rparr>"])
  then show "relay_reachable codec sample_limits response_relay" by (intro reachable_from.start) (simp add: sample_limits_small)
qed

lemmas relay_eval = emit_local_def send_frame_def client_emit_def process_event_def should_emit_lifecycle_def stamp_event_def
  take_sequence_number_def rebase_output_index_def emit_sse_frame_limited_def checked_stream_event_limited_def
  serialize_sse_frame_def serialize_wire_def wire_event_name_def channel_send_def relay_codec_def new_wire_def newline_def
  carriage_return_def with_sink_def with_max_stream_event_bytes_def sample_limits_def

definition created_message :: stream_frame where
  "created_message =
     \<lparr>sf_content = ''event: response.created'' @ [newline] @ ''data: {}'' @ [newline, newline], sf_sequence_number = 0, sf_text = False\<rparr>"

lemma client_presents_created:
  obtains relay where "emit_locals relay_codec [\<lambda>_. Inr created_frame] client_relay = (relay, Inr ())"
    and "sr_sink relay = SkClient \<lparr>ch_sent = [created_message], ch_open = True\<rparr>"
  by (simp add: relay_eval client_relay_def created_frame_def created_message_def)

lemma response_presents_created:
  obtains relay sink where "emit_locals relay_codec [\<lambda>_. Inr created_frame] response_relay = (relay, Inr ())"
    and "sr_sink relay = SkResponse sink" and "ch_sent (rs_sender sink) = [created_message]" and "rs_created sink \<noteq> None"
  by (simp add: relay_eval response_relay_def created_frame_def created_message_def emit_frame_def new_response_sink_def
    receipt_of_def Let_def)

lemma created_builds: "builds_consistent [\<lambda>_. Inr created_frame]"
  by (simp add: builds_consistent_def sample_frames_consistent)

theorem client_stream_numbered_witness:
  "\<exists>relay sender. relay_reachable relay_codec sample_limits relay \<and> sr_sink relay = SkClient sender \<and>
    map sf_sequence_number (ch_sent sender) = [0] \<and> announced ''response.created'' (ch_sent sender) \<le> 1"
proof -
  obtain relay where run: "emit_locals relay_codec [\<lambda>_. Inr created_frame] client_relay = (relay, Inr ())"
    and sink: "sr_sink relay = SkClient \<lparr>ch_sent = [created_message], ch_open = True\<rparr>" by (rule client_presents_created)
  have "relay_step relay_codec client_relay relay" using relay_step.local [OF created_builds run] .
  then have reach: "relay_reachable relay_codec sample_limits relay"
    using sample_relays_reachable(1) by (rule reachable_from.step [rotated])
  show ?thesis using client_stream_numbered [OF reach sink] reach sink by (auto simp: USIZE_MAX_def)
qed

definition hidden_translation :: translation where
  "hidden_translation = \<lparr>tr_frames = [delta_frame], tr_defer_from_output_index = Some 1\<rparr>"

definition holding_relay :: stream_relay where
  "holding_relay = client_relay\<lparr>sr_deferred := \<lparr>dq_window = Some 1, dq_frames = [\<lparr>df_frame = delta_frame, df_bytes = 2\<rparr>], dq_bytes = 2\<rparr>\<rparr>"

lemma hidden_accepted:
  "accept relay_codec sample_ctx (emit_locals relay_codec []) hidden_translation client_relay = Some (holding_relay, Inr ())"
  by (simp add: accept_run hidden_translation_def is_live_def client_relay_def with_sink_def move_window_def no_deferred_def
    is_terminal_response_event_def delta_frame_def withholds_def push_deferred_def sample_limits_def serialize_wire_def
    relay_codec_def saturating_add_def USIZE_MAX_def new_wire_def Let_def holding_relay_def)

lemma holding_relay_reachable: "relay_reachable relay_codec sample_limits holding_relay"
proof (rule reachable_from.step [OF sample_relays_reachable(1)])
  show "relay_step relay_codec client_relay holding_relay"
    by (rule relay_step.accept [OF _ _ hidden_accepted])
      (simp_all add: hidden_translation_def sample_frames_consistent builds_consistent_def)
qed

theorem relay_buffer_bounded_witness:
  "dq_frames (sr_deferred holding_relay) \<noteq> [] \<and> deferred_ok relay_codec sample_limits (sr_deferred holding_relay)"
  using relay_buffer_bounded [OF holding_relay_reachable] by (simp add: holding_relay_def)



end
