(* ===== verification/Active_Items.thy ===== *)
theory Active_Items
  imports Stream_Events Response_Budget
begin

text \<open>
  Output items while they stream (\<open>core/executor/accumulator/active.rs\<close>, \<open>active_text.rs\<close>,
  \<open>active/shell.rs\<close>, \<open>active/agent_message.rs\<close>, \<open>completion.rs\<close>, and the conversions and
  completions of \<open>core/types/io/output.rs\<close>, \<open>output/apply_done.rs\<close>): the state each kind keeps
  between its opening and its completion, how events grow it, how a completion is merged, and the
  bytes it retains. Growth is charged to the slot's account in the operation that grows.

  The first lemmas are about cost: the interface \<open>charged_state\<close>, interpreted on every kind, says
  that a state never retains more than its account has paid.
\<close>

section \<open>Decoders\<close>

text \<open>The derived readers of single item types, and the identifiers the operation at hand draws. Values that come from
  the frame are read with the codec of the events.\<close>

record item_codec =
  ic_events :: event_codec
  ic_search_output :: "tool_search_output_message serializer"
  ic_function_call :: "json \<Rightarrow> function_tool_call option"
  ic_custom_call :: "json \<Rightarrow> custom_tool_call option"
  ic_tool_search_call :: "json \<Rightarrow> tool_search_call option"
  ic_mcp_call :: "json \<Rightarrow> mcp_call option"
  ic_mcp_list_tools :: "json \<Rightarrow> mcp_list_tools option"
  ic_compaction :: "json \<Rightarrow> compaction_item option"

type_synonym uuids = "string \<Rightarrow> string"

definition read_item :: "item_codec \<Rightarrow> json \<Rightarrow> output_item option" where
  "read_item codec v = option_of_result (item_of_json (ic_events codec) v)"

definition id_or_uuid :: "uuids \<Rightarrow> string \<Rightarrow> string \<Rightarrow> string" where
  "id_or_uuid uuid prefix iid = (if iid = [] then uuid prefix else iid)"

definition or_empty :: "string option \<Rightarrow> string" where
  "or_empty s = (case s of Some t \<Rightarrow> t | None \<Rightarrow> [])"

definition or_old :: "string \<Rightarrow> string \<Rightarrow> string" where
  "or_old new old = (if new = [] then old else new)"

section \<open>Opening items\<close>

definition new_message :: "string \<Rightarrow> message_status \<Rightarrow> output_message" where
  "new_message iid status =
     \<lparr>om_agent = None, om_id = iid, om_role = ''assistant'', om_phase = None, om_status = status, om_content = []\<rparr>"

fun opened_message :: "uuids \<Rightarrow> event_payload \<Rightarrow> output_message option" where
  "opened_message uuid (PlOutputItemAdded iid _ _ _ _ _ (Some (OiMessage item))) = Some item"
| "opened_message uuid (PlOutputItemAdded iid _ _ _ _ _ _) = Some (new_message (id_or_uuid uuid ''msg_'' iid) MsInProgress)"
| "opened_message uuid _ = None"

fun opened_function_call :: "uuids \<Rightarrow> event_payload \<Rightarrow> function_tool_call option" where
  "opened_function_call uuid (PlOutputItemAdded iid _ _ name namespace call_id initial_item) =
     (let initial_call = (case initial_item of Some (OiFunctionCall call) \<Rightarrow> Some call | _ \<Rightarrow> None) in
      Some \<lparr>ftc_agent = Option.bind initial_call ftc_agent, ftc_id = id_or_uuid uuid ''fc_'' iid,
        ftc_call_id = or_empty call_id, ftc_name = or_empty name, ftc_namespace = namespace, ftc_arguments = [],
        ftc_status = MsInProgress,
        ftc_async_execution = (case initial_call of Some call \<Rightarrow> ftc_async_execution call | None \<Rightarrow> False)\<rparr>)"
| "opened_function_call uuid _ = None"

fun opened_tool_search_call :: "event_payload \<Rightarrow> tool_search_call option" where
  "opened_tool_search_call (PlOutputItemAdded iid _ _ _ _ call_id _) =
     (case call_id of
        None \<Rightarrow> None
      | Some c \<Rightarrow>
          if blank c \<or> blank iid then None
          else Some \<lparr>tsc_agent = None, tsc_id = iid, tsc_call_id = Some c, tsc_execution = TsClient,
            tsc_arguments = JObject [], tsc_status = TsInProgress\<rparr>)"
| "opened_tool_search_call _ = None"

fun opened_custom_call :: "uuids \<Rightarrow> event_payload \<Rightarrow> custom_tool_call option" where
  "opened_custom_call uuid (PlOutputItemAdded iid _ _ name _ call_id _) =
     Some \<lparr>ctc_agent = None, ctc_id = id_or_uuid uuid ''ctc_'' iid, ctc_status = Some MsInProgress,
       ctc_call_id = or_empty call_id, ctc_name = or_empty name, ctc_input = [], ctc_async_execution = False\<rparr>"
| "opened_custom_call uuid _ = None"

fun opened_compaction :: "uuids \<Rightarrow> event_payload \<Rightarrow> compaction_item option" where
  "opened_compaction uuid (PlOutputItemAdded iid _ _ _ _ _ _) =
     Some \<lparr>cmp_agent = None, cmp_id = Some (id_or_uuid uuid ''cmp_'' iid), cmp_encrypted_content = []\<rparr>"
| "opened_compaction uuid _ = None"

fun opened_shell_call :: "event_payload \<Rightarrow> shell_call option" where
  "opened_shell_call (PlOutputItemAdded _ _ _ _ _ _ (Some (OiShellCall call))) = Some call"
| "opened_shell_call _ = None"

fun opened_mcp_list_tools :: "uuids \<Rightarrow> event_payload \<Rightarrow> mcp_list_tools option" where
  "opened_mcp_list_tools uuid (PlOutputItemAdded iid _ _ _ _ _ _) =
     Some \<lparr>mls_agent = None, mls_id = id_or_uuid uuid ''mcpl_'' iid, mls_server_label = [], mls_tools = [], mls_error = None\<rparr>"
| "opened_mcp_list_tools uuid _ = None"

fun opened_mcp_call :: "uuids \<Rightarrow> event_payload \<Rightarrow> mcp_call option" where
  "opened_mcp_call uuid (PlOutputItemAdded iid _ _ name _ _ _) =
     Some \<lparr>mc_agent = None, mc_id = id_or_uuid uuid ''mcp_'' iid, mc_server_label = [], mc_name = or_empty name,
       mc_arguments = [], mc_status = Some McInProgress, mc_approval_request_id = None, mc_output = None, mc_error = None\<rparr>"
| "opened_mcp_call uuid _ = None"

definition new_reasoning :: "string \<Rightarrow> reasoning_output" where
  "new_reasoning iid =
     \<lparr>ro_agent = None, ro_id = iid, ro_content = [], ro_summary = [], ro_encrypted_content = None, ro_status = None\<rparr>"

fun reasoning_of_payload :: "item_codec \<Rightarrow> uuids \<Rightarrow> event_payload \<Rightarrow> reasoning_output option" where
  "reasoning_of_payload codec uuid (PlOutputItemAdded iid _ _ _ _ _ _) = Some (new_reasoning (id_or_uuid uuid ''rs_'' iid))"
| "reasoning_of_payload codec uuid (PlOutputItemDone _ _ _ item) =
     (case read_item codec item of
        Some (OiReasoning r) \<Rightarrow> if ro_id r = [] then None else Some r
      | _ \<Rightarrow> None)"
| "reasoning_of_payload codec uuid _ = None"

section \<open>Completing items from a payload\<close>

text \<open>\<open>ApplyDone\<close>. The second component is the buffer of streamed text; kinds that do not read it take none.\<close>

definition insert_at_part_index :: "'a list \<Rightarrow> nat \<Rightarrow> 'a \<Rightarrow> 'a list" where
  "insert_at_part_index parts n part = (let i = min n (length parts) in take i parts @ part # drop i parts)"

definition has_member :: "json \<Rightarrow> string \<Rightarrow> bool" where
  "has_member v key \<longleftrightarrow> (case as_object v of Some entries \<Rightarrow> map_of entries key \<noteq> None | None \<Rightarrow> False)"

fun apply_done_reasoning :: "item_codec \<Rightarrow> uuids \<Rightarrow> event_payload \<Rightarrow> reasoning_output \<Rightarrow> reasoning_output" where
  "apply_done_reasoning codec uuid (PlReasoningTextDone text _ _ n) r =
     (if text = [] then r else r\<lparr>ro_content := insert_at_part_index (ro_content r) n text\<rparr>)"
| "apply_done_reasoning codec uuid (PlReasoningSummaryTextDone text _ _ n) r =
     (if text = [] then r else r\<lparr>ro_summary := insert_at_part_index (ro_summary r) n text\<rparr>)"
| "apply_done_reasoning codec uuid (PlOutputItemDone iid t i item) r =
     (case (as_object item, reasoning_of_payload codec uuid (PlOutputItemDone iid t i item)) of
        (Some _, Some completed) \<Rightarrow>
          let completed = (if has_member item ''content'' then completed else completed\<lparr>ro_content := ro_content r\<rparr>)
          in if has_member item ''summary'' then completed else completed\<lparr>ro_summary := ro_summary r\<rparr>
      | _ \<Rightarrow> r)"
| "apply_done_reasoning codec uuid _ r = r"

fun apply_done_function_call ::
    "item_codec \<Rightarrow> event_payload \<Rightarrow> function_tool_call \<times> string \<Rightarrow> function_tool_call \<times> string" where
  "apply_done_function_call codec (PlFunctionCallArgsDone args call_id _ name _) (call, buffer) =
     (call\<lparr>ftc_arguments := (if args = [] then buffer else args),
           ftc_call_id := (case call_id of Some c \<Rightarrow> or_old c (ftc_call_id call) | None \<Rightarrow> ftc_call_id call),
           ftc_name := or_old name (ftc_name call)\<rparr>, [])"
| "apply_done_function_call codec (PlOutputItemDone _ _ _ item) (old, buffer) =
     (case ic_function_call codec item of
        None \<Rightarrow> (old, buffer)
      | Some call \<Rightarrow>
          let call = (if nonempty_str item ''id'' = None then call\<lparr>ftc_id := ftc_id old\<rparr> else call);
              call = call\<lparr>ftc_call_id := or_old (ftc_call_id call) (ftc_call_id old),
                ftc_name := or_old (ftc_name call) (ftc_name old),
                ftc_namespace := (case ftc_namespace call of None \<Rightarrow> ftc_namespace old | Some n \<Rightarrow> Some n)\<rparr>
          in if ftc_arguments call = []
             then if ftc_arguments old = [] then (call\<lparr>ftc_arguments := buffer\<rparr>, [])
                  else (call\<lparr>ftc_arguments := ftc_arguments old\<rparr>, buffer)
             else (call, []))"
| "apply_done_function_call codec _ st = st"

fun apply_done_custom_call ::
    "item_codec \<Rightarrow> event_payload \<Rightarrow> custom_tool_call \<times> string \<Rightarrow> custom_tool_call \<times> string" where
  "apply_done_custom_call codec (PlCustomToolCallInputDone inp _ _) (call, buffer) =
     (call\<lparr>ctc_input := (if inp = [] then buffer else inp)\<rparr>, [])"
| "apply_done_custom_call codec (PlOutputItemDone _ _ _ item) (old, buffer) =
     (case ic_custom_call codec item of
        None \<Rightarrow> (old, buffer)
      | Some call \<Rightarrow>
          if ctc_input call = []
          then if ctc_input old = [] then (call\<lparr>ctc_input := buffer\<rparr>, [])
               else (call\<lparr>ctc_input := ctc_input old\<rparr>, buffer)
          else (call, []))"
| "apply_done_custom_call codec _ st = st"

fun apply_done_shell_call :: "item_codec \<Rightarrow> event_payload \<Rightarrow> shell_call \<times> string \<Rightarrow> shell_call \<times> string" where
  "apply_done_shell_call codec (PlShellCallCommand _ _ n (ScuDone command)) (call, buffer) =
     (if n < length (sca_commands (sc_action call))
      then (call\<lparr>sc_action := (sc_action call)\<lparr>sca_commands :=
              (sca_commands (sc_action call))[n := (if command = [] then buffer else command)]\<rparr>\<rparr>, [])
      else (call, buffer))"
| "apply_done_shell_call codec (PlOutputItemDone _ _ _ item) (old, buffer) =
     (case read_item codec item of Some (OiShellCall call) \<Rightarrow> (call, []) | _ \<Rightarrow> (old, buffer))"
| "apply_done_shell_call codec _ st = st"

definition apply_done_value :: "(json \<Rightarrow> 'a option) \<Rightarrow> event_payload \<Rightarrow> 'a \<Rightarrow> 'a" where
  "apply_done_value reader payload old =
     (case payload of
        PlOutputItemDone _ _ _ item \<Rightarrow> (case reader item of Some new \<Rightarrow> new | None \<Rightarrow> old)
      | _ \<Rightarrow> old)"

definition or_old_id :: "string option \<Rightarrow> string option \<Rightarrow> string option" where
  "or_old_id new old = (if or_empty new = [] then old else new)"

definition merge_done_compaction :: "compaction_item \<Rightarrow> compaction_item \<Rightarrow> compaction_item" where
  "merge_done_compaction old done_item = done_item\<lparr>cmp_id := or_old_id (cmp_id done_item) (cmp_id old)\<rparr>"

definition apply_done_compaction :: "item_codec \<Rightarrow> event_payload \<Rightarrow> compaction_item \<Rightarrow> compaction_item" where
  "apply_done_compaction codec payload old =
     apply_done_value (\<lambda>v. map_option (merge_done_compaction old) (ic_compaction codec v)) payload old"

section \<open>Merging a parsed completion\<close>

definition merge_done_reasoning :: "event_payload \<Rightarrow> reasoning_output \<Rightarrow> reasoning_output \<Rightarrow> reasoning_output" where
  "merge_done_reasoning payload old done_item =
     (let raw = (case payload of PlOutputItemDone _ _ _ item \<Rightarrow> as_object item | _ \<Rightarrow> None);
          lacks = (\<lambda>key. case raw of Some entries \<Rightarrow> map_of entries key = None | None \<Rightarrow> False);
          merged = (if lacks ''content'' then done_item\<lparr>ro_content := ro_content old\<rparr> else done_item);
          merged = (if lacks ''summary'' then merged\<lparr>ro_summary := ro_summary old\<rparr> else merged)
      in merged\<lparr>ro_id := or_old (ro_id merged) (ro_id old)\<rparr>)"

definition merge_done_function_call ::
    "function_tool_call \<times> string \<Rightarrow> function_tool_call \<Rightarrow> function_tool_call \<times> string" where
  "merge_done_function_call st done_item =
     (case st of (old, buffer) \<Rightarrow>
        let call = done_item\<lparr>ftc_id := or_old (ftc_id done_item) (ftc_id old),
              ftc_call_id := or_old (ftc_call_id done_item) (ftc_call_id old),
              ftc_name := or_old (ftc_name done_item) (ftc_name old),
              ftc_namespace := (case ftc_namespace done_item of None \<Rightarrow> ftc_namespace old | Some n \<Rightarrow> Some n)\<rparr>
        in if ftc_arguments call = []
           then if ftc_arguments old = [] then (call\<lparr>ftc_arguments := buffer\<rparr>, [])
                else (call\<lparr>ftc_arguments := ftc_arguments old\<rparr>, buffer)
           else (call, []))"

definition merge_done_custom_call ::
    "custom_tool_call \<times> string \<Rightarrow> custom_tool_call \<Rightarrow> custom_tool_call \<times> string" where
  "merge_done_custom_call st done_item =
     (case st of (old, buffer) \<Rightarrow>
        let call = done_item\<lparr>ctc_id := or_old (ctc_id done_item) (ctc_id old),
              ctc_call_id := or_old (ctc_call_id done_item) (ctc_call_id old),
              ctc_name := or_old (ctc_name done_item) (ctc_name old)\<rparr>
        in if ctc_input call = []
           then if ctc_input old = [] then (call\<lparr>ctc_input := buffer\<rparr>, [])
                else (call\<lparr>ctc_input := ctc_input old\<rparr>, buffer)
           else (call, []))"

definition merge_done_web_search :: "uuids \<Rightarrow> web_search_call \<Rightarrow> string \<Rightarrow> web_search_call" where
  "merge_done_web_search uuid done_item iid =
     (if wsc_id done_item = [] then done_item\<lparr>wsc_id := id_or_uuid uuid ''ws_'' iid\<rparr> else done_item)"

definition merge_done_code_call :: "uuids \<Rightarrow> code_interpreter_call \<Rightarrow> string \<Rightarrow> code_interpreter_call" where
  "merge_done_code_call uuid done_item iid =
     (if cic_id done_item = [] then done_item\<lparr>cic_id := id_or_uuid uuid ''ci_'' iid\<rparr> else done_item)"

section \<open>Charging\<close>

text \<open>A step on a state beside its account: \<open>pay\<close> charges before the state grows, \<open>attempt\<close> is \<open>?\<close>.\<close>

type_synonym 's charged = "'s \<times> account_state"

definition pay :: "nat \<Rightarrow> 's charged \<Rightarrow> ('s charged, executor_error, unit) outcome" where
  "pay n st = (case charge n (snd st) of (acct, r) \<Rightarrow> ((fst st, acct), r))"

definition attempt ::
    "('s, 'e, 'a) outcome \<Rightarrow> ('s \<Rightarrow> 'a \<Rightarrow> ('s, 'e, 'b) outcome) \<Rightarrow> ('s, 'e, 'b) outcome" where
  "attempt r k = (case r of (st, Inl e) \<Rightarrow> (st, Inl e) | (st, Inr a) \<Rightarrow> k st a)"

definition update :: "('s \<Rightarrow> 's) \<Rightarrow> 's charged \<Rightarrow> 's charged" where
  "update f st = (f (fst st), snd st)"

definition finish_ok :: "'s \<Rightarrow> ('s, 'e, unit) outcome" where
  "finish_ok st = (st, Inr ())"

section \<open>Function and custom calls\<close>

record function_call_state =
  fcs_item :: function_tool_call
  fcs_arguments :: string

definition retained_function_state :: "function_call_state \<Rightarrow> nat" where
  "retained_function_state s = retained_function_call (fcs_item s) + length (fcs_arguments s)"

definition apply_function_call ::
    "item_codec \<Rightarrow> event_payload \<Rightarrow> function_call_state charged \<Rightarrow> (function_call_state charged, executor_error, unit) outcome" where
  "apply_function_call codec payload st =
     (case payload of
        PlFunctionCallArgsDelta delta _ _ _ \<Rightarrow>
          attempt (pay (length delta) st) (\<lambda>st _.
            finish_ok (update (\<lambda>s. s\<lparr>fcs_arguments := fcs_arguments s @ delta\<rparr>) st))
      | PlFunctionCallArgsDone _ _ _ _ _ \<Rightarrow>
          grow retained_function_state
            (\<lambda>s. case apply_done_function_call codec payload (fcs_item s, fcs_arguments s) of
               (item, arguments) \<Rightarrow> \<lparr>fcs_item = item, fcs_arguments = arguments\<rparr>) (fst st) (snd st)
      | _ \<Rightarrow> finish_ok st)"

definition finalize_function_call :: "function_call_state \<Rightarrow> output_item" where
  "finalize_function_call s =
     (let item = (if fcs_arguments s \<noteq> [] \<and> ftc_arguments (fcs_item s) = []
                  then (fcs_item s)\<lparr>ftc_arguments := fcs_arguments s\<rparr> else fcs_item s)
      in OiFunctionCall (item\<lparr>ftc_status := MsCompleted\<rparr>))"

record custom_call_state =
  ccs_item :: custom_tool_call
  ccs_input :: string

definition retained_custom_state :: "custom_call_state \<Rightarrow> nat" where
  "retained_custom_state s = retained_custom_call (ccs_item s) + length (ccs_input s)"

definition apply_custom_call ::
    "item_codec \<Rightarrow> event_payload \<Rightarrow> custom_call_state charged \<Rightarrow> (custom_call_state charged, executor_error, unit) outcome" where
  "apply_custom_call codec payload st =
     (case payload of
        PlCustomToolCallInputDelta delta _ _ \<Rightarrow>
          attempt (pay (length delta) st) (\<lambda>st _.
            finish_ok (update (\<lambda>s. s\<lparr>ccs_input := ccs_input s @ delta\<rparr>) st))
      | PlCustomToolCallInputDone _ _ _ \<Rightarrow>
          grow retained_custom_state
            (\<lambda>s. case apply_done_custom_call codec payload (ccs_item s, ccs_input s) of
               (item, inp) \<Rightarrow> \<lparr>ccs_item = item, ccs_input = inp\<rparr>) (fst st) (snd st)
      | _ \<Rightarrow> finish_ok st)"

definition finalize_custom_call :: "custom_call_state \<Rightarrow> output_item" where
  "finalize_custom_call s =
     (let item = (if ctc_input (ccs_item s) = [] then (ccs_item s)\<lparr>ctc_input := ccs_input s\<rparr> else ccs_item s)
      in OiCustomToolCall (item\<lparr>ctc_status := Some MsCompleted\<rparr>))"

section \<open>Messages\<close>

datatype text_part =
    PartStreaming string bool
  | PartCompleted output_message_content

definition empty_part :: text_part where "empty_part = PartStreaming [] False"

fun retained_part :: "text_part \<Rightarrow> nat" where
  "retained_part (PartStreaming text _) = OVERHEAD + length ''output_text'' + length text"
| "retained_part (PartCompleted part) = retained_output_message_content part"

record message_state =
  mgs_item :: output_message
  mgs_parts :: "(nat, text_part) index_map"

definition retained_message_state :: "message_state \<Rightarrow> nat" where
  "retained_message_state s =
     retained_output_message (mgs_item s) + sum_list (map (retained_part \<circ> snd) (mgs_parts s))"

definition new_message_state :: "output_message \<Rightarrow> message_state" where
  "new_message_state item =
     \<lparr>mgs_item = item\<lparr>om_content := []\<rparr>, mgs_parts = enumerate 0 (map PartCompleted (om_content item))\<rparr>"

definition part_mut ::
    "nat \<Rightarrow> message_state charged \<Rightarrow> (message_state charged, executor_error, text_part) outcome" where
  "part_mut n st =
     (case map_of (mgs_parts (fst st)) n of
        Some part \<Rightarrow> (st, Inr part)
      | None \<Rightarrow>
          attempt (pay (retained_part empty_part) st) (\<lambda>st _.
            (update (\<lambda>s. s\<lparr>mgs_parts := mgs_parts s @ [(n, empty_part)]\<rparr>) st, Inr empty_part)))"

definition set_part :: "nat \<Rightarrow> text_part \<Rightarrow> message_state \<Rightarrow> message_state" where
  "set_part n part s = s\<lparr>mgs_parts := AList.update n part (mgs_parts s)\<rparr>"

fun message_content_of :: "agent_message_content \<Rightarrow> output_message_content option" where
  "message_content_of (AmcInputText part) = Some (OmcInputText part)"
| "message_content_of (AmcOutputText part) = Some (OmcOutputText part)"
| "message_content_of _ = None"

definition agrees_with_text :: "output_message_content \<Rightarrow> string \<Rightarrow> bool" where
  "agrees_with_text part text \<longleftrightarrow> (case part of OmcOutputText done_part \<Rightarrow> otc_text done_part = text | _ \<Rightarrow> False)"

definition apply_message ::
    "event_payload \<Rightarrow> message_state charged \<Rightarrow> (message_state charged, executor_error, unit) outcome" where
  "apply_message payload st =
     (case payload of
        PlTextDelta delta _ _ n \<Rightarrow>
          attempt (part_mut n st) (\<lambda>st part.
            case part of
              PartCompleted _ \<Rightarrow> (st, Inl (InvalidRequest ''output text follows a completed message part''))
            | PartStreaming text _ \<Rightarrow>
                attempt (pay (length delta) st) (\<lambda>st _.
                  finish_ok (update (set_part n (PartStreaming (text @ delta) True)) st)))
      | PlTextDone text _ _ n \<Rightarrow>
          attempt (part_mut n st) (\<lambda>st part.
            case part of
              PartCompleted _ \<Rightarrow> (st, Inl (InvalidRequest ''output text follows a completed message part''))
            | PartStreaming retained streamed \<Rightarrow>
                if streamed then finish_ok st
                else attempt (pay (saturating_sub (length text) (length retained)) st) (\<lambda>st _.
                  finish_ok (update (set_part n (PartStreaming text False)) st)))
      | PlContentPartDone _ _ n part \<Rightarrow>
          (case message_content_of part of
             None \<Rightarrow> (st, Inl (InvalidRequest ''unsupported content part for message item''))
           | Some part \<Rightarrow>
               (case map_of (mgs_parts (fst st)) n of
                  Some (PartCompleted _) \<Rightarrow> (st, Inl (InvalidRequest ''message repeats a completed content part''))
                | Some (PartStreaming text streamed) \<Rightarrow>
                    if \<not> agrees_with_text part text
                    then (st, Inl (InvalidRequest ''completed message part contradicts output text''))
                    else attempt (pay (saturating_sub (retained_output_message_content part)
                           (retained_part (PartStreaming text streamed))) st) (\<lambda>st _.
                      finish_ok (update (set_part n (PartCompleted part)) st))
                | None \<Rightarrow>
                    attempt (pay (saturating_sub (retained_output_message_content part) 0) st) (\<lambda>st _.
                      finish_ok (update (set_part n (PartCompleted part)) st))))
      | _ \<Rightarrow> finish_ok st)"

text \<open>The parts in index order; a snapshot lists them without their stream indexes.\<close>

definition ordered_parts :: "message_state \<Rightarrow> text_part list" where
  "ordered_parts s = map snd (sort_key fst (mgs_parts s))"

definition nth_opt :: "'a list \<Rightarrow> nat \<Rightarrow> 'a option" where
  "nth_opt xs n = (if n < length xs then Some (xs ! n) else None)"

definition validate_message_completion :: "message_state \<Rightarrow> output_message \<Rightarrow> executor_error + unit" where
  "validate_message_completion s done_item =
     (let item = mgs_item s in
      if om_role item \<noteq> om_role done_item
        \<or> (om_agent item \<noteq> None \<and> om_agent item \<noteq> om_agent done_item)
        \<or> (om_phase item \<noteq> None \<and> om_phase item \<noteq> om_phase done_item)
      then Inl (InvalidRequest ''message completion changes role, phase, or attribution'')
      else if \<exists>(position, part) \<in> set (enumerate 0 (ordered_parts s)).
          (case part of PartCompleted p \<Rightarrow> nth_opt (om_content done_item) position \<noteq> Some p | _ \<Rightarrow> False)
      then Inl (InvalidRequest ''message completion contradicts a completed content part'')
      else Inr ())"

definition new_output_text :: "string \<Rightarrow> output_text_content" where
  "new_output_text text = \<lparr>otc_text = text, otc_annotations = Some [], otc_logprobs = []\<rparr>"

fun part_content :: "text_part \<Rightarrow> output_message_content list" where
  "part_content (PartCompleted part) = [part]"
| "part_content (PartStreaming text _) = (if text = [] then [] else [OmcOutputText (new_output_text text)])"

definition finalize_message :: "message_state \<Rightarrow> output_item" where
  "finalize_message s =
     OiMessage ((mgs_item s)\<lparr>om_content := om_content (mgs_item s) @ concat (map part_content (ordered_parts s)),
       om_status := MsCompleted\<rparr>)"

section \<open>Reasoning\<close>

text \<open>Per-index byte counters of the streamed deltas; the completed text of a part is adopted from its \<open>done\<close>
  event.\<close>

record reasoning_state =
  rgs_item :: reasoning_output
  rgs_content_streamed :: "(nat, nat) index_map"
  rgs_summary_streamed :: "(nat, nat) index_map"

definition new_reasoning_state :: "reasoning_output \<Rightarrow> reasoning_state" where
  "new_reasoning_state item = \<lparr>rgs_item = item, rgs_content_streamed = [], rgs_summary_streamed = []\<rparr>"

definition streamed_counter_bytes :: "(nat, nat) index_map \<Rightarrow> nat" where
  "streamed_counter_bytes counters = sum_list (map (\<lambda>(_, bytes). OVERHEAD + bytes) counters)"

definition streamed_part_bytes :: "(nat, nat) index_map \<Rightarrow> nat \<Rightarrow> nat" where
  "streamed_part_bytes counters n = (case map_of counters n of None \<Rightarrow> 0 | Some bytes \<Rightarrow> OVERHEAD + bytes)"

definition retained_reasoning_state :: "reasoning_state \<Rightarrow> nat" where
  "retained_reasoning_state s =
     retained_reasoning (rgs_item s) + streamed_counter_bytes (rgs_content_streamed s)
     + streamed_counter_bytes (rgs_summary_streamed s)"

text \<open>The container of a new index is charged first, then the delta; both before the counter grows.\<close>

definition count_streamed ::
    "(reasoning_state \<Rightarrow> (nat, nat) index_map) \<Rightarrow> ((nat, nat) index_map \<Rightarrow> reasoning_state \<Rightarrow> reasoning_state) \<Rightarrow>
     nat \<Rightarrow> string \<Rightarrow> reasoning_state charged \<Rightarrow> (reasoning_state charged, executor_error, unit) outcome" where
  "count_streamed get put n delta st =
     attempt (if map_of (get (fst st)) n = None then pay OVERHEAD st else finish_ok st) (\<lambda>st _.
       attempt (pay (length delta) st) (\<lambda>st _.
         finish_ok (update (\<lambda>s. put (AList.update n
           ((case map_of (get s) n of Some bytes \<Rightarrow> bytes | None \<Rightarrow> 0) + length delta) (get s)) s) st)))"

text \<open>The bytes of the part a completion inserted (an empty text inserts none), and of the counter it ends.\<close>

definition inserted_bytes :: "string list \<Rightarrow> nat \<Rightarrow> nat \<Rightarrow> nat" where
  "inserted_bytes parts count n = (if length parts > count then OVERHEAD + length (parts ! min n count) else 0)"

definition apply_reasoning ::
    "item_codec \<Rightarrow> uuids \<Rightarrow> event_payload \<Rightarrow> reasoning_state charged \<Rightarrow> (reasoning_state charged, executor_error, unit) outcome" where
  "apply_reasoning codec uuid payload st =
     (case payload of
        PlReasoningTextDelta delta _ _ n \<Rightarrow>
          count_streamed rgs_content_streamed (\<lambda>m s. s\<lparr>rgs_content_streamed := m\<rparr>) n delta st
      | PlReasoningSummaryTextDelta delta _ _ n \<Rightarrow>
          count_streamed rgs_summary_streamed (\<lambda>m s. s\<lparr>rgs_summary_streamed := m\<rparr>) n delta st
      | PlReasoningTextDone _ _ _ n \<Rightarrow>
          (let count = length (ro_content (rgs_item (fst st))) in
           grow (\<lambda>s. inserted_bytes (ro_content (rgs_item s)) count n + streamed_part_bytes (rgs_content_streamed s) n)
             (\<lambda>s. s\<lparr>rgs_content_streamed := AList.delete n (rgs_content_streamed s),
                    rgs_item := apply_done_reasoning codec uuid payload (rgs_item s)\<rparr>) (fst st) (snd st))
      | PlReasoningSummaryTextDone _ _ _ n \<Rightarrow>
          (let count = length (ro_summary (rgs_item (fst st))) in
           grow (\<lambda>s. inserted_bytes (ro_summary (rgs_item s)) count n + streamed_part_bytes (rgs_summary_streamed s) n)
             (\<lambda>s. s\<lparr>rgs_summary_streamed := AList.delete n (rgs_summary_streamed s),
                    rgs_item := apply_done_reasoning codec uuid payload (rgs_item s)\<rparr>) (fst st) (snd st))
      | _ \<Rightarrow> finish_ok st)"

section \<open>Shell calls\<close>

text \<open>The completion flag of each streamed command, once the first command event arrived, and the text of the
  command that streams.\<close>

record shell_call_state =
  shs_item :: shell_call
  shs_command_stream :: "bool list option"
  shs_command :: string

definition new_shell_state :: "shell_call \<Rightarrow> shell_call_state" where
  "new_shell_state item = \<lparr>shs_item = item, shs_command_stream = None, shs_command = []\<rparr>"

definition retained_shell_state :: "shell_call_state \<Rightarrow> nat" where
  "retained_shell_state s = retained_shell_call (shs_item s) + length (shs_command s)"

abbreviation shell_commands :: "shell_call_state \<Rightarrow> string list" where
  "shell_commands s \<equiv> sca_commands (sc_action (shs_item s))"

definition streamed_commands :: "shell_call_state \<Rightarrow> bool list" where
  "streamed_commands s = (case shs_command_stream s of Some flags \<Rightarrow> flags | None \<Rightarrow> [])"

definition has_unfinished_commands :: "shell_call_state \<Rightarrow> bool" where
  "has_unfinished_commands s \<longleftrightarrow> False \<in> set (streamed_commands s)"

definition tracks_commands :: "shell_call_state \<Rightarrow> bool" where
  "tracks_commands s \<longleftrightarrow> shs_command_stream s \<noteq> None"

definition apply_shell ::
    "item_codec \<Rightarrow> event_payload \<Rightarrow> shell_call_state charged \<Rightarrow> (shell_call_state charged, executor_error, unit) outcome" where
  "apply_shell codec payload st =
     (case payload of
        PlShellCallCommand _ _ n upd \<Rightarrow>
          (let s = fst st; flags = streamed_commands s in
           case upd of
             ScuAdded command \<Rightarrow>
               if n \<noteq> length flags \<or> length (shell_commands s) \<noteq> length flags \<or> (flags \<noteq> [] \<and> \<not> last flags)
               then (st, Inl (InvalidRequest ''shell command added out of order''))
               else attempt (pay (OVERHEAD + length command) st) (\<lambda>st _.
                 finish_ok (update (\<lambda>s. s\<lparr>
                   shs_item := (shs_item s)\<lparr>sc_action := (sc_action (shs_item s))\<lparr>sca_commands := shell_commands s @ [[]]\<rparr>\<rparr>,
                   shs_command := command, shs_command_stream := Some (streamed_commands s @ [False])\<rparr>) st))
           | ScuDelta delta \<Rightarrow>
               if nth_opt flags n \<noteq> Some False
               then (st, Inl (InvalidRequest ''shell command delta has no active command''))
               else attempt (pay (length delta) st) (\<lambda>st _.
                 finish_ok (update (\<lambda>s. s\<lparr>shs_command := shs_command s @ delta\<rparr>) st))
           | ScuDone command \<Rightarrow>
               if nth_opt flags n \<noteq> Some False \<or> shs_command s \<noteq> command
               then (st, Inl (InvalidRequest ''shell command done is repeated or contradicts streamed command''))
               else grow (\<lambda>s. length (shell_commands s ! n) + length (shs_command s))
                 (\<lambda>s. case apply_done_shell_call codec payload (shs_item s, shs_command s) of
                    (item, buffer) \<Rightarrow> \<lparr>shs_item = item,
                      shs_command_stream = map_option (\<lambda>flags. flags[n := True]) (shs_command_stream s),
                      shs_command = buffer\<rparr>) (fst st) (snd st))
      | _ \<Rightarrow> finish_ok st)"

section \<open>Agent messages\<close>

record agent_message_state =
  ams_item :: agent_message
  ams_parts :: "(nat, agent_message_content) index_map"

definition new_agent_message_state :: "agent_message \<Rightarrow> agent_message_state" where
  "new_agent_message_state item = \<lparr>ams_item = item, ams_parts = []\<rparr>"

definition retained_agent_message_state :: "agent_message_state \<Rightarrow> nat" where
  "retained_agent_message_state s =
     retained_agent_message (ams_item s) + sum_list (map (retained_agent_message_content \<circ> snd) (ams_parts s))"

definition apply_agent_message ::
    "event_payload \<Rightarrow> agent_message_state charged \<Rightarrow> (agent_message_state charged, executor_error, unit) outcome" where
  "apply_agent_message payload st =
     (case payload of
        PlContentPartDone _ _ n part \<Rightarrow>
          if map_of (ams_parts (fst st)) n \<noteq> None
          then (st, Inl (InvalidRequest ''agent message repeats a completed content part''))
          else attempt (pay (retained_agent_message_content part) st) (\<lambda>st _.
            finish_ok (update (\<lambda>s. s\<lparr>ams_parts := AList.update n part (ams_parts s)\<rparr>) st))
      | _ \<Rightarrow> finish_ok st)"

definition validate_agent_message_completion :: "agent_message_state \<Rightarrow> agent_message \<Rightarrow> executor_error + unit" where
  "validate_agent_message_completion s done_item =
     (let item = ams_item s in
      if am_author item \<noteq> am_author done_item \<or> am_recipient item \<noteq> am_recipient done_item \<or> am_agent item \<noteq> am_agent done_item
      then Inl (InvalidRequest ''agent message completion changes author, recipient, or attribution'')
      else if \<exists>(n, part) \<in> set (ams_parts s). nth_opt (am_content done_item) n \<noteq> Some part
      then Inl (InvalidRequest ''agent message completion contradicts a completed content part'')
      else Inr ())"

section \<open>An item of any kind\<close>

datatype active_item =
    AiMultiAgentCall multi_agent_call
  | AiMultiAgentCallOutput multi_agent_call_output
  | AiAgentMessage agent_message_state
  | AiMessage message_state
  | AiReasoning reasoning_state
  | AiFunctionCall function_call_state
  | AiCustomToolCall custom_call_state
  | AiShellCall shell_call_state
  | AiCodeInterpreterCall "code_interpreter_call option"
  | AiToolSearchCall tool_search_call
  | AiWebSearchCall "web_search_call option"
  | AiMcpCall mcp_call
  | AiMcpListTools mcp_list_tools
  | AiCompaction compaction_item

fun from_added :: "item_codec \<Rightarrow> uuids \<Rightarrow> event_payload \<Rightarrow> active_item option" where
  "from_added codec uuid (PlOutputItemAdded iid item_type i name namespace call_id initial_item) =
     (let payload = PlOutputItemAdded iid item_type i name namespace call_id initial_item in
      case item_type of
        SiMultiAgentCall \<Rightarrow>
          (case initial_item of Some (OiMultiAgentCall item) \<Rightarrow> Some (AiMultiAgentCall item) | _ \<Rightarrow> None)
      | SiMultiAgentCallOutput \<Rightarrow>
          (case initial_item of Some (OiMultiAgentCallOutput item) \<Rightarrow> Some (AiMultiAgentCallOutput item) | _ \<Rightarrow> None)
      | SiAgentMessage \<Rightarrow>
          (case initial_item of Some (OiAgentMessage item) \<Rightarrow> Some (AiAgentMessage (new_agent_message_state item)) | _ \<Rightarrow> None)
      | SiShellCall \<Rightarrow> map_option (AiShellCall \<circ> new_shell_state) (opened_shell_call payload)
      | SiReasoning \<Rightarrow> map_option (AiReasoning \<circ> new_reasoning_state) (reasoning_of_payload codec uuid payload)
      | SiFunctionCall \<Rightarrow>
          map_option (\<lambda>item. AiFunctionCall \<lparr>fcs_item = item, fcs_arguments = []\<rparr>) (opened_function_call uuid payload)
      | SiCodeInterpreterCall \<Rightarrow> Some (AiCodeInterpreterCall None)
      | SiToolSearchCall \<Rightarrow> map_option AiToolSearchCall (opened_tool_search_call payload)
      | SiToolSearchOutput \<Rightarrow> None
      | SiCustomToolCall \<Rightarrow>
          map_option (\<lambda>item. AiCustomToolCall \<lparr>ccs_item = item, ccs_input = []\<rparr>) (opened_custom_call uuid payload)
      | SiMessage \<Rightarrow> map_option (AiMessage \<circ> new_message_state) (opened_message uuid payload)
      | SiWebSearchCall \<Rightarrow> Some (AiWebSearchCall None)
      | SiCompaction \<Rightarrow> map_option AiCompaction (opened_compaction uuid payload)
      | SiMcpCall \<Rightarrow> map_option AiMcpCall (opened_mcp_call uuid payload)
      | SiMcpListTools \<Rightarrow> map_option AiMcpListTools (opened_mcp_list_tools uuid payload))"
| "from_added codec uuid _ = None"

text \<open>A candidate for comparing a repeated completion; the slot stays done.\<close>

fun from_completed :: "output_item \<Rightarrow> active_item option" where
  "from_completed (OiShellCall item) = Some (AiShellCall (new_shell_state item))"
| "from_completed (OiMessage item) = Some (AiMessage \<lparr>mgs_item = item, mgs_parts = []\<rparr>)"
| "from_completed (OiReasoning item) = Some (AiReasoning (new_reasoning_state item))"
| "from_completed (OiFunctionCall item) = Some (AiFunctionCall \<lparr>fcs_item = item, fcs_arguments = []\<rparr>)"
| "from_completed (OiCodeInterpreterCall item) = Some (AiCodeInterpreterCall (Some item))"
| "from_completed (OiToolSearchCall item) = Some (AiToolSearchCall item)"
| "from_completed (OiCustomToolCall item) = Some (AiCustomToolCall \<lparr>ccs_item = item, ccs_input = []\<rparr>)"
| "from_completed (OiWebSearchCall item) = Some (AiWebSearchCall (Some item))"
| "from_completed (OiMcpCall item) = Some (AiMcpCall item)"
| "from_completed (OiMcpListTools item) = Some (AiMcpListTools item)"
| "from_completed (OiCompaction item) = Some (AiCompaction item)"
| "from_completed (OiMultiAgentCall item) = Some (AiMultiAgentCall item)"
| "from_completed (OiMultiAgentCallOutput item) = Some (AiMultiAgentCallOutput item)"
| "from_completed (OiAgentMessage item) = Some (AiAgentMessage (new_agent_message_state item))"
| "from_completed (OiToolSearchOutput _) = None"
| "from_completed OiUnknown = None"

fun active_id :: "active_item \<Rightarrow> string option" where
  "active_id (AiMessage s) = Some (om_id (mgs_item s))"
| "active_id (AiReasoning s) = Some (ro_id (rgs_item s))"
| "active_id (AiFunctionCall s) = Some (ftc_id (fcs_item s))"
| "active_id (AiCustomToolCall s) = Some (ctc_id (ccs_item s))"
| "active_id (AiShellCall s) = sc_id (shs_item s)"
| "active_id (AiCodeInterpreterCall item) = map_option cic_id item"
| "active_id (AiToolSearchCall item) = Some (tsc_id item)"
| "active_id (AiWebSearchCall item) = map_option wsc_id item"
| "active_id (AiMcpCall item) = Some (mc_id item)"
| "active_id (AiMcpListTools item) = Some (mls_id item)"
| "active_id (AiCompaction item) = cmp_id item"
| "active_id (AiMultiAgentCall item) = Some (mac_id item)"
| "active_id (AiMultiAgentCallOutput item) = Some (mao_id item)"
| "active_id (AiAgentMessage s) = Some (am_id (ams_item s))"

fun active_type :: "active_item \<Rightarrow> sse_item_type" where
  "active_type (AiMessage _) = SiMessage"
| "active_type (AiReasoning _) = SiReasoning"
| "active_type (AiFunctionCall _) = SiFunctionCall"
| "active_type (AiCodeInterpreterCall _) = SiCodeInterpreterCall"
| "active_type (AiToolSearchCall _) = SiToolSearchCall"
| "active_type (AiCustomToolCall _) = SiCustomToolCall"
| "active_type (AiShellCall _) = SiShellCall"
| "active_type (AiWebSearchCall _) = SiWebSearchCall"
| "active_type (AiMcpCall _) = SiMcpCall"
| "active_type (AiMcpListTools _) = SiMcpListTools"
| "active_type (AiCompaction _) = SiCompaction"
| "active_type (AiMultiAgentCall _) = SiMultiAgentCall"
| "active_type (AiMultiAgentCallOutput _) = SiMultiAgentCallOutput"
| "active_type (AiAgentMessage _) = SiAgentMessage"

definition lift_charged ::
    "('s \<Rightarrow> active_item) \<Rightarrow> ('s charged, executor_error, unit) outcome \<Rightarrow> (active_item charged, executor_error, unit) outcome" where
  "lift_charged wrap r = (case r of ((s, acct), res) \<Rightarrow> ((wrap s, acct), res))"

fun apply_event ::
    "item_codec \<Rightarrow> uuids \<Rightarrow> event_payload \<Rightarrow> active_item \<Rightarrow> account_state \<Rightarrow> (active_item charged, executor_error, unit) outcome" where
  "apply_event codec uuid payload (AiAgentMessage s) acct = lift_charged AiAgentMessage (apply_agent_message payload (s, acct))"
| "apply_event codec uuid payload (AiMessage s) acct = lift_charged AiMessage (apply_message payload (s, acct))"
| "apply_event codec uuid payload (AiReasoning s) acct = lift_charged AiReasoning (apply_reasoning codec uuid payload (s, acct))"
| "apply_event codec uuid payload (AiFunctionCall s) acct = lift_charged AiFunctionCall (apply_function_call codec payload (s, acct))"
| "apply_event codec uuid payload (AiCustomToolCall s) acct = lift_charged AiCustomToolCall (apply_custom_call codec payload (s, acct))"
| "apply_event codec uuid payload (AiShellCall s) acct = lift_charged AiShellCall (apply_shell codec payload (s, acct))"
| "apply_event codec uuid payload item acct = ((item, acct), Inr ())"

definition is_text_member :: "json \<Rightarrow> string \<Rightarrow> bool" where
  "is_text_member v key \<longleftrightarrow> Option.bind (json_get v key) as_str \<noteq> None"

definition is_array_member :: "json \<Rightarrow> string \<Rightarrow> bool" where
  "is_array_member v key \<longleftrightarrow> (case json_get v key of Some (JArray _) \<Rightarrow> True | _ \<Rightarrow> False)"

definition is_collaboration_item :: "active_item \<Rightarrow> bool" where
  "is_collaboration_item item \<longleftrightarrow> is_collaboration (active_type item)"

text \<open>A completion may fill in results, but not reassign identity or contradict completed parts. The result says
  whether it is authoritative: only then may it close in-flight work before the response ends.\<close>

definition validate_completion :: "active_item \<Rightarrow> output_item option \<Rightarrow> json \<Rightarrow> executor_error + bool" where
  "validate_completion active_item parsed raw =
     (case (active_item, parsed) of
        (AiMessage s, Some (OiMessage d)) \<Rightarrow>
          (case validate_message_completion s d of
             Inl e \<Rightarrow> Inl e
           | Inr _ \<Rightarrow> Inr (om_status d = MsCompleted \<and> is_array_member raw ''content''))
      | (AiFunctionCall _, Some (OiFunctionCall d)) \<Rightarrow>
          Inr (ftc_status d = MsCompleted \<and> is_text_member raw ''status'' \<and> is_text_member raw ''arguments''
            \<and> ftc_call_id d \<noteq> [] \<and> ftc_name d \<noteq> [])
      | (AiCustomToolCall _, Some (OiCustomToolCall d)) \<Rightarrow>
          Inr (ctc_status d \<in> {None, Some MsCompleted} \<and> is_text_member raw ''input''
            \<and> ctc_call_id d \<noteq> [] \<and> ctc_name d \<noteq> [])
      | (AiReasoning _, Some (OiReasoning d)) \<Rightarrow>
          Inr (ro_status d \<noteq> Some RsInProgress \<and> (json_get raw ''content'' \<noteq> None \<or> json_get raw ''summary'' \<noteq> None
            \<or> is_text_member raw ''encrypted_content''))
      | (AiCodeInterpreterCall _, Some (OiCodeInterpreterCall d)) \<Rightarrow>
          Inr (cic_status d \<in> {CiCompleted, CiFailed, CiIncomplete})
      | (AiWebSearchCall _, Some (OiWebSearchCall d)) \<Rightarrow> Inr (wsc_status d \<in> {WsCompleted, WsFailed})
      | (AiToolSearchCall _, Some (OiToolSearchCall d)) \<Rightarrow> Inr (tsc_status d \<in> {TsCompleted, TsIncomplete})
      | (AiMcpCall _, Some (OiMcpCall d)) \<Rightarrow>
          Inr (mc_status d \<in> {Some McCompleted, Some McIncomplete, Some McFailed})
      | (AiMcpListTools _, Some (OiMcpListTools d)) \<Rightarrow> Inr (json_get raw ''status'' = None)
      | (AiShellCall _, Some (OiShellCall d)) \<Rightarrow> Inr (sc_status d \<noteq> Some ShInProgress)
      | (AiCompaction _, Some (OiCompaction d)) \<Rightarrow> Inr True
      | (AiMultiAgentCall item, Some (OiMultiAgentCall d)) \<Rightarrow>
          if mac_call_id item \<noteq> mac_call_id d \<or> mac_action item \<noteq> mac_action d \<or> mac_agent item \<noteq> mac_agent d
          then Inl (InvalidRequest ''collaboration call completion changes call_id, action, or attribution'')
          else Inr False
      | (AiMultiAgentCallOutput item, Some (OiMultiAgentCallOutput d)) \<Rightarrow>
          if mao_call_id item \<noteq> mao_call_id d \<or> mao_action item \<noteq> mao_action d \<or> mao_agent item \<noteq> mao_agent d
          then Inl (InvalidRequest ''collaboration output completion changes call_id, action, or attribution'')
          else Inr False
      | (AiAgentMessage s, Some (OiAgentMessage d)) \<Rightarrow>
          (case validate_agent_message_completion s d of Inl e \<Rightarrow> Inl e | Inr _ \<Rightarrow> Inr False)
      | (item, _) \<Rightarrow>
          if is_collaboration_item item
          then Inl (InvalidRequest ''collaboration item requires a valid completion snapshot'')
          else Inr False)"

definition merge_parsed :: "uuids \<Rightarrow> event_payload \<Rightarrow> string \<Rightarrow> active_item \<Rightarrow> output_item \<Rightarrow> active_item" where
  "merge_parsed uuid payload iid active_item done_item =
     (case (active_item, done_item) of
        (AiMultiAgentCall item, OiMultiAgentCall d) \<Rightarrow> AiMultiAgentCall d
      | (AiMultiAgentCallOutput item, OiMultiAgentCallOutput d) \<Rightarrow> AiMultiAgentCallOutput d
      | (AiAgentMessage s, OiAgentMessage d) \<Rightarrow> AiAgentMessage (s\<lparr>ams_item := d, ams_parts := []\<rparr>)
      | (AiShellCall s, OiShellCall d) \<Rightarrow> AiShellCall (s\<lparr>shs_item := d\<rparr>)
      | (AiMessage s, OiMessage d) \<Rightarrow> AiMessage (s\<lparr>mgs_item := d, mgs_parts := []\<rparr>)
      | (AiReasoning s, OiReasoning d) \<Rightarrow> AiReasoning (s\<lparr>rgs_item := merge_done_reasoning payload (rgs_item s) d\<rparr>)
      | (AiFunctionCall s, OiFunctionCall d) \<Rightarrow>
          (case merge_done_function_call (fcs_item s, fcs_arguments s) d of
             (item, arguments) \<Rightarrow> AiFunctionCall \<lparr>fcs_item = item, fcs_arguments = arguments\<rparr>)
      | (AiCodeInterpreterCall item, OiCodeInterpreterCall d) \<Rightarrow> AiCodeInterpreterCall (Some (merge_done_code_call uuid d iid))
      | (AiToolSearchCall item, OiToolSearchCall d) \<Rightarrow> AiToolSearchCall d
      | (AiCustomToolCall s, OiCustomToolCall d) \<Rightarrow>
          (case merge_done_custom_call (ccs_item s, ccs_input s) d of
             (item, inp) \<Rightarrow> AiCustomToolCall \<lparr>ccs_item = item, ccs_input = inp\<rparr>)
      | (AiWebSearchCall item, OiWebSearchCall d) \<Rightarrow> AiWebSearchCall (Some (merge_done_web_search uuid d iid))
      | (AiMcpCall item, OiMcpCall d) \<Rightarrow> AiMcpCall d
      | (AiMcpListTools item, OiMcpListTools d) \<Rightarrow> AiMcpListTools d
      | (AiCompaction item, OiCompaction d) \<Rightarrow> AiCompaction (merge_done_compaction item d)
      | (item, _) \<Rightarrow> item)"

fun merge_raw :: "item_codec \<Rightarrow> uuids \<Rightarrow> event_payload \<Rightarrow> active_item \<Rightarrow> active_item" where
  "merge_raw codec uuid payload (AiShellCall s) =
     (case apply_done_shell_call codec payload (shs_item s, shs_command s) of
        (item, buffer) \<Rightarrow> AiShellCall (s\<lparr>shs_item := item, shs_command := buffer\<rparr>))"
| "merge_raw codec uuid payload (AiReasoning s) =
     AiReasoning (s\<lparr>rgs_item := apply_done_reasoning codec uuid payload (rgs_item s)\<rparr>)"
| "merge_raw codec uuid payload (AiFunctionCall s) =
     (case apply_done_function_call codec payload (fcs_item s, fcs_arguments s) of
        (item, arguments) \<Rightarrow> AiFunctionCall \<lparr>fcs_item = item, fcs_arguments = arguments\<rparr>)"
| "merge_raw codec uuid payload (AiToolSearchCall item) =
     AiToolSearchCall (apply_done_value (ic_tool_search_call codec) payload item)"
| "merge_raw codec uuid payload (AiCustomToolCall s) =
     (case apply_done_custom_call codec payload (ccs_item s, ccs_input s) of
        (item, inp) \<Rightarrow> AiCustomToolCall \<lparr>ccs_item = item, ccs_input = inp\<rparr>)"
| "merge_raw codec uuid payload (AiMcpCall item) = AiMcpCall (apply_done_value (ic_mcp_call codec) payload item)"
| "merge_raw codec uuid payload (AiMcpListTools item) =
     AiMcpListTools (apply_done_value (ic_mcp_list_tools codec) payload item)"
| "merge_raw codec uuid payload (AiCompaction item) = AiCompaction (apply_done_compaction codec payload item)"
| "merge_raw codec uuid payload item = item"

definition merge_completion ::
    "item_codec \<Rightarrow> uuids \<Rightarrow> event_payload \<Rightarrow> output_item option \<Rightarrow> string \<Rightarrow> active_item \<Rightarrow> active_item" where
  "merge_completion codec uuid payload parsed iid item =
     (case parsed of
        Some d \<Rightarrow> merge_parsed uuid payload iid item d
      | None \<Rightarrow> merge_raw codec uuid payload item)"

fun finalize_active :: "active_item \<Rightarrow> output_item option" where
  "finalize_active (AiShellCall s) = Some (OiShellCall (shs_item s))"
| "finalize_active (AiReasoning s) = Some (OiReasoning (rgs_item s))"
| "finalize_active (AiFunctionCall s) = Some (finalize_function_call s)"
| "finalize_active (AiCodeInterpreterCall item) = map_option OiCodeInterpreterCall item"
| "finalize_active (AiToolSearchCall item) = Some (OiToolSearchCall item)"
| "finalize_active (AiMessage s) = Some (finalize_message s)"
| "finalize_active (AiCustomToolCall s) = Some (finalize_custom_call s)"
| "finalize_active (AiWebSearchCall item) = map_option OiWebSearchCall item"
| "finalize_active (AiMcpCall item) = Some (OiMcpCall item)"
| "finalize_active (AiMcpListTools item) = Some (OiMcpListTools item)"
| "finalize_active (AiCompaction item) = Some (OiCompaction item)"
| "finalize_active (AiMultiAgentCall item) = Some (OiMultiAgentCall item)"
| "finalize_active (AiMultiAgentCallOutput item) = Some (OiMultiAgentCallOutput item)"
| "finalize_active (AiAgentMessage s) = Some (OiAgentMessage (ams_item s))"

fun retained_active :: "active_item \<Rightarrow> nat" where
  "retained_active (AiMessage s) = retained_message_state s"
| "retained_active (AiReasoning s) = retained_reasoning_state s"
| "retained_active (AiFunctionCall s) = retained_function_state s"
| "retained_active (AiCustomToolCall s) = retained_custom_state s"
| "retained_active (AiShellCall s) = retained_shell_state s"
| "retained_active (AiCodeInterpreterCall item) = (case item of None \<Rightarrow> OVERHEAD | Some c \<Rightarrow> retained_code_call c)"
| "retained_active (AiToolSearchCall item) = retained_tool_search_call item"
| "retained_active (AiWebSearchCall item) = (case item of None \<Rightarrow> OVERHEAD | Some c \<Rightarrow> retained_web_search_call c)"
| "retained_active (AiMcpCall item) = retained_mcp_call item"
| "retained_active (AiMcpListTools item) = retained_mcp_list_tools item"
| "retained_active (AiCompaction item) = retained_compaction item"
| "retained_active (AiMultiAgentCall item) = retained_multi_agent_call item"
| "retained_active (AiMultiAgentCallOutput item) = retained_multi_agent_output item"
| "retained_active (AiAgentMessage s) = retained_agent_message_state s"

end
