(* ===== verification/Active_Cost.thy ===== *)
theory Active_Cost
  imports Active_Items
begin

text \<open>
  What a streaming item costs: every step charges the slot's account and the shared budget alike, and a
  step that succeeds has paid for all that it retains. The interface \<open>charged_state\<close> states both laws; it is
  interpreted on the state of every kind and on the item of any kind.
\<close>

section \<open>Accounts that mirror the budget\<close>

definition account_ok :: "account_state \<Rightarrow> bool" where
  "account_ok a \<longleftrightarrow>
     (case snd a of None \<Rightarrow> False
      | Some b \<Rightarrow> rb_used b \<le> rb_limit b \<and> rb_limit b \<le> USIZE_MAX \<and> accounted (fst a) \<le> rb_used b)"

definition spent :: "account_state \<Rightarrow> account_state \<Rightarrow> nat \<Rightarrow> bool" where
  "spent a a' n \<longleftrightarrow>
     (case (snd a, snd a') of
        (Some b, Some b') \<Rightarrow> accounted (fst a') = accounted (fst a) + n \<and> rb_used b' = rb_used b + n
          \<and> rb_limit b' = rb_limit b \<and> rb_used b' \<le> rb_limit b
      | _ \<Rightarrow> False)"

lemma spent_ok: "account_ok a \<Longrightarrow> spent a a' n \<Longrightarrow> account_ok a'"
  by (auto simp: account_ok_def spent_def split: option.splits)

lemma spent_trans: "spent a b m \<Longrightarrow> spent b c n \<Longrightarrow> spent a c (m + n)"
  by (auto simp: spent_def split: option.splits)

lemma spent_refl: "account_ok a \<Longrightarrow> spent a a 0"
  by (auto simp: spent_def account_ok_def split: option.splits)

lemma spent_accounted: "spent a a' n \<Longrightarrow> accounted (fst a') = accounted (fst a) + n"
  by (auto simp: spent_def split: option.splits)

lemma charge_spent:
  assumes "account_ok a" and "charge n a = (a', r)"
  shows "spent a a' (if is_ok r then n else 0)"
  using assms
  by (cases a) (auto simp: account_ok_def spent_def charge_Some saturating_add_def split: option.splits if_splits)

section \<open>The interface of charged states\<close>

locale charged_state =
  fixes step :: "'p \<Rightarrow> 's charged \<Rightarrow> ('s charged, executor_error, unit) outcome"
    and bytes :: "'s \<Rightarrow> nat"
  assumes step_spends: "account_ok a \<Longrightarrow> step p (s, a) = ((s', a'), r) \<Longrightarrow> \<exists>n. spent a a' n"
    and step_pays: "account_ok a \<Longrightarrow> step p (s, a) = ((s', a'), Inr ()) \<Longrightarrow>
      bytes s' + accounted (fst a) \<le> bytes s + accounted (fst a')"
begin

fun steps :: "'p list \<Rightarrow> 's charged \<Rightarrow> ('s charged, executor_error, unit) outcome" where
  "steps [] st = (st, Inr ())"
| "steps (p # ps) st = attempt (step p st) (\<lambda>st _. steps ps st)"

lemma step_keeps_paid:
  assumes "account_ok a" "step p (s, a) = ((s', a'), Inr ())" "bytes s + extra \<le> accounted (fst a)"
  shows "bytes s' + extra \<le> accounted (fst a')"
  using step_pays [OF assms(1,2)] assms(3) by linarith

lemma steps_keep_paid:
  assumes "account_ok a" "steps ps (s, a) = ((s', a'), Inr ())" "bytes s + extra \<le> accounted (fst a)"
  shows "bytes s' + extra \<le> accounted (fst a') \<and> account_ok a'"
  using assms
proof (induction ps arbitrary: s a)
  case (Cons p ps)
  from Cons.prems(2) obtain s1 a1 where 1: "step p (s, a) = ((s1, a1), Inr ())"
    and 2: "steps ps (s1, a1) = ((s', a'), Inr ())"
    by (auto simp: attempt_def split: prod.splits sum.splits)
  from step_spends [OF Cons.prems(1) 1] obtain n where "spent a a1 n" by blast
  then have "account_ok a1" using Cons.prems(1) spent_ok by blast
  then show ?case using Cons.IH [OF _ 2] step_keeps_paid [OF Cons.prems(1) 1 Cons.prems(3)] by blast
qed simp

end

text \<open>Steps are built from payments, measured growth and updates; these rules follow that shape. \<open>paid_step bytes s a\<close>
  says of an outcome what the two laws ask.\<close>

definition paid_step ::
    "('s \<Rightarrow> nat) \<Rightarrow> 's charged \<Rightarrow> ('s charged, executor_error, 'a) outcome \<Rightarrow> nat \<Rightarrow> bool" where
  "paid_step bytes st r extra \<longleftrightarrow>
     (\<exists>n. spent (snd st) (snd (fst r)) n) \<and>
     (is_ok (snd r) \<longrightarrow>
        bytes (fst (fst r)) + accounted (fst (snd st)) \<le> bytes (fst st) + extra + accounted (fst (snd (fst r))))"

lemma paid_step_ok:
  assumes "account_ok (snd st)" "bytes (fst st') \<le> bytes (fst st) + extra" "snd st' = snd st"
  shows "paid_step bytes st (st', Inr x) extra"
  using assms spent_refl by (fastforce simp: paid_step_def)

lemma paid_step_error: "account_ok (snd st) \<Longrightarrow> snd st' = snd st \<Longrightarrow> paid_step bytes st (st', Inl e) extra"
  using spent_refl by (fastforce simp: paid_step_def)

lemma paid_step_pay:
  assumes ok: "account_ok (snd st)"
    and k: "\<And>a'. account_ok a' \<Longrightarrow> paid_step bytes (fst st, a') (k (fst st, a') ()) (extra + n)"
  shows "paid_step bytes st (attempt (pay n st) k) extra"
proof -
  obtain a' r where c: "charge n (snd st) = (a', r)" by fastforce
  from charge_spent [OF ok c] have s: "spent (snd st) a' (if is_ok r then n else 0)" .
  show ?thesis
  proof (cases r)
    case (Inl e)
    then show ?thesis using c s by (auto simp: paid_step_def attempt_def pay_def)
  next
    case (Inr u)
    with s have s': "spent (snd st) a' n" by simp
    from k [OF spent_ok [OF ok s']] obtain m where
      m: "spent a' (snd (fst (k (fst st, a') ()))) m" and
      p: "is_ok (snd (k (fst st, a') ())) \<longrightarrow>
        bytes (fst (fst (k (fst st, a') ()))) + accounted (fst a')
          \<le> bytes (fst st) + (extra + n) + accounted (fst (snd (fst (k (fst st, a') ()))))"
      by (auto simp: paid_step_def)
    have "attempt (pay n st) k = k (fst st, a') ()" using c Inr by (simp add: attempt_def pay_def)
    then show ?thesis
      using spent_trans [OF s' m] p spent_accounted [OF s'] by (auto simp: paid_step_def)
  qed
qed

lemma paid_step_grow:
  assumes ok: "account_ok a" and m: "bytes (f s) + msr s \<le> bytes s + msr (f s)"
  shows "paid_step bytes (s, a) (grow msr f s a) 0"
proof -
  obtain a' r where c: "charge (saturating_sub (msr (f s)) (msr s)) a = (a', r)" by fastforce
  note s = charge_spent [OF ok c]
  show ?thesis
    using m c s spent_accounted [OF s] by (auto simp: paid_step_def grow_def saturating_sub_def)
qed

section \<open>The kinds\<close>

lemma paid_step_laws:
  assumes "\<And>p s a. account_ok a \<Longrightarrow> paid_step bytes (s, a) (step p (s, a)) 0"
  shows "charged_state step bytes"
proof unfold_locales
  fix a p s s' a' r
  assume ok: "account_ok a" and run: "step p (s, a) = ((s', a'), r)"
  show "\<exists>n. spent a a' n" using assms [OF ok, of s p] run by (simp add: paid_step_def)
next
  fix a p s s' a'
  assume ok: "account_ok a" and run: "step p (s, a) = ((s', a'), Inr ())"
  show "bytes s' + accounted (fst a) \<le> bytes s + accounted (fst a')"
    using assms [OF ok, of s p] run by (simp add: paid_step_def)
qed

lemma apply_function_call_paid: "account_ok a \<Longrightarrow> paid_step retained_function_state (s, a) (apply_function_call codec p (s, a)) 0"
  by (cases p)
    (auto simp: apply_function_call_def finish_ok_def update_def retained_function_state_def
      intro!: paid_step_ok paid_step_pay paid_step_grow)

interpretation function_state: charged_state "apply_function_call codec" retained_function_state for codec
  by (rule paid_step_laws) (rule apply_function_call_paid)

lemma apply_custom_call_paid: "account_ok a \<Longrightarrow> paid_step retained_custom_state (s, a) (apply_custom_call codec p (s, a)) 0"
  by (cases p)
    (auto simp: apply_custom_call_def finish_ok_def update_def retained_custom_state_def
      intro!: paid_step_ok paid_step_pay paid_step_grow)

interpretation custom_state: charged_state "apply_custom_call codec" retained_custom_state for codec
  by (rule paid_step_laws) (rule apply_custom_call_paid)

lemma sum_list_update:
  "sum_list (map (f \<circ> snd) (AList.update n v m)) + (case map_of m n of Some w \<Rightarrow> f w | None \<Rightarrow> 0) =
   sum_list (map (f \<circ> snd) m) + (f v :: nat)"
  by (induction m) auto

lemma set_part_bytes:
  "retained_message_state (set_part n part s) + (case map_of (mgs_parts s) n of Some p \<Rightarrow> retained_part p | None \<Rightarrow> 0) =
   retained_message_state s + retained_part part"
  using sum_list_update [of retained_part n part "mgs_parts s"] by (simp add: retained_message_state_def set_part_def)

lemma part_mut_paid:
  assumes "account_ok a"
    and "\<And>s' a' part. account_ok a' \<Longrightarrow> map_of (mgs_parts s') n = Some part \<Longrightarrow>
      paid_step retained_message_state (s', a') (k (s', a') part) 0"
  shows "paid_step retained_message_state (s, a) (attempt (part_mut n (s, a)) k) 0"
proof (cases "map_of (mgs_parts s) n")
  case (Some part)
  then show ?thesis using assms by (simp add: part_mut_def attempt_def)
next
  case None
  let ?s = "s\<lparr>mgs_parts := mgs_parts s @ [(n, empty_part)]\<rparr>"
  have at: "attempt (part_mut n (s, a)) k = attempt (pay (retained_part empty_part) (s, a)) (\<lambda>st _. k (?s, snd st) empty_part)"
  proof -
    obtain a' r where "charge (retained_part empty_part) a = (a', r)" by fastforce
    then show ?thesis using None by (cases r) (simp_all add: part_mut_def attempt_def pay_def update_def)
  qed
  have look: "map_of (mgs_parts ?s) n = Some empty_part" using None by (simp add: map_add_Some_iff)
  have "retained_message_state ?s = retained_message_state s + retained_part empty_part"
    by (simp add: retained_message_state_def)
  then have "paid_step retained_message_state (s, a') (k (?s, a') empty_part) (retained_part empty_part)"
    if "account_ok a'" for a'
    using assms(2) [OF that look] by (auto simp: paid_step_def)
  then show ?thesis unfolding at by (intro paid_step_pay) (use assms(1) in auto)
qed

lemma set_part_paid:
  assumes "account_ok a" and "map_of (mgs_parts s) n = old"
    and "retained_part new \<le> (case old of Some p \<Rightarrow> retained_part p | None \<Rightarrow> 0) + extra"
  shows "paid_step retained_message_state (s, a) (finish_ok (update (set_part n new) (s, a))) extra"
  using set_part_bytes [of n new s] assms by (auto simp: finish_ok_def update_def intro!: paid_step_ok split: option.splits)

lemma apply_message_paid:
  assumes ok: "account_ok a"
  shows "paid_step retained_message_state (s, a) (apply_message p (s, a)) 0"
proof (cases p)
  case (PlTextDelta delta iid i n)
  have "paid_step retained_message_state (s', a')
      (case part of
         PartCompleted _ \<Rightarrow> ((s', a'), Inl (InvalidRequest ''output text follows a completed message part''))
       | PartStreaming text _ \<Rightarrow> attempt (pay (length delta) (s', a')) (\<lambda>st _.
           finish_ok (update (set_part n (PartStreaming (text @ delta) True)) st))) 0"
    if "account_ok a'" "map_of (mgs_parts s') n = Some part" for s' a' part
    using that by (cases part) (auto intro!: paid_step_error paid_step_pay set_part_paid)
  then show ?thesis unfolding PlTextDelta apply_message_def by (simp add: part_mut_paid ok)
next
  case (PlTextDone body iid i n)
  have "paid_step retained_message_state (s', a')
      (case part of
         PartCompleted _ \<Rightarrow> ((s', a'), Inl (InvalidRequest ''output text follows a completed message part''))
       | PartStreaming retained streamed \<Rightarrow>
           if streamed then finish_ok (s', a')
           else attempt (pay (saturating_sub (length body) (length retained)) (s', a')) (\<lambda>st _.
             finish_ok (update (set_part n (PartStreaming body False)) st))) 0"
    if "account_ok a'" "map_of (mgs_parts s') n = Some part" for s' a' part
    using that
    by (cases part)
      (auto simp: finish_ok_def saturating_sub_def intro: paid_step_ok paid_step_error
        intro!: paid_step_pay set_part_paid [unfolded finish_ok_def])
  then show ?thesis unfolding PlTextDone apply_message_def by (simp add: part_mut_paid ok)
next
  case (PlContentPartDone iid i n part)
  show ?thesis
    unfolding PlContentPartDone apply_message_def
    by (auto simp: saturating_sub_def ok intro!: paid_step_error paid_step_pay set_part_paid split: option.splits text_part.splits)
qed (simp_all add: apply_message_def finish_ok_def paid_step_ok ok)

interpretation message_state: charged_state apply_message retained_message_state
  by (rule paid_step_laws) (rule apply_message_paid)

section \<open>Reasoning, shell calls, agent messages\<close>

lemma counter_update_bytes:
  "streamed_counter_bytes (AList.update n v m) + streamed_part_bytes m n = streamed_counter_bytes m + (OVERHEAD + v)"
  by (induction m) (auto simp: streamed_counter_bytes_def streamed_part_bytes_def)

lemma counter_delete_bytes:
  "streamed_counter_bytes (AList.delete n m) + streamed_part_bytes m n \<le> streamed_counter_bytes m"
proof (induction m)
  case (Cons e m)
  have "streamed_counter_bytes (AList.delete n m) \<le> streamed_counter_bytes m"
    by (induction m) (auto simp: streamed_counter_bytes_def)
  with Cons show ?case by (cases e) (auto simp: streamed_counter_bytes_def streamed_part_bytes_def)
qed (simp add: streamed_counter_bytes_def streamed_part_bytes_def)

lemma insert_at_bytes:
  "sum_retained f (insert_at_part_index xs n x) = sum_retained f xs + f x"
proof -
  have "sum_list (map f xs) = sum_list (map f (take i xs)) + sum_list (map f (drop i xs))" for i
    by (metis append_take_drop_id map_append sum_list_append)
  then show ?thesis by (simp add: sum_retained_def insert_at_part_index_def Let_def)
qed

lemma inserted_bytes_insert: "inserted_bytes (insert_at_part_index xs n x) (length xs) n = OVERHEAD + length x"
  by (simp add: inserted_bytes_def insert_at_part_index_def Let_def nth_append min_def)

lemma inserted_bytes_none [simp]: "inserted_bytes xs (length xs) n = 0"
  by (simp add: inserted_bytes_def)

lemma count_streamed_paid:
  assumes ok: "account_ok a"
    and put: "\<And>m s. retained_reasoning_state (put m s) + streamed_counter_bytes (get s) =
      retained_reasoning_state s + streamed_counter_bytes m"
  shows "paid_step retained_reasoning_state (s, a) (count_streamed get put n delta (s, a)) 0"
proof -
  have step: "paid_step retained_reasoning_state (s, a')
      (attempt (pay (length delta) (s, a')) (\<lambda>st _.
         finish_ok (update (\<lambda>s. put (AList.update n
           ((case map_of (get s) n of Some bytes \<Rightarrow> bytes | None \<Rightarrow> 0) + length delta) (get s)) s) st)))
      (if map_of (get s) n = None then OVERHEAD else 0)"
    if "account_ok a'" for a'
    using that put [of "AList.update n ((case map_of (get s) n of Some bytes \<Rightarrow> bytes | None \<Rightarrow> 0) + length delta) (get s)" s]
      counter_update_bytes [of n "(case map_of (get s) n of Some bytes \<Rightarrow> bytes | None \<Rightarrow> 0) + length delta" "get s"]
    by (auto simp: finish_ok_def update_def streamed_part_bytes_def split: option.splits intro!: paid_step_pay paid_step_ok)
  show ?thesis
  proof (cases "map_of (get s) n")
    case None
    then show ?thesis unfolding count_streamed_def
      by simp (rule paid_step_pay, use ok step None in auto)
  next
    case (Some bytes)
    have skip: "attempt (finish_ok st) k = k st ()" for st k
      by (simp add: attempt_def finish_ok_def)
    show ?thesis using step [OF ok] Some by (simp add: count_streamed_def skip)
  qed
qed

lemma apply_reasoning_paid:
  assumes ok: "account_ok a"
  shows "paid_step retained_reasoning_state (s, a) (apply_reasoning codec uuid p (s, a)) 0"
proof (cases p)
  case (PlReasoningTextDelta delta iid i n)
  then show ?thesis
    by (simp add: apply_reasoning_def) (rule count_streamed_paid, simp_all add: ok retained_reasoning_state_def)
next
  case (PlReasoningSummaryTextDelta delta iid i n)
  then show ?thesis
    by (simp add: apply_reasoning_def) (rule count_streamed_paid, simp_all add: ok retained_reasoning_state_def)
next
  case (PlReasoningTextDone body iid i n)
  show ?thesis
    unfolding PlReasoningTextDone apply_reasoning_def Let_def event_payload.case fst_conv snd_conv
    by (rule paid_step_grow)
      (use counter_delete_bytes [of n "rgs_content_streamed s"] in
       \<open>auto simp: ok retained_reasoning_state_def retained_reasoning_def insert_at_bytes inserted_bytes_insert
          streamed_part_bytes_def\<close>)
next
  case (PlReasoningSummaryTextDone body iid i n)
  show ?thesis
    unfolding PlReasoningSummaryTextDone apply_reasoning_def Let_def event_payload.case fst_conv snd_conv
    by (rule paid_step_grow)
      (use counter_delete_bytes [of n "rgs_summary_streamed s"] in
       \<open>auto simp: ok retained_reasoning_state_def retained_reasoning_def insert_at_bytes inserted_bytes_insert
          streamed_part_bytes_def\<close>)
qed (simp_all add: apply_reasoning_def finish_ok_def paid_step_ok ok)

interpretation reasoning_state: charged_state "apply_reasoning codec uuid" retained_reasoning_state for codec uuid
  by (rule paid_step_laws) (rule apply_reasoning_paid)

lemma shell_commands_bytes:
  "retained_shell_call (c\<lparr>sc_action := (sc_action c)\<lparr>sca_commands := cs\<rparr>\<rparr>) + sum_list (map (\<lambda>x. OVERHEAD + length x) (sca_commands (sc_action c)))
   = retained_shell_call c + sum_list (map (\<lambda>x. OVERHEAD + length x) cs)"
  by (simp add: retained_shell_call_def Let_def)

lemma sum_list_nth_update:
  "n < length xs \<Longrightarrow> sum_list (map f (xs[n := x])) + f (xs ! n) = sum_list (map f xs) + (f x :: nat)"
proof (induction xs arbitrary: n)
  case (Cons y ys)
  then show ?case by (cases n) (auto simp: add.assoc)
qed simp

lemma apply_shell_paid:
  assumes ok: "account_ok a"
  shows "paid_step retained_shell_state (s, a) (apply_shell codec p (s, a)) 0"
proof (cases p)
  case (PlShellCallCommand iid i n upd)
  show ?thesis
  proof (cases upd)
    case (ScuAdded command)
    let ?s = "s\<lparr>shs_item := (shs_item s)\<lparr>sc_action := (sc_action (shs_item s))\<lparr>sca_commands := shell_commands s @ [[]]\<rparr>\<rparr>,
      shs_command := command, shs_command_stream := Some (streamed_commands s @ [False])\<rparr>"
    have "retained_shell_state ?s \<le> retained_shell_state s + (OVERHEAD + length command)"
      using shell_commands_bytes [where c = "shs_item s" and cs = "shell_commands s @ [[]]"] by (simp add: retained_shell_state_def)
    then show ?thesis
      by (auto simp: PlShellCallCommand ScuAdded apply_shell_def Let_def finish_ok_def update_def ok
          intro!: paid_step_error paid_step_pay paid_step_ok)
  next
    case (ScuDelta delta)
    then show ?thesis
      by (auto simp: PlShellCallCommand apply_shell_def Let_def finish_ok_def update_def ok retained_shell_state_def
          intro!: paid_step_error paid_step_pay paid_step_ok)
  next
    case (ScuDone command)
    let ?done = "\<lambda>s. case apply_done_shell_call codec (PlShellCallCommand iid i n (ScuDone command)) (shs_item s, shs_command s) of
        (item, buffer) \<Rightarrow> \<lparr>shs_item = item,
          shs_command_stream = map_option (\<lambda>flags. flags[n := True]) (shs_command_stream s), shs_command = buffer\<rparr>"
    let ?new = "if command = [] then shs_command s else command"
    have "retained_shell_state (?done s) + (length (shell_commands s ! n) + length (shs_command s))
        \<le> retained_shell_state s + (length (shell_commands (?done s) ! n) + length (shs_command (?done s)))"
    proof (cases "n < length (shell_commands s)")
      case True
      then show ?thesis
        using shell_commands_bytes [where c = "shs_item s" and cs = "(shell_commands s)[n := ?new]"]
          sum_list_nth_update [OF True, of "\<lambda>x. OVERHEAD + length x" ?new]
        by (auto simp: retained_shell_state_def split: if_splits)
    next
      case False
      then show ?thesis by (simp add: retained_shell_state_def)
    qed
    then show ?thesis
      by (auto simp: PlShellCallCommand ScuDone apply_shell_def Let_def ok
          simp del: apply_done_shell_call.simps intro!: paid_step_error paid_step_grow)
  qed
qed (simp_all add: apply_shell_def finish_ok_def paid_step_ok ok)

interpretation shell_state: charged_state "apply_shell codec" retained_shell_state for codec
  by (rule paid_step_laws) (rule apply_shell_paid)

lemma apply_agent_message_paid:
  assumes ok: "account_ok a"
  shows "paid_step retained_agent_message_state (s, a) (apply_agent_message p (s, a)) 0"
proof (cases p)
  case (PlContentPartDone iid i n part)
  then show ?thesis
    using sum_list_update [of retained_agent_message_content n part "ams_parts s"]
    by (auto simp: apply_agent_message_def finish_ok_def update_def retained_agent_message_state_def ok
        intro!: paid_step_error paid_step_pay paid_step_ok)
qed (simp_all add: apply_agent_message_def finish_ok_def paid_step_ok ok)

interpretation agent_message_state: charged_state apply_agent_message retained_agent_message_state
  by (rule paid_step_laws) (rule apply_agent_message_paid)

section \<open>Items of any kind\<close>

lemma lift_paid:
  assumes "paid_step bytes (s, a) r 0" and "\<And>s. retained_active (wrap s) = bytes s"
  shows "paid_step retained_active (wrap s, a) (lift_charged wrap r) 0"
  using assms by (auto simp: paid_step_def lift_charged_def split: prod.splits)

lemma apply_event_paid:
  assumes "account_ok a"
  shows "paid_step retained_active (item, a) (apply_event codec uuid p item a) 0"
proof (cases item)
  case (AiMessage s)
  then show ?thesis using lift_paid [OF apply_message_paid [OF assms], of AiMessage] by simp
next
  case (AiReasoning s)
  then show ?thesis using lift_paid [OF apply_reasoning_paid [OF assms], of AiReasoning] by simp
next
  case (AiFunctionCall s)
  then show ?thesis using lift_paid [OF apply_function_call_paid [OF assms], of AiFunctionCall] by simp
next
  case (AiCustomToolCall s)
  then show ?thesis using lift_paid [OF apply_custom_call_paid [OF assms], of AiCustomToolCall] by simp
next
  case (AiShellCall s)
  then show ?thesis using lift_paid [OF apply_shell_paid [OF assms], of AiShellCall] by simp
next
  case (AiAgentMessage s)
  then show ?thesis using lift_paid [OF apply_agent_message_paid [OF assms], of AiAgentMessage] by simp
qed (simp_all add: paid_step_ok assms)

interpretation any_item: charged_state "\<lambda>(codec, uuid, p) (item, a). apply_event codec uuid p item a" retained_active
  by (rule paid_step_laws) (auto simp: apply_event_paid)

text \<open>An event never changes the kind of an item.\<close>

lemma apply_event_type: "active_type (fst (fst (apply_event codec uuid p item a))) = active_type item"
  by (cases item) (simp_all add: lift_charged_def split: prod.splits)

end
