(* ===== verification/Delta_Reassembly.thy ===== *)
theory Delta_Reassembly
  imports Active_Cost
begin

text \<open>
  What streamed deltas become. The reference reads a list of deltas at once: the text of a part is the concatenation of its
  deltas in arrival order. The items under construction take one event at a time, for parts that may interleave,
  and produce the same texts.
\<close>

fun apply_events ::
    "item_codec \<Rightarrow> uuids \<Rightarrow> event_payload list \<Rightarrow> active_item charged \<Rightarrow> (active_item charged, executor_error, unit) outcome" where
  "apply_events codec uuid [] st = (st, Inr ())"
| "apply_events codec uuid (p # ps) st =
     attempt (apply_event codec uuid p (fst st) (snd st)) (\<lambda>st _. apply_events codec uuid ps st)"

lemma apply_events_snoc:
  "apply_events codec uuid (ps @ [p]) st =
     attempt (apply_events codec uuid ps st) (\<lambda>st _. apply_event codec uuid p (fst st) (snd st))"
  by (induction ps arbitrary: st) (auto simp: attempt_def split: prod.splits sum.splits)

section \<open>The reference\<close>

definition delta_text :: "(nat \<times> string) list \<Rightarrow> nat \<Rightarrow> string" where
  "delta_text deltas n = concat (map snd (filter (\<lambda>(m, _). m = n) deltas))"

definition delta_texts :: "(nat \<times> string) list \<Rightarrow> string list" where
  "delta_texts deltas = map (delta_text deltas) (sort (remdups (map fst deltas)))"

definition text_message :: "output_message \<Rightarrow> string list \<Rightarrow> output_message" where
  "text_message item texts =
     item\<lparr>om_content := map (OmcOutputText \<circ> new_output_text) (filter (\<lambda>t. t \<noteq> []) texts), om_status := MsCompleted\<rparr>"

lemma delta_text_snoc: "delta_text (ds @ [(n, d)]) m = (if m = n then delta_text ds m @ d else delta_text ds m)"
  by (simp add: delta_text_def)

lemma delta_text_fresh: "n \<notin> set (map fst ds) \<Longrightarrow> delta_text ds n = []"
  by (force simp: delta_text_def filter_empty_conv)

section \<open>Messages\<close>

definition holds_texts :: "output_message \<Rightarrow> (nat \<times> string) list \<Rightarrow> message_state \<Rightarrow> bool" where
  "holds_texts item ds s \<longleftrightarrow>
     mgs_item s = item\<lparr>om_content := []\<rparr> \<and> distinct (map fst (mgs_parts s)) \<and> set (map fst (mgs_parts s)) = set (map fst ds) \<and>
     (\<forall>n part. map_of (mgs_parts s) n = Some part \<longrightarrow> (\<exists>flag. part = PartStreaming (delta_text ds n) flag))"

lemma holds_texts_delta:
  assumes inv: "holds_texts item ds s" and run: "apply_message (PlTextDelta d iid i n) (s, a) = ((s', a'), Inr u)"
  shows "holds_texts item (ds @ [(n, d)]) s'"
proof -
  have set_text: "holds_texts item (ds @ [(n, d)]) (set_part n (PartStreaming (delta_text ds n @ d) True) s1)"
    if "mgs_item s1 = mgs_item s" "mgs_parts s1 = mgs_parts s \<or> n \<notin> set (map fst ds) \<and> mgs_parts s1 = mgs_parts s @ [(n, empty_part)]" for s1
  proof -
    from that inv have "distinct (map fst (mgs_parts s1))" by (auto simp: holds_texts_def)
    then have "distinct (map fst (AList.update n p (mgs_parts s1)))" for p by (rule distinct_update)
    moreover have "set (map fst (AList.update n p (mgs_parts s1))) = insert n (set (map fst ds))" for p
    proof -
      have "fst ` set (mgs_parts s) = fst ` set ds" using inv by (simp add: holds_texts_def)
      with that(2) show ?thesis by (elim disjE) (simp_all add: dom_update image_Un)
    qed
    moreover have "m = n \<or> map_of (mgs_parts s1) m = map_of (mgs_parts s) m" for m
      using that by (auto simp: map_add_def split: option.splits)
    ultimately show ?thesis using that inv
      by (auto simp: holds_texts_def set_part_def update_conv' delta_text_snoc)
  qed
  show ?thesis
  proof (cases "map_of (mgs_parts s) n")
    case None
    then have "n \<notin> set (map fst ds)" using inv by (simp add: holds_texts_def map_of_eq_None_iff)
    with None run delta_text_fresh [OF this] set_text show ?thesis
      by (auto simp: apply_message_def part_mut_def attempt_def pay_def update_def finish_ok_def empty_part_def
          split: prod.splits sum.splits)
  next
    case (Some part)
    with inv obtain flag where "part = PartStreaming (delta_text ds n) flag" unfolding holds_texts_def by blast
    with Some run set_text show ?thesis
      by (auto simp: apply_message_def part_mut_def attempt_def pay_def update_def finish_ok_def split: prod.splits sum.splits)
  qed
qed

lemma deltas_hold_texts:
  assumes "apply_events codec uuid (map (\<lambda>(n, d). PlTextDelta d iid i n) ds) (AiMessage s0, a) = ((active, a'), Inr ())"
    and "holds_texts item [] s0"
  shows "\<exists>s. active = AiMessage s \<and> holds_texts item ds s"
  using assms(1)
proof (induction ds arbitrary: active a' rule: rev_induct)
  case Nil
  then show ?case using assms(2) by auto
next
  case (snoc e ds)
  obtain n d where e: "e = (n, d)" by fastforce
  from snoc.prems obtain active1 a1 where run: "apply_events codec uuid (map (\<lambda>(n, d). PlTextDelta d iid i n) ds) (AiMessage s0, a) = ((active1, a1), Inr ())"
    and last: "apply_event codec uuid (PlTextDelta d iid i n) active1 a1 = ((active, a'), Inr ())"
    by (auto simp: apply_events_snoc e attempt_def split: prod.splits sum.splits)
  from snoc.IH [OF run] obtain s where s: "active1 = AiMessage s" "holds_texts item ds s" by blast
  from last s(1) obtain s' where "active = AiMessage s'" "apply_message (PlTextDelta d iid i n) (s, a1) = ((s', a'), Inr ())"
    by (auto simp: lift_charged_def split: prod.splits)
  with holds_texts_delta [OF s(2)] e show ?case by blast
qed

lemma finalize_texts:
  assumes "holds_texts item ds s"
  shows "finalize_message s = OiMessage (text_message item (delta_texts ds))"
proof -
  define xs where "xs = sort_key fst (mgs_parts s)"
  from assms have d: "distinct (map fst (mgs_parts s))" and keys: "fst ` set (mgs_parts s) = fst ` set ds"
    and parts: "\<And>n part. map_of (mgs_parts s) n = Some part \<Longrightarrow> \<exists>flag. part = PartStreaming (delta_text ds n) flag"
    by (simp_all add: holds_texts_def)
  have "sorted (map fst xs)" "distinct (map fst xs)" "set (map fst xs) = fst ` set ds"
    using d keys by (simp_all add: xs_def distinct_map)
  then have fsts: "map fst xs = sort (remdups (map fst ds))" by (intro sorted_distinct_set_unique) simp_all
  have "concat (map part_content (map snd ys)) =
      map (OmcOutputText \<circ> new_output_text) (filter (\<lambda>t. t \<noteq> []) (map (delta_text ds) (map fst ys)))" if "set ys \<subseteq> set xs" for ys
    using that
  proof (induction ys)
    case (Cons y ys)
    obtain n part where y: "y = (n, part)" by fastforce
    with Cons.prems d have "map_of (mgs_parts s) n = Some part" by (simp add: xs_def)
    with parts obtain flag where "part = PartStreaming (delta_text ds n) flag" by blast
    then show ?case using Cons y by simp
  qed simp
  from this [of xs, unfolded fsts] show ?thesis
    using assms by (simp add: finalize_message_def ordered_parts_def xs_def delta_texts_def text_message_def holds_texts_def)
qed

text \<open>C19. A streamed message is reassembled without loss or reordering: whatever parts its deltas belong to and
  however the parts interleave, the finished message has the non-empty texts in part order, and the text of each part is
  the concatenation of its deltas in the order in which they arrived.\<close>

theorem interleaved_deltas_reassembled:
  assumes "apply_events codec uuid (map (\<lambda>(n, d). PlTextDelta d iid i n) deltas) (AiMessage (new_message_state item), acct) =
      ((active, acct'), Inr ())"
    and "om_content item = []"
  shows "finalize_active active = Some (OiMessage (text_message item (delta_texts deltas)))"
proof -
  have "holds_texts item [] (new_message_state item)"
    using assms(2) by (simp add: holds_texts_def new_message_state_def)
  from deltas_hold_texts [OF assms(1) this] show ?thesis by (auto dest: finalize_texts)
qed

theorem interleaved_deltas_reassembled_witness:
  "\<forall>codec uuid. \<exists>active acct'. apply_events codec uuid (map (\<lambda>(n, d). PlTextDelta d ''m'' None n) [(1, ''b''), (0, ''a''), (1, ''c'')])
      (AiMessage (new_message_state (new_message ''m'' MsInProgress)), (new_account, None)) = ((active, acct'), Inr ()) \<and>
    finalize_active active = Some (OiMessage (text_message (new_message ''m'' MsInProgress) [''a'', ''bc'']))"
proof (intro allI)
  fix codec uuid
  let ?run = "apply_events codec uuid (map (\<lambda>(n, d). PlTextDelta d ''m'' None n) [(1, ''b''), (0, ''a''), (1, ''c'')])
      (AiMessage (new_message_state (new_message ''m'' MsInProgress)), (new_account, None))"
  have "snd ?run = Inr ()"
    by (simp add: attempt_def lift_charged_def apply_message_def part_mut_def pay_def charge_def update_def finish_ok_def
        new_message_state_def new_message_def set_part_def empty_part_def RETAINED_CONTAINER_OVERHEAD_BYTES_def enumerate_simps)
  then obtain active acct' where run: "?run = ((active, acct'), Inr ())" by (metis prod.collapse)
  have "delta_texts [(1, ''b''), (0, ''a''), (1, ''c'')] = [''a'', ''bc'']" by (simp add: delta_texts_def delta_text_def)
  with interleaved_deltas_reassembled [OF run] run show "\<exists>active acct'. ?run = ((active, acct'), Inr ()) \<and>
      finalize_active active = Some (OiMessage (text_message (new_message ''m'' MsInProgress) [''a'', ''bc'']))"
    by (simp add: new_message_def)
qed

end
