(* ===== verification/Slot_Map.thy ===== *)
theory Slot_Map
  imports Active_Cost Frame_Validation Item_History Json_Values
begin

text \<open>
  Identity and lifecycle of the output items of one inference round
  (\<open>core/executor/accumulator/slot.rs\<close>, \<open>slot/identity.rs\<close>, and the identities of
  \<open>accumulator/identity.rs\<close>): which slot an event is about, the transitions from open to done, repeated and
  done-only completions, and the drain in output order.
\<close>

section \<open>Identities\<close>

datatype validation = Strict | Lenient

record item_identity =
  idn_index :: "nat option"
  idn_item_id :: "string option"
  idn_item_type :: "sse_item_type option"
  idn_event_agent :: "agent_attribution option"

fun output_item_call_id :: "output_item \<Rightarrow> string option" where
  "output_item_call_id (OiFunctionCall call) = Some (ftc_call_id call)"
| "output_item_call_id (OiToolSearchCall call) = tsc_call_id call"
| "output_item_call_id (OiCustomToolCall call) = Some (ctc_call_id call)"
| "output_item_call_id (OiShellCall call) = Some (sc_call_id call)"
| "output_item_call_id (OiMultiAgentCall call) = Some (mac_call_id call)"
| "output_item_call_id (OiMultiAgentCallOutput out) = Some (mao_call_id out)"
| "output_item_call_id _ = None"

definition nonempty :: "string \<Rightarrow> string option" where
  "nonempty s = (if s = [] then None else Some s)"

definition event_item_id :: "event_frame \<Rightarrow> string" where
  "event_item_id frame =
     (case ef_payload frame of
        PlContentPartDone iid _ _ _ \<Rightarrow> iid
      | PlTextDelta _ iid _ _ \<Rightarrow> iid
      | PlTextDone _ iid _ _ \<Rightarrow> iid
      | PlFunctionCallArgsDelta _ _ iid _ \<Rightarrow> iid
      | PlFunctionCallArgsDone _ _ iid _ _ \<Rightarrow> iid
      | PlCustomToolCallInputDelta _ iid _ \<Rightarrow> iid
      | PlCustomToolCallInputDone _ iid _ \<Rightarrow> iid
      | PlReasoningTextDelta _ iid _ _ \<Rightarrow> iid
      | PlReasoningTextDone _ iid _ _ \<Rightarrow> iid
      | PlReasoningSummaryTextDelta _ iid _ _ \<Rightarrow> iid
      | PlReasoningSummaryTextDone _ iid _ _ \<Rightarrow> iid
      | _ \<Rightarrow> or_empty (Option.bind (map_of (we_rest (ef_wire frame)) ''item_id'') as_str))"

text \<open>The identity a validated frame was checked for, or the one its payload claims.\<close>

definition claimed_identity :: "event_frame \<Rightarrow> item_identity option" where
  "claimed_identity frame =
     (case (case ef_payload frame of
              PlOutputItemAdded iid t _ _ _ _ _ \<Rightarrow> Some (iid, Some t)
            | PlOutputItemDone iid t _ _ \<Rightarrow> Some (iid, Some t)
            | _ \<Rightarrow>
                (let t = expected_item_type (ef_event_type frame) in
                 if t = None \<and> ef_event_type frame \<notin> {EvContentPartAdded, EvContentPartDone} then None
                 else Some (event_item_id frame, t))) of
        None \<Rightarrow> None
      | Some (iid, t) \<Rightarrow> Some
          \<lparr>idn_index = output_index frame, idn_item_id = nonempty iid, idn_item_type = t,
           idn_event_agent = we_agent (ef_wire frame)\<rparr>)"

definition frame_identity :: "event_frame \<Rightarrow> validated_item option \<Rightarrow> item_identity option" where
  "frame_identity frame validated =
     (case validated of
        Some item \<Rightarrow> Some
          \<lparr>idn_index = Some (vi_output_index item), idn_item_id = nonempty (vi_item_id item),
           idn_item_type = vi_item_type item, idn_event_agent = we_agent (ef_wire frame)\<rparr>
      | None \<Rightarrow> claimed_identity frame)"

section \<open>Slots\<close>

datatype slot_state = SlotActive active_item | SlotDone output_item

record slot =
  sl_item_id :: "string option"
  sl_event_agent :: "agent_attribution option"
  sl_state :: slot_state
  sl_account :: retained_account

record slot_map =
  sm_slots :: "(nat, slot) index_map"
  sm_indexes_by_id :: "string \<rightharpoonup> nat"
  sm_completion_uncertain :: bool

definition no_slots :: slot_map where
  "no_slots = \<lparr>sm_slots = [], sm_indexes_by_id = Map.empty, sm_completion_uncertain = False\<rparr>"

datatype slot_action = ActOpen | ActMutate | ActComplete

fun active_call_id :: "active_item \<Rightarrow> string option" where
  "active_call_id (AiFunctionCall s) = Some (ftc_call_id (fcs_item s))"
| "active_call_id (AiCustomToolCall s) = Some (ctc_call_id (ccs_item s))"
| "active_call_id (AiShellCall s) = Some (sc_call_id (shs_item s))"
| "active_call_id (AiToolSearchCall item) = tsc_call_id item"
| "active_call_id _ = None"

fun state_call_id :: "slot_state \<Rightarrow> string option" where
  "state_call_id (SlotActive item) = active_call_id item"
| "state_call_id (SlotDone item) = output_item_call_id item"

fun state_id :: "slot_state \<Rightarrow> string option" where
  "state_id (SlotActive item) = active_id item"
| "state_id (SlotDone item) = output_id item"

fun state_type :: "slot_state \<Rightarrow> sse_item_type option" where
  "state_type (SlotActive item) = Some (active_type item)"
| "state_type (SlotDone item) = type_of_item item"

fun state_done_item :: "slot_state \<Rightarrow> output_item option" where
  "state_done_item (SlotActive _) = None"
| "state_done_item (SlotDone item) = Some item"

fun state_finalize :: "slot_state \<Rightarrow> output_item option" where
  "state_finalize (SlotActive item) = finalize_active item"
| "state_finalize (SlotDone item) = Some item"

definition completion_candidate ::
    "item_codec \<Rightarrow> uuids \<Rightarrow> event_payload \<Rightarrow> output_item option \<Rightarrow> string \<Rightarrow> slot_state \<Rightarrow> output_item option" where
  "completion_candidate codec uuid payload parsed iid st =
     Option.bind
       (case st of SlotActive item \<Rightarrow> Some item | SlotDone item \<Rightarrow> from_completed item)
       (\<lambda>candidate. finalize_active (merge_completion codec uuid payload parsed iid candidate))"

definition slot_active :: "slot \<Rightarrow> bool" where
  "slot_active s \<longleftrightarrow> state_done_item (sl_state s) = None"

definition has_active :: "slot_map \<Rightarrow> bool" where
  "has_active m \<longleftrightarrow> (\<exists>(_, s) \<in> set (sm_slots m). slot_active s)"

definition slots_at_boundary :: "slot_map \<Rightarrow> bool" where
  "slots_at_boundary m \<longleftrightarrow> sm_slots m \<noteq> [] \<and> \<not> has_active m \<and> \<not> sm_completion_uncertain m"

definition get_slot :: "slot_map \<Rightarrow> nat \<Rightarrow> slot option" where
  "get_slot m n = map_of (sm_slots m) n"

definition semantically_equal :: "item_codec \<Rightarrow> output_item \<Rightarrow> output_item \<Rightarrow> bool" where
  "semantically_equal codec left right \<longleftrightarrow>
     (case (item_json (ic_events codec) left, item_json (ic_events codec) right) of
        (Some v, Some w) \<Rightarrow> json_equal v w
      | _ \<Rightarrow> False)"

section \<open>Resolving an identity\<close>

definition identity_mismatch :: executor_error where
  "identity_mismatch = InvalidRequest
     ''upstream stream event does not match its active output item: inconsistent item ID, output_index, or kind''"

definition no_active_item :: executor_error where
  "no_active_item = InvalidRequest ''upstream stream event has no active output item''"

text \<open>The least unused index is at most the number of slots, so the search stops there.\<close>

definition unused_index :: "slot_map \<Rightarrow> executor_error + nat" where
  "unused_index m =
     (case find (\<lambda>n. get_slot m n = None) [0..<Suc (length (sm_slots m))] of
        Some n \<Rightarrow> if n \<le> U32_MAX then Inr n else Inl (InvalidRequest ''upstream stream exhausted output indexes'')
      | None \<Rightarrow> Inl (InvalidRequest ''upstream stream exhausted output indexes''))"

definition ambiguous :: "item_identity \<Rightarrow> slot_map \<Rightarrow> bool" where
  "ambiguous identity m \<longleftrightarrow>
     (\<exists>(_, s) \<in> set (sm_slots m). state_type (sl_state s) = idn_item_type identity \<and>
        (sl_item_id s = None \<or> idn_item_id identity = None))"

text \<open>The index an event without a slot of its own would take.\<close>

definition located ::
    "item_identity \<Rightarrow> slot_action \<Rightarrow> validation \<Rightarrow> slot_map \<Rightarrow> executor_error + nat option" where
  "located identity action validation m =
     (let index_only_shell_command = (idn_item_type identity = Some SiShellCall \<and> action = ActMutate);
          by_id = Option.bind (idn_item_id identity) (sm_indexes_by_id m)
      in if validation = Strict \<and> (idn_index identity = None \<or> (idn_item_id identity = None \<and> \<not> index_only_shell_command))
         then Inl (InvalidRequest (''upstream item requires '' @ [CHR 0x27] @ ''output_index'' @ [CHR 0x27] @ '' and a non-empty item ID''))
         else if (case (idn_index identity, by_id) of (Some n, Some known) \<Rightarrow> n \<noteq> known | _ \<Rightarrow> False)
         then Inl identity_mismatch
         else (case (case idn_index identity of Some n \<Rightarrow> Some n | None \<Rightarrow> by_id) of
             Some n \<Rightarrow> Inr (Some n)
           | None \<Rightarrow>
               if action \<noteq> ActOpen \<and> ambiguous identity m
               then Inl (InvalidRequest (''upstream item has ambiguous identity without '' @ [CHR 0x27] @ ''output_index'' @ [CHR 0x27]))
               else if action = ActMutate then Inr None
               else map_sum id Some (unused_index m)))"

definition kind_matches :: "item_identity \<Rightarrow> slot_action \<Rightarrow> slot \<Rightarrow> bool" where
  "kind_matches identity action s \<longleftrightarrow>
     (case idn_item_type identity of
        Some kind \<Rightarrow> state_type (sl_state s) = Some kind
      | None \<Rightarrow> action = ActMutate \<and> state_type (sl_state s) \<in> {Some SiMessage, Some SiAgentMessage})"

definition contradicts :: "'a option \<Rightarrow> 'a option \<Rightarrow> bool" where
  "contradicts bound supplied \<longleftrightarrow> (case (bound, supplied) of (Some a, Some b) \<Rightarrow> a \<noteq> b | _ \<Rightarrow> False)"

definition resolve_slot ::
    "item_identity \<Rightarrow> slot_action \<Rightarrow> validation \<Rightarrow> nat \<Rightarrow> slot option \<Rightarrow> executor_error + nat option" where
  "resolve_slot identity action validation n found =
     (case found of
        None \<Rightarrow>
          if action = ActOpen then Inr (Some n)
          else if action = ActComplete \<and> validation = Lenient then Inr (Some n)
          else if validation = Strict then Inl no_active_item
          else Inr None
      | Some s \<Rightarrow>
          if action = ActOpen
          then Inl (InvalidRequest ''upstream stream repeats output item or reuses its output_index'')
          else if contradicts (sl_item_id s) (idn_item_id identity) then Inl identity_mismatch
          else if contradicts (sl_event_agent s) (idn_event_agent identity)
          then Inl (InvalidRequest (''upstream stream changes an output item'' @ [CHR 0x27] @ ''s event attribution''))
          else if \<not> kind_matches identity action s
          then if action = ActMutate \<and> validation = Lenient then Inr None else Inl identity_mismatch
          else if \<not> slot_active s \<and> (action \<noteq> ActComplete \<or> validation = Strict)
          then if validation = Strict then Inl no_active_item else Inr None
          else Inr (Some n))"

definition resolve ::
    "item_identity \<Rightarrow> slot_action \<Rightarrow> validation \<Rightarrow> slot_map \<Rightarrow> executor_error + nat option" where
  "resolve identity action validation m =
     (case located identity action validation m of
        Inl e \<Rightarrow> Inl e
      | Inr None \<Rightarrow> Inr None
      | Inr (Some n) \<Rightarrow> resolve_slot identity action validation n (get_slot m n))"

section \<open>Operations\<close>

type_synonym slots_state = "slot_map \<times> executor_response_budget option"

definition modify_slot :: "nat \<Rightarrow> (slot \<Rightarrow> slot) \<Rightarrow> slot_map \<Rightarrow> slot_map" where
  "modify_slot n f m = m\<lparr>sm_slots := im_modify n f (sm_slots m)\<rparr>"

definition mark_uncertain :: "bool \<Rightarrow> slot_map \<Rightarrow> slot_map" where
  "mark_uncertain b m = m\<lparr>sm_completion_uncertain := sm_completion_uncertain m \<or> b\<rparr>"

text \<open>The id of a slot is charged apart from its item unless the item has the same one.\<close>

definition id_cost :: "slot_state \<Rightarrow> string option \<Rightarrow> nat" where
  "id_cost st iid = (case iid of None \<Rightarrow> 0 | Some i \<Rightarrow> if state_id st = Some i then 0 else length i)"

definition insert_slot ::
    "nat \<Rightarrow> item_identity \<Rightarrow> slot_state \<Rightarrow> retained_account \<Rightarrow> slots_state \<Rightarrow> (slots_state, executor_error, unit) outcome" where
  "insert_slot n identity state account st =
     (case charge (retained_agent (idn_event_agent identity)) (account, snd st) of
        ((account, b), Inl e) \<Rightarrow> ((fst st, b), Inl e)
      | ((account, b), Inr _) \<Rightarrow>
          (case charge (id_cost state (idn_item_id identity)) (account, b) of
             ((account, b), Inl e) \<Rightarrow> ((fst st, b), Inl e)
           | ((account, b), Inr _) \<Rightarrow>
               (((fst st)\<lparr>sm_indexes_by_id := (case idn_item_id identity of
                      None \<Rightarrow> sm_indexes_by_id (fst st) | Some i \<Rightarrow> (sm_indexes_by_id (fst st))(i \<mapsto> n)),
                    sm_slots := AList.update n \<lparr>sl_item_id = idn_item_id identity,
                      sl_event_agent = idn_event_agent identity, sl_state = state, sl_account = account\<rparr> (sm_slots (fst st))\<rparr>, b),
                Inr ())))"

definition bind_agent :: "nat \<Rightarrow> item_identity \<Rightarrow> slots_state \<Rightarrow> (slots_state, executor_error, unit) outcome" where
  "bind_agent n identity st =
     (case (idn_event_agent identity, get_slot (fst st) n) of
        (Some agent, Some s) \<Rightarrow>
          if sl_event_agent s \<noteq> None then (st, Inr ())
          else (case charge (retained_attribution agent) (sl_account s, snd st) of
                  ((account, b), Inl e) \<Rightarrow> ((modify_slot n (\<lambda>s. s\<lparr>sl_account := account\<rparr>) (fst st), b), Inl e)
                | ((account, b), Inr _) \<Rightarrow>
                    ((modify_slot n (\<lambda>s. s\<lparr>sl_account := account, sl_event_agent := Some agent\<rparr>) (fst st), b), Inr ()))
      | _ \<Rightarrow> (st, Inr ()))"

definition bind_item_id :: "nat \<Rightarrow> item_identity \<Rightarrow> slots_state \<Rightarrow> (slots_state, executor_error, unit) outcome" where
  "bind_item_id n identity st =
     (case (idn_item_id identity, get_slot (fst st) n) of
        (Some i, Some s) \<Rightarrow>
          if sl_item_id s \<noteq> None then (st, Inr ())
          else (case charge (id_cost (sl_state s) (Some i)) (sl_account s, snd st) of
                  ((account, b), Inl e) \<Rightarrow> ((modify_slot n (\<lambda>s. s\<lparr>sl_account := account\<rparr>) (fst st), b), Inl e)
                | ((account, b), Inr _) \<Rightarrow>
                    (((modify_slot n (\<lambda>s. s\<lparr>sl_account := account, sl_item_id := Some i\<rparr>) (fst st))
                        \<lparr>sm_indexes_by_id := (sm_indexes_by_id (fst st))(i \<mapsto> n)\<rparr>, b), Inr ()))
      | _ \<Rightarrow> (st, Inr ()))"

definition bind_identity :: "nat \<Rightarrow> item_identity \<Rightarrow> slots_state \<Rightarrow> (slots_state, executor_error, unit) outcome" where
  "bind_identity n identity st = attempt (bind_agent n identity st) (\<lambda>st _. bind_item_id n identity st)"

definition open_slot ::
    "item_codec \<Rightarrow> uuids \<Rightarrow> item_identity \<Rightarrow> event_payload \<Rightarrow> validation \<Rightarrow> slots_state \<Rightarrow>
     (slots_state, executor_error, nat option) outcome" where
  "open_slot codec uuid identity payload validation st =
     (case resolve identity ActOpen validation (fst st) of
        Inl e \<Rightarrow> (st, Inl e)
      | Inr None \<Rightarrow> (st, Inr None)
      | Inr (Some n) \<Rightarrow>
          (case from_added codec uuid payload of
             Some item \<Rightarrow>
               (case charge (retained_active item) (new_account, snd st) of
                  ((_, b), Inl e) \<Rightarrow> ((fst st, b), Inl e)
                | ((account, b), Inr _) \<Rightarrow>
                    attempt (insert_slot n identity (SlotActive item) account (fst st, b)) (\<lambda>st _. (st, Inr (Some n))))
           | None \<Rightarrow>
               if (case idn_item_type identity of Some t \<Rightarrow> is_collaboration t | None \<Rightarrow> False)
               then (st, Inl (InvalidRequest ''collaboration item has an invalid opening snapshot''))
               else ((mark_uncertain True (fst st), snd st), Inr None)))"

definition observed_call_id :: "event_payload \<Rightarrow> string option" where
  "observed_call_id payload =
     (case payload of
        PlFunctionCallArgsDelta _ c _ _ \<Rightarrow> c
      | PlFunctionCallArgsDone _ c _ _ _ \<Rightarrow> c
      | _ \<Rightarrow> None)"

text \<open>An arguments event that names another call than the slot holds.\<close>

definition call_id_differs :: "event_payload \<Rightarrow> slot_state \<Rightarrow> bool" where
  "call_id_differs payload st \<longleftrightarrow>
     (case (observed_call_id payload, state_call_id st) of
        (Some observed, Some previous) \<Rightarrow> previous \<noteq> [] \<and> observed \<noteq> [] \<and> previous \<noteq> observed
      | _ \<Rightarrow> False)"

definition apply_slot ::
    "item_codec \<Rightarrow> uuids \<Rightarrow> item_identity \<Rightarrow> event_payload \<Rightarrow> validation \<Rightarrow> slots_state \<Rightarrow>
     (slots_state, executor_error, nat option) outcome" where
  "apply_slot codec uuid identity payload validation st =
     (case resolve identity ActMutate validation (fst st) of
        Inl e \<Rightarrow> (st, Inl e)
      | Inr None \<Rightarrow> (st, Inr None)
      | Inr (Some n) \<Rightarrow>
          (case get_slot (fst st) n of
             None \<Rightarrow> (st, Inr None)
           | Some s \<Rightarrow>
               let m = mark_uncertain (call_id_differs payload (sl_state s)) (fst st) in
               attempt
                 (case sl_state s of
                    SlotDone _ \<Rightarrow> ((m, snd st), Inr ())
                  | SlotActive item \<Rightarrow>
                      (case apply_event codec uuid payload item (sl_account s, snd st) of
                         ((item, account, b), r) \<Rightarrow>
                           ((modify_slot n (\<lambda>s. s\<lparr>sl_state := SlotActive item, sl_account := account\<rparr>) m, b), r)))
                 (\<lambda>st _. attempt (bind_identity n identity st) (\<lambda>st _. (st, Inr (Some n))))))"

section \<open>Completion\<close>

text \<open>The snapshot of a completion: the one validation parsed, or what the payload decodes to; a code
  interpreter call without an id repeats the id of the call it completes again.\<close>

definition completion_snapshot :: "item_codec \<Rightarrow> output_item option \<Rightarrow> json \<Rightarrow> output_item option" where
  "completion_snapshot codec validated_done_item raw =
     (case validated_done_item of Some item \<Rightarrow> Some item | None \<Rightarrow> read_item codec raw)"

definition with_previous_id :: "slot option \<Rightarrow> output_item option \<Rightarrow> output_item option" where
  "with_previous_id found parsed =
     (case (parsed, map_option sl_state found) of
        (Some (OiCodeInterpreterCall call), Some (SlotDone (OiCodeInterpreterCall previous))) \<Rightarrow>
          if cic_id call = [] then Some (OiCodeInterpreterCall (call\<lparr>cic_id := cic_id previous\<rparr>)) else parsed
      | _ \<Rightarrow> parsed)"

definition call_id_lost :: "slot option \<Rightarrow> output_item option \<Rightarrow> bool" where
  "call_id_lost found parsed \<longleftrightarrow>
     (case Option.bind found (\<lambda>s. state_call_id (sl_state s)) of
        Some previous \<Rightarrow> previous \<noteq> [] \<and> Option.bind parsed output_item_call_id \<noteq> Some previous
      | None \<Rightarrow> False)"

definition shell_contradicted :: "active_item \<Rightarrow> output_item option \<Rightarrow> bool" where
  "shell_contradicted item parsed \<longleftrightarrow>
     (case item of
        AiShellCall shell \<Rightarrow> tracks_commands shell \<and>
          (has_unfinished_commands shell \<or>
           \<not> (case parsed of
                Some (OiShellCall completed) \<Rightarrow> sca_commands (sc_action completed) = shell_commands shell
              | _ \<Rightarrow> False))
      | _ \<Rightarrow> False)"

definition repeats :: "item_codec \<Rightarrow> output_item \<Rightarrow> output_item option \<Rightarrow> bool" where
  "repeats codec previous candidate \<longleftrightarrow>
     (case candidate of Some item \<Rightarrow> semantically_equal codec previous item | None \<Rightarrow> False)"

text \<open>A done slot accepts only a repetition of its item, and keeps it.\<close>

definition complete_again ::
    "item_codec \<Rightarrow> nat \<Rightarrow> item_identity \<Rightarrow> output_item \<Rightarrow> output_item option \<Rightarrow> output_item option \<Rightarrow> slots_state \<Rightarrow>
     (slots_state, executor_error, nat option) outcome" where
  "complete_again codec n identity previous parsed candidate st =
     (if repeats codec previous parsed \<or> repeats codec previous candidate
      then attempt (bind_identity n identity st) (\<lambda>st _. (st, Inr None))
      else (st, Inl (InvalidRequest
        (''upstream stream contains conflicting repeated output item.done for output['' @ decimal n @ '']''))))"

definition complete_active ::
    "item_codec \<Rightarrow> nat \<Rightarrow> item_identity \<Rightarrow> slot \<Rightarrow> output_item option \<Rightarrow> output_item option \<Rightarrow> slots_state \<Rightarrow>
     (slots_state, executor_error, nat option) outcome" where
  "complete_active codec n identity s parsed candidate st =
     (case candidate of
        None \<Rightarrow> (st, Inr None)
      | Some item \<Rightarrow>
          let m = mark_uncertain (\<not> (case parsed of
                Some original \<Rightarrow> semantically_equal codec item original | None \<Rightarrow> False)) (fst st) in
          (case reconcile (retained_output_item (ic_search_output codec) item + retained_agent (sl_event_agent s))
                  (sl_account s, snd st) of
             ((_, b), Inl e) \<Rightarrow> ((m, b), Inl e)
           | ((account, b), Inr _) \<Rightarrow>
               attempt (bind_identity n identity
                   (modify_slot n (\<lambda>s. s\<lparr>sl_state := SlotDone item, sl_account := account\<rparr>) m, b))
                 (\<lambda>st _. (st, Inr (Some n)))))"

definition done_only_item :: "uuids \<Rightarrow> output_item \<Rightarrow> output_item option" where
  "done_only_item uuid item =
     (case item of
        OiWebSearchCall call \<Rightarrow> Some (OiWebSearchCall (merge_done_web_search uuid call []))
      | OiCodeInterpreterCall call \<Rightarrow> Some (OiCodeInterpreterCall (merge_done_code_call uuid call []))
      | OiMessage _ \<Rightarrow> None
      | OiToolSearchOutput _ \<Rightarrow> None
      | OiUnknown \<Rightarrow> None
      | _ \<Rightarrow> Some item)"

definition complete_done_only ::
    "item_codec \<Rightarrow> uuids \<Rightarrow> nat \<Rightarrow> item_identity \<Rightarrow> output_item option \<Rightarrow> slots_state \<Rightarrow>
     (slots_state, executor_error, nat option) outcome" where
  "complete_done_only codec uuid n identity parsed st =
     (case Option.bind parsed (done_only_item uuid) of
        None \<Rightarrow> (st, Inr None)
      | Some item \<Rightarrow>
          (case charge (retained_output_item (ic_search_output codec) item) (new_account, snd st) of
             ((_, b), Inl e) \<Rightarrow> ((fst st, b), Inl e)
           | ((account, b), Inr _) \<Rightarrow>
               attempt (insert_slot n identity (SlotDone item) account (fst st, b)) (\<lambda>st _. (st, Inr (Some n)))))"

definition complete_slot ::
    "item_codec \<Rightarrow> uuids \<Rightarrow> item_identity \<Rightarrow> event_payload \<Rightarrow> output_item option \<Rightarrow> validation \<Rightarrow> slots_state \<Rightarrow>
     (slots_state, executor_error, nat option) outcome" where
  "complete_slot codec uuid identity payload validated_done_item validation st =
     (case resolve identity ActComplete validation (fst st) of
        Inl e \<Rightarrow> (st, Inl e)
      | Inr None \<Rightarrow> (st, Inr None)
      | Inr (Some n) \<Rightarrow>
          (case payload of
             PlOutputItemDone _ _ _ raw \<Rightarrow>
               (let found = get_slot (fst st) n;
                    snapshot = completion_snapshot codec validated_done_item raw;
                    m = mark_uncertain (call_id_lost found snapshot) (fst st);
                    parsed = with_previous_id found snapshot
                in case found of
                     None \<Rightarrow> complete_done_only codec uuid n identity parsed (mark_uncertain True m, snd st)
                   | Some s \<Rightarrow>
                       let iid = or_empty (case sl_item_id s of Some i \<Rightarrow> Some i | None \<Rightarrow> idn_item_id identity);
                           candidate = completion_candidate codec uuid payload parsed iid (sl_state s) in
                       (case sl_state s of
                          SlotDone previous \<Rightarrow> complete_again codec n identity previous parsed candidate (m, snd st)
                        | SlotActive item \<Rightarrow>
                            (case validate_completion item parsed raw of
                               Inl e \<Rightarrow> ((m, snd st), Inl e)
                             | Inr authoritative \<Rightarrow>
                                 let m = mark_uncertain (\<not> authoritative) m in
                                 if shell_contradicted item parsed
                                 then ((m, snd st), Inl (InvalidRequest ''shell item done has unfinished or contradictory commands''))
                                 else complete_active codec n identity s parsed candidate (m, snd st))))
           | _ \<Rightarrow> (st, Inr None)))"

section \<open>Draining the output\<close>

fun drain_slots ::
    "item_codec \<Rightarrow> (nat \<times> slot) list \<Rightarrow> executor_response_budget option \<Rightarrow>
     (executor_response_budget option, executor_error, output_item list) outcome" where
  "drain_slots codec [] b = (b, Inr [])"
| "drain_slots codec ((_, s) # slots) b =
     (case state_finalize (sl_state s) of
        None \<Rightarrow> drain_slots codec slots b
      | Some item \<Rightarrow>
          (case reconcile (retained_output_item (ic_search_output codec) item) (sl_account s, b) of
             ((_, b), Inl e) \<Rightarrow> (b, Inl e)
           | ((_, b), Inr _) \<Rightarrow>
               (case drain_slots codec slots b of
                  (b, Inl e) \<Rightarrow> (b, Inl e)
                | (b, Inr items) \<Rightarrow> (b, Inr (item # items)))))"

definition unfinished_collaboration :: "slot_map \<Rightarrow> bool" where
  "unfinished_collaboration m \<longleftrightarrow>
     (\<exists>(_, s) \<in> set (sm_slots m). case sl_state s of SlotActive item \<Rightarrow> is_collaboration_item item | SlotDone _ \<Rightarrow> False)"

definition drain_output ::
    "item_codec \<Rightarrow> slots_state \<Rightarrow> (slots_state, executor_error, output_item list) outcome" where
  "drain_output codec st =
     (if unfinished_collaboration (fst st)
      then (st, Inl (InvalidRequest ''upstream stream ended with unfinished collaboration items''))
      else (case drain_slots codec (sort_key fst (sm_slots (fst st))) (snd st) of
              (b, r) \<Rightarrow> (((fst st)\<lparr>sm_slots := [], sm_indexes_by_id := Map.empty\<rparr>, b), r)))"

end
