(* ===== verification/Accumulator.thy ===== *)
theory Accumulator
  imports Slot_Map
begin

text \<open>
  Assembly of a response from upstream (\<open>core/executor/accumulator/mod.rs\<close>, \<open>terminal.rs\<close>, \<open>details.rs\<close>,
  \<open>json.rs\<close>): the strict and the lenient reading of a stream, the order of response events, stable call
  ids, terminal output, steering cuts, and complete JSON bodies.
\<close>

section \<open>State\<close>

datatype response_status = StInProgress | StCompleted | StIncomplete | StError

fun status_name :: "response_status \<Rightarrow> string" where
  "status_name StInProgress = ''in_progress''"
| "status_name StCompleted = ''completed''"
| "status_name StIncomplete = ''incomplete''"
| "status_name StError = ''error''"

definition parse_status :: "string \<Rightarrow> response_status" where
  "parse_status s =
     (if s = ''in_progress'' then StInProgress
      else if s = ''completed'' then StCompleted
      else if s = ''incomplete'' then StIncomplete
      else StError)"

datatype stream_lifecycle = AwaitingCreated | StreamCreated | StreamInProgress | StreamTerminal

record incomplete_details =
  icd_reason :: "string option"

definition retained_details :: "incomplete_details \<Rightarrow> nat" where
  "retained_details d = OVERHEAD + opt_len (icd_reason d)"

text \<open>\<open>CallIdObservation\<close>: the first non-empty call id seen at an index, and whether another one was seen.\<close>

record call_id_observation =
  cio_first :: "string option"
  cio_changed :: bool

definition no_observation :: call_id_observation where
  "no_observation = \<lparr>cio_first = None, cio_changed = False\<rparr>"

definition observe :: "string option \<Rightarrow> call_id_observation \<Rightarrow> call_id_observation" where
  "observe call_id seen =
     (case call_id of
        None \<Rightarrow> seen
      | Some c \<Rightarrow>
          if c = [] then seen
          else (case cio_first seen of
                  None \<Rightarrow> seen\<lparr>cio_first := Some c\<rparr>
                | Some first \<Rightarrow> if first \<noteq> c then seen\<lparr>cio_changed := True\<rparr> else seen))"

record response_accumulator =
  ac_validation :: validation
  ac_response_id :: string
  ac_conversation_id :: "string option"
  ac_output :: "output_item list"
  ac_usage :: "response_usage option"
  ac_service_tier :: "string option"
  ac_service_tier_account :: retained_account
  ac_status :: response_status
  ac_incomplete_details :: "incomplete_details option"
  ac_error :: "json option"
  ac_terminal_details_account :: retained_account
  ac_slots :: slot_map
  ac_strict_call_ids :: "(nat \<times> call_id_observation) list"
  ac_stream_lifecycle :: stream_lifecycle
  ac_budget :: "executor_response_budget option"

definition with_validation_and_budget ::
    "string \<Rightarrow> string option \<Rightarrow> validation \<Rightarrow> executor_response_budget option \<Rightarrow> response_accumulator" where
  "with_validation_and_budget response_id conversation_id validation budget =
     \<lparr>ac_validation = validation, ac_response_id = response_id, ac_conversation_id = conversation_id, ac_output = [],
      ac_usage = None, ac_service_tier = None, ac_service_tier_account = new_account, ac_status = StInProgress,
      ac_incomplete_details = None, ac_error = None, ac_terminal_details_account = new_account, ac_slots = no_slots,
      ac_strict_call_ids = [], ac_stream_lifecycle = AwaitingCreated, ac_budget = budget\<rparr>"

section \<open>Call ids\<close>

text \<open>\<open>strict_call_ids\<close> is a hash map: entries are read by index, never by position.\<close>

definition observation :: "response_accumulator \<Rightarrow> nat \<Rightarrow> call_id_observation" where
  "observation acc n = (case map_of (ac_strict_call_ids acc) n of Some seen \<Rightarrow> seen | None \<Rightarrow> no_observation)"

definition observe_strict_call_id :: "nat \<Rightarrow> string option \<Rightarrow> response_accumulator \<Rightarrow> response_accumulator" where
  "observe_strict_call_id n call_id acc =
     acc\<lparr>ac_strict_call_ids := AList.update n (observe call_id (observation acc n)) (ac_strict_call_ids acc)\<rparr>"

definition changed_indexes :: "response_accumulator \<Rightarrow> nat list" where
  "changed_indexes acc = map fst (filter (\<lambda>(_, seen). cio_changed seen) (ac_strict_call_ids acc))"

definition ensure_stable_strict_call_ids :: "response_accumulator \<Rightarrow> executor_error + unit" where
  "ensure_stable_strict_call_ids acc =
     (case sort (changed_indexes acc) of
        [] \<Rightarrow> Inr ()
      | n # _ \<Rightarrow> Inl (InvalidRequest
          (''upstream stream changes '' @ [CHR 0x27] @ ''call_id'' @ [CHR 0x27] @ '' for output['' @ decimal n @ '']'')))"

section \<open>Strict transitions\<close>

definition invalid_lifecycle :: "string \<Rightarrow> executor_error" where
  "invalid_lifecycle name =
     InvalidRequest (''upstream stream event '' @ [CHR 0x27] @ name @ [CHR 0x27] @ '' is out of lifecycle order'')"

definition invalid_lifecycle_or_id :: "string \<Rightarrow> executor_error" where
  "invalid_lifecycle_or_id name =
     InvalidRequest (''upstream stream event '' @ [CHR 0x27] @ name @ [CHR 0x27] @
       '' is out of lifecycle order or changes the response id'')"

definition no_match :: executor_error where
  "no_match = InvalidRequest ''terminal upstream response output does not match completed item events''"

text \<open>The items of the terminal response, one after another, against the completed slots.\<close>

fun validate_terminal_items ::
    "item_codec \<Rightarrow> nat \<Rightarrow> string list \<Rightarrow> json list \<Rightarrow> response_accumulator \<Rightarrow>
     (response_accumulator, executor_error, unit) outcome" where
  "validate_terminal_items codec n seen [] acc = (acc, Inr ())"
| "validate_terminal_items codec n seen (item # items) acc =
     (if n > U32_MAX then (acc, Inl (InvalidRequest ''terminal upstream response has too many output items''))
      else (case as_object item of
        None \<Rightarrow> (acc, Inl (InvalidRequest ''terminal upstream response contains an invalid output item''))
      | Some entries \<Rightarrow>
          (case output_item_identity entries ''terminal output item'' of
             Inl e \<Rightarrow> (acc, Inl (InvalidRequest e))
           | Inr (iid, item_type) \<Rightarrow>
               if iid \<in> set seen then
                 (acc, Inl (InvalidRequest (''terminal upstream response repeats output item '' @ [CHR 0x27] @ iid @ [CHR 0x27])))
               else (case Option.bind (get_slot (ac_slots acc) n) (\<lambda>s. state_done_item (sl_state s)) of
                  None \<Rightarrow> (acc, Inl no_match)
                | Some completed \<Rightarrow>
                    if type_of_item completed \<noteq> Some item_type then (acc, Inl no_match)
                    else
                      let canonical = (if nonempty_str (JObject entries) ''id'' = None
                            then json_insert ''id'' (JString iid) (JObject entries) else JObject entries)
                      in (case item_of_json (ic_events codec) canonical of
                           Inl e \<Rightarrow> (acc, Inl (InvalidRequest (''terminal upstream response output item is invalid: '' @ e)))
                         | Inr terminal_item \<Rightarrow>
                             validate_terminal_items codec (Suc n) (iid # seen) items
                               (observe_strict_call_id n (output_item_call_id terminal_item) acc))))))"

definition check_stable ::
    "bool \<Rightarrow> response_accumulator \<Rightarrow> (response_accumulator, executor_error, unit) outcome" where
  "check_stable enforce acc = (acc, if enforce then ensure_stable_strict_call_ids acc else Inr ())"

definition validate_terminal_output ::
    "item_codec \<Rightarrow> event_frame \<Rightarrow> bool \<Rightarrow> response_accumulator \<Rightarrow> (response_accumulator, executor_error, unit) outcome" where
  "validate_terminal_output codec frame enforce acc =
     attempt (check_stable enforce acc) (\<lambda>acc _.
       case Option.bind (map_of (we_rest (ef_wire frame)) ''response'') as_object of
         None \<Rightarrow> (acc, Inl (InvalidRequest (''terminal upstream response has no valid '' @ [CHR 0x27] @ ''response'' @ [CHR 0x27])))
       | Some response \<Rightarrow>
           (case map_of response ''output'' of
              None \<Rightarrow> (acc, Inr ())
            | Some JNull \<Rightarrow> (acc, Inr ())
            | Some (JArray items) \<Rightarrow>
                if length items \<noteq> length (sm_slots (ac_slots acc)) then (acc, Inl no_match)
                else attempt (validate_terminal_items codec 0 [] items acc) (\<lambda>acc _. check_stable enforce acc)
            | Some _ \<Rightarrow> (acc, Inl (InvalidRequest
                (''terminal upstream response has no valid '' @ [CHR 0x27] @ ''output'' @ [CHR 0x27])))))"

definition response_payload_id :: "event_payload \<Rightarrow> string option" where
  "response_payload_id p = (case p of PlResponse iid _ _ _ \<Rightarrow> Some iid | _ \<Rightarrow> None)"

definition validate_strict_transition ::
    "item_codec \<Rightarrow> event_frame \<Rightarrow> response_accumulator \<Rightarrow> (response_accumulator, executor_error, unit) outcome" where
  "validate_strict_transition codec frame acc =
     (let name = (case we_type (ef_wire frame) of Some t \<Rightarrow> t | None \<Rightarrow> ''streaming event'');
          t = ef_event_type frame; state = ac_stream_lifecycle acc in
      if state = StreamTerminal
      then (acc, Inl (InvalidRequest ''upstream stream contains an event after its terminal event''))
      else (case response_payload_id (ef_payload frame) of
          Some iid \<Rightarrow>
            if t = EvResponseCreated then (acc, if state \<noteq> AwaitingCreated then Inl (invalid_lifecycle name) else Inr ())
            else if t = EvResponseInProgress then
              (acc, if state \<noteq> StreamCreated \<or> iid \<noteq> ac_response_id acc then Inl (invalid_lifecycle_or_id name) else Inr ())
            else if t \<in> {EvResponseCompleted, EvResponseFailed, EvResponseIncomplete} then
              (if state \<noteq> StreamInProgress \<or> iid \<noteq> ac_response_id acc then (acc, Inl (invalid_lifecycle_or_id name))
               else if has_active (ac_slots acc)
               then (acc, Inl (InvalidRequest ''upstream stream ended with unfinished output items''))
               else validate_terminal_output codec frame (t \<noteq> EvResponseFailed) acc)
            else (acc, if state = StreamInProgress then Inr () else Inl (invalid_lifecycle name))
        | None \<Rightarrow> (acc, if state = StreamInProgress then Inr () else Inl (invalid_lifecycle name))))"

section \<open>Terminal details and finishing\<close>

text \<open>The derived reader of a struct with one optional text: from an object, or from an array of its fields.\<close>

fun details_reason :: "json option \<Rightarrow> incomplete_details option" where
  "details_reason None = Some \<lparr>icd_reason = None\<rparr>"
| "details_reason (Some JNull) = Some \<lparr>icd_reason = None\<rparr>"
| "details_reason (Some (JString s)) = Some \<lparr>icd_reason = Some s\<rparr>"
| "details_reason (Some _) = None"

fun details_of_json :: "json \<Rightarrow> incomplete_details option" where
  "details_of_json (JObject entries) = details_reason (map_of entries ''reason'')"
| "details_of_json (JArray [v]) = details_reason (Some v)"
| "details_of_json _ = None"

definition is_terminal_event :: "sse_event_type \<Rightarrow> bool" where
  "is_terminal_event t \<longleftrightarrow> t \<in> {EvResponseCompleted, EvResponseFailed, EvResponseIncomplete}"

definition capture_terminal_details ::
    "event_frame \<Rightarrow> response_accumulator \<Rightarrow> (response_accumulator, executor_error, unit) outcome" where
  "capture_terminal_details frame acc =
     (if \<not> is_terminal_event (ef_event_type frame) then (acc, Inr ())
      else (case map_of (we_rest (ef_wire frame)) ''response'' of
        None \<Rightarrow> (acc, Inr ())
      | Some response \<Rightarrow>
          let details = Option.bind (json_get response ''incomplete_details'') details_of_json;
              err = (case json_get response ''error'' of Some JNull \<Rightarrow> None | e \<Rightarrow> e) in
          (case reconcile (opt_bytes retained_details details + opt_bytes retained_json err)
                  (ac_terminal_details_account acc, ac_budget acc) of
             ((_, b), Inl e) \<Rightarrow> (acc\<lparr>ac_budget := b\<rparr>, Inl e)
           | ((account, b), Inr _) \<Rightarrow>
               (acc\<lparr>ac_budget := b, ac_terminal_details_account := account, ac_incomplete_details := details, ac_error := err\<rparr>,
                Inr ()))))"

definition finalize_all ::
    "item_codec \<Rightarrow> response_accumulator \<Rightarrow> (response_accumulator, executor_error, unit) outcome" where
  "finalize_all codec acc =
     (case drain_output codec (ac_slots acc, ac_budget acc) of
        ((m, b), Inl e) \<Rightarrow> (acc\<lparr>ac_slots := m, ac_budget := b\<rparr>, Inl e)
      | ((m, b), Inr items) \<Rightarrow> (acc\<lparr>ac_slots := m, ac_budget := b, ac_output := ac_output acc @ items\<rparr>, Inr ()))"

definition tier_bytes :: "string option \<Rightarrow> nat" where
  "tier_bytes tier = (case tier of None \<Rightarrow> 0 | Some t \<Rightarrow> OVERHEAD + length t)"

definition finish_response ::
    "item_codec \<Rightarrow> response_status \<Rightarrow> response_usage option \<Rightarrow> string option \<Rightarrow> response_accumulator \<Rightarrow>
     (response_accumulator, executor_error, unit) outcome" where
  "finish_response codec status usage tier acc =
     attempt (finalize_all codec acc) (\<lambda>acc _.
       case reconcile (tier_bytes tier) (ac_service_tier_account acc, ac_budget acc) of
         ((_, b), Inl e) \<Rightarrow> (acc\<lparr>ac_budget := b\<rparr>, Inl e)
       | ((account, b), Inr _) \<Rightarrow>
           (acc\<lparr>ac_budget := b, ac_service_tier_account := account, ac_status := status, ac_usage := usage,
                ac_service_tier := tier, ac_stream_lifecycle := StreamTerminal\<rparr>, Inr ()))"

definition terminal_status :: "sse_event_type \<Rightarrow> response_status option" where
  "terminal_status t =
     (if t = EvResponseCompleted then Some StCompleted
      else if t = EvResponseFailed then Some StError
      else if t = EvResponseIncomplete then Some StIncomplete
      else None)"

definition finish_response_event ::
    "item_codec \<Rightarrow> sse_event_type \<Rightarrow> response_usage option \<Rightarrow> string option \<Rightarrow> response_accumulator \<Rightarrow>
     (response_accumulator, executor_error, unit) outcome" where
  "finish_response_event codec t usage tier acc =
     (case terminal_status t of
        None \<Rightarrow> (acc, Inr ())
      | Some status \<Rightarrow> finish_response codec status usage tier acc)"

definition finish_stream ::
    "item_codec \<Rightarrow> response_accumulator \<Rightarrow> (response_accumulator, executor_error, unit) outcome" where
  "finish_stream codec acc =
     attempt (finalize_all codec acc) (\<lambda>acc _.
       (acc\<lparr>ac_status := (if ac_status acc = StInProgress then StCompleted else ac_status acc),
            ac_stream_lifecycle := StreamTerminal\<rparr>, Inr ()))"

definition finish_strict_stream ::
    "item_codec \<Rightarrow> response_accumulator \<Rightarrow> (response_accumulator, executor_error, unit) outcome" where
  "finish_strict_stream codec acc =
     (if ac_stream_lifecycle acc \<noteq> StreamTerminal
      then (acc, Inl (InvalidRequest ''upstream stream ended without a terminal event''))
      else finish_stream codec acc)"

definition mark_incomplete :: "string \<Rightarrow> response_accumulator \<Rightarrow> response_accumulator" where
  "mark_incomplete reason acc =
     acc\<lparr>ac_status := StIncomplete, ac_incomplete_details := Some \<lparr>icd_reason = Some reason\<rparr>\<rparr>"

section \<open>Steering cuts\<close>

definition at_steering_boundary :: "response_accumulator \<Rightarrow> bool" where
  "at_steering_boundary acc \<longleftrightarrow> ac_stream_lifecycle acc \<noteq> StreamTerminal \<and> slots_at_boundary (ac_slots acc)"

definition ensure_steering_settled :: "response_accumulator \<Rightarrow> executor_error + unit" where
  "ensure_steering_settled acc =
     (if ac_stream_lifecycle acc \<noteq> StreamTerminal \<and> sm_slots (ac_slots acc) \<noteq> [] \<and> \<not> slots_at_boundary (ac_slots acc)
      then Inl (InvalidRequest ''upstream stream ended before a safe steering boundary'') else Inr ())"

definition finish_for_steering ::
    "response_accumulator \<Rightarrow> (response_accumulator, executor_error, bool) outcome" where
  "finish_for_steering acc =
     (if \<not> at_steering_boundary acc then (acc, Inr False)
      else attempt (check_stable (ac_validation acc = Strict) acc) (\<lambda>acc _.
        let details = \<lparr>icd_reason = Some ''steered''\<rparr> in
        (case reconcile (retained_details details) (ac_terminal_details_account acc, ac_budget acc) of
           ((_, b), Inl e) \<Rightarrow> (acc\<lparr>ac_budget := b\<rparr>, Inl e)
         | ((account, b), Inr _) \<Rightarrow>
             (acc\<lparr>ac_budget := b, ac_terminal_details_account := account, ac_status := StIncomplete,
                  ac_incomplete_details := Some details, ac_stream_lifecycle := StreamTerminal\<rparr>, Inr True))))"

section \<open>Events\<close>

datatype event_disposition = EdEmit "nat option" | EdIgnore

definition item_disposition :: "nat option \<Rightarrow> event_disposition" where
  "item_disposition index = (case index of Some n \<Rightarrow> EdEmit (Some n) | None \<Rightarrow> EdIgnore)"

definition into_frame :: "event_disposition \<Rightarrow> event_frame \<Rightarrow> event_frame option" where
  "into_frame disposition frame =
     (case disposition of
        EdIgnore \<Rightarrow> None
      | EdEmit None \<Rightarrow> Some frame
      | EdEmit (Some n) \<Rightarrow> Some (set_output_index n frame))"

text \<open>What the slot map makes of an item event.\<close>

definition slot_event ::
    "item_codec \<Rightarrow> uuids \<Rightarrow> item_identity \<Rightarrow> event_frame \<Rightarrow> validated_item option \<Rightarrow> validation \<Rightarrow> slots_state \<Rightarrow>
     (slots_state, executor_error, nat option) outcome" where
  "slot_event codec uuid identity frame validated validation st =
     (if ef_event_type frame = EvOutputItemAdded then open_slot codec uuid identity (ef_payload frame) validation st
      else if ef_event_type frame = EvOutputItemDone then
        complete_slot codec uuid identity (ef_payload frame) (Option.bind validated vi_done_item) validation st
      else apply_slot codec uuid identity (ef_payload frame) validation st)"

definition observe_event :: "nat \<Rightarrow> event_payload \<Rightarrow> response_accumulator \<Rightarrow> response_accumulator" where
  "observe_event n payload acc =
     (case payload of
        PlOutputItemAdded _ _ _ _ _ c _ \<Rightarrow> observe_strict_call_id n c acc
      | PlFunctionCallArgsDelta _ c _ _ \<Rightarrow> observe_strict_call_id n c acc
      | PlFunctionCallArgsDone _ c _ _ _ \<Rightarrow> observe_strict_call_id n c acc
      | PlOutputItemDone _ _ _ _ \<Rightarrow>
          observe_strict_call_id n
            (Option.bind (Option.bind (get_slot (ac_slots acc) n) (\<lambda>s. state_done_item (sl_state s))) output_item_call_id) acc
      | _ \<Rightarrow> acc)"

definition process_item_event ::
    "item_codec \<Rightarrow> uuids \<Rightarrow> event_frame \<Rightarrow> validated_item option \<Rightarrow> response_accumulator \<Rightarrow>
     (response_accumulator, executor_error, event_disposition) outcome" where
  "process_item_event codec uuid frame validated acc =
     (case frame_identity frame validated of
        None \<Rightarrow> (acc, Inr (EdEmit None))
      | Some identity \<Rightarrow>
          (case slot_event codec uuid identity frame validated (ac_validation acc) (ac_slots acc, ac_budget acc) of
             ((m, b), Inl e) \<Rightarrow> (acc\<lparr>ac_slots := m, ac_budget := b\<rparr>, Inl e)
           | ((m, b), Inr index) \<Rightarrow>
               let acc = acc\<lparr>ac_slots := m, ac_budget := b\<rparr> in
               (case index of
                  Some n \<Rightarrow> if ac_validation acc = Strict then observe_event n (ef_payload frame) acc else acc
                | None \<Rightarrow> acc, Inr (item_disposition index))))"

definition charge_response_id ::
    "string \<Rightarrow> response_accumulator \<Rightarrow> (response_accumulator, executor_error, unit) outcome" where
  "charge_response_id iid acc =
     (case ac_budget acc of
        None \<Rightarrow> (acc, Inr ())
      | Some b \<Rightarrow> (case consume b (OVERHEAD + length iid) of (b, r) \<Rightarrow> (acc\<lparr>ac_budget := Some b\<rparr>, r)))"

definition process_event_checked ::
    "item_codec \<Rightarrow> uuids \<Rightarrow> event_frame \<Rightarrow> validated_item option \<Rightarrow> response_accumulator \<Rightarrow>
     (response_accumulator, executor_error, event_disposition) outcome" where
  "process_event_checked codec uuid frame validated acc =
     (case ef_payload frame of
        PlResponse iid _ usage tier \<Rightarrow>
          if ef_event_type frame = EvResponseCreated \<and> iid \<noteq> [] then
            attempt (charge_response_id iid acc) (\<lambda>acc _.
              (acc\<lparr>ac_response_id := iid, ac_stream_lifecycle := StreamCreated\<rparr>, Inr (EdEmit None)))
          else if ef_event_type frame = EvResponseInProgress then
            (acc\<lparr>ac_stream_lifecycle := StreamInProgress\<rparr>, Inr (EdEmit None))
          else if is_terminal_event (ef_event_type frame) then
            attempt (finish_response_event codec (ef_event_type frame) usage tier acc) (\<lambda>acc _. (acc, Inr (EdEmit None)))
          else process_item_event codec uuid frame validated acc
      | _ \<Rightarrow> process_item_event codec uuid frame validated acc)"

definition process_normalized_event ::
    "item_codec \<Rightarrow> uuids \<Rightarrow> event_frame \<Rightarrow> response_accumulator \<Rightarrow>
     (response_accumulator, executor_error, event_disposition) outcome" where
  "process_normalized_event codec uuid frame acc =
     attempt
       (case ac_validation acc of
          Lenient \<Rightarrow> (acc, Inr None)
        | Strict \<Rightarrow>
            (case validate_frame (ic_events codec) frame of
               Inl e \<Rightarrow> (acc, Inl (InvalidRequest e))
             | Inr validated \<Rightarrow>
                 attempt (validate_strict_transition codec frame acc) (\<lambda>acc _. (acc, Inr validated))))
       (\<lambda>acc validated.
         attempt (capture_terminal_details frame acc) (\<lambda>acc _.
           process_event_checked codec uuid frame validated acc))"

text \<open>A code interpreter call that upstream left without an id is emitted under the id its slot took.\<close>

definition with_slot_id :: "response_accumulator \<Rightarrow> event_frame \<Rightarrow> event_frame" where
  "with_slot_id acc frame =
     (case ef_payload frame of
        PlOutputItemDone iid SiCodeInterpreterCall (Some n) _ \<Rightarrow>
          if iid \<noteq> [] then frame
          else (case Option.bind (get_slot (ac_slots acc) n) (\<lambda>s. state_done_item (sl_state s)) of
                  Some (OiCodeInterpreterCall call) \<Rightarrow> set_done_item_id (cic_id call) frame
                | _ \<Rightarrow> frame)
      | _ \<Rightarrow> frame)"

definition process_line ::
    "item_codec \<Rightarrow> uuids \<Rightarrow> classified_sse_line \<Rightarrow> response_accumulator \<Rightarrow>
     (response_accumulator, executor_error, event_frame option) outcome" where
  "process_line codec uuid line acc =
     (case line of
        SlData data \<Rightarrow>
          (case normalize_sse_data_checked (ic_events codec) data of
             Inl InvalidOutputIndex \<Rightarrow> (acc, Inl (InvalidRequest (''upstream stream has an invalid '' @ [CHR 0x27] @
             ''output_index'' @ [CHR 0x27] @ '': expected an unsigned 32-bit integer'')))
           | Inr None \<Rightarrow>
               (acc, if ac_validation acc = Strict
                     then Inl (InvalidRequest ''upstream stream contains a malformed data frame'') else Inr None)
           | Inr (Some frame) \<Rightarrow>
               attempt (process_normalized_event codec uuid frame acc) (\<lambda>acc disposition.
                 (acc, Inr (map_option (with_slot_id acc) (into_frame disposition frame)))))
      | _ \<Rightarrow> (acc, Inr None))"

text \<open>A stream of lines; the identifiers drawn differ from event to event.\<close>

fun process_lines ::
    "item_codec \<Rightarrow> (uuids \<times> classified_sse_line) list \<Rightarrow> response_accumulator \<Rightarrow>
     (response_accumulator, executor_error, unit) outcome" where
  "process_lines codec [] acc = (acc, Inr ())"
| "process_lines codec ((uuid, line) # lines) acc =
     attempt (process_line codec uuid line acc) (\<lambda>acc _. process_lines codec lines acc)"

definition from_sse_lines ::
    "item_codec \<Rightarrow> string \<Rightarrow> (uuids \<times> string) list \<Rightarrow> string option \<Rightarrow> executor_error + response_accumulator" where
  "from_sse_lines codec response_id lines conversation_id =
     (case attempt
         (process_lines codec (map (map_prod id parse_sse_line) lines)
           (with_validation_and_budget response_id conversation_id Lenient None))
         (\<lambda>acc _. finalize_all codec acc) of
        (_, Inl e) \<Rightarrow> Inl e
      | (acc, Inr _) \<Rightarrow> Inr acc)"

section \<open>What the translation reads\<close>

definition accumulated_item_type :: "response_accumulator \<Rightarrow> nat \<Rightarrow> sse_item_type option" where
  "accumulated_item_type acc n = Option.bind (get_slot (ac_slots acc) n) (\<lambda>s. state_type (sl_state s))"

record accumulated_function_call =
  afc_item :: function_tool_call
  afc_output_index :: nat
  afc_arguments :: string

definition accumulated_call :: "response_accumulator \<Rightarrow> nat \<Rightarrow> accumulated_function_call option" where
  "accumulated_call acc n =
     (case map_option sl_state (get_slot (ac_slots acc) n) of
        Some (SlotActive (AiFunctionCall s)) \<Rightarrow>
          Some \<lparr>afc_item = fcs_item s, afc_output_index = n, afc_arguments = fcs_arguments s\<rparr>
      | Some (SlotDone (OiFunctionCall item)) \<Rightarrow>
          Some \<lparr>afc_item = item, afc_output_index = n, afc_arguments = ftc_arguments item\<rparr>
      | _ \<Rightarrow> None)"

definition call_arguments_so_far :: "accumulated_function_call \<Rightarrow> string" where
  "call_arguments_so_far call =
     (if ftc_arguments (afc_item call) = [] then afc_arguments call else ftc_arguments (afc_item call))"

section \<open>Complete JSON bodies\<close>

definition invalid_member :: "string \<Rightarrow> string \<Rightarrow> executor_error" where
  "invalid_member owner field = InvalidRequest (owner @ '' has no valid '' @ [CHR 0x27] @ field @ [CHR 0x27])"

definition body_str :: "json \<Rightarrow> string \<Rightarrow> string \<Rightarrow> executor_error + string" where
  "body_str v field owner =
     (case nonempty_str v field of Some s \<Rightarrow> Inr s | None \<Rightarrow> Inl (invalid_member owner field))"

definition output_owner :: "nat \<Rightarrow> string" where
  "output_owner n = ''upstream response output['' @ decimal n @ '']''"

fun ensure_items :: "item_codec \<Rightarrow> nat \<Rightarrow> string list \<Rightarrow> json list \<Rightarrow> executor_error + unit" where
  "ensure_items codec n seen [] = Inr ()"
| "ensure_items codec n seen (item # items) =
     and_then (body_str item ''id'' (output_owner n)) (\<lambda>iid.
     and_then (body_str item ''type'' (output_owner n)) (\<lambda>item_type.
     and_then (case ensure_supported_output_item_type item_type of Inl e \<Rightarrow> Inl (InvalidRequest e) | Inr _ \<Rightarrow> Inr ()) (\<lambda>_.
       case item_of_json (ic_events codec) item of
         Inl e \<Rightarrow> Inl (InvalidRequest (output_owner n @ '' is not a valid item: '' @ e))
       | Inr _ \<Rightarrow>
           if iid \<in> set seen
           then Inl (InvalidRequest (''upstream response repeats output item '' @ [CHR 0x27] @ iid @ [CHR 0x27]))
           else ensure_items codec (Suc n) (iid # seen) items)))"

definition ensure_strict_response :: "item_codec \<Rightarrow> json \<Rightarrow> executor_error + unit" where
  "ensure_strict_response codec v =
     (if (case json_get v ''service_tier'' of Some tier \<Rightarrow> tier \<noteq> JNull \<and> as_str tier = None | None \<Rightarrow> False)
      then Inl (invalid_member ''upstream response'' ''service_tier'')
      else (case json_str_opt v ''status'' of
          None \<Rightarrow> Inl (InvalidRequest (''upstream response has no '' @ [CHR 0x27] @ ''status'' @ [CHR 0x27]))
        | Some status \<Rightarrow>
            if status \<notin> {''completed'', ''failed'', ''incomplete''}
            then Inl (InvalidRequest (''upstream response status '' @ [CHR 0x27] @ status @ [CHR 0x27] @ '' is not terminal''))
            else (case json_at v ''output'' of
                JArray items \<Rightarrow> ensure_items codec 0 [] items
              | _ \<Rightarrow> Inl (InvalidRequest (''upstream response has no '' @ [CHR 0x27] @ ''output'' @ [CHR 0x27] @ '' array'')))))"

definition read_json ::
    "item_codec \<Rightarrow> string \<Rightarrow> string option \<Rightarrow> validation \<Rightarrow> executor_error + response_accumulator" where
  "read_json codec body conversation_id validation =
     (case parse_json (ic_events codec) body of
        None \<Rightarrow> Inl JsonError
      | Some v \<Rightarrow>
          and_then (if validation = Strict then ensure_strict_response codec v else Inr ()) (\<lambda>_.
            case json_str_opt v ''id'' of
              None \<Rightarrow> Inl (ParseError (''missing '' @ [CHR 0x27] @ ''id'' @ [CHR 0x27] @ '' field in response''))
            | Some response_id \<Rightarrow> Inr
                ((with_validation_and_budget response_id conversation_id validation None)
                 \<lparr>ac_output := (case json_at v ''output'' of
                      JArray items \<Rightarrow> List.map_filter (read_item codec) items | _ \<Rightarrow> []),
                  ac_usage := (case json_at v ''usage'' of JNull \<Rightarrow> None | u \<Rightarrow> usage_of_json (ic_events codec) u),
                  ac_service_tier := json_str_opt v ''service_tier'',
                  ac_status := (case json_str_opt v ''status'' of None \<Rightarrow> StCompleted | Some s \<Rightarrow> parse_status s),
                  ac_incomplete_details := details_of_json (json_at v ''incomplete_details''),
                  ac_error := (case json_at v ''error'' of JNull \<Rightarrow> None | e \<Rightarrow> Some e),
                  ac_stream_lifecycle := StreamTerminal\<rparr>)))"

definition load_json_body ::
    "item_codec \<Rightarrow> string \<Rightarrow> response_accumulator \<Rightarrow> (response_accumulator, executor_error, unit) outcome" where
  "load_json_body codec body acc =
     (case read_json codec body (ac_conversation_id acc) (ac_validation acc) of
        Inl e \<Rightarrow> (acc, Inl e)
      | Inr loaded \<Rightarrow>
          let retained = retained_response_parts_bytes (ic_search_output codec) (ac_response_id loaded) (ac_output loaded)
                (ac_service_tier loaded) + opt_bytes retained_details (ac_incomplete_details loaded)
                + opt_bytes retained_json (ac_error loaded)
          in (case ac_budget acc of
                None \<Rightarrow> (loaded\<lparr>ac_budget := None\<rparr>, Inr ())
              | Some b \<Rightarrow>
                  (case consume b retained of
                     (b, Inl e) \<Rightarrow> (acc\<lparr>ac_budget := Some b\<rparr>, Inl e)
                   | (b, Inr _) \<Rightarrow> (loaded\<lparr>ac_budget := Some b\<rparr>, Inr ()))))"

section \<open>The finished response\<close>

text \<open>The members of the payload the accumulator owns; the others come from the request.\<close>

record assembled_response =
  asr_id :: string
  asr_status :: string
  asr_output :: "output_item list"
  asr_usage :: "response_usage option"
  asr_incomplete_details :: "incomplete_details option"
  asr_error :: "json option"
  asr_conversation :: "string option"
  asr_service_tier :: "string option"

definition assemble :: "response_accumulator \<Rightarrow> assembled_response" where
  "assemble acc =
     \<lparr>asr_id = ac_response_id acc, asr_status = status_name (ac_status acc), asr_output = ac_output acc,
      asr_usage = ac_usage acc, asr_incomplete_details = ac_incomplete_details acc, asr_error = ac_error acc,
      asr_conversation = ac_conversation_id acc, asr_service_tier = ac_service_tier acc\<rparr>"

definition finish :: "item_codec \<Rightarrow> response_accumulator \<Rightarrow> (response_accumulator, executor_error, assembled_response) outcome" where
  "finish codec acc =
     attempt (if ac_validation acc = Strict then finish_strict_stream codec acc else finish_stream codec acc)
       (\<lambda>acc _. (acc, Inr (assemble acc)))"

end
