(* ===== verification/Slot_Safety.thy ===== *)
theory Slot_Safety
  imports Accumulator "HOL-Library.Multiset"
begin

text \<open>
  The contract of the slot operations: every one keeps the identities of the slots unique, charges what
  it retains, and leaves a completed item alone. The interface \<open>slot_operation\<close> states it; opening, mutation and
  completion are its interpretations, and the accumulator's properties rest on it.
\<close>

section \<open>Well-formed slot maps\<close>

text \<open>An index has one slot, and an id names exactly the slot that carries it.\<close>

definition slots_wf :: "slot_map \<Rightarrow> bool" where
  "slots_wf m \<longleftrightarrow> distinct (map fst (sm_slots m)) \<and>
     (\<forall>i n. sm_indexes_by_id m i = Some n \<longleftrightarrow> (\<exists>s. get_slot m n = Some s \<and> sl_item_id s = Some i))"

definition accounts :: "slot_map \<Rightarrow> nat" where
  "accounts m = sum_list (map (accounted \<circ> sl_account \<circ> snd) (sm_slots m))"

fun state_cost :: "item_codec \<Rightarrow> slot_state \<Rightarrow> nat" where
  "state_cost codec (SlotActive item) = retained_active item"
| "state_cost codec (SlotDone item) = retained_output_item (ic_search_output codec) item"

definition slot_cost :: "item_codec \<Rightarrow> slot \<Rightarrow> nat" where
  "slot_cost codec s = state_cost codec (sl_state s) + retained_agent (sl_event_agent s)"

definition slots_paid :: "item_codec \<Rightarrow> slot_map \<Rightarrow> bool" where
  "slots_paid codec m \<longleftrightarrow> (\<forall>n s. get_slot m n = Some s \<longrightarrow> slot_cost codec s \<le> accounted (sl_account s))"

text \<open>The budget covers the accounts of the slots and \<open>rest\<close> bytes charged for anything else.\<close>

definition covered :: "nat \<Rightarrow> nat \<Rightarrow> slots_state \<Rightarrow> bool" where
  "covered limit rest st \<longleftrightarrow>
     (\<exists>b. snd st = Some b \<and> rb_limit b = limit \<and> rb_limit b \<le> USIZE_MAX \<and> rb_used b \<le> rb_limit b \<and>
        rest + accounts (fst st) \<le> rb_used b)"

definition done_slots_kept :: "slot_map \<Rightarrow> slot_map \<Rightarrow> bool" where
  "done_slots_kept m m' \<longleftrightarrow>
     (\<forall>n s item. get_slot m n = Some s \<longrightarrow> sl_state s = SlotDone item \<longrightarrow>
        (\<exists>s'. get_slot m' n = Some s' \<and> sl_state s' = SlotDone item))"

lemma slots_wf_empty: "slots_wf no_slots"
  by (simp add: slots_wf_def no_slots_def get_slot_def)

lemma done_slots_kept_refl [simp]: "done_slots_kept m m"
  by (simp add: done_slots_kept_def)

lemma done_slots_kept_trans: "done_slots_kept a b \<Longrightarrow> done_slots_kept b c \<Longrightarrow> done_slots_kept a c"
  by (fastforce simp: done_slots_kept_def)

section \<open>Resolved indexes\<close>

lemma located_by_id:
  assumes "located identity action v m = Inr (Some n)" "idn_item_id identity = Some i" "sm_indexes_by_id m i = Some k"
  shows "n = k"
  using assms by (auto simp: located_def Let_def split: if_splits option.splits)

lemma resolve_located:
  "resolve identity action v m = Inr (Some n) \<Longrightarrow> located identity action v m = Inr (Some n)"
  by (auto simp: resolve_def resolve_slot_def split: sum.splits option.splits if_splits)

text \<open>What a successful resolution says of the slot it found.\<close>

lemma resolve_found:
  assumes "resolve identity action v m = Inr (Some n)" "get_slot m n = Some s"
  shows "action \<noteq> ActOpen \<and> \<not> contradicts (sl_item_id s) (idn_item_id identity)
    \<and> \<not> contradicts (sl_event_agent s) (idn_event_agent identity) \<and> kind_matches identity action s
    \<and> (slot_active s \<or> action = ActComplete \<and> v = Lenient)"
  using assms by (cases v) (auto simp: resolve_def resolve_slot_def split: sum.splits option.splits if_splits)

definition fresh_id :: "item_identity \<Rightarrow> slot_map \<Rightarrow> bool" where
  "fresh_id identity m \<longleftrightarrow> (\<forall>i. idn_item_id identity = Some i \<longrightarrow> sm_indexes_by_id m i = None)"

text \<open>An id that the resolved slot does not carry is carried by no slot.\<close>

lemma resolve_fresh:
  assumes wf: "slots_wf m" and res: "resolve identity action v m = Inr (Some n)"
    and bare: "\<And>s. get_slot m n = Some s \<Longrightarrow> sl_item_id s = None"
  shows "fresh_id identity m"
  unfolding fresh_id_def
proof (intro allI impI)
  fix i assume i: "idn_item_id identity = Some i"
  show "sm_indexes_by_id m i = None"
  proof (cases "sm_indexes_by_id m i")
    case (Some k)
    with wf obtain s where "get_slot m k = Some s" "sl_item_id s = Some i" by (auto simp: slots_wf_def)
    moreover have "n = k" using located_by_id [OF resolve_located [OF res] i Some] .
    ultimately show ?thesis using bare by fastforce
  qed
qed

section \<open>Modifying one slot\<close>

lemma get_modify:
  "get_slot (modify_slot n f m) k = (if k = n then map_option f (get_slot m k) else get_slot m k)"
  by (simp add: get_slot_def modify_slot_def map_of_im_modify)

lemma modify_keys [simp]: "map fst (sm_slots (modify_slot n f m)) = map fst (sm_slots m)"
  by (simp add: modify_slot_def keys_im_modify)

lemma modify_indexes [simp]: "sm_indexes_by_id (modify_slot n f m) = sm_indexes_by_id m"
  by (simp add: modify_slot_def)

lemma mark_uncertain_slots [simp]:
  "sm_slots (mark_uncertain b m) = sm_slots m" "sm_indexes_by_id (mark_uncertain b m) = sm_indexes_by_id m"
  "get_slot (mark_uncertain b m) n = get_slot m n"
  by (simp_all add: mark_uncertain_def get_slot_def)

lemma mark_uncertain_keeps [simp]:
  "slots_wf (mark_uncertain b m) = slots_wf m" "slots_paid codec (mark_uncertain b m) = slots_paid codec m"
  "covered limit rest (mark_uncertain b m, budget) = covered limit rest (m, budget)"
  "done_slots_kept m0 (mark_uncertain b m) = done_slots_kept m0 m"
  "done_slots_kept (mark_uncertain b m) m0 = done_slots_kept m m0"
  by (simp_all add: slots_wf_def slots_paid_def covered_def accounts_def done_slots_kept_def)

lemma modify_wf:
  assumes "slots_wf m" "\<And>s. get_slot m n = Some s \<Longrightarrow> sl_item_id (f s) = sl_item_id s"
  shows "slots_wf (modify_slot n f m)"
  using assms by (fastforce simp: slots_wf_def get_modify)

lemma sum_im_modify:
  "distinct (map fst xs) \<Longrightarrow> map_of xs n = Some s \<Longrightarrow>
   sum_list (map (g \<circ> snd) (im_modify n f xs)) + (g s :: nat) = sum_list (map (g \<circ> snd) xs) + g (f s)"
proof (induction xs)
  case (Cons e xs)
  obtain k v where e: "e = (k, v)" by fastforce
  show ?case
  proof (cases "k = n")
    case True
    with Cons.prems e have "map_of xs n = None" by (auto simp: map_of_eq_None_iff)
    then show ?thesis using Cons.prems e True by (simp add: im_modify_Cons im_modify_absent)
  next
    case False
    then show ?thesis using Cons e by (auto simp: im_modify_Cons)
  qed
qed simp

lemma accounts_modify:
  assumes "slots_wf m" "get_slot m n = Some s"
  shows "accounts (modify_slot n f m) + accounted (sl_account s) = accounts m + accounted (sl_account (f s))"
  using sum_im_modify [of "sm_slots m" n s "accounted \<circ> sl_account" f] assms
  by (simp add: accounts_def modify_slot_def slots_wf_def get_slot_def comp_assoc)

lemma account_le_accounts:
  assumes "get_slot m n = Some s"
  shows "accounted (sl_account s) \<le> accounts m"
proof -
  have "(n, s) \<in> set (sm_slots m)" using assms by (simp add: get_slot_def map_of_SomeD)
  then have "(accounted \<circ> sl_account \<circ> snd) (n, s) \<in> set (map (accounted \<circ> sl_account \<circ> snd) (sm_slots m))"
    by (auto simp del: o_apply)
  from member_le_sum_list [OF this] show ?thesis by (simp add: accounts_def)
qed

section \<open>The contract\<close>

definition slots_inv :: "item_codec \<Rightarrow> nat \<Rightarrow> nat \<Rightarrow> slots_state \<Rightarrow> bool" where
  "slots_inv codec limit rest st \<longleftrightarrow> slots_wf (fst st) \<and> covered limit rest st \<and> slots_paid codec (fst st)"

definition op_ok ::
    "item_codec \<Rightarrow> nat \<Rightarrow> nat \<Rightarrow> slots_state \<Rightarrow> (slots_state, executor_error, 'a) outcome \<Rightarrow> bool" where
  "op_ok codec limit rest st r \<longleftrightarrow>
     slots_wf (fst (fst r)) \<and> covered limit rest (fst r) \<and> done_slots_kept (fst st) (fst (fst r)) \<and>
     (is_ok (snd r) \<longrightarrow> slots_paid codec (fst (fst r)))"

lemma op_ok_same: "slots_inv codec limit rest st \<Longrightarrow> op_ok codec limit rest st (st, r)"
  by (simp add: op_ok_def slots_inv_def)

lemma op_ok_uncertain: "op_ok codec limit rest (m, b) r \<Longrightarrow> op_ok codec limit rest (mark_uncertain u m, b) r"
  by (simp add: op_ok_def)

lemma op_ok_certain: "op_ok codec limit rest (mark_uncertain u m, b) r \<Longrightarrow> op_ok codec limit rest (m, b) r"
  by (simp add: op_ok_def)

lemma slots_inv_uncertain [simp]: "slots_inv codec limit rest (mark_uncertain u m, b) = slots_inv codec limit rest (m, b)"
  by (simp add: slots_inv_def)

lemma op_ok_attempt:
  assumes "op_ok codec limit rest st r"
    and "\<And>st' a. r = (st', Inr a) \<Longrightarrow> slots_inv codec limit rest st' \<Longrightarrow> op_ok codec limit rest st' (k st' a)"
  shows "op_ok codec limit rest st (attempt r k)"
proof (cases r)
  case (Pair st' res)
  show ?thesis
  proof (cases res)
    case (Inl e)
    then show ?thesis using assms(1) Pair by (simp add: attempt_def op_ok_def)
  next
    case (Inr a)
    have "op_ok codec limit rest st' (k st' a)" using assms Pair Inr by (simp add: op_ok_def slots_inv_def)
    then show ?thesis using assms(1) Pair Inr by (auto simp: attempt_def op_ok_def intro: done_slots_kept_trans)
  qed
qed

lemma covered_account:
  assumes "covered limit rest (m, b)" "get_slot m n = Some s"
  shows "account_ok (sl_account s, b)"
  using account_le_accounts [OF assms(2)] assms(1) by (auto simp: covered_def account_ok_def)

lemma covered_new_account: "covered limit rest (m, b) \<Longrightarrow> account_ok (new_account, b)"
  by (auto simp: covered_def account_ok_def new_account_def)

text \<open>A charge to one slot's account keeps the budget covered, whatever else changes in the slot.\<close>

lemma covered_modify:
  assumes "slots_wf m" "covered limit rest (m, b)" "get_slot m n = Some s" "spent (sl_account s, b) (account, b') k"
    and "sl_account (f s) = account"
  shows "covered limit rest (modify_slot n f m, b')"
  using assms accounts_modify [OF assms(1,3), of f]
  by (auto simp: covered_def spent_def split: option.splits)

lemma covered_charge:
  assumes "covered limit rest (m, b)" "spent (acc, b) (acc', b') k"
  shows "covered limit (rest + k) (m, b')"
  using assms by (auto simp: covered_def spent_def split: option.splits)

lemma covered_mono: "covered limit (rest + k) st \<Longrightarrow> covered limit rest st"
  by (auto simp: covered_def)

lemma paid_modify:
  assumes "slots_paid codec m" "\<And>s. get_slot m n = Some s \<Longrightarrow> slot_cost codec (f s) \<le> accounted (sl_account (f s))"
  shows "slots_paid codec (modify_slot n f m)"
  using assms by (auto simp: slots_paid_def get_modify)

lemma kept_modify:
  assumes "\<And>s item. get_slot m n = Some s \<Longrightarrow> sl_state s = SlotDone item \<Longrightarrow> sl_state (f s) = SlotDone item"
  shows "done_slots_kept m (modify_slot n f m)"
  using assms by (auto simp: done_slots_kept_def get_modify)

section \<open>Binding identities\<close>

lemma charge_cases:
  assumes "account_ok (acc, b)"
  obtains (refused) acc' b' e where "charge k (acc, b) = ((acc', b'), Inl e)" "spent (acc, b) (acc', b') 0"
  | (paid) acc' b' where "charge k (acc, b) = ((acc', b'), Inr ())" "spent (acc, b) (acc', b') k"
proof -
  obtain acc' b' r where c: "charge k (acc, b) = ((acc', b'), r)" by (metis prod.exhaust)
  note s = charge_spent [OF assms c]
  show ?thesis by (cases r) (use refused paid c s in auto)
qed

lemma bind_agent_ok:
  assumes inv: "slots_inv codec limit rest st"
  shows "op_ok codec limit rest st (bind_agent n identity st)"
proof (cases "\<exists>agent s. idn_event_agent identity = Some agent \<and> get_slot (fst st) n = Some s \<and> sl_event_agent s = None")
  case False
  then have "bind_agent n identity st = (st, Inr ())" by (auto simp: bind_agent_def split: option.splits)
  then show ?thesis using op_ok_same [OF inv] by simp
next
  case True
  then obtain agent s where a: "idn_event_agent identity = Some agent" and s: "get_slot (fst st) n = Some s"
    and none: "sl_event_agent s = None" by blast
  obtain m b where st: "st = (m, b)" by fastforce
  from inv st have wf: "slots_wf m" and cov: "covered limit rest (m, b)" and paid: "slots_paid codec m"
    by (simp_all add: slots_inv_def)
  have s': "get_slot m n = Some s" using s st by simp
  from covered_account [OF cov s'] show ?thesis
  proof (cases rule: charge_cases [where k = "retained_attribution agent"])
    case (refused acc' b' e)
    have "covered limit rest (modify_slot n (\<lambda>s. s\<lparr>sl_account := acc'\<rparr>) m, b')"
      by (rule covered_modify [OF wf cov s' refused(2)]) simp
    then show ?thesis using refused a s' none st modify_wf [OF wf]
      by (simp add: bind_agent_def op_ok_def kept_modify)
  next
    case (paid acc' b')
    let ?f = "\<lambda>s. s\<lparr>sl_account := acc', sl_event_agent := Some agent\<rparr>"
    have c: "covered limit rest (modify_slot n ?f m, b')"
      by (rule covered_modify [OF wf cov s' paid(2)]) simp
    have "slot_cost codec s \<le> accounted (sl_account s)" using \<open>slots_paid codec m\<close> s' by (simp add: slots_paid_def)
    then have "slot_cost codec (?f s) \<le> accounted acc'"
      using spent_accounted [OF paid(2)] none by (simp add: slot_cost_def opt_bytes_def)
    then have "slots_paid codec (modify_slot n ?f m)"
      using \<open>slots_paid codec m\<close> s' by (auto intro!: paid_modify)
    then show ?thesis using c paid a s' none st modify_wf [OF wf]
      by (simp add: bind_agent_def op_ok_def kept_modify)
  qed
qed

lemma bind_agent_ids:
  assumes "bind_agent n identity st = (st', r)"
  shows "sm_indexes_by_id (fst st') = sm_indexes_by_id (fst st) \<and>
    map_option sl_item_id (get_slot (fst st') n) = map_option sl_item_id (get_slot (fst st) n)"
  using assms by (auto simp: bind_agent_def get_modify split: option.splits if_splits prod.splits sum.splits)

definition bindable :: "nat \<Rightarrow> item_identity \<Rightarrow> slot_map \<Rightarrow> bool" where
  "bindable n identity m \<longleftrightarrow> (\<forall>s. get_slot m n = Some s \<longrightarrow> sl_item_id s = None \<longrightarrow> fresh_id identity m)"

lemma bind_item_id_ok:
  assumes inv: "slots_inv codec limit rest st" and bindable: "bindable n identity (fst st)"
  shows "op_ok codec limit rest st (bind_item_id n identity st)"
proof (cases "\<exists>i s. idn_item_id identity = Some i \<and> get_slot (fst st) n = Some s \<and> sl_item_id s = None")
  case False
  then have "bind_item_id n identity st = (st, Inr ())" by (auto simp: bind_item_id_def split: option.splits)
  then show ?thesis using op_ok_same [OF inv] by simp
next
  case True
  then obtain i s where i: "idn_item_id identity = Some i" and s: "get_slot (fst st) n = Some s"
    and none: "sl_item_id s = None" by blast
  obtain m b where st: "st = (m, b)" by fastforce
  from inv st have wf: "slots_wf m" and cov: "covered limit rest (m, b)" and paid: "slots_paid codec m"
    by (simp_all add: slots_inv_def)
  have s': "get_slot m n = Some s" using s st by simp
  have free: "sm_indexes_by_id m i = None" using bindable i none s' st by (auto simp: bindable_def fresh_id_def)
  from covered_account [OF cov s'] show ?thesis
  proof (cases rule: charge_cases [where k = "id_cost (sl_state s) (Some i)"])
    case (refused acc' b' e)
    have "covered limit rest (modify_slot n (\<lambda>s. s\<lparr>sl_account := acc'\<rparr>) m, b')"
      by (rule covered_modify [OF wf cov s' refused(2)]) simp
    then show ?thesis using refused i s' none st modify_wf [OF wf]
      by (simp add: bind_item_id_def op_ok_def kept_modify)
  next
    case (paid acc' b')
    let ?f = "\<lambda>s. s\<lparr>sl_account := acc', sl_item_id := Some i\<rparr>"
    let ?m = "(modify_slot n ?f m)\<lparr>sm_indexes_by_id := (sm_indexes_by_id m)(i \<mapsto> n)\<rparr>"
    have get: "get_slot ?m k = get_slot (modify_slot n ?f m) k" for k by (simp add: get_slot_def)
    have c: "covered limit rest (?m, b')"
      using covered_modify [OF wf cov s' paid(2), of ?f] by (simp add: covered_def accounts_def)
    have "slot_cost codec s \<le> accounted (sl_account s)" using \<open>slots_paid codec m\<close> s' by (simp add: slots_paid_def)
    then have "slot_cost codec (?f s) \<le> accounted acc'"
      using spent_accounted [OF paid(2)] by (simp add: slot_cost_def)
    then have p: "slots_paid codec ?m"
      using \<open>slots_paid codec m\<close> s' by (auto simp: slots_paid_def get get_modify)
    have unused: "\<not> (get_slot m k = Some r \<and> sl_item_id r = Some i)" for k r
      using wf free by (metis option.distinct(1) slots_wf_def)
    have w: "slots_wf ?m"
      unfolding slots_wf_def
    proof (intro conjI allI)
      show "distinct (map fst (sm_slots ?m))" using wf by (simp add: slots_wf_def)
      fix j k
      show "sm_indexes_by_id ?m j = Some k \<longleftrightarrow> (\<exists>s. get_slot ?m k = Some s \<and> sl_item_id s = Some j)"
        using wf none s' unused by (auto simp: slots_wf_def get get_modify)
    qed
    have k: "done_slots_kept m ?m" using kept_modify [of m n ?f] by (simp add: done_slots_kept_def get)
    show ?thesis using c p w k paid i s' none st by (simp add: bind_item_id_def op_ok_def)
  qed
qed

lemma bind_identity_ok:
  assumes inv: "slots_inv codec limit rest st" and bindable: "bindable n identity (fst st)"
  shows "op_ok codec limit rest st (bind_identity n identity st)"
  unfolding bind_identity_def
proof (rule op_ok_attempt [OF bind_agent_ok [OF inv]])
  fix st' a
  assume run: "bind_agent n identity st = (st', Inr a)" and inv': "slots_inv codec limit rest st'"
  have "bindable n identity (fst st')"
    using bind_agent_ids [OF run] bindable by (auto simp: bindable_def fresh_id_def map_option_case split: option.splits)
  then show "op_ok codec limit rest st' (bind_item_id n identity st')" by (rule bind_item_id_ok [OF inv'])
qed

section \<open>Inserting a slot\<close>

lemma insert_slot_ok:
  assumes wf: "slots_wf m" and paid: "slots_paid codec m"
    and cov: "covered limit (rest + accounted account) (m, b)"
    and absent: "get_slot m n = None" and fresh: "fresh_id identity m"
    and cost: "state_cost codec state \<le> accounted account"
  shows "op_ok codec limit rest (m, b) (insert_slot n identity state account (m, b))"
proof -
  have ok: "account_ok (account, b)" using cov by (auto simp: covered_def account_ok_def)
  have base: "covered limit rest (m, b') \<and> account_ok (acc', b') \<and> covered limit (rest + accounted acc') (m, b')"
    if "spent (account, b) (acc', b') k" for acc' b' k
    using that cov spent_ok [OF ok that] covered_charge [OF cov that] spent_accounted [OF that]
    by (auto simp: covered_def)
  from ok show ?thesis
  proof (cases rule: charge_cases [where k = "retained_agent (idn_event_agent identity)"])
    case (refused acc1 b1 e)
    then show ?thesis using wf base by (simp add: insert_slot_def op_ok_def)
  next
    case (paid acc1 b1)
    note one = paid
    from base [OF one(2)] have "account_ok (acc1, b1)" by simp
    then show ?thesis
    proof (cases rule: charge_cases [where k = "id_cost state (idn_item_id identity)"])
      case (refused acc2 b2 e)
      then show ?thesis using one wf base [OF spent_trans [OF one(2) refused(2)]] by (simp add: insert_slot_def op_ok_def)
    next
      case (paid acc2 b2)
      note both = spent_trans [OF one(2) paid(2)]
      let ?s = "\<lparr>sl_item_id = idn_item_id identity, sl_event_agent = idn_event_agent identity, sl_state = state, sl_account = acc2\<rparr>"
      let ?m = "m\<lparr>sm_indexes_by_id := (case idn_item_id identity of
          None \<Rightarrow> sm_indexes_by_id m | Some i \<Rightarrow> (sm_indexes_by_id m)(i \<mapsto> n)), sm_slots := AList.update n ?s (sm_slots m)\<rparr>"
      have at: "insert_slot n identity state account (m, b) = ((?m, b2), Inr ())"
        using one(1) paid(1) by (simp add: insert_slot_def cong: option.case_cong)
      have entries: "sm_slots ?m = sm_slots m @ [(n, ?s)]" using absent by (simp add: get_slot_def alist_update_fresh)
      have get: "get_slot ?m k = (if k = n then Some ?s else get_slot m k)" for k
        by (simp add: get_slot_def update_conv')
      have keys: "distinct (map fst (sm_slots ?m))"
        using wf absent entries by (auto simp: slots_wf_def get_slot_def map_of_eq_None_iff)
      have "slots_wf ?m"
        unfolding slots_wf_def
      proof (intro conjI allI keys)
        fix j k
        show "sm_indexes_by_id ?m j = Some k \<longleftrightarrow> (\<exists>s. get_slot ?m k = Some s \<and> sl_item_id s = Some j)"
          using wf absent fresh unfolding slots_wf_def get fresh_id_def
          by (cases "idn_item_id identity") (auto, (metis option.distinct(1))+)
      qed
      moreover have "covered limit rest (?m, b2)"
        using base [OF both] entries by (auto simp: covered_def accounts_def)
      moreover have "slots_paid codec ?m"
        using \<open>slots_paid codec m\<close> cost spent_accounted [OF both]
        by (auto simp: slots_paid_def get slot_cost_def)
      moreover have "done_slots_kept m ?m" using absent by (auto simp: done_slots_kept_def get)
      ultimately show ?thesis by (simp add: at op_ok_def)
    qed
  qed
qed

section \<open>The interface of slot operations\<close>

locale slot_operation =
  fixes op :: "item_codec \<Rightarrow> 'p \<Rightarrow> slots_state \<Rightarrow> (slots_state, executor_error, nat option) outcome"
  assumes op_contract: "slots_inv codec limit rest st \<Longrightarrow> op_ok codec limit rest st (op codec p st)"
begin

fun ops :: "item_codec \<Rightarrow> 'p list \<Rightarrow> slots_state \<Rightarrow> (slots_state, executor_error, unit) outcome" where
  "ops codec [] st = (st, Inr ())"
| "ops codec (p # ps) st = attempt (op codec p st) (\<lambda>st _. ops codec ps st)"

lemma op_inv:
  "slots_inv codec limit rest st \<Longrightarrow> op codec p st = (st', Inr r) \<Longrightarrow> slots_inv codec limit rest st'"
  using op_contract [of codec limit rest st p] by (simp add: op_ok_def slots_inv_def)

lemma op_kept:
  "slots_inv codec limit rest st \<Longrightarrow> op codec p st = (st', r) \<Longrightarrow> done_slots_kept (fst st) (fst st')"
  using op_contract [of codec limit rest st p] by (simp add: op_ok_def)

lemma op_covered:
  "slots_inv codec limit rest st \<Longrightarrow> op codec p st = (st', r) \<Longrightarrow> slots_wf (fst st') \<and> covered limit rest st'"
  using op_contract [of codec limit rest st p] by (simp add: op_ok_def)

lemma ops_contract: "slots_inv codec limit rest st \<Longrightarrow> op_ok codec limit rest st (ops codec ps st)"
  by (induction ps arbitrary: st) (auto intro: op_ok_same op_ok_attempt op_contract)

end

lemma open_slot_ok:
  assumes inv: "slots_inv codec limit rest st"
  shows "op_ok codec limit rest st (open_slot codec uuid identity payload v st)"
proof -
  obtain m b where st: "st = (m, b)" by fastforce
  show ?thesis
  proof (cases "\<exists>n item. resolve identity ActOpen v m = Inr (Some n) \<and> from_added codec uuid payload = Some item")
    case False
    then show ?thesis using inv st
      by (auto simp: open_slot_def op_ok_same op_ok_def slots_inv_def split: sum.splits option.splits)
  next
    case True
    then obtain n item where res: "resolve identity ActOpen v m = Inr (Some n)"
      and item: "from_added codec uuid payload = Some item" by blast
    have absent: "get_slot m n = None" using resolve_found [OF res] by (cases "get_slot m n") auto
    from inv st have wf: "slots_wf m" and cov: "covered limit rest (m, b)" and sp: "slots_paid codec m"
      by (simp_all add: slots_inv_def)
    have fresh: "fresh_id identity m" by (rule resolve_fresh [OF wf res]) (simp add: absent)
    from covered_new_account [OF cov] show ?thesis
    proof (cases rule: charge_cases [where k = "retained_active item"])
      case (refused acc b' e)
      then show ?thesis using wf covered_charge [OF cov refused(2)] st res item by (simp add: open_slot_def op_ok_def)
    next
      case (paid acc b')
      have acc: "accounted acc = retained_active item" using spent_accounted [OF paid(2)] by (simp add: new_account_def)
      have ok: "op_ok codec limit rest (m, b') (insert_slot n identity (SlotActive item) acc (m, b'))"
        by (rule insert_slot_ok [OF wf sp _ absent fresh]) (use covered_charge [OF cov paid(2)] acc in auto)
      have "op_ok codec limit rest (m, b') (attempt (insert_slot n identity (SlotActive item) acc (m, b')) (\<lambda>st _. (st, Inr (Some n))))"
        by (rule op_ok_attempt [OF ok]) (rule op_ok_same)
      then show ?thesis using paid st res item by (simp add: open_slot_def op_ok_def)
    qed
  qed
qed

interpretation slot_opening: slot_operation "\<lambda>codec (uuid, identity, payload, v) st. open_slot codec uuid identity payload v st"
  by unfold_locales (auto simp: open_slot_ok)

lemma resolve_bindable:
  assumes "slots_wf m" "resolve identity action v m = Inr (Some n)"
  shows "bindable n identity m"
  using resolve_fresh [OF assms] by (fastforce simp: bindable_def)

lemma bind_then_ok:
  assumes "slots_inv codec limit rest st" "bindable n identity (fst st)"
  shows "op_ok codec limit rest st (attempt (bind_identity n identity st) (\<lambda>st _. (st, Inr x)))"
  by (rule op_ok_attempt [OF bind_identity_ok [OF assms]]) (rule op_ok_same)

text \<open>One step on the state of an active slot, charged to its account.\<close>

lemma step_active_ok:
  assumes wf: "slots_wf m" and cov: "covered limit rest (m, b)" and sp: "slots_paid codec m"
    and s: "get_slot m n = Some s" and active: "slot_active s"
    and spends: "spent (sl_account s, b) (acc, b') k"
    and pays: "is_ok r \<Longrightarrow> state_cost codec state + accounted (sl_account s) \<le> state_cost codec (sl_state s) + accounted acc"
  shows "op_ok codec limit rest (m, b) ((modify_slot n (\<lambda>s. s\<lparr>sl_state := state, sl_account := acc\<rparr>) m, b'), r)"
proof -
  let ?f = "\<lambda>s. s\<lparr>sl_state := state, sl_account := acc\<rparr>"
  have "covered limit rest (modify_slot n ?f m, b')" by (rule covered_modify [OF wf cov s spends]) simp
  moreover have "done_slots_kept m (modify_slot n ?f m)"
    by (rule kept_modify) (use s active in \<open>auto simp: slot_active_def\<close>)
  moreover have "slots_paid codec (modify_slot n ?f m)" if "is_ok r"
  proof -
    have "slot_cost codec s \<le> accounted (sl_account s)" using sp s by (simp add: slots_paid_def)
    then have "slot_cost codec (?f s) \<le> accounted acc" using pays [OF that] by (simp add: slot_cost_def)
    then show ?thesis using sp s by (auto intro!: paid_modify)
  qed
  ultimately show ?thesis using modify_wf [OF wf] by (simp add: op_ok_def)
qed

lemma apply_slot_ok:
  assumes inv: "slots_inv codec limit rest st"
  shows "op_ok codec limit rest st (apply_slot codec uuid identity payload v st)"
proof -
  obtain m b where st: "st = (m, b)" by fastforce
  show ?thesis
  proof (cases "\<exists>n s. resolve identity ActMutate v m = Inr (Some n) \<and> get_slot m n = Some s")
    case False
    then show ?thesis using inv st by (auto simp: apply_slot_def op_ok_same split: sum.splits option.splits)
  next
    case True
    then obtain n s where res: "resolve identity ActMutate v m = Inr (Some n)" and s: "get_slot m n = Some s" by blast
    from inv st have wf: "slots_wf m" and cov: "covered limit rest (m, b)" and sp: "slots_paid codec m"
      by (simp_all add: slots_inv_def)
    have "slot_active s" using resolve_found [OF res s] by simp
    then obtain item where item: "sl_state s = SlotActive item" by (cases "sl_state s") (auto simp: slot_active_def)
    let ?m = "mark_uncertain (call_id_differs payload (sl_state s)) m"
    obtain item' acc b' r where run: "apply_event codec uuid payload item (sl_account s, b) = ((item', acc, b'), r)"
      by (metis prod.exhaust)
    from apply_event_paid [OF covered_account [OF cov s], of item codec uuid payload] run
    have "\<exists>k. spent (sl_account s, b) (acc, b') k"
      and pays: "is_ok r \<Longrightarrow> retained_active item' + accounted (sl_account s) \<le> retained_active item + accounted acc"
      by (auto simp: paid_step_def)
    then obtain k where spends: "spent (sl_account s, b) (acc, b') k" by blast
    let ?f = "\<lambda>s. s\<lparr>sl_state := SlotActive item', sl_account := acc\<rparr>"
    have step: "op_ok codec limit rest (m, b) ((modify_slot n ?f ?m, b'), r)"
      by (rule op_ok_certain, rule step_active_ok [OF _ _ _ _ \<open>slot_active s\<close> spends])
        (use wf cov sp s item pays in simp_all)
    have "op_ok codec limit rest (m, b)
        (attempt ((modify_slot n ?f ?m, b'), r) (\<lambda>st _. attempt (bind_identity n identity st) (\<lambda>st _. (st, Inr (Some n)))))"
    proof (rule op_ok_attempt [OF step])
      fix st' a
      assume eq: "((modify_slot n ?f ?m, b'), r) = (st', Inr a)" and inv': "slots_inv codec limit rest st'"
      have "bindable n identity (fst st')"
        using eq resolve_bindable [OF wf res] by (auto simp: bindable_def get_modify fresh_id_def)
      then show "op_ok codec limit rest st' (attempt (bind_identity n identity st') (\<lambda>st _. (st, Inr (Some n))))"
        by (rule bind_then_ok [OF inv'])
    qed
    then show ?thesis using st res s item run by (simp add: apply_slot_def Let_def)
  qed
qed

interpretation slot_mutation: slot_operation "\<lambda>codec (uuid, identity, payload, v) st. apply_slot codec uuid identity payload v st"
  by unfold_locales (auto simp: apply_slot_ok)

section \<open>Completion\<close>

lemma complete_again_ok:
  assumes "slots_inv codec limit rest st" "bindable n identity (fst st)"
  shows "op_ok codec limit rest st (complete_again codec n identity previous parsed candidate st)"
proof (cases "repeats codec previous parsed \<or> repeats codec previous candidate")
  case True
  then show ?thesis using bind_then_ok [OF assms] by (simp add: complete_again_def)
next
  case False
  show ?thesis unfolding complete_again_def if_not_P [OF False] by (rule op_ok_same [OF assms(1)])
qed

lemma complete_active_ok:
  assumes inv: "slots_inv codec limit rest st" and bindable: "bindable n identity (fst st)"
    and s: "get_slot (fst st) n = Some s" and active: "slot_active s"
  shows "op_ok codec limit rest st (complete_active codec n identity s parsed candidate st)"
proof (cases candidate)
  case None
  then show ?thesis using op_ok_same [OF inv] by (simp add: complete_active_def)
next
  case (Some item)
  obtain m b where st: "st = (m, b)" by fastforce
  from inv st have wf: "slots_wf m" and cov: "covered limit rest (m, b)" and sp: "slots_paid codec m"
    by (simp_all add: slots_inv_def)
  have s': "get_slot m n = Some s" using s st by simp
  let ?u = "\<not> (case parsed of Some original \<Rightarrow> semantically_equal codec item original | None \<Rightarrow> False)"
  let ?m = "mark_uncertain ?u m"
  let ?cost = "retained_output_item (ic_search_output codec) item + retained_agent (sl_event_agent s)"
  from covered_account [OF cov s'] show ?thesis
  proof (cases rule: charge_cases [where k = "saturating_sub ?cost (accounted (sl_account s))"])
    case (refused acc b' e)
    have "covered limit rest (m, b')" using covered_charge [OF cov refused(2)] by simp
    then show ?thesis using refused Some st wf by (simp add: complete_active_def reconcile_def Let_def op_ok_def)
  next
    case (paid acc b')
    let ?f = "\<lambda>s. s\<lparr>sl_state := SlotDone item, sl_account := acc\<rparr>"
    have acc: "?cost \<le> accounted acc" using spent_accounted [OF paid(2)] by (simp add: saturating_sub_def)
    have wf': "slots_wf (modify_slot n ?f ?m)" using wf by (intro modify_wf) simp_all
    have cov': "covered limit rest (modify_slot n ?f ?m, b')"
      by (rule covered_modify [OF _ _ _ paid(2)]) (use wf cov s' in simp_all)
    have "slot_cost codec (?f s) \<le> accounted acc" using acc by (simp add: slot_cost_def)
    then have sp': "slots_paid codec (modify_slot n ?f ?m)" using sp s' by (intro paid_modify) simp_all
    have kept': "done_slots_kept m (modify_slot n ?f ?m)"
      by (rule done_slots_kept_trans [of m ?m], simp, rule kept_modify) (use s' active in \<open>auto simp: slot_active_def\<close>)
    have inv': "slots_inv codec limit rest (modify_slot n ?f ?m, b')" using wf' cov' sp' by (simp add: slots_inv_def)
    have "bindable n identity (fst (modify_slot n ?f ?m, b'))"
      using bindable st by (auto simp: bindable_def get_modify fresh_id_def)
    from bind_then_ok [OF inv' this, of "Some n"] kept' show ?thesis
      using paid Some st by (auto simp: complete_active_def reconcile_def Let_def op_ok_def intro: done_slots_kept_trans)
  qed
qed

lemma complete_done_only_ok:
  assumes inv: "slots_inv codec limit rest st" and absent: "get_slot (fst st) n = None" and fresh: "fresh_id identity (fst st)"
  shows "op_ok codec limit rest st (complete_done_only codec uuid n identity parsed st)"
proof (cases "Option.bind parsed (done_only_item uuid)")
  case None
  then show ?thesis using op_ok_same [OF inv] by (simp add: complete_done_only_def)
next
  case (Some item)
  obtain m b where st: "st = (m, b)" by fastforce
  from inv st have wf: "slots_wf m" and cov: "covered limit rest (m, b)" and sp: "slots_paid codec m"
    by (simp_all add: slots_inv_def)
  from covered_new_account [OF cov] show ?thesis
  proof (cases rule: charge_cases [where k = "retained_output_item (ic_search_output codec) item"])
    case (refused acc b' e)
    then show ?thesis using wf covered_charge [OF cov refused(2)] st Some by (simp add: complete_done_only_def op_ok_def)
  next
    case (paid acc b')
    have acc: "accounted acc = retained_output_item (ic_search_output codec) item"
      using spent_accounted [OF paid(2)] by (simp add: new_account_def)
    have ok: "op_ok codec limit rest (m, b') (insert_slot n identity (SlotDone item) acc (m, b'))"
      by (rule insert_slot_ok [OF wf sp]) (use covered_charge [OF cov paid(2)] acc absent fresh st in auto)
    have "op_ok codec limit rest (m, b') (attempt (insert_slot n identity (SlotDone item) acc (m, b')) (\<lambda>st _. (st, Inr (Some n))))"
      by (rule op_ok_attempt [OF ok]) (rule op_ok_same)
    then show ?thesis using paid st Some by (simp add: complete_done_only_def op_ok_def)
  qed
qed

text \<open>The cases of a completion, with the state the checks before it leave.\<close>

lemma complete_slot_cases:
  assumes "\<And>x. P (st, x)"
    and "\<And>n parsed m. resolve identity ActComplete v (fst st) = Inr (Some n) \<Longrightarrow> get_slot (fst st) n = None \<Longrightarrow>
      P (complete_done_only codec uuid n identity parsed (mark_uncertain True (mark_uncertain m (fst st)), snd st))"
    and "\<And>n s previous parsed candidate u. resolve identity ActComplete v (fst st) = Inr (Some n) \<Longrightarrow>
      get_slot (fst st) n = Some s \<Longrightarrow> sl_state s = SlotDone previous \<Longrightarrow>
      P (complete_again codec n identity previous parsed candidate (mark_uncertain u (fst st), snd st))"
    and "\<And>u e. P ((mark_uncertain u (fst st), snd st), Inl e)"
    and "\<And>u u' e. P ((mark_uncertain u (mark_uncertain u' (fst st)), snd st), Inl e)"
    and "\<And>n s item parsed candidate u u'. resolve identity ActComplete v (fst st) = Inr (Some n) \<Longrightarrow>
      get_slot (fst st) n = Some s \<Longrightarrow> sl_state s = SlotActive item \<Longrightarrow>
      P (complete_active codec n identity s parsed candidate (mark_uncertain u (mark_uncertain u' (fst st)), snd st))"
  shows "P (complete_slot codec uuid identity payload validated v st)"
  unfolding complete_slot_def
  using assms by (auto simp: Let_def split: sum.splits option.splits event_payload.splits slot_state.splits)

lemma complete_slot_ok:
  assumes inv: "slots_inv codec limit rest st"
  shows "op_ok codec limit rest st (complete_slot codec uuid identity payload validated v st)"
proof -
  obtain m b where st: "st = (m, b)" by fastforce
  have inv': "slots_inv codec limit rest (m, b)" and wf: "slots_wf m" using inv st by (simp_all add: slots_inv_def)
  note bindable = resolve_bindable [OF wf, of identity ActComplete v]
  show ?thesis
    unfolding st
  proof (rule complete_slot_cases, goal_cases)
    case (2 n parsed u)
    then have "fresh_id identity m" by (intro resolve_fresh [OF wf, of identity ActComplete v n]) simp_all
    with 2 show ?case
      by (intro op_ok_certain [of codec limit rest u m b] op_ok_certain [of codec limit rest True "mark_uncertain u m" b])
        (simp, rule complete_done_only_ok, simp_all add: inv' fresh_id_def)
  next
    case (3 n s previous parsed candidate u)
    then show ?case
      by (intro op_ok_certain [of codec limit rest u m b])
        (simp, rule complete_again_ok, simp_all add: inv' bindable [unfolded bindable_def fresh_id_def] bindable_def fresh_id_def)
  next
    case (6 n s item parsed candidate u u')
    then show ?case
      by (intro op_ok_certain [of codec limit rest u' m b] op_ok_certain [of codec limit rest u "mark_uncertain u' m" b])
        (simp, rule complete_active_ok, simp_all add: inv' bindable [unfolded bindable_def fresh_id_def] bindable_def fresh_id_def slot_active_def)
  qed (use inv' in \<open>auto intro: op_ok_same intro!: op_ok_certain [of codec limit rest _ m b] simp: slots_inv_def op_ok_def\<close>)
qed

interpretation slot_completion:
  slot_operation "\<lambda>codec (uuid, identity, payload, validated, v) st. complete_slot codec uuid identity payload validated v st"
  by unfold_locales (auto simp: complete_slot_ok)

text \<open>Whatever item event the accumulator hands to the slot map.\<close>

lemma slot_event_ok:
  "slots_inv codec limit rest st \<Longrightarrow> op_ok codec limit rest st (slot_event codec uuid identity frame validated v st)"
  by (simp add: slot_event_def open_slot_ok complete_slot_ok apply_slot_ok)

interpretation slot_events:
  slot_operation "\<lambda>codec (uuid, identity, frame, validated, v) st. slot_event codec uuid identity frame validated v st"
  by unfold_locales (auto simp: slot_event_ok)

section \<open>Draining\<close>

text \<open>The drain hands over every item that can be finalized, in the order of the output indexes.\<close>

definition drained_items :: "slot_map \<Rightarrow> output_item list" where
  "drained_items m = List.map_filter (\<lambda>(_, s). state_finalize (sl_state s)) (sort_key fst (sm_slots m))"

lemma drain_slots_items:
  "drain_slots codec xs b = (b', Inr items) \<Longrightarrow> items = List.map_filter (\<lambda>(_, s). state_finalize (sl_state s)) xs"
proof (induction xs arbitrary: b items)
  case (Cons x xs)
  obtain n s where x: "x = (n, s)" by fastforce
  show ?case
  proof (cases "state_finalize (sl_state s)")
    case None
    with Cons x show ?thesis by (auto simp: List.map_filter_simps)
  next
    case (Some item)
    with Cons.prems x obtain b1 rest where "drain_slots codec xs b1 = (b', Inr rest)" "items = item # rest"
      by (auto split: prod.splits sum.splits)
    with Cons.IH Some x show ?thesis by (simp add: List.map_filter_simps)
  qed
qed (simp add: List.map_filter_simps)

lemma sum_list_sort_key: "sum_list (map f (sort_key k xs)) = (sum_list (map f xs) :: nat)"
  by (metis mset_map mset_sort sum_mset_sum_list)

lemma drain_slots_paid:
  assumes "rest + sum_list (map (accounted \<circ> sl_account \<circ> snd) xs) \<le> rb_used b" "rb_used b \<le> rb_limit b" "rb_limit b \<le> USIZE_MAX"
    and "drain_slots codec xs (Some b) = (b', r)"
  shows "\<exists>b1. b' = Some b1 \<and> rb_limit b1 = rb_limit b \<and> rb_used b \<le> rb_used b1 \<and> rb_used b1 \<le> rb_limit b \<and>
    (\<forall>items. r = Inr items \<longrightarrow> rest + sum_retained (retained_output_item (ic_search_output codec)) items \<le> rb_used b1)"
  using assms
proof (induction xs arbitrary: b b' rest r)
  case Nil
  then show ?case by (auto simp: sum_retained_def)
next
  case (Cons x xs)
  obtain n s where x: "x = (n, s)" by fastforce
  show ?case
  proof (cases "state_finalize (sl_state s)")
    case None
    with Cons.IH [of rest b b' r] Cons.prems x show ?thesis by auto
  next
    case (Some item)
    let ?cost = "retained_output_item (ic_search_output codec) item"
    have "account_ok (sl_account s, Some b)" using Cons.prems x by (simp add: account_ok_def)
    then show ?thesis
    proof (cases rule: charge_cases [where k = "saturating_sub ?cost (accounted (sl_account s))"])
      case (refused acc' b1 e)
      then show ?thesis using Cons.prems Some x by (auto simp: reconcile_def spent_def split: option.splits)
    next
      case (paid acc' b1)
      then obtain b2 where b2: "b1 = Some b2" "rb_used b2 = rb_used b + saturating_sub ?cost (accounted (sl_account s))"
        "rb_limit b2 = rb_limit b" "rb_used b2 \<le> rb_limit b" by (auto simp: spent_def split: option.splits)
      obtain b3 r3 where d: "drain_slots codec xs (Some b2) = (b3, r3)" by fastforce
      have "rest + ?cost + sum_list (map (accounted \<circ> sl_account \<circ> snd) xs) \<le> rb_used b2"
        using Cons.prems(1) x b2(2) by (simp add: saturating_sub_def comp_def)
      from Cons.IH [OF this _ _ d] b2 Cons.prems obtain b4 where b4: "b3 = Some b4" "rb_limit b4 = rb_limit b"
        "rb_used b2 \<le> rb_used b4" "rb_used b4 \<le> rb_limit b"
        "\<forall>items. r3 = Inr items \<longrightarrow> rest + ?cost + sum_retained (retained_output_item (ic_search_output codec)) items \<le> rb_used b4"
        by auto
      have "b' = b3 \<and> r = (case r3 of Inl e \<Rightarrow> Inl e | Inr items \<Rightarrow> Inr (item # items))"
        using Cons.prems(4) Some x paid(1) b2(1) d by (auto simp: reconcile_def split: sum.splits)
      then show ?thesis using b4 b2 by (auto simp: sum_retained_def split: sum.splits)
    qed
  qed
qed

lemma drain_output_paid:
  assumes "covered limit rest st" "drain_output codec st = (st', Inr items)"
  shows "covered limit (rest + sum_retained (retained_output_item (ic_search_output codec)) items) st' \<and>
    sm_slots (fst st') = [] \<and> sm_indexes_by_id (fst st') = Map.empty \<and>
    sm_completion_uncertain (fst st') = sm_completion_uncertain (fst st) \<and> items = drained_items (fst st)"
proof -
  from assms(1) obtain b where b: "snd st = Some b" "rb_limit b = limit" "rb_limit b \<le> USIZE_MAX"
    "rb_used b \<le> rb_limit b" "rest + accounts (fst st) \<le> rb_used b" by (auto simp: covered_def)
  from assms(2) obtain b' where d: "drain_slots codec (sort_key fst (sm_slots (fst st))) (Some b) = (b', Inr items)"
    and st': "st' = ((fst st)\<lparr>sm_slots := [], sm_indexes_by_id := Map.empty\<rparr>, b')"
    using b(1) by (auto simp: drain_output_def split: if_splits prod.splits)
  have "rest + sum_list (map (accounted \<circ> sl_account \<circ> snd) (sort_key fst (sm_slots (fst st)))) \<le> rb_used b"
    using b(5) by (simp add: sum_list_sort_key accounts_def)
  from drain_slots_paid [OF this b(4,3) d] show ?thesis
    using b st' drain_slots_items [OF d] by (auto simp: covered_def accounts_def drained_items_def)
qed

text \<open>A failed drain leaves no slot it has paid for twice.\<close>

lemma drain_output_covered:
  assumes "slots_wf (fst st)" "covered limit rest st" "drain_output codec st = (st', r)"
  shows "slots_wf (fst st') \<and> covered limit rest st'"
proof (cases "unfinished_collaboration (fst st)")
  case True
  then show ?thesis using assms by (simp add: drain_output_def)
next
  case False
  from assms(2) obtain b where b: "snd st = Some b" "rb_limit b = limit" "rb_limit b \<le> USIZE_MAX"
    "rb_used b \<le> rb_limit b" "rest + accounts (fst st) \<le> rb_used b" by (auto simp: covered_def)
  obtain b' r' where d: "drain_slots codec (sort_key fst (sm_slots (fst st))) (Some b) = (b', r')" by fastforce
  have st': "st' = ((fst st)\<lparr>sm_slots := [], sm_indexes_by_id := Map.empty\<rparr>, b')"
    using assms(3) False b(1) d by (simp add: drain_output_def)
  have "rest + sum_list (map (accounted \<circ> sl_account \<circ> snd) (sort_key fst (sm_slots (fst st)))) \<le> rb_used b"
    using b(5) by (simp add: sum_list_sort_key accounts_def)
  from drain_slots_paid [OF this b(4,3) d] show ?thesis
    using b st' by (auto simp: covered_def accounts_def slots_wf_def get_slot_def)
qed

end
