(* ===== verification/Accumulator_Safety.thy ===== *)
theory Accumulator_Safety
  imports Slot_Safety
begin

text \<open>
  What the assembled response promises: everything it holds has been charged to the response budget, a completed item
  is final, a strict stream has the order and the terminal output it declares, call ids are stable, and a
  steering cut closes only items that upstream itself completed.
\<close>

section \<open>The invariant\<close>

definition details_bytes :: "response_accumulator \<Rightarrow> nat" where
  "details_bytes acc = opt_bytes retained_details (ac_incomplete_details acc) + opt_bytes retained_json (ac_error acc)"

definition output_bytes :: "item_codec \<Rightarrow> output_item list \<Rightarrow> nat" where
  "output_bytes codec items = sum_retained (retained_output_item (ic_search_output codec)) items"

text \<open>What the accumulator holds now: open and completed slots, the output, the tier and the terminal details.\<close>

definition held_bytes :: "item_codec \<Rightarrow> response_accumulator \<Rightarrow> nat" where
  "held_bytes codec acc =
     sum_list (map (slot_cost codec \<circ> snd) (sm_slots (ac_slots acc))) + output_bytes codec (ac_output acc)
     + tier_bytes (ac_service_tier acc) + details_bytes acc"

definition committed :: "item_codec \<Rightarrow> response_accumulator \<Rightarrow> nat" where
  "committed codec acc =
     output_bytes codec (ac_output acc) + accounted (ac_service_tier_account acc)
     + accounted (ac_terminal_details_account acc)"

definition acc_inv :: "item_codec \<Rightarrow> nat \<Rightarrow> nat \<Rightarrow> response_accumulator \<Rightarrow> bool" where
  "acc_inv codec limit base acc \<longleftrightarrow>
     slots_inv codec limit (base + committed codec acc) (ac_slots acc, ac_budget acc) \<and>
     tier_bytes (ac_service_tier acc) \<le> accounted (ac_service_tier_account acc) \<and>
     details_bytes acc \<le> accounted (ac_terminal_details_account acc)"

definition is_done :: "response_accumulator \<Rightarrow> nat \<Rightarrow> output_item \<Rightarrow> bool" where
  "is_done acc n item \<longleftrightarrow> (\<exists>s. get_slot (ac_slots acc) n = Some s \<and> sl_state s = SlotDone item)"

text \<open>The output only grows, and a completed item stays as it is until the drain appends it.\<close>

definition keeps_done :: "response_accumulator \<Rightarrow> response_accumulator \<Rightarrow> bool" where
  "keeps_done acc acc' \<longleftrightarrow>
     (\<exists>items. ac_output acc' = ac_output acc @ items \<and>
        (\<forall>n item. is_done acc n item \<longrightarrow> is_done acc' n item \<or> item \<in> set items))"

definition acc_step_ok ::
    "item_codec \<Rightarrow> nat \<Rightarrow> nat \<Rightarrow> response_accumulator \<Rightarrow> (response_accumulator, executor_error, 'a) outcome \<Rightarrow> bool" where
  "acc_step_ok codec limit base acc r \<longleftrightarrow>
     (is_ok (snd r) \<longrightarrow> acc_inv codec limit base (fst r) \<and> keeps_done acc (fst r))"

lemma keeps_done_refl [simp]: "keeps_done acc acc"
  by (auto simp: keeps_done_def)

lemma keeps_done_trans: "keeps_done a b \<Longrightarrow> keeps_done b c \<Longrightarrow> keeps_done a c"
  unfolding keeps_done_def by fastforce

lemma acc_step_ok_same: "acc_inv codec limit base acc \<Longrightarrow> acc_step_ok codec limit base acc (acc, r)"
  by (simp add: acc_step_ok_def)

lemma acc_step_error: "acc_step_ok codec limit base acc (acc', Inl e)"
  by (simp add: acc_step_ok_def)

lemma acc_step_attempt:
  assumes "acc_step_ok codec limit base acc r"
    and "\<And>acc' a. r = (acc', Inr a) \<Longrightarrow> acc_inv codec limit base acc' \<Longrightarrow> acc_step_ok codec limit base acc' (k acc' a)"
  shows "acc_step_ok codec limit base acc (attempt r k)"
proof (cases r)
  case (Pair acc' res)
  show ?thesis
  proof (cases res)
    case (Inl e)
    then show ?thesis using Pair by (simp add: attempt_def acc_step_ok_def)
  next
    case (Inr a)
    have "acc_step_ok codec limit base acc' (k acc' a)" using assms Pair Inr by (simp add: acc_step_ok_def)
    then show ?thesis using assms(1) Pair Inr by (auto simp: attempt_def acc_step_ok_def intro: keeps_done_trans)
  qed
qed

lemma covered_account_ok:
  assumes "covered limit rest (m, b)" "accounted a \<le> rest"
  shows "account_ok (a, b)"
  using assms by (auto simp: covered_def account_ok_def)

lemma covered_rest_mono: "covered limit rest st \<Longrightarrow> rest' \<le> rest \<Longrightarrow> covered limit rest' st"
  by (auto simp: covered_def)

section \<open>The operations keep it\<close>

text \<open>A reconciliation of one of the accumulator's own accounts.\<close>

lemma reconcile_own_account:
  assumes inv: "acc_inv codec limit base acc" and acct: "accounted a \<le> committed codec acc"
    and run: "reconcile n (a, ac_budget acc) = ((a', b'), Inr u)"
  shows "n \<le> accounted a'" "accounted a \<le> accounted a'"
    "slots_inv codec limit (base + committed codec acc + (accounted a' - accounted a)) (ac_slots acc, b')"
proof -
  from inv have cov: "covered limit (base + committed codec acc) (ac_slots acc, ac_budget acc)"
    by (simp add: acc_inv_def slots_inv_def)
  have ok: "account_ok (a, ac_budget acc)" by (rule covered_account_ok [OF cov]) (use acct in simp)
  from charge_spent [OF ok run [unfolded reconcile_def]]
  have s: "spent (a, ac_budget acc) (a', b') (saturating_sub n (accounted a))" by simp
  note acc = spent_accounted [OF s]
  show "n \<le> accounted a'" "accounted a \<le> accounted a'" using acc by (simp_all add: saturating_sub_def)
  show "slots_inv codec limit (base + committed codec acc + (accounted a' - accounted a)) (ac_slots acc, b')"
    using inv covered_charge [OF cov s] acc by (simp add: acc_inv_def slots_inv_def)
qed

lemma capture_terminal_details_ok:
  assumes inv: "acc_inv codec limit base acc"
  shows "acc_step_ok codec limit base acc (capture_terminal_details frame acc)"
proof (cases "is_terminal_event (ef_event_type frame) \<and> map_of (we_rest (ef_wire frame)) ''response'' \<noteq> None")
  case False
  then show ?thesis using inv by (auto simp: capture_terminal_details_def acc_step_ok_same)
next
  case True
  then obtain response where r: "is_terminal_event (ef_event_type frame)" "map_of (we_rest (ef_wire frame)) ''response'' = Some response"
    by auto
  let ?details = "Option.bind (json_get response ''incomplete_details'') details_of_json"
  let ?err = "case json_get response ''error'' of Some JNull \<Rightarrow> None | e \<Rightarrow> e"
  obtain a b res where run: "reconcile (opt_bytes retained_details ?details + opt_bytes retained_json ?err)
      (ac_terminal_details_account acc, ac_budget acc) = ((a, b), res)" by (metis prod.exhaust)
  show ?thesis
  proof (cases res)
    case (Inl e)
    then show ?thesis using run r by (simp add: capture_terminal_details_def Let_def acc_step_error)
  next
    case (Inr u)
    have "accounted (ac_terminal_details_account acc) \<le> committed codec acc" by (simp add: committed_def)
    note rec = reconcile_own_account [OF inv this run [unfolded Inr]]
    let ?acc = "acc\<lparr>ac_budget := b, ac_terminal_details_account := a, ac_incomplete_details := ?details, ac_error := ?err\<rparr>"
    have "base + committed codec ?acc = base + committed codec acc + (accounted a - accounted (ac_terminal_details_account acc))"
      using rec(2) by (simp add: committed_def)
    then have "acc_inv codec limit base ?acc" using rec(1,3) inv by (simp add: acc_inv_def details_bytes_def add.assoc)
    moreover have "keeps_done acc ?acc" by (auto simp: keeps_done_def is_done_def)
    ultimately show ?thesis using run r Inr by (simp add: capture_terminal_details_def Let_def acc_step_ok_def)
  qed
qed

lemma finalize_all_ok:
  assumes inv: "acc_inv codec limit base acc"
  shows "acc_step_ok codec limit base acc (finalize_all codec acc)"
proof -
  obtain m b r where run: "drain_output codec (ac_slots acc, ac_budget acc) = ((m, b), r)" by (metis prod.exhaust)
  show ?thesis
  proof (cases r)
    case (Inl e)
    then show ?thesis using run by (simp add: finalize_all_def acc_step_error)
  next
    case (Inr items)
    from inv have cov: "covered limit (base + committed codec acc) (ac_slots acc, ac_budget acc)"
      and wf: "slots_wf (ac_slots acc)" by (simp_all add: acc_inv_def slots_inv_def)
    let ?acc = "acc\<lparr>ac_slots := m, ac_budget := b, ac_output := ac_output acc @ items\<rparr>"
    from drain_output_paid [OF cov run [unfolded Inr]]
    have d: "covered limit (base + committed codec acc + output_bytes codec items) (m, b)" "sm_slots m = []"
      "sm_indexes_by_id m = Map.empty" "items = drained_items (ac_slots acc)" by (auto simp: output_bytes_def)
    have "committed codec ?acc = committed codec acc + output_bytes codec items"
      by (simp add: committed_def output_bytes_def sum_retained_def)
    then have "acc_inv codec limit base ?acc"
      using d inv by (simp add: acc_inv_def slots_inv_def slots_wf_def slots_paid_def get_slot_def details_bytes_def add.assoc)
    moreover have "keeps_done acc ?acc"
      unfolding keeps_done_def
    proof (intro exI conjI allI impI)
      show "ac_output ?acc = ac_output acc @ items" by simp
      fix n item assume "is_done acc n item"
      then obtain s where "get_slot (ac_slots acc) n = Some s" "sl_state s = SlotDone item" by (auto simp: is_done_def)
      then have "(n, s) \<in> set (sort_key fst (sm_slots (ac_slots acc)))" "state_finalize (sl_state s) = Some item"
        by (auto simp: get_slot_def dest: map_of_SomeD)
      then have "item \<in> set items" by (force simp: d(4) drained_items_def List.map_filter_def)
      then show "is_done ?acc n item \<or> item \<in> set items" by simp
    qed
    ultimately show ?thesis using run Inr by (simp add: finalize_all_def acc_step_ok_def)
  qed
qed

lemma finish_response_ok:
  assumes inv: "acc_inv codec limit base acc"
  shows "acc_step_ok codec limit base acc (finish_response codec status usage tier acc)"
  unfolding finish_response_def
proof (rule acc_step_attempt [OF finalize_all_ok [OF inv]])
  fix acc1 a assume inv1: "acc_inv codec limit base acc1"
  obtain a' b res where run: "reconcile (tier_bytes tier) (ac_service_tier_account acc1, ac_budget acc1) = ((a', b), res)"
    by (metis prod.exhaust)
  let ?r = "case reconcile (tier_bytes tier) (ac_service_tier_account acc1, ac_budget acc1) of
      ((_, b), Inl e) \<Rightarrow> (acc1\<lparr>ac_budget := b\<rparr>, Inl e)
    | ((account, b), Inr _) \<Rightarrow>
        (acc1\<lparr>ac_budget := b, ac_service_tier_account := account, ac_status := status, ac_usage := usage,
             ac_service_tier := tier, ac_stream_lifecycle := StreamTerminal\<rparr>, Inr ())"
  show "acc_step_ok codec limit base acc1 ?r"
  proof (cases res)
    case (Inl e)
    then show ?thesis using run by (simp add: acc_step_error)
  next
    case (Inr u)
    have "accounted (ac_service_tier_account acc1) \<le> committed codec acc1" by (simp add: committed_def)
    note rec = reconcile_own_account [OF inv1 this run [unfolded Inr]]
    let ?acc = "acc1\<lparr>ac_budget := b, ac_service_tier_account := a', ac_status := status, ac_usage := usage,
             ac_service_tier := tier, ac_stream_lifecycle := StreamTerminal\<rparr>"
    have "base + committed codec ?acc = base + committed codec acc1 + (accounted a' - accounted (ac_service_tier_account acc1))"
      using rec(2) by (simp add: committed_def)
    then have "acc_inv codec limit base ?acc" using rec(1,3) inv1 by (simp add: acc_inv_def details_bytes_def add.assoc)
    moreover have "keeps_done acc1 ?acc" by (auto simp: keeps_done_def is_done_def)
    ultimately show ?thesis using run Inr by (simp add: acc_step_ok_def)
  qed
qed

lemma acc_inv_observe [simp]: "acc_inv codec limit base (observe_strict_call_id n c acc) = acc_inv codec limit base acc"
  by (simp add: observe_strict_call_id_def acc_inv_def committed_def details_bytes_def)

lemma observe_strict_call_id_keeps [simp]:
  "ac_slots (observe_strict_call_id n c acc) = ac_slots acc" "ac_output (observe_strict_call_id n c acc) = ac_output acc"
  "ac_budget (observe_strict_call_id n c acc) = ac_budget acc" "ac_validation (observe_strict_call_id n c acc) = ac_validation acc"
  "ac_stream_lifecycle (observe_strict_call_id n c acc) = ac_stream_lifecycle acc"
  "ac_response_id (observe_strict_call_id n c acc) = ac_response_id acc"
  "ac_status (observe_strict_call_id n c acc) = ac_status acc"
  by (simp_all add: observe_strict_call_id_def)

lemma keeps_done_observe [simp]: "keeps_done acc (observe_strict_call_id n c acc') = keeps_done acc acc'"
  by (simp add: keeps_done_def is_done_def)

lemma observe_event_cases:
  "observe_event n payload acc = acc \<or> (\<exists>c. observe_event n payload acc = observe_strict_call_id n c acc)"
  by (auto simp: observe_event_def split: event_payload.splits)

lemma acc_inv_lifecycle:
  "acc_inv codec limit base (acc\<lparr>ac_response_id := i\<rparr>) = acc_inv codec limit base acc"
  "acc_inv codec limit base (acc\<lparr>ac_status := t\<rparr>) = acc_inv codec limit base acc"
  "acc_inv codec limit base (acc\<lparr>ac_strict_call_ids := ids\<rparr>) = acc_inv codec limit base acc"
  "acc_inv codec limit base (acc\<lparr>ac_stream_lifecycle := l\<rparr>) = acc_inv codec limit base acc"
  "acc_inv codec limit base (acc\<lparr>ac_response_id := i, ac_stream_lifecycle := l\<rparr>) = acc_inv codec limit base acc"
  "acc_inv codec limit base (acc\<lparr>ac_status := t, ac_stream_lifecycle := l\<rparr>) = acc_inv codec limit base acc"
  by (simp_all add: acc_inv_def committed_def details_bytes_def)

lemma process_item_event_ok:
  assumes inv: "acc_inv codec limit base acc"
  shows "acc_step_ok codec limit base acc (process_item_event codec uuid frame validated acc)"
proof (cases "frame_identity frame validated")
  case None
  then show ?thesis using inv by (simp add: process_item_event_def acc_step_ok_same)
next
  case (Some identity)
  obtain m b r where run: "slot_event codec uuid identity frame validated (ac_validation acc) (ac_slots acc, ac_budget acc) = ((m, b), r)"
    by (metis prod.exhaust)
  show ?thesis
  proof (cases r)
    case (Inl e)
    then show ?thesis using run Some by (simp add: process_item_event_def acc_step_error)
  next
    case (Inr index)
    let ?acc = "acc\<lparr>ac_slots := m, ac_budget := b\<rparr>"
    from inv have si: "slots_inv codec limit (base + committed codec acc) (ac_slots acc, ac_budget acc)"
      by (simp add: acc_inv_def)
    note run' = run [unfolded Inr]
    have "slots_inv codec limit (base + committed codec acc) (m, b)"
      using slot_events.op_inv [OF si, where p = "(uuid, identity, frame, validated, ac_validation acc)"] run' by simp
    then have inv': "acc_inv codec limit base ?acc" using inv by (simp add: acc_inv_def committed_def details_bytes_def)
    have "done_slots_kept (ac_slots acc) m"
      using slot_events.op_kept [OF si, where p = "(uuid, identity, frame, validated, ac_validation acc)"] run by simp
    then have kept: "keeps_done acc ?acc" by (auto simp: keeps_done_def is_done_def done_slots_kept_def)
    have "acc_inv codec limit base (observe_event n (ef_payload frame) ?acc) \<and> keeps_done acc (observe_event n (ef_payload frame) ?acc)" for n
      using observe_event_cases [of n "ef_payload frame" ?acc] inv' kept by auto
    then show ?thesis using run' Some inv' kept
      by (auto simp: process_item_event_def Let_def acc_step_ok_def split: option.splits)
  qed
qed

lemma charge_response_id_ok:
  assumes inv: "acc_inv codec limit base acc"
  shows "acc_step_ok codec limit base acc (charge_response_id iid acc)"
proof -
  from inv obtain b where b: "ac_budget acc = Some b" "rb_limit b = limit" "rb_limit b \<le> USIZE_MAX" "rb_used b \<le> rb_limit b"
    "base + committed codec acc + accounts (ac_slots acc) \<le> rb_used b"
    by (auto simp: acc_inv_def slots_inv_def covered_def)
  show ?thesis
  proof (cases "rb_used b + (OVERHEAD + length iid) \<le> min (rb_limit b) USIZE_MAX")
    case True
    let ?acc = "acc\<lparr>ac_budget := Some (b\<lparr>rb_used := rb_used b + (OVERHEAD + length iid)\<rparr>)\<rparr>"
    have "acc_inv codec limit base ?acc"
      using inv b True by (auto simp: acc_inv_def slots_inv_def covered_def committed_def details_bytes_def)
    moreover have "keeps_done acc ?acc" by (auto simp: keeps_done_def is_done_def)
    ultimately show ?thesis using b True by (simp add: charge_response_id_def consume_eq acc_step_ok_def)
  next
    case False
    then show ?thesis using b by (simp add: charge_response_id_def consume_eq acc_step_error)
  qed
qed

lemma process_event_checked_ok:
  assumes inv: "acc_inv codec limit base acc"
  shows "acc_step_ok codec limit base acc (process_event_checked codec uuid frame validated acc)"
proof (cases "ef_payload frame")
  case (PlResponse iid status usage tier)
  consider (created) "ef_event_type frame = EvResponseCreated" "iid \<noteq> []"
    | (progress) "ef_event_type frame = EvResponseInProgress"
    | (terminal) "is_terminal_event (ef_event_type frame)"
    | (other) "\<not> (ef_event_type frame = EvResponseCreated \<and> iid \<noteq> [])" "ef_event_type frame \<noteq> EvResponseInProgress"
        "\<not> is_terminal_event (ef_event_type frame)" by blast
  then show ?thesis
  proof cases
    case created
    have "acc_step_ok codec limit base acc (attempt (charge_response_id iid acc) (\<lambda>acc _.
          (acc\<lparr>ac_response_id := iid, ac_stream_lifecycle := StreamCreated\<rparr>, Inr (EdEmit None))))"
      by (rule acc_step_attempt [OF charge_response_id_ok [OF inv]])
        (auto simp: acc_step_ok_def acc_inv_lifecycle keeps_done_def is_done_def)
    then show ?thesis using created PlResponse by (simp add: process_event_checked_def)
  next
    case progress
    then show ?thesis using inv PlResponse
      by (auto simp: process_event_checked_def acc_step_ok_def acc_inv_lifecycle keeps_done_def is_done_def)
  next
    case terminal
    have t: "\<exists>status. finish_response_event codec (ef_event_type frame) usage tier acc = finish_response codec status usage tier acc"
      using terminal by (auto simp: finish_response_event_def terminal_status_def is_terminal_event_def)
    have "acc_step_ok codec limit base acc (attempt (finish_response_event codec (ef_event_type frame) usage tier acc)
        (\<lambda>acc _. (acc, Inr (EdEmit None))))"
      by (rule acc_step_attempt) (use t finish_response_ok [OF inv] in \<open>auto intro: acc_step_ok_same\<close>)
    then show ?thesis using terminal PlResponse by (auto simp: process_event_checked_def is_terminal_event_def)
  next
    case other
    then show ?thesis using process_item_event_ok [OF inv] PlResponse by (auto simp: process_event_checked_def)
  qed
qed (simp_all add: process_event_checked_def process_item_event_ok [OF inv])

text \<open>Strict validation changes nothing but the observed call ids.\<close>

definition only_ids :: "response_accumulator \<Rightarrow> response_accumulator \<Rightarrow> bool" where
  "only_ids acc acc' \<longleftrightarrow> (\<exists>ids. acc' = acc\<lparr>ac_strict_call_ids := ids\<rparr>)"

lemma only_ids_refl [simp]: "only_ids acc acc"
  unfolding only_ids_def by (rule exI [of _ "ac_strict_call_ids acc"]) simp

lemma only_ids_observe: "only_ids (observe_strict_call_id n c acc) acc' \<Longrightarrow> only_ids acc acc'"
  by (auto simp: only_ids_def observe_strict_call_id_def)

lemma validate_terminal_items_ids: "only_ids acc (fst (validate_terminal_items codec n seen items acc))"
proof (induction items arbitrary: n seen acc)
  case (Cons item items)
  have "only_ids acc (fst (validate_terminal_items codec m ids items (observe_strict_call_id k c acc)))" for m ids k c
    using Cons.IH by (rule only_ids_observe)
  then show ?case by (simp add: Let_def split: option.splits sum.splits)
qed simp

lemma attempt_fst: "fst (attempt r k) = (case snd r of Inl e \<Rightarrow> fst r | Inr a \<Rightarrow> fst (k (fst r) a))"
  by (auto simp: attempt_def split: prod.splits sum.splits)

lemma check_stable_fst [simp]: "fst (check_stable enforce acc) = acc"
  by (simp add: check_stable_def)

lemma validate_terminal_output_ids: "only_ids acc (fst (validate_terminal_output codec frame enforce acc))"
  using validate_terminal_items_ids [of acc codec 0 "[]"]
  by (simp add: validate_terminal_output_def attempt_fst split: sum.splits option.splits json.splits)

lemma validate_strict_transition_ids: "only_ids acc (fst (validate_strict_transition codec frame acc))"
  using validate_terminal_output_ids [of acc codec frame]
  by (simp add: validate_strict_transition_def Let_def split: option.splits)

lemma validate_strict_transition_ok:
  assumes inv: "acc_inv codec limit base acc"
  shows "acc_step_ok codec limit base acc (validate_strict_transition codec frame acc)"
proof -
  obtain ids where "fst (validate_strict_transition codec frame acc) = acc\<lparr>ac_strict_call_ids := ids\<rparr>"
    using validate_strict_transition_ids [of acc codec frame] by (auto simp: only_ids_def)
  then show ?thesis using inv by (auto simp: acc_step_ok_def acc_inv_lifecycle keeps_done_def is_done_def)
qed

lemma process_normalized_event_ok:
  assumes inv: "acc_inv codec limit base acc"
  shows "acc_step_ok codec limit base acc (process_normalized_event codec uuid frame acc)"
  unfolding process_normalized_event_def
proof (rule acc_step_attempt)
  show "acc_step_ok codec limit base acc
      (case ac_validation acc of
          Lenient \<Rightarrow> (acc, Inr None)
        | Strict \<Rightarrow>
            (case validate_frame (ic_events codec) frame of
               Inl e \<Rightarrow> (acc, Inl (InvalidRequest e))
             | Inr validated \<Rightarrow>
                 attempt (validate_strict_transition codec frame acc) (\<lambda>acc _. (acc, Inr validated))))"
    using inv validate_strict_transition_ok [OF inv]
    by (auto intro: acc_step_ok_same acc_step_error acc_step_attempt split: validation.splits sum.splits)
  fix acc1 validated
  assume inv1: "acc_inv codec limit base acc1"
  show "acc_step_ok codec limit base acc1
      (attempt (capture_terminal_details frame acc1) (\<lambda>acc _. process_event_checked codec uuid frame validated acc))"
    by (rule acc_step_attempt [OF capture_terminal_details_ok [OF inv1]]) (rule process_event_checked_ok)
qed

lemma process_line_ok:
  assumes inv: "acc_inv codec limit base acc"
  shows "acc_step_ok codec limit base acc (process_line codec uuid line acc)"
proof (cases line)
  case (SlData data)
  have "acc_step_ok codec limit base acc (attempt (process_normalized_event codec uuid frame acc) (\<lambda>acc disposition.
      (acc, Inr (map_option (with_slot_id acc) (into_frame disposition frame)))))" for frame
    by (rule acc_step_attempt [OF process_normalized_event_ok [OF inv]]) (rule acc_step_ok_same)
  then show ?thesis using inv SlData unfolding process_line_def
    by (simp add: acc_step_ok_same acc_step_error split: sum.splits option.splits normalize_error.splits)
qed (use inv in \<open>simp_all add: process_line_def acc_step_ok_same\<close>)

lemma process_lines_ok:
  assumes "acc_inv codec limit base acc"
  shows "acc_step_ok codec limit base acc (process_lines codec lines acc)"
  using assms
proof (induction lines arbitrary: acc)
  case (Cons l lines)
  obtain uuid line where l: "l = (uuid, line)" by fastforce
  have "acc_step_ok codec limit base acc (attempt (process_line codec uuid line acc) (\<lambda>acc _. process_lines codec lines acc))"
    by (rule acc_step_attempt [OF process_line_ok [OF Cons.prems]]) (rule Cons.IH)
  then show ?case by (simp add: l)
qed (simp add: acc_step_ok_same)

lemma finish_stream_ok:
  assumes inv: "acc_inv codec limit base acc"
  shows "acc_step_ok codec limit base acc (finish_stream codec acc)"
  unfolding finish_stream_def
  by (rule acc_step_attempt [OF finalize_all_ok [OF inv]])
    (simp add: acc_step_ok_def acc_inv_lifecycle keeps_done_def is_done_def)

lemma new_accumulator_inv:
  assumes "rb_used b \<le> rb_limit b" "rb_limit b \<le> USIZE_MAX"
  shows "acc_inv codec (rb_limit b) (rb_used b) (with_validation_and_budget rid conv v (Some b))"
  using assms
  by (simp add: acc_inv_def slots_inv_def slots_wf_empty covered_def with_validation_and_budget_def committed_def
      output_bytes_def sum_retained_def new_account_def accounts_def no_slots_def slots_paid_def get_slot_def
      tier_bytes_def details_bytes_def opt_bytes_def slots_wf_def)

text \<open>What is held is covered by what was charged.\<close>

lemma sum_slot_cost:
  assumes "slots_wf m" "slots_paid codec m"
  shows "sum_list (map (slot_cost codec \<circ> snd) (sm_slots m)) \<le> accounts m"
  unfolding accounts_def
proof (rule sum_list_mono)
  fix e assume "e \<in> set (sm_slots m)"
  moreover obtain n s where "e = (n, s)" by fastforce
  ultimately have "get_slot m n = Some s" using assms(1) by (simp add: slots_wf_def get_slot_def)
  then show "(slot_cost codec \<circ> snd) e \<le> (accounted \<circ> sl_account \<circ> snd) e"
    using assms(2) \<open>e = (n, s)\<close> by (simp add: slots_paid_def)
qed

lemma acc_inv_held:
  assumes "acc_inv codec limit base acc"
  shows "\<exists>b. ac_budget acc = Some b \<and> rb_limit b = limit \<and> base + held_bytes codec acc \<le> rb_used b \<and> rb_used b \<le> limit"
proof -
  from assms obtain b where b: "ac_budget acc = Some b" "rb_limit b = limit" "rb_used b \<le> rb_limit b"
    "base + committed codec acc + accounts (ac_slots acc) \<le> rb_used b" and wf: "slots_wf (ac_slots acc)"
    and sp: "slots_paid codec (ac_slots acc)"
    and t: "tier_bytes (ac_service_tier acc) \<le> accounted (ac_service_tier_account acc)"
      "details_bytes acc \<le> accounted (ac_terminal_details_account acc)"
    by (auto simp: acc_inv_def slots_inv_def covered_def)
  then show ?thesis using sum_slot_cost [OF wf sp] by (auto simp: held_bytes_def committed_def)
qed

end
