(* ===== verification/Assembled_Response.thy ===== *)
theory Assembled_Response
  imports Accumulator_Safety
begin

text \<open>
  The properties of an assembled response: the order of a strict stream, its terminal output, its call ids, the
  evidence behind a steering cut, and complete JSON bodies. A stream is the list of frames its lines
  normalize to; the lemmas follow one frame through strict validation, and the properties are stated over
  whole streams.
\<close>

section \<open>One frame of a strict stream\<close>

definition normalized :: "item_codec \<Rightarrow> event_frame \<Rightarrow> bool" where
  "normalized codec frame \<longleftrightarrow> (\<exists>v. normalize_sse_value (ic_events codec) v = Inr (Some frame))"

lemma normalized_response:
  assumes "normalized codec frame"
  shows "response_payload_id (ef_payload frame) \<noteq> None \<longleftrightarrow> is_response_event (ef_event_type frame)"
proof -
  from assms obtain t v' w where
    "frame = \<lparr>ef_event_type = t, ef_payload = extract_payload (ic_events codec) t v', ef_wire = w\<rparr>"
    unfolding normalized_def by (elim exE normalize_cases) auto
  then show ?thesis
    by (cases t) (auto simp: extract_payload_def extract_response_payload_def extract_output_item_added_def
      extract_output_item_done_def extract_content_part_done_def extract_shell_command_def Let_def response_payload_id_def
      is_response_event_def split: option.splits)
qed

lemma validated_response_id:
  assumes "normalized codec frame" "validate_frame (ic_events codec) frame = Inr x" "is_response_event (ef_event_type frame)"
  shows "x = None \<and> (\<exists>iid. response_payload_id (ef_payload frame) = Some iid \<and> iid \<noteq> [])"
proof -
  from assms(1) obtain t v' w where w: "wire_of_json v' = Some w" and
    f: "frame = \<lparr>ef_event_type = t, ef_payload = extract_payload (ic_events codec) t v', ef_wire = w\<rparr>"
    unfolding normalized_def by (elim exE normalize_cases) auto
  from assms(2,3) f obtain name m where "x = None" and m: "map_of (we_rest w) ''response'' = Some (JObject m)"
    and iid: "nonempty_str (JObject m) ''id'' \<noteq> None"
    by (auto simp: validate_frame_def validate_response_event_def required_simps is_response_event_def and_then_def
        split: sum.splits option.splits if_splits)
  have "json_at v' ''response'' = JObject m"
    using m wire_rest_get [OF w, of "''response''"] by (simp add: json_at_def wire_keys_def)
  then have "response_payload_id (ef_payload frame) = Some (json_str (JObject m) ''id'')"
    using f assms(3) by (auto simp: is_response_event_def extract_payload_def extract_response_payload_def Let_def response_payload_id_def)
  with iid \<open>x = None\<close> show ?thesis by (auto dest: nonempty_str_json_str)
qed

definition core :: "response_accumulator \<Rightarrow> validation \<times> string \<times> stream_lifecycle \<times> output_item list" where
  "core acc = (ac_validation acc, ac_response_id acc, ac_stream_lifecycle acc, ac_output acc)"

lemma only_ids_core: "only_ids acc acc' \<Longrightarrow> core acc' = core acc \<and> ac_slots acc' = ac_slots acc \<and> ac_budget acc' = ac_budget acc"
  by (auto simp: only_ids_def core_def)

lemma capture_core:
  "capture_terminal_details frame acc = (acc', r) \<Longrightarrow> core acc' = core acc \<and> ac_slots acc' = ac_slots acc
    \<and> ac_strict_call_ids acc' = ac_strict_call_ids acc"
  by (auto simp: capture_terminal_details_def core_def Let_def split: if_splits option.splits prod.splits sum.splits)

lemma observe_event_keeps:
  "core (observe_event n payload acc) = core acc \<and> ac_slots (observe_event n payload acc) = ac_slots acc"
  using observe_event_cases [of n payload acc] by (auto simp: core_def)

lemma process_item_event_core: "process_item_event codec uuid frame validated acc = (acc', r) \<Longrightarrow> core acc' = core acc"
  using observe_event_keeps [unfolded core_def]
  by (auto simp: process_item_event_def core_def Let_def split: option.splits prod.splits sum.splits if_splits)

lemma strict_step_cases:
  assumes "process_normalized_event codec uuid frame acc = (acc', Inr d)" "ac_validation acc = Strict"
  obtains validated acc1 acc2 where "validate_frame (ic_events codec) frame = Inr validated"
    "validate_strict_transition codec frame acc = (acc1, Inr ())" "only_ids acc acc1"
    "capture_terminal_details frame acc1 = (acc2, Inr ())"
    "process_event_checked codec uuid frame validated acc2 = (acc', Inr d)"
proof -
  from assms obtain validated acc1 acc2 where 1: "validate_frame (ic_events codec) frame = Inr validated"
    "validate_strict_transition codec frame acc = (acc1, Inr ())"
    "capture_terminal_details frame acc1 = (acc2, Inr ())"
    "process_event_checked codec uuid frame validated acc2 = (acc', Inr d)"
    by (auto simp: process_normalized_event_def attempt_def split: prod.splits sum.splits)
  moreover have "only_ids acc acc1" using validate_strict_transition_ids [of acc codec frame] 1(2) by simp
  ultimately show ?thesis using that by blast
qed

lemma finish_response_core:
  assumes "finish_response codec status usage tier acc = (acc', Inr u)"
  shows "ac_validation acc' = ac_validation acc \<and> ac_response_id acc' = ac_response_id acc \<and>
    ac_stream_lifecycle acc' = StreamTerminal \<and> ac_status acc' = status \<and>
    ac_output acc' = ac_output acc @ drained_items (ac_slots acc)"
proof -
  from assms obtain m b items where d: "drain_output codec (ac_slots acc, ac_budget acc) = ((m, b), Inr items)"
    and r: "ac_validation acc' = ac_validation acc" "ac_response_id acc' = ac_response_id acc"
      "ac_stream_lifecycle acc' = StreamTerminal" "ac_status acc' = status" "ac_output acc' = ac_output acc @ items"
    by (auto simp: finish_response_def finalize_all_def attempt_def split: prod.splits sum.splits)
  from d have "items = drained_items (ac_slots acc)"
    by (auto simp: drain_output_def drained_items_def split: if_splits prod.splits dest: drain_slots_items)
  with r show ?thesis by simp
qed

text \<open>What each kind of event does to the order of a strict stream.\<close>

lemma strict_step:
  assumes n: "normalized codec frame" and run: "process_normalized_event codec uuid frame acc = (acc', Inr d)"
    and strict: "ac_validation acc = Strict"
  shows "ac_validation acc' = Strict \<and>
    (if ef_event_type frame = EvResponseCreated then
       ac_stream_lifecycle acc = AwaitingCreated \<and> ac_stream_lifecycle acc' = StreamCreated \<and>
       response_payload_id (ef_payload frame) = Some (ac_response_id acc') \<and> ac_output acc' = ac_output acc
     else ac_response_id acc' = ac_response_id acc \<and>
       (if ef_event_type frame = EvResponseInProgress then
          ac_stream_lifecycle acc = StreamCreated \<and> ac_stream_lifecycle acc' = StreamInProgress \<and>
          response_payload_id (ef_payload frame) = Some (ac_response_id acc) \<and> ac_output acc' = ac_output acc
        else ac_stream_lifecycle acc = StreamInProgress \<and>
          (if is_terminal_event (ef_event_type frame) then
             ac_stream_lifecycle acc' = StreamTerminal \<and> \<not> has_active (ac_slots acc) \<and>
             response_payload_id (ef_payload frame) = Some (ac_response_id acc) \<and>
             ac_output acc' = ac_output acc @ drained_items (ac_slots acc)
           else ac_stream_lifecycle acc' = StreamInProgress \<and> ac_output acc' = ac_output acc)))"
proof -
  from run strict obtain validated acc1 acc2 where v: "validate_frame (ic_events codec) frame = Inr validated"
    and t: "validate_strict_transition codec frame acc = (acc1, Inr ())" and ids: "only_ids acc acc1"
    and c: "capture_terminal_details frame acc1 = (acc2, Inr ())"
    and p: "process_event_checked codec uuid frame validated acc2 = (acc', Inr d)"
    by (rule strict_step_cases)
  have core2: "core acc2 = core acc" "ac_slots acc2 = ac_slots acc"
    using only_ids_core [OF ids] capture_core [OF c] by simp_all
  note fields = core2 [unfolded core_def prod.inject]
  show ?thesis
  proof (cases "is_response_event (ef_event_type frame)")
    case True
    from validated_response_id [OF n v this] obtain iid status usage tier
      where payload: "ef_payload frame = PlResponse iid status usage tier" and "iid \<noteq> []"
      by (auto simp: response_payload_id_def split: event_payload.splits)
    consider (created) "ef_event_type frame = EvResponseCreated" | (progress) "ef_event_type frame = EvResponseInProgress"
      | (terminal) "is_terminal_event (ef_event_type frame)"
      using True by (auto simp: is_response_event_def is_terminal_event_def)
    then show ?thesis
    proof cases
      case created
      from t created payload have "ac_stream_lifecycle acc = AwaitingCreated"
        by (auto simp: validate_strict_transition_def Let_def response_payload_id_def split: if_splits)
      moreover from p created payload \<open>iid \<noteq> []\<close> have "ac_stream_lifecycle acc' = StreamCreated"
        "ac_response_id acc' = iid" "ac_output acc' = ac_output acc2" "ac_validation acc' = ac_validation acc2"
        by (auto simp: process_event_checked_def charge_response_id_def attempt_def split: option.splits prod.splits sum.splits)
      ultimately show ?thesis using created payload fields strict by (simp add: response_payload_id_def)
    next
      case progress
      from t progress payload have "ac_stream_lifecycle acc = StreamCreated" "iid = ac_response_id acc"
        by (auto simp: validate_strict_transition_def Let_def response_payload_id_def split: if_splits)
      moreover from p progress payload have "acc' = acc2\<lparr>ac_stream_lifecycle := StreamInProgress\<rparr>"
        by (auto simp: process_event_checked_def split: if_splits)
      ultimately show ?thesis using progress payload fields strict by (simp add: response_payload_id_def)
    next
      case terminal
      then have ev: "ef_event_type frame \<noteq> EvResponseCreated" "ef_event_type frame \<noteq> EvResponseInProgress"
        by (auto simp: is_terminal_event_def)
      from t terminal ev payload have "ac_stream_lifecycle acc = StreamInProgress" "iid = ac_response_id acc" "\<not> has_active (ac_slots acc)"
        by (auto simp: validate_strict_transition_def Let_def response_payload_id_def is_terminal_event_def split: if_splits)
      moreover obtain st where "finish_response codec st usage tier acc2 = (acc', Inr ())"
        using p terminal ev payload
        by (auto simp: process_event_checked_def finish_response_event_def terminal_status_def is_terminal_event_def
            attempt_def split: prod.splits sum.splits if_splits)
      then have "ac_stream_lifecycle acc' = StreamTerminal" "ac_output acc' = ac_output acc2 @ drained_items (ac_slots acc2)"
        "ac_validation acc' = ac_validation acc2" "ac_response_id acc' = ac_response_id acc2"
        using finish_response_core by blast+
      ultimately show ?thesis using terminal ev payload fields core2(2) strict by (simp add: response_payload_id_def)
    qed
  next
    case False
    then have none: "response_payload_id (ef_payload frame) = None" using normalized_response [OF n] by blast
    from t none False have "ac_stream_lifecycle acc = StreamInProgress"
      by (auto simp: validate_strict_transition_def Let_def split: if_splits)
    moreover from p none have "process_item_event codec uuid frame validated acc2 = (acc', Inr d)"
      by (auto simp: process_event_checked_def response_payload_id_def split: event_payload.splits)
    then have "core acc' = core acc2" by (rule process_item_event_core)
    ultimately show ?thesis using False fields strict
      by (auto simp: core_def is_response_event_def is_terminal_event_def)
  qed
qed

end
