(* ===== verification/Stream_Contract.thy ===== *)
theory Stream_Contract
  imports Assembled_Response
begin

text \<open>
  The contract of the response accumulator over whole streams: what is held has been paid for, completed items
  are final, a strict stream has one order and one output, a steering cut closes only what upstream completed,
  deltas are reassembled without loss, and a strict JSON body is taken over completely.
\<close>

section \<open>A stream of frames\<close>

definition frame_of_line :: "item_codec \<Rightarrow> classified_sse_line \<Rightarrow> event_frame option" where
  "frame_of_line codec line =
     (case line of
        SlData data \<Rightarrow> (case normalize_sse_data_checked (ic_events codec) data of Inr frame \<Rightarrow> frame | Inl _ \<Rightarrow> None)
      | _ \<Rightarrow> None)"

definition stream_frames :: "item_codec \<Rightarrow> (uuids \<times> classified_sse_line) list \<Rightarrow> event_frame list" where
  "stream_frames codec lines = List.map_filter (\<lambda>(_, line). frame_of_line codec line) lines"

lemma stream_frames_simps [simp]:
  "stream_frames codec [] = []"
  "stream_frames codec ((uuid, line) # lines) =
     (case frame_of_line codec line of Some f \<Rightarrow> f # stream_frames codec lines | None \<Rightarrow> stream_frames codec lines)"
  by (simp_all add: stream_frames_def List.map_filter_def split: option.splits)

lemma stream_frames_append: "stream_frames codec (xs @ ys) = stream_frames codec xs @ stream_frames codec ys"
  by (induction xs) (auto split: option.splits)

lemma frame_of_line_normalized: "frame_of_line codec line = Some frame \<Longrightarrow> normalized codec frame"
  by (auto simp: frame_of_line_def normalized_def normalize_sse_data_checked_def split: classified_sse_line.splits sum.splits option.splits)

lemma process_line_cases:
  assumes "process_line codec uuid line acc = (acc', Inr r)"
  obtains (skip) "frame_of_line codec line = None" "acc' = acc"
  | (frame) frame d where "frame_of_line codec line = Some frame"
      "process_normalized_event codec uuid frame acc = (acc', Inr d)"
  using assms
  by (auto simp: process_line_def frame_of_line_def attempt_def split: classified_sse_line.splits sum.splits option.splits
      prod.splits if_splits normalize_error.splits)

lemma process_lines_append:
  "process_lines codec (xs @ ys) acc = attempt (process_lines codec xs acc) (\<lambda>acc _. process_lines codec ys acc)"
  by (induction xs arbitrary: acc) (auto simp: attempt_def split: prod.splits sum.splits)

text \<open>An invariant of the accumulator against the frames it has taken, kept by every accepted frame.\<close>

lemma process_lines_induct [consumes 2, case_names step]:
  assumes run: "process_lines codec lines acc = (acc', Inr ())" and start: "P acc frames"
    and step: "\<And>acc frames uuid frame acc' d. P acc frames \<Longrightarrow> normalized codec frame \<Longrightarrow>
      process_normalized_event codec uuid frame acc = (acc', Inr d) \<Longrightarrow> P acc' (frames @ [frame])"
  shows "P acc' (frames @ stream_frames codec lines)"
  using run start
proof (induction lines arbitrary: acc frames)
  case (Cons l lines)
  obtain uuid line where l: "l = (uuid, line)" by fastforce
  with Cons.prems obtain acc1 r where first: "process_line codec uuid line acc = (acc1, Inr r)"
    and rest: "process_lines codec lines acc1 = (acc', Inr ())"
    by (auto simp: attempt_def split: prod.splits sum.splits)
  from first show ?case
  proof (cases rule: process_line_cases)
    case skip
    then show ?thesis using Cons.IH [OF _ Cons.prems(2)] rest l by simp
  next
    case (frame f d)
    have "P acc1 (frames @ [f])" using step [OF Cons.prems(2)] frame frame_of_line_normalized by blast
    from Cons.IH [OF rest this] show ?thesis using l frame by simp
  qed
qed simp

section \<open>Order\<close>

text \<open>What the lifecycle of a strict stream says of the frames taken so far.\<close>

definition names :: "string \<Rightarrow> sse_event_type \<Rightarrow> event_frame \<Rightarrow> bool" where
  "names rid t frame \<longleftrightarrow> ef_event_type frame = t \<and> response_payload_id (ef_payload frame) = Some rid"

definition item_frames :: "event_frame list \<Rightarrow> bool" where
  "item_frames frames \<longleftrightarrow> (\<forall>f \<in> set frames. \<not> is_response_event (ef_event_type f))"

fun in_order :: "stream_lifecycle \<Rightarrow> string \<Rightarrow> event_frame list \<Rightarrow> bool" where
  "in_order AwaitingCreated rid frames \<longleftrightarrow> frames = []"
| "in_order StreamCreated rid frames \<longleftrightarrow> (\<exists>c. frames = [c] \<and> names rid EvResponseCreated c)"
| "in_order StreamInProgress rid frames \<longleftrightarrow>
     (\<exists>c p items. frames = c # p # items \<and> names rid EvResponseCreated c \<and> names rid EvResponseInProgress p \<and> item_frames items)"
| "in_order StreamTerminal rid frames \<longleftrightarrow>
     (\<exists>c p items t. frames = c # p # items @ [t] \<and> names rid EvResponseCreated c \<and> names rid EvResponseInProgress p \<and>
        item_frames items \<and> is_terminal_event (ef_event_type t) \<and> names rid (ef_event_type t) t)"

definition strict_so_far :: "response_accumulator \<Rightarrow> event_frame list \<Rightarrow> bool" where
  "strict_so_far acc frames \<longleftrightarrow>
     ac_validation acc = Strict \<and> in_order (ac_stream_lifecycle acc) (ac_response_id acc) frames \<and>
     (ac_stream_lifecycle acc \<noteq> StreamTerminal \<longrightarrow> ac_output acc = [])"

lemma terminal_is_response: "is_terminal_event t \<Longrightarrow> is_response_event t"
  by (auto simp: is_terminal_event_def is_response_event_def)

lemma response_event_cases:
  "is_response_event t \<Longrightarrow> t = EvResponseCreated \<or> t = EvResponseInProgress \<or> is_terminal_event t"
  by (auto simp: is_terminal_event_def is_response_event_def)

lemma strict_so_far_step:
  assumes inv: "strict_so_far acc frames" and n: "normalized codec frame"
    and run: "process_normalized_event codec uuid frame acc = (acc', Inr d)"
  shows "strict_so_far acc' (frames @ [frame])"
proof -
  from inv have strict: "ac_validation acc = Strict" and ord: "in_order (ac_stream_lifecycle acc) (ac_response_id acc) frames"
    and out: "ac_stream_lifecycle acc \<noteq> StreamTerminal \<longrightarrow> ac_output acc = []" by (simp_all add: strict_so_far_def)
  note step = strict_step [OF n run strict]
  consider (created) "ef_event_type frame = EvResponseCreated" | (progress) "ef_event_type frame = EvResponseInProgress"
    | (terminal) "is_terminal_event (ef_event_type frame)" "ef_event_type frame \<noteq> EvResponseCreated" "ef_event_type frame \<noteq> EvResponseInProgress"
    | (item) "\<not> is_response_event (ef_event_type frame)" "ef_event_type frame \<noteq> EvResponseCreated" "ef_event_type frame \<noteq> EvResponseInProgress"
        "\<not> is_terminal_event (ef_event_type frame)"
    using response_event_cases terminal_is_response by blast
  then show ?thesis
  proof cases
    case created
    then show ?thesis using step ord out by (auto simp: strict_so_far_def names_def)
  next
    case progress
    then show ?thesis using step ord out by (auto simp: strict_so_far_def names_def item_frames_def)
  next
    case terminal
    then show ?thesis using step ord by (auto simp: strict_so_far_def names_def)
  next
    case item
    then show ?thesis using step ord out by (auto simp: strict_so_far_def item_frames_def)
  qed
qed

lemma strict_run:
  assumes "process_lines codec lines (with_validation_and_budget rid conv Strict b) = (acc, Inr ())"
  shows "strict_so_far acc (stream_frames codec lines)"
proof -
  have "strict_so_far (with_validation_and_budget rid conv Strict b) []"
    by (simp add: strict_so_far_def with_validation_and_budget_def)
  from process_lines_induct [where P = strict_so_far, OF assms this strict_so_far_step] show ?thesis by simp
qed

section \<open>The terminal output\<close>

text \<open>An entry of the terminal event's \<open>output\<close> and the item the accumulator completed at its position.\<close>

definition names_output :: "json \<Rightarrow> output_item \<Rightarrow> bool" where
  "names_output v item \<longleftrightarrow>
     (\<exists>entries iid t. v = JObject entries \<and> output_item_identity entries ''terminal output item'' = Inr (iid, t) \<and>
        type_of_item item = Some t)"

definition done_at :: "slot_map \<Rightarrow> nat \<Rightarrow> output_item option" where
  "done_at m n = Option.bind (get_slot m n) (\<lambda>s. state_done_item (sl_state s))"

lemma as_object_eq_Some: "as_object v = Some entries \<longleftrightarrow> v = JObject entries"
  by (cases v) simp_all

lemma terminal_items_match:
  assumes "validate_terminal_items codec n seen items acc = (acc', Inr ())"
  shows "list_all2 (\<lambda>v k. \<exists>item. done_at (ac_slots acc) k = Some item \<and> names_output v item) items [n..<n + length items] \<and>
    distinct (map output_item_id items) \<and> set (map output_item_id items) \<inter> set seen = {}"
  using assms
proof (induction items arbitrary: n seen acc)
  case (Cons v items)
  from Cons.prems obtain entries iid t item acc1 where v: "v = JObject entries"
    and i: "output_item_identity entries ''terminal output item'' = Inr (iid, t)" and new: "iid \<notin> set seen"
    and d: "done_at (ac_slots acc) n = Some item" and ty: "type_of_item item = Some t"
    and rest: "validate_terminal_items codec (Suc n) (iid # seen) items acc1 = (acc', Inr ())" "ac_slots acc1 = ac_slots acc"
    by (auto simp: done_at_def Let_def as_object_eq_Some split: if_splits option.splits sum.splits prod.splits)
  have "output_item_id v = iid"
    using i by (auto simp: v output_item_identity_def output_item_id_def split: option.splits sum.splits if_splits)
  moreover have "[n..<n + length (v # items)] = n # [Suc n..<Suc n + length items]"
    by (simp add: upt_rec [of n] Suc_le_eq)
  ultimately show ?case using Cons.IH [OF rest(1)] rest(2) v i new d ty by (auto simp: names_output_def)
qed simp

text \<open>Slots that fill the positions from 0 on are drained in that order.\<close>

lemma drained_in_order:
  assumes wf: "slots_wf m" and n: "length (sm_slots m) = n" and full: "\<And>k. k < n \<Longrightarrow> \<exists>item. done_at m k = Some item"
  shows "map Some (drained_items m) = map (done_at m) [0..<n]"
proof -
  define xs where "xs = sort_key fst (sm_slots m)"
  from wf have d: "distinct (map fst (sm_slots m))" by (simp add: slots_wf_def)
  have keys: "{0..<n} \<subseteq> fst ` set (sm_slots m)"
  proof
    fix k assume "k \<in> {0..<n}"
    with full obtain item where "done_at m k = Some item" by auto
    then show "k \<in> fst ` set (sm_slots m)" by (force simp: done_at_def get_slot_def bind_eq_Some_conv dest: map_of_SomeD)
  qed
  have "card (fst ` set (sm_slots m)) = n" using d n by (simp add: distinct_card flip: set_map)
  with keys have all: "fst ` set (sm_slots m) = {0..<n}" by (metis card_atLeastLessThan card_subset_eq diff_zero finite_imageI finite_set)
  have "sorted (map fst xs)" "distinct (map fst xs)" "set (map fst xs) = {0..<n}"
    using d all by (simp_all add: xs_def distinct_map distinct_sort)
  then have fsts: "map fst xs = [0..<n]" by (intro sorted_distinct_set_unique) simp_all
  have "state_finalize (sl_state s) = done_at m k \<and> done_at m k \<noteq> None" if "(k, s) \<in> set xs" for k s
  proof -
    from that d have "get_slot m k = Some s" by (simp add: xs_def get_slot_def)
    moreover from that all have "k < n" by (force simp: xs_def)
    ultimately show ?thesis using full [of k] by (cases "sl_state s") (auto simp: done_at_def)
  qed
  then have "map Some (List.map_filter (\<lambda>(_, s). state_finalize (sl_state s)) ys) = map (done_at m) (map fst ys)"
    if "set ys \<subseteq> set xs" for ys
    using that by (induction ys) (auto simp: List.map_filter_def)
  from this [of xs] fsts show ?thesis by (simp add: drained_items_def xs_def del: map_map)
qed

text \<open>What a terminal frame of a strict stream leaves behind.\<close>

definition declared_output :: "event_frame \<Rightarrow> json list option" where
  "declared_output frame =
     (case Option.bind (Option.bind (map_of (we_rest (ef_wire frame)) ''response'') as_object) (\<lambda>r. map_of r ''output'') of
        Some (JArray items) \<Rightarrow> Some items
      | _ \<Rightarrow> None)"

definition output_declared :: "event_frame \<Rightarrow> output_item list \<Rightarrow> bool" where
  "output_declared frame output \<longleftrightarrow>
     (case declared_output frame of
        Some items \<Rightarrow> list_all2 names_output items output \<and> distinct (map output_item_id items)
      | None \<Rightarrow> True)"

lemma validated_terminal_output:
  assumes "validate_terminal_output codec frame enforce acc = (acc', Inr ())" and wf: "slots_wf (ac_slots acc)"
  shows "output_declared frame (drained_items (ac_slots acc))"
proof (cases "declared_output frame")
  case (Some items)
  let ?n = "length items"
  from Some obtain r where r: "Option.bind (map_of (we_rest (ef_wire frame)) ''response'') as_object = Some r"
    "map_of r ''output'' = Some (JArray items)"
    by (auto simp: declared_output_def bind_eq_Some_conv split: option.splits json.splits)
  from assms(1) r obtain acc1 where len: "?n = length (sm_slots (ac_slots acc))"
    and v: "validate_terminal_items codec 0 [] items acc = (acc1, Inr ())"
    by (auto simp: validate_terminal_output_def attempt_def check_stable_def split: if_splits prod.splits sum.splits)
  from terminal_items_match [OF v] have m: "list_all2 (\<lambda>v k. \<exists>item. done_at (ac_slots acc) k = Some item \<and> names_output v item) items [0..<?n]"
    and d: "distinct (map output_item_id items)" by simp_all
  from m have at: "\<exists>item. done_at (ac_slots acc) k = Some item \<and> names_output (items ! k) item" if "k < ?n" for k
    using that by (auto simp: list_all2_conv_all_nth)
  have drained: "map Some (drained_items (ac_slots acc)) = map (done_at (ac_slots acc)) [0..<?n]"
    by (rule drained_in_order [OF wf len [symmetric]]) (use at in blast)
  have "length (drained_items (ac_slots acc)) = ?n" using arg_cong [OF drained, of length] by simp
  moreover have "done_at (ac_slots acc) k = Some (drained_items (ac_slots acc) ! k)" if "k < ?n" for k
    using arg_cong [OF drained, of "\<lambda>xs. xs ! k"] that calculation by simp
  ultimately have "list_all2 names_output items (drained_items (ac_slots acc))"
    using at by (fastforce simp: list_all2_conv_all_nth)
  then show ?thesis using Some d by (simp add: output_declared_def)
qed (simp add: output_declared_def)

lemma finish_response_settled:
  assumes "finish_response codec status usage tier acc = (acc', Inr u)"
  shows "sm_slots (ac_slots acc') = [] \<and> ac_status acc' = status \<and> ac_usage acc' = usage \<and> ac_service_tier acc' = tier"
  using assms by (auto simp: finish_response_def finalize_all_def drain_output_def attempt_def split: prod.splits sum.splits if_splits)

definition settled :: "response_accumulator \<Rightarrow> event_frame list \<Rightarrow> bool" where
  "settled acc frames \<longleftrightarrow>
     (ac_stream_lifecycle acc = StreamTerminal \<longrightarrow>
        sm_slots (ac_slots acc) = [] \<and> terminal_status (ef_event_type (last frames)) = Some (ac_status acc) \<and>
        output_declared (last frames) (ac_output acc))"

lemma terminal_frame_settled:
  assumes n: "normalized codec frame" and run: "process_normalized_event codec uuid frame acc = (acc', Inr d)"
    and strict: "ac_validation acc = Strict" and terminal: "is_terminal_event (ef_event_type frame)"
    and wf: "slots_wf (ac_slots acc)" and none: "ac_output acc = []"
  shows "sm_slots (ac_slots acc') = [] \<and> terminal_status (ef_event_type frame) = Some (ac_status acc') \<and>
    output_declared frame (ac_output acc')"
proof -
  from run strict obtain validated acc1 acc2 where v: "validate_frame (ic_events codec) frame = Inr validated"
    and t: "validate_strict_transition codec frame acc = (acc1, Inr ())" and ids: "only_ids acc acc1"
    and c: "capture_terminal_details frame acc1 = (acc2, Inr ())"
    and p: "process_event_checked codec uuid frame validated acc2 = (acc', Inr d)"
    by (rule strict_step_cases)
  have slots: "ac_slots acc2 = ac_slots acc" "ac_output acc2 = ac_output acc"
    using only_ids_core [OF ids] capture_core [OF c] by (simp_all add: core_def)
  from validated_response_id [OF n v terminal_is_response [OF terminal]] obtain iid st usage tier
    where payload: "ef_payload frame = PlResponse iid st usage tier"
    by (auto simp: response_payload_id_def split: event_payload.splits)
  from terminal have ev: "ef_event_type frame \<noteq> EvResponseCreated" "ef_event_type frame \<noteq> EvResponseInProgress"
    by (auto simp: is_terminal_event_def)
  obtain status where status: "terminal_status (ef_event_type frame) = Some status"
    using terminal by (auto simp: terminal_status_def is_terminal_event_def)
  have fin: "finish_response codec status usage tier acc2 = (acc', Inr ())"
    using p terminal ev payload status
    by (auto simp: process_event_checked_def finish_response_event_def attempt_def split: prod.splits sum.splits if_splits)
  have "validate_terminal_output codec frame (ef_event_type frame \<noteq> EvResponseFailed) acc = (acc1, Inr ())"
    using t payload ev terminal by (auto simp: validate_strict_transition_def Let_def response_payload_id_def is_terminal_event_def split: if_splits)
  from validated_terminal_output [OF this wf] show ?thesis
    using finish_response_settled [OF fin] finish_response_core [OF fin] slots none status by simp
qed

definition strict_inv :: "item_codec \<Rightarrow> nat \<Rightarrow> nat \<Rightarrow> response_accumulator \<Rightarrow> event_frame list \<Rightarrow> bool" where
  "strict_inv codec limit base acc frames \<longleftrightarrow>
     acc_inv codec limit base acc \<and> strict_so_far acc frames \<and> settled acc frames"

lemma strict_inv_step:
  assumes inv: "strict_inv codec limit base acc frames" and n: "normalized codec frame"
    and run: "process_normalized_event codec uuid frame acc = (acc', Inr d)"
  shows "strict_inv codec limit base acc' (frames @ [frame])"
proof -
  from inv have ai: "acc_inv codec limit base acc" and so_far: "strict_so_far acc frames" by (simp_all add: strict_inv_def)
  from so_far have strict: "ac_validation acc = Strict"
    and out: "ac_stream_lifecycle acc \<noteq> StreamTerminal \<longrightarrow> ac_output acc = []" by (simp_all add: strict_so_far_def)
  have "acc_inv codec limit base acc'" using process_normalized_event_ok [OF ai, of uuid frame] run by (simp add: acc_step_ok_def)
  moreover have "strict_so_far acc' (frames @ [frame])" by (rule strict_so_far_step [OF so_far n run])
  moreover have "settled acc' (frames @ [frame])"
  proof (cases "is_terminal_event (ef_event_type frame)")
    case True
    then have ev: "ef_event_type frame \<noteq> EvResponseCreated" "ef_event_type frame \<noteq> EvResponseInProgress"
      by (auto simp: is_terminal_event_def)
    have "ac_output acc = []" using strict_step [OF n run strict] True ev out by simp
    from terminal_frame_settled [OF n run strict True _ this] ai show ?thesis
      by (simp add: settled_def acc_inv_def slots_inv_def)
  next
    case False
    then have "ac_stream_lifecycle acc' \<noteq> StreamTerminal"
      using strict_step [OF n run strict] by (simp split: if_splits)
    then show ?thesis by (simp add: settled_def)
  qed
  ultimately show ?thesis by (simp add: strict_inv_def)
qed

lemma strict_run_inv:
  assumes "process_lines codec lines (with_validation_and_budget rid conv Strict (Some b)) = (acc, Inr ())"
    and "rb_used b \<le> rb_limit b" "rb_limit b \<le> USIZE_MAX"
  shows "strict_inv codec (rb_limit b) (rb_used b) acc (stream_frames codec lines)"
proof -
  have "strict_inv codec (rb_limit b) (rb_used b) (with_validation_and_budget rid conv Strict (Some b)) []"
    using new_accumulator_inv [OF assms(2,3)]
    by (simp add: strict_inv_def strict_so_far_def settled_def with_validation_and_budget_def)
  from process_lines_induct [where P = "strict_inv codec (rb_limit b) (rb_used b)", OF assms(1) this strict_inv_step]
  show ?thesis by simp
qed

lemma finish_strict:
  assumes "finish codec acc = (acc', Inr response)" "ac_validation acc = Strict" "settled acc frames"
  shows "ac_stream_lifecycle acc = StreamTerminal \<and> asr_id response = ac_response_id acc \<and> asr_output response = ac_output acc \<and>
    terminal_status (ef_event_type (last frames)) = Some (ac_status acc) \<and> asr_status response = status_name (ac_status acc)"
proof -
  from assms(1,2) have terminal: "ac_stream_lifecycle acc = StreamTerminal"
    and fin: "\<exists>acc1. finish_stream codec acc = (acc1, Inr ()) \<and> response = assemble acc1"
    by (auto simp: finish_def finish_strict_stream_def attempt_def split: prod.splits sum.splits if_splits)
  from fin obtain acc1 where f: "finish_stream codec acc = (acc1, Inr ())" "response = assemble acc1" by blast
  from assms(3) terminal have e: "sm_slots (ac_slots acc) = []" and st: "terminal_status (ef_event_type (last frames)) = Some (ac_status acc)"
    by (simp_all add: settled_def)
  from st have "ac_status acc \<noteq> StInProgress" by (auto simp: terminal_status_def split: if_splits)
  then show ?thesis using f e terminal st
    by (auto simp: finish_stream_def finalize_all_def drain_output_def unfinished_collaboration_def attempt_def assemble_def
        split: prod.splits sum.splits)
qed

section \<open>The invariant of a run\<close>

lemma run_inv:
  assumes "process_lines codec lines (with_validation_and_budget rid conv v (Some b)) = (acc, Inr ())"
    and "rb_used b \<le> rb_limit b" "rb_limit b \<le> USIZE_MAX"
  shows "acc_inv codec (rb_limit b) (rb_used b) acc"
proof -
  have "acc_inv codec (rb_limit b) (rb_used b) (with_validation_and_budget rid conv v (Some b))"
    by (rule new_accumulator_inv [OF assms(2,3)])
  from process_lines_ok [OF this, where lines = lines] assms(1) show ?thesis by (simp add: acc_step_ok_def)
qed

section \<open>JSON bodies\<close>

lemma ensure_items_ok:
  assumes "ensure_items codec n seen items = Inr ()"
  shows "(\<forall>v \<in> set items. \<exists>item. read_item codec v = Some item) \<and> distinct (map (\<lambda>v. json_str v ''id'') items) \<and>
    (\<forall>v \<in> set items. json_str v ''id'' \<notin> set seen)"
  using assms
proof (induction items arbitrary: n seen)
  case (Cons v items)
  then obtain iid item where "nonempty_str v ''id'' = Some iid" "item_of_json (ic_events codec) v = Inr item" "iid \<notin> set seen"
    and rest: "ensure_items codec (Suc n) (iid # seen) items = Inr ()"
    by (auto simp: and_then_def body_str_def split: sum.splits option.splits if_splits)
  moreover from this(1) have "json_str v ''id'' = iid"
    by (auto simp: nonempty_str_def json_str_def split: option.splits if_splits)
  ultimately show ?case using Cons.IH [OF rest] by (auto simp: read_item_def option_of_result_def)
qed simp

end
