(* ===== verification/Steering_Cut.thy ===== *)
theory Steering_Cut
  imports Stream_Contract
begin

text \<open>
  A steering cut ends a response in the middle of its stream. The slot map records in \<open>completion_uncertain\<close>
  whether any completion rests on anything but the snapshot upstream sent; the lemmas here follow that flag through
  every slot operation, so that a cut that is granted closes only items that agree with such a snapshot.
\<close>

section \<open>Evidence for a completed item\<close>

text \<open>Some completion event carries a snapshot that decodes and serializes like the item.\<close>

definition snapshot_of :: "item_codec \<Rightarrow> event_payload \<Rightarrow> output_item option" where
  "snapshot_of codec payload = (case payload of PlOutputItemDone _ _ _ raw \<Rightarrow> read_item codec raw | _ \<Rightarrow> None)"

definition authoritative :: "item_codec \<Rightarrow> event_payload list \<Rightarrow> output_item \<Rightarrow> bool" where
  "authoritative codec payloads item \<longleftrightarrow>
     (\<exists>payload \<in> set payloads. \<exists>original. snapshot_of codec payload = Some original \<and> semantically_equal codec item original)"

lemma authoritative_mono: "authoritative codec payloads item \<Longrightarrow> authoritative codec (payloads @ others) item"
  by (auto simp: authoritative_def)

text \<open>From \<open>m\<close> to \<open>m'\<close>, on the evidence of one payload.\<close>

definition evident :: "item_codec \<Rightarrow> event_payload \<Rightarrow> slot_map \<Rightarrow> slot_map \<Rightarrow> bool" where
  "evident codec payload m m' \<longleftrightarrow>
     (\<not> sm_completion_uncertain m' \<longrightarrow> \<not> sm_completion_uncertain m \<and>
       (\<forall>n item. done_at m' n = Some item \<longrightarrow> done_at m n = Some item \<or> authoritative codec [payload] item))"

lemma evident_refl [simp]: "evident codec payload m m"
  by (simp add: evident_def)

lemma evident_trans: "evident codec payload a b \<Longrightarrow> evident codec payload b c \<Longrightarrow> evident codec payload a c"
  unfolding evident_def by metis

lemma uncertain_mark [simp]:
  "sm_completion_uncertain (mark_uncertain u m) \<longleftrightarrow> sm_completion_uncertain m \<or> u"
  by (simp add: mark_uncertain_def)

lemma done_at_mark [simp]: "done_at (mark_uncertain u m) = done_at m"
  by (rule ext) (simp add: done_at_def)

lemma evident_mark: "evident codec payload m (mark_uncertain u m)"
  by (simp add: evident_def)

lemma evident_if_uncertain: "sm_completion_uncertain m' \<Longrightarrow> evident codec payload m m'"
  by (simp add: evident_def)

definition op_evident :: "item_codec \<Rightarrow> event_payload \<Rightarrow> slots_state \<Rightarrow> (slots_state, executor_error, 'a) outcome \<Rightarrow> bool" where
  "op_evident codec payload st r \<longleftrightarrow> evident codec payload (fst st) (fst (fst r))"

lemma op_evident_same [simp]: "op_evident codec payload st (st, r)" "op_evident codec payload (m, b) ((m, b'), r)"
  "op_evident codec payload st ((fst st, b'), r)"
  by (simp_all add: op_evident_def)

lemma op_evident_marked [simp]: "op_evident codec payload st ((mark_uncertain u (fst st), b), r)"
  by (simp add: op_evident_def evident_mark)

lemma op_evident_attempt:
  assumes "op_evident codec payload st r" "\<And>st' a. r = (st', Inr a) \<Longrightarrow> op_evident codec payload st' (k st' a)"
  shows "op_evident codec payload st (attempt r k)"
proof (cases r)
  case (Pair st' res)
  then show ?thesis using assms
    by (cases res) (auto simp: attempt_def op_evident_def intro: evident_trans)
qed

lemma op_evident_mark:
  assumes "op_evident codec payload (mark_uncertain u (fst st), b) r" shows "op_evident codec payload st r"
  using assms evident_trans [OF evident_mark] by (auto simp: op_evident_def)

lemma op_evident_after:
  assumes "evident codec payload (fst st) (fst st0)" "op_evident codec payload st0 r" shows "op_evident codec payload st r"
  using assms by (auto simp: op_evident_def intro: evident_trans)

lemma op_evident_then:
  assumes "op_evident codec payload st r" shows "op_evident codec payload st (attempt r (\<lambda>st _. (st, Inr x)))"
  using assms by (rule op_evident_attempt) simp

section \<open>The slot operations\<close>

lemma done_at_modify:
  "done_at (modify_slot n f m) k = (if k = n then Option.bind (get_slot m n) (\<lambda>s. state_done_item (sl_state (f s))) else done_at m k)"
  by (simp add: done_at_def get_modify bind_map_option comp_def)

lemma uncertain_modify [simp]: "sm_completion_uncertain (modify_slot n f m) = sm_completion_uncertain m"
  by (simp add: modify_slot_def)

lemma evident_modify:
  assumes "\<And>s item. get_slot m n = Some s \<Longrightarrow> sl_state (f s) = SlotDone item \<Longrightarrow>
      sl_state s = SlotDone item \<or> authoritative codec [payload] item"
  shows "evident codec payload m (modify_slot n f m)"
  unfolding evident_def
proof (intro impI conjI allI)
  fix k item assume d: "done_at (modify_slot n f m) k = Some item"
  show "done_at m k = Some item \<or> authoritative codec [payload] item"
  proof (cases "k = n")
    case True
    with d obtain s where s: "get_slot m n = Some s" "state_done_item (sl_state (f s)) = Some item"
      by (auto simp: done_at_modify bind_eq_Some_conv)
    then have "sl_state (f s) = SlotDone item" by (cases "sl_state (f s)") auto
    from assms [OF s(1) this] show ?thesis using s(1) True by (auto simp: done_at_def)
  next
    case False
    then show ?thesis using d by (simp add: done_at_modify)
  qed
qed simp

lemma evident_indexes [simp]: "evident codec payload m (m'\<lparr>sm_indexes_by_id := ids\<rparr>) = evident codec payload m m'"
  by (simp add: evident_def done_at_def get_slot_def)

lemma bind_agent_evident: "op_evident codec payload st (bind_agent n identity st)"
  by (auto simp: bind_agent_def op_evident_def split: option.splits prod.splits sum.splits intro!: evident_modify)

lemma bind_item_id_evident: "op_evident codec payload st (bind_item_id n identity st)"
  by (auto simp: bind_item_id_def op_evident_def split: option.splits prod.splits sum.splits intro!: evident_modify)

lemma bind_identity_evident: "op_evident codec payload st (bind_identity n identity st)"
  unfolding bind_identity_def by (rule op_evident_attempt [OF bind_agent_evident bind_item_id_evident])

lemma insert_slot_evident:
  assumes "\<And>item. state = SlotDone item \<Longrightarrow> sm_completion_uncertain (fst st)"
  shows "op_evident codec payload st (insert_slot n identity state account st)"
proof -
  have "done_at (m\<lparr>sm_indexes_by_id := ids, sm_slots := AList.update n s (sm_slots m)\<rparr>) k =
      (if k = n then state_done_item (sl_state s) else done_at m k)" for m ids s k
    by (simp add: done_at_def get_slot_def update_conv')
  moreover have "\<not> sm_completion_uncertain (fst st) \<Longrightarrow> state_done_item state = None" using assms by (cases state) auto
  ultimately show ?thesis
    by (auto simp: insert_slot_def op_evident_def evident_def split: prod.splits sum.splits)
qed

lemma open_slot_evident: "op_evident codec payload st (open_slot codec uuid identity p v st)"
proof -
  have "op_evident codec payload st (insert_slot n identity (SlotActive item) account (fst st, b))" for n item account b
    using insert_slot_evident [of "SlotActive item" "(fst st, b)"] by (simp add: op_evident_def)
  then have "op_evident codec payload st
      (attempt (insert_slot n identity (SlotActive item) account (fst st, b)) (\<lambda>st _. (st, Inr (Some n))))" for n item account b
    by (rule op_evident_attempt) simp
  then show ?thesis by (auto simp: open_slot_def split: sum.splits option.splits prod.splits)
qed

lemma apply_slot_evident: "op_evident codec payload st (apply_slot codec uuid identity p v st)"
proof -
  have bind: "op_evident codec payload st (attempt (bind_identity n identity st) (\<lambda>st _. (st, Inr (Some n))))" for n st
    by (rule op_evident_attempt [OF bind_identity_evident]) simp
  have "op_evident codec payload st
      ((modify_slot n (\<lambda>s. s\<lparr>sl_state := SlotActive item, sl_account := account\<rparr>) (mark_uncertain u (fst st)), b), r)" for n item account u b r
    unfolding op_evident_def by (simp, rule evident_trans [OF evident_mark evident_modify]) simp
  then show ?thesis
    by (auto simp: apply_slot_def Let_def split: sum.splits option.splits slot_state.splits prod.splits
        intro!: op_evident_attempt [OF _ bind])
qed

lemma complete_again_evident: "op_evident codec payload st (complete_again codec n identity previous parsed candidate st)"
  by (auto simp: complete_again_def intro: op_evident_attempt [OF bind_identity_evident])

lemma complete_active_evident:
  assumes "\<And>item. parsed = Some item \<Longrightarrow> snapshot_of codec payload = Some item"
  shows "op_evident codec payload st (complete_active codec n identity s parsed candidate st)"
proof (cases candidate)
  case None
  then show ?thesis by (simp add: complete_active_def)
next
  case (Some item)
  let ?same = "case parsed of Some original \<Rightarrow> semantically_equal codec item original | None \<Rightarrow> False"
  have "evident codec payload (fst st)
      (modify_slot n (\<lambda>s. s\<lparr>sl_state := SlotDone item, sl_account := account\<rparr>) (mark_uncertain (\<not> ?same) (fst st)))" for account
  proof (cases ?same)
    case True
    then have "authoritative codec [payload] item" using assms by (auto simp: authoritative_def split: option.splits)
    then show ?thesis by (intro evident_trans [OF evident_mark evident_modify]) simp
  next
    case False
    then show ?thesis by (simp add: evident_if_uncertain)
  qed
  then have "op_evident codec payload st (attempt (bind_identity n identity
      (modify_slot n (\<lambda>s. s\<lparr>sl_state := SlotDone item, sl_account := account\<rparr>) (mark_uncertain (\<not> ?same) (fst st)), b))
      (\<lambda>st _. (st, Inr (Some n))))" for account b
    by (intro op_evident_after [OF _ op_evident_then [OF bind_identity_evident]]) simp
  then show ?thesis using Some by (auto simp: complete_active_def Let_def split: prod.splits sum.splits)
qed

lemma op_evident_any: "sm_completion_uncertain (fst (fst r)) \<Longrightarrow> op_evident codec payload st r"
  by (simp add: op_evident_def evident_if_uncertain)

lemma complete_slot_evident:
  assumes validated: "\<And>item. validated = Some item \<Longrightarrow> snapshot_of codec payload = Some item"
  shows "op_evident codec payload st (complete_slot codec uuid identity payload validated v st)"
proof (cases "\<exists>n iid t i raw. resolve identity ActComplete v (fst st) = Inr (Some n) \<and> payload = PlOutputItemDone iid t i raw")
  case False
  then show ?thesis by (auto simp: complete_slot_def split: sum.splits option.splits event_payload.splits)
next
  case True
  then obtain n iid t i raw where res: "resolve identity ActComplete v (fst st) = Inr (Some n)"
    and payload: "payload = PlOutputItemDone iid t i raw" by blast
  let ?snapshot = "completion_snapshot codec validated raw"
  have snapshot: "snapshot_of codec payload = Some item" if "?snapshot = Some item" for item
    using that validated payload by (auto simp: completion_snapshot_def snapshot_of_def split: option.splits)
  show ?thesis
  proof (cases "get_slot (fst st) n")
    case None
    have insert: "op_evident codec payload (mark_uncertain True m, b) (insert_slot n identity (SlotDone item) account (mark_uncertain True m, b'))"
      for m item account b b'
      by (rule op_evident_after [OF _ insert_slot_evident]) simp_all
    have "op_evident codec payload (mark_uncertain True m, b) (complete_done_only codec uuid n identity parsed (mark_uncertain True m, b))" for m b parsed
      by (auto simp: complete_done_only_def split: option.splits prod.splits sum.splits intro!: op_evident_then insert)
    then have "op_evident codec payload st (complete_done_only codec uuid n identity parsed (mark_uncertain True m, b))" for m b parsed
      by (rule op_evident_after [OF evident_if_uncertain, rotated]) simp_all
    then show ?thesis using res payload None by (simp add: complete_slot_def Let_def)
  next
    case (Some s)
    show ?thesis
    proof (cases "sl_state s")
      case (SlotDone previous)
      have "op_evident codec payload st (complete_again codec n identity previous parsed candidate (mark_uncertain u (fst st), b))"
        for parsed candidate u b by (rule op_evident_mark [OF complete_again_evident])
      then show ?thesis using res payload Some SlotDone by (simp add: complete_slot_def Let_def)
    next
      case (SlotActive item)
      have "with_previous_id (Some s) ?snapshot = ?snapshot"
        using SlotActive by (simp add: with_previous_id_def split: option.splits output_item.splits)
      with snapshot complete_active_evident have "op_evident codec payload st'
          (complete_active codec n identity s (with_previous_id (Some s) ?snapshot) candidate st')" for st' candidate
        by metis
      then have "op_evident codec payload st
          (complete_active codec n identity s (with_previous_id (Some s) ?snapshot) candidate (mark_uncertain u' (mark_uncertain u (fst st)), b))"
        for candidate u u' b
        using evident_trans [OF evident_trans [OF evident_mark evident_mark]] unfolding op_evident_def by (metis fst_conv)
      moreover have "op_evident codec payload st ((mark_uncertain u' (mark_uncertain u (fst st)), b), r)" for u u' b and r :: "executor_error + nat option"
        unfolding op_evident_def by (simp add: evident_trans [OF evident_mark evident_mark])
      ultimately show ?thesis using res payload Some SlotActive
        by (auto simp: complete_slot_def Let_def split: sum.splits)
    qed
  qed
qed

section \<open>Streams\<close>

text \<open>The snapshot that validation parsed is the one the payload decodes to.\<close>

lemma validated_snapshot:
  assumes "normalized codec frame" "validate_frame (ic_events codec) frame = Inr (Some validated)" "vi_done_item validated = Some item"
  shows "snapshot_of codec (ef_payload frame) = Some item"
  using assms frame_payload_agrees [of "ic_events codec" _ frame validated]
  by (auto simp: normalized_def payload_agrees_def snapshot_of_def read_item_def option_of_result_def split: event_payload.splits)

definition evident_acc :: "item_codec \<Rightarrow> event_payload \<Rightarrow> response_accumulator \<Rightarrow> response_accumulator \<Rightarrow> bool" where
  "evident_acc codec payload acc acc' \<longleftrightarrow> evident codec payload (ac_slots acc) (ac_slots acc')"

lemma process_item_event_evident:
  assumes "process_item_event codec uuid frame validated acc = (acc', Inr d)"
    and "\<And>w item. validated = Some w \<Longrightarrow> vi_done_item w = Some item \<Longrightarrow> snapshot_of codec (ef_payload frame) = Some item"
  shows "evident codec (ef_payload frame) (ac_slots acc) (ac_slots acc')"
proof (cases "frame_identity frame validated")
  case None
  then show ?thesis using assms(1) by (simp add: process_item_event_def)
next
  case (Some identity)
  let ?r = "slot_event codec uuid identity frame validated (ac_validation acc) (ac_slots acc, ac_budget acc)"
  have "Option.bind validated vi_done_item = Some item \<Longrightarrow> snapshot_of codec (ef_payload frame) = Some item" for item
    using assms(2) by (auto simp: bind_eq_Some_conv)
  then have "op_evident codec (ef_payload frame) (ac_slots acc, ac_budget acc) ?r"
    by (simp add: slot_event_def open_slot_evident apply_slot_evident complete_slot_evident)
  moreover have "ac_slots acc' = fst (fst ?r)"
    using assms(1) Some observe_event_keeps
    by (auto simp: process_item_event_def Let_def split: option.splits prod.splits sum.splits if_splits)
  ultimately show ?thesis by (simp add: op_evident_def)
qed

lemma evident_emptied:
  "sm_slots m' = [] \<Longrightarrow> sm_completion_uncertain m' = sm_completion_uncertain m \<Longrightarrow> evident codec payload m m'"
  by (simp add: evident_def done_at_def get_slot_def)

lemma finish_response_evident:
  assumes "finish_response codec status usage tier acc = (acc', Inr u)"
  shows "evident codec payload (ac_slots acc) (ac_slots acc')"
  using assms by (intro evident_emptied)
    (auto simp: finish_response_def finalize_all_def drain_output_def attempt_def split: prod.splits sum.splits if_splits)

lemma process_event_checked_evident:
  assumes run: "process_event_checked codec uuid frame validated acc = (acc', Inr d)"
    and "\<And>w item. validated = Some w \<Longrightarrow> vi_done_item w = Some item \<Longrightarrow> snapshot_of codec (ef_payload frame) = Some item"
  shows "evident codec (ef_payload frame) (ac_slots acc) (ac_slots acc')"
proof (cases "process_event_checked codec uuid frame validated acc = process_item_event codec uuid frame validated acc")
  case True
  with run have "process_item_event codec uuid frame validated acc = (acc', Inr d)" by simp
  then show ?thesis by (rule process_item_event_evident) (rule assms(2))
next
  case False
  from run False have "ac_slots acc' = ac_slots acc \<or>
      (\<exists>status usage tier. finish_response codec status usage tier acc = (acc', Inr ()))"
    by (auto simp: process_event_checked_def finish_response_event_def charge_response_id_def attempt_def
        split: event_payload.splits if_splits option.splits prod.splits sum.splits)
  then show ?thesis using finish_response_evident by fastforce
qed

lemma process_normalized_event_evident:
  assumes n: "normalized codec frame" and run: "process_normalized_event codec uuid frame acc = (acc', Inr d)"
  shows "evident codec (ef_payload frame) (ac_slots acc) (ac_slots acc')"
proof -
  from run obtain validated acc1 acc2 where ids: "only_ids acc acc1"
    and v: "validated \<noteq> None \<Longrightarrow> validate_frame (ic_events codec) frame = Inr validated"
    and c: "capture_terminal_details frame acc1 = (acc2, Inr ())"
    and p: "process_event_checked codec uuid frame validated acc2 = (acc', Inr d)"
  proof (cases "ac_validation acc")
    case Strict
    from strict_step_cases [OF run this] that show ?thesis by metis
  next
    case Lenient
    with run that [of acc None] show ?thesis
      by (auto simp: process_normalized_event_def attempt_def split: prod.splits sum.splits)
  qed
  have "ac_slots acc2 = ac_slots acc" using only_ids_core [OF ids] capture_core [OF c] by simp
  with process_event_checked_evident [OF p] validated_snapshot [OF n] v show ?thesis by fastforce
qed

definition certain_inv :: "item_codec \<Rightarrow> response_accumulator \<Rightarrow> event_frame list \<Rightarrow> bool" where
  "certain_inv codec acc frames \<longleftrightarrow>
     (\<not> sm_completion_uncertain (ac_slots acc) \<longrightarrow>
       (\<forall>n item. done_at (ac_slots acc) n = Some item \<longrightarrow> authoritative codec (map ef_payload frames) item))"

lemma certain_inv_step:
  assumes inv: "certain_inv codec acc frames" and n: "normalized codec frame"
    and run: "process_normalized_event codec uuid frame acc = (acc', Inr d)"
  shows "certain_inv codec acc' (frames @ [frame])"
proof -
  note ev = process_normalized_event_evident [OF n run, unfolded evident_def]
  have "authoritative codec (map ef_payload frames @ [ef_payload frame]) item"
    if "authoritative codec [ef_payload frame] item" for item using that by (auto simp: authoritative_def)
  then show ?thesis using inv ev unfolding certain_inv_def
    by (metis authoritative_mono list.simps(8,9) map_append)
qed

lemma certain_run:
  assumes "process_lines codec lines (with_validation_and_budget rid conv v b) = (acc, Inr ())"
  shows "certain_inv codec acc (stream_frames codec lines)"
proof -
  have "certain_inv codec (with_validation_and_budget rid conv v b) []"
    by (simp add: certain_inv_def with_validation_and_budget_def no_slots_def done_at_def get_slot_def)
  from process_lines_induct [where P = "certain_inv codec", OF assms this certain_inv_step] show ?thesis by simp
qed

lemma boundary_done:
  assumes "\<not> has_active m" "get_slot m n = Some s"
  shows "\<exists>item. sl_state s = SlotDone item \<and> done_at m n = Some item"
proof -
  from assms have "\<not> slot_active s" by (auto simp: has_active_def get_slot_def dest: map_of_SomeD)
  then show ?thesis using assms(2) by (cases "sl_state s") (auto simp: slot_active_def done_at_def)
qed

lemma finish_for_steering_cut:
  assumes "finish_for_steering acc = (acc', Inr True)"
  shows "at_steering_boundary acc \<and> ac_slots acc' = ac_slots acc \<and> ac_output acc' = ac_output acc \<and> ac_status acc' = StIncomplete \<and>
    ac_incomplete_details acc' = Some \<lparr>icd_reason = Some ''steered''\<rparr> \<and> ac_stream_lifecycle acc' = StreamTerminal"
  using assms by (auto simp: finish_for_steering_def attempt_def check_stable_def Let_def split: if_splits prod.splits sum.splits)

end
