(* ===== verification/Response_Contract.thy ===== *)
theory Response_Contract
  imports Steering_Cut
begin

text \<open>
  The contract of the response accumulator over whole streams: what is held has been paid for, completed items
  are final, a strict stream has one order and one output, a steering cut closes only what upstream completed,
  and a strict JSON body is taken over completely. The sample is a strict stream of five lines with one item;
  its states between the lines are computed once and shared by the witnesses.
\<close>

section \<open>A strict stream\<close>

definition docs_item :: json where
  "docs_item = JObject [(''id'', JString ''l1''), (''type'', JString ''mcp_list_tools''), (''server_label'', JString ''docs'')]"

definition docs_tools :: mcp_list_tools where
  "docs_tools = \<lparr>mls_agent = None, mls_id = ''l1'', mls_server_label = ''docs'', mls_tools = [], mls_error = None\<rparr>"

definition response_event :: "string \<Rightarrow> string \<Rightarrow> (string \<times> json) list \<Rightarrow> json" where
  "response_event name status more_members = JObject [(''type'', JString name),
     (''response'', JObject ([(''id'', JString ''r1''), (''status'', JString status)] @ more_members))]"

definition item_event :: "string \<Rightarrow> json" where
  "item_event name = JObject [(''type'', JString name), (''output_index'', JNumber (PosInt 0)), (''item'', docs_item)]"

definition stream_table :: "(string \<times> json) list" where
  "stream_table =
     [(''1'', response_event ''response.created'' ''in_progress'' []),
      (''2'', response_event ''response.in_progress'' ''in_progress'' []),
      (''3'', item_event ''response.output_item.added''),
      (''4'', item_event ''response.output_item.done''),
      (''5'', response_event ''response.completed'' ''completed'' [(''output'', JArray [docs_item])])]"

definition stream_codec :: item_codec where
  "stream_codec =
     \<lparr>ic_events =
        \<lparr>parse_json = map_of stream_table,
         item_of_json = (\<lambda>v. case v of
            JObject _ \<Rightarrow> Inr (OiMcpListTools \<lparr>mls_agent = None, mls_id = json_str v ''id'', mls_server_label = json_str v ''server_label'',
              mls_tools = [], mls_error = None\<rparr>)
          | _ \<Rightarrow> Inl ''expected an object''),
         part_of_json = (\<lambda>_. None), usage_of_json = (\<lambda>_. None),
         item_json = (\<lambda>item. case item of OiMcpListTools l \<Rightarrow> Some (JArray [JString (mls_id l), JString (mls_server_label l)]) | _ \<Rightarrow> None),
         part_json = (\<lambda>_. None), render_json = (\<lambda>_. None)\<rparr>,
      ic_search_output = (\<lambda>_. ([], True)), ic_function_call = (\<lambda>_. None), ic_custom_call = (\<lambda>_. None),
      ic_tool_search_call = (\<lambda>_. None), ic_mcp_call = (\<lambda>_. None), ic_mcp_list_tools = (\<lambda>_. None), ic_compaction = (\<lambda>_. None)\<rparr>"

definition stream_start :: response_accumulator where
  "stream_start = with_validation_and_budget ''r0'' None Strict (Some \<lparr>rb_limit = 4096, rb_used = 0\<rparr>)"

definition fixed_uuid :: uuids where "fixed_uuid = (\<lambda>prefix. prefix @ ''0'')"

definition stream_lines :: "(uuids \<times> classified_sse_line) list" where
  "stream_lines = map (\<lambda>d. (fixed_uuid, SlData d)) [''1'', ''2'', ''3'', ''4'', ''5'']"


definition sample_wire :: "string \<Rightarrow> nat option \<Rightarrow> (string \<times> json) list \<Rightarrow> wire_event" where
  "sample_wire name index rest =
     \<lparr>we_type = Some name, we_sequence_number = None, we_output_index = index, we_agent = None, we_rest = rest\<rparr>"

definition response_frame :: "sse_event_type \<Rightarrow> string \<Rightarrow> string \<Rightarrow> (string \<times> json) list \<Rightarrow> event_frame" where
  "response_frame t name status more_members =
     \<lparr>ef_event_type = t, ef_payload = PlResponse ''r1'' status None None,
      ef_wire = sample_wire name None [(''response'', JObject ([(''id'', JString ''r1''), (''status'', JString status)] @ more_members))]\<rparr>"

definition added_frame :: event_frame where
  "added_frame =
     \<lparr>ef_event_type = EvOutputItemAdded, ef_payload = PlOutputItemAdded ''l1'' SiMcpListTools (Some 0) None None None None,
      ef_wire = sample_wire ''response.output_item.added'' (Some 0) [(''item'', docs_item)]\<rparr>"

definition done_frame :: event_frame where
  "done_frame =
     \<lparr>ef_event_type = EvOutputItemDone, ef_payload = PlOutputItemDone ''l1'' SiMcpListTools (Some 0) docs_item,
      ef_wire = sample_wire ''response.output_item.done'' (Some 0) [(''item'', docs_item)]\<rparr>"

lemmas frame_eval = frame_of_line_def normalize_sse_data_checked_def stream_codec_def stream_table_def
  normalize_sse_value_def reconcile_status_def read_member_def wire_keys_def Let_def json_at_def json_output_index_def
  u32_of_def U32_MAX_def json_str_def json_str_opt_def event_type_of_def event_types_def extract_payload_def sample_wire_def

lemma sample_response_frames:
  "frame_of_line stream_codec (SlData ''1'') = Some (response_frame EvResponseCreated ''response.created'' ''in_progress'' [])"
  "frame_of_line stream_codec (SlData ''2'') = Some (response_frame EvResponseInProgress ''response.in_progress'' ''in_progress'' [])"
  "frame_of_line stream_codec (SlData ''5'') =
     Some (response_frame EvResponseCompleted ''response.completed'' ''completed'' [(''output'', JArray [docs_item])])"
  by (simp_all add: frame_eval response_event_def extract_response_payload_def response_frame_def)

lemma sample_item_frames:
  "frame_of_line stream_codec (SlData ''3'') = Some added_frame"
  "frame_of_line stream_codec (SlData ''4'') = Some done_frame"
  by (simp_all add: frame_eval item_event_def docs_item_def extract_output_item_added_def extract_output_item_done_def
      output_item_id_def nonempty_str_def item_type_of_def parse_item_type_def item_types_def opening_item_types_def
      added_frame_def done_frame_def)

text \<open>The states of the accumulator between the lines.\<close>

definition docs_slot :: "slot_state \<Rightarrow> nat \<Rightarrow> slot" where
  "docs_slot st n = \<lparr>sl_item_id = Some ''l1'', sl_event_agent = None, sl_state = st, sl_account = \<lparr>accounted = n\<rparr>\<rparr>"

definition stream_state :: "stream_lifecycle \<Rightarrow> nat \<Rightarrow> (nat \<times> slot) list \<Rightarrow> response_accumulator" where
  "stream_state lifecycle used slots =
     stream_start\<lparr>ac_response_id := ''r1'', ac_stream_lifecycle := lifecycle, ac_budget := Some \<lparr>rb_limit = 4096, rb_used = used\<rparr>,
       ac_slots := \<lparr>sm_slots = slots, sm_indexes_by_id = (if slots = [] then Map.empty else [''l1'' \<mapsto> 0]),
         sm_completion_uncertain = False\<rparr>,
       ac_strict_call_ids := (if slots = [] then [] else [(0, no_observation)])\<rparr>"

definition docs_open :: "(nat \<times> slot) list" where
  "docs_open = [(0, docs_slot (SlotActive (AiMcpListTools (docs_tools\<lparr>mls_server_label := []\<rparr>))) 34)]"

definition docs_done :: "(nat \<times> slot) list" where
  "docs_done = [(0, docs_slot (SlotDone (OiMcpListTools docs_tools)) 38)]"

definition stream_end :: response_accumulator where
  "stream_end = (stream_state StreamTerminal 72 [])\<lparr>ac_strict_call_ids := [(0, no_observation)],
     ac_output := [OiMcpListTools docs_tools], ac_status := StCompleted\<rparr>"

lemma process_line_frame:
  assumes "frame_of_line codec line = Some frame" "process_normalized_event codec uuid frame acc = (acc', Inr d)"
  shows "process_line codec uuid line acc = (acc', Inr (map_option (with_slot_id acc') (into_frame d frame)))"
  using assms by (auto simp: frame_of_line_def process_line_def attempt_def split: classified_sse_line.splits sum.splits option.splits)

lemmas accumulator_eval = process_normalized_event_def attempt_def validate_strict_transition_def
  capture_terminal_details_def is_terminal_event_def process_event_checked_def stream_state_def stream_start_def
  with_validation_and_budget_def response_payload_id_def Let_def

lemmas validation_eval = validate_frame_def is_response_event_def validate_response_event_def required_simps
  required_object_def required_string_def required_str_def nonempty_str_def json_str_opt_def json_str_def json_at_def expected_status_def

lemma sample_created: "process_normalized_event stream_codec fixed_uuid (response_frame EvResponseCreated ''response.created'' ''in_progress'' [])
    stream_start = (stream_state StreamCreated 34 [], Inr (EdEmit None))"
  by (simp add: accumulator_eval validation_eval response_frame_def sample_wire_def charge_response_id_def consume_eq
      RETAINED_CONTAINER_OVERHEAD_BYTES_def USIZE_MAX_def no_slots_def)

lemma sample_in_progress: "process_normalized_event stream_codec fixed_uuid
    (response_frame EvResponseInProgress ''response.in_progress'' ''in_progress'' []) (stream_state StreamCreated 34 []) =
    (stream_state StreamInProgress 34 [], Inr (EdEmit None))"
  by (simp add: accumulator_eval validation_eval response_frame_def sample_wire_def)

lemmas item_eval = validate_output_item_def output_item_identity_def required_output_index_def wire_index_def u32_of_def U32_MAX_def
  parse_item_type_def item_types_def opening_snapshot_def canonical_item_def docs_item_def sample_wire_def
  process_item_event_def frame_identity_def slot_event_def resolve_def located_def resolve_slot_def get_slot_def
  charge_def consume_eq USIZE_MAX_def RETAINED_CONTAINER_OVERHEAD_BYTES_def new_account_def saturating_add_def
  retained_mcp_list_tools_def docs_tools_def docs_slot_def opt_bytes_def opt_len_def sum_retained_def nonempty_def is_collaboration_def
  observe_event_def item_disposition_def observe_strict_call_id_def observation_def observe_def no_observation_def docs_open_def

lemma sample_added: "process_normalized_event stream_codec fixed_uuid added_frame (stream_state StreamInProgress 34 []) =
    (stream_state StreamInProgress 68 docs_open, Inr (EdEmit (Some 0)))"
  by (simp add: accumulator_eval validation_eval item_eval added_frame_def open_slot_def insert_slot_def id_cost_def id_or_uuid_def)

lemma sample_done: "process_normalized_event stream_codec fixed_uuid done_frame (stream_state StreamInProgress 68 docs_open) =
    (stream_state StreamInProgress 72 docs_done, Inr (EdEmit (Some 0)))"
  by (simp add: accumulator_eval validation_eval item_eval done_frame_def docs_done_def stream_codec_def complete_slot_def
      completion_snapshot_def call_id_lost_def with_previous_id_def contradicts_def kind_matches_def slot_active_def
      completion_candidate_def merge_completion_def merge_parsed_def validate_completion_def shell_contradicted_def complete_active_def
      mark_uncertain_def semantically_equal_def reconcile_def saturating_sub_def modify_slot_def im_modify_def
      bind_identity_def bind_agent_def bind_item_id_def id_cost_def)

lemma sample_completed: "process_normalized_event stream_codec fixed_uuid
    (response_frame EvResponseCompleted ''response.completed'' ''completed'' [(''output'', JArray [docs_item])])
    (stream_state StreamInProgress 72 docs_done) = (stream_end, Inr (EdEmit None))"
  by (simp add: accumulator_eval validation_eval item_eval response_frame_def docs_done_def stream_codec_def stream_end_def
      has_active_def slot_active_def validate_terminal_output_def check_stable_def ensure_stable_strict_call_ids_def changed_indexes_def
      reconcile_def saturating_sub_def finish_response_event_def terminal_status_def finish_response_def finalize_all_def
      drain_output_def unfinished_collaboration_def tier_bytes_def)

lemma process_lines_step:
  assumes "frame_of_line codec line = Some frame" "process_normalized_event codec uuid frame acc = (acc', Inr d)"
  shows "process_lines codec ((uuid, line) # lines) acc = process_lines codec lines acc'"
  by (simp add: process_line_frame [OF assms] attempt_def)

lemma sample_opening_run: "process_lines stream_codec (take 4 stream_lines) stream_start = (stream_state StreamInProgress 72 docs_done, Inr ())"
  using process_lines_step [OF sample_response_frames(1) sample_created] process_lines_step [OF sample_response_frames(2) sample_in_progress]
    process_lines_step [OF sample_item_frames(1) sample_added] process_lines_step [OF sample_item_frames(2) sample_done]
  by (simp add: stream_lines_def del: process_lines.simps(2))

lemma sample_closing_run: "process_lines stream_codec (drop 4 stream_lines) (stream_state StreamInProgress 72 docs_done) = (stream_end, Inr ())"
  using process_lines_step [OF sample_response_frames(3) sample_completed]
  by (simp add: stream_lines_def del: process_lines.simps(2))

lemma sample_stream_run: "process_lines stream_codec stream_lines stream_start = (stream_end, Inr ())"
  using process_lines_append [of stream_codec "take 4 stream_lines" "drop 4 stream_lines" stream_start]
    sample_opening_run sample_closing_run by (simp add: attempt_def)

lemma sample_stream_frames: "stream_frames stream_codec stream_lines =
    [response_frame EvResponseCreated ''response.created'' ''in_progress'' [],
     response_frame EvResponseInProgress ''response.in_progress'' ''in_progress'' [], added_frame, done_frame,
     response_frame EvResponseCompleted ''response.completed'' ''completed'' [(''output'', JArray [docs_item])]]"
  using sample_response_frames sample_item_frames by (simp add: stream_lines_def)

definition docs_response :: assembled_response where
  "docs_response = \<lparr>asr_id = ''r1'', asr_status = ''completed'', asr_output = [OiMcpListTools docs_tools], asr_usage = None,
     asr_incomplete_details = None, asr_error = None, asr_conversation = None, asr_service_tier = None\<rparr>"

lemma sample_finish: "\<exists>acc'. finish stream_codec stream_end = (acc', Inr docs_response)"
  by (simp add: finish_def stream_end_def stream_state_def stream_start_def with_validation_and_budget_def finish_strict_stream_def
      finish_stream_def finalize_all_def drain_output_def unfinished_collaboration_def attempt_def assemble_def docs_response_def)

section \<open>The properties\<close>

lemmas sample_run_start = sample_stream_run [unfolded stream_start_def]

text \<open>C2. Whatever lines upstream sends, under either validation policy: while they are accepted, the bytes of everything
  the accumulator holds (open items, completed items, output, service tier, terminal details) have been charged to the
  response budget, on top of what was charged before, and the budget is never exceeded. What is retained for a response
  is therefore bounded by the budget, not by the length of the stream.\<close>

theorem accumulated_bytes_paid:
  assumes "process_lines codec lines (with_validation_and_budget rid conv v (Some b)) = (acc, Inr ())"
    and "rb_used b \<le> rb_limit b" "rb_limit b \<le> USIZE_MAX"
  shows "\<exists>b'. ac_budget acc = Some b' \<and> rb_limit b' = rb_limit b \<and>
    rb_used b + held_bytes codec acc \<le> rb_used b' \<and> rb_used b' \<le> rb_limit b"
  by (rule acc_inv_held [OF run_inv [OF assms]])

theorem accumulated_bytes_paid_witness:
  "\<exists>b'. ac_budget stream_end = Some b' \<and> held_bytes stream_codec stream_end = 38 \<and> 38 \<le> rb_used b' \<and> rb_used b' \<le> 4096"
proof -
  have "held_bytes stream_codec stream_end = 38"
    by (simp add: held_bytes_def stream_end_def stream_state_def stream_start_def with_validation_and_budget_def output_bytes_def
        sum_retained_def docs_tools_def retained_mcp_list_tools_def opt_bytes_def opt_len_def tier_bytes_def details_bytes_def
        RETAINED_CONTAINER_OVERHEAD_BYTES_def)
  then show ?thesis using accumulated_bytes_paid [OF sample_run_start] by (auto simp: USIZE_MAX_def)
qed

text \<open>C3. A completed item is final: once an item is complete at an output index, every continuation of the stream that is
  accepted either still holds exactly this item at this index or has appended it to the output, and the output
  already assembled is never changed.\<close>

theorem completed_item_final:
  assumes "process_lines codec lines (with_validation_and_budget rid conv v (Some b)) = (acc, Inr ())"
    and "rb_used b \<le> rb_limit b" "rb_limit b \<le> USIZE_MAX"
    and "is_done acc n item" and "process_lines codec more_lines acc = (acc', Inr ())"
  shows "\<exists>items. ac_output acc' = ac_output acc @ items \<and> (is_done acc' n item \<or> item \<in> set items)"
  using process_lines_ok [OF run_inv [OF assms(1-3)], where lines = more_lines] assms(4,5)
  by (auto simp: acc_step_ok_def keeps_done_def)

theorem completed_item_final_witness:
  "ac_output (stream_state StreamInProgress 72 docs_done) = [] \<and> OiMcpListTools docs_tools \<in> set (ac_output stream_end)"
proof -
  have "is_done (stream_state StreamInProgress 72 docs_done) 0 (OiMcpListTools docs_tools)"
    by (simp add: is_done_def stream_state_def docs_done_def docs_slot_def get_slot_def)
  from completed_item_final [OF sample_opening_run [unfolded stream_start_def] _ _ this sample_closing_run]
  show ?thesis by (auto simp: USIZE_MAX_def is_done_def stream_end_def stream_state_def stream_start_def
      with_validation_and_budget_def get_slot_def)
qed

text \<open>C4. A strict stream that is accepted and finished has exactly one order: the creation of the response, its start,
  events that are not response events, and one terminal event, all response events under the id of the
  assembled response, whose status is the one of the terminal event.\<close>

theorem strict_stream_in_order:
  assumes "process_lines codec lines (with_validation_and_budget rid conv Strict (Some b)) = (acc, Inr ())"
    and "rb_used b \<le> rb_limit b" "rb_limit b \<le> USIZE_MAX"
    and "finish codec acc = (acc', Inr response)"
  shows "\<exists>c p items t status. stream_frames codec lines = c # p # items @ [t] \<and>
    names (asr_id response) EvResponseCreated c \<and> names (asr_id response) EvResponseInProgress p \<and> item_frames items \<and>
    names (asr_id response) (ef_event_type t) t \<and> terminal_status (ef_event_type t) = Some status \<and>
    asr_status response = status_name status"
proof -
  from strict_run_inv [OF assms(1-3)] have so_far: "strict_so_far acc (stream_frames codec lines)"
    and settled: "settled acc (stream_frames codec lines)" by (simp_all add: strict_inv_def)
  from so_far have "ac_validation acc = Strict" by (simp add: strict_so_far_def)
  from finish_strict [OF assms(4) this settled] so_far show ?thesis by (auto simp: strict_so_far_def)
qed

theorem strict_stream_in_order_witness:
  "\<exists>c p items t. stream_frames stream_codec stream_lines = c # p # items @ [t] \<and> length items = 2 \<and>
    item_frames items \<and> names ''r1'' (ef_event_type t) t \<and> asr_status docs_response = ''completed''"
proof -
  obtain acc' where fin: "finish stream_codec stream_end = (acc', Inr docs_response)" using sample_finish by blast
  from strict_stream_in_order [OF sample_run_start _ _ fin] obtain c p items t where
    o: "stream_frames stream_codec stream_lines = c # p # items @ [t]" "item_frames items" "names ''r1'' (ef_event_type t) t"
    by (auto simp: USIZE_MAX_def docs_response_def)
  moreover have "length items = 2" using arg_cong [OF o(1), of length] by (simp add: sample_stream_frames)
  ultimately show ?thesis by (auto simp: docs_response_def)
qed

text \<open>C6. The output of a strict stream is the one its terminal event declares: when that event carries an \<open>output\<close> array,
  the assembled output has as many items, in the same order, each of the declared type, and the declared ids are
  distinct.\<close>

theorem strict_output_declared:
  assumes "process_lines codec lines (with_validation_and_budget rid conv Strict (Some b)) = (acc, Inr ())"
    and "rb_used b \<le> rb_limit b" "rb_limit b \<le> USIZE_MAX"
    and "finish codec acc = (acc', Inr response)"
    and "declared_output (last (stream_frames codec lines)) = Some declared"
  shows "list_all2 names_output declared (asr_output response) \<and> distinct (map output_item_id declared)"
proof -
  from strict_run_inv [OF assms(1-3)] have so_far: "strict_so_far acc (stream_frames codec lines)"
    and settled: "settled acc (stream_frames codec lines)" by (simp_all add: strict_inv_def)
  from so_far have "ac_validation acc = Strict" by (simp add: strict_so_far_def)
  from finish_strict [OF assms(4) this settled] settled assms(5) show ?thesis
    by (simp add: settled_def output_declared_def)
qed

theorem strict_output_declared_witness:
  "list_all2 names_output [docs_item] (asr_output docs_response)"
proof -
  obtain acc' where fin: "finish stream_codec stream_end = (acc', Inr docs_response)" using sample_finish by blast
  have "declared_output (last (stream_frames stream_codec stream_lines)) = Some [docs_item]"
    by (simp add: sample_stream_frames declared_output_def response_frame_def sample_wire_def)
  from strict_output_declared [OF sample_run_start _ _ fin this] show ?thesis by (simp add: USIZE_MAX_def)
qed

text \<open>C5. A steering cut that is granted closes a response between items: at least one item was observed, every slot
  holds a completed item, and each of these items reads and serializes like the snapshot of one of the completion
  events upstream sent, under either validation policy; nothing unfinished and nothing recovered from partial
  streaming is closed. The response is then incomplete for the reason \<open>steered\<close>.\<close>

theorem steering_cut_authoritative:
  assumes "process_lines codec lines (with_validation_and_budget rid conv v b) = (acc, Inr ())"
    and "finish_for_steering acc = (acc', Inr True)"
  shows "sm_slots (ac_slots acc') \<noteq> [] \<and> ac_status acc' = StIncomplete \<and>
    ac_incomplete_details acc' = Some \<lparr>icd_reason = Some ''steered''\<rparr> \<and>
    (\<forall>n s. get_slot (ac_slots acc') n = Some s \<longrightarrow>
       (\<exists>item. sl_state s = SlotDone item \<and> authoritative codec (map ef_payload (stream_frames codec lines)) item))"
proof -
  note cut = finish_for_steering_cut [OF assms(2)]
  then have b: "sm_slots (ac_slots acc) \<noteq> []" "\<not> has_active (ac_slots acc)" "\<not> sm_completion_uncertain (ac_slots acc)"
    by (auto simp: at_steering_boundary_def slots_at_boundary_def)
  from certain_run [OF assms(1)] b(3) boundary_done [OF b(2)] cut b(1) show ?thesis
    by (fastforce simp: certain_inv_def)
qed

theorem steering_cut_authoritative_witness:
  "\<exists>acc'. finish_for_steering (stream_state StreamInProgress 72 docs_done) = (acc', Inr True) \<and> ac_status acc' = StIncomplete \<and>
    authoritative stream_codec (map ef_payload (stream_frames stream_codec (take 4 stream_lines))) (OiMcpListTools docs_tools)"
proof -
  have "\<exists>acc'. finish_for_steering (stream_state StreamInProgress 72 docs_done) = (acc', Inr True)"
    by (simp add: finish_for_steering_def at_steering_boundary_def slots_at_boundary_def has_active_def slot_active_def
        stream_state_def stream_start_def docs_done_def docs_slot_def with_validation_and_budget_def check_stable_def
        ensure_stable_strict_call_ids_def changed_indexes_def no_observation_def attempt_def Let_def reconcile_def charge_def
        consume_eq saturating_sub_def saturating_add_def new_account_def retained_details_def opt_len_def
        RETAINED_CONTAINER_OVERHEAD_BYTES_def USIZE_MAX_def)
  then obtain acc' where cut: "finish_for_steering (stream_state StreamInProgress 72 docs_done) = (acc', Inr True)" by blast
  have "get_slot (ac_slots acc') 0 = Some (docs_slot (SlotDone (OiMcpListTools docs_tools)) 38)"
    using finish_for_steering_cut [OF cut] by (simp add: stream_state_def docs_done_def get_slot_def)
  with steering_cut_authoritative [OF sample_opening_run [unfolded stream_start_def] cut] cut show ?thesis
    by (fastforce simp: docs_slot_def)
qed

text \<open>C26. A JSON body that strict ingestion accepts is taken over completely: its status is terminal, every element of its
  \<open>output\<close> is decoded, none is dropped, their order is kept, and their ids are distinct.\<close>

theorem strict_json_complete:
  assumes "read_json codec body conv Strict = Inr acc"
  shows "\<exists>v items. parse_json (ic_events codec) body = Some v \<and> json_at v ''output'' = JArray items \<and>
    map (read_item codec) items = map Some (ac_output acc) \<and> distinct (map (\<lambda>i. json_str i ''id'') items) \<and>
    json_str v ''id'' = ac_response_id acc \<and> ac_status acc \<in> {StCompleted, StIncomplete, StError} \<and>
    ac_stream_lifecycle acc = StreamTerminal"
proof -
  from assms obtain v rid where p: "parse_json (ic_events codec) body = Some v" "json_str_opt v ''id'' = Some rid"
    and strict: "ensure_strict_response codec v = Inr ()"
    and acc: "ac_output acc = (case json_at v ''output'' of JArray items \<Rightarrow> List.map_filter (read_item codec) items | _ \<Rightarrow> [])"
      "ac_response_id acc = rid" "ac_status acc = (case json_str_opt v ''status'' of None \<Rightarrow> StCompleted | Some s \<Rightarrow> parse_status s)"
      "ac_stream_lifecycle acc = StreamTerminal"
    by (auto simp: read_json_def and_then_def with_validation_and_budget_def split: option.splits sum.splits)
  from strict obtain status items where v: "json_at v ''output'' = JArray items" "ensure_items codec 0 [] items = Inr ()"
    "json_str_opt v ''status'' = Some status" "status \<in> {''completed'', ''failed'', ''incomplete''}"
    by (auto simp: ensure_strict_response_def split: option.splits if_splits json.splits)
  note items = ensure_items_ok [OF v(2)]
  from items have "map (read_item codec) xs = map Some (List.map_filter (read_item codec) xs)" if "set xs \<subseteq> set items" for xs
    using that by (induction xs) (auto simp: List.map_filter_def)
  from this [of items] show ?thesis using p v acc items by (auto simp: json_str_def parse_status_def)
qed

definition json_body :: json where
  "json_body = JObject [(''id'', JString ''r1''), (''status'', JString ''completed''), (''output'', JArray [docs_item])]"

definition json_body_codec :: item_codec where
  "json_body_codec = stream_codec\<lparr>ic_events := (ic_events stream_codec)\<lparr>parse_json := map_of [(''{..}'', json_body)]\<rparr>\<rparr>"

lemma json_body_members:
  "json_at json_body ''output'' = JArray [docs_item]" "json_str_opt json_body ''id'' = Some ''r1''"
  "json_str_opt json_body ''status'' = Some ''completed''" "json_get json_body ''service_tier'' = None"
  by (simp_all add: json_body_def json_at_def json_str_opt_def)

lemma json_body_strict: "ensure_strict_response json_body_codec json_body = Inr ()"
proof -
  have "ensure_items json_body_codec 0 [] [docs_item] = Inr ()"
    by (simp add: json_body_codec_def stream_codec_def docs_item_def and_then_def body_str_def nonempty_str_def
        json_str_opt_def json_at_def ensure_supported_output_item_type_def parse_item_type_def item_types_def)
  then show ?thesis by (simp add: ensure_strict_response_def json_body_members)
qed

theorem strict_json_complete_witness:
  "\<exists>acc. read_json json_body_codec ''{..}'' None Strict = Inr acc \<and> ac_response_id acc = ''r1'' \<and> length (ac_output acc) = 1"
proof -
  have parsed: "parse_json (ic_events json_body_codec) ''{..}'' = Some json_body" by (simp add: json_body_codec_def)
  then obtain acc where acc: "read_json json_body_codec ''{..}'' None Strict = Inr acc"
    by (simp add: read_json_def json_body_strict json_body_members and_then_def)
  from strict_json_complete [OF acc] parsed obtain items where
    "json_at json_body ''output'' = JArray items" "map (read_item json_body_codec) items = map Some (ac_output acc)"
    "json_str json_body ''id'' = ac_response_id acc" by auto
  then have "ac_response_id acc = ''r1''" "length (ac_output acc) = 1"
    by (auto simp: json_body_members json_str_def dest: arg_cong [where f = length])
  then show ?thesis using acc by blast
qed

end
