(* ===== verification/Tool_Declarations.thy ===== *)
theory Tool_Declarations
  imports Model_Input
begin

text \<open>
  Declared tools (\<open>types/tools/params.rs\<close>, \<open>tool/declaration.rs\<close>, \<open>tool/normalize.rs\<close>) and the flat names of
  Codex namespace members (\<open>tool/codex.rs\<close>): the model only knows flat function names, so every
  member \<open>namespace.name\<close> gets one, and a call that carries it is read back as the member. The interface
  \<open>renaming\<close> states what both directions rely on.

  A \<open>HashMap\<close> is an association list with distinct keys; nothing reads its order. Strings are UTF-8
  bytes, so a number of characters is the number of bytes that do not continue one.
\<close>

section \<open>Declarations\<close>

datatype tool_type =
    TtFunction | TtToolSearch | TtCustom | TtShell | TtCodexNamespace | TtMcp | TtWebSearch | TtWebFetch
  | TtFileSearch | TtCodeInterpreter

fun description :: "tool_type \<Rightarrow> string" where
  "description TtFunction = ''function tool''"
| "description TtToolSearch = ''tool search''"
| "description TtCustom = ''custom tool''"
| "description TtShell = ''shell tool''"
| "description TtCodexNamespace = ''Codex namespace tool''"
| "description TtMcp = ''MCP tool''"
| "description TtWebSearch = ''web search tool''"
| "description TtWebFetch = ''web fetch tool''"
| "description TtFileSearch = ''file search tool''"
| "description TtCodeInterpreter = ''code interpreter tool''"

definition type_gateway_owned :: "tool_type \<Rightarrow> bool" where
  "type_gateway_owned t \<longleftrightarrow> t \<notin> {TtFunction, TtToolSearch, TtCustom, TtShell, TtCodexNamespace}"

definition function_is_async :: "function_tool_param \<Rightarrow> bool" where
  "function_is_async p = (case ftp_async_execution p of None \<Rightarrow> False | Some b \<Rightarrow> b)"

definition custom_is_async :: "custom_tool_param \<Rightarrow> bool" where
  "custom_is_async p = (case ctp_async_execution p of None \<Rightarrow> False | Some b \<Rightarrow> b)"

definition is_hosted :: "tool_search_tool_param \<Rightarrow> bool" where
  "is_hosted p \<longleftrightarrow> tsp_execution p = TsServer"

datatype tool_declaration =
    TdFunction function_tool_param
  | TdToolSearch tool_search_tool_param
  | TdMcp mcp_tool_param
  | TdWebSearch web_search_tool_param
  | TdWebFetch web_fetch_tool_param
  | TdFileSearch file_search_tool_param
  | TdCodeInterpreter code_interpreter_tool_param
  | TdShell shell_tool_param
  | TdNamespace codex_namespace_tool_param
  | TdCustom custom_tool_param
  | TdUnsupported

fun top_level_registry_key :: "tool_declaration \<Rightarrow> string option" where
  "top_level_registry_key (TdFunction p) = Some (ftp_name p)"
| "top_level_registry_key (TdWebSearch _) = Some ''web_search''"
| "top_level_registry_key (TdWebFetch _) = Some ''web_fetch''"
| "top_level_registry_key (TdFileSearch _) = Some ''file_search''"
| "top_level_registry_key (TdCodeInterpreter _) = Some ''code_interpreter''"
| "top_level_registry_key _ = None"

fun declared_function_name :: "tool_declaration \<Rightarrow> string option" where
  "declared_function_name (TdFunction p) = Some (ftp_name p)"
| "declared_function_name _ = None"

fun declared_tool_type :: "tool_declaration \<Rightarrow> tool_type option" where
  "declared_tool_type (TdFunction _) = Some TtFunction"
| "declared_tool_type (TdToolSearch _) = Some TtToolSearch"
| "declared_tool_type (TdMcp _) = Some TtMcp"
| "declared_tool_type (TdWebSearch _) = Some TtWebSearch"
| "declared_tool_type (TdWebFetch _) = Some TtWebFetch"
| "declared_tool_type (TdFileSearch _) = Some TtFileSearch"
| "declared_tool_type (TdCodeInterpreter _) = Some TtCodeInterpreter"
| "declared_tool_type (TdNamespace _) = Some TtCodexNamespace"
| "declared_tool_type (TdCustom _) = Some TtCustom"
| "declared_tool_type (TdShell _) = Some TtShell"
| "declared_tool_type TdUnsupported = None"

fun declares_unsupported_async :: "tool_declaration \<Rightarrow> bool" where
  "declares_unsupported_async (TdToolSearch p) \<longleftrightarrow> tsp_unsupported_async p \<noteq> None"
| "declares_unsupported_async (TdMcp p) \<longleftrightarrow> mtp_unsupported_async p \<noteq> None"
| "declares_unsupported_async (TdWebSearch p) \<longleftrightarrow> wsp_unsupported_async p \<noteq> None"
| "declares_unsupported_async (TdFileSearch p) \<longleftrightarrow> fsp_unsupported_async p \<noteq> None"
| "declares_unsupported_async (TdCodeInterpreter p) \<longleftrightarrow> cip_unsupported_async p \<noteq> None"
| "declares_unsupported_async (TdShell p) \<longleftrightarrow> stp_unsupported_async p \<noteq> None"
| "declares_unsupported_async (TdNamespace p) \<longleftrightarrow> cnp_unsupported_async p \<noteq> None"
| "declares_unsupported_async _ \<longleftrightarrow> False"

fun declared_gateway_owned :: "tool_declaration \<Rightarrow> bool" where
  "declared_gateway_owned (TdToolSearch p) = is_hosted p"
| "declared_gateway_owned d = (case declared_tool_type d of None \<Rightarrow> False | Some t \<Rightarrow> type_gateway_owned t)"

definition namespace_declares_async :: "codex_namespace_tool_param \<Rightarrow> bool" where
  "namespace_declares_async p \<longleftrightarrow>
     list_ex (\<lambda>m. case m of CnFunction f \<Rightarrow> function_is_async f | CnUnknown \<Rightarrow> False) (cnp_tools p)"

section \<open>Flat names of namespace members\<close>

definition MODEL_VISIBLE_NAMESPACE_MEMBER_PREFIX :: string where
  "MODEL_VISIBLE_NAMESPACE_MEMBER_PREFIX = ''agentic_ns__''"

definition MAX_MODEL_VISIBLE_TOOL_NAME_LEN :: nat where
  "MAX_MODEL_VISIBLE_TOOL_NAME_LEN = 64"

definition HASHED_NAMESPACE_MEMBER_SUFFIX_LEN :: nat where
  "HASHED_NAMESPACE_MEMBER_SUFFIX_LEN = 18"

definition starts_char :: "char \<Rightarrow> bool" where
  "starts_char c \<longleftrightarrow> \<not> continuation (of_char c)"

definition char_count :: "string \<Rightarrow> nat" where
  "char_count s = length (filter starts_char s)"

text \<open>The first \<open>n\<close> characters: their bytes, up to the byte that starts character \<open>n\<close>.\<close>

fun take_chars :: "nat \<Rightarrow> string \<Rightarrow> string" where
  "take_chars n [] = []"
| "take_chars n (c # cs) =
     (if starts_char c then (case n of 0 \<Rightarrow> [] | Suc m \<Rightarrow> c # take_chars m cs) else c # take_chars n cs)"

definition model_visible_namespace_member_name :: "string \<Rightarrow> string \<Rightarrow> string" where
  "model_visible_namespace_member_name namespace member =
     (let full_name = MODEL_VISIBLE_NAMESPACE_MEMBER_PREFIX @ namespace @ ''__'' @ member
      in if char_count full_name \<le> MAX_MODEL_VISIBLE_TOOL_NAME_LEN then full_name
         else take_chars (MAX_MODEL_VISIBLE_TOOL_NAME_LEN - HASHED_NAMESPACE_MEMBER_SUFFIX_LEN) full_name @
           ''__'' @ hex_digits 16 (unat (stable_name_hash full_name)))"

text \<open>A member is its namespace and its own name. \<open>calls\<close> maps a flat name to the member, \<open>members\<close> a
  member to its flat name.\<close>

type_synonym member_name = "string \<times> string"

record namespace_call_mapping =
  ncm_member :: member_name
  ncm_upstream_name :: string

record namespace_map =
  nm_calls :: "(string \<times> namespace_call_mapping) list"
  nm_members :: "(member_name \<times> string) list"

definition mapping_for_call :: "namespace_map \<Rightarrow> string \<Rightarrow> namespace_call_mapping option" where
  "mapping_for_call m name = map_of (nm_calls m) name"

definition public_member :: "namespace_map \<Rightarrow> string \<Rightarrow> member_name option" where
  "public_member m name = map_option ncm_member (mapping_for_call m name)"

definition mapping_for_member :: "namespace_map \<Rightarrow> string \<Rightarrow> string \<Rightarrow> namespace_call_mapping option" where
  "mapping_for_member m namespace name =
     (case map_of (nm_members m) (namespace, name) of
        None \<Rightarrow> None
      | Some upstream_name \<Rightarrow> map_of (nm_calls m) upstream_name)"

record namespace_map_builder =
  nb_top_level_registry_keys :: "(string \<times> tool_type) list"
  nb_map :: namespace_map

definition new_builder :: "(string \<times> tool_type) list \<Rightarrow> namespace_map_builder" where
  "new_builder keys = \<lparr>nb_top_level_registry_keys = keys, nb_map = \<lparr>nm_calls = [], nm_members = []\<rparr>\<rparr>"

definition record_flat_member_with_flat_name ::
    "string \<Rightarrow> string \<Rightarrow> string \<Rightarrow> namespace_map_builder \<Rightarrow> namespace_map_builder \<times> string" where
  "record_flat_member_with_flat_name namespace_name member_name flat_name b =
     (let member = (namespace_name, member_name);
          mapping = \<lparr>ncm_member = member, ncm_upstream_name = flat_name\<rparr>
      in (b\<lparr>nb_map := \<lparr>nm_calls = AList.update flat_name mapping (nm_calls (nb_map b)),
                        nm_members = AList.update member flat_name (nm_members (nb_map b))\<rparr>\<rparr>, flat_name))"

definition validate_and_record_flat_member ::
    "string \<Rightarrow> string \<Rightarrow> namespace_map_builder \<Rightarrow> tool_error + namespace_map_builder \<times> string" where
  "validate_and_record_flat_member namespace_name member_name b =
     (let flat_name = model_visible_namespace_member_name namespace_name member_name;
          member = ''codex namespace member '' @ namespace_name @ ''.'' @ member_name
      in case map_of (nb_top_level_registry_keys b) flat_name of
           Some tool_kind \<Rightarrow>
             Inl (TeConfig (member @ '' generates name '' @ flat_name @
               '', which collides with a declared '' @ description tool_kind))
         | None \<Rightarrow>
             (case map_of (nm_calls (nb_map b)) flat_name of
                Some existing \<Rightarrow>
                  if ncm_member existing \<noteq> (namespace_name, member_name) then
                    Inl (TeConfig (member @ '' collides with '' @ fst (ncm_member existing) @ ''.'' @
                      snd (ncm_member existing) @ '' at generated name '' @ flat_name))
                  else Inr (record_flat_member_with_flat_name namespace_name member_name flat_name b)
              | None \<Rightarrow> Inr (record_flat_member_with_flat_name namespace_name member_name flat_name b)))"

fun rename_members ::
    "string \<Rightarrow> codex_namespace_member list \<Rightarrow> namespace_map_builder \<Rightarrow>
      tool_error + namespace_map_builder \<times> codex_namespace_member list" where
  "rename_members namespace_name [] b = Inr (b, [])"
| "rename_members namespace_name (CnUnknown # members) b =
     (case rename_members namespace_name members b of
        Inl err \<Rightarrow> Inl err
      | Inr (b', renamed) \<Rightarrow> Inr (b', CnUnknown # renamed))"
| "rename_members namespace_name (CnFunction f # members) b =
     (case validate_and_record_flat_member namespace_name (ftp_name f) b of
        Inl err \<Rightarrow> Inl err
      | Inr (b', flat_name) \<Rightarrow>
          (case rename_members namespace_name members b' of
             Inl err \<Rightarrow> Inl err
           | Inr (b'', renamed) \<Rightarrow> Inr (b'', CnFunction (f\<lparr>ftp_name := flat_name\<rparr>) # renamed)))"

definition typed_function_member_names :: "codex_namespace_tool_param \<Rightarrow> string list" where
  "typed_function_member_names p =
     List.map_filter (\<lambda>m. case m of CnFunction f \<Rightarrow> Some (ftp_name f) | CnUnknown \<Rightarrow> None) (cnp_tools p)"

definition rename_namespace_members ::
    "codex_namespace_tool_param \<Rightarrow> namespace_map_builder \<Rightarrow>
      tool_error + namespace_map_builder \<times> codex_namespace_tool_param" where
  "rename_namespace_members namespace b =
     (if typed_function_member_names namespace = [] then Inr (b, namespace)
      else case rename_members (cnp_name namespace) (cnp_tools namespace) b of
        Inl err \<Rightarrow> Inl err
      | Inr (b', renamed) \<Rightarrow> Inr (b', namespace\<lparr>cnp_tools := renamed\<rparr>))"

text \<open>\<open>collect\<close> into a \<open>HashMap\<close>: a later declaration with the same key replaces the earlier one.\<close>

definition typed_top_level_registry_keys :: "tool_declaration list \<Rightarrow> (string \<times> tool_type) list" where
  "typed_top_level_registry_keys tools =
     fold (\<lambda>d keys. case (top_level_registry_key d, declared_tool_type d) of
         (Some key, Some t) \<Rightarrow> AList.update key t keys
       | _ \<Rightarrow> keys) tools []"

fun resolve_all :: "tool_declaration list \<Rightarrow> namespace_map_builder \<Rightarrow>
    tool_error + namespace_map_builder \<times> tool_declaration list" where
  "resolve_all [] b = Inr (b, [])"
| "resolve_all (d # ds) b =
     (case (case d of
              TdNamespace namespace \<Rightarrow> map_sum id (\<lambda>(b, n). (b, TdNamespace n)) (rename_namespace_members namespace b)
            | _ \<Rightarrow> Inr (b, d)) of
        Inl err \<Rightarrow> Inl err
      | Inr (b', d') \<Rightarrow>
          (case resolve_all ds b' of Inl err \<Rightarrow> Inl err | Inr (b'', ds') \<Rightarrow> Inr (b'', d' # ds')))"

definition resolve_namespace_members :: "tool_declaration list \<Rightarrow> tool_error + tool_declaration list" where
  "resolve_namespace_members tools = map_sum id snd (resolve_all tools (new_builder (typed_top_level_registry_keys tools)))"

text \<open>\<open>namespace_map_from_tools\<close> runs the same renames for their effect on the builder.\<close>

definition build_namespace_map :: "tool_declaration list option \<Rightarrow> tool_error + namespace_map option" where
  "build_namespace_map tools =
     (case tools of
        None \<Rightarrow> Inr None
      | Some ds \<Rightarrow>
          map_sum id (\<lambda>(b, _). Some (nb_map b)) (resolve_all ds (new_builder (typed_top_level_registry_keys ds))))"

definition validate_declared_names :: "tool_declaration list \<Rightarrow> tool_error + unit" where
  "validate_declared_names ds = map_sum id (\<lambda>_. ()) (build_namespace_map (Some ds))"

section \<open>Rewriting to flat names\<close>

definition rewrite_tool_choice_with_map :: "namespace_map \<Rightarrow> tool_choice \<Rightarrow> tool_choice" where
  "rewrite_tool_choice_with_map m choice =
     (case choice of
        TchFunction namespace name \<Rightarrow>
          (case (case namespace of
                   Some ns \<Rightarrow> mapping_for_member m ns name
                 | None \<Rightarrow> mapping_for_call m name) of
             None \<Rightarrow> choice
           | Some mapping \<Rightarrow>
               if ncm_upstream_name mapping = [] then choice else TchFunction None (ncm_upstream_name mapping))
      | _ \<Rightarrow> choice)"

definition resolve_tool_choice :: "namespace_map option \<Rightarrow> tool_choice option \<Rightarrow> tool_choice" where
  "resolve_tool_choice m choice =
     (let choice = (case choice of None \<Rightarrow> TchAuto | Some c \<Rightarrow> c)
      in case m of None \<Rightarrow> choice | Some m \<Rightarrow> rewrite_tool_choice_with_map m choice)"

definition names_itself :: "input_function_tool_call \<Rightarrow> bool" where
  "names_itself call \<longleftrightarrow> ifn_namespace call = Some (ifn_name call)"

definition is_searched_function_call :: "(string \<Rightarrow> bool) \<Rightarrow> input_function_tool_call \<Rightarrow> bool" where
  "is_searched_function_call is_function call \<longleftrightarrow> names_itself call \<and> is_function (ifn_name call)"

definition unqualify_or_flatten_call ::
    "namespace_map option \<Rightarrow> string set \<Rightarrow> input_function_tool_call \<Rightarrow> input_function_tool_call" where
  "unqualify_or_flatten_call m functions call =
     (case ifn_namespace call of
        None \<Rightarrow> call
      | Some namespace \<Rightarrow>
          (case (case m of None \<Rightarrow> None | Some m \<Rightarrow> mapping_for_member m namespace (ifn_name call)) of
             Some mapping \<Rightarrow> call\<lparr>ifn_name := ncm_upstream_name mapping, ifn_namespace := None\<rparr>
           | None \<Rightarrow>
               if is_searched_function_call (\<lambda>name. name \<in> functions) call then call\<lparr>ifn_namespace := None\<rparr> else call))"

definition unqualify_or_flatten_calls ::
    "namespace_map option \<Rightarrow> string set \<Rightarrow> input_item list \<Rightarrow> input_item list" where
  "unqualify_or_flatten_calls m functions items =
     map (\<lambda>item. case item of
         IiFunctionCall call \<Rightarrow> IiFunctionCall (unqualify_or_flatten_call m functions call)
       | _ \<Rightarrow> item) items"

definition resolves_call :: "namespace_map option \<Rightarrow> string set \<Rightarrow> input_function_tool_call \<Rightarrow> bool" where
  "resolves_call m functions call \<longleftrightarrow>
     (case (ifn_namespace call, m) of
        (Some namespace, Some m) \<Rightarrow> mapping_for_member m namespace (ifn_name call) \<noteq> None
      | _ \<Rightarrow> False) \<or>
     is_searched_function_call (\<lambda>name. name \<in> functions) call"

definition resolve_input :: "namespace_map option \<Rightarrow> string set \<Rightarrow> input_item list \<Rightarrow> input_item list" where
  "resolve_input m functions items =
     (if list_ex (\<lambda>item. case item of IiFunctionCall call \<Rightarrow> resolves_call m functions call | _ \<Rightarrow> False) items
      then unqualify_or_flatten_calls m functions items else items)"

section \<open>Reading a flat name back\<close>

text \<open>What a renaming promises to the two sides that use it: a name that was given out is read back as what it was
  given for, and only given names are read at all.\<close>

locale renaming =
  fixes ok :: "'s \<Rightarrow> bool"
    and encode :: "'s \<Rightarrow> 'm \<Rightarrow> 'n option"
    and decode :: "'s \<Rightarrow> 'n \<Rightarrow> 'm option"
  assumes decode_encode: "ok s \<Longrightarrow> encode s m = Some n \<Longrightarrow> decode s n = Some m"
    and encode_decode: "ok s \<Longrightarrow> decode s n = Some m \<Longrightarrow> encode s m = Some n"
begin

lemma encode_unique: "ok s \<Longrightarrow> encode s m = Some n \<Longrightarrow> encode s m' = Some n \<Longrightarrow> m = m'"
  using decode_encode [of s m n] decode_encode [of s m' n] by simp

lemma decode_iff: "ok s \<Longrightarrow> decode s n = Some m \<longleftrightarrow> encode s m = Some n"
  using decode_encode encode_decode by blast

end

definition flat_name_of :: "namespace_map \<Rightarrow> member_name \<Rightarrow> string option" where
  "flat_name_of m member = map_option ncm_upstream_name (mapping_for_member m (fst member) (snd member))"

definition namespace_map_ok :: "namespace_map \<Rightarrow> bool" where
  "namespace_map_ok m \<longleftrightarrow>
     (\<forall>flat mapping. map_of (nm_calls m) flat = Some mapping \<longrightarrow>
        ncm_upstream_name mapping = flat \<and> map_of (nm_members m) (ncm_member mapping) = Some flat) \<and>
     (\<forall>member flat. map_of (nm_members m) member = Some flat \<longrightarrow>
        flat = model_visible_namespace_member_name (fst member) (snd member) \<and>
        map_of (nm_calls m) flat = Some \<lparr>ncm_member = member, ncm_upstream_name = flat\<rparr>)"

lemma namespace_map_okD:
  assumes "namespace_map_ok m"
  shows "flat_name_of m member = map_of (nm_members m) member"
    and "public_member m flat = Some member \<longleftrightarrow> map_of (nm_members m) member = Some flat"
    and "map_of (nm_members m) member = Some flat \<Longrightarrow> flat = model_visible_namespace_member_name (fst member) (snd member)"
proof -
  have 1: "\<And>flat mapping. map_of (nm_calls m) flat = Some mapping \<Longrightarrow>
        ncm_upstream_name mapping = flat \<and> map_of (nm_members m) (ncm_member mapping) = Some flat"
    and 2: "\<And>member flat. map_of (nm_members m) member = Some flat \<Longrightarrow>
        flat = model_visible_namespace_member_name (fst member) (snd member) \<and>
        map_of (nm_calls m) flat = Some \<lparr>ncm_member = member, ncm_upstream_name = flat\<rparr>"
    using assms by (auto simp: namespace_map_ok_def)
  show "flat_name_of m member = map_of (nm_members m) member"
    by (cases "map_of (nm_members m) member") (auto simp: flat_name_of_def mapping_for_member_def dest: 2)
  show "public_member m flat = Some member \<longleftrightarrow> map_of (nm_members m) member = Some flat"
    by (auto simp: public_member_def mapping_for_call_def dest: 1 2)
  show "map_of (nm_members m) member = Some flat \<Longrightarrow> flat = model_visible_namespace_member_name (fst member) (snd member)"
    by (auto dest: 2)
qed

interpretation namespace: renaming namespace_map_ok flat_name_of public_member
  by unfold_locales (simp_all add: namespace_map_okD)

text \<open>Every rename keeps the map readable in both directions and never takes the key of a declared tool.\<close>

definition builder_ok :: "namespace_map_builder \<Rightarrow> bool" where
  "builder_ok b \<longleftrightarrow> namespace_map_ok (nb_map b) \<and>
     (\<forall>flat. map_of (nm_calls (nb_map b)) flat \<noteq> None \<longrightarrow> map_of (nb_top_level_registry_keys b) flat = None)"

definition members_kept :: "namespace_map_builder \<Rightarrow> namespace_map_builder \<Rightarrow> bool" where
  "members_kept b b' \<longleftrightarrow> nb_top_level_registry_keys b' = nb_top_level_registry_keys b \<and>
     map_of (nm_members (nb_map b)) \<subseteq>\<^sub>m map_of (nm_members (nb_map b'))"

lemma members_kept_refl [simp]: "members_kept b b"
  by (simp add: members_kept_def)

lemma members_kept_trans: "members_kept a b \<Longrightarrow> members_kept b c \<Longrightarrow> members_kept a c"
  by (auto simp: members_kept_def intro: map_le_trans)

lemma members_keptD:
  "members_kept b b' \<Longrightarrow> map_of (nm_members (nb_map b)) m = Some flat \<Longrightarrow> map_of (nm_members (nb_map b')) m = Some flat"
  unfolding members_kept_def map_le_def by (metis domI)

lemma builder_ok_new [simp]: "builder_ok (new_builder keys)"
  by (simp add: builder_ok_def new_builder_def namespace_map_ok_def)

lemma record_member_ok:
  assumes ok: "builder_ok b" and v: "validate_and_record_flat_member ns name b = Inr (b', flat)"
  shows "builder_ok b' \<and> members_kept b b' \<and> map_of (nm_members (nb_map b')) (ns, name) = Some flat"
proof -
  let ?flat = "model_visible_namespace_member_name ns name"
  from v have free: "map_of (nb_top_level_registry_keys b) ?flat = None"
    and old: "\<And>e. map_of (nm_calls (nb_map b)) ?flat = Some e \<Longrightarrow> ncm_member e = (ns, name)"
    and b': "(b', flat) = record_flat_member_with_flat_name ns name ?flat b"
    by (auto simp: validate_and_record_flat_member_def Let_def split: option.splits if_splits)
  from b' have flat: "flat = ?flat" and keys: "nb_top_level_registry_keys b' = nb_top_level_registry_keys b"
    and calls: "\<And>k. map_of (nm_calls (nb_map b')) k =
      (if k = ?flat then Some \<lparr>ncm_member = (ns, name), ncm_upstream_name = ?flat\<rparr> else map_of (nm_calls (nb_map b)) k)"
    and members: "\<And>k. map_of (nm_members (nb_map b')) k = (if k = (ns, name) then Some ?flat else map_of (nm_members (nb_map b)) k)"
    by (auto simp: record_flat_member_with_flat_name_def Let_def update_conv')
  have m1: "\<And>flat mapping. map_of (nm_calls (nb_map b)) flat = Some mapping \<Longrightarrow>
        ncm_upstream_name mapping = flat \<and> map_of (nm_members (nb_map b)) (ncm_member mapping) = Some flat"
    and m2: "\<And>member flat. map_of (nm_members (nb_map b)) member = Some flat \<Longrightarrow>
        flat = model_visible_namespace_member_name (fst member) (snd member) \<and>
        map_of (nm_calls (nb_map b)) flat = Some \<lparr>ncm_member = member, ncm_upstream_name = flat\<rparr>"
    using ok by (auto simp: builder_ok_def namespace_map_ok_def)
  have "namespace_map_ok (nb_map b')"
    unfolding namespace_map_ok_def
  proof (intro conjI allI impI)
    fix f mp assume "map_of (nm_calls (nb_map b')) f = Some mp"
    then show "ncm_upstream_name mp = f" and "map_of (nm_members (nb_map b')) (ncm_member mp) = Some f"
      using m1 [of f mp] m2 [of "(ns, name)" f] by (auto simp: calls members split: if_splits)
  next
    fix mem f assume a: "map_of (nm_members (nb_map b')) mem = Some f"
    show "f = model_visible_namespace_member_name (fst mem) (snd mem)"
      using a m2 [of mem f] by (auto simp: members split: if_splits)
    show "map_of (nm_calls (nb_map b')) f = Some \<lparr>ncm_member = mem, ncm_upstream_name = f\<rparr>"
      using a m2 [of mem f] old by (auto simp: members calls split: if_splits)
  qed
  moreover have "map_of (nm_members (nb_map b)) \<subseteq>\<^sub>m map_of (nm_members (nb_map b'))"
    unfolding map_le_def using m2 [of "(ns, name)"] by (auto simp: members)
  ultimately show ?thesis using ok free by (auto simp: builder_ok_def members_kept_def keys calls members flat)
qed

lemma rename_members_ok:
  "rename_members ns members b = Inr (b', renamed) \<Longrightarrow> builder_ok b \<Longrightarrow>
   builder_ok b' \<and> members_kept b b' \<and>
   (\<forall>f. CnFunction f \<in> set members \<longrightarrow> map_of (nm_members (nb_map b')) (ns, ftp_name f) \<noteq> None)"
proof (induction ns members b arbitrary: b' renamed rule: rename_members.induct)
  case (3 ns f members b)
  from "3.prems"(1) obtain b1 flat rest where v: "validate_and_record_flat_member ns (ftp_name f) b = Inr (b1, flat)"
    and r: "rename_members ns members b1 = Inr (b', rest)"
    by (auto split: sum.splits)
  note h = record_member_ok [OF "3.prems"(2) v]
  note ih = "3.IH" [OF v refl r] h
  then have kept: "members_kept b1 b'" by blast
  with h have "map_of (nm_members (nb_map b')) (ns, ftp_name f) = Some flat"
    using members_keptD [OF kept] by blast
  with ih kept show ?case by (auto intro: members_kept_trans)
qed (auto split: sum.splits)

definition declares_member :: "tool_declaration list \<Rightarrow> member_name \<Rightarrow> bool" where
  "declares_member ds member \<longleftrightarrow>
     (\<exists>p f. TdNamespace p \<in> set ds \<and> CnFunction f \<in> set (cnp_tools p) \<and> member = (cnp_name p, ftp_name f))"

lemma rename_namespace_members_ok:
  assumes "rename_namespace_members p b = Inr (b', p')" and "builder_ok b"
  shows "builder_ok b' \<and> members_kept b b' \<and>
    (\<forall>f. CnFunction f \<in> set (cnp_tools p) \<longrightarrow> map_of (nm_members (nb_map b')) (cnp_name p, ftp_name f) \<noteq> None)"
proof (cases "typed_function_member_names p = []")
  case True
  then have "CnFunction f \<notin> set (cnp_tools p)" for f
    by (induction "cnp_tools p" arbitrary: p)
      (force simp: typed_function_member_names_def List.map_filter_def filter_empty_conv)+
  with True assms show ?thesis by (auto simp: rename_namespace_members_def)
next
  case False
  with assms(1) obtain renamed where "rename_members (cnp_name p) (cnp_tools p) b = Inr (b', renamed)"
    by (auto simp: rename_namespace_members_def split: sum.splits)
  from rename_members_ok [OF this assms(2)] show ?thesis .
qed

lemma resolve_all_ok:
  "resolve_all ds b = Inr (b', ds') \<Longrightarrow> builder_ok b \<Longrightarrow>
   builder_ok b' \<and> members_kept b b' \<and> (\<forall>member. declares_member ds member \<longrightarrow> map_of (nm_members (nb_map b')) member \<noteq> None)"
proof (induction ds arbitrary: b ds')
  case (Cons d ds)
  from Cons.prems(1) obtain b1 d' rest where one:
    "(case d of TdNamespace n \<Rightarrow> map_sum id (\<lambda>(b, n). (b, TdNamespace n)) (rename_namespace_members n b) | _ \<Rightarrow> Inr (b, d)) =
      Inr (b1, d')"
    and r: "resolve_all ds b1 = Inr (b', rest)"
    by (auto split: sum.splits)
  have first: "builder_ok b1 \<and> members_kept b b1 \<and>
      (\<forall>p f. d = TdNamespace p \<longrightarrow> CnFunction f \<in> set (cnp_tools p) \<longrightarrow>
        map_of (nm_members (nb_map b1)) (cnp_name p, ftp_name f) \<noteq> None)"
  proof (cases d)
    case (TdNamespace n)
    with one obtain n' where "rename_namespace_members n b = Inr (b1, n')"
      by (cases "rename_namespace_members n b") auto
    from rename_namespace_members_ok [OF this Cons.prems(2)] TdNamespace show ?thesis by auto
  qed (use one Cons.prems in auto)
  have rest: "builder_ok b' \<and> members_kept b1 b' \<and>
      (\<forall>member. declares_member ds member \<longrightarrow> map_of (nm_members (nb_map b')) member \<noteq> None)"
    using Cons.IH [OF r] first by blast
  have "map_of (nm_members (nb_map b')) member \<noteq> None" if decl: "declares_member (d # ds) member" for member
  proof -
    from decl consider p f where "d = TdNamespace p" "CnFunction f \<in> set (cnp_tools p)" "member = (cnp_name p, ftp_name f)"
      | "declares_member ds member"
      unfolding declares_member_def by auto
    then show ?thesis
    proof cases
      case 1
      with first obtain flat where "map_of (nm_members (nb_map b1)) member = Some flat" by blast
      from rest have "members_kept b1 b'" by blast
      from members_keptD [OF this] \<open>map_of (nm_members (nb_map b1)) member = Some flat\<close> show ?thesis by simp
    qed (use rest in blast)
  qed
  with first rest show ?case by (blast intro: members_kept_trans)
qed (auto simp: declares_member_def)

lemma built_namespace_map:
  assumes "build_namespace_map (Some ds) = Inr (Some m)"
  shows "namespace_map_ok m"
    and "public_member m flat = Some member \<Longrightarrow> map_of (typed_top_level_registry_keys ds) flat = None"
    and "declares_member ds member \<Longrightarrow> flat_name_of m member \<noteq> None"
proof -
  let ?start = "new_builder (typed_top_level_registry_keys ds)"
  from assms obtain b ds' where r: "resolve_all ds ?start = Inr (b, ds')" and m: "m = nb_map b"
    by (cases "resolve_all ds ?start") (auto simp: build_namespace_map_def)
  from resolve_all_ok [OF r builder_ok_new] have ok: "builder_ok b" and kept: "members_kept ?start b"
    and all: "declares_member ds member \<Longrightarrow> map_of (nm_members (nb_map b)) member \<noteq> None"
    by blast+
  from ok m show "namespace_map_ok m" by (simp add: builder_ok_def)
  then show "declares_member ds member \<Longrightarrow> flat_name_of m member \<noteq> None"
    using all m by (simp add: namespace_map_okD)
  have "nb_top_level_registry_keys b = typed_top_level_registry_keys ds"
    using kept by (simp add: members_kept_def new_builder_def)
  then show "public_member m flat = Some member \<Longrightarrow> map_of (typed_top_level_registry_keys ds) flat = None"
    using ok m by (force simp: builder_ok_def public_member_def mapping_for_call_def)
qed

section \<open>Flat names are short\<close>

lemma char_count_append [simp]: "char_count (s @ t) = char_count s + char_count t"
  by (simp add: char_count_def)

lemma char_count_le: "char_count s \<le> length s"
  by (simp add: char_count_def)

lemma char_count_take_chars: "char_count (take_chars n s) \<le> n"
  by (induction n s rule: take_chars.induct) (auto simp: char_count_def split: nat.splits)

lemma flat_name_short:
  "char_count (model_visible_namespace_member_name ns name) \<le> MAX_MODEL_VISIBLE_TOOL_NAME_LEN"
proof -
  let ?full = "MODEL_VISIBLE_NAMESPACE_MEMBER_PREFIX @ ns @ ''__'' @ name"
  have "char_count (take_chars 46 ?full) \<le> 46" by (rule char_count_take_chars)
  moreover have "char_count ''__'' \<le> 2" using char_count_le [of "''__''"] by simp
  moreover have "char_count (hex_digits 16 (unat (stable_name_hash ?full))) \<le> 16"
    using char_count_le [of "hex_digits 16 (unat (stable_name_hash ?full))"] by simp
  ultimately have "char_count (take_chars 46 ?full @ ''__'' @ hex_digits 16 (unat (stable_name_hash ?full))) \<le> 64"
    unfolding char_count_append by linarith
  then show ?thesis
    by (simp only: model_visible_namespace_member_name_def Let_def MAX_MODEL_VISIBLE_TOOL_NAME_LEN_def
        HASHED_NAMESPACE_MEMBER_SUFFIX_LEN_def) (simp del: char_count_append)
qed

section \<open>Restoring the public call\<close>

definition restore_function_call_with_map :: "namespace_map \<Rightarrow> function_tool_call \<Rightarrow> function_tool_call" where
  "restore_function_call_with_map m call =
     (if ftc_namespace call \<noteq> None then call
      else case public_member m (ftc_name call) of
        None \<Rightarrow> call
      | Some (namespace, name) \<Rightarrow> call\<lparr>ftc_namespace := Some namespace, ftc_name := name\<rparr>)"

definition restore_namespace_items :: "namespace_map option \<Rightarrow> output_item list \<Rightarrow> output_item list" where
  "restore_namespace_items m output =
     (case m of
        None \<Rightarrow> output
      | Some m \<Rightarrow> map (\<lambda>item. case item of
            OiFunctionCall call \<Rightarrow> OiFunctionCall (restore_function_call_with_map m call)
          | _ \<Rightarrow> item) output)"


definition plain_function :: "string \<Rightarrow> function_tool_param" where
  "plain_function name =
     \<lparr>ftp_name = name, ftp_description = None, ftp_parameters = None, ftp_strict = None, ftp_defer_loading = None,
      ftp_async_execution = None, ftp_extra = []\<rparr>"

definition sample_namespace :: codex_namespace_tool_param where
  "sample_namespace =
     \<lparr>cnp_name = ''git'', cnp_description = None, cnp_tools = [CnFunction (plain_function ''run'')],
      cnp_unsupported_async = None, cnp_extra = []\<rparr>"

definition sample_declarations :: "tool_declaration list" where
  "sample_declarations = [TdFunction (plain_function ''run''), TdNamespace sample_namespace]"

lemma sample_namespace_map:
  "build_namespace_map (Some sample_declarations) = Inr (Some
     \<lparr>nm_calls = [(''agentic_ns__git__run'', \<lparr>ncm_member = (''git'', ''run''), ncm_upstream_name = ''agentic_ns__git__run''\<rparr>)],
      nm_members = [((''git'', ''run''), ''agentic_ns__git__run'')]\<rparr>)"
  by code_simp


end
