(* ===== verification/Tool_Registry.thy ===== *)
theory Tool_Registry
  imports Tool_Declarations Response_Budget Frame_Validation
begin

text \<open>
  The request's tool registry (\<open>tool/registry.rs\<close>, \<open>tool/registry/hosted_search.rs\<close>, \<open>tool/ownership.rs\<close>,
  \<open>tool/handler.rs\<close>, and the entries that \<open>tool/function.rs\<close>, \<open>tool/codex.rs\<close>, \<open>tool/custom.rs\<close>, \<open>tool/shell.rs\<close>,
  \<open>tool/mcp/registry.rs\<close>, \<open>tool/web_search\<close> and \<open>tool/web_fetch\<close> insert): which tool the name of a model call routes
  to, and whether the gateway or the client runs it.

  \<^item> A \<open>GatewayBinding\<close> holds a trait object: a record of the functions the trait promises. The answer of an
    executor is not part of it, because it comes from outside; the operations that run a tool take it as an
    argument.
  \<^item> The executors of one deployment, MCP discovery among them, are the parameter \<open>gateway_executors\<close>; the
    serialized sizes are the parameter \<open>discovery_sizes\<close>, and the random ids of failed listings the parameter
    \<open>fresh_id\<close>.
  \<^item> Of the request's tool catalog the registry's own checks read the withheld names only.
\<close>

section \<open>Handlers\<close>

definition MAX_GATEWAY_TOOL_OUTPUT_BYTES :: nat where
  "MAX_GATEWAY_TOOL_OUTPUT_BYTES = 1024 * 1024"

datatype tool_output_status = ToSuccess | ToFailure

record tool_output =
  tou_call_id :: string
  tou_output :: string
  tou_status :: tool_output_status

definition tool_success :: "string \<Rightarrow> string \<Rightarrow> tool_output" where
  "tool_success call_id out = \<lparr>tou_call_id = call_id, tou_output = out, tou_status = ToSuccess\<rparr>"

definition tool_failure :: "string \<Rightarrow> string \<Rightarrow> tool_output" where
  "tool_failure call_id out = \<lparr>tou_call_id = call_id, tou_output = out, tou_status = ToFailure\<rparr>"

definition is_failure :: "tool_output \<Rightarrow> bool" where
  "is_failure out \<longleftrightarrow> tou_status out = ToFailure"

fun tool_error_text :: "tool_error \<Rightarrow> string" where
  "tool_error_text (TeExecution m) = ''execution failed: '' @ m"
| "tool_error_text (TeConfig m) = ''invalid tool config: '' @ m"
| "tool_error_text TeInvalidUpstreamToolSearch = ''upstream returned an invalid tool-search call''"
| "tool_error_text TeUpstreamWithheldFunctionCall =
     ''upstream returned a call for a function that has not been loaded''"
| "tool_error_text (TeMissingOutput c) = ''No tool output found for function call '' @ c @ ''.''"
| "tool_error_text (TeUnknownCallOutput c) =
     ''No tool call found for function call output with call_id '' @ c @ ''.''"
| "tool_error_text (TeUnknownParameter p) = ''Unknown parameter: '' @ [CHR 0x27] @ p @ [CHR 0x27] @ ''.''"

datatype planned_result = SearchPair tool_search_call input_tool_search_call tool_search_output_message

definition search_pair :: "tool_search_call \<Rightarrow> tool_search_output_message \<Rightarrow> planned_result" where
  "search_pair call out =
     SearchPair (call\<lparr>tsc_status := TsCompleted\<rparr>)
       \<lparr>its_agent = tsc_agent call, its_id = tsc_id call, its_call_id = tsc_call_id call,
        its_execution = tsc_execution call, its_arguments = tsc_arguments call, its_status = TsCompleted\<rparr>
       out"

fun completed_output :: "planned_result \<Rightarrow> output_item" where
  "completed_output (SearchPair call _ _) = OiToolSearchCall call"

fun follow_up_output :: "planned_result \<Rightarrow> output_item" where
  "follow_up_output (SearchPair _ _ out) = OiToolSearchOutput out"

fun planned_input_items :: "planned_result \<Rightarrow> input_item list" where
  "planned_input_items (SearchPair _ history_call out) = [IiToolSearchCall history_call, IiToolSearchOutput out]"

fun model_output_len :: "json_text \<Rightarrow> planned_result \<Rightarrow> nat" where
  "model_output_len ser (SearchPair _ _ out) = length (hosted_search_output_text ser (tso_tools out))"

record gateway_tool_event_plan =
  gtp_started_output :: "output_item option"
  gtp_planned_result :: "planned_result option"

datatype gateway_call_status = GcInProgress | GcCompleted | GcFailed

record gateway_binding =
  gb_plan_gateway_events :: "function_tool_call \<Rightarrow> gateway_tool_event_plan"
  gb_public_output :: "function_tool_call \<Rightarrow> tool_output \<Rightarrow> gateway_call_status \<Rightarrow> output_item option"
  gb_self_exclusion :: bool

datatype tool_ownership = OwClient | OwGateway "gateway_binding option"

fun ownership_is_gateway :: "tool_ownership \<Rightarrow> bool" where
  "ownership_is_gateway (OwGateway _) = True"
| "ownership_is_gateway OwClient = False"

section \<open>Entries\<close>

record tool_entry =
  ten_tool_type :: tool_type
  ten_server_label :: "string option"
  ten_ownership :: tool_ownership
  ten_async_execution :: bool

definition client_entry :: "tool_type \<Rightarrow> string option \<Rightarrow> tool_entry" where
  "client_entry t label =
     \<lparr>ten_tool_type = t, ten_server_label = label, ten_ownership = OwClient, ten_async_execution = False\<rparr>"

definition gateway_entry :: "tool_type \<Rightarrow> string option \<Rightarrow> gateway_binding option \<Rightarrow> tool_entry" where
  "gateway_entry t label binding =
     \<lparr>ten_tool_type = t, ten_server_label = label, ten_ownership = OwGateway binding, ten_async_execution = False\<rparr>"

definition with_async_execution :: "bool \<Rightarrow> tool_entry \<Rightarrow> tool_entry" where
  "with_async_execution b entry = entry\<lparr>ten_async_execution := b\<rparr>"

definition tool_search_entry :: "tool_ownership \<Rightarrow> tool_entry" where
  "tool_search_entry ownership =
     \<lparr>ten_tool_type = TtToolSearch, ten_server_label = None, ten_ownership = ownership, ten_async_execution = False\<rparr>"

definition hosted_tool_search_entry :: "gateway_binding \<Rightarrow> tool_entry" where
  "hosted_tool_search_entry binding = tool_search_entry (OwGateway (Some binding))"

type_synonym tool_entries = "(string \<times> tool_entry) list"

definition insert_function_entry :: "function_tool_param \<Rightarrow> tool_entries \<Rightarrow> tool_entries" where
  "insert_function_entry p entries =
     AList.update (ftp_name p) (with_async_execution (function_is_async p) (client_entry TtFunction None)) entries"

definition insert_custom_entry :: "custom_tool_param \<Rightarrow> tool_entries \<Rightarrow> tool_entries" where
  "insert_custom_entry p entries =
     AList.update (ctp_name p) (with_async_execution (custom_is_async p) (client_entry TtCustom None)) entries"

definition insert_shell_entry :: "tool_entries \<Rightarrow> tool_entries" where
  "insert_shell_entry entries = AList.update ''shell'' (client_entry TtShell None) entries"

definition insert_namespace_entries :: "codex_namespace_tool_param \<Rightarrow> tool_entries \<Rightarrow> tool_entries" where
  "insert_namespace_entries p entries =
     fold (\<lambda>member entries. case member of
         CnFunction f \<Rightarrow>
           AList.update (ftp_name f)
             (with_async_execution (function_is_async f) (client_entry TtCodexNamespace (Some (cnp_name p)))) entries
       | CnUnknown \<Rightarrow> entries) (cnp_tools p) entries"

definition insert_tool_search_entry :: "gateway_binding \<Rightarrow> tool_search_tool_param \<Rightarrow> tool_entries \<Rightarrow> tool_entries" where
  "insert_tool_search_entry hosted p entries =
     AList.update ''tool_search''
       (if is_hosted p then hosted_tool_search_entry hosted else tool_search_entry OwClient) entries"

type_synonym discovered_handler = "mcp_discovered_tool_param \<times> gateway_binding"

definition insert_discovered_mcp_entry :: "discovered_handler \<Rightarrow> tool_entries \<Rightarrow> tool_entries" where
  "insert_discovered_mcp_entry discovered entries =
     (case discovered of (param, handler) \<Rightarrow>
        AList.update (mdt_internal_name param) (gateway_entry TtMcp (Some (mdt_server_label param)) (Some handler)) entries)"

definition insert_web_search_entry :: "gateway_binding \<Rightarrow> tool_entries \<Rightarrow> tool_entries" where
  "insert_web_search_entry binding entries =
     AList.update ''web_search'' (gateway_entry TtWebSearch None (Some binding)) entries"

definition insert_web_fetch_entry :: "gateway_binding \<Rightarrow> tool_entries \<Rightarrow> tool_entries" where
  "insert_web_fetch_entry binding entries =
     AList.update ''web_fetch'' (gateway_entry TtWebFetch None (Some binding)) entries"

definition insert_file_search_entry :: "tool_entries \<Rightarrow> tool_entries" where
  "insert_file_search_entry entries = AList.update ''file_search'' (gateway_entry TtFileSearch None None) entries"

text \<open>Every declaration's entries are resolved apart and moved one after another; the first name that is taken is
  refused.\<close>

fun move_entries :: "tool_entries \<Rightarrow> tool_entries \<Rightarrow> tool_error + tool_entries" where
  "move_entries [] entries = Inr entries"
| "move_entries ((name, entry) # resolved) entries =
     (case map_of entries name of
        Some existing \<Rightarrow>
          Inl (TeConfig (description (ten_tool_type entry) @ '' registry name '' @ [CHR 0x27] @ name @ [CHR 0x27] @
            '' conflicts with existing '' @ description (ten_tool_type existing)))
      | None \<Rightarrow> move_entries resolved (AList.update name entry entries))"

definition insert_unique_tool_entries ::
    "(tool_entries \<Rightarrow> tool_entries) \<Rightarrow> tool_entries \<Rightarrow> tool_error + tool_entries" where
  "insert_unique_tool_entries fill entries = move_entries (fill []) entries"

section \<open>Checks before registration\<close>

definition MAX_MCP_SERVERS_PER_REQUEST :: nat where "MAX_MCP_SERVERS_PER_REQUEST = 64"
definition MAX_DISCOVERED_MCP_TOOLS_PER_REQUEST :: nat where "MAX_DISCOVERED_MCP_TOOLS_PER_REQUEST = 128"
definition MAX_MCP_DISCOVERY_BYTES :: nat where "MAX_MCP_DISCOVERY_BYTES = 1024 * 1024"

fun declared_mcp :: "tool_declaration \<Rightarrow> mcp_tool_param option" where
  "declared_mcp (TdMcp p) = Some p"
| "declared_mcp _ = None"

fun first_duplicate :: "string list \<Rightarrow> string list \<Rightarrow> string option" where
  "first_duplicate seen [] = None"
| "first_duplicate seen (x # xs) = (if x \<in> set seen then Some x else first_duplicate (x # seen) xs)"

definition validate_server_labels :: "tool_declaration list \<Rightarrow> tool_error + unit" where
  "validate_server_labels tools =
     (case first_duplicate [] (map mtp_server_label (List.map_filter declared_mcp tools)) of
        Some label \<Rightarrow>
          Inl (TeConfig (''duplicate MCP declarations are not allowed for server_label '' @ [CHR 0x27] @ label @ [CHR 0x27]))
      | None \<Rightarrow> Inr ())"

definition validate_mcp_server_count :: "tool_declaration list \<Rightarrow> tool_error + unit" where
  "validate_mcp_server_count tools =
     (let n = length (List.map_filter declared_mcp tools)
      in if n > MAX_MCP_SERVERS_PER_REQUEST then
           Inl (TeConfig (''request declared '' @ decimal n @ '' MCP servers; at most '' @
             decimal MAX_MCP_SERVERS_PER_REQUEST @ '' MCP server declarations are allowed''))
         else Inr ())"

fun is_code_interpreter :: "tool_declaration \<Rightarrow> bool" where
  "is_code_interpreter (TdCodeInterpreter _) = True"
| "is_code_interpreter _ = False"

fun takes_code_interpreter_name :: "tool_declaration \<Rightarrow> bool" where
  "takes_code_interpreter_name (TdFunction p) \<longleftrightarrow> ftp_name p = ''code_interpreter''"
| "takes_code_interpreter_name (TdCustom p) \<longleftrightarrow> ctp_name p = ''code_interpreter''"
| "takes_code_interpreter_name _ \<longleftrightarrow> False"

definition validate_code_interpreters :: "tool_declaration list \<Rightarrow> tool_error + unit" where
  "validate_code_interpreters tools =
     (let n = length (filter is_code_interpreter tools)
      in if n > 1 then Inl (TeConfig ''code_interpreter may be declared only once'')
         else if n = 0 then Inr ()
         else if list_ex takes_code_interpreter_name tools then
           Inl (TeConfig (''fixed model-visible tool name '' @ [CHR 0x27] @ ''code_interpreter'' @ [CHR 0x27] @
             '' conflicts with another declaration''))
         else Inr ())"

definition resolve_declarations :: "tool_declaration list \<Rightarrow> tool_error + tool_declaration list" where
  "resolve_declarations tools =
     and_then (validate_declared_names tools) (\<lambda>_.
     and_then (resolve_namespace_members tools) (\<lambda>resolved.
     and_then (validate_server_labels resolved) (\<lambda>_.
     and_then (validate_mcp_server_count resolved) (\<lambda>_.
     and_then (validate_code_interpreters resolved) (\<lambda>_. Inr resolved)))))"

section \<open>Building the registry\<close>

record gateway_executors =
  ge_web_search :: "web_search_tool_param \<Rightarrow> gateway_binding"
  ge_web_fetch :: "(web_fetch_tool_param \<Rightarrow> gateway_binding) option"
  ge_code_interpreter :: "(code_interpreter_tool_param \<Rightarrow> gateway_binding) option"
  ge_hosted_search :: gateway_binding
  ge_mcp_server_tools ::
    "mcp_tool_param \<Rightarrow> mcp_list_tools option \<Rightarrow> tool_error + discovered_handler list \<times> mcp_list_tools"

record discovery_sizes =
  dz_param :: "mcp_discovered_tool_param \<Rightarrow> nat option"
  dz_listing :: "mcp_list_tools \<Rightarrow> nat option"

text \<open>Metadata is charged before it is registered. The charge is a callback: the executor charges the response's
  budget, other callers a budget of their own. Its errors embed the tool errors.\<close>

record ('b, 'e) registry_caller =
  rc_consume :: "'b \<Rightarrow> nat \<Rightarrow> 'b \<times> ('e + unit)"
  rc_from_tool :: "tool_error \<Rightarrow> 'e"

definition consume_serialized ::
    "('b, 'e) registry_caller \<Rightarrow> nat option \<Rightarrow> 'b \<Rightarrow> 'b \<times> ('e + unit)" where
  "consume_serialized caller measured b =
     (case measured of
        None \<Rightarrow> (b, Inl (rc_from_tool caller (TeExecution ''failed to account for MCP discovery metadata'')))
      | Some n \<Rightarrow> rc_consume caller b n)"

fun consume_sizes :: "('b, 'e) registry_caller \<Rightarrow> nat option list \<Rightarrow> 'b \<Rightarrow> 'b \<times> ('e + unit)" where
  "consume_sizes caller [] b = (b, Inr ())"
| "consume_sizes caller (measured # sizes) b =
     (case consume_serialized caller measured b of
        (b', Inl err) \<Rightarrow> (b', Inl err)
      | (b', Inr _) \<Rightarrow> consume_sizes caller sizes b')"

definition failed_list_tools_item :: "string \<Rightarrow> string \<Rightarrow> tool_error \<Rightarrow> mcp_list_tools" where
  "failed_list_tools_item iid server_label err =
     \<lparr>mls_agent = None, mls_id = iid, mls_server_label = server_label, mls_tools = [], mls_error = Some (tool_error_text err)\<rparr>"

text \<open>\<open>entry(label).or_default().push(item)\<close>.\<close>

definition push_listing :: "string \<Rightarrow> mcp_list_tools \<Rightarrow> (string, mcp_list_tools list) index_map \<Rightarrow>
    (string, mcp_list_tools list) index_map" where
  "push_listing label item m =
     AList.update label ((case map_of m label of None \<Rightarrow> [] | Some items \<Rightarrow> items) @ [item]) m"

record registry_build =
  bd_entries :: tool_entries
  bd_listings :: "(string, mcp_list_tools list) index_map"
  bd_discovered :: nat
  bd_tools :: "tool_declaration list"

fun insert_discovered :: "discovered_handler list \<Rightarrow> tool_entries \<Rightarrow> tool_error + tool_entries" where
  "insert_discovered [] entries = Inr entries"
| "insert_discovered (d # ds) entries =
     (case insert_unique_tool_entries (insert_discovered_mcp_entry d) entries of
        Inl err \<Rightarrow> Inl err
      | Inr entries' \<Rightarrow> insert_discovered ds entries')"

definition record_discovered :: "mcp_discovered_tool_param list \<Rightarrow> tool_declaration \<Rightarrow> tool_declaration" where
  "record_discovered params d = (case d of TdMcp p \<Rightarrow> TdMcp (p\<lparr>mtp_discovered_tools := params\<rparr>) | _ \<Rightarrow> d)"

fun is_config_error :: "tool_error \<Rightarrow> bool" where
  "is_config_error (TeConfig _) = True"
| "is_config_error _ = False"

definition register_mcp ::
    "('b, 'e) registry_caller \<Rightarrow> gateway_executors \<Rightarrow> discovery_sizes \<Rightarrow> (mcp_tool_param \<Rightarrow> mcp_list_tools option) \<Rightarrow>
      string \<Rightarrow> nat \<Rightarrow> mcp_tool_param \<Rightarrow> registry_build \<times> 'b \<Rightarrow> (registry_build \<times> 'b) \<times> ('e + unit)" where
  "register_mcp caller ex sizes reusable fresh_id n p st =
     (case st of (bd, b) \<Rightarrow>
      (case ge_mcp_server_tools ex p (reusable p) of
         Inl err \<Rightarrow>
           if is_config_error err then (st, Inl (rc_from_tool caller err))
           else
             let item = failed_list_tools_item fresh_id (mtp_server_label p) err in
             (case consume_serialized caller (dz_listing sizes item) b of
                (b', Inl e) \<Rightarrow> ((bd, b'), Inl e)
              | (b', Inr _) \<Rightarrow>
                  ((bd\<lparr>bd_listings := push_listing (mtp_server_label p) item (bd_listings bd)\<rparr>, b'), Inr ()))
       | Inr (handlers, listing) \<Rightarrow>
           (case checked_add (bd_discovered bd) (length handlers) of
              None \<Rightarrow> (st, Inl (rc_from_tool caller
                (TeExecution ''discovered MCP tool count overflowed the platform limit'')))
            | Some count \<Rightarrow>
                let bd = bd\<lparr>bd_discovered := count\<rparr> in
                if count > MAX_DISCOVERED_MCP_TOOLS_PER_REQUEST then
                  ((bd, b), Inl (rc_from_tool caller (TeExecution (''request discovered '' @ decimal count @
                     '' MCP tools; at most '' @ decimal MAX_DISCOVERED_MCP_TOOLS_PER_REQUEST @
                     '' discovered MCP tools are allowed''))))
                else
                  (case consume_sizes caller (map (dz_param sizes \<circ> fst) handlers @ [dz_listing sizes listing]) b of
                     (b', Inl e) \<Rightarrow> ((bd, b'), Inl e)
                   | (b', Inr _) \<Rightarrow>
                       let bd = bd\<lparr>bd_listings := push_listing (mtp_server_label p) listing (bd_listings bd),
                                  bd_tools := (if n < length (bd_tools bd)
                                    then (bd_tools bd)[n := record_discovered (map fst handlers) (bd_tools bd ! n)]
                                    else bd_tools bd)\<rparr> in
                       (case insert_discovered handlers (bd_entries bd) of
                          Inl err \<Rightarrow> ((bd, b'), Inl (rc_from_tool caller err))
                        | Inr entries \<Rightarrow> ((bd\<lparr>bd_entries := entries\<rparr>, b'), Inr ()))))))"

definition code_interpreter_unavailable :: tool_error where
  "code_interpreter_unavailable =
     TeConfig ''code_interpreter is disabled by operator configuration or its embedded runtime is not ready''"

definition web_fetch_unavailable :: tool_error where
  "web_fetch_unavailable = TeConfig ''web_fetch is disabled by operator configuration''"

text \<open>The entries of the declarations that need no discovery.\<close>

fun local_entries :: "gateway_executors \<Rightarrow> tool_declaration \<Rightarrow> tool_error + tool_entries" where
  "local_entries ex (TdFunction p) = Inr (insert_function_entry p [])"
| "local_entries ex (TdToolSearch p) = Inr (insert_tool_search_entry (ge_hosted_search ex) p [])"
| "local_entries ex (TdWebSearch p) = Inr (insert_web_search_entry (ge_web_search ex p) [])"
| "local_entries ex (TdWebFetch p) =
     (case ge_web_fetch ex of
        None \<Rightarrow> Inl web_fetch_unavailable
      | Some bind \<Rightarrow> Inr (insert_web_fetch_entry (bind p) []))"
| "local_entries ex (TdFileSearch p) = Inr (insert_file_search_entry [])"
| "local_entries ex (TdCodeInterpreter p) =
     (case ge_code_interpreter ex of
        None \<Rightarrow> Inl code_interpreter_unavailable
      | Some bind \<Rightarrow> Inr [(''code_interpreter'', gateway_entry TtCodeInterpreter None (Some (bind p)))])"
| "local_entries ex (TdShell p) = Inr (insert_shell_entry [])"
| "local_entries ex (TdNamespace p) = Inr (insert_namespace_entries p [])"
| "local_entries ex (TdCustom p) = Inr (insert_custom_entry p [])"
| "local_entries ex (TdMcp p) = Inr []"
| "local_entries ex TdUnsupported = Inr []"

definition register_local :: "gateway_executors \<Rightarrow> tool_declaration \<Rightarrow> tool_entries \<Rightarrow> tool_error + tool_entries" where
  "register_local ex d entries =
     and_then (local_entries ex d) (\<lambda>resolved. insert_unique_tool_entries (\<lambda>_. resolved) entries)"

fun register_declarations ::
    "('b, 'e) registry_caller \<Rightarrow> gateway_executors \<Rightarrow> discovery_sizes \<Rightarrow> (mcp_tool_param \<Rightarrow> mcp_list_tools option) \<Rightarrow>
      (nat \<Rightarrow> string) \<Rightarrow> nat \<Rightarrow> tool_declaration list \<Rightarrow> registry_build \<times> 'b \<Rightarrow> (registry_build \<times> 'b) \<times> ('e + unit)" where
  "register_declarations caller ex sizes reusable fresh_id n [] st = (st, Inr ())"
| "register_declarations caller ex sizes reusable fresh_id n (d # ds) st =
     (case (case declared_mcp d of
              Some p \<Rightarrow> register_mcp caller ex sizes reusable (fresh_id n) n p st
            | None \<Rightarrow>
                (case register_local ex d (bd_entries (fst st)) of
                   Inl err \<Rightarrow> (st, Inl (rc_from_tool caller err))
                 | Inr entries \<Rightarrow> (((fst st)\<lparr>bd_entries := entries\<rparr>, snd st), Inr ()))) of
        (st', Inl err) \<Rightarrow> (st', Inl err)
      | (st', Inr _) \<Rightarrow> register_declarations caller ex sizes reusable fresh_id (Suc n) ds st')"

type_synonym custom_tool_map = "(string \<times> custom_tool_param) list"

definition build_tool_map :: "tool_declaration list \<Rightarrow> custom_tool_map option" where
  "build_tool_map tools =
     (let declarations = fold (\<lambda>d m. case d of TdCustom p \<Rightarrow> AList.update (ctp_name p) p m | _ \<Rightarrow> m) tools []
      in if declarations = [] then None else Some declarations)"

text \<open>The tool search the registry owns: the withheld names of its catalog, the synthetic declaration, and who runs it.\<close>

record registry_tool_search =
  rts_withheld_function_names :: "string list"
  rts_synthetic :: "tool_search_tool_param option"
  rts_hosted :: bool
  rts_deferred_mcp :: "string list"

record tool_registry =
  trg_entries :: tool_entries
  trg_namespace_map :: "namespace_map option"
  trg_custom_tool_map :: "custom_tool_map option"
  trg_mcp_list_tools_items :: "(string, mcp_list_tools list) index_map"
  trg_tool_search :: "registry_tool_search option"

definition empty_registry :: tool_registry where
  "empty_registry =
     \<lparr>trg_entries = [], trg_namespace_map = None, trg_custom_tool_map = None, trg_mcp_list_tools_items = [],
      trg_tool_search = None\<rparr>"

definition build_with_handlers_guarded ::
    "('b, 'e) registry_caller \<Rightarrow> gateway_executors \<Rightarrow> discovery_sizes \<Rightarrow> (mcp_tool_param \<Rightarrow> mcp_list_tools option) \<Rightarrow>
      (nat \<Rightarrow> string) \<Rightarrow> tool_declaration list \<Rightarrow> 'b \<Rightarrow> 'b \<times> ('e + tool_registry \<times> tool_declaration list)" where
  "build_with_handlers_guarded caller ex sizes reusable fresh_id tools b =
     (case resolve_declarations tools of
        Inl err \<Rightarrow> (b, Inl (rc_from_tool caller err))
      | Inr resolved \<Rightarrow>
          (case register_declarations caller ex sizes reusable fresh_id 0 resolved
                  (\<lparr>bd_entries = [], bd_listings = [], bd_discovered = 0, bd_tools = tools\<rparr>, b) of
             ((bd, b'), Inl e) \<Rightarrow> (b', Inl e)
           | ((bd, b'), Inr _) \<Rightarrow>
               (case build_namespace_map (if bd_tools bd = [] then None else Some (bd_tools bd)) of
                  Inl err \<Rightarrow> (b', Inl (rc_from_tool caller err))
                | Inr m \<Rightarrow>
                    (b', Inr (\<lparr>trg_entries = bd_entries bd, trg_namespace_map = m,
                       trg_custom_tool_map = build_tool_map (bd_tools bd),
                       trg_mcp_list_tools_items = bd_listings bd, trg_tool_search = None\<rparr>, bd_tools bd)))))"

text \<open>The executor's caller charges the response's budget.\<close>

definition response_caller :: "(executor_response_budget, executor_error) registry_caller" where
  "response_caller = \<lparr>rc_consume = consume, rc_from_tool = ToolErr\<rparr>"

text \<open>\<open>build_with_handlers\<close> gives the metadata a budget of one mebibyte.\<close>

definition discovery_caller :: "(nat, tool_error) registry_caller" where
  "discovery_caller =
     \<lparr>rc_consume = (\<lambda>remaining bytes.
         if bytes \<le> remaining then (remaining - bytes, Inr ())
         else (remaining, Inl (TeExecution (''MCP discovery metadata exceeded '' @ decimal MAX_MCP_DISCOVERY_BYTES @ '' bytes'')))),
      rc_from_tool = id\<rparr>"

definition build_with_handlers ::
    "gateway_executors \<Rightarrow> discovery_sizes \<Rightarrow> (nat \<Rightarrow> string) \<Rightarrow> tool_declaration list \<Rightarrow>
      tool_error + tool_registry \<times> tool_declaration list" where
  "build_with_handlers ex sizes fresh_id tools =
     snd (build_with_handlers_guarded discovery_caller ex sizes (\<lambda>_. None) fresh_id tools MAX_MCP_DISCOVERY_BYTES)"

section \<open>Lookups\<close>

definition lookup_tool :: "tool_registry \<Rightarrow> string \<Rightarrow> tool_entry option" where
  "lookup_tool r name = map_of (trg_entries r) name"

definition registered_type :: "tool_registry \<Rightarrow> string \<Rightarrow> tool_type" where
  "registered_type r name = (case lookup_tool r name of None \<Rightarrow> TtFunction | Some e \<Rightarrow> ten_tool_type e)"

definition async_tool_names :: "tool_registry \<Rightarrow> string set" where
  "async_tool_names r = fst ` set (filter (ten_async_execution \<circ> snd) (trg_entries r))"

definition is_gateway_owned_name :: "tool_registry \<Rightarrow> string \<Rightarrow> bool" where
  "is_gateway_owned_name r name =
     (case lookup_tool r name of None \<Rightarrow> False | Some e \<Rightarrow> ownership_is_gateway (ten_ownership e))"

definition is_client_custom_name :: "tool_registry \<Rightarrow> string \<Rightarrow> bool" where
  "is_client_custom_name r name = (case lookup_tool r name of None \<Rightarrow> False | Some e \<Rightarrow> ten_tool_type e = TtCustom)"

definition is_client_shell_name :: "tool_registry \<Rightarrow> string \<Rightarrow> bool" where
  "is_client_shell_name r name =
     (case lookup_tool r name of
        None \<Rightarrow> False
      | Some e \<Rightarrow> ten_tool_type e = TtShell \<and> \<not> ownership_is_gateway (ten_ownership e))"

definition gateway_owned :: "tool_registry \<Rightarrow> function_tool_call list \<Rightarrow> function_tool_call list" where
  "gateway_owned r calls = filter (\<lambda>c. is_gateway_owned_name r (ftc_name c)) calls"

definition client_owned :: "tool_registry \<Rightarrow> function_tool_call list \<Rightarrow> function_tool_call list" where
  "client_owned r calls =
     filter (\<lambda>c. case lookup_tool r (ftc_name c) of None \<Rightarrow> True | Some e \<Rightarrow> \<not> ownership_is_gateway (ten_ownership e)) calls"

section \<open>Tool search in the registry\<close>

definition is_hosted_tool_search_name :: "tool_registry \<Rightarrow> string \<Rightarrow> bool" where
  "is_hosted_tool_search_name r name =
     (case lookup_tool r name of
        None \<Rightarrow> False
      | Some e \<Rightarrow> ten_tool_type e = TtToolSearch \<and> ownership_is_gateway (ten_ownership e))"

definition records_output_item :: "tool_registry \<Rightarrow> output_item \<Rightarrow> bool" where
  "records_output_item r item =
     (case item of OiFunctionCall call \<Rightarrow> \<not> is_hosted_tool_search_name r (ftc_name call) | _ \<Rightarrow> True)"

definition bind_hosted_tool_search :: "gateway_binding \<Rightarrow> tool_registry \<Rightarrow> tool_registry" where
  "bind_hosted_tool_search binding r =
     (if is_hosted_tool_search_name r TOOL_SEARCH_NAME
      then r\<lparr>trg_entries := AList.update TOOL_SEARCH_NAME (hosted_tool_search_entry binding) (trg_entries r)\<rparr> else r)"

definition validate_tool_availability :: "string set \<Rightarrow> bool \<Rightarrow> tool_registry \<Rightarrow> tool_error + unit" where
  "validate_tool_availability withheld requires_tool_search r =
     (if \<exists>name\<in>fst ` set (trg_entries r). name \<in> withheld then
        Inl (TeConfig ''a loaded tool collides with a withheld function name'')
      else if \<not> requires_tool_search then Inr ()
      else case lookup_tool r TOOL_SEARCH_NAME of
        None \<Rightarrow> Inl (TeConfig ''prepared tool-search declaration is missing from the private registry'')
      | Some e \<Rightarrow>
          if ten_tool_type e = TtToolSearch \<and> ten_ownership e \<noteq> OwGateway None then Inr ()
          else Inl (TeConfig ''prepared tool-search declaration has invalid private registry ownership''))"

definition validate_tool_search_availability :: "tool_registry \<Rightarrow> tool_error + unit" where
  "validate_tool_search_availability r =
     (case trg_tool_search r of
        None \<Rightarrow> Inr ()
      | Some s \<Rightarrow>
          and_then (validate_tool_availability (set (rts_withheld_function_names s)) (rts_synthetic s \<noteq> None) r) (\<lambda>_.
            if rts_synthetic s \<noteq> None \<and> is_hosted_tool_search_name r TOOL_SEARCH_NAME \<noteq> rts_hosted s then
              Inl (TeConfig ''prepared tool-search declaration has invalid private registry ownership'')
            else Inr ()))"

definition withheld_names :: "tool_registry \<Rightarrow> string set" where
  "withheld_names r =
     (case trg_tool_search r of
        None \<Rightarrow> {}
      | Some s \<Rightarrow> set (rts_withheld_function_names s) \<union> set (rts_deferred_mcp s))"

definition is_deferred :: "tool_registry \<Rightarrow> string \<Rightarrow> bool" where
  "is_deferred r name =
     (case trg_tool_search r of
        None \<Rightarrow> False
      | Some s \<Rightarrow> name \<in> set (rts_withheld_function_names s) \<or> name \<in> set (rts_deferred_mcp s))"

definition ensure_loaded_calls :: "tool_registry \<Rightarrow> output_item list \<Rightarrow> tool_error + unit" where
  "ensure_loaded_calls r output =
     (if list_ex (\<lambda>item. case item of
          OiFunctionCall call \<Rightarrow>
            is_deferred r (ftc_name call) \<or>
            (case ftc_namespace call of
               None \<Rightarrow> False
             | Some namespace \<Rightarrow> is_deferred r (model_visible_namespace_member_name namespace (ftc_name call)))
        | _ \<Rightarrow> False) output
      then Inl TeUpstreamWithheldFunctionCall else Inr ())"

text \<open>A call runs only through its binding; \<open>answer\<close> is what the bound executor returns.\<close>

record gateway_dispatch_result =
  gdr_tool_type :: tool_type
  gdr_output :: "tool_error + tool_output"

definition dispatch :: "tool_registry \<Rightarrow> (tool_error + tool_output) \<Rightarrow> function_tool_call \<Rightarrow> gateway_dispatch_result option" where
  "dispatch r answer call =
     (case lookup_tool r (ftc_name call) of
        None \<Rightarrow> None
      | Some e \<Rightarrow>
          (case ten_ownership e of
             OwGateway (Some binding) \<Rightarrow>
               Some \<lparr>gdr_tool_type = ten_tool_type e,
                     gdr_output = (if is_deferred r (ftc_name call) then Inl TeUpstreamWithheldFunctionCall else answer)\<rparr>
           | _ \<Rightarrow> None))"

definition refresh_client_tools ::
    "gateway_executors \<Rightarrow> discovery_sizes \<Rightarrow> (nat \<Rightarrow> string) \<Rightarrow> tool_declaration list \<Rightarrow> tool_registry \<Rightarrow>
      tool_registry \<times> (tool_error + unit)" where
  "refresh_client_tools ex sizes fresh_id declarations r =
     (let client_declarations = filter (\<lambda>d. case d of
            TdFunction _ \<Rightarrow> True | TdNamespace _ \<Rightarrow> True | TdCustom _ \<Rightarrow> True | _ \<Rightarrow> False) declarations
      in case build_with_handlers ex sizes fresh_id client_declarations of
           Inl err \<Rightarrow> (r, Inl err)
         | Inr (client, _) \<Rightarrow>
             let r' = r\<lparr>trg_entries := fold (\<lambda>(name, entry) es.
                    if map_of es name = None then AList.update name entry es else es) (trg_entries client) (trg_entries r)\<rparr>
             in (case build_namespace_map (if declarations = [] then None else Some declarations) of
                   Inl err \<Rightarrow> (r', Inl err)
                 | Inr m \<Rightarrow> (r'\<lparr>trg_namespace_map := m, trg_custom_tool_map := build_tool_map declarations\<rparr>, Inr ())))"

section \<open>What a built registry holds\<close>

text \<open>The entries a declaration stands for, given what discovery finds.\<close>

definition mcp_entries :: "discovered_handler list \<Rightarrow> tool_entries" where
  "mcp_entries handlers =
     map (\<lambda>(param, h). (mdt_internal_name param, gateway_entry TtMcp (Some (mdt_server_label param)) (Some h))) handlers"

definition declared_entries ::
    "gateway_executors \<Rightarrow> (mcp_tool_param \<Rightarrow> mcp_list_tools option) \<Rightarrow> tool_declaration \<Rightarrow> tool_entries" where
  "declared_entries ex reusable d =
     (case declared_mcp d of
        Some p \<Rightarrow> (case ge_mcp_server_tools ex p (reusable p) of Inl _ \<Rightarrow> [] | Inr (handlers, _) \<Rightarrow> mcp_entries handlers)
      | None \<Rightarrow> (case local_entries ex d of Inl _ \<Rightarrow> [] | Inr es \<Rightarrow> es))"

definition entry_ok :: "tool_entry \<Rightarrow> bool" where
  "entry_ok e \<longleftrightarrow>
     (if ownership_is_gateway (ten_ownership e)
      then \<not> ten_async_execution e \<and> (type_gateway_owned (ten_tool_type e) \<or> ten_tool_type e = TtToolSearch)
      else \<not> type_gateway_owned (ten_tool_type e))"

definition unique_names :: "tool_entries \<Rightarrow> bool" where
  "unique_names entries \<longleftrightarrow> distinct (map fst entries)"

lemma move_entries_ok:
  "move_entries resolved entries = Inr entries' \<Longrightarrow>
   entries' = entries @ resolved \<and> (unique_names entries \<longrightarrow> unique_names entries')"
proof (induction resolved arbitrary: entries)
  case (Cons e resolved)
  obtain name entry where e: "e = (name, entry)" by fastforce
  with Cons.prems have none: "map_of entries name = None" and r: "move_entries resolved (entries @ [e]) = Inr entries'"
    by (auto simp: alist_update_fresh split: option.splits)
  from none have "name \<notin> fst ` set entries" by (simp add: map_of_eq_None_iff)
  with e have "unique_names entries \<longrightarrow> unique_names (entries @ [e])" by (auto simp: unique_names_def)
  with Cons.IH [OF r] have "unique_names entries \<longrightarrow> unique_names entries'" by blast
  with Cons.IH [OF r] show ?case by simp
qed simp

lemma insert_discovered_ok:
  "insert_discovered handlers entries = Inr entries' \<Longrightarrow>
   entries' = entries @ mcp_entries handlers \<and> (unique_names entries \<longrightarrow> unique_names entries')"
proof (induction handlers entries rule: insert_discovered.induct)
  case (2 d ds entries)
  from "2.prems" obtain es where one: "move_entries (insert_discovered_mcp_entry d []) entries = Inr es"
    and r: "insert_discovered ds es = Inr entries'"
    by (auto simp: insert_unique_tool_entries_def split: sum.splits)
  have "insert_discovered_mcp_entry d [] = mcp_entries [d]"
    by (cases d) (simp add: insert_discovered_mcp_entry_def mcp_entries_def)
  with move_entries_ok [OF one] have es: "es = entries @ mcp_entries [d]" by simp
  from move_entries_ok [OF one] have d: "unique_names entries \<longrightarrow> unique_names es" by blast
  note ih = "2.IH" [unfolded insert_unique_tool_entries_def, OF one r]
  from ih es have "entries' = entries @ mcp_entries (d # ds)" by (simp add: mcp_entries_def)
  with ih d show ?case by blast
qed (simp add: mcp_entries_def)

lemma all_entries_update: "\<forall>(n, e)\<in>set m. P e \<Longrightarrow> P v \<Longrightarrow> \<forall>(n, e)\<in>set (AList.update k v m). P e"
  by (induction m) auto

lemma insert_namespace_entries_ok:
  assumes "\<forall>(n, e)\<in>set es. entry_ok e" shows "\<forall>(n, e)\<in>set (insert_namespace_entries p es). entry_ok e"
proof -
  have "\<forall>(n, e)\<in>set (fold (\<lambda>member entries. case member of
         CnFunction f \<Rightarrow> AList.update (ftp_name f)
           (with_async_execution (function_is_async f) (client_entry TtCodexNamespace (Some (cnp_name p)))) entries
       | CnUnknown \<Rightarrow> entries) members es). entry_ok e" for members
    using assms
  proof (induction members arbitrary: es)
    case (Cons m members)
    show ?case
    proof (cases m)
      case (CnFunction f)
      have "entry_ok (with_async_execution (function_is_async f) (client_entry TtCodexNamespace (Some (cnp_name p))))"
        by (simp add: entry_ok_def with_async_execution_def client_entry_def type_gateway_owned_def)
      from Cons.IH [OF all_entries_update [OF Cons.prems this]] CnFunction show ?thesis by simp
    qed (use Cons in simp)
  qed simp
  then show ?thesis by (simp only: insert_namespace_entries_def)
qed

lemma local_entries_ok:
  assumes "local_entries ex d = Inr es" shows "\<forall>(n, e)\<in>set es. entry_ok e"
proof (cases d)
  case (TdNamespace p)
  with assms insert_namespace_entries_ok [of "[]" p] show ?thesis by auto
qed (use assms in \<open>auto simp: entry_ok_def insert_function_entry_def insert_custom_entry_def insert_shell_entry_def
  insert_tool_search_entry_def insert_web_search_entry_def insert_web_fetch_entry_def insert_file_search_entry_def
  with_async_execution_def client_entry_def gateway_entry_def hosted_tool_search_entry_def tool_search_entry_def
  type_gateway_owned_def split: option.splits if_splits\<close>)

definition discovered_handlers ::
    "gateway_executors \<Rightarrow> (mcp_tool_param \<Rightarrow> mcp_list_tools option) \<Rightarrow> tool_declaration \<Rightarrow> discovered_handler list" where
  "discovered_handlers ex reusable d =
     (case declared_mcp d of
        Some p \<Rightarrow> (case ge_mcp_server_tools ex p (reusable p) of Inl _ \<Rightarrow> [] | Inr (handlers, _) \<Rightarrow> handlers)
      | None \<Rightarrow> [])"

lemma declared_entries_ok: "\<forall>(n, e)\<in>set (declared_entries ex reusable d). entry_ok e"
proof (cases "declared_mcp d")
  case None
  then show ?thesis using local_entries_ok [of ex d] by (cases "local_entries ex d") (simp_all add: declared_entries_def)
next
  case (Some p)
  then show ?thesis
    by (auto simp: declared_entries_def mcp_entries_def entry_ok_def gateway_entry_def type_gateway_owned_def
        split: sum.splits)
qed

lemma register_mcp_ok:
  assumes "register_mcp caller ex sizes reusable iid n p (bd, b) = ((bd', b'), Inr ())" and "declared_mcp d = Some p"
  shows "bd_entries bd' = bd_entries bd @ declared_entries ex reusable d"
    and "unique_names (bd_entries bd) \<Longrightarrow> unique_names (bd_entries bd')"
    and "bd_discovered bd' = bd_discovered bd + length (discovered_handlers ex reusable d)"
    and "bd_discovered bd \<le> MAX_DISCOVERED_MCP_TOOLS_PER_REQUEST \<Longrightarrow> bd_discovered bd' \<le> MAX_DISCOVERED_MCP_TOOLS_PER_REQUEST"
  using assms
  by (auto simp: register_mcp_def declared_entries_def discovered_handlers_def Let_def dest!: insert_discovered_ok
      split: sum.splits prod.splits option.splits if_splits)

lemma register_local_ok:
  assumes "register_local ex d entries = Inr entries'" and "declared_mcp d = None"
  shows "entries' = entries @ declared_entries ex reusable d"
    and "unique_names entries \<Longrightarrow> unique_names entries'"
  using assms
  by (auto simp: register_local_def declared_entries_def and_then_def insert_unique_tool_entries_def dest!: move_entries_ok
      split: sum.splits)

lemma register_declarations_ok:
  "register_declarations caller ex sizes reusable fresh_id n ds (bd, b) = ((bd', b'), Inr ()) \<Longrightarrow>
   bd_entries bd' = bd_entries bd @ concat (map (declared_entries ex reusable) ds) \<and>
   (unique_names (bd_entries bd) \<longrightarrow> unique_names (bd_entries bd')) \<and>
   bd_discovered bd' = bd_discovered bd + length (concat (map (discovered_handlers ex reusable) ds)) \<and>
   (bd_discovered bd \<le> MAX_DISCOVERED_MCP_TOOLS_PER_REQUEST \<longrightarrow> bd_discovered bd' \<le> MAX_DISCOVERED_MCP_TOOLS_PER_REQUEST)"
proof (induction ds arbitrary: n bd b)
  case (Cons d ds)
  show ?case
  proof (cases "declared_mcp d")
    case None
    with Cons.prems obtain entries where one: "register_local ex d (bd_entries bd) = Inr entries"
      and r: "register_declarations caller ex sizes reusable fresh_id (Suc n) ds (bd\<lparr>bd_entries := entries\<rparr>, b) = ((bd', b'), Inr ())"
      by (auto split: sum.splits)
    note ih = Cons.IH [OF r, simplified] and here = register_local_ok [OF one None]
    have "discovered_handlers ex reusable d = []" using None by (simp add: discovered_handlers_def)
    moreover have "unique_names (bd_entries bd) \<longrightarrow> unique_names (bd_entries bd')" using ih here by blast
    moreover have "bd_entries bd' = bd_entries bd @ concat (map (declared_entries ex reusable) (d # ds))"
      using ih here(1) [of reusable] by simp
    moreover have "bd_discovered bd \<le> MAX_DISCOVERED_MCP_TOOLS_PER_REQUEST \<longrightarrow>
        bd_discovered bd' \<le> MAX_DISCOVERED_MCP_TOOLS_PER_REQUEST" using ih by blast
    ultimately show ?thesis using ih by simp
  next
    case (Some p)
    with Cons.prems obtain bd1 b1 where one: "register_mcp caller ex sizes reusable (fresh_id n) n p (bd, b) = ((bd1, b1), Inr ())"
      and r: "register_declarations caller ex sizes reusable fresh_id (Suc n) ds (bd1, b1) = ((bd', b'), Inr ())"
      by (auto split: sum.splits prod.splits)
    note ih = Cons.IH [OF r] and here = register_mcp_ok [OF one Some]
    have "unique_names (bd_entries bd) \<longrightarrow> unique_names (bd_entries bd')" using ih here(2) by blast
    moreover have "bd_entries bd' = bd_entries bd @ concat (map (declared_entries ex reusable) (d # ds))"
      using ih here(1) by simp
    moreover have "bd_discovered bd \<le> MAX_DISCOVERED_MCP_TOOLS_PER_REQUEST \<longrightarrow>
        bd_discovered bd' \<le> MAX_DISCOVERED_MCP_TOOLS_PER_REQUEST" using ih here(4) by blast
    ultimately show ?thesis using ih here(3) by simp
  qed
qed simp


definition silent_binding :: gateway_binding where
  "silent_binding =
     \<lparr>gb_plan_gateway_events = (\<lambda>_. \<lparr>gtp_started_output = None, gtp_planned_result = None\<rparr>),
      gb_public_output = (\<lambda>_ _ _. None), gb_self_exclusion = False\<rparr>"

definition sample_executors :: gateway_executors where
  "sample_executors =
     \<lparr>ge_web_search = (\<lambda>_. silent_binding), ge_web_fetch = None, ge_code_interpreter = None,
      ge_hosted_search = silent_binding, ge_mcp_server_tools = (\<lambda>_ _. Inl (TeExecution ''unreachable''))\<rparr>"

definition sample_sizes :: discovery_sizes where
  "sample_sizes = \<lparr>dz_param = (\<lambda>_. Some 1), dz_listing = (\<lambda>_. Some 1)\<rparr>"

definition sample_tools :: "tool_declaration list" where
  "sample_tools = TdWebSearch \<lparr>wsp_search_context_size = None, wsp_filters = None, wsp_user_location = None,
     wsp_unsupported_async = None\<rparr> # sample_declarations"

lemma sample_tools_registered:
  "\<exists>r tools'. build_with_handlers_guarded discovery_caller sample_executors sample_sizes (\<lambda>_. None) (\<lambda>_. ''mcpl_1'') sample_tools 10 =
      (10, Inr (r, tools')) \<and> map fst (trg_entries r) = [''web_search'', ''run'', ''agentic_ns__git__run'']"
proof -
  have resolved: "resolve_declarations sample_tools = Inr [TdWebSearch \<lparr>wsp_search_context_size = None, wsp_filters = None,
      wsp_user_location = None, wsp_unsupported_async = None\<rparr>, TdFunction (plain_function ''run''),
      TdNamespace (sample_namespace\<lparr>cnp_tools := [CnFunction (plain_function ''agentic_ns__git__run'')]\<rparr>)]"
    by code_simp
  have m: "build_namespace_map (Some sample_tools) = Inr (Some
     \<lparr>nm_calls = [(''agentic_ns__git__run'', \<lparr>ncm_member = (''git'', ''run''), ncm_upstream_name = ''agentic_ns__git__run''\<rparr>)],
      nm_members = [((''git'', ''run''), ''agentic_ns__git__run'')]\<rparr>)"
    by code_simp
  have ne: "sample_tools \<noteq> []" by (simp add: sample_tools_def)
  show ?thesis
    by (simp add: build_with_handlers_guarded_def resolved ne m register_local_def and_then_def insert_unique_tool_entries_def
        insert_web_search_entry_def insert_function_entry_def insert_namespace_entries_def sample_namespace_def plain_function_def)
qed


end
