(* ===== verification/Gateway_Rounds.thy ===== *)
theory Gateway_Rounds
  imports Tool_Registry Stream_Relay
begin

text \<open>
  One round of gateway-executed tool calls (\<open>executor/gateway.rs\<close>, \<open>executor/gateway/\<close>,
  \<open>tool/custom.rs\<close>, \<open>tool/shell.rs\<close>): admission under \<open>max_tool_calls\<close>, the plan of the round's calls with their
  public positions, execution, the public output, and the lifecycle events of the calls.

  \<^item> The answers of the executors are a function of the call's position; \<open>None\<close> is a call that did not
    return within its time limit. The calls of a round run concurrently and charge the budget when they
    finish: they are resolved in an arbitrary order of completion. Permits and waiting are not modelled here.
  \<^item> The lifecycle events are data first (\<open>gateway_event\<close>), built and sent one after another.
  \<^item> Item lists are indexed by \<open>usize\<close>; the position in an ascending list that a binary search returns is
    written as the number of smaller members.
\<close>

section \<open>Admission\<close>

datatype admission = Dispatch | Refuse (refuse_limit: nat) (refuse_visible: bool)

record built_in_tool_call_budget =
  tcb_limit :: "nat option"
  tcb_dispatched :: nat
  tcb_refused :: bool
  tcb_refusal_shown :: bool

definition new_tool_call_budget :: "nat option \<Rightarrow> built_in_tool_call_budget" where
  "new_tool_call_budget limit =
     \<lparr>tcb_limit = limit, tcb_dispatched = 0, tcb_refused = False, tcb_refusal_shown = False\<rparr>"

definition admit_call :: "built_in_tool_call_budget \<Rightarrow> built_in_tool_call_budget \<times> admission" where
  "admit_call budget =
     (case tcb_limit budget of
        Some limit \<Rightarrow>
          if tcb_dispatched budget \<ge> limit then (budget\<lparr>tcb_refused := True\<rparr>, Refuse limit (\<not> tcb_refusal_shown budget))
          else (budget\<lparr>tcb_dispatched := saturating_add (tcb_dispatched budget) 1\<rparr>, Dispatch)
      | None \<Rightarrow> (budget\<lparr>tcb_dispatched := saturating_add (tcb_dispatched budget) 1\<rparr>, Dispatch))"

definition mark_refusal_shown :: "built_in_tool_call_budget \<Rightarrow> built_in_tool_call_budget" where
  "mark_refusal_shown budget = budget\<lparr>tcb_refusal_shown := True\<rparr>"

definition has_refused :: "built_in_tool_call_budget \<Rightarrow> bool" where
  "has_refused budget = tcb_refused budget"

definition limit_reached_message :: "nat \<Rightarrow> string" where
  "limit_reached_message limit = ''UserError: Reached tool call limit of '' @ decimal limit"

fun refused_output :: "output_item \<Rightarrow> output_item option" where
  "refused_output (OiWebSearchCall call) = Some (OiWebSearchCall (call\<lparr>wsc_status := WsSearching\<rparr>))"
| "refused_output (OiCodeInterpreterCall call) = Some (OiCodeInterpreterCall (call\<lparr>cic_status := CiInterpreting\<rparr>))"
| "refused_output _ = None"

section \<open>The plan of a round\<close>

record gateway_event_plan =
  gep_output_index :: nat
  gep_started_output :: "output_item option"
  gep_completed_output :: "output_item option"
  gep_follow_up_output :: "output_item option"
  gep_arguments :: "string option"

datatype gateway_execution_plan = Bound gateway_binding | MissingHandler

record gateway_call_plan =
  gcp_tool_type :: tool_type
  gcp_item_index :: nat
  gcp_call :: function_tool_call
  gcp_execution :: gateway_execution_plan
  gcp_refused :: "nat option"
  gcp_planned_result :: "planned_result option"
  gcp_events :: gateway_event_plan

record gateway_scheduler =
  gsc_calls :: "gateway_call_plan list"
  gsc_omitted_items :: "nat list"
  gsc_expanded_items :: "nat list"

definition empty_scheduler :: gateway_scheduler where
  "empty_scheduler = \<lparr>gsc_calls = [], gsc_omitted_items = [], gsc_expanded_items = []\<rparr>"

definition u32_or_max :: "nat \<Rightarrow> nat" where
  "u32_or_max n = min n (2 ^ 32 - 1)"

text \<open>The call of one output item, when the gateway owns it.\<close>

definition gateway_call :: "tool_registry \<Rightarrow> output_item \<Rightarrow> (function_tool_call \<times> tool_entry \<times> gateway_binding option) option" where
  "gateway_call r item =
     (case item of
        OiFunctionCall call \<Rightarrow>
          (case lookup_tool r (ftc_name call) of
             None \<Rightarrow> None
           | Some e \<Rightarrow> (case ten_ownership e of OwGateway binding \<Rightarrow> Some (call, e, binding) | OwClient \<Rightarrow> None))
      | _ \<Rightarrow> None)"

definition binding_plan :: "gateway_binding option \<Rightarrow> function_tool_call \<Rightarrow> output_item option \<times> planned_result option" where
  "binding_plan binding call =
     (case binding of
        None \<Rightarrow> (None, None)
      | Some b \<Rightarrow> let p = gb_plan_gateway_events b call in (gtp_started_output p, gtp_planned_result p))"

definition plan_call ::
    "nat \<Rightarrow> nat \<Rightarrow> function_tool_call \<Rightarrow> tool_entry \<Rightarrow> gateway_binding option \<Rightarrow>
      gateway_scheduler \<times> built_in_tool_call_budget \<Rightarrow> gateway_scheduler \<times> built_in_tool_call_budget" where
  "plan_call output_offset item_index call e binding st =
     (case st of (s, budget) \<Rightarrow>
      (case binding_plan binding call of (started, planned) \<Rightarrow>
       let public_index = saturating_add (saturating_add output_offset (item_index - length (gsc_omitted_items s)))
             (length (gsc_expanded_items s));
           (budget1, admission) = (if ten_tool_type e = TtToolSearch then (budget, Dispatch) else admit_call budget);
           (refused, started1, completed, budget2, omitted1) =
             (case admission of
                Dispatch \<Rightarrow> (None, started, None, budget1, gsc_omitted_items s)
              | Refuse limit visible \<Rightarrow>
                  let shown = (case started of Some item \<Rightarrow> if visible then refused_output item else None | None \<Rightarrow> None) in
                  if shown \<noteq> None then (Some limit, started, shown, mark_refusal_shown budget1, gsc_omitted_items s)
                  else (Some limit, None, shown, budget1, gsc_omitted_items s @ [item_index]));
           omitted2 = (if binding = None \<and> refused = None then omitted1 @ [item_index] else omitted1);
           planned1 = (if refused = None then planned else None);
           follow_up = map_option follow_up_output planned1;
           plan = \<lparr>gcp_tool_type = ten_tool_type e, gcp_item_index = item_index, gcp_call = call,
             gcp_execution = (case binding of None \<Rightarrow> MissingHandler | Some b \<Rightarrow> Bound b),
             gcp_refused = refused, gcp_planned_result = planned1,
             gcp_events = \<lparr>gep_output_index = u32_or_max public_index, gep_started_output = started1,
               gep_completed_output = completed, gep_follow_up_output = follow_up, gep_arguments = Some (ftc_arguments call)\<rparr>\<rparr>
       in (s\<lparr>gsc_calls := gsc_calls s @ [plan], gsc_omitted_items := omitted2,
            gsc_expanded_items := (if follow_up \<noteq> None then gsc_expanded_items s @ [item_index] else gsc_expanded_items s)\<rparr>,
           budget2)))"

fun plan_items ::
    "tool_registry \<Rightarrow> nat \<Rightarrow> nat \<Rightarrow> output_item list \<Rightarrow> gateway_scheduler \<times> built_in_tool_call_budget \<Rightarrow>
      gateway_scheduler \<times> built_in_tool_call_budget" where
  "plan_items r output_offset item_index [] st = st"
| "plan_items r output_offset item_index (item # items) st =
     plan_items r output_offset (Suc item_index) items
       (case gateway_call r item of
          None \<Rightarrow> st
        | Some (call, e, binding) \<Rightarrow> plan_call output_offset item_index call e binding st)"

definition plan_with_budget ::
    "output_item list \<Rightarrow> tool_registry \<Rightarrow> nat \<Rightarrow> built_in_tool_call_budget \<Rightarrow> gateway_scheduler \<times> built_in_tool_call_budget" where
  "plan_with_budget items r output_offset budget = plan_items r output_offset 0 items (empty_scheduler, budget)"

section \<open>Positions\<close>

definition public_item_index :: "gateway_scheduler \<Rightarrow> nat \<Rightarrow> nat option" where
  "public_item_index s item_index =
     (if item_index \<in> set (gsc_omitted_items s) then None
      else Some (item_index - length (filter (\<lambda>i. i < item_index) (gsc_omitted_items s)) +
        length (filter (\<lambda>i. i < item_index) (gsc_expanded_items s))))"

fun position :: "('a \<Rightarrow> bool) \<Rightarrow> 'a list \<Rightarrow> nat option" where
  "position P [] = None"
| "position P (x # xs) = (if P x then Some 0 else map_option Suc (position P xs))"

definition call_index_for_item :: "gateway_scheduler \<Rightarrow> nat \<Rightarrow> nat option" where
  "call_index_for_item s item_index = position (\<lambda>c. gcp_item_index c = item_index) (gsc_calls s)"

definition event_plans :: "gateway_scheduler \<Rightarrow> gateway_event_plan list" where
  "event_plans s = map gcp_events (gsc_calls s)"

definition start_run_end :: "gateway_event_plan list \<Rightarrow> nat \<Rightarrow> nat" where
  "start_run_end plans from_call =
     (case position (\<lambda>p. gep_follow_up_output p \<noteq> None) (drop from_call plans) of
        None \<Rightarrow> length plans
      | Some offset \<Rightarrow> from_call + offset + 1)"

definition initial_event_run_len :: "gateway_scheduler \<Rightarrow> output_item list \<Rightarrow> tool_registry \<Rightarrow> nat" where
  "initial_event_run_len s items r =
     (case gsc_calls s of
        [] \<Rightarrow> 0
      | call # _ \<Rightarrow>
          let first = gcp_item_index call in
          if list_ex (\<lambda>item. case item of OiFunctionCall c \<Rightarrow> is_client_custom_name r (ftc_name c) | _ \<Rightarrow> False) (take first items)
          then 0
          else min (length (takeWhile (\<lambda>(offset, c). gcp_item_index c = saturating_add first offset) (enumerate 0 (gsc_calls s))))
            (start_run_end (event_plans s) 0))"

section \<open>Resolving calls\<close>

record gateway_call_result =
  gcr_item_index :: nat
  gcr_input :: "input_item list"
  gcr_public_output :: "output_item option"
  gcr_follow_up_output :: "output_item option"
  gcr_omitted :: bool

text \<open>What a round needs from outside: the serializers, the answers of the executors and the ids of the outputs.\<close>

record round_world =
  rw_codec :: event_codec
  rw_texts :: json_text
  rw_sizes :: "tool_search_output_message serializer"
  rw_shell_action :: "string \<Rightarrow> shell_call_action option"
  rw_answer :: "nat \<Rightarrow> (tool_error + tool_output) option"
  rw_fresh_id :: "nat \<Rightarrow> string"

definition result_message :: "string \<Rightarrow> tool_output \<Rightarrow> function_tool_result_message" where
  "result_message iid out =
     \<lparr>frm_id = Some iid, frm_status = Some MsCompleted, frm_call_id = tou_call_id out, frm_output = TcoText (tou_output out)\<rparr>"

definition enforce_gateway_tool_output_size :: "nat \<Rightarrow> executor_error + unit" where
  "enforce_gateway_tool_output_size bytes =
     (if bytes > MAX_GATEWAY_TOOL_OUTPUT_BYTES then
        Inl (StreamError (''gateway tool output exceeded '' @ decimal MAX_GATEWAY_TOOL_OUTPUT_BYTES @ '' bytes''))
      else Inr ())"

definition execution_error_output :: "event_codec \<Rightarrow> function_tool_call \<Rightarrow> string \<Rightarrow> executor_error + tool_output" where
  "execution_error_output codec call message =
     (case render_json codec (JObject [(''error'', JString message)]) of
        None \<Rightarrow> Inl JsonError
      | Some out \<Rightarrow> Inr (tool_failure (ftc_call_id call) out))"

type_synonym budgeted = "executor_response_budget \<times> (executor_error + gateway_call_result)"

text \<open>The checks every output passes before it becomes a result.\<close>

definition accept_output :: "nat \<Rightarrow> gateway_call_result \<Rightarrow> executor_response_budget \<Rightarrow> budgeted" where
  "accept_output bytes result budget =
     (case enforce_gateway_tool_output_size bytes of
        Inl err \<Rightarrow> (budget, Inl err)
      | Inr _ \<Rightarrow>
          (case consume budget bytes of
             (budget', Inl err) \<Rightarrow> (budget', Inl err)
           | (budget', Inr _) \<Rightarrow> (budget', Inr result)))"

definition unexecuted_result ::
    "round_world \<Rightarrow> nat \<Rightarrow> function_tool_call \<Rightarrow> string \<Rightarrow> output_item option \<Rightarrow> bool \<Rightarrow> executor_response_budget \<Rightarrow> budgeted" where
  "unexecuted_result w item_index call message public_output omitted budget =
     (case execution_error_output (rw_codec w) call message of
        Inl err \<Rightarrow> (budget, Inl err)
      | Inr out \<Rightarrow>
          accept_output (length (tou_output out))
            \<lparr>gcr_item_index = item_index,
             gcr_input = [IiFunctionCallOutput (result_message (rw_fresh_id w item_index) out)],
             gcr_public_output = public_output, gcr_follow_up_output = None, gcr_omitted = omitted\<rparr> budget)"

definition planned_call_result ::
    "round_world \<Rightarrow> nat \<Rightarrow> planned_result \<Rightarrow> output_item option \<Rightarrow> executor_response_budget \<Rightarrow> budgeted" where
  "planned_call_result w item_index result follow_up budget =
     (let model_len = model_output_len (rw_texts w) result in
      case enforce_gateway_tool_output_size model_len of
        Inl err \<Rightarrow> (budget, Inl err)
      | Inr _ \<Rightarrow>
          (case consume budget model_len of
             (budget1, Inl err) \<Rightarrow> (budget1, Inl err)
           | (budget1, Inr _) \<Rightarrow>
               (case (case follow_up of
                        None \<Rightarrow> (budget1, Inr ())
                      | Some item \<Rightarrow> consume budget1 (retained_output_item (rw_sizes w) item)) of
                  (budget2, Inl err) \<Rightarrow> (budget2, Inl err)
                | (budget2, Inr _) \<Rightarrow>
                    (budget2, Inr \<lparr>gcr_item_index = item_index, gcr_input = planned_input_items result,
                       gcr_public_output = Some (completed_output result), gcr_follow_up_output = follow_up,
                       gcr_omitted = False\<rparr>))))"

definition timeout_message :: "string \<Rightarrow> string" where
  "timeout_message name = ''gateway tool '' @ [CHR 0x27] @ name @ [CHR 0x27] @ '' timed out after 60s''"

text \<open>What the executor answered, as an output for the model; only some errors fail the round.\<close>

definition dispatched_output ::
    "round_world \<Rightarrow> gateway_call_plan \<Rightarrow> executor_error + tool_output \<times> gateway_call_status" where
  "dispatched_output w plan =
     (let call = gcp_call plan;
          dispatched = (case rw_answer w (gcp_item_index plan) of
            Some answer \<Rightarrow> answer
          | None \<Rightarrow> Inl (TeExecution (timeout_message (ftc_name call))))
      in case dispatched of
           Inr out \<Rightarrow> Inr (out, GcCompleted)
         | Inl (TeExecution message) \<Rightarrow> map_sum id (\<lambda>out. (out, GcFailed)) (execution_error_output (rw_codec w) call message)
         | Inl (TeConfig message) \<Rightarrow> map_sum id (\<lambda>out. (out, GcFailed)) (execution_error_output (rw_codec w) call message)
         | Inl err \<Rightarrow> Inl (ToolErr err))"

definition run_one :: "round_world \<Rightarrow> gateway_call_plan \<Rightarrow> executor_response_budget \<Rightarrow> budgeted" where
  "run_one w plan budget =
     (case gcp_execution plan of
        MissingHandler \<Rightarrow>
          if gcp_tool_type plan = TtToolSearch then
            (budget, Inl (ToolErr (TeConfig ''hosted tool_search has no bound catalog'')))
          else unexecuted_result w (gcp_item_index plan) (gcp_call plan)
            (''gateway tool '' @ [CHR 0x27] @ ftc_name (gcp_call plan) @ [CHR 0x27] @ '' has no registered handler'')
            None True budget
      | Bound binding \<Rightarrow>
          (case gcp_planned_result plan of
             Some result \<Rightarrow>
               planned_call_result w (gcp_item_index plan) result (gep_follow_up_output (gcp_events plan)) budget
           | None \<Rightarrow>
               (case dispatched_output w plan of
                  Inl err \<Rightarrow> (budget, Inl err)
                | Inr (out, status) \<Rightarrow>
                    accept_output (length (tou_output out))
                      \<lparr>gcr_item_index = gcp_item_index plan,
                       gcr_input = [IiFunctionCallOutput (result_message (rw_fresh_id w (gcp_item_index plan)) out)],
                       gcr_public_output = gb_public_output binding (gcp_call plan) out status,
                       gcr_follow_up_output = None, gcr_omitted = False\<rparr> budget)))"

definition resolve_gateway_call :: "round_world \<Rightarrow> gateway_call_plan \<Rightarrow> executor_response_budget \<Rightarrow> budgeted" where
  "resolve_gateway_call w plan budget =
     (case gcp_refused plan of
        None \<Rightarrow> run_one w plan budget
      | Some limit \<Rightarrow>
          unexecuted_result w (gcp_item_index plan) (gcp_call plan) (limit_reached_message limit)
            (gep_completed_output (gcp_events plan)) (gep_completed_output (gcp_events plan) = None) budget)"

text \<open>All calls run; \<open>order\<close> is the order in which they finish and charge the budget.\<close>

fun resolve_in_order ::
    "round_world \<Rightarrow> gateway_call_plan list \<Rightarrow> nat list \<Rightarrow> executor_response_budget \<Rightarrow>
      executor_response_budget \<times> (nat \<times> (executor_error + gateway_call_result)) list" where
  "resolve_in_order w calls [] budget = (budget, [])"
| "resolve_in_order w calls (i # order) budget =
     (case resolve_gateway_call w (calls ! i) budget of
        (budget1, r) \<Rightarrow>
          (case resolve_in_order w calls order budget1 of (budget2, rs) \<Rightarrow> (budget2, (i, r) # rs)))"

definition results_in_order ::
    "round_world \<Rightarrow> gateway_call_plan list \<Rightarrow> nat list \<Rightarrow> executor_response_budget \<Rightarrow>
      executor_response_budget \<times> (executor_error + gateway_call_result) list" where
  "results_in_order w calls order budget =
     (case resolve_in_order w calls order budget of
        (budget', rs) \<Rightarrow> (budget', map (\<lambda>i. the (map_of rs i)) [0..<length calls]))"

section \<open>Public output\<close>

definition custom_public_item_id :: "string \<Rightarrow> string" where
  "custom_public_item_id iid =
     (if starts_with iid ''ctc_'' then iid
      else case strip_prefix iid ''fc_'' of
        Some suffix \<Rightarrow> if suffix \<noteq> [] then ''ctc_'' @ suffix else ''ctc_'' @ hex_digits 16 (unat (stable_name_hash iid))
      | None \<Rightarrow> ''ctc_'' @ hex_digits 16 (unat (stable_name_hash iid)))"

definition shell_public_item_id :: "string \<Rightarrow> string" where
  "shell_public_item_id iid =
     (if starts_with iid ''sh_'' then iid
      else case strip_prefix iid ''fc_'' of
        Some suffix \<Rightarrow> if suffix \<noteq> [] then ''sh_'' @ suffix else ''sh_'' @ hex_digits 16 (unat (stable_name_hash iid))
      | None \<Rightarrow> ''sh_'' @ hex_digits 16 (unat (stable_name_hash iid)))"

definition try_input_from_arguments :: "event_codec \<Rightarrow> string \<Rightarrow> string option" where
  "try_input_from_arguments codec arguments =
     (case parse_json codec arguments of
        Some (JString input) \<Rightarrow> Some input
      | Some (JObject flds) \<Rightarrow> (case map_of flds ''input'' of Some (JString input) \<Rightarrow> Some input | _ \<Rightarrow> None)
      | _ \<Rightarrow> None)"

definition input_from_arguments :: "event_codec \<Rightarrow> string \<Rightarrow> string" where
  "input_from_arguments codec arguments =
     (case try_input_from_arguments codec arguments of Some input \<Rightarrow> input | None \<Rightarrow> arguments)"

definition custom_output_item :: "event_codec \<Rightarrow> function_tool_call \<Rightarrow> output_item" where
  "custom_output_item codec call = OiCustomToolCall
     \<lparr>ctc_agent = ftc_agent call, ctc_id = custom_public_item_id (ftc_id call), ctc_status = Some (ftc_status call),
      ctc_call_id = ftc_call_id call, ctc_name = ftc_name call,
      ctc_input = input_from_arguments codec (ftc_arguments call), ctc_async_execution = ftc_async_execution call\<rparr>"

fun shell_status :: "message_status \<Rightarrow> shell_call_status" where
  "shell_status MsInProgress = ShInProgress"
| "shell_status MsCompleted = ShCompleted"

definition shell_output_item_with_status ::
    "(string \<Rightarrow> shell_call_action option) \<Rightarrow> function_tool_call \<Rightarrow> shell_call_status \<Rightarrow> output_item option" where
  "shell_output_item_with_status read_action call status =
     (case read_action (ftc_arguments call) of
        None \<Rightarrow> None
      | Some action \<Rightarrow> Some (OiShellCall
          \<lparr>sc_agent = ftc_agent call, sc_id = Some (shell_public_item_id (ftc_id call)), sc_call_id = ftc_call_id call,
           sc_action = action, sc_status = Some status, sc_extra = []\<rparr>))"

definition shell_output_item :: "(string \<Rightarrow> shell_call_action option) \<Rightarrow> function_tool_call \<Rightarrow> output_item option" where
  "shell_output_item read_action call = shell_output_item_with_status read_action call (shell_status (ftc_status call))"

definition omits_item :: "gateway_call_result list \<Rightarrow> nat \<Rightarrow> bool" where
  "omits_item results item_index \<longleftrightarrow> list_ex (\<lambda>r. gcr_omitted r \<and> gcr_item_index r = item_index) results"

definition public_output_item ::
    "round_world \<Rightarrow> tool_registry \<Rightarrow> gateway_call_result list \<Rightarrow> nat \<Rightarrow> output_item \<Rightarrow> executor_error + output_item list" where
  "public_output_item w r results item_index item =
     (case item of
        OiFunctionCall call \<Rightarrow>
          if is_client_custom_name r (ftc_name call) then Inr [custom_output_item (rw_codec w) call]
          else if is_client_shell_name r (ftc_name call) then
            (case shell_output_item (rw_shell_action w) call of
               None \<Rightarrow> Inl (ParseError ''shell function call contains invalid action arguments'')
             | Some shell \<Rightarrow> Inr [shell])
          else if is_gateway_owned_name r (ftc_name call) then
            (case List.find (\<lambda>g. gcr_item_index g = item_index) results of
               None \<Rightarrow> Inr [item]
             | Some g \<Rightarrow>
                 Inr ((case gcr_public_output g of Some public \<Rightarrow> public | None \<Rightarrow> item) #
                   (case gcr_follow_up_output g of Some follow_up \<Rightarrow> [follow_up] | None \<Rightarrow> [])))
          else Inr [item]
      | _ \<Rightarrow> Inr [item])"

fun public_items_from ::
    "round_world \<Rightarrow> tool_registry \<Rightarrow> gateway_call_result list \<Rightarrow> nat \<Rightarrow> output_item list \<Rightarrow> executor_error + output_item list" where
  "public_items_from w r results item_index [] = Inr []"
| "public_items_from w r results item_index (item # items) =
     (if omits_item results item_index then public_items_from w r results (Suc item_index) items
      else and_then (public_output_item w r results item_index item) (\<lambda>public.
           and_then (public_items_from w r results (Suc item_index) items) (\<lambda>rest. Inr (public @ rest))))"

definition public_output_items ::
    "round_world \<Rightarrow> output_item list \<Rightarrow> tool_registry \<Rightarrow> gateway_call_result list \<Rightarrow> executor_error + output_item list" where
  "public_output_items w items r results = public_items_from w r results 0 items"

definition mcp_list_tools_event_plans :: "output_item list \<Rightarrow> nat \<Rightarrow> gateway_event_plan list" where
  "mcp_list_tools_event_plans items output_offset =
     List.map_filter (\<lambda>(n, item). case item of
         OiMcpListTools tools \<Rightarrow>
           Some \<lparr>gep_output_index = u32_or_max (saturating_add output_offset n),
             gep_started_output = Some (started_list_tools_output_item tools), gep_completed_output = Some item,
             gep_follow_up_output = None, gep_arguments = None\<rparr>
       | _ \<Rightarrow> None) (enumerate 0 items)"

definition compaction_event_plans :: "output_item list \<Rightarrow> nat \<Rightarrow> gateway_event_plan list" where
  "compaction_event_plans items output_offset =
     List.map_filter (\<lambda>(n, item). case item of
         OiCompaction _ \<Rightarrow>
           Some \<lparr>gep_output_index = u32_or_max (saturating_add output_offset n), gep_started_output = Some item,
             gep_completed_output = Some item, gep_follow_up_output = None, gep_arguments = None\<rparr>
       | _ \<Rightarrow> None) (enumerate 0 items)"

section \<open>Lifecycle events\<close>

datatype gateway_event =
    GeAdded nat output_item
  | GeFields sse_event_type "(string \<times> json) list"
  | GeCode sse_event_type string nat "(string \<times> json) list" "output_item option"
  | GeCompleted sse_event_type string nat output_item
  | GeDone nat output_item

definition added_item :: "output_item \<Rightarrow> output_item" where
  "added_item item =
     (case item of OiCodeInterpreterCall call \<Rightarrow> OiCodeInterpreterCall (call\<lparr>cic_code := []\<rparr>) | _ \<Rightarrow> item)"

text \<open>A code interpreter event is serialized with the relay's next sequence number, which the sink stamps again. The
  events of a completion are built after their item was serialized, so they fail with it.\<close>

definition code_interpreter_event_frame ::
    "sse_event_type \<Rightarrow> string \<Rightarrow> nat \<Rightarrow> (string \<times> json) list \<Rightarrow> stream_relay \<Rightarrow> event_frame" where
  "code_interpreter_event_frame t iid n extra relay =
     \<lparr>ef_event_type = t, ef_payload = PlNone,
      ef_wire = \<lparr>we_type = event_name t, we_sequence_number = Some (ps_next_sequence_number (sr_presentation relay)),
        we_output_index = Some n, we_agent = None, we_rest = string_field ''item_id'' iid # extra\<rparr>\<rparr>"

fun gateway_frame :: "event_codec \<Rightarrow> gateway_event \<Rightarrow> stream_relay \<Rightarrow> executor_error + event_frame" where
  "gateway_frame codec (GeAdded n item) relay =
     and_then (to_value (item_json codec) (added_item item)) (\<lambda>v.
       synthetic_event EvOutputItemAdded [output_index_field n, (''item'', v)])"
| "gateway_frame codec (GeFields t flds) relay = synthetic_event t flds"
| "gateway_frame codec (GeCode t iid n extra item) relay =
     and_then (case item of None \<Rightarrow> Inr JNull | Some i \<Rightarrow> to_value (item_json codec) i) (\<lambda>_.
       Inr (code_interpreter_event_frame t iid n extra relay))"
| "gateway_frame codec (GeCompleted t iid n item) relay =
     and_then (to_value (item_json codec) item) (\<lambda>v.
       synthetic_event t ([string_field ''item_id'' iid, output_index_field n] @
         (case item of OiWebSearchCall _ \<Rightarrow> [(''item'', v)] | _ \<Rightarrow> [])))"
| "gateway_frame codec (GeDone n item) relay = item_done_frame codec item n"

definition emit_gateway_events ::
    "event_codec \<Rightarrow> gateway_event list \<Rightarrow> stream_relay \<Rightarrow> stream_relay \<times> (executor_error + unit)" where
  "emit_gateway_events codec evs relay =
     (if \<not> is_live relay then (relay, Inr ()) else emit_locals codec (map (gateway_frame codec) evs) relay)"

definition code_interpreter_start_events :: "code_interpreter_call \<Rightarrow> nat \<Rightarrow> gateway_event list" where
  "code_interpreter_start_events call n =
     [GeCode EvCodeInterpreterCallInProgress (cic_id call) n [] None,
      GeCode EvCodeInterpreterCallCodeDelta (cic_id call) n [string_field ''delta'' (cic_code call)] None,
      GeCode EvCodeInterpreterCallCodeDone (cic_id call) n [string_field ''code'' (cic_code call)] None,
      GeCode EvCodeInterpreterCallInterpreting (cic_id call) n [] None]"

definition start_events :: "gateway_event_plan \<Rightarrow> gateway_event list" where
  "start_events plan =
     (let n = gep_output_index plan in
      case gep_started_output plan of
        None \<Rightarrow> []
      | Some item \<Rightarrow>
          GeAdded n item #
          (case item of
             OiWebSearchCall call \<Rightarrow>
               [GeFields EvWebSearchCallInProgress [string_field ''item_id'' (wsc_id call), output_index_field n],
                GeFields EvWebSearchCallSearching [string_field ''item_id'' (wsc_id call), output_index_field n]]
           | OiMcpCall call \<Rightarrow>
               let arguments = (case gep_arguments plan of Some a \<Rightarrow> a | None \<Rightarrow> []) in
               [GeFields EvMcpCallInProgress [string_field ''item_id'' (mc_id call), output_index_field n],
                GeFields EvMcpCallArgumentsDelta
                  [string_field ''delta'' arguments, string_field ''item_id'' (mc_id call), output_index_field n],
                GeFields EvMcpCallArgumentsDone
                  [string_field ''arguments'' arguments, string_field ''item_id'' (mc_id call), output_index_field n]]
           | OiMcpListTools tools \<Rightarrow>
               [GeFields EvMcpListToolsInProgress [string_field ''item_id'' (mls_id tools), output_index_field n]]
           | OiCodeInterpreterCall call \<Rightarrow> code_interpreter_start_events call n
           | _ \<Rightarrow> []))"

definition emit_gateway_start_events ::
    "event_codec \<Rightarrow> gateway_event_plan list \<Rightarrow> stream_relay \<Rightarrow> stream_relay \<times> (executor_error + unit)" where
  "emit_gateway_start_events codec plans relay = emit_gateway_events codec (concat (map start_events plans)) relay"

text \<open>The events that complete an item of a kind the gateway reports; other kinds complete elsewhere.\<close>

fun completion_events :: "nat \<Rightarrow> output_item \<Rightarrow> gateway_event list option" where
  "completion_events n (OiWebSearchCall call) =
     Some (if wsc_status call \<noteq> WsSearching
       then [GeCompleted EvWebSearchCallCompleted (wsc_id call) n (OiWebSearchCall call)] else [])"
| "completion_events n (OiMcpCall call) =
     Some [GeCompleted (if mc_status call = Some McFailed then EvMcpCallFailed else EvMcpCallCompleted) (mc_id call) n
       (OiMcpCall call)]"
| "completion_events n (OiMcpListTools tools) =
     Some [GeCompleted (if mls_error tools \<noteq> None then EvMcpListToolsFailed else EvMcpListToolsCompleted) (mls_id tools) n
       (OiMcpListTools tools)]"
| "completion_events n (OiCodeInterpreterCall call) =
     Some (if cic_status call \<noteq> CiInterpreting
       then [GeCode EvCodeInterpreterCallCompleted (cic_id call) n [] (Some (OiCodeInterpreterCall call))] else [])"
| "completion_events n (OiCompaction _) = Some []"
| "completion_events n (OiShellCall _) = Some []"
| "completion_events n (OiToolSearchCall _) = Some []"
| "completion_events n (OiToolSearchOutput _) = Some []"
| "completion_events n _ = None"

definition follow_up_added :: "output_item \<Rightarrow> output_item" where
  "follow_up_added item =
     (case item of OiToolSearchOutput out \<Rightarrow> OiToolSearchOutput (out\<lparr>tso_status := TsInProgress\<rparr>) | _ \<Rightarrow> item)"

definition follow_up_events :: "nat \<Rightarrow> output_item \<Rightarrow> gateway_event list" where
  "follow_up_events n item = [GeAdded n (follow_up_added item), GeDone n item]"

definition completed_events :: "gateway_event_plan \<Rightarrow> output_item option \<Rightarrow> gateway_event list" where
  "completed_events plan result_output =
     (let n = gep_output_index plan in
      case (case gep_completed_output plan of Some item \<Rightarrow> Some item | None \<Rightarrow> result_output) of
        None \<Rightarrow> []
      | Some item \<Rightarrow>
          (case completion_events n item of
             None \<Rightarrow> []
           | Some evs \<Rightarrow>
               evs @ [GeDone n item] @
               (case gep_follow_up_output plan of
                  None \<Rightarrow> []
                | Some follow_up \<Rightarrow> follow_up_events (min (n + 1) (2 ^ 32 - 1)) follow_up)))"

text \<open>Plan \<open>n\<close> takes its output from result \<open>n\<close> when it has none of its own.\<close>

definition all_completed_events :: "output_item option list \<Rightarrow> gateway_event_plan list \<Rightarrow> gateway_event list" where
  "all_completed_events outputs plans =
     concat (map (\<lambda>(n, plan). completed_events plan (if n < length outputs then outputs ! n else None)) (enumerate 0 plans))"

definition emit_gateway_completed_events ::
    "event_codec \<Rightarrow> output_item option list \<Rightarrow> gateway_event_plan list \<Rightarrow> stream_relay \<Rightarrow> stream_relay \<times> (executor_error + unit)" where
  "emit_gateway_completed_events codec outputs plans relay =
     emit_gateway_events codec (all_completed_events outputs plans) relay"

text \<open>\<open>start_value\<close> is the response as it starts: in progress, without output and usage, serialized.\<close>

definition emit_response_start_events ::
    "event_codec \<Rightarrow> json option \<Rightarrow> stream_relay \<Rightarrow> stream_relay \<times> (executor_error + unit)" where
  "emit_response_start_events codec start_value relay =
     (if \<not> is_live relay then (relay, Inr ())
      else case start_value of
        None \<Rightarrow> (relay, Inl JsonError)
      | Some v \<Rightarrow>
          emit_locals codec (map (\<lambda>t _. synthetic_event t [(''response'', v)]) [EvResponseCreated, EvResponseInProgress]) relay)"

section \<open>Emission in call order\<close>

definition no_result :: executor_error where
  "no_result = StreamError ''a planned gateway call produced no result''"

text \<open>The consumer without deferred frames: it completes one result after another and announces the calls up to the
  next follow-up item. It stops at the first error, of a call or of the relay.\<close>

fun emit_results ::
    "event_codec \<Rightarrow> gateway_event_plan list \<Rightarrow> nat \<Rightarrow> gateway_call_result list \<Rightarrow> (executor_error + gateway_call_result) list \<Rightarrow>
      stream_relay \<Rightarrow> stream_relay \<times> (executor_error + gateway_call_result list)" where
  "emit_results codec plans announced got [] relay =
     (relay, if length got < length plans then Inl no_result else Inr got)"
| "emit_results codec plans announced got (r # rs) relay =
     (if length plans \<le> length got then (relay, Inr got)
      else case r of
        Inl err \<Rightarrow> (relay, Inl err)
      | Inr result \<Rightarrow>
          (case emit_gateway_completed_events codec [gcr_public_output result] [plans ! length got] relay of
             (relay1, Inl err) \<Rightarrow> (relay1, Inl err)
           | (relay1, Inr _) \<Rightarrow>
               let next_run_end = start_run_end plans (length got + 1) in
               (case emit_gateway_start_events codec (drop announced (take next_run_end plans)) relay1 of
                  (relay2, Inl err) \<Rightarrow> (relay2, Inl err)
                | (relay2, Inr _) \<Rightarrow>
                    emit_results codec plans (max announced next_run_end) (got @ [result]) rs relay2)))"

definition emit_calls_in_order ::
    "round_world \<Rightarrow> gateway_scheduler \<Rightarrow> nat list \<Rightarrow> executor_response_budget \<Rightarrow> stream_relay \<Rightarrow>
      stream_relay \<times> executor_response_budget \<times> (executor_error + gateway_call_result list)" where
  "emit_calls_in_order w s order budget relay =
     (let plans = event_plans s; announced = start_run_end plans 0 in
      case emit_gateway_start_events (rw_codec w) (take announced plans) relay of
        (relay1, Inl err) \<Rightarrow> (relay1, budget, Inl err)
      | (relay1, Inr _) \<Rightarrow>
          (case results_in_order w (gsc_calls s) order budget of
             (budget', results) \<Rightarrow>
               (case emit_results (rw_codec w) plans announced [] results relay1 of
                  (relay2, r) \<Rightarrow> (relay2, budget', r))))"

text \<open>The consumer around the deferred frames of an upstream round; the release loop may not end, so it is partial.\<close>

fun relay_items ::
    "round_world \<Rightarrow> relay_context \<Rightarrow> gateway_scheduler \<Rightarrow> nat \<Rightarrow> nat list \<Rightarrow> gateway_call_result list \<Rightarrow>
      (executor_error + gateway_call_result) list \<Rightarrow> stream_relay \<Rightarrow>
      (stream_relay \<times> (executor_error + gateway_call_result list)) option" where
  "relay_items w ctx s initial [] got results relay = Some (relay, Inr got)"
| "relay_items w ctx s initial (n # ns) got results relay =
     (let public_index = public_item_index s n;
          after_call = (case call_index_for_item s n of
            None \<Rightarrow> (relay, Inr (got, results))
          | Some call_index \<Rightarrow>
              let plan = event_plans s ! call_index in
              (case (if public_index \<noteq> None \<and> call_index \<ge> initial
                     then emit_gateway_start_events (rw_codec w) [plan] relay else (relay, Inr ())) of
                 (relay1, Inl err) \<Rightarrow> (relay1, Inl err)
               | (relay1, Inr _) \<Rightarrow>
                   (case results of
                      [] \<Rightarrow> (relay1, Inl no_result)
                    | Inl err # _ \<Rightarrow> (relay1, Inl err)
                    | Inr result # rest \<Rightarrow>
                        (case (if public_index \<noteq> None
                               then emit_gateway_completed_events (rw_codec w) [gcr_public_output result] [plan] relay1
                               else (relay1, Inr ())) of
                           (relay2, Inl err) \<Rightarrow> (relay2, Inl err)
                         | (relay2, Inr _) \<Rightarrow> (relay2, Inr (got @ [result], rest))))))
      in case after_call of
           (relay1, Inl err) \<Rightarrow> Some (relay1, Inl err)
         | (relay1, Inr (got', results')) \<Rightarrow>
             (case public_index of
                None \<Rightarrow> relay_items w ctx s initial ns got' results' relay1
              | Some p \<Rightarrow>
                  (case release_deferred (rw_codec w) (RelItem n p) ctx relay1 of
                     None \<Rightarrow> None
                   | Some (relay2, Inl err) \<Rightarrow> Some (relay2, Inl err)
                   | Some (relay2, Inr _) \<Rightarrow> relay_items w ctx s initial ns got' results' relay2)))"

definition relay_round_events ::
    "round_world \<Rightarrow> relay_context \<Rightarrow> gateway_scheduler \<Rightarrow> nat list \<Rightarrow> nat \<Rightarrow> nat \<Rightarrow> executor_response_budget \<Rightarrow> stream_relay \<Rightarrow>
      (stream_relay \<times> executor_response_budget \<times> (executor_error + gateway_call_result list)) option" where
  "relay_round_events w ctx s order item_count initial budget relay =
     (case results_in_order w (gsc_calls s) order budget of
        (budget', results) \<Rightarrow>
          (case relay_items w ctx s initial [0..<item_count] [] results relay of
             None \<Rightarrow> None
           | Some (relay1, Inl err) \<Rightarrow> Some (relay1, budget', Inl err)
           | Some (relay1, Inr got) \<Rightarrow>
               (case release_deferred (rw_codec w) RelAll ctx relay1 of
                  None \<Rightarrow> None
                | Some (relay2, Inl err) \<Rightarrow> Some (relay2, budget', Inl err)
                | Some (relay2, Inr _) \<Rightarrow> Some (relay2, budget', Inr got))))"

text \<open>Plan, execute and relay one round's calls.\<close>

definition execute_and_emit_output_calls ::
    "round_world \<Rightarrow> output_item list \<Rightarrow> tool_registry \<Rightarrow> nat \<Rightarrow> nat list \<Rightarrow> executor_response_budget \<Rightarrow>
      built_in_tool_call_budget \<Rightarrow> stream_relay \<Rightarrow>
      stream_relay \<times> executor_response_budget \<times> built_in_tool_call_budget \<times> (executor_error + gateway_call_result list)" where
  "execute_and_emit_output_calls w items r output_offset order budget tool_budget relay =
     (case plan_with_budget items r output_offset tool_budget of
        (s, tool_budget') \<Rightarrow>
          (case emit_calls_in_order w s order budget relay of
             (relay', budget', result) \<Rightarrow> (relay', budget', tool_budget', result)))"

end
