(* ===== verification/Gateway_Safety.thy ===== *)
theory Gateway_Safety
  imports Gateway_Rounds
begin

text \<open>
  What a gateway round guarantees (\<open>executor/gateway.rs\<close>, \<open>executor/gateway/\<close>): admission under
  \<open>max_tool_calls\<close> over all rounds of a response, and the agreement of the positions a plan announces with the public
  output that is built after the calls ran.
\<close>

section \<open>One planned call\<close>

definition hidden_call :: "gateway_call_plan \<Rightarrow> bool" where
  "hidden_call c \<longleftrightarrow> gep_completed_output (gcp_events c) = None \<and>
     (gcp_refused c \<noteq> None \<or> gcp_execution c = MissingHandler)"

definition widened_call :: "gateway_call_plan \<Rightarrow> bool" where
  "widened_call c \<longleftrightarrow> gep_follow_up_output (gcp_events c) \<noteq> None"

definition counted_call :: "gateway_call_plan \<Rightarrow> bool" where
  "counted_call c \<longleftrightarrow> gcp_tool_type c \<noteq> TtToolSearch"

definition shown_refusal :: "gateway_call_plan \<Rightarrow> bool" where
  "shown_refusal c \<longleftrightarrow> gep_completed_output (gcp_events c) \<noteq> None"

definition coherent_call :: "gateway_call_plan \<Rightarrow> bool" where
  "coherent_call c \<longleftrightarrow>
     gep_follow_up_output (gcp_events c) = map_option follow_up_output (gcp_planned_result c) \<and>
     (gcp_refused c \<noteq> None \<or> gcp_execution c = MissingHandler \<longrightarrow> gcp_planned_result c = None) \<and>
     (hidden_call c \<longrightarrow> gep_started_output (gcp_events c) = None) \<and>
     (shown_refusal c \<longrightarrow> gcp_refused c \<noteq> None)"

lemmas call_shape_defs = hidden_call_def widened_call_def counted_call_def shown_refusal_def coherent_call_def

lemma u32_or_max_saturated: "u32_or_max (saturating_add (saturating_add a b) c) = u32_or_max (a + b + c)"
  by (simp add: u32_or_max_def saturating_add_def USIZE_MAX_def min_def)

lemma plan_call_step:
  assumes "plan_call off k call e binding (s, b) = (s', b')"
  shows "\<exists>c. gsc_calls s' = gsc_calls s @ [c] \<and> gcp_item_index c = k \<and> gcp_call c = call \<and> coherent_call c \<and>
    gcp_tool_type c = ten_tool_type e \<and>
    gep_output_index (gcp_events c) = u32_or_max (off + (k - length (gsc_omitted_items s)) + length (gsc_expanded_items s)) \<and>
    gsc_omitted_items s' = gsc_omitted_items s @ (if hidden_call c then [k] else []) \<and>
    gsc_expanded_items s' = gsc_expanded_items s @ (if widened_call c then [k] else []) \<and>
    (if counted_call c
     then b' = (fst (admit_call b))\<lparr>tcb_refusal_shown := tcb_refusal_shown b \<or> shown_refusal c\<rparr> \<and>
       gcp_refused c = (case snd (admit_call b) of Dispatch \<Rightarrow> None | Refuse limit _ \<Rightarrow> Some limit) \<and>
       (shown_refusal c \<longrightarrow> \<not> tcb_refusal_shown b)
     else b' = b \<and> gcp_refused c = None \<and> \<not> shown_refusal c)"
proof -
  obtain started planned where bp: "binding_plan binding call = (started, planned)" by fastforce
  have unbound: "binding = None \<Longrightarrow> started = None \<and> planned = None" using bp by (simp add: binding_plan_def)
  note step = assms [unfolded plan_call_def prod.case bp, symmetric]
  have shown: "tcb_refusal_shown (fst (admit_call b)) = tcb_refusal_shown b"
    and visible: "snd (admit_call b) = Refuse l v \<Longrightarrow> v = (\<not> tcb_refusal_shown b)" for l v
    by (auto simp: admit_call_def split: option.splits if_splits)
  have same: "(bb::built_in_tool_call_budget)\<lparr>tcb_refusal_shown := tcb_refusal_shown bb\<rparr> = bb" for bb by simp
  show ?thesis
  proof (cases "ten_tool_type e = TtToolSearch")
    case True
    with step unbound show ?thesis
      by (intro exI [of _ "last (gsc_calls s')"], cases binding; cases planned) (simp_all add: call_shape_defs u32_or_max_saturated)
  next
    case False
    obtain b1 a where ad: "admit_call b = (b1, a)" by fastforce
    have b1: "tcb_refusal_shown b1 = tcb_refusal_shown b" using shown ad by simp
    show ?thesis
    proof (cases a)
      case Dispatch
      with step False unbound b1 same [of b1] show ?thesis
        by (intro exI [of _ "last (gsc_calls s')"], cases binding; cases planned) (simp_all add: ad call_shape_defs u32_or_max_saturated)
    next
      case (Refuse l v)
      then have v: "v = (\<not> tcb_refusal_shown b)" using visible ad by simp
      have marked: "mark_refusal_shown b1 = b1\<lparr>tcb_refusal_shown := True\<rparr>" by (simp add: mark_refusal_shown_def)
      show ?thesis
      proof (cases "case started of Some item \<Rightarrow> if v then refused_output item else None | None \<Rightarrow> None")
        case None
        with step False Refuse b1 same [of b1] show ?thesis
          by (intro exI [of _ "last (gsc_calls s')"], cases binding; cases planned) (simp_all add: ad call_shape_defs u32_or_max_saturated)
      next
        case (Some item)
        then obtain it where it: "started = Some it" "refused_output it = Some item" "v = True"
          by (auto split: option.splits if_splits)
        with step False Refuse b1 v unbound marked show ?thesis
          by (intro exI [of _ "last (gsc_calls s')"], cases binding; cases planned) (simp_all add: ad call_shape_defs u32_or_max_saturated)
      qed
    qed
  qed
qed

section \<open>Admission over a response\<close>

definition admit_step :: "built_in_tool_call_budget \<Rightarrow> gateway_call_plan \<Rightarrow> built_in_tool_call_budget \<Rightarrow> bool" where
  "admit_step b c b' \<longleftrightarrow>
     (if counted_call c
      then b' = (fst (admit_call b))\<lparr>tcb_refusal_shown := tcb_refusal_shown b \<or> shown_refusal c\<rparr> \<and>
        gcp_refused c = (case snd (admit_call b) of Dispatch \<Rightarrow> None | Refuse limit _ \<Rightarrow> Some limit) \<and>
        (shown_refusal c \<longrightarrow> \<not> tcb_refusal_shown b)
      else b' = b \<and> gcp_refused c = None \<and> \<not> shown_refusal c)"

fun admissions :: "built_in_tool_call_budget \<Rightarrow> gateway_call_plan list \<Rightarrow> built_in_tool_call_budget \<Rightarrow> bool" where
  "admissions b [] b' \<longleftrightarrow> b' = b"
| "admissions b (c # cs) b' \<longleftrightarrow> (\<exists>b1. admit_step b c b1 \<and> admissions b1 cs b')"

lemma admissions_append: "admissions b cs b1 \<Longrightarrow> admissions b1 ds b2 \<Longrightarrow> admissions b (cs @ ds) b2"
  by (induction cs arbitrary: b) auto

lemma plan_items_admissions:
  "plan_items r off k items (s, b) = (s', b') \<Longrightarrow> \<exists>cs. gsc_calls s' = gsc_calls s @ cs \<and> admissions b cs b'"
proof (induction items arbitrary: k s b)
  case (Cons item items)
  show ?case
  proof (cases "gateway_call r item")
    case None
    with Cons show ?thesis by auto
  next
    case (Some call)
    obtain c e binding where call: "call = (c, e, binding)" by (cases call) auto
    obtain s1 b1 where p: "plan_call off k c e binding (s, b) = (s1, b1)" by fastforce
    with plan_call_step [OF p] obtain d where "gsc_calls s1 = gsc_calls s @ [d]" and "admit_step b d b1"
      unfolding admit_step_def by blast
    moreover from Cons.prems Some call p have "plan_items r off (Suc k) items (s1, b1) = (s', b')" by simp
    ultimately show ?thesis using Cons.IH by (metis append.assoc append_Cons append_Nil admissions.simps(2))
  qed
qed simp

lemma admit_limited:
  assumes "tcb_limit b = Some limit" and "limit \<le> USIZE_MAX"
  shows "admit_call b = (if tcb_dispatched b < limit then (b\<lparr>tcb_dispatched := tcb_dispatched b + 1\<rparr>, Dispatch)
    else (b\<lparr>tcb_refused := True\<rparr>, Refuse limit (\<not> tcb_refusal_shown b)))"
  using assms by (auto simp: admit_call_def saturating_add_def)

text \<open>What a run of admissions from a given budget decides.\<close>

lemma admissions_limit:
  assumes "admissions b cs b'" and "tcb_limit b = Some limit" and "limit \<le> USIZE_MAX" and "tcb_dispatched b \<le> limit"
  defines "n \<equiv> length (filter counted_call cs)" and "free \<equiv> limit - tcb_dispatched b"
  shows "tcb_limit b' = Some limit \<and> tcb_dispatched b' = min limit (tcb_dispatched b + n) \<and>
    map gcp_refused (filter counted_call cs) = replicate (min n free) None @ replicate (n - free) (Some limit) \<and>
    (tcb_refused b' \<longleftrightarrow> tcb_refused b \<or> free < n) \<and>
    length (filter shown_refusal cs) \<le> (if tcb_refusal_shown b then 0 else 1) \<and>
    (\<forall>c \<in> set cs. \<not> counted_call c \<longrightarrow> gcp_refused c = None)"
  using assms(1-4) unfolding n_def free_def
proof (induction cs arbitrary: b)
  case (Cons c cs)
  then obtain b1 where step: "admit_step b c b1" and rest: "admissions b1 cs b'" by auto
  show ?case
  proof (cases "counted_call c")
    case False
    with step have "b1 = b" "gcp_refused c = None" "\<not> shown_refusal c" by (auto simp: admit_step_def)
    with Cons.IH [of b] rest Cons.prems False show ?thesis by auto
  next
    case True
    note ad = admit_limited [OF Cons.prems(2,3)]
    show ?thesis
    proof (cases "tcb_dispatched b < limit")
      case room: True
      with step True ad have b1: "b1 = b\<lparr>tcb_dispatched := tcb_dispatched b + 1, tcb_refusal_shown := tcb_refusal_shown b \<or> shown_refusal c\<rparr>"
        and c: "gcp_refused c = None" "shown_refusal c \<longrightarrow> \<not> tcb_refusal_shown b"
        by (auto simp: admit_step_def)
      obtain m where m: "limit = Suc (tcb_dispatched b + m)" using room less_imp_Suc_add by blast
      from Cons.IH [OF rest] b1 Cons.prems room True c m show ?thesis by (auto simp: min_def)
    next
      case full: False
      with step True ad have b1: "b1 = b\<lparr>tcb_refused := True, tcb_refusal_shown := tcb_refusal_shown b \<or> shown_refusal c\<rparr>"
        and c: "gcp_refused c = Some limit" "shown_refusal c \<longrightarrow> \<not> tcb_refusal_shown b"
        by (auto simp: admit_step_def)
      from Cons.IH [OF rest] b1 Cons.prems full True c show ?thesis by auto
    qed
  qed
qed auto

text \<open>The rounds of one response share its budget; registry and output offset may differ from round to round.\<close>

fun plan_rounds ::
    "(output_item list \<times> tool_registry \<times> nat) list \<Rightarrow> built_in_tool_call_budget \<Rightarrow>
      gateway_scheduler list \<times> built_in_tool_call_budget" where
  "plan_rounds [] budget = ([], budget)"
| "plan_rounds ((items, r, off) # rounds) budget =
     (case plan_with_budget items r off budget of
        (s, budget1) \<Rightarrow> (case plan_rounds rounds budget1 of (ss, budget2) \<Rightarrow> (s # ss, budget2)))"

definition planned_calls :: "gateway_scheduler list \<Rightarrow> gateway_call_plan list" where
  "planned_calls ss = concat (map gsc_calls ss)"

lemma plan_rounds_admissions: "plan_rounds rounds b = (ss, b') \<Longrightarrow> admissions b (planned_calls ss) b'"
proof (induction rounds b arbitrary: ss b' rule: plan_rounds.induct)
  case (2 items r off rounds budget)
  obtain s b1 where p: "plan_with_budget items r off budget = (s, b1)" by fastforce
  obtain ss' b2 where q: "plan_rounds rounds b1 = (ss', b2)" by fastforce
  have "admissions b1 (planned_calls ss') b2" using "2.IH" p q by auto
  moreover have "admissions budget (gsc_calls s) b1"
    using plan_items_admissions [of r off 0 items empty_scheduler budget s b1] p
    by (auto simp: plan_with_budget_def empty_scheduler_def)
  ultimately show ?case using "2.prems" p q by (auto simp: planned_calls_def intro: admissions_append)
qed (simp add: planned_calls_def)

lemma refused_call_never_runs:
  "gcp_refused c \<noteq> None \<Longrightarrow> resolve_gateway_call (w\<lparr>rw_answer := answer\<rparr>) c b = resolve_gateway_call w c b"
  by (auto simp: resolve_gateway_call_def unexecuted_result_def accept_output_def split: sum.splits)

text \<open>C7. \<open>max_tool_calls\<close> holds over all rounds of a response. Of the gateway calls that count, the first \<open>limit\<close> in the
  order of the model's output are dispatched and every later one is refused, whatever the rounds, registries and offsets; a
  hosted tool search neither counts nor is refused. The response shows at most one refused call, a refused call never
  reaches its executor, and the response is known to have refused a call exactly when the limit was exceeded.\<close>

theorem max_tool_calls_respected:
  assumes "plan_rounds rounds (new_tool_call_budget (Some limit)) = (ss, budget)" and "limit \<le> USIZE_MAX"
  defines "counted \<equiv> filter (\<lambda>c. gcp_tool_type c \<noteq> TtToolSearch) (planned_calls ss)"
  shows "map gcp_refused counted =
      replicate (min (length counted) limit) None @ replicate (length counted - limit) (Some limit) \<and>
    (\<forall>c \<in> set (planned_calls ss). gcp_tool_type c = TtToolSearch \<longrightarrow> gcp_refused c = None) \<and>
    length (filter (\<lambda>c. gep_completed_output (gcp_events c) \<noteq> None) (planned_calls ss)) \<le> 1 \<and>
    (\<forall>c \<in> set (planned_calls ss). gcp_refused c \<noteq> None \<longrightarrow>
       (\<forall>w answer b. resolve_gateway_call (w\<lparr>rw_answer := answer\<rparr>) c b = resolve_gateway_call w c b)) \<and>
    (has_refused budget \<longleftrightarrow> limit < length counted)"
  using admissions_limit [OF plan_rounds_admissions [OF assms(1)], of limit] assms(2) refused_call_never_runs
  unfolding counted_def by (auto simp: new_tool_call_budget_def has_refused_def counted_call_def [abs_def] shown_refusal_def [abs_def])

section \<open>Positions\<close>

definition count_below :: "nat list \<Rightarrow> nat \<Rightarrow> nat" where
  "count_below is i = length (filter (\<lambda>j. j < i) is)"

definition position_of :: "gateway_scheduler \<Rightarrow> nat \<Rightarrow> nat" where
  "position_of s i = i - count_below (gsc_omitted_items s) i + count_below (gsc_expanded_items s) i"

definition planned_for :: "output_item list \<Rightarrow> tool_registry \<Rightarrow> nat \<Rightarrow> gateway_scheduler \<Rightarrow> gateway_call_plan \<Rightarrow> bool" where
  "planned_for items r off s c \<longleftrightarrow>
     coherent_call c \<and> items ! gcp_item_index c = OiFunctionCall (gcp_call c) \<and>
     is_gateway_owned_name r (ftc_name (gcp_call c)) \<and>
     gep_output_index (gcp_events c) = u32_or_max (off + position_of s (gcp_item_index c))"

text \<open>The scheduler after the items before \<open>k\<close>: its lists are projections of its calls.\<close>

definition round_ok :: "output_item list \<Rightarrow> tool_registry \<Rightarrow> nat \<Rightarrow> nat \<Rightarrow> gateway_scheduler \<Rightarrow> bool" where
  "round_ok items r off k s \<longleftrightarrow>
     sorted_wrt (<) (map gcp_item_index (gsc_calls s)) \<and>
     gsc_omitted_items s = map gcp_item_index (filter hidden_call (gsc_calls s)) \<and>
     gsc_expanded_items s = map gcp_item_index (filter widened_call (gsc_calls s)) \<and>
     (\<forall>c \<in> set (gsc_calls s). gcp_item_index c < k \<and> planned_for items r off s c)"

lemma count_below_append: "count_below (is @ js) i = count_below is i + count_below js i"
  by (simp add: count_below_def)

lemma count_below_all: "\<forall>j \<in> set is. j < i \<Longrightarrow> count_below is i = length is"
  by (simp add: count_below_def)

lemma count_below_none: "\<forall>j \<in> set is. i \<le> j \<Longrightarrow> count_below is i = 0"
  by (auto simp: count_below_def filter_empty_conv)

lemma gateway_call_Some:
  "gateway_call r item = Some (call, e, binding) \<Longrightarrow> item = OiFunctionCall call \<and> is_gateway_owned_name r (ftc_name call)"
  by (auto simp: gateway_call_def is_gateway_owned_name_def split: output_item.splits option.splits tool_ownership.splits)

lemma plan_call_round_ok:
  assumes ok: "round_ok items r off k s" and call: "gateway_call r (items ! k) = Some (call, e, binding)"
    and p: "plan_call off k call e binding (s, b) = (s', b')"
  shows "round_ok items r off (Suc k) s'"
proof -
  from plan_call_step [OF p] obtain c where
    c: "gsc_calls s' = gsc_calls s @ [c]" "gcp_item_index c = k" "gcp_call c = call" "coherent_call c"
      "gep_output_index (gcp_events c) = u32_or_max (off + (k - length (gsc_omitted_items s)) + length (gsc_expanded_items s))"
    and lists: "gsc_omitted_items s' = gsc_omitted_items s @ (if hidden_call c then [k] else [])"
      "gsc_expanded_items s' = gsc_expanded_items s @ (if widened_call c then [k] else [])"
    by blast
  have below: "\<forall>j \<in> set (gsc_omitted_items s). j < k" "\<forall>j \<in> set (gsc_expanded_items s). j < k"
    using ok by (auto simp: round_ok_def)
  have same: "position_of s' i = position_of s i" if "i \<le> k" for i
    using that lists by (auto simp: position_of_def count_below_append count_below_none)
  have "position_of s' k = k - length (gsc_omitted_items s) + length (gsc_expanded_items s)"
    using same [of k] below by (simp add: position_of_def count_below_all)
  moreover have "planned_for items r off s' d" if "d \<in> set (gsc_calls s)" for d
    using that ok same by (auto simp: round_ok_def planned_for_def dest: less_imp_le)
  ultimately show ?thesis
    using ok c lists gateway_call_Some [OF call]
    by (auto simp: round_ok_def planned_for_def sorted_wrt_append less_Suc_eq add.assoc)
qed

lemma plan_items_round_ok:
  "plan_items r off k items (s, b) = (s', b') \<Longrightarrow> drop k all_items = items \<Longrightarrow>
   k + length items = length all_items \<Longrightarrow> round_ok all_items r off k s \<Longrightarrow>
   round_ok all_items r off (length all_items) s'"
proof (induction items arbitrary: k s b)
  case Nil
  then show ?case by (auto simp: round_ok_def)
next
  case (Cons item items)
  have k: "k < length all_items" "all_items ! k = item" "drop (Suc k) all_items = items"
    using Cons.prems(2,3) by (simp, metis nth_via_drop, metis drop_Suc list.sel(3) tl_drop)
  show ?case
  proof (cases "gateway_call r item")
    case None
    moreover have "round_ok all_items r off (Suc k) s" using Cons.prems(4) by (auto simp: round_ok_def)
    ultimately show ?thesis using Cons.prems(1,3) Cons.IH k(3) by auto
  next
    case (Some call)
    obtain c e binding where call: "call = (c, e, binding)" by (cases call) auto
    obtain s1 b1 where p: "plan_call off k c e binding (s, b) = (s1, b1)" by fastforce
    have "round_ok all_items r off (Suc k) s1"
      using plan_call_round_ok [OF Cons.prems(4) _ p] Some call k(2) by simp
    with Cons.IH [of "Suc k" s1 b1] Cons.prems(1,3) Some call p k(3) show ?thesis by simp
  qed
qed

lemma plan_round_ok:
  "plan_with_budget items r off b = (s, b') \<Longrightarrow> round_ok items r off (length items) s"
  using plan_items_round_ok [of r off 0 items empty_scheduler b s b' items]
  by (simp add: plan_with_budget_def round_ok_def empty_scheduler_def)

section \<open>Results\<close>

definition result_fits :: "gateway_call_plan \<Rightarrow> gateway_call_result \<Rightarrow> bool" where
  "result_fits c g \<longleftrightarrow> gcr_item_index g = gcp_item_index c \<and> gcr_omitted g = hidden_call c \<and>
     gcr_follow_up_output g = gep_follow_up_output (gcp_events c) \<and> (hidden_call c \<longrightarrow> gcr_public_output g = None)"

lemma accept_output_Inr:
  "accept_output bytes result b = (b', Inr g) \<longleftrightarrow>
   g = result \<and> bytes \<le> MAX_GATEWAY_TOOL_OUTPUT_BYTES \<and> consume b bytes = (b', Inr ())"
  by (auto simp: accept_output_def enforce_gateway_tool_output_size_def split: prod.splits sum.splits)

lemma resolve_gateway_call_fits:
  assumes "resolve_gateway_call w c b = (b', Inr g)" and "coherent_call c"
  shows "result_fits c g"
proof (cases "gcp_refused c")
  case (Some limit)
  with assms show ?thesis
    by (auto simp: resolve_gateway_call_def unexecuted_result_def accept_output_Inr result_fits_def call_shape_defs
        split: sum.splits)
next
  case None
  show ?thesis
  proof (cases "gcp_execution c")
    case MissingHandler
    with None assms show ?thesis
      by (auto simp: resolve_gateway_call_def run_one_def unexecuted_result_def accept_output_Inr result_fits_def call_shape_defs
          split: sum.splits if_splits)
  next
    case (Bound binding)
    with None assms show ?thesis
      by (auto simp: resolve_gateway_call_def run_one_def planned_call_result_def Let_def accept_output_Inr result_fits_def
          call_shape_defs split: sum.splits option.splits prod.splits)
  qed
qed

lemma resolve_in_order_from:
  "resolve_in_order w calls order b = (b', rs) \<Longrightarrow>
   map fst rs = order \<and> (\<forall>(i, r) \<in> set rs. \<exists>b1 b2. resolve_gateway_call w (calls ! i) b1 = (b2, r))"
proof (induction order arbitrary: b b' rs)
  case (Cons i order)
  obtain b1 r where r: "resolve_gateway_call w (calls ! i) b = (b1, r)" by fastforce
  obtain b2 rest where "resolve_in_order w calls order b1 = (b2, rest)" by fastforce
  with Cons r show ?case by fastforce
qed simp

lemma results_in_order_from:
  assumes "results_in_order w calls order b = (b', rs)" and "set order = {0..<length calls}"
  shows "length rs = length calls \<and> (\<forall>i < length calls. \<exists>b1 b2. resolve_gateway_call w (calls ! i) b1 = (b2, rs ! i))"
proof -
  obtain found where f: "resolve_in_order w calls order b = (b', found)" and rs: "rs = map (\<lambda>i. the (map_of found i)) [0..<length calls]"
    using assms(1) by (auto simp: results_in_order_def split: prod.splits)
  have "\<exists>b1 b2. resolve_gateway_call w (calls ! i) b1 = (b2, rs ! i)" if "i < length calls" for i
  proof -
    have "i \<in> set (map fst found)" using resolve_in_order_from [OF f] assms(2) that by simp
    then obtain r where r: "map_of found i = Some r" by (metis map_of_eq_None_iff not_None_eq set_map)
    then have "(i, r) \<in> set found" by (rule map_of_SomeD)
    with resolve_in_order_from [OF f] r rs that show ?thesis by auto
  qed
  with rs show ?thesis by simp
qed

lemma emit_results_collects:
  "emit_results codec plans announced got rs relay = (relay', Inr results) \<Longrightarrow> length got + length rs = length plans \<Longrightarrow>
   \<exists>new. results = got @ new \<and> rs = map Inr new"
proof (induction rs arbitrary: announced got relay)
  case (Cons r rs)
  show ?case
  proof (cases r)
    case (Inr g)
    obtain relay1 x where e: "emit_gateway_completed_events codec [gcr_public_output g] [plans ! length got] relay = (relay1, x)"
      by fastforce
    obtain relay2 y where f: "emit_gateway_start_events codec
        (drop announced (take (start_run_end plans (length got + 1)) plans)) relay1 = (relay2, y)" by fastforce
    from Cons.prems Inr e f Cons.IH [of _ "got @ [g]" relay2] show ?thesis
      by (fastforce simp: Let_def split: sum.splits)
  qed (use Cons.prems in auto)
qed (auto split: if_splits)

lemma emit_calls_fit:
  assumes "emit_calls_in_order w s order b relay = (relay', b', Inr results)" and "set order = {0..<length (gsc_calls s)}"
    and "\<forall>c \<in> set (gsc_calls s). coherent_call c"
  shows "list_all2 result_fits (gsc_calls s) results"
proof -
  obtain b1 rs where r: "results_in_order w (gsc_calls s) order b = (b1, rs)" by fastforce
  note from_calls = results_in_order_from [OF r assms(2)]
  obtain relay1 where "emit_results (rw_codec w) (event_plans s) (start_run_end (event_plans s) 0) [] rs relay1 = (relay', Inr results)"
    using assms(1) r by (auto simp: emit_calls_in_order_def Let_def split: prod.splits sum.splits)
  from emit_results_collects [OF this] from_calls have "rs = map Inr results" by (auto simp: event_plans_def)
  with from_calls assms(3) show ?thesis
    by (auto simp: list_all2_conv_all_nth) (metis nth_map nth_mem resolve_gateway_call_fits)
qed

section \<open>Public output\<close>

definition width_of :: "gateway_scheduler \<Rightarrow> nat \<Rightarrow> nat" where
  "width_of s i = (if i \<in> set (gsc_omitted_items s) then 0 else if i \<in> set (gsc_expanded_items s) then 2 else 1)"

definition public_block ::
    "round_world \<Rightarrow> tool_registry \<Rightarrow> gateway_call_result list \<Rightarrow> nat \<Rightarrow> output_item \<Rightarrow> output_item list" where
  "public_block w r results i item =
     (if omits_item results i then [] else projr (public_output_item w r results i item))"

lemma public_items_blocks:
  "public_items_from w r results k items = Inr public \<Longrightarrow>
   public = concat (map (\<lambda>i. public_block w r results (k + i) (items ! i)) [0..<length items]) \<and>
   (\<forall>i < length items. omits_item results (k + i) \<or>
      public_output_item w r results (k + i) (items ! i) = Inr (public_block w r results (k + i) (items ! i)))"
proof (induction items arbitrary: k public)
  case (Cons item items)
  have shift: "[0..<Suc (length items)] = 0 # map Suc [0..<length items]" by (simp add: upt_conv_Cons map_Suc_upt del: upt_Suc)
  show ?case
  proof (cases "omits_item results k")
    case True
    with Cons.prems Cons.IH [of "Suc k" public] show ?thesis
      by (auto simp: shift public_block_def less_Suc_eq_0_disj comp_def cong: if_cong simp del: upt_Suc)
  next
    case False
    with Cons.prems obtain block rest where "public_output_item w r results k item = Inr block"
      and "public_items_from w r results (Suc k) items = Inr rest" and "public = block @ rest"
      by (auto simp: and_then_def split: sum.splits)
    with Cons.IH [of "Suc k" rest] False show ?thesis
      by (auto simp: shift public_block_def less_Suc_eq_0_disj comp_def cong: if_cong simp del: upt_Suc)
  qed
qed simp

lemma concat_blocks_at:
  assumes "i < n"
  shows "take (length (f i)) (drop (\<Sum>j<i. length (f j)) (concat (map f [0..<n]))) = f i"
proof -
  have "[0..<n] = [0..<i] @ i # [Suc i..<n]" using assms upt_add_eq_append [of 0 i "n - i"] by (simp add: upt_conv_Cons)
  then have "concat (map f [0..<n]) = concat (map f [0..<i]) @ f i @ concat (map f [Suc i..<n])" by simp
  moreover have "length (concat (map f [0..<i])) = (\<Sum>j<i. length (f j))"
    by (simp add: length_concat comp_def interv_sum_list_conv_sum_set_nat atLeast0LessThan)
  ultimately show ?thesis by simp
qed

lemma count_below_card: "distinct is \<Longrightarrow> count_below is i = card {j \<in> {..<i}. j \<in> set is}"
proof -
  assume "distinct is"
  then have "count_below is i = card (set (filter (\<lambda>j. j < i) is))" by (metis count_below_def distinct_card distinct_filter)
  also have "set (filter (\<lambda>j. j < i) is) = {j \<in> {..<i}. j \<in> set is}" by auto
  finally show ?thesis .
qed

lemma widths_sum:
  assumes "distinct (gsc_omitted_items s)" and "distinct (gsc_expanded_items s)"
    and "set (gsc_omitted_items s) \<inter> set (gsc_expanded_items s) = {}"
  shows "(\<Sum>j<i. width_of s j) = position_of s i"
proof -
  let ?om = "{j \<in> {..<i}. j \<in> set (gsc_omitted_items s)}" and ?ex = "{j \<in> {..<i}. j \<in> set (gsc_expanded_items s)}"
  have "(\<Sum>j<i. width_of s j) = (\<Sum>j<i. (if j \<in> ?om then 0 else 1) + (if j \<in> ?ex then 1 else 0))"
    using assms(3) by (intro sum.cong) (auto simp: width_of_def)
  also have "\<dots> = card ({..<i} - ?om) + card ?ex"
    by (simp add: sum.distrib sum.If_cases Int_def set_diff_eq Collect_conj_eq [symmetric] conj_commute cong: conj_cong)
  also have "card ({..<i} - ?om) = i - card ?om" by (subst card_Diff_subset) auto
  finally show ?thesis using assms(1,2) by (simp add: position_of_def count_below_card)
qed

lemma public_item_index_eq:
  "public_item_index s i = (if i \<in> set (gsc_omitted_items s) then None else Some (position_of s i))"
  by (simp add: public_item_index_def position_of_def count_below_def)

lemma omitted_results:
  assumes "round_ok items r off n s" and "list_all2 result_fits (gsc_calls s) results"
  shows "omits_item results i \<longleftrightarrow> i \<in> set (gsc_omitted_items s)"
proof -
  have "omits_item results i \<longleftrightarrow> (\<exists>m < length results. gcr_omitted (results ! m) \<and> gcr_item_index (results ! m) = i)"
    by (auto simp: omits_item_def list_ex_length)
  also have "\<dots> \<longleftrightarrow> (\<exists>m < length (gsc_calls s). hidden_call (gsc_calls s ! m) \<and> gcp_item_index (gsc_calls s ! m) = i)"
    using assms(2) by (auto simp: list_all2_conv_all_nth result_fits_def)
  also have "\<dots> \<longleftrightarrow> i \<in> set (gsc_omitted_items s)"
    using assms(1) by (auto simp: round_ok_def in_set_conv_nth)
  finally show ?thesis .
qed

lemma calls_unique:
  assumes "round_ok items r off n s" and "c \<in> set (gsc_calls s)" "d \<in> set (gsc_calls s)" "gcp_item_index c = gcp_item_index d"
  shows "c = d"
proof -
  have "distinct (map gcp_item_index (gsc_calls s))" using assms(1) by (simp add: round_ok_def strict_sorted_iff)
  then show ?thesis using assms(2-) by (auto simp: distinct_map dest: inj_onD)
qed

lemma listed_calls:
  assumes ok: "round_ok items r off n s" and c: "c \<in> set (gsc_calls s)"
  shows "gcp_item_index c \<in> set (gsc_omitted_items s) \<longleftrightarrow> hidden_call c"
    and "gcp_item_index c \<in> set (gsc_expanded_items s) \<longleftrightarrow> widened_call c"
proof -
  have image: "gcp_item_index c \<in> gcp_item_index ` {d \<in> set (gsc_calls s). P d} \<longleftrightarrow> P c" for P
  proof
    assume "gcp_item_index c \<in> gcp_item_index ` {d \<in> set (gsc_calls s). P d}"
    then obtain d where "d \<in> set (gsc_calls s)" "P d" "gcp_item_index d = gcp_item_index c" by force
    with calls_unique [OF ok _ c, of d] show "P c" by simp
  qed (use c in simp)
  have "set (gsc_omitted_items s) = gcp_item_index ` {d \<in> set (gsc_calls s). hidden_call d}"
    and "set (gsc_expanded_items s) = gcp_item_index ` {d \<in> set (gsc_calls s). widened_call d}"
    using ok by (simp_all add: round_ok_def)
  with image show "gcp_item_index c \<in> set (gsc_omitted_items s) \<longleftrightarrow> hidden_call c"
    and "gcp_item_index c \<in> set (gsc_expanded_items s) \<longleftrightarrow> widened_call c" by simp_all
qed

text \<open>The result found for a planned call carries the follow-up item of its plan.\<close>

lemma found_result:
  assumes ok: "round_ok items r off n s" and fits: "list_all2 result_fits (gsc_calls s) results"
    and c: "c \<in> set (gsc_calls s)" "gcp_item_index c = i"
  shows "\<exists>g. List.find (\<lambda>g. gcr_item_index g = i) results = Some g \<and> gcr_follow_up_output g = gep_follow_up_output (gcp_events c)"
proof -
  obtain m where "m < length (gsc_calls s)" "gsc_calls s ! m = c" using c(1) by (auto simp: in_set_conv_nth)
  then have "results ! m \<in> set results" "gcr_item_index (results ! m) = i"
    using fits c(2) by (auto simp: list_all2_conv_all_nth result_fits_def)
  then obtain g where g: "List.find (\<lambda>g. gcr_item_index g = i) results = Some g"
    by (metis (mono_tags, lifting) find_None_iff not_Some_eq)
  obtain l where l: "l < length results" "results ! l = g" "gcr_item_index g = i"
    using g unfolding find_Some_iff by blast
  with fits have f: "result_fits (gsc_calls s ! l) g" "gsc_calls s ! l \<in> set (gsc_calls s)"
    by (auto simp: list_all2_conv_all_nth)
  have "gsc_calls s ! l = c" using calls_unique [OF ok f(2) c(1)] f(1) l(3) c(2) by (simp add: result_fits_def)
  with f g show ?thesis by (auto simp: result_fits_def)
qed

lemma unplanned_result:
  assumes "list_all2 result_fits (gsc_calls s) results" and "i \<notin> gcp_item_index ` set (gsc_calls s)"
  shows "List.find (\<lambda>g. gcr_item_index g = i) results = None"
  using assms by (auto simp: find_None_iff list_all2_conv_all_nth result_fits_def in_set_conv_nth image_iff)
    (metis nth_mem)

lemma gateway_kind:
  assumes "\<forall>e \<in> snd ` set (trg_entries r). entry_ok e" and "is_gateway_owned_name r name"
  shows "\<not> is_client_custom_name r name \<and> \<not> is_client_shell_name r name"
proof -
  obtain e where e: "lookup_tool r name = Some e" "ownership_is_gateway (ten_ownership e)"
    using assms(2) by (auto simp: is_gateway_owned_name_def split: option.splits)
  then have "e \<in> snd ` set (trg_entries r)" unfolding lookup_tool_def by (metis map_of_SomeD image_eqI snd_conv)
  with assms(1) have "entry_ok e" by blast
  with e show ?thesis by (auto simp: is_client_custom_name_def is_client_shell_name_def entry_ok_def type_gateway_owned_def)
qed

lemma block_width:
  assumes ok: "round_ok items r off n s" and fits: "list_all2 result_fits (gsc_calls s) results"
    and entries: "\<forall>e \<in> snd ` set (trg_entries r). entry_ok e"
    and block: "omits_item results i \<or> public_output_item w r results i (items ! i) = Inr (public_block w r results i (items ! i))"
  shows "length (public_block w r results i (items ! i)) = width_of s i"
    and "\<And>c f. c \<in> set (gsc_calls s) \<Longrightarrow> gcp_item_index c = i \<Longrightarrow> gep_follow_up_output (gcp_events c) = Some f \<Longrightarrow>
      public_block w r results i (items ! i) ! 1 = f"
proof -
  let ?block = "public_block w r results i (items ! i)"
  note omit = omitted_results [OF ok fits, of i]
  obtain bl where bl: "?block = bl" by simp
  have "length bl = width_of s i"
  proof (cases "omits_item results i")
    case True
    with omit bl show ?thesis by (auto simp: public_block_def width_of_def)
  next
    case False
    with block bl have b: "public_output_item w r results i (items ! i) = Inr bl" by simp
    show ?thesis
    proof (cases "\<exists>c \<in> set (gsc_calls s). gcp_item_index c = i")
      case True
      then obtain c where c: "c \<in> set (gsc_calls s)" "gcp_item_index c = i" by blast
      with ok have p: "planned_for items r off s c" by (auto simp: round_ok_def)
      from found_result [OF ok fits c] obtain g where
        g: "List.find (\<lambda>g. gcr_item_index g = i) results = Some g" "gcr_follow_up_output g = gep_follow_up_output (gcp_events c)"
        by blast
      have "i \<in> set (gsc_expanded_items s) \<longleftrightarrow> widened_call c"
        using listed_calls(2) [OF ok c(1)] c(2) by simp
      with b p g c omit False gateway_kind [OF entries] show ?thesis
        by (auto simp: public_output_item_def planned_for_def width_of_def widened_call_def split: option.splits)
    next
      case other: False
      then have "i \<notin> set (gsc_expanded_items s)" using ok by (auto simp: round_ok_def)
      with b omit False unplanned_result [OF fits, of i] other show ?thesis
        by (auto simp: public_output_item_def width_of_def split: output_item.splits option.splits if_splits)
    qed
  qed
  with bl show "length ?block = width_of s i" by simp
  show "?block ! 1 = f"
    if c: "c \<in> set (gsc_calls s)" "gcp_item_index c = i" and f: "gep_follow_up_output (gcp_events c) = Some f" for c f
  proof -
    from ok c have p: "planned_for items r off s c" by (auto simp: round_ok_def)
    then have "\<not> hidden_call c" using f by (auto simp: planned_for_def call_shape_defs)
    then have "\<not> omits_item results i" using listed_calls(1) [OF ok c(1)] c(2) omit by simp
    with block bl have b: "public_output_item w r results i (items ! i) = Inr bl" by simp
    from found_result [OF ok fits c] obtain g where
      "List.find (\<lambda>g. gcr_item_index g = i) results = Some g" "gcr_follow_up_output g = Some f" using f by auto
    with b p c gateway_kind [OF entries] show ?thesis
      unfolding bl by (auto simp: public_output_item_def planned_for_def)
  qed
qed

lemma round_lists:
  assumes "round_ok items r off n s"
  shows "distinct (gsc_omitted_items s)" "distinct (gsc_expanded_items s)"
    "set (gsc_omitted_items s) \<inter> set (gsc_expanded_items s) = {}"
proof -
  have "distinct (map gcp_item_index (gsc_calls s))" using assms by (simp add: round_ok_def strict_sorted_iff)
  then show "distinct (gsc_omitted_items s)" "distinct (gsc_expanded_items s)"
    using assms by (auto simp: round_ok_def distinct_map inj_on_def)
  have "\<not> widened_call c" if "c \<in> set (gsc_calls s)" "hidden_call c" for c
    using assms that by (auto simp: round_ok_def planned_for_def call_shape_defs)
  moreover have "\<exists>c \<in> set (gsc_calls s). gcp_item_index c = i" if "i \<in> set (gsc_omitted_items s)" for i
    using assms that by (auto simp: round_ok_def)
  ultimately show "set (gsc_omitted_items s) \<inter> set (gsc_expanded_items s) = {}"
    using listed_calls [OF assms] by blast
qed

text \<open>C9. The positions that a plan announces are those of the final response. After a round whose calls all ran (in any
  order of completion), every output item that the plan gives a position \<open>p\<close> is found in the public output at \<open>p\<close>; the
  output index of a gateway call's events is its position counted from the response's offset, capped at 32 bits; and the
  follow-up item of a call stands right behind it. An item has no position exactly when the response omits it.\<close>

theorem announced_positions_agree:
  assumes "execute_and_emit_output_calls w items r off order budget tool_budget relay = (relay', budget', tool_budget', Inr results)"
    and plan: "plan_with_budget items r off tool_budget = (s, tb)" and order: "set order = {0..<length (gsc_calls s)}"
    and entries: "\<forall>e \<in> snd ` set (trg_entries r). entry_ok e"
    and public: "public_output_items w items r results = Inr public"
    and i: "i < length items"
  shows "(public_item_index s i = None \<longleftrightarrow> omits_item results i) \<and>
    (\<forall>p. public_item_index s i = Some p \<longrightarrow>
      (\<exists>block. public_output_item w r results i (items ! i) = Inr block \<and> block \<noteq> [] \<and>
        take (length block) (drop p public) = block) \<and>
      (\<forall>c \<in> set (gsc_calls s). gcp_item_index c = i \<longrightarrow>
        gep_output_index (gcp_events c) = u32_or_max (off + p) \<and>
        (\<forall>f. gep_follow_up_output (gcp_events c) = Some f \<longrightarrow> p + 1 < length public \<and> public ! (p + 1) = f)))"
proof -
  note ok = plan_round_ok [OF plan]
  have "emit_calls_in_order w s order budget relay = (relay', budget', Inr results)"
    using assms(1) plan by (auto simp: execute_and_emit_output_calls_def split: prod.splits)
  from emit_calls_fit [OF this order] ok have fits: "list_all2 result_fits (gsc_calls s) results"
    by (auto simp: round_ok_def planned_for_def)
  note omit = omitted_results [OF ok fits]
  let ?f = "\<lambda>j. public_block w r results j (items ! j)"
  from public_items_blocks [of w r results 0 items public] public
  have pub: "public = concat (map ?f [0..<length items])"
    and blocks: "\<And>j. j < length items \<Longrightarrow> omits_item results j \<or> public_output_item w r results j (items ! j) = Inr (?f j)"
    by (auto simp: public_output_items_def)
  note width = block_width [OF ok fits entries blocks]
  have pos: "(\<Sum>j<i. length (?f j)) = position_of s i"
    using widths_sum [OF round_lists [OF ok], of i] i by (simp add: width)
  note at = concat_blocks_at [OF i, of ?f, folded pub, unfolded pos]
  have "?thesis" if some: "public_item_index s i = Some (position_of s i)"
  proof -
    from some have "\<not> omits_item results i" by (auto simp: public_item_index_eq omit split: if_splits)
    with blocks [OF i] have b: "public_output_item w r results i (items ! i) = Inr (?f i)" by simp
    have "?f i \<noteq> []" using width(1) [OF i] some by (auto simp: width_of_def public_item_index_eq split: if_splits)
    moreover have "position_of s i + 1 < length public \<and> public ! (position_of s i + 1) = f"
      if "c \<in> set (gsc_calls s)" "gcp_item_index c = i" "gep_follow_up_output (gcp_events c) = Some f" for c f
    proof -
      have "i \<in> set (gsc_expanded_items s)" using ok that by (auto simp: round_ok_def widened_call_def)
      then have two: "length (?f i) = 2" using width(1) [OF i] some by (auto simp: width_of_def public_item_index_eq split: if_splits)
      with at have "2 \<le> length (drop (position_of s i) public)" by (metis length_take min.cobounded1 min_def)
      moreover have "take 2 (drop (position_of s i) public) ! 1 = f" using at two width(2) [OF i that] by simp
      ultimately show ?thesis by simp
    qed
    moreover have "gep_output_index (gcp_events c) = u32_or_max (off + position_of s i)"
      if "c \<in> set (gsc_calls s)" "gcp_item_index c = i" for c
      using that ok by (auto simp: round_ok_def planned_for_def)
    ultimately show ?thesis using b at some omit by (auto simp: public_item_index_eq split: if_splits)
  qed
  then show ?thesis by (auto simp: public_item_index_eq omit)
qed

section \<open>Order of completion\<close>

definition after_charge :: "executor_response_budget \<Rightarrow> nat \<Rightarrow> executor_response_budget" where
  "after_charge b k = b\<lparr>rb_used := rb_used b + k\<rparr>"

definition affords :: "executor_response_budget \<Rightarrow> nat \<Rightarrow> bool" where
  "affords b k \<longleftrightarrow> rb_used b + k \<le> min (rb_limit b) USIZE_MAX"

lemma after_charge_charged [simp]: "after_charge (after_charge b k) l = after_charge b (k + l)" "after_charge b 0 = b"
  by (simp_all add: after_charge_def add.assoc)

lemma affords_after_charge [simp]: "affords (after_charge b k) l \<longleftrightarrow> affords b (k + l)"
  by (simp add: after_charge_def affords_def add.assoc)

lemma affords_less: "affords b l \<Longrightarrow> k \<le> l \<Longrightarrow> affords b k"
  by (auto simp: affords_def)

lemma consume_Inr: "consume b n = (b', Inr u) \<longleftrightarrow> affords b n \<and> b' = after_charge b n"
  by (auto simp: consume_ok after_charge_def affords_def)

lemma consume_affords: "affords b n \<Longrightarrow> consume b n = (after_charge b n, Inr ())"
  by (simp add: consume_Inr)

text \<open>What a call that succeeds charges and returns does not depend on the budget it meets.\<close>

definition answers :: "round_world \<Rightarrow> gateway_call_plan \<Rightarrow> nat \<Rightarrow> gateway_call_result \<Rightarrow> bool" where
  "answers w c k g \<longleftrightarrow> (\<forall>b. affords b k \<longrightarrow> resolve_gateway_call w c b = (after_charge b k, Inr g))"

lemma accept_output_answers:
  assumes "accept_output n result b = (b', Inr g)"
  shows "affords b n \<and> b' = after_charge b n \<and> (\<forall>b. affords b n \<longrightarrow> accept_output n result b = (after_charge b n, Inr g))"
  using assms by (auto simp: accept_output_Inr consume_Inr)

lemma planned_call_result_answers:
  assumes "planned_call_result w i result follow b = (b', Inr g)"
  shows "\<exists>k. affords b k \<and> b' = after_charge b k \<and>
    (\<forall>b. affords b k \<longrightarrow> planned_call_result w i result follow b = (after_charge b k, Inr g))"
proof (cases follow)
  case None
  with assms show ?thesis
    by (intro exI [of _ "model_output_len (rw_texts w) result"])
      (auto simp: planned_call_result_def Let_def consume_Inr consume_affords split: sum.splits prod.splits)
next
  case (Some item)
  have less: "affords b (m + n) \<Longrightarrow> consume b m = (after_charge b m, Inr ())" for b m n
    by (rule consume_affords) (auto intro: affords_less)
  from Some assms show ?thesis
    by (intro exI [of _ "model_output_len (rw_texts w) result + retained_output_item (rw_sizes w) item"])
      (auto simp: planned_call_result_def Let_def consume_Inr consume_affords less split: sum.splits prod.splits)
qed

lemma unexecuted_result_answers:
  assumes "unexecuted_result w i call message public_output omitted b = (b', Inr g)"
  shows "\<exists>k. affords b k \<and> b' = after_charge b k \<and>
    (\<forall>b. affords b k \<longrightarrow> unexecuted_result w i call message public_output omitted b = (after_charge b k, Inr g))"
proof (cases "execution_error_output (rw_codec w) call message")
  case (Inr out)
  with assms accept_output_answers [of _ _ b b' g] show ?thesis unfolding unexecuted_result_def by auto
qed (use assms in \<open>simp add: unexecuted_result_def\<close>)

lemma resolve_gateway_call_answers:
  assumes "resolve_gateway_call w c b = (b', Inr g)"
  shows "\<exists>k. affords b k \<and> b' = after_charge b k \<and> answers w c k g"
proof (cases "gcp_refused c")
  case (Some limit)
  with assms show ?thesis
    by (auto simp: answers_def resolve_gateway_call_def dest: unexecuted_result_answers)
next
  case None
  show ?thesis
  proof (cases "gcp_execution c")
    case MissingHandler
    with None assms show ?thesis
      by (auto simp: answers_def resolve_gateway_call_def run_one_def split: if_splits dest: unexecuted_result_answers)
  next
    case (Bound binding)
    show ?thesis
    proof (cases "gcp_planned_result c")
      case (Some result)
      with None Bound assms show ?thesis
        by (auto simp: answers_def resolve_gateway_call_def run_one_def dest: planned_call_result_answers)
    next
      case unplanned: None
      with None Bound assms obtain out status where d: "dispatched_output w c = Inr (out, status)"
        by (auto simp: resolve_gateway_call_def run_one_def split: sum.splits)
      with None Bound unplanned assms show ?thesis
        by (auto simp: answers_def resolve_gateway_call_def run_one_def dest!: accept_output_answers)
    qed
  qed
qed

lemma resolve_in_order_affords:
  "\<forall>i \<in> set order. answers w (calls ! i) (k i) (g i) \<Longrightarrow> affords b (sum_list (map k order)) \<Longrightarrow>
   resolve_in_order w calls order b = (after_charge b (sum_list (map k order)), map (\<lambda>i. (i, Inr (g i))) order)"
proof (induction order arbitrary: b)
  case (Cons i order)
  then have "resolve_gateway_call w (calls ! i) b = (after_charge b (k i), Inr (g i))"
    using affords_less [of b "sum_list (map k (i # order))" "k i"] by (simp add: answers_def)
  with Cons show ?case by simp
qed simp

lemma resolve_in_order_charges:
  "resolve_in_order w calls order b = (b', rs) \<Longrightarrow> distinct order \<Longrightarrow> (order = [] \<longrightarrow> affords b 0) \<Longrightarrow>
   \<forall>i \<in> set order. map_of rs i = Some (Inr (g i)) \<Longrightarrow>
   \<exists>k. affords b (sum_list (map k order)) \<and> b' = after_charge b (sum_list (map k order)) \<and>
     (\<forall>i \<in> set order. answers w (calls ! i) (k i) (g i))"
proof (induction order arbitrary: b rs)
  case (Cons i order)
  obtain b1 r where r: "resolve_gateway_call w (calls ! i) b = (b1, r)" by fastforce
  obtain rs1 where rest: "resolve_in_order w calls order b1 = (b', rs1)" and rs: "rs = (i, r) # rs1"
    using Cons.prems(1) r by (auto split: prod.splits)
  have "r = Inr (g i)" using Cons.prems(4) rs by simp
  with resolve_gateway_call_answers r obtain c where c: "affords b c" "b1 = after_charge b c" "answers w (calls ! i) c (g i)" by blast
  have fresh: "i \<notin> set order" using Cons.prems(2) by simp
  have "\<forall>j \<in> set order. map_of rs1 j = Some (Inr (g j))"
  proof
    fix j assume j: "j \<in> set order"
    with fresh have "j \<noteq> i" by blast
    with Cons.prems(4) rs j show "map_of rs1 j = Some (Inr (g j))" by (auto dest: bspec [of _ _ j])
  qed
  with Cons.IH [OF rest] Cons.prems(2) c(1,2) obtain k where
    k: "affords b1 (sum_list (map k order))" "b' = after_charge b1 (sum_list (map k order))"
      "\<forall>j \<in> set order. answers w (calls ! j) (k j) (g j)" by auto
  have same: "map (k(i := c)) (i # order) = c # map k order" using fresh by auto
  from c k fresh show ?case
    by (intro exI [of _ "k(i := c)"]) (unfold same, auto)
qed simp

lemma emit_calls_results:
  assumes "emit_calls_in_order w s order b relay = (relay', b', Inr results)"
  shows "results_in_order w (gsc_calls s) order b = (b', map Inr results) \<and> length results = length (gsc_calls s)"
proof -
  obtain rs where r: "results_in_order w (gsc_calls s) order b = (b', rs)"
    using assms by (auto simp: emit_calls_in_order_def Let_def split: prod.splits sum.splits)
  obtain relay1 where e: "emit_results (rw_codec w) (event_plans s) (start_run_end (event_plans s) 0) [] rs relay1 = (relay', Inr results)"
    using assms r by (auto simp: emit_calls_in_order_def Let_def split: prod.splits sum.splits)
  have l: "length rs = length (gsc_calls s)" using r by (auto simp: results_in_order_def split: prod.splits)
  with emit_results_collects [OF e] r show ?thesis by (auto simp: event_plans_def)
qed

lemma results_any_order:
  assumes res: "results_in_order w calls order b = (b', map Inr results)" and len: "length results = length calls"
    and order: "distinct order" "set order = {0..<length calls}" and other: "distinct other" "set other = {0..<length calls}"
  shows "results_in_order w calls other b = (b', map Inr results)"
proof (cases "calls = []")
  case True
  with order other have "order = []" "other = []" by auto
  with res show ?thesis by simp
next
  case False
  then have ne: "order \<noteq> []" using order(2) by auto
  obtain found where f: "resolve_in_order w calls order b = (b', found)"
    and eq: "map (\<lambda>i. the (map_of found i)) [0..<length calls] = map Inr results"
    using res by (auto simp: results_in_order_def split: prod.splits)
  let ?g = "\<lambda>i. results ! i"
  have "map_of found i = Some (Inr (?g i))" if "i \<in> set order" for i
  proof -
    have i: "i < length calls" using that order(2) by simp
    have "i \<in> set (map fst found)" using resolve_in_order_from [OF f] that by simp
    then obtain r where r: "map_of found i = Some r" by (metis map_of_eq_None_iff not_None_eq set_map)
    from arg_cong [OF eq, of "\<lambda>xs. xs ! i"] i len have "the (map_of found i) = Inr (?g i)" by simp
    with r show ?thesis by simp
  qed
  with resolve_in_order_charges [OF f order(1)] ne obtain k where
    k: "affords b (sum_list (map k order))" "b' = after_charge b (sum_list (map k order))"
      "\<forall>i \<in> set order. answers w (calls ! i) (k i) (?g i)" by blast
  have same: "sum_list (map k other) = sum_list (map k order)"
    using order other by (simp add: sum_list_distinct_conv_sum_set)
  have ans: "\<forall>i \<in> set other. answers w (calls ! i) (k i) (?g i)" using k(3) order(2) other(2) by simp
  have "resolve_in_order w calls other b = (b', map (\<lambda>i. (i, Inr (?g i))) other)"
    using resolve_in_order_affords [OF ans, of b] k same by simp
  moreover have "map (\<lambda>i. the (map_of (map (\<lambda>i. (i, Inr (?g i) :: executor_error + gateway_call_result)) other) i)) [0..<length calls] =
      map Inr results"
    using other(2) len by (intro nth_equalityI) (auto simp: map_of_map_restrict restrict_map_def)
  ultimately show ?thesis by (simp add: results_in_order_def)
qed

text \<open>C10. A round does not depend on how its concurrent calls interleave. When its calls finish in one order and the round
  succeeds, then in every other order it succeeds with the same results in call order, the same events and the same charge
  to the response budget: which call finishes first never decides what the model or the client sees.\<close>

theorem completion_order_irrelevant:
  assumes "execute_and_emit_output_calls w items r off order budget tool_budget relay = (relay', budget', tool_budget', Inr results)"
    and "distinct order" and "set order = {0..<length (gsc_calls (fst (plan_with_budget items r off tool_budget)))}"
    and "distinct other" and "set other = set order"
  shows "execute_and_emit_output_calls w items r off other budget tool_budget relay = (relay', budget', tool_budget', Inr results)"
proof -
  obtain s tb where plan: "plan_with_budget items r off tool_budget = (s, tb)" by fastforce
  with assms(1) have e: "emit_calls_in_order w s order budget relay = (relay', budget', Inr results)" and tb: "tb = tool_budget'"
    by (auto simp: execute_and_emit_output_calls_def split: prod.splits)
  from emit_calls_results [OF e] have r: "results_in_order w (gsc_calls s) order budget = (budget', map Inr results)"
    and l: "length results = length (gsc_calls s)" by auto
  have "results_in_order w (gsc_calls s) other budget = (budget', map Inr results)"
    using results_any_order [OF r l] assms(2-5) plan by simp
  with e r have "emit_calls_in_order w s other budget relay = (relay', budget', Inr results)"
    by (simp add: emit_calls_in_order_def Let_def)
  with plan tb show ?thesis by (simp add: execute_and_emit_output_calls_def)
qed

section \<open>A concrete round\<close>

definition sample_search :: "function_tool_call \<Rightarrow> web_search_call_status \<Rightarrow> output_item" where
  "sample_search call status = OiWebSearchCall
     \<lparr>wsc_agent = None, wsc_id = ftc_id call, wsc_status = status, wsc_action = WaOpenPage None\<rparr>"

definition sample_search_binding :: gateway_binding where
  "sample_search_binding =
     \<lparr>gb_plan_gateway_events = (\<lambda>call. \<lparr>gtp_started_output = Some (sample_search call WsInProgress), gtp_planned_result = None\<rparr>),
      gb_public_output = (\<lambda>call _ _. Some (sample_search call WsCompleted)), gb_self_exclusion = False\<rparr>"

definition sample_registry :: tool_registry where
  "sample_registry = empty_registry\<lparr>trg_entries := [(''web_search'', gateway_entry TtWebSearch None (Some sample_search_binding))]\<rparr>"

definition sample_tool_call :: "string \<Rightarrow> function_tool_call" where
  "sample_tool_call iid =
     \<lparr>ftc_agent = None, ftc_id = iid, ftc_call_id = iid, ftc_name = ''web_search'', ftc_namespace = None,
      ftc_arguments = ''{}'', ftc_status = MsCompleted, ftc_async_execution = False\<rparr>"

definition sample_round_items :: "output_item list" where
  "sample_round_items = [OiFunctionCall (sample_tool_call ''fc_a''), OiFunctionCall (sample_tool_call ''fc_b'')]"

definition sample_round_world :: round_world where
  "sample_round_world =
     \<lparr>rw_codec = sample_codec\<lparr>render_json := (\<lambda>_. Some ''{}''), item_json := (\<lambda>_. Some JNull)\<rparr>, rw_texts = (\<lambda>_. None),
      rw_sizes = (\<lambda>_. ([], True)), rw_shell_action = (\<lambda>_. None), rw_answer = (\<lambda>i. Some (Inr (tool_success ''fc_a'' ''found''))),
      rw_fresh_id = (\<lambda>_. ''fco_1'')\<rparr>"

lemmas sample_round_defs = plan_with_budget_def empty_scheduler_def gateway_call_def lookup_tool_def sample_registry_def
  empty_registry_def gateway_entry_def sample_round_items_def sample_tool_call_def plan_call_def binding_plan_def
  sample_search_binding_def admit_call_def new_tool_call_budget_def sample_search_def u32_or_max_def saturating_add_def
  USIZE_MAX_def mark_refusal_shown_def

lemmas sample_run_defs = sample_round_world_def execute_and_emit_output_calls_def emit_calls_in_order_def
  emit_gateway_start_events_def emit_gateway_events_def emit_gateway_completed_events_def results_in_order_def
  event_plans_def start_run_end_def resolve_gateway_call_def run_one_def dispatched_output_def accept_output_Inr
  accept_output_def enforce_gateway_tool_output_size_def consume_eq with_limit_def tool_success_def
  MAX_GATEWAY_TOOL_OUTPUT_BYTES_def public_output_items_def public_output_item_def omits_item_def is_client_custom_name_def
  is_client_shell_name_def is_gateway_owned_name_def

lemma sample_rounds_counted:
  "length (filter (\<lambda>c. gcp_tool_type c \<noteq> TtToolSearch)
     (planned_calls (fst (plan_rounds [(sample_round_items, sample_registry, 0)] (new_tool_call_budget (Some 1)))))) = 2"
  by (simp add: sample_round_defs planned_calls_def)

theorem max_tool_calls_respected_witness:
  "map gcp_refused (filter (\<lambda>c. gcp_tool_type c \<noteq> TtToolSearch)
     (planned_calls (fst (plan_rounds [(sample_round_items, sample_registry, 0)] (new_tool_call_budget (Some 1)))))) = [None, Some 1] \<and>
   has_refused (snd (plan_rounds [(sample_round_items, sample_registry, 0)] (new_tool_call_budget (Some 1))))"
  using max_tool_calls_respected [of "[(sample_round_items, sample_registry, 0)]" 1
      "fst (plan_rounds [(sample_round_items, sample_registry, 0)] (new_tool_call_budget (Some 1)))"
      "snd (plan_rounds [(sample_round_items, sample_registry, 0)] (new_tool_call_budget (Some 1)))"]
  unfolding sample_rounds_counted by (simp add: USIZE_MAX_def)

lemma sample_round_runs:
  "\<exists>budget' tool_budget' results public.
     execute_and_emit_output_calls sample_round_world sample_round_items sample_registry 3 [1, 0] (with_limit 100)
       (new_tool_call_budget None) (with_sink SkDetached limits) = (with_sink SkDetached limits, budget', tool_budget', Inr results) \<and>
     public_output_items sample_round_world sample_round_items sample_registry results = Inr public"
  by (simp add: sample_round_defs sample_run_defs is_live_def with_sink_def)

definition sample_scheduler :: gateway_scheduler where
  "sample_scheduler = fst (plan_with_budget sample_round_items sample_registry 3 (new_tool_call_budget None))"

lemma sample_scheduler_facts:
  "length (gsc_calls sample_scheduler) = 2" "public_item_index sample_scheduler 1 = Some 1"
  "plan_with_budget sample_round_items sample_registry 3 (new_tool_call_budget None) =
     (sample_scheduler, snd (plan_with_budget sample_round_items sample_registry 3 (new_tool_call_budget None)))"
  "\<forall>e \<in> snd ` set (trg_entries sample_registry). entry_ok e"
  by (simp_all add: sample_scheduler_def sample_round_defs public_item_index_def entry_ok_def type_gateway_owned_def)

theorem announced_positions_agree_witness:
  "\<exists>(public :: output_item list) block. take (length block) (drop 1 public) = block \<and> block \<noteq> [] \<and>
     (\<forall>c \<in> set (gsc_calls sample_scheduler). gcp_item_index c = 1 \<longrightarrow> gep_output_index (gcp_events c) = u32_or_max (3 + 1))"
proof -
  obtain budget' tool_budget' results public where
    "execute_and_emit_output_calls sample_round_world sample_round_items sample_registry 3 [1, 0] (with_limit 100)
       (new_tool_call_budget None) (with_sink SkDetached undefined) = (with_sink SkDetached undefined, budget', tool_budget', Inr results)"
    and "public_output_items sample_round_world sample_round_items sample_registry results = Inr public"
    using sample_round_runs by blast
  from announced_positions_agree [OF this(1) sample_scheduler_facts(3) _ sample_scheduler_facts(4) this(2), of 1]
  show ?thesis
    by (simp add: sample_scheduler_facts(1) sample_scheduler_facts(2) [simplified] sample_round_items_def
        atLeast0_lessThan_Suc numeral_2_eq_2 insert_commute) blast
qed

theorem completion_order_irrelevant_witness:
  "\<forall>limits. execute_and_emit_output_calls sample_round_world sample_round_items sample_registry 3 [1, 0] (with_limit 100)
      (new_tool_call_budget None) (with_sink SkDetached limits) =
    execute_and_emit_output_calls sample_round_world sample_round_items sample_registry 3 [0, 1] (with_limit 100)
      (new_tool_call_budget None) (with_sink SkDetached limits)"
proof
  fix limits
  obtain budget' tool_budget' results where
    run: "execute_and_emit_output_calls sample_round_world sample_round_items sample_registry 3 [1, 0] (with_limit 100)
       (new_tool_call_budget None) (with_sink SkDetached limits) = (with_sink SkDetached limits, budget', tool_budget', Inr results)"
    using sample_round_runs by blast
  from completion_order_irrelevant [OF run, of "[0, 1]"] run
  show "execute_and_emit_output_calls sample_round_world sample_round_items sample_registry 3 [1, 0] (with_limit 100)
      (new_tool_call_budget None) (with_sink SkDetached limits) =
    execute_and_emit_output_calls sample_round_world sample_round_items sample_registry 3 [0, 1] (with_limit 100)
      (new_tool_call_budget None) (with_sink SkDetached limits)"
    by (simp add: sample_scheduler_facts(1) [unfolded sample_scheduler_def] atLeast0_lessThan_Suc numeral_2_eq_2 insert_commute)
qed

end
