(* ===== verification/Gateway_Order.thy ===== *)
theory Gateway_Order
  imports Gateway_Safety
begin

text \<open>
  The lifecycle events of a gateway round (\<open>executor/gateway/lifecycle.rs\<close>): calls are announced ahead of the results
  that were waited for, and the client still sees items opened and closed as if the calls had run one after another.
\<close>

section \<open>One list of events\<close>

lemma is_live_step: "emit_local codec frame relay = (relay', r) \<Longrightarrow> is_live relay' = is_live relay"
  by (auto simp: emit_local_def send_frame_def is_live_def Let_def split: relay_sink.splits prod.splits sum.splits)

lemma emit_locals_live: "emit_locals codec builds relay = (relay', r) \<Longrightarrow> is_live relay' = is_live relay"
  by (induction builds arbitrary: relay) (auto split: sum.splits prod.splits dest: is_live_step)

lemma emit_locals_append:
  "emit_locals codec xs relay = (relay1, Inr ()) \<Longrightarrow>
   emit_locals codec (xs @ ys) relay = emit_locals codec ys relay1"
  by (induction xs arbitrary: relay) (auto split: sum.splits prod.splits)

lemma emit_gateway_events_append:
  assumes "emit_gateway_events codec xs relay = (relay1, Inr ())" and "emit_gateway_events codec ys relay1 = (relay2, Inr ())"
  shows "emit_gateway_events codec (xs @ ys) relay = (relay2, Inr ())"
proof (cases "is_live relay")
  case True
  with assms emit_locals_live [of codec _ relay relay1] show ?thesis
    by (auto simp: emit_gateway_events_def emit_locals_append split: if_splits)
qed (use assms in \<open>auto simp: emit_gateway_events_def split: if_splits\<close>)

text \<open>The events after \<open>done\<close> results, with the calls before \<open>announced\<close> announced.\<close>

fun result_events ::
    "gateway_event_plan list \<Rightarrow> nat \<Rightarrow> nat \<Rightarrow> output_item option list \<Rightarrow> gateway_event list" where
  "result_events plans announced n [] = []"
| "result_events plans announced n (out # outs) =
     all_completed_events [out] [plans ! n] @
     concat (map start_events (drop announced (take (start_run_end plans (n + 1)) plans))) @
     result_events plans (max announced (start_run_end plans (n + 1))) (Suc n) outs"

definition round_events :: "gateway_event_plan list \<Rightarrow> output_item option list \<Rightarrow> gateway_event list" where
  "round_events plans outs =
     concat (map start_events (take (start_run_end plans 0) plans)) @ result_events plans (start_run_end plans 0) 0 outs"

lemma emit_results_events:
  "emit_results codec plans announced got (map Inr results) relay = (relay', Inr (got @ results)) \<Longrightarrow>
   length got + length results = length plans \<Longrightarrow>
   emit_gateway_events codec (result_events plans announced (length got) (map gcr_public_output results)) relay = (relay', Inr ())"
proof (induction results arbitrary: announced got relay)
  case Nil
  then show ?case by (simp add: emit_gateway_events_def)
next
  case (Cons g results)
  obtain relay1 x where e: "emit_gateway_completed_events codec [gcr_public_output g] [plans ! length got] relay = (relay1, x)"
    by fastforce
  obtain relay2 y where f: "emit_gateway_start_events codec
      (drop announced (take (start_run_end plans (length got + 1)) plans)) relay1 = (relay2, y)" by fastforce
  have xy: "x = Inr ()" "y = Inr ()"
    and rest: "emit_results codec plans (max announced (start_run_end plans (length got + 1))) (got @ [g]) (map Inr results) relay2 =
      (relay', Inr (got @ g # results))"
    using Cons.prems e f by (auto simp: Let_def split: sum.splits)
  have rest': "emit_results codec plans (max announced (start_run_end plans (length got + 1))) (got @ [g]) (map Inr results) relay2 =
      (relay', Inr ((got @ [g]) @ results))" using rest by simp
  have "emit_gateway_events codec (result_events plans (max announced (start_run_end plans (length got + 1))) (Suc (length got))
      (map gcr_public_output results)) relay2 = (relay', Inr ())"
    using Cons.IH [OF rest'] Cons.prems(2) by simp
  with e f xy show ?case
    by (auto simp: emit_gateway_completed_events_def emit_gateway_start_events_def intro!: emit_gateway_events_append)
qed

lemma emit_calls_events:
  assumes "emit_calls_in_order w s order b relay = (relay', b', Inr results)"
  shows "emit_gateway_events (rw_codec w) (round_events (event_plans s) (map gcr_public_output results)) relay = (relay', Inr ())"
proof -
  from emit_calls_results [OF assms] have r: "results_in_order w (gsc_calls s) order b = (b', map Inr results)"
    and l: "length results = length (event_plans s)" by (auto simp: event_plans_def)
  let ?n = "start_run_end (event_plans s) 0"
  obtain relay1 where "emit_gateway_start_events (rw_codec w) (take ?n (event_plans s)) relay = (relay1, Inr ())"
    and "emit_results (rw_codec w) (event_plans s) ?n [] (map Inr results) relay1 = (relay', Inr ([] @ results))"
    using assms r by (auto simp: emit_calls_in_order_def Let_def split: prod.splits sum.splits)
  with emit_results_events [OF this(2)] l show ?thesis
    by (auto simp: round_events_def emit_gateway_start_events_def intro!: emit_gateway_events_append)
qed

section \<open>Order of items\<close>

fun added_at :: "gateway_event \<Rightarrow> nat list" where
  "added_at (GeAdded n _) = [n]"
| "added_at _ = []"

fun done_at :: "gateway_event \<Rightarrow> nat list" where
  "done_at (GeDone n _) = [n]"
| "done_at _ = []"

definition added_of :: "gateway_event list \<Rightarrow> nat list" where
  "added_of evs = concat (map added_at evs)"

definition done_of :: "gateway_event list \<Rightarrow> nat list" where
  "done_of evs = concat (map done_at evs)"

lemma order_append [simp]:
  "added_of [] = []" "done_of [] = []"
  "added_of (xs @ ys) = added_of xs @ added_of ys" "done_of (xs @ ys) = done_of xs @ done_of ys"
  "added_of (e # ys) = added_at e @ added_of ys" "done_of (e # ys) = done_at e @ done_of ys"
  by (simp_all add: added_of_def done_of_def)

text \<open>The events of one call that runs alone.\<close>

definition sequential_events :: "gateway_event_plan \<Rightarrow> output_item option \<Rightarrow> gateway_event list" where
  "sequential_events plan out = start_events plan @ completed_events plan out"

lemma completion_events_quiet: "completion_events n item = Some evs \<Longrightarrow> added_of evs = [] \<and> done_of evs = []"
  by (cases item) (auto split: if_splits)

lemma start_events_order:
  "done_of (start_events plan) = []"
  "added_of (start_events plan) = (if gep_started_output plan = None then [] else [gep_output_index plan])"
  by (auto simp: start_events_def Let_def code_interpreter_start_events_def split: option.splits output_item.splits)

lemma start_concat_quiet: "done_of (concat (map start_events plans)) = []"
  by (induction plans) (simp_all add: start_events_order)

lemma completed_events_order:
  "added_of (completed_events plan out) =
     (if done_of (completed_events plan out) = [] \<or> gep_follow_up_output plan = None then []
      else [min (gep_output_index plan + 1) (2 ^ 32 - 1)])"
  "done_of (completed_events plan out) = [] \<or>
   done_of (completed_events plan out) = gep_output_index plan #
     (if gep_follow_up_output plan = None then [] else [min (gep_output_index plan + 1) (2 ^ 32 - 1)])"
  by (auto simp: completed_events_def Let_def follow_up_events_def split: option.splits dest: completion_events_quiet)

lemma start_run_end_step:
  assumes "n < length plans"
  shows "start_run_end plans n = (if gep_follow_up_output (plans ! n) \<noteq> None then n + 1 else start_run_end plans (n + 1))"
proof -
  have "drop n plans = plans ! n # drop (n + 1) plans" using assms by (simp add: Cons_nth_drop_Suc)
  then show ?thesis by (auto simp: start_run_end_def split: option.splits)
qed

lemma position_bound: "position P xs = Some i \<Longrightarrow> i < length xs"
  by (induction xs arbitrary: i) (auto split: if_splits)

lemma start_run_end_bounds: "n \<le> length plans \<Longrightarrow> n \<le> start_run_end plans n \<and> start_run_end plans n \<le> length plans"
  using position_bound [of "\<lambda>p. gep_follow_up_output p \<noteq> None" "drop n plans"]
  by (fastforce simp: start_run_end_def split: option.splits)

lemma all_completed_single [simp]: "all_completed_events [out] [plan] = completed_events plan out"
  by (simp add: all_completed_events_def)

lemma result_events_order:
  assumes "length plans = n + length outs"
  defines "announced \<equiv> start_run_end plans n"
  defines "evs \<equiv> concat (map start_events (drop n (take announced plans))) @ result_events plans announced n outs"
    and "seq \<equiv> concat (map (\<lambda>(p, out). sequential_events p out) (zip (drop n plans) outs))"
  shows "added_of evs = added_of seq \<and> done_of evs = done_of seq"
  using assms(1) unfolding announced_def evs_def seq_def
proof (induction outs arbitrary: n)
  case Nil
  then show ?case by simp
next
  case (Cons out outs)
  let ?a = "start_run_end plans n" and ?b = "start_run_end plans (n + 1)"
  have n: "n < length plans" using Cons.prems by simp
  have plan: "drop n plans = plans ! n # drop (n + 1) plans" using n by (simp add: Cons_nth_drop_Suc)
  from start_run_end_bounds [of n plans] start_run_end_bounds [of "n + 1" plans] n
  have bounds: "n + 1 \<le> ?b" "?b \<le> length plans" by auto
  have IH: "added_of (concat (map start_events (drop (n + 1) (take ?b plans))) @ result_events plans ?b (n + 1) outs) =
      added_of (concat (map (\<lambda>(p, out). sequential_events p out) (zip (drop (n + 1) plans) outs))) \<and>
    done_of (concat (map start_events (drop (n + 1) (take ?b plans))) @ result_events plans ?b (n + 1) outs) =
      done_of (concat (map (\<lambda>(p, out). sequential_events p out) (zip (drop (n + 1) plans) outs)))"
    using Cons.IH [of "n + 1"] Cons.prems by simp
  show ?case
  proof (cases "gep_follow_up_output (plans ! n) = None")
    case True
    then have a: "?a = ?b" using start_run_end_step [OF n] by simp
    have front: "drop n (take ?b plans) = plans ! n # drop (n + 1) (take ?b plans)"
      using n bounds by (simp add: Cons_nth_drop_Suc [symmetric])
    from True have quiet: "added_of (completed_events (plans ! n) out) = []" by (simp add: completed_events_order(1))
    from IH quiet show ?thesis unfolding a front plan by (simp add: sequential_events_def start_concat_quiet)
  next
    case False
    then have a: "?a = n + 1" using start_run_end_step [OF n] by simp
    have front: "drop n (take (n + 1) plans) = [plans ! n]"
      using n by (simp add: take_Suc_conv_app_nth)
    from IH bounds show ?thesis unfolding a front plan by (simp add: sequential_events_def start_concat_quiet max_def)
  qed
qed

section \<open>Ascending positions\<close>

lemma sorted_concat:
  "sorted_wrt (<) (concat bs) \<longleftrightarrow>
   (\<forall>b \<in> set bs. sorted_wrt (<) b) \<and> sorted_wrt (\<lambda>b b'. \<forall>x \<in> set b. \<forall>y \<in> set b'. (x::nat) < y) bs"
  by (induction bs) (auto simp: sorted_wrt_append)

lemma position_of_mono:
  assumes "round_ok items r off k s" and "i < i'"
  shows "position_of s i + width_of s i \<le> position_of s i'"
proof -
  have "position_of s i + width_of s i = (\<Sum>j<Suc i. width_of s j)" using widths_sum [OF round_lists [OF assms(1)]] by simp
  also have "\<dots> \<le> (\<Sum>j<i'. width_of s j)" using assms(2) by (intro sum_mono2) auto
  finally show ?thesis using widths_sum [OF round_lists [OF assms(1)]] by simp
qed

lemma position_of_bound: "round_ok items r off k s \<Longrightarrow> position_of s i \<le> 2 * i"
proof -
  assume "round_ok items r off k s"
  then have "position_of s i = (\<Sum>j<i. width_of s j)" using widths_sum [OF round_lists] by simp
  also have "\<dots> \<le> (\<Sum>j<i. 2)" by (intro sum_mono) (simp add: width_of_def)
  finally show ?thesis by simp
qed

definition block_in :: "nat list \<Rightarrow> nat \<Rightarrow> nat \<Rightarrow> bool" where
  "block_in b n width \<longleftrightarrow> sorted_wrt (<) b \<and> set b \<subseteq> {n..<n + width}"

lemma sequential_block:
  assumes ok: "round_ok items r off (length items) s" and c: "c \<in> set (gsc_calls s)" and fits: "result_fits c g"
    and small: "off + 2 * length items < 2 ^ 32"
  defines "evs \<equiv> sequential_events (gcp_events c) (gcr_public_output g)"
    and "n \<equiv> off + position_of s (gcp_item_index c)" and "width \<equiv> width_of s (gcp_item_index c)"
  shows "block_in (added_of evs) n width \<and> block_in (done_of evs) n width"
proof -
  have i: "gcp_item_index c < length items" and p: "planned_for items r off s c" using ok c by (auto simp: round_ok_def)
  have n: "n + 2 \<le> 2 ^ 32" using position_of_bound [OF ok, of "gcp_item_index c"] i small by (simp add: n_def)
  then have idx: "gep_output_index (gcp_events c) = n" using p by (simp add: planned_for_def u32_or_max_def n_def)
  show ?thesis
  proof (cases "hidden_call c")
    case True
    with p fits have "evs = []"
      by (auto simp: evs_def sequential_events_def start_events_def completed_events_def planned_for_def coherent_call_def
          result_fits_def hidden_call_def)
    then show ?thesis by (simp add: block_in_def)
  next
    case False
    then have width: "width = (if gep_follow_up_output (gcp_events c) = None then 1 else 2)"
      using listed_calls [OF ok c] by (auto simp: width_def width_of_def widened_call_def)
    show ?thesis
      using completed_events_order [of "gcp_events c" "gcr_public_output g"] n
      unfolding evs_def sequential_events_def block_in_def width
      by (auto simp: start_events_order idx)
  qed
qed

lemma sequential_ascending:
  assumes ok: "round_ok items r off (length items) s" and fits: "list_all2 result_fits (gsc_calls s) results"
    and small: "off + 2 * length items < 2 ^ 32"
  defines "seq \<equiv> concat (map (\<lambda>(p, out). sequential_events p out) (zip (event_plans s) (map gcr_public_output results)))"
  shows "sorted_wrt (<) (added_of seq) \<and> sorted_wrt (<) (done_of seq)"
proof -
  let ?n = "length (gsc_calls s)" and ?ev = "\<lambda>j. sequential_events (gcp_events (gsc_calls s ! j)) (gcr_public_output (results ! j))"
  have l: "length results = ?n" using fits by (simp add: list_all2_lengthD)
  have seq: "seq = concat (map ?ev [0..<?n])"
    unfolding seq_def by (intro arg_cong [where f = concat] nth_equalityI) (auto simp: l event_plans_def)
  have of_concat: "added_of (concat (map f xs)) = concat (map (\<lambda>j. added_of (f j)) xs)"
    "done_of (concat (map f xs)) = concat (map (\<lambda>j. done_of (f j)) xs)" for f and xs :: "nat list"
    by (induction xs) auto
  let ?i = "\<lambda>j. gcp_item_index (gsc_calls s ! j)"
  have block: "block_in (added_of (?ev j)) (off + position_of s (?i j)) (width_of s (?i j)) \<and>
      block_in (done_of (?ev j)) (off + position_of s (?i j)) (width_of s (?i j))" if "j < ?n" for j
    using sequential_block [OF ok _ _ small, of "gsc_calls s ! j" "results ! j"] fits that
    by (simp add: list_all2_conv_all_nth)
  have less: "x < y" if "j < j'" "j' < ?n" "block_in b (off + position_of s (?i j)) (width_of s (?i j))"
    "block_in b' (off + position_of s (?i j')) (width_of s (?i j'))" "x \<in> set b" "y \<in> set b'" for j j' b b' x y
  proof -
    have "?i j < ?i j'" using ok that(1,2) by (auto simp: round_ok_def sorted_wrt_iff_nth_less)
    note mono = position_of_mono [OF ok this]
    have "x < off + position_of s (?i j) + width_of s (?i j)" using that(3,5) unfolding block_in_def by (meson atLeastLessThan_iff subsetD)
    moreover have "off + position_of s (?i j') \<le> y" using that(4,6) unfolding block_in_def by (meson atLeastLessThan_iff subsetD)
    ultimately show ?thesis using mono by linarith
  qed
  have "sorted_wrt (<) (concat (map f [0..<?n]))"
    if blocks: "\<And>j. j < ?n \<Longrightarrow> block_in (f j) (off + position_of s (?i j)) (width_of s (?i j))" for f
  proof -
    have "sorted_wrt (<) b" if "b \<in> set (map f [0..<?n])" for b
      using that blocks by (auto simp: block_in_def)
    moreover have "sorted_wrt (\<lambda>b b'. \<forall>x \<in> set b. \<forall>y \<in> set b'. x < y) (map f [0..<?n])"
      unfolding sorted_wrt_iff_nth_less
    proof (intro allI impI ballI)
      fix j j' x y
      assume j: "j < j'" "j' < length (map f [0..<?n])" and "x \<in> set (map f [0..<?n] ! j)" "y \<in> set (map f [0..<?n] ! j')"
      then have "x \<in> set (f j)" "y \<in> set (f j')" "j < ?n" "j' < ?n" by auto
      with j(1) show "x < y" using less [OF j(1) _ blocks [of j] blocks [of j']] by blast
    qed
    ultimately show ?thesis unfolding sorted_concat by blast
  qed
  from this [of "\<lambda>j. added_of (?ev j)"] this [of "\<lambda>j. done_of (?ev j)"] block show ?thesis
    unfolding seq of_concat by blast
qed



end
