(* ===== verification/Spec2Isabelle.thy ===== *)
theory Spec2Isabelle
  imports Tree_Checkpoint Compaction_Window Run_Owner Rate_Limit Model_Input Session_Safety Relay_Safety Delta_Reassembly Response_Contract
    Gateway_Order
begin

text \<open>
  Verification of the agentic API gateway.

  The program (\<open>src/crates\<close>) is a server in Rust between clients that speak the Responses API and an
  inference server that only knows function calling. A request's input is history: items of the client
  and of the server. The gateway rehydrates stored history, lowers it to what the model reads, runs
  turns of one or of several agents, executes its own tools, returns the client's tool calls to the
  client, and keeps the result for the next turn. This library models the parts that decide what is
  kept, what is refused, and in which order; \<open>agentic-server-core\<close> is abbreviated \<open>core\<close>.

  \<^bold>\<open>Theories.\<close>
  \<^item> \<open>Prelude\<close>: \<open>usize\<close> arithmetic, results, insertion-ordered maps, and the interfaces: \<open>keyed_store\<close>
    (interpreted on association lists), \<open>byte_budget\<close> and \<open>refundable_budget\<close> (interpreted on the response
    budget and on the checkpoint budget), \<open>invariant_system\<close> (interpreted on every step relation).
    \<open>Text_Utils\<close>: the string functions of the standard library that the code uses, on bytes.
  \<^item> \<open>Items\<close>: the input and output items of \<open>core/types/io\<close>, client calls and outputs, errors.
  \<^item> \<open>Response_Budget\<close> (\<open>core/executor/response_budget.rs\<close> and its submodules): the shared byte budget, the
    retained accounts and the size of every retained value. Charges are exact and bounded.
  \<^item> \<open>Call_Ledger\<close> (\<open>core/executor/pending_calls.rs\<close>): the scan of a history for calls and outputs. It
    accepts exactly the admissible histories, and its pending calls and resolved prefix are the
    declarative ones.
  \<^item> \<open>Compaction_Window\<close> (\<open>core/types/io/input\<close>, \<open>core/executor/compaction\<close>): which items survive a
    compaction. Open client calls survive, outputs follow their calls, and a commit is applied only to
    the history it was planned on.
  \<^item> \<open>Agent_Identity\<close>, \<open>Agent_Registry\<close>, \<open>Client_Calls\<close>, \<open>Tree_Checkpoint\<close>, \<open>Run_Owner\<close>
    (\<open>core/executor/multi_agent\<close>): the identities of an agent tree, its registry with mailboxes and turns,
    the table of client calls and their outputs, the validation of a stored tree against all of these,
    and the owner of the running tasks. Mail is delivered once and in order, outputs are conserved,
    a validated tree can be restored, and teardown loses no settlement.
  \<^item> \<open>Item_History\<close>, \<open>Search_History\<close>, \<open>File_Text\<close>, \<open>Model_Input\<close> (\<open>core/types/io\<close>): outputs as later inputs,
    public ids and admission, the pairing of tool searches, inlined text files, and the copy of the
    input that reaches the model. Only function calls, their outputs, reasoning and messages reach it,
    MCP tools under unambiguous names.
  \<^item> \<open>Session\<close>, \<open>Session_Safety\<close> (\<open>core/executor/session.rs\<close>, \<open>session/checkpoint.rs\<close>): continuation sessions,
    their leases, pins and retained checkpoints, over an explicit heap of shared checkpoints. Every
    live checkpoint is charged once, a session runs one turn at a time, a closed session publishes
    nothing, a pin keeps its parent.
  \<^item> \<open>Stream_Events\<close>, \<open>Frame_Validation\<close> (\<open>core/events\<close>): upstream lines become typed frames, and a frame is
    validated on its wire data before anything reads its payload. The payload agrees with what was
    validated, its integers fit their widths, and a relayed frame reads back as it was read.
  \<^item> \<open>Item_Lifecycle\<close> (\<open>core/executor/item_lifecycle.rs\<close>): the events synthesized for an item that no
    upstream streamed. A client that validates them receives the item, its texts and its arguments.
  \<^item> \<open>Stream_Relay\<close>, \<open>Relay_Safety\<close> (\<open>core/executor/relay.rs\<close>, \<open>relay/\<close>, \<open>gateway_accumulator.rs\<close>,
    \<open>response_events.rs\<close>): numbering, delivery to the sinks, frames deferred behind a hidden gateway call,
    and the public indexes of agent rounds, as a step relation with failing sends. The interface
    \<open>event_sink\<close> is interpreted on both sinks that stamp. The client's numbering has no gap, the buffer
    stays within its limits, release terminates, no frame is lost or presented twice.
  \<^item> \<open>Active_Items\<close>, \<open>Slot_Map\<close>, \<open>Accumulator\<close> (\<open>core/executor/accumulator\<close>): the reassembly of a stream into a
    response: items under construction per kind, the slots that identify them, strict and lenient
    ingestion, terminal events, steering cuts and JSON bodies. \<open>Active_Cost\<close>, \<open>Slot_Safety\<close>,
    \<open>Accumulator_Safety\<close> and \<open>Assembled_Response\<close> prove them: the interfaces \<open>charged_state\<close> (interpreted on
    every item kind) and \<open>slot_operation\<close> (on every operation of the slot map) carry the accounting and
    the finality of completed items up to whole streams. \<open>Stream_Contract\<close>, \<open>Steering_Cut\<close>,
    \<open>Delta_Reassembly\<close> and \<open>Response_Contract\<close> state the contract: a strict stream keeps its order, the
    terminal output is the one that was streamed, a steering cut keeps only what upstream confirmed, and
    interleaved deltas are reassembled in order.
  \<^item> \<open>Tool_Declarations\<close>, \<open>Tool_Registry\<close> (\<open>core/tool\<close>, \<open>core/executor/translate/namespace.rs\<close>): the tools of a
    request, the flat names of Codex namespaces and their restoration (the interface \<open>renaming\<close>, interpreted
    on the namespace map), and the registry that routes a call by name. No declared tool replaces another.
  \<^item> \<open>Gateway_Rounds\<close>, \<open>Gateway_Safety\<close>, \<open>Gateway_Order\<close> (\<open>core/executor/gateway.rs\<close>, \<open>gateway/\<close>): one round of
    calls that the gateway runs: admission, plan, execution, public output and lifecycle events.
    \<open>max_tool_calls\<close> holds over all rounds, announced positions are those of the response, and concurrent
    calls leave the trace of sequential ones, whatever their order of completion.
  \<^item> \<open>Rate_Limit\<close> (\<open>agentic-server/src/rate_limit.rs\<close>): the limiter's configuration, keys and buckets. The
    rate, the retry hints and the number of keys are bounded as configured.

  \<^bold>\<open>Conventions.\<close> A Rust \<open>struct\<close> is a record with the same fields, prefixed; an \<open>enum\<close> is a datatype. A
  method on \<open>&mut self\<close> returns the new state also when it fails. Strings are their UTF-8 bytes. Shared
  ownership (\<open>Arc\<close>) matters in the sessions only, which have an explicit heap. Operations that the code
  runs under a lock, or on one task, are single steps; the step relations interleave them freely.

  \<^bold>\<open>Parameters.\<close> Code outside the repository is an argument of the definitions that use it: JSON and other
  serializers (\<open>serializer\<close>, \<open>json_text\<close>, \<open>model_texts\<close>), the base64 decoder, the summariser's inference call,
  the serde encoding of whole
  items (\<open>event_codec\<close>), identifiers drawn at random, the tasks that Tokio's join set yields, what MCP
  discovery and the gateway's executors answer, and the order in which concurrent calls finish.

  \<^bold>\<open>Loops and bounds.\<close> All definitions are total except two loops, each a \<open>partial_function (option)\<close>:
  the search for a free MCP name (\<open>try_names\<close>) ends as soon as one attempt below \<open>2 ^ 32\<close> is free, and the
  release of deferred frames (\<open>release_deferred\<close>) always ends; both are theorems. Sizes are natural numbers with the 64-bit bound where the code checks or
  saturates; \<open>fetch_sub\<close> of the checkpoint budget wraps, and the invariant shows it never does.

  \<^bold>\<open>Not modelled.\<close> Transport and concurrency primitives (HTTP, SSE, websockets, Tokio), SQL storage,
  telemetry, configuration and command line: input and output, or third-party behaviour. The
  Messages API, the request preparation, the tools that the gateway runs and the steering queues are
  program logic that the development does not cover.
\<close>

end
